(* ===== verification/Prelude.thy ===== *)
theory Prelude
  imports Main "HOL-Library.AList" "HOL-Library.Multiset"
begin

text \<open>
  Shared vocabulary of the development: errors and fallible, state-changing actions, the
  fixed-width integers of Go with their wrap-around, the string functions of Go's
  \<open>strings\<close> and \<open>strconv\<close> packages that the sources call, and Go maps as association
  lists. Generic lemmas are declared \<open>[simp]\<close> or put into the collections
  \<open>go_strings\<close>, \<open>go_maps\<close> and \<open>action_simps\<close> that the component proofs pass to the
  simplifier.
\<close>

named_theorems go_strings \<open>facts on the string functions\<close>
named_theorems go_maps \<open>facts on Go maps as association lists\<close>
named_theorems action_simps \<open>unfolding of the actions\<close>

section \<open>Errors and actions\<close>

text \<open>
  Codes of \<open>google.golang.org/grpc/codes\<close> that the services return.
\<close>

datatype code = InvalidArgument | NotFound | AlreadyExists | PermissionDenied
  | Unauthenticated | FailedPrecondition | Internal | Unavailable | DeadlineExceeded
  | ResourceExhausted | Unimplemented

text \<open>
  A Go \<open>error\<close>: the sentinel values the code compares with, a plain text, a text
  wrapped with \<open>%w\<close> around another error, or a gRPC status. Texts keep the static part
  of the source's format string. \<open>ErrPanic\<close> stands for a run-time panic (a nil dereference):
  no error handler stops it.
\<close>

datatype error = ErrNotFound | ErrNotLeader | ErrNoNodeAvailable
  | ErrText string | ErrWrap string error | ErrStatus code string | ErrPanic string

text \<open>\<open>errors.Is\<close> follows the chain of wrapped errors.\<close>

fun errors_Is :: "error \<Rightarrow> error \<Rightarrow> bool" where
  "errors_Is (ErrWrap m e) t = (ErrWrap m e = t \<or> errors_Is e t)"
| "errors_Is e t = (e = t)"

fun is_panic :: "error \<Rightarrow> bool" where
  "is_panic (ErrPanic m) = True"
| "is_panic e = False"

type_synonym 'a res = "error + 'a"
type_synonym bytes = "char list"
type_synonym ('s, 'a) action = "'s \<Rightarrow> 'a res \<times> 's"

definition ret :: "'a \<Rightarrow> ('s, 'a) action" where
  "ret x s = (Inr x, s)"

definition throw :: "error \<Rightarrow> ('s, 'a) action" where
  "throw e s = (Inl e, s)"

text \<open>Sequencing: the first error ends the action and keeps what was already written.\<close>

definition bindA :: "('s, 'a) action \<Rightarrow> ('a \<Rightarrow> ('s, 'b) action) \<Rightarrow> ('s, 'b) action" where
  "bindA m f s = (case m s of (Inl e, s') \<Rightarrow> (Inl e, s') | (Inr x, s') \<Rightarrow> f x s')"

text \<open>A read: it inspects the state and leaves it as it is.\<close>

definition readA :: "('s \<Rightarrow> 'a res) \<Rightarrow> ('s, 'a) action" where
  "readA f s = (f s, s)"

text \<open>\<open>fmt.Errorf("...: %w", err)\<close> around an action.\<close>

definition wrapA :: "string \<Rightarrow> ('s, 'a) action \<Rightarrow> ('s, 'a) action" where
  "wrapA m a s = (case a s of (Inl e, s') \<Rightarrow> (Inl (if is_panic e then e else ErrWrap m e), s')
     | (Inr x, s') \<Rightarrow> (Inr x, s'))"

text \<open>\<open>status.Errorf(code, "...: %v", err)\<close> around an action.\<close>

definition statusA :: "code \<Rightarrow> string \<Rightarrow> ('s, 'a) action \<Rightarrow> ('s, 'a) action" where
  "statusA c m a s = (case a s of (Inl e, s') \<Rightarrow> (Inl (if is_panic e then e else ErrStatus c m), s')
     | (Inr x, s') \<Rightarrow> (Inr x, s'))"

text \<open>\<open>if err := ...; err != nil { log.Printf(...) }\<close>: the error is logged and dropped.\<close>

definition logA :: "('s, 'a) action \<Rightarrow> ('s, unit) action" where
  "logA a s = (case a s of (Inl e, s') \<Rightarrow> (if is_panic e then Inl e else Inr (), s')
     | (Inr x, s') \<Rightarrow> (Inr (), s'))"

text \<open>A \<open>for ... range\<close> loop whose body returns on the first error.\<close>

fun forA :: "('x \<Rightarrow> ('s, unit) action) \<Rightarrow> 'x list \<Rightarrow> ('s, unit) action" where
  "forA f [] = ret ()"
| "forA f (x # xs) = bindA (f x) (\<lambda>_. forA f xs)"

lemmas actions = ret_def throw_def bindA_def readA_def wrapA_def statusA_def logA_def
declare actions [action_simps]

lemma bindA_ret [simp]: "bindA (ret x) f = f x"
  by (simp add: fun_eq_iff actions)

lemma bindA_throw [simp]: "bindA (throw e) f = throw e"
  by (simp add: fun_eq_iff actions)

lemma bindA_assoc: "bindA (bindA m f) g = bindA m (\<lambda>x. bindA (f x) g)"
  by (simp add: fun_eq_iff actions split: prod.splits sum.splits)

lemma bindA_Inr:
  "bindA m f s = (Inr y, s'') \<longleftrightarrow> (\<exists>x s'. m s = (Inr x, s') \<and> f x s' = (Inr y, s''))"
  by (auto simp: bindA_def split: prod.splits sum.splits)

lemma wrapA_Inr [simp]: "wrapA m a s = (Inr x, s') \<longleftrightarrow> a s = (Inr x, s')"
  by (auto simp: wrapA_def split: prod.splits sum.splits)

lemma statusA_Inr [simp]: "statusA c m a s = (Inr x, s') \<longleftrightarrow> a s = (Inr x, s')"
  by (auto simp: statusA_def split: prod.splits sum.splits)

lemma snd_wrapA [simp]: "snd (wrapA m a s) = snd (a s)"
  by (auto simp: wrapA_def split: prod.splits sum.splits)

lemma snd_statusA [simp]: "snd (statusA c m a s) = snd (a s)"
  by (auto simp: statusA_def split: prod.splits sum.splits)

lemma snd_logA [simp]: "snd (logA a s) = snd (a s)"
  by (auto simp: logA_def split: prod.splits sum.splits)

lemma readA_Inr [simp]: "readA f s = (Inr x, s') \<longleftrightarrow> f s = Inr x \<and> s' = s"
  by (auto simp: readA_def)

lemma fst_ret [simp]: "fst (ret x s) = Inr x" and snd_ret [simp]: "snd (ret x s) = s"
  by (simp_all add: ret_def)

text \<open>An invariant kept by every iteration is kept by the loop, error or not.\<close>

lemma forA_invariant:
  assumes step: "\<And>x s. x \<in> set xs \<Longrightarrow> P s \<Longrightarrow> P (snd (f x s))" and init: "P s"
  shows "P (snd (forA f xs s))"
  using step init
proof (induction xs arbitrary: s)
  case Nil
  then show ?case by simp
next
  case (Cons x xs)
  obtain r s' where fx: "f x s = (r, s')" by fastforce
  with Cons.prems(1)[of x s] Cons.prems(2) have "P s'" by simp
  with Cons.IH[of s'] Cons.prems(1) fx show ?case
    by (auto simp: bindA_def split: sum.splits)
qed

section \<open>Fixed-width integers\<close>

text \<open>
  \<open>int64\<close> and \<open>int32\<close> are integers with Go's two's-complement wrap-around written out.
\<close>

type_synonym int64 = int
type_synonym int32 = int

definition wrap64 :: "int \<Rightarrow> int64" where
  "wrap64 x = (x + 9223372036854775808) mod 18446744073709551616 - 9223372036854775808"

definition wrap32 :: "int \<Rightarrow> int32" where
  "wrap32 x = (x + 2147483648) mod 4294967296 - 2147483648"

definition MaxInt64 :: int where "MaxInt64 = 9223372036854775807"
definition MaxInt32 :: int where "MaxInt32 = 2147483647"

definition in64 :: "int \<Rightarrow> bool" where
  "in64 x \<longleftrightarrow> - 9223372036854775808 \<le> x \<and> x \<le> 9223372036854775807"

definition in32 :: "int \<Rightarrow> bool" where
  "in32 x \<longleftrightarrow> - 2147483648 \<le> x \<and> x \<le> 2147483647"

lemma wrap64_id: "in64 x \<Longrightarrow> wrap64 x = x"
  by (simp add: in64_def wrap64_def)

lemma wrap32_id: "in32 x \<Longrightarrow> wrap32 x = x"
  by (simp add: in32_def wrap32_def)

lemma in64_wrap64 [simp]: "in64 (wrap64 x)"
proof -
  have "0 \<le> (x + 9223372036854775808) mod 18446744073709551616"
    and "(x + 9223372036854775808) mod 18446744073709551616 < 18446744073709551616"
    by simp_all
  then show ?thesis unfolding in64_def wrap64_def by linarith
qed

lemma in32_wrap32 [simp]: "in32 (wrap32 x)"
proof -
  have "0 \<le> (x + 2147483648) mod 4294967296"
    and "(x + 2147483648) mod 4294967296 < 4294967296"
    by simp_all
  then show ?thesis unfolding in32_def wrap32_def by linarith
qed

text \<open>Wrapping at the end of a sum of wrapped terms is wrapping once.\<close>

lemma wrap64_add_left [simp]: "wrap64 (wrap64 x + y) = wrap64 (x + y)"
proof -
  have "wrap64 (wrap64 x + y) =
      ((x + 9223372036854775808) mod 18446744073709551616 + y) mod 18446744073709551616
        - 9223372036854775808"
    by (simp add: wrap64_def)
  also have "\<dots> = (x + 9223372036854775808 + y) mod 18446744073709551616 - 9223372036854775808"
    by (simp only: mod_add_left_eq)
  finally show ?thesis by (simp only: wrap64_def ac_simps)
qed

lemma wrap64_add_right [simp]: "wrap64 (x + wrap64 y) = wrap64 (x + y)"
  using wrap64_add_left[of y x] by (simp add: add.commute)

text \<open>A \<open>time.Duration\<close> counts nanoseconds.\<close>

definition Second :: int where "Second = 1000000000"

text \<open>Go's \<open>/\<close> truncates towards zero.\<close>

definition go_div :: "int \<Rightarrow> int \<Rightarrow> int" where
  "go_div a b = sgn a * sgn b * (\<bar>a\<bar> div \<bar>b\<bar>)"

lemma go_div_pos: "0 \<le> a \<Longrightarrow> 0 < b \<Longrightarrow> go_div a b = a div b"
  by (cases "a = 0") (simp_all add: go_div_def)

section \<open>Strings\<close>

text \<open>
  A Go string is a sequence of bytes, a \<open>char list\<close> here.
\<close>

definition HasPrefix :: "string \<Rightarrow> string \<Rightarrow> bool" where
  "HasPrefix s p \<longleftrightarrow> take (length p) s = p"

definition HasSuffix :: "string \<Rightarrow> string \<Rightarrow> bool" where
  "HasSuffix s p \<longleftrightarrow> length p \<le> length s \<and> drop (length s - length p) s = p"

definition TrimPrefix :: "string \<Rightarrow> string \<Rightarrow> string" where
  "TrimPrefix s p = (if HasPrefix s p then drop (length p) s else s)"

lemma HasPrefix_append [simp, go_strings]: "HasPrefix (p @ s) p"
  by (simp add: HasPrefix_def)

lemma HasPrefix_iff: "HasPrefix s p \<longleftrightarrow> (\<exists>r. s = p @ r)"
  by (metis HasPrefix_append HasPrefix_def append_take_drop_id)

lemma HasPrefix_append_iff [simp, go_strings]: "HasPrefix (p @ s) (p @ q) \<longleftrightarrow> HasPrefix s q"
  by (simp add: HasPrefix_def)

lemma HasPrefix_Nil [simp, go_strings]: "HasPrefix s []"
  by (simp add: HasPrefix_def)

lemma TrimPrefix_append [simp, go_strings]: "TrimPrefix (p @ s) p = s"
  by (simp add: TrimPrefix_def)

text \<open>\<open>strconv.Itoa\<close> on a natural number, as \<open>%d\<close> prints it.\<close>

definition digit_char :: "nat \<Rightarrow> char" where
  "digit_char d = char_of (48 + d)"

fun Itoa :: "nat \<Rightarrow> string" where
  "Itoa n = (if n < 10 then [digit_char n] else Itoa (n div 10) @ [digit_char (n mod 10)])"

declare Itoa.simps [simp del]

text \<open>
  \<open>strconv.Atoi\<close>: an optional sign, then at least one digit and nothing else, and a value
  that fits \<open>int64\<close>.
\<close>

definition is_digit :: "char \<Rightarrow> bool" where
  "is_digit c \<longleftrightarrow> 48 \<le> (of_char c :: nat) \<and> (of_char c :: nat) \<le> 57"

definition digit_val :: "char \<Rightarrow> nat" where
  "digit_val c = of_char c - 48"

definition digits_val :: "string \<Rightarrow> nat" where
  "digits_val s = foldl (\<lambda>n c. 10 * n + digit_val c) 0 s"

definition Atoi :: "string \<Rightarrow> int option" where
  "Atoi s =
     (let (neg, ds) = (case s of [] \<Rightarrow> (False, [])
                        | c # r \<Rightarrow> if c = CHR ''-'' then (True, r)
                                  else if c = CHR ''+'' then (False, r) else (False, s));
          v = (if neg then - int (digits_val ds) else int (digits_val ds))
      in if ds \<noteq> [] \<and> list_all is_digit ds \<and> in64 v then Some v else None)"

lemma of_char_digit_char [simp]: "d < 10 \<Longrightarrow> (of_char (digit_char d) :: nat) = 48 + d"
  by (simp add: digit_char_def)

lemma is_digit_digit_char [simp]: "d < 10 \<Longrightarrow> is_digit (digit_char d)"
  by (simp add: is_digit_def)

lemma digit_val_digit_char [simp]: "d < 10 \<Longrightarrow> digit_val (digit_char d) = d"
  by (simp add: digit_val_def)

lemma Itoa_nonempty [simp]: "Itoa n \<noteq> []"
  by (subst Itoa.simps) simp

lemma Itoa_digits: "list_all is_digit (Itoa n)"
proof (induction n rule: Itoa.induct)
  case (1 n)
  then show ?case by (subst Itoa.simps) simp
qed

lemma digits_val_Itoa [simp]: "digits_val (Itoa n) = n"
proof (induction n rule: Itoa.induct)
  case (1 n)
  then show ?case by (subst Itoa.simps) (auto simp: digits_val_def)
qed

lemma is_digit_not_sign: "is_digit c \<Longrightarrow> c \<noteq> CHR ''-'' \<and> c \<noteq> CHR ''+'' \<and> c \<noteq> CHR ''/''"
  by (auto simp: is_digit_def)

lemma Atoi_Itoa: "int n \<le> MaxInt64 \<Longrightarrow> Atoi (Itoa n) = Some (int n)"
proof -
  assume n: "int n \<le> MaxInt64"
  obtain c r where cr: "Itoa n = c # r"
    by (cases "Itoa n") auto
  with Itoa_digits[of n] have "is_digit c" by simp
  then have "c \<noteq> CHR ''-''" "c \<noteq> CHR ''+''" by (auto dest: is_digit_not_sign)
  with cr n Itoa_digits[of n] digits_val_Itoa[of n] show ?thesis
    by (simp add: Atoi_def in64_def MaxInt64_def)
qed

lemma Itoa_inject [simp]: "Itoa m = Itoa n \<longleftrightarrow> m = n"
  by (metis digits_val_Itoa)

lemma Itoa_no_slash: "CHR ''/'' \<notin> set (Itoa n)"
  using Itoa_digits[of n] by (auto simp: list_all_iff dest: is_digit_not_sign)

section \<open>Maps\<close>

text \<open>
  A Go map is an association list with distinct keys; \<open>for k, v := range m\<close> visits it in
  list order. Theorems quantify over every such list, hence over every iteration order.
  Reading an absent key gives the zero value of the element type.
\<close>

type_synonym ('k, 'v) gomap = "('k \<times> 'v) list"

definition lget :: "(string, string) gomap \<Rightarrow> string \<Rightarrow> string" where
  "lget m k = (case map_of m k of None \<Rightarrow> [] | Some v \<Rightarrow> v)"

definition iget :: "('k, int) gomap \<Rightarrow> 'k \<Rightarrow> int" where
  "iget m k = (case map_of m k of None \<Rightarrow> 0 | Some v \<Rightarrow> v)"

definition bget :: "('k, bool) gomap \<Rightarrow> 'k \<Rightarrow> bool" where
  "bget m k = (case map_of m k of None \<Rightarrow> False | Some v \<Rightarrow> v)"

text \<open>\<open>maps.Copy(dst, src)\<close>.\<close>

definition maps_Copy :: "('k, 'v) gomap \<Rightarrow> ('k, 'v) gomap \<Rightarrow> ('k, 'v) gomap" where
  "maps_Copy dst src = foldl (\<lambda>m (k, v). AList.update k v m) dst src"

lemma map_of_update [simp, go_maps]: "map_of (AList.update k v m) = (map_of m)(k \<mapsto> v)"
  by (simp add: update_conv')

lemma map_of_delete [simp, go_maps]: "map_of (AList.delete k m) = (map_of m)(k := None)"
  by (simp add: delete_conv')

lemma iget_update [simp, go_maps]: "iget (AList.update k v m) k' = (if k' = k then v else iget m k')"
  by (simp add: iget_def)

lemma bget_update [simp, go_maps]: "bget (AList.update k v m) k' = (if k' = k then v else bget m k')"
  by (simp add: bget_def)

lemma lget_update [simp, go_maps]: "lget (AList.update k v m) k' = (if k' = k then v else lget m k')"
  by (simp add: lget_def)

lemma distinct_update [simp]: "distinct (map fst m) \<Longrightarrow> distinct (map fst (AList.update k v m))"
  by (rule distinct_update)

lemma set_update_subset: "set (AList.update k v m) \<subseteq> insert (k, v) (set m)"
  by (induction m) auto

lemma set_delete_subset: "set (AList.delete k m) \<subseteq> set m"
  by (induction m) auto

lemma mem_update_iff:
  assumes "distinct (map fst m)"
  shows "(k', v') \<in> set (AList.update k v m) \<longleftrightarrow> (if k' = k then v' = v else (k', v') \<in> set m)"
proof -
  have "(k', v') \<in> set (AList.update k v m) \<longleftrightarrow> map_of (AList.update k v m) k' = Some v'"
    using AList.distinct_update[OF assms] by (simp del: map_of_update)
  also have "\<dots> \<longleftrightarrow> (if k' = k then v' = v else map_of m k' = Some v')"
    by auto
  finally show ?thesis using assms by simp
qed

lemma map_of_rev_distinct: "distinct (map fst m) \<Longrightarrow> map_of (rev m) = map_of m"
  by (rule map_of_inject_set[THEN iffD2]) (simp_all add: rev_map[symmetric])

lemma map_of_maps_Copy: "map_of (maps_Copy dst src) = map_of dst ++ map_of (rev src)"
  by (induction src arbitrary: dst rule: rev_induct) (auto simp: maps_Copy_def)

end
