(* ===== verification/Paths.thy ===== *)
theory Paths
  imports Prelude
begin

text \<open>
  Slash-separated paths: the functions \<open>strings.Split\<close>, \<open>strings.Join\<close>, \<open>strings.Cut\<close> and
  \<open>filepath.Clean\<close>, \<open>Join\<close>, \<open>Dir\<close> and \<open>Rel\<close> of Go's standard library on Unix, as the node's
  file server and the CSI driver call them. A path is cleaned to its list of elements; the
  lemmas say how the functions act on that list, and characterise the check
  \<open>rel == ".." || strings.HasPrefix(rel, "../")\<close> that both components make.
\<close>

section \<open>Splitting and joining\<close>

fun split_on :: "char \<Rightarrow> string \<Rightarrow> string list" where
  "split_on c [] = [[]]"
| "split_on c (x # xs) =
     (if x = c then [] # split_on c xs
      else case split_on c xs of [] \<Rightarrow> [[x]] | y # ys \<Rightarrow> (x # y) # ys)"

fun join_with :: "string \<Rightarrow> string list \<Rightarrow> string" where
  "join_with sep [] = []"
| "join_with sep [x] = x"
| "join_with sep (x # y # ys) = x @ sep @ join_with sep (y # ys)"

text \<open>\<open>strings.Cut\<close> at a one-byte separator.\<close>

definition Cut :: "string \<Rightarrow> char \<Rightarrow> string \<times> string \<times> bool" where
  "Cut s c = (if c \<in> set s then (takeWhile (\<lambda>x. x \<noteq> c) s, tl (dropWhile (\<lambda>x. x \<noteq> c) s), True)
              else (s, [], False))"

lemma split_on_nonempty [simp]: "split_on c s \<noteq> []"
  by (induction s) (auto split: list.splits)

lemma split_on_append [simp]: "split_on c (a @ c # b) = split_on c a @ split_on c b"
  by (induction a) (auto split: list.splits)

lemma split_on_none: "c \<notin> set s \<Longrightarrow> split_on c s = [s]"
  by (induction s) auto

lemma split_on_elems: "e \<in> set (split_on c s) \<Longrightarrow> c \<notin> set e"
proof (induction s arbitrary: e)
  case (Cons x s)
  show ?case
  proof (cases "split_on c s")
    case (Cons y ys)
    with Cons.prems Cons.IH show ?thesis by (auto split: if_splits)
  qed simp
qed simp

lemma join_with_Cons: "es \<noteq> [] \<Longrightarrow> join_with sep (e # es) = e @ sep @ join_with sep es"
  by (cases es) auto

lemma split_join:
  "es \<noteq> [] \<Longrightarrow> \<forall>e \<in> set es. c \<notin> set e \<Longrightarrow> split_on c (join_with [c] es) = es"
proof (induction es)
  case (Cons e es)
  then show ?case by (cases "es = []") (auto simp: join_with_Cons split_on_none)
qed simp

lemma join_split: "join_with [c] (split_on c s) = s"
proof (induction s)
  case (Cons x s)
  show ?case
  proof (cases "split_on c s")
    case (Cons y ys)
    with Cons.IH show ?thesis by (cases ys) auto
  qed simp
qed simp

section \<open>Cleaning\<close>

abbreviation slash :: char where "slash \<equiv> CHR ''/''"

definition is_abs :: "string \<Rightarrow> bool" where
  "is_abs p \<longleftrightarrow> p \<noteq> [] \<and> hd p = slash"

text \<open>
  \<open>filepath.Clean\<close> on the elements: empty elements and \<open>.\<close> go, an inner \<open>..\<close> takes the
  element before it along, and a \<open>..\<close> at the root goes. The accumulator holds the elements
  kept so far, last first.
\<close>

fun clean_acc :: "bool \<Rightarrow> string list \<Rightarrow> string list \<Rightarrow> string list" where
  "clean_acc r acc [] = acc"
| "clean_acc r acc (e # es) =
     (if e = [] \<or> e = ''.'' then clean_acc r acc es
      else if e = ''..'' then
        (case acc of [] \<Rightarrow> clean_acc r (if r then [] else [''..'']) es
         | a # acc' \<Rightarrow> if a = ''..'' then clean_acc r (''..'' # acc) es else clean_acc r acc' es)
      else clean_acc r (e # acc) es)"

definition elems :: "string \<Rightarrow> string list" where
  "elems p = rev (clean_acc (is_abs p) [] (split_on slash p))"

definition render :: "bool \<Rightarrow> string list \<Rightarrow> string" where
  "render r es = (if r then slash # join_with ''/'' es else if es = [] then ''.'' else join_with ''/'' es)"

definition Clean :: "string \<Rightarrow> string" where
  "Clean p = render (is_abs p) (elems p)"

text \<open>\<open>filepath.Join\<close>: leading empty arguments are dropped.\<close>

definition Join :: "string list \<Rightarrow> string" where
  "Join ps = (case dropWhile (\<lambda>p. p = []) ps of [] \<Rightarrow> [] | q # qs \<Rightarrow> Clean (join_with ''/'' (q # qs)))"

text \<open>\<open>filepath.Dir\<close>: everything up to the last slash, cleaned.\<close>

definition Dir :: "string \<Rightarrow> string" where
  "Dir p = Clean (rev (dropWhile (\<lambda>x. x \<noteq> slash) (rev p)))"

text \<open>
  \<open>filepath.Rel\<close>: the elements after the common prefix, behind one \<open>..\<close> for every element of
  the base that is left. It fails when only one of the two paths is rooted and when the base
  goes up where the target does not.
\<close>

fun strip :: "string list \<Rightarrow> string list \<Rightarrow> string list \<times> string list" where
  "strip (b # bs) (t # ts) = (if b = t then strip bs ts else (b # bs, t # ts))"
| "strip bs ts = (bs, ts)"

definition Rel :: "string \<Rightarrow> string \<Rightarrow> string res" where
  "Rel base targ =
     (if Clean base = Clean targ then Inr ''.''
      else if is_abs base \<noteq> is_abs targ then Inl (ErrText ''Rel: can't make relative'')
      else case strip (elems base) (elems targ) of (bs, ts) \<Rightarrow>
        if bs \<noteq> [] \<and> hd bs = ''..'' then Inl (ErrText ''Rel: can't make relative'')
        else Inr (join_with ''/'' (replicate (length bs) ''..'' @ ts)))"

section \<open>Cleaned elements\<close>

text \<open>A plain element: what a name has to be to stand for one directory entry.\<close>

definition plain :: "string \<Rightarrow> bool" where
  "plain e \<longleftrightarrow> e \<noteq> [] \<and> slash \<notin> set e \<and> e \<noteq> ''.'' \<and> e \<noteq> ''..''"

text \<open>The form of a cleaned list: \<open>..\<close> only in front, and only when the path is relative.\<close>

definition normal :: "bool \<Rightarrow> string list \<Rightarrow> bool" where
  "normal r es \<longleftrightarrow> (\<exists>n ps. es = replicate n ''..'' @ ps \<and> list_all plain ps \<and> (r \<longrightarrow> n = 0))"

lemma normal_Nil [simp]: "normal r []"
  by (auto simp: normal_def)

lemma normal_snoc_plain: "normal r es \<Longrightarrow> plain e \<Longrightarrow> normal r (es @ [e])"
  by (fastforce simp: normal_def)

lemma normal_butlast:
  assumes "normal r (es @ [e])" shows "normal r es" and "e \<noteq> ''..'' \<Longrightarrow> plain e"
proof -
  from assms obtain n ps where n: "es @ [e] = replicate n ''..'' @ ps" "list_all plain ps" "r \<longrightarrow> n = 0"
    by (auto simp: normal_def)
  have "normal r es \<and> (e \<noteq> ''..'' \<longrightarrow> plain e)"
  proof (cases ps rule: rev_cases)
    case Nil
    with n obtain m where "n = Suc m" by (cases n) auto
    with n(1) Nil have "es @ [e] = replicate m ''..'' @ [''..'']" by (simp only: replicate_Suc replicate_append_same append_Nil2)
    then have "es = replicate m ''..'' @ []" "e = ''..''" by simp_all
    moreover from n(3) \<open>n = Suc m\<close> have "\<not> r" by simp
    ultimately show ?thesis unfolding normal_def by fastforce
  next
    case (snoc ps' p)
    with n have "es = replicate n ''..'' @ ps'" "e = p" by simp_all
    with n snoc show ?thesis by (auto simp: normal_def)
  qed
  then show "normal r es" "e \<noteq> ''..'' \<Longrightarrow> plain e" by blast+
qed

lemma normal_dots:
  assumes "normal False (es @ [''..''])" shows "normal False (es @ [''..'', ''..''])"
proof -
  from assms obtain n ps where n: "es @ [''..''] = replicate n ''..'' @ ps" "list_all plain ps"
    by (auto simp: normal_def)
  have "ps = []"
    by (cases ps rule: rev_cases) (use n in \<open>auto simp: plain_def\<close>)
  with n have "es @ [''..'', ''..''] = replicate (Suc n) ''..''"
    by (metis append.assoc append_Cons append_Nil append_Nil2 replicate_Suc replicate_append_same)
  then show ?thesis by (auto simp: normal_def intro!: exI[of _ "Suc n"] exI[of _ "[]"])
qed

lemma normal_rooted_last: "normal True (es @ [e]) \<Longrightarrow> e \<noteq> ''..''"
  by (auto simp: normal_def list_all_iff plain_def)

lemma clean_acc_append: "clean_acc r acc (xs @ ys) = clean_acc r (clean_acc r acc xs) ys"
  by (induction r acc xs rule: clean_acc.induct) (auto split: list.splits)

lemma clean_acc_normal:
  "normal r (rev acc) \<Longrightarrow> \<forall>e \<in> set es. slash \<notin> set e \<Longrightarrow> normal r (rev (clean_acc r acc es))"
proof (induction r acc es rule: clean_acc.induct)
  case (2 r acc e es)
  consider "e = [] \<or> e = ''.''" | "e = ''..''" | "plain e"
    using 2 by (auto simp: plain_def)
  then show ?case
  proof cases
    case 2
    note dd = this
    show ?thesis
    proof (cases acc)
      case Nil
      have "normal False [''..'']" by (auto simp: normal_def intro!: exI[of _ 1] exI[of _ "[]"])
      with dd Nil "2.IH" "2.prems" show ?thesis by (cases r) auto
    next
      case (Cons a acc')
      note n = "2.prems"(1)[unfolded Cons, simplified]
      show ?thesis
      proof (cases "a = ''..''")
        case True
        with n have "\<not> r" using normal_rooted_last[of "rev acc'" a] by (cases r) auto
        with True n have "normal r (rev acc' @ [''..'', ''..''])"
          using normal_dots[of "rev acc'"] by simp
        with True dd Cons "2.IH" "2.prems" show ?thesis by auto
      next
        case False
        with dd Cons "2.IH" "2.prems" normal_butlast(1)[OF n] show ?thesis by auto
      qed
    qed
  qed (use 2 normal_snoc_plain[of r "rev acc" e] in \<open>auto simp: plain_def\<close>)
qed simp

lemma elems_normal: "normal (is_abs p) (elems p)"
  unfolding elems_def by (rule clean_acc_normal) (auto dest: split_on_elems)

text \<open>Cleaning leaves a cleaned list alone.\<close>

lemma clean_acc_plain: "list_all plain ps \<Longrightarrow> clean_acc r acc ps = rev ps @ acc"
  by (induction ps arbitrary: acc) (auto simp: plain_def)

lemma clean_acc_dots: "clean_acc False (replicate m ''..'') (replicate n ''..'') = replicate (n + m) ''..''"
proof (induction n arbitrary: m)
  case (Suc n)
  have "clean_acc False (replicate m ''..'') (''..'' # es) = clean_acc False (replicate (Suc m) ''..'') es" for es
    by (cases m) auto
  with Suc[of "Suc m"] show ?case by simp
qed simp

lemma clean_acc_id:
  assumes "normal r es" shows "clean_acc r [] es = rev es"
proof -
  from assms obtain n ps where n: "es = replicate n ''..'' @ ps" "list_all plain ps" "r \<longrightarrow> n = 0"
    by (auto simp: normal_def)
  have "clean_acc r [] (replicate n ''..'') = replicate n ''..''"
    using n(3) clean_acc_dots[of 0 n] by (cases r) auto
  with n show ?thesis by (simp add: clean_acc_append clean_acc_plain)
qed

lemma normal_no_slash:
  assumes "normal r es" "e \<in> set es" shows "slash \<notin> set e \<and> e \<noteq> []"
proof -
  from assms have "e = ''..'' \<or> plain e" by (auto simp: normal_def list_all_iff)
  then show ?thesis by (auto simp: plain_def)
qed

lemma is_abs_render:
  assumes "normal r es" shows "is_abs (render r es) = r"
proof (cases es)
  case (Cons e es')
  with assms normal_no_slash[of r es e] have "e \<noteq> []" "slash \<notin> set e" by auto
  with Cons show ?thesis
    by (cases es') (auto simp: render_def is_abs_def hd_append dest: hd_in_set)
qed (simp add: render_def is_abs_def)

lemma elems_render:
  assumes "normal r es" shows "elems (render r es) = es"
proof (cases "es = []")
  case True
  then show ?thesis by (cases r) (simp_all add: render_def elems_def is_abs_def)
next
  case False
  have "split_on slash (join_with ''/'' es) = es"
    using split_join[OF False, of slash] normal_no_slash[OF assms] by auto
  with False assms show ?thesis
    unfolding elems_def is_abs_render[OF assms] by (cases r) (simp_all add: render_def clean_acc_id)
qed

lemma elems_Clean [simp]: "elems (Clean p) = elems p"
  by (simp add: Clean_def elems_render elems_normal)

lemma is_abs_Clean [simp]: "is_abs (Clean p) = is_abs p"
  by (simp add: Clean_def is_abs_render elems_normal)

lemma Clean_Clean [simp]: "Clean (Clean p) = Clean p"
  by (subst Clean_def) (simp add: Clean_def[of p, symmetric])

lemma Clean_eq_iff: "Clean p = Clean q \<longleftrightarrow> is_abs p = is_abs q \<and> elems p = elems q"
proof
  assume "Clean p = Clean q"
  then have "is_abs (Clean p) = is_abs (Clean q)" "elems (Clean p) = elems (Clean q)" by simp_all
  then show "is_abs p = is_abs q \<and> elems p = elems q" by simp
qed (simp add: Clean_def)

lemma join_with_nonempty: "es \<noteq> [] \<Longrightarrow> hd es \<noteq> [] \<Longrightarrow> join_with sep es \<noteq> []"
  by (cases "(sep, es)" rule: join_with.cases) auto

lemma Clean_nonempty [simp]: "Clean p \<noteq> []"
  using join_with_nonempty[of "elems p" "''/''"] normal_no_slash[OF elems_normal, of "hd (elems p)" p]
  by (auto simp: Clean_def render_def)

section \<open>Joining paths\<close>

lemma Join_Cons: "p \<noteq> [] \<Longrightarrow> Join (p # ps) = Clean (join_with ''/'' (p # ps))"
  by (simp add: Join_def)

lemma Join_nonempty [simp]: "p \<noteq> [] \<Longrightarrow> Join (p # ps) \<noteq> []"
  by (simp add: Join_Cons)

lemma Clean_Join [simp]: "p \<noteq> [] \<Longrightarrow> Clean (Join (p # ps)) = Join (p # ps)"
  by (simp add: Join_Cons)

lemma is_abs_join [simp]: "p \<noteq> [] \<Longrightarrow> is_abs (join_with ''/'' (p # ps)) = is_abs p"
  by (cases ps) (simp_all add: is_abs_def hd_append)

lemma is_abs_append [simp]: "p \<noteq> [] \<Longrightarrow> is_abs (p @ q) = is_abs p"
  by (simp add: is_abs_def)

text \<open>Joining continues cleaning where the first path stopped.\<close>

lemma elems_append:
  assumes "p \<noteq> []"
  shows "elems (p @ slash # q) = rev (clean_acc (is_abs p) (rev (elems p)) (split_on slash q))"
  using assms by (simp add: elems_def is_abs_def hd_append clean_acc_append)

lemma elems_Join2:
  assumes "p \<noteq> []"
  shows "elems (Join [p, q]) = rev (clean_acc (is_abs p) (rev (elems p)) (split_on slash q))"
    and "is_abs (Join [p, q]) = is_abs p"
  using assms by (simp_all add: Join_Cons elems_append)

lemma Join3:
  assumes "p \<noteq> []" shows "Join [p, q, r] = Join [Join [p, q], r]"
proof -
  have "elems (Join [p, q, r]) = elems (Join [Join [p, q], r])"
    using assms by (simp add: Join_Cons elems_append[of p] elems_append[of "Clean _"] clean_acc_append)
  moreover have "is_abs (Join [p, q, r]) = is_abs (Join [Join [p, q], r])"
    using assms by (simp add: Join_Cons)
  ultimately have "Clean (Join [p, q, r]) = Clean (Join [Join [p, q], r])"
    by (simp add: Clean_eq_iff)
  then show ?thesis using assms by simp
qed

text \<open>A plain name joined to a directory is an entry of it.\<close>

lemma elems_Join_plain:
  assumes "p \<noteq> []" "plain e"
  shows "elems (Join [p, e]) = elems p @ [e]"
proof -
  have "split_on slash e = [e]" using assms(2) by (simp add: plain_def split_on_none)
  with assms show ?thesis by (simp add: elems_Join2 plain_def)
qed

text \<open>The directory of a cleaned path drops its last element.\<close>

lemma join_with_snoc: "es \<noteq> [] \<Longrightarrow> join_with sep (es @ [e]) = join_with sep es @ sep @ e"
  by (induction sep es rule: join_with.induct) auto

lemma Dir_append:
  assumes "slash \<notin> set e" shows "Dir (x @ slash # e) = Clean (x @ [slash])"
proof -
  have "dropWhile (\<lambda>c. c \<noteq> slash) (rev e @ slash # rev x) = slash # rev x"
    using assms by (subst dropWhile_append2) auto
  then show ?thesis by (simp add: Dir_def)
qed

lemma elems_trailing:
  shows "x \<noteq> [] \<Longrightarrow> elems (x @ [slash]) = elems x" and "elems [slash] = []"
  using elems_append[of x "[]"] by (simp_all add: elems_def)

lemma Dir_no_slash: "slash \<notin> set e \<Longrightarrow> Dir e = ''.''"
proof -
  assume "slash \<notin> set e"
  then have "dropWhile (\<lambda>c. c \<noteq> slash) (rev e) = []" by (auto simp: dropWhile_eq_Nil_conv)
  then have "Dir e = Clean []" by (simp only: Dir_def rev.simps)
  then show ?thesis by (simp add: Clean_def render_def elems_def is_abs_def)
qed

lemma is_abs_slash [simp]: "is_abs [slash]"
  by (simp add: is_abs_def)

lemma elems_dot [simp]: "elems ''.'' = []" and is_abs_dot [simp]: "\<not> is_abs ''.''"
  by (simp_all add: elems_def is_abs_def)

lemma elems_Dir:
  "elems (Dir (Clean p)) = butlast (elems p)" "is_abs (Dir (Clean p)) = is_abs p"
proof -
  have "elems (Dir (render r es)) = butlast es \<and> is_abs (Dir (render r es)) = r" if n: "normal r es" for r es
  proof (cases es rule: rev_cases)
    case Nil
    then show ?thesis
      by (cases r) (simp_all add: render_def Dir_def Clean_def elems_def is_abs_def)
  next
    case (snoc es' e)
    have e: "slash \<notin> set e" using normal_no_slash[OF n, of e] snoc by simp
    note n' = normal_butlast(1)[OF n[unfolded snoc]]
    show ?thesis
    proof (cases "es' = []")
      case True
      with snoc e Dir_append[OF e, of "[]"] show ?thesis
        by (cases r) (simp_all add: render_def Dir_no_slash elems_trailing)
    next
      case False
      then have "render r es = render r es' @ slash # e"
        using snoc by (simp add: render_def join_with_snoc)
      moreover have "render r es' \<noteq> []"
        using False normal_no_slash[OF n', of "hd es'"] join_with_nonempty[of es' "''/''"] by (auto simp: render_def)
      ultimately show ?thesis
        using Dir_append[OF e, of "render r es'"] elems_render[OF n'] is_abs_render[OF n'] snoc
        by (simp add: elems_trailing)
    qed
  qed
  from this[OF elems_normal[of p]] show "elems (Dir (Clean p)) = butlast (elems p)"
    "is_abs (Dir (Clean p)) = is_abs p" by (simp_all add: Clean_def)
qed

section \<open>Containment\<close>

text \<open>
  \<open>p\<close> is the directory \<open>d\<close> or lies below it. On cleaned paths this is a prefix of elements,
  with no step up after it.
\<close>

definition inside :: "string \<Rightarrow> string \<Rightarrow> bool" where
  "inside d p \<longleftrightarrow> is_abs d = is_abs p \<and> (\<exists>ts. elems p = elems d @ ts \<and> ''..'' \<notin> set ts)"

definition rel_escapes :: "string \<Rightarrow> bool" where
  "rel_escapes rel \<longleftrightarrow> rel = ''..'' \<or> HasPrefix rel (''..'' @ ''/'')"

lemma strip_spec:
  "strip bs ts = (bs', ts') \<Longrightarrow> \<exists>c. bs = c @ bs' \<and> ts = c @ ts' \<and> (bs' = [] \<or> ts' = [] \<or> hd bs' \<noteq> hd ts')"
proof (induction bs ts rule: strip.induct)
  case (1 b bs t ts)
  show ?case
  proof (cases "b = t")
    case True
    with 1 obtain c where "bs = c @ bs'" "ts = c @ ts'" "bs' = [] \<or> ts' = [] \<or> hd bs' \<noteq> hd ts'" by auto
    with True show ?thesis by (intro exI[of _ "b # c"]) simp
  qed (use 1 in auto)
qed auto

lemma strip_prefix: "strip bs (bs @ ts) = ([], ts)"
  by (induction bs) auto

lemma rel_escapes_dots: "rel_escapes (join_with ''/'' (''..'' # ts))"
  by (cases ts) (simp_all add: rel_escapes_def HasPrefix_def)

lemma not_rel_escapes_elem:
  assumes "slash \<notin> set t" "t \<noteq> ''..''" shows "\<not> rel_escapes (join_with ''/'' (t # ts))"
proof
  assume "rel_escapes (join_with ''/'' (t # ts))"
  then obtain r where r: "join_with ''/'' (t # ts) = ''..'' @ r" "r = [] \<or> hd r = slash"
    by (auto simp: rel_escapes_def HasPrefix_iff)
  have "takeWhile (\<lambda>x. x \<noteq> slash) (join_with ''/'' (t # ts)) = t"
    using assms(1) by (cases ts) (auto simp: takeWhile_append1 takeWhile_eq_all_conv takeWhile_append)
  moreover have "takeWhile (\<lambda>x. x \<noteq> slash) (''..'' @ r) = ''..''"
    using r(2) by (cases r) auto
  ultimately show False using r(1) assms(2) by simp
qed

text \<open>After the common prefix a cleaned path steps up only at once.\<close>

lemma normal_rest:
  assumes "normal r (xs @ t # ts)" "t \<noteq> ''..''" shows "''..'' \<notin> set (t # ts)"
proof -
  from assms obtain n ps where n: "xs @ t # ts = replicate n ''..'' @ ps" "list_all plain ps"
    by (auto simp: normal_def)
  have "n \<le> length xs"
  proof (rule ccontr)
    assume "\<not> n \<le> length xs"
    then have "(replicate n ''..'' @ ps) ! length xs = ''..''" by (simp add: nth_append)
    with n(1) assms(2) show False by (metis nth_append_length)
  qed
  then have "drop (length xs) (replicate n ''..'' @ ps) = drop (length xs - n) ps" by simp
  moreover have "drop (length xs) (xs @ t # ts) = t # ts" by simp
  ultimately have "t # ts = drop (length xs - n) ps" using n(1) by (simp only:)
  moreover have "''..'' \<notin> set (drop (length xs - n) ps)"
    using n(2) by (auto simp: list_all_iff plain_def dest: in_set_dropD)
  ultimately show ?thesis by (simp only:) simp
qed

text \<open>
  The check of the sources is exact: \<open>Rel\<close> fails or escapes exactly when the target is not
  inside the base.
\<close>

lemma Rel_inside:
  "(case Rel base targ of Inl e \<Rightarrow> False | Inr rel \<Rightarrow> \<not> rel_escapes rel) \<longleftrightarrow> inside base targ"
proof (cases "Clean base = Clean targ")
  case True
  then show ?thesis by (simp add: Rel_def inside_def rel_escapes_def HasPrefix_def Clean_eq_iff)
next
  case False
  show ?thesis
  proof (cases "is_abs base = is_abs targ")
    case abs: True
    obtain bs ts where st: "strip (elems base) (elems targ) = (bs, ts)" by fastforce
    from strip_spec[OF st] obtain c where c: "elems base = c @ bs" "elems targ = c @ ts"
      "bs = [] \<or> ts = [] \<or> hd bs \<noteq> hd ts" by blast
    show ?thesis
    proof (cases bs)
      case Nil
      with False abs c have "ts \<noteq> []" by (auto simp: Clean_eq_iff)
      then obtain t ts' where t: "ts = t # ts'" by (cases ts) auto
      have nt: "slash \<notin> set t" using normal_no_slash[OF elems_normal[of targ], of t] c t by simp
      have "inside base targ \<longleftrightarrow> t \<noteq> ''..''"
        using c Nil t abs normal_rest[of "is_abs targ" c t ts'] elems_normal[of targ]
        by (auto simp: inside_def)
      moreover have "\<not> rel_escapes (join_with ''/'' ts) \<longleftrightarrow> t \<noteq> ''..''"
        using rel_escapes_dots not_rel_escapes_elem[OF nt] t by auto
      ultimately show ?thesis using False abs st Nil by (simp add: Rel_def)
    next
      case (Cons b bs')
      have "\<not> inside base targ"
      proof
        assume "inside base targ"
        with c Cons have "ts \<noteq> []" "hd ts = b" by (auto simp: inside_def)
        with c(3) Cons show False by simp
      qed
      moreover have "rel_escapes (join_with ''/'' (replicate (length bs) ''..'' @ ts))"
        using rel_escapes_dots[of "replicate (length bs') ''..'' @ ts"] Cons by simp
      ultimately show ?thesis using False abs st Cons by (simp add: Rel_def)
    qed
  qed (use False in \<open>simp add: Rel_def inside_def\<close>)
qed

lemma inside_refl [simp]: "inside d d"
  by (simp add: inside_def)

end
