(* ===== verification/Disk.thy ===== *)
theory Disk
  imports Paths "HOL-Library.Sublist" "HOL-Library.Char_ord" "HOL-Library.List_Lexorder"
begin

text \<open>
  The part of Go's \<open>os\<close> package that the node's file server and the CSI driver call, on a
  directory tree. The tree is an association list from cleaned paths to entries; the root
  (and the working directory) always exists. The tree holds files and directories only;
  theory Links adds symbolic links and the calls that follow them.

  Faults of the operating system (permissions, a full disk) are a parameter. \<open>io_fault\<close> says
  which call on which path fails and with what, and the other fields say how far a call got
  before it failed: how many directories \<open>MkdirAll\<close> had made, whether \<open>WriteFile\<close> had
  opened and truncated the file and how many bytes it had written, which entries \<open>RemoveAll\<close>
  had removed. An environment describes the faults during one call of the program; faults
  that come and go are a sequence of calls, each with its own environment.
\<close>

type_synonym dpath = "bool \<times> string list"

datatype fnode = NFile bytes | NDir

type_synonym disk = "(dpath, fnode) gomap"

record io_env =
  io_fault :: "string \<Rightarrow> string \<Rightarrow> error option"
  io_Info :: "string \<Rightarrow> (int64 \<times> int64) res"
  io_made :: "string \<Rightarrow> nat"
  io_written :: "string \<Rightarrow> nat option"
  io_removed :: "string \<Rightarrow> dpath \<Rightarrow> bool"

text \<open>The environment without faults.\<close>

definition calm :: io_env where
  "calm = \<lparr>io_fault = \<lambda>op p. None, io_Info = \<lambda>p. Inr (0, 0), io_made = \<lambda>p. 0, io_written = \<lambda>p. None, io_removed = \<lambda>p k. False\<rparr>"

lemma calm_simps [simp]: "io_fault calm op p = None" "io_Info calm p = Inr (0, 0)"
  by (simp_all add: calm_def)

definition dkey :: "string \<Rightarrow> dpath" where
  "dkey p = (is_abs p, elems p)"

definition node_at :: "disk \<Rightarrow> dpath \<Rightarrow> fnode option" where
  "node_at d k = (if snd k = [] then Some NDir else map_of d k)"

definition below :: "dpath \<Rightarrow> dpath \<Rightarrow> bool" where
  "below k k' \<longleftrightarrow> fst k = fst k' \<and> prefix (snd k) (snd k')"

definition os_ErrNotExist :: error where
  "os_ErrNotExist = ErrText ''file does not exist''"

definition os_IsNotExist :: "error \<Rightarrow> bool" where
  "os_IsNotExist e \<longleftrightarrow> e = os_ErrNotExist"

section \<open>Operations\<close>

definition faulty :: "io_env \<Rightarrow> string \<Rightarrow> string \<Rightarrow> (disk, 'a) action \<Rightarrow> (disk, 'a) action" where
  "faulty io op p m = (case io_fault io op p of Some e \<Rightarrow> throw e | None \<Rightarrow> m)"

definition os_Stat :: "io_env \<Rightarrow> string \<Rightarrow> disk \<Rightarrow> fnode res" where
  "os_Stat io p d =
     (case io_fault io ''stat'' p of
        Some e \<Rightarrow> Inl e
      | None \<Rightarrow> (case node_at d (dkey p) of None \<Rightarrow> Inl os_ErrNotExist | Some n \<Rightarrow> Inr n))"

definition os_ReadFile :: "io_env \<Rightarrow> string \<Rightarrow> disk \<Rightarrow> bytes res" where
  "os_ReadFile io p d =
     (case io_fault io ''read'' p of
        Some e \<Rightarrow> Inl e
      | None \<Rightarrow> (case node_at d (dkey p) of
                   Some (NFile b) \<Rightarrow> Inr b
                 | Some _ \<Rightarrow> Inl (ErrText ''is a directory'')
                 | None \<Rightarrow> Inl os_ErrNotExist))"

text \<open>The entries of a directory, sorted by name.\<close>

definition children :: "disk \<Rightarrow> dpath \<Rightarrow> (string \<times> fnode) list" where
  "children d k =
     sort_key fst (map (\<lambda>(k', n). (last (snd k'), n))
       (filter (\<lambda>(k', n). fst k' = fst k \<and> snd k' \<noteq> [] \<and> butlast (snd k') = snd k) d))"

definition os_ReadDir :: "io_env \<Rightarrow> string \<Rightarrow> disk \<Rightarrow> (string \<times> fnode) list res" where
  "os_ReadDir io p d =
     (case io_fault io ''readdir'' p of
        Some e \<Rightarrow> Inl e
      | None \<Rightarrow> (case node_at d (dkey p) of
                   Some NDir \<Rightarrow> Inr (children d (dkey p))
                 | Some _ \<Rightarrow> Inl (ErrText ''not a directory'')
                 | None \<Rightarrow> Inl os_ErrNotExist))"

fun mkdir_loop :: "bool \<Rightarrow> string list \<Rightarrow> string list \<Rightarrow> (disk, unit) action" where
  "mkdir_loop r pre [] d = (Inr (), d)"
| "mkdir_loop r pre (e # es) d =
     (case map_of d (r, pre @ [e]) of
        None \<Rightarrow> mkdir_loop r (pre @ [e]) es (AList.update (r, pre @ [e]) NDir d)
      | Some NDir \<Rightarrow> mkdir_loop r (pre @ [e]) es d
      | Some _ \<Rightarrow> (Inl (ErrText ''not a directory''), d))"

text \<open>
  \<open>MkdirAll\<close> makes the missing directories of its path from the top; failing, it has made
  some of them.
\<close>

definition os_MkdirAll :: "io_env \<Rightarrow> string \<Rightarrow> (disk, unit) action" where
  "os_MkdirAll io p d =
     (case io_fault io ''mkdir'' p of
        Some e \<Rightarrow> (Inl e, snd (mkdir_loop (is_abs p) [] (take (io_made io p) (elems p)) d))
      | None \<Rightarrow> mkdir_loop (is_abs p) [] (elems p) d)"

text \<open>
  \<open>WriteFile\<close> opens the file, which creates or truncates it, and then writes; failing, it
  could not open the file or has left the first bytes in it.
\<close>

definition os_WriteFile :: "io_env \<Rightarrow> string \<Rightarrow> bytes \<Rightarrow> (disk, unit) action" where
  "os_WriteFile io p b d =
     (if node_at d (dkey p) = Some NDir then (Inl (ErrText ''is a directory''), d)
      else if node_at d (is_abs p, butlast (elems p)) \<noteq> Some NDir then (Inl os_ErrNotExist, d)
      else case io_fault io ''write'' p of
             None \<Rightarrow> (Inr (), AList.update (dkey p) (NFile b) d)
           | Some e \<Rightarrow> (Inl e, case io_written io p of
                                None \<Rightarrow> d
                              | Some n \<Rightarrow> AList.update (dkey p) (NFile (take n b)) d))"

definition os_Remove :: "io_env \<Rightarrow> string \<Rightarrow> (disk, unit) action" where
  "os_Remove io p = faulty io ''remove'' p (\<lambda>d.
     case map_of d (dkey p) of
       None \<Rightarrow> (Inl os_ErrNotExist, d)
     | Some NDir \<Rightarrow> (if children d (dkey p) = [] then (Inr (), AList.delete (dkey p) d)
                    else (Inl (ErrText ''directory not empty''), d))
     | Some _ \<Rightarrow> (Inr (), AList.delete (dkey p) d))"

text \<open>
  \<open>RemoveAll\<close> removes what is in a directory before the directory; failing, it has removed
  some entries, each with everything below it.
\<close>

definition removed_whole :: "io_env \<Rightarrow> string \<Rightarrow> disk \<Rightarrow> dpath \<Rightarrow> bool" where
  "removed_whole io p d k \<longleftrightarrow> below (dkey p) k \<and> list_all (\<lambda>(k', n). below k k' \<longrightarrow> io_removed io p k') d"

definition os_RemoveAll :: "io_env \<Rightarrow> string \<Rightarrow> (disk, unit) action" where
  "os_RemoveAll io p d =
     (if p = ''.'' \<or> HasSuffix p ''/.'' then (Inl (ErrText ''invalid argument''), d)
      else case io_fault io ''removeall'' p of
             None \<Rightarrow> (Inr (), filter (\<lambda>(k, n). \<not> below (dkey p) k) d)
           | Some e \<Rightarrow> (Inl e, filter (\<lambda>(k, n). \<not> removed_whole io p d k) d))"

lemmas os_defs = os_Stat_def os_ReadFile_def os_ReadDir_def os_MkdirAll_def os_WriteFile_def
  os_Remove_def os_RemoveAll_def

section \<open>What the operations change\<close>

lemma below_refl [simp]: "below k k"
  by (simp add: below_def)

lemma mkdir_loop_frame:
  "map_of (snd (mkdir_loop r pre es d)) k = map_of d k \<or>
   (map_of d k = None \<and> map_of (snd (mkdir_loop r pre es d)) k = Some NDir \<and>
    fst k = r \<and> prefix (snd k) (pre @ es) \<and> snd k \<noteq> [])"
proof (induction r pre es d rule: mkdir_loop.induct)
  case (2 r pre e es d)
  show ?case
  proof (cases "map_of d (r, pre @ [e])")
    case None
    with 2(1)[OF None] show ?thesis
      by (cases "k = (r, pre @ [e])") (auto simp: prefix_def)
  next
    case (Some n)
    with 2(2)[OF Some] show ?thesis by (cases n) auto
  qed
qed simp

lemma mkdir_loop_ok:
  assumes "mkdir_loop r pre es d = (Inr (), d')" "prefix es' es" "es' \<noteq> []"
  shows "map_of d' (r, pre @ es') = Some NDir"
  using assms
proof (induction r pre es d arbitrary: es' rule: mkdir_loop.induct)
  case (2 r pre e es d)
  then obtain es'' where es': "es' = e # es''" "prefix es'' es"
    by (cases es') auto
  have keep: "map_of d1 (r, pre @ [e]) = Some NDir \<Longrightarrow>
      mkdir_loop r (pre @ [e]) es d1 = (Inr (), d') \<Longrightarrow> map_of d' (r, pre @ [e]) = Some NDir" for d1
    using mkdir_loop_frame[of r "pre @ [e]" es d1 "(r, pre @ [e])"] by auto
  show ?case
  proof (cases "map_of d (r, pre @ [e])")
    case None
    with 2(3) have m: "mkdir_loop r (pre @ [e]) es (AList.update (r, pre @ [e]) NDir d) = (Inr (), d')" by simp
    from 2(1)[OF None m es'(2)] es' keep[OF _ m] show ?thesis by (cases "es'' = []") auto
  next
    case (Some n)
    with 2(3) have n: "n = NDir" and m: "mkdir_loop r (pre @ [e]) es d = (Inr (), d')"
      by (cases n; simp)+
    from 2(2)[OF Some n m es'(2)] es' keep[OF _ m] Some n show ?thesis by (cases "es'' = []") auto
  qed
qed simp

lemma MkdirAll_frame:
  "map_of (snd (os_MkdirAll io p d)) k = map_of d k \<or>
   (map_of d k = None \<and> map_of (snd (os_MkdirAll io p d)) k = Some NDir \<and> below k (dkey p) \<and> snd k \<noteq> [])"
proof (cases "io_fault io ''mkdir'' p")
  case None
  with mkdir_loop_frame[of "is_abs p" "[]" "elems p" d k] show ?thesis
    by (auto simp: os_MkdirAll_def below_def dkey_def)
next
  case (Some e)
  have "prefix ks (take n (elems p)) \<Longrightarrow> prefix ks (elems p)" for ks n
    using prefix_order.trans take_is_prefix by blast
  with Some mkdir_loop_frame[of "is_abs p" "[]" "take (io_made io p) (elems p)" d k] show ?thesis
    by (auto simp: os_MkdirAll_def below_def dkey_def)
qed

lemma MkdirAll_ok:
  assumes "os_MkdirAll io p d = (Inr (), d')"
  shows "node_at d' (dkey p) = Some NDir"
  using assms mkdir_loop_ok[of "is_abs p" "[]" "elems p" d d' "elems p"]
  by (auto simp: os_MkdirAll_def node_at_def dkey_def split: option.splits)

lemma WriteFile_ok:
  "os_WriteFile io p b d = (Inr (), d') \<Longrightarrow>
   d' = AList.update (dkey p) (NFile b) d \<and> elems p \<noteq> [] \<and> map_of d (dkey p) \<noteq> Some NDir"
  by (auto simp: os_WriteFile_def node_at_def dkey_def split: option.splits if_splits)

lemma WriteFile_frame: "k \<noteq> dkey p \<Longrightarrow> map_of (snd (os_WriteFile io p b d)) k = map_of d k"
  by (auto simp: os_WriteFile_def split: option.splits)

text \<open>A failed write has left the file as it was, or the first bytes of the new content in it.\<close>

lemma WriteFile_failed:
  assumes "os_WriteFile io p b d = (Inl e, d')"
  shows "d' = d \<or> (\<exists>n. d' = AList.update (dkey p) (NFile (take n b)) d)"
  using assms by (auto simp: os_WriteFile_def split: option.splits if_splits)

lemma Remove_frame: "k \<noteq> dkey p \<Longrightarrow> map_of (snd (os_Remove io p d)) k = map_of d k"
  by (auto simp: os_Remove_def faulty_def throw_def split: option.splits fnode.splits)

lemma map_of_filter_keys:
  "map_of (filter (\<lambda>(k, n). P k) d) k = (if P k then map_of d k else None)"
  by (induction d) auto

lemma RemoveAll_ok:
  assumes "os_RemoveAll io p d = (Inr (), d')"
  shows "map_of d' k = (if below (dkey p) k then None else map_of d k)"
proof -
  from assms have "d' = filter (\<lambda>(k, n). \<not> below (dkey p) k) d"
    by (auto simp: os_RemoveAll_def split: option.splits if_splits)
  then show ?thesis by (simp add: map_of_filter_keys[of "\<lambda>k. \<not> below (dkey p) k"])
qed

lemma RemoveAll_frame:
  "map_of (snd (os_RemoveAll io p d)) k = map_of d k \<or> (below (dkey p) k \<and> map_of (snd (os_RemoveAll io p d)) k = None)"
proof -
  have "removed_whole io p d k \<Longrightarrow> below (dkey p) k" by (simp add: removed_whole_def)
  then show ?thesis
    by (auto simp: os_RemoveAll_def map_of_filter_keys[of "\<lambda>k. \<not> below (dkey p) k"]
        map_of_filter_keys[of "\<lambda>k. \<not> removed_whole io p d k"] split: option.splits)
qed

lemma set_children:
  "(e, n) \<in> set (children d k) \<longleftrightarrow> (\<exists>es. ((fst k, es), n) \<in> set d \<and> es \<noteq> [] \<and> butlast es = snd k \<and> last es = e)"
  by (force simp: children_def image_iff)

lemma children_map_of:
  assumes "distinct (map fst d)"
  shows "(e, n) \<in> set (children d k) \<longleftrightarrow> map_of d (fst k, snd k @ [e]) = Some n"
proof -
  have "(\<exists>es. ((fst k, es), n) \<in> set d \<and> es \<noteq> [] \<and> butlast es = snd k \<and> last es = e) \<longleftrightarrow>
    ((fst k, snd k @ [e]), n) \<in> set d"
    by (metis append_butlast_last_id butlast_snoc last_snoc snoc_eq_iff_butlast)
  with assms show ?thesis by (simp add: set_children)
qed

lemma distinct_children:
  assumes "distinct (map fst d)" shows "distinct (map fst (children d k))"
proof -
  let ?P = "\<lambda>(k', n :: fnode). fst k' = fst k \<and> snd k' \<noteq> [] \<and> butlast (snd k') = snd k"
  have "distinct (map fst (filter ?P d))"
    using assms by (simp add: distinct_map_filter)
  moreover have "inj_on (\<lambda>k'. last (snd k')) (set (map fst (filter ?P d)))"
  proof (rule inj_onI)
    fix x y assume "x \<in> set (map fst (filter ?P d))" "y \<in> set (map fst (filter ?P d))" "last (snd x) = last (snd y)"
    then have xy: "fst x = fst y" "snd x \<noteq> []" "snd y \<noteq> []" "butlast (snd x) = butlast (snd y)" "last (snd x) = last (snd y)"
      by auto
    have "snd x = butlast (snd x) @ [last (snd x)]" by (rule append_butlast_last_id[OF xy(2), symmetric])
    also have "\<dots> = snd y" unfolding xy(4,5) by (rule append_butlast_last_id[OF xy(3)])
    finally show "x = y" using xy(1) by (rule prod_eqI[rotated])
  qed
  ultimately have "distinct (map (\<lambda>k'. last (snd k')) (map fst (filter ?P d)))"
    by (simp only: distinct_map)
  moreover have ms: "mset (map fst (children d k)) = mset (map (\<lambda>k'. last (snd k')) (map fst (filter ?P d)))"
    by (simp add: children_def multiset.map_comp comp_def case_prod_beta)
  ultimately show ?thesis unfolding mset_eq_imp_distinct_iff[OF ms] by blast
qed

section \<open>Well-formed trees\<close>

text \<open>
  The type of a directory tree: one entry per path, every path cleaned, and every entry in a
  directory that exists.
\<close>

definition disk_ok :: "disk \<Rightarrow> bool" where
  "disk_ok d \<longleftrightarrow> distinct (map fst d) \<and> (\<forall>k n. map_of d k = Some n \<longrightarrow>
     snd k \<noteq> [] \<and> normal (fst k) (snd k) \<and> node_at d (fst k, butlast (snd k)) = Some NDir)"

lemma disk_ok_Nil [simp]: "disk_ok []"
  by (simp add: disk_ok_def)

lemma disk_okD:
  assumes "disk_ok d"
  shows "distinct (map fst d)" "map_of d k = Some n \<Longrightarrow> snd k \<noteq> []"
    "map_of d k = Some n \<Longrightarrow> normal (fst k) (snd k)"
    "map_of d k = Some n \<Longrightarrow> node_at d (fst k, butlast (snd k)) = Some NDir"
  using assms unfolding disk_ok_def by blast+

lemma disk_okI:
  assumes "distinct (map fst d)"
    and "\<And>k n. map_of d k = Some n \<Longrightarrow>
      snd k \<noteq> [] \<and> normal (fst k) (snd k) \<and> node_at d (fst k, butlast (snd k)) = Some NDir"
  shows "disk_ok d"
  using assms unfolding disk_ok_def by blast

lemma node_at_update: "snd k \<noteq> [] \<Longrightarrow> node_at (AList.update k n d) k' = (if k' = k then Some n else node_at d k')"
  by (auto simp: node_at_def)

lemma disk_ok_update:
  assumes "disk_ok d" "snd k \<noteq> []" "normal (fst k) (snd k)" "node_at d (fst k, butlast (snd k)) = Some NDir"
    and "n = NDir \<or> map_of d k \<noteq> Some NDir"
  shows "disk_ok (AList.update k n d)"
proof (rule disk_okI)
  fix k' n' assume k': "map_of (AList.update k n d) k' = Some n'"
  have par: "snd k' \<noteq> [] \<and> normal (fst k') (snd k') \<and> node_at d (fst k', butlast (snd k')) = Some NDir"
  proof (cases "k' = k")
    case False
    with k' have "map_of d k' = Some n'" by simp
    from disk_okD(2-4)[OF assms(1) this] show ?thesis by blast
  qed (use assms in simp)
  moreover have "node_at d q = Some NDir \<Longrightarrow> node_at (AList.update k n d) q = Some NDir" for q
    using assms(2,5) unfolding node_at_update[OF assms(2)] by (cases "q = k") (simp_all add: node_at_def)
  ultimately show "snd k' \<noteq> [] \<and> normal (fst k') (snd k') \<and>
      node_at (AList.update k n d) (fst k', butlast (snd k')) = Some NDir" by blast
qed (rule AList.distinct_update[OF disk_okD(1)[OF assms(1)]])

lemma normal_prefix: "normal r (ys @ zs) \<Longrightarrow> normal r ys"
  by (induction zs rule: rev_induct) (auto dest: normal_butlast(1)[where es = "ys @ _", simplified])

lemma disk_ok_mkdir_loop:
  "disk_ok d \<Longrightarrow> normal r (pre @ es) \<Longrightarrow> node_at d (r, pre) = Some NDir \<Longrightarrow>
   disk_ok (snd (mkdir_loop r pre es d))"
proof (induction r pre es d rule: mkdir_loop.induct)
  case (2 r pre e es d)
  have n: "normal r (pre @ [e])"
    using normal_prefix[of r "pre @ [e]" es] 2(4) by simp
  show ?case
  proof (cases "map_of d (r, pre @ [e])")
    case None
    have "disk_ok (AList.update (r, pre @ [e]) NDir d)"
      using disk_ok_update[OF 2(3), of "(r, pre @ [e])" NDir] n 2(5) by simp
    with 2(1)[OF None this] 2(4) None show ?thesis by (simp add: node_at_update)
  next
    case (Some x)
    show ?thesis
    proof (cases x)
      case NDir
      with 2(2)[OF Some NDir 2(3)] 2(4) Some show ?thesis by (simp add: node_at_def)
    qed (use 2(3) Some in auto)
  qed
qed simp

lemma disk_ok_delete:
  assumes "disk_ok d" "\<And>k'. map_of d k' \<noteq> None \<Longrightarrow> (fst k', butlast (snd k')) \<noteq> k"
  shows "disk_ok (AList.delete k d)"
proof (rule disk_okI)
  fix k' n' assume "map_of (AList.delete k d) k' = Some n'"
  then have k': "map_of d k' = Some n'" by (simp split: if_splits)
  with assms(2)[of k'] have "(fst k', butlast (snd k')) \<noteq> k" by simp
  then have "node_at (AList.delete k d) (fst k', butlast (snd k')) = node_at d (fst k', butlast (snd k'))"
    by (simp add: node_at_def)
  with disk_okD(2-4)[OF assms(1) k'] show "snd k' \<noteq> [] \<and> normal (fst k') (snd k') \<and>
      node_at (AList.delete k d) (fst k', butlast (snd k')) = Some NDir" by simp
qed (rule distinct_delete[OF disk_okD(1)[OF assms(1)]])

lemma no_children:
  assumes "disk_ok d" "map_of d k \<noteq> Some NDir \<or> children d k = []" "snd k \<noteq> []" "map_of d k' \<noteq> None"
  shows "(fst k', butlast (snd k')) \<noteq> k"
proof
  assume k: "(fst k', butlast (snd k')) = k"
  from assms(4) obtain n where n: "map_of d k' = Some n" by auto
  with disk_okD(4)[OF assms(1) n] k assms(3) have "map_of d k = Some NDir" by (auto simp: node_at_def)
  moreover have "(last (snd k'), n) \<in> set (children d k)"
    using k disk_okD(2)[OF assms(1) n] n by (auto simp: children_map_of[OF disk_okD(1)[OF assms(1)]])
  ultimately show False using assms(2) by auto
qed

lemma disk_ok_filter:
  assumes "disk_ok d" "\<And>k. P k \<Longrightarrow> snd k \<noteq> [] \<Longrightarrow> P (fst k, butlast (snd k))"
  shows "disk_ok (filter (\<lambda>(k, n). P k) d)"
proof (rule disk_okI)
  show "distinct (map fst (filter (\<lambda>(k, n). P k) d))"
    using disk_okD(1)[OF assms(1)] by (induction d) auto
  fix k n assume "map_of (filter (\<lambda>(k, n). P k) d) k = Some n"
  then have k: "P k" "map_of d k = Some n" by (simp_all add: map_of_filter_keys split: if_splits)
  note ok = disk_okD(2-4)[OF assms(1) k(2)]
  from assms(2)[OF k(1) ok(1)] ok(3)
  have "node_at (filter (\<lambda>(k, n). P k) d) (fst k, butlast (snd k)) = Some NDir"
    by (simp add: node_at_def map_of_filter_keys split: if_splits)
  with ok show "snd k \<noteq> [] \<and> normal (fst k) (snd k) \<and>
      node_at (filter (\<lambda>(k, n). P k) d) (fst k, butlast (snd k)) = Some NDir" by simp
qed

text \<open>Every operation keeps the tree well-formed, also when it fails.\<close>

lemma disk_ok_os:
  assumes "disk_ok d"
  shows "disk_ok (snd (os_MkdirAll io p d))" "disk_ok (snd (os_WriteFile io p b d))"
    "disk_ok (snd (os_Remove io p d))" "disk_ok (snd (os_RemoveAll io p d))"
proof -
  have "normal (is_abs p) (take n (elems p))" for n
    using normal_prefix[of "is_abs p" "take n (elems p)" "drop n (elems p)"] elems_normal[of p] by simp
  then show "disk_ok (snd (os_MkdirAll io p d))"
    using disk_ok_mkdir_loop[OF assms, of "is_abs p" "[]"] elems_normal[of p]
    by (auto simp: os_MkdirAll_def node_at_def split: option.splits)
  have put: "disk_ok (AList.update (dkey p) n d)"
    if "node_at d (is_abs p, butlast (elems p)) = Some NDir" "node_at d (dkey p) \<noteq> Some NDir" for n
    using disk_ok_update[OF assms, of "dkey p" n] that elems_normal[of p] by (auto simp: dkey_def node_at_def split: if_splits)
  show "disk_ok (snd (os_WriteFile io p b d))"
    using put assms by (auto simp: os_WriteFile_def split: option.splits)
  have del: "disk_ok (AList.delete (dkey p) d)"
    if "map_of d (dkey p) = Some n" "n \<noteq> NDir \<or> children d (dkey p) = []" for n
    using disk_ok_delete[OF assms no_children[OF assms]] that disk_okD(2)[OF assms that(1)] by auto
  show "disk_ok (snd (os_Remove io p d))"
    using del assms by (auto simp: os_Remove_def faulty_def throw_def split: option.splits fnode.splits)
  have up: "below (dkey p) (fst k, butlast (snd k)) \<Longrightarrow> below (dkey p) k" for k
    by (auto simp: below_def dest: prefix_order.trans[OF _ prefixeq_butlast])
  have sub: "below k k' \<Longrightarrow> below (fst k, butlast (snd k)) k'" for k k'
    by (auto simp: below_def dest: prefix_order.trans[OF prefixeq_butlast])
  have "removed_whole io p d (fst k, butlast (snd k)) \<Longrightarrow> removed_whole io p d k" for k
    unfolding removed_whole_def list_all_iff using up sub by fast
  with up show "disk_ok (snd (os_RemoveAll io p d))"
    using assms disk_ok_filter[OF assms, of "\<lambda>k. \<not> below (dkey p) k"] disk_ok_filter[OF assms, of "\<lambda>k. \<not> removed_whole io p d k"]
    by (auto simp: os_RemoveAll_def split: option.splits)
qed

end
