(* ===== verification/Links.thy ===== *)
theory Links
  imports Disk
begin

text \<open>
  Symbolic links on the tree of theory Disk, and the calls of Go's \<open>os\<close> package that follow
  them. A tree with links is a tree and a table of links; a path is walked from its start, a
  link on it is replaced by its target (at most forty times, as Linux does), and \<open>..\<close> goes to
  the parent of the directory that was reached. The volume file server and the publishing of
  volumes work on such trees: the containers of a pod can put links into a mounted volume.
\<close>

type_synonym links = "(dpath, string) gomap"

type_synonym ltree = "disk \<times> links"

definition errTooManyLinks :: error where
  "errTooManyLinks = ErrText ''too many levels of symbolic links''"

definition maxLinks :: nat where "maxLinks = 40"

section \<open>Walking a path\<close>

definition push :: "bool \<Rightarrow> string list \<Rightarrow> string \<Rightarrow> string list" where
  "push r pre e = rev (clean_acc r (rev pre) [e])"

function walk :: "links \<Rightarrow> nat \<Rightarrow> bool \<Rightarrow> string list \<Rightarrow> string list \<Rightarrow> dpath option" where
  "walk ls n r pre [] = Some (r, pre)"
| "walk ls n r pre (e # es) =
     (case map_of ls (r, push r pre e) of
        None \<Rightarrow> walk ls n r (push r pre e) es
      | Some t \<Rightarrow>
          (case n of
             0 \<Rightarrow> None
           | Suc m \<Rightarrow> if is_abs t then walk ls m True [] (split_on slash t @ es)
                      else walk ls m r pre (split_on slash t @ es)))"
  by pat_completeness auto
termination
  by (relation "measures [\<lambda>(ls, n, r, pre, es). n, \<lambda>(ls, n, r, pre, es). length es]") auto

text \<open>Where a path leads, and where its last element is (which may be a link itself).\<close>

definition locate :: "links \<Rightarrow> string \<Rightarrow> dpath option" where
  "locate ls p = walk ls maxLinks (is_abs p) [] (elems p)"

definition locate_entry :: "links \<Rightarrow> string \<Rightarrow> dpath option" where
  "locate_entry ls p =
     (if elems p = [] then Some (dkey p)
      else case walk ls maxLinks (is_abs p) [] (butlast (elems p)) of
             None \<Rightarrow> None
           | Some (r, pre) \<Rightarrow> Some (r, push r pre (last (elems p))))"

abbreviation path_of :: "dpath \<Rightarrow> string" where
  "path_of k \<equiv> render (fst k) (snd k)"

section \<open>Operations\<close>

definition lk_Stat :: "io_env \<Rightarrow> string \<Rightarrow> ltree \<Rightarrow> fnode res" where
  "lk_Stat io p x =
     (case locate (snd x) p of None \<Rightarrow> Inl errTooManyLinks | Some k \<Rightarrow> os_Stat io (path_of k) (fst x))"

definition lk_Lexists :: "io_env \<Rightarrow> string \<Rightarrow> ltree \<Rightarrow> bool" where
  "lk_Lexists io p x \<longleftrightarrow> io_fault io ''lstat'' p = None \<and>
     (case locate_entry (snd x) p of
        None \<Rightarrow> False
      | Some k \<Rightarrow> map_of (snd x) k \<noteq> None \<or> node_at (fst x) k \<noteq> None)"

definition lk_ReadFile :: "io_env \<Rightarrow> string \<Rightarrow> ltree \<Rightarrow> bytes res" where
  "lk_ReadFile io p x =
     (case locate (snd x) p of None \<Rightarrow> Inl errTooManyLinks | Some k \<Rightarrow> os_ReadFile io (path_of k) (fst x))"

definition child_links :: "links \<Rightarrow> dpath \<Rightarrow> string list" where
  "child_links ls k = map (\<lambda>(k', t). last (snd k'))
     (filter (\<lambda>(k', t). fst k' = fst k \<and> snd k' \<noteq> [] \<and> butlast (snd k') = snd k) ls)"

text \<open>The entries of a directory with \<open>IsDir\<close>, which is false for a link.\<close>

definition lk_ReadDir :: "io_env \<Rightarrow> string \<Rightarrow> ltree \<Rightarrow> (string \<times> bool) list res" where
  "lk_ReadDir io p x =
     (case locate (snd x) p of
        None \<Rightarrow> Inl errTooManyLinks
      | Some k \<Rightarrow>
          (case os_ReadDir io (path_of k) (fst x) of
             Inl err \<Rightarrow> Inl err
           | Inr entries \<Rightarrow> Inr (sort_key fst (map (\<lambda>(e, n). (e, n = NDir)) entries @
                                            map (\<lambda>e. (e, False)) (child_links (snd x) k)))))"

text \<open>
  \<open>MkdirAll\<close> from the top: a prefix that leads to a directory is passed, a link that leads
  nowhere is an error, a missing entry is made in the directory that was reached.
\<close>

fun lk_mkdir_loop :: "links \<Rightarrow> bool \<Rightarrow> string list \<Rightarrow> string list \<Rightarrow> (disk, unit) action" where
  "lk_mkdir_loop ls r pre [] d = (Inr (), d)"
| "lk_mkdir_loop ls r pre (e # es) d =
     (case (walk ls maxLinks r [] pre, walk ls maxLinks r [] (pre @ [e])) of
        (Some (r', q), Some k) \<Rightarrow>
          (case node_at d k of
             Some NDir \<Rightarrow> lk_mkdir_loop ls r (pre @ [e]) es d
           | Some _ \<Rightarrow> (Inl (ErrText ''not a directory''), d)
           | None \<Rightarrow> if map_of ls (r', push r' q e) \<noteq> None then (Inl (ErrText ''file exists''), d)
                     else lk_mkdir_loop ls r (pre @ [e]) es (AList.update k NDir d))
      | _ \<Rightarrow> (Inl errTooManyLinks, d))"

definition lk_MkdirAll :: "io_env \<Rightarrow> string \<Rightarrow> (ltree, unit) action" where
  "lk_MkdirAll io p x =
     (case io_fault io ''mkdir'' p of
        Some e \<Rightarrow> (Inl e, (snd (lk_mkdir_loop (snd x) (is_abs p) [] (take (io_made io p) (elems p)) (fst x)), snd x))
      | None \<Rightarrow> (case lk_mkdir_loop (snd x) (is_abs p) [] (elems p) (fst x) of (res, d) \<Rightarrow> (res, (d, snd x))))"

definition lk_WriteFile :: "io_env \<Rightarrow> string \<Rightarrow> bytes \<Rightarrow> (ltree, unit) action" where
  "lk_WriteFile io p b x =
     (case locate (snd x) p of
        None \<Rightarrow> (Inl errTooManyLinks, x)
      | Some k \<Rightarrow> (case os_WriteFile io (path_of k) b (fst x) of (res, d) \<Rightarrow> (res, (d, snd x))))"

text \<open>\<open>Remove\<close> and \<open>Symlink\<close> act on the last element itself.\<close>

definition lk_Remove :: "io_env \<Rightarrow> string \<Rightarrow> (ltree, unit) action" where
  "lk_Remove io p x =
     (case locate_entry (snd x) p of
        None \<Rightarrow> (Inl errTooManyLinks, x)
      | Some k \<Rightarrow>
          if map_of (snd x) k \<noteq> None
          then (case io_fault io ''remove'' p of
                  Some e \<Rightarrow> (Inl e, x)
                | None \<Rightarrow> (Inr (), (fst x, AList.delete k (snd x))))
          else if map_of (fst x) k = Some NDir \<and> child_links (snd x) k \<noteq> []
          then (Inl (ErrText ''directory not empty''), x)
          else (case os_Remove io (path_of k) (fst x) of (res, d) \<Rightarrow> (res, (d, snd x))))"

definition lk_Symlink :: "io_env \<Rightarrow> string \<Rightarrow> string \<Rightarrow> (ltree, unit) action" where
  "lk_Symlink io source p x =
     (case io_fault io ''symlink'' p of
        Some e \<Rightarrow> (Inl e, x)
      | None \<Rightarrow>
          (case locate_entry (snd x) p of
             None \<Rightarrow> (Inl errTooManyLinks, x)
           | Some k \<Rightarrow>
               if node_at (fst x) k \<noteq> None \<or> map_of (snd x) k \<noteq> None then (Inl (ErrText ''file exists''), x)
               else if node_at (fst x) (fst k, butlast (snd k)) = Some NDir
               then (Inr (), (fst x, AList.update k source (snd x)))
               else (Inl os_ErrNotExist, x)))"

section \<open>Where a walk can lead\<close>

lemma push_plain [simp]: "plain e \<Longrightarrow> push r pre e = pre @ [e]"
  by (simp add: push_def plain_def)

lemma push_same [simp]: "push r pre [] = pre" "push r pre ''.'' = pre"
  by (simp_all add: push_def)

lemma push_normal: "normal r (pre @ [e]) \<Longrightarrow> push r pre e = pre @ [e]"
  using clean_acc_id[of r "pre @ [e]"] clean_acc_id[OF normal_butlast(1)[of r pre e]]
  by (simp add: push_def clean_acc_append)

lemma walk_normal:
  "normal r pre \<Longrightarrow> \<forall>e \<in> set es. slash \<notin> set e \<Longrightarrow> walk ls n r pre es = Some k \<Longrightarrow> normal (fst k) (snd k)"
proof (induction ls n r pre es rule: walk.induct)
  case (2 ls n r pre e es)
  have p: "normal r (push r pre e)"
    unfolding push_def using 2(4,5) by (intro clean_acc_normal) simp_all
  have s: "\<forall>x \<in> set (split_on slash t @ es). slash \<notin> set x" for t
    using split_on_elems 2(5) by fastforce
  from 2 p s show ?case
    by (auto split: option.splits nat.splits if_splits)
qed auto

lemma locate_normal: "locate ls p = Some k \<Longrightarrow> normal (fst k) (snd k)"
  unfolding locate_def using walk_normal[OF normal_Nil] normal_no_slash[OF elems_normal] by blast

lemma dkey_path_of: "normal (fst k) (snd k) \<Longrightarrow> dkey (path_of k) = k"
  by (simp add: dkey_def is_abs_render elems_render)

text \<open>Without a link on it, a cleaned path leads to its own entry.\<close>

lemma walk_no_links:
  "normal r (pre @ es) \<Longrightarrow> (\<And>es'. prefix es' es \<Longrightarrow> es' \<noteq> [] \<Longrightarrow> map_of ls (r, pre @ es') = None) \<Longrightarrow>
   walk ls n r pre es = Some (r, pre @ es)"
proof (induction es arbitrary: pre)
  case (Cons e es)
  have p: "push r pre e = pre @ [e]"
    using Cons.prems(1) by (intro push_normal normal_prefix[of r "pre @ [e]" es]) simp
  have "map_of ls (r, pre @ [e]) = None" using Cons.prems(2)[of "[e]"] by simp
  moreover have "walk ls n r (pre @ [e]) es = Some (r, (pre @ [e]) @ es)"
    using Cons.prems(1) Cons.prems(2)[of "e # _"] by (intro Cons.IH) simp_all
  ultimately show ?case by (simp add: p)
qed simp

text \<open>
  The links of a directory stay in it: no link is on the way to the directory, and every path
  into the directory leads into it.
\<close>

definition links_stay :: "links \<Rightarrow> string \<Rightarrow> bool" where
  "links_stay ls dir \<longleftrightarrow> (\<forall>k. below k (dkey dir) \<longrightarrow> map_of ls k = None) \<and>
     (\<forall>p k. inside dir p \<longrightarrow> locate ls p = Some k \<longrightarrow> below (dkey dir) k)"

lemma walk_stays:
  assumes "\<forall>k t. map_of ls k = Some t \<longrightarrow> below v k \<longrightarrow> \<not> is_abs t \<and> ''..'' \<notin> set (split_on slash t)"
  shows "below v (r, pre) \<Longrightarrow> ''..'' \<notin> set es \<Longrightarrow> walk ls n r pre es = Some k \<Longrightarrow> below v k"
proof (induction n arbitrary: r pre es)
  case 0
  then show ?case
  proof (induction es arbitrary: pre)
    case (Cons e es)
    then have "below v (r, push r pre e)" by (auto simp: push_def below_def)
    with Cons show ?case by (auto split: option.splits)
  qed simp
next
  case (Suc n)
  note outer = Suc.IH
  from Suc.prems show ?case
  proof (induction es arbitrary: pre)
    case (Cons e es)
    then have b: "below v (r, push r pre e)" by (auto simp: push_def below_def)
    show ?case
    proof (cases "map_of ls (r, push r pre e)")
      case None
      with Cons b show ?thesis by simp
    next
      case (Some t)
      from assms Some b have "\<not> is_abs t" "''..'' \<notin> set (split_on slash t @ es)" using Cons.prems(2) by simp_all
      with outer[of r pre "split_on slash t @ es"] Cons.prems Some show ?thesis by simp
    qed
  qed simp
qed

lemma walk_append:
  "walk ls n r pre es = Some (r', k) \<Longrightarrow> (\<And>es'. prefix es' es \<Longrightarrow> es' \<noteq> [] \<Longrightarrow> map_of ls (r, pre @ es') = None) \<Longrightarrow>
   normal r (pre @ es) \<Longrightarrow> walk ls n r pre (es @ es') = walk ls n r (pre @ es) es'"
proof (induction es arbitrary: pre)
  case (Cons e es)
  have p: "push r pre e = pre @ [e]"
    using Cons.prems(3) by (intro push_normal normal_prefix[of r "pre @ [e]" es]) simp
  have "map_of ls (r, pre @ [e]) = None" using Cons.prems(2)[of "[e]"] by simp
  moreover have "walk ls n r (pre @ [e]) (es @ es') = walk ls n r ((pre @ [e]) @ es) es'"
    using Cons.prems Cons.prems(2)[of "e # _"] calculation p by (intro Cons.IH) simp_all
  ultimately show ?case by (simp add: p)
qed simp

text \<open>Links whose targets are relative and do not go up stay in their directory.\<close>

lemma relative_links_stay:
  assumes "\<And>k. below k (dkey dir) \<Longrightarrow> map_of ls k = None"
    and "\<And>k t. map_of ls k = Some t \<Longrightarrow> below (dkey dir) k \<Longrightarrow> \<not> is_abs t \<and> ''..'' \<notin> set (split_on slash t)"
  shows "links_stay ls dir"
  unfolding links_stay_def
proof (intro conjI allI impI)
  fix p k assume "inside dir p" "locate ls p = Some k"
  then obtain ts where p: "is_abs p = is_abs dir" "elems p = elems dir @ ts" "''..'' \<notin> set ts"
    and l: "walk ls maxLinks (is_abs dir) [] (elems dir @ ts) = Some k" by (auto simp: inside_def locate_def)
  have none: "map_of ls (is_abs dir, es') = None" if "prefix es' (elems dir)" for es'
    using that assms(1)[of "(is_abs dir, es')"] by (simp add: below_def dkey_def)
  have "walk ls maxLinks (is_abs dir) [] (elems dir) = Some (is_abs dir, elems dir)"
    using walk_no_links[of "is_abs dir" "[]" "elems dir" ls maxLinks] elems_normal[of dir] none by simp
  from walk_append[OF this] none elems_normal[of dir] l
  have "walk ls maxLinks (is_abs dir) (elems dir) ts = Some k" by simp
  moreover have "below (dkey dir) (is_abs dir, elems dir)" by (simp add: below_def dkey_def)
  moreover have "\<forall>k t. map_of ls k = Some t \<longrightarrow> below (dkey dir) k \<longrightarrow> \<not> is_abs t \<and> ''..'' \<notin> set (split_on slash t)"
    using assms(2) by blast
  ultimately show "below (dkey dir) k" using walk_stays p(3) by blast
qed (rule assms(1))

lemma no_links_stay: "links_stay [] dir"
  by (rule relative_links_stay) simp_all

section \<open>What the calls change\<close>

lemma lk_mkdir_loop_frame:
  "map_of (snd (lk_mkdir_loop ls r pre es d)) k = map_of d k \<or>
   (map_of d k = None \<and> map_of (snd (lk_mkdir_loop ls r pre es d)) k = Some NDir \<and>
    (\<exists>es'. prefix es' es \<and> walk ls maxLinks r [] (pre @ es') = Some k))"
proof (induction ls r pre es d rule: lk_mkdir_loop.induct)
  case (2 ls r pre e es d)
  show ?case
  proof (cases "walk ls maxLinks r [] pre")
    case (Some p1)
    obtain r' q where p1: "p1 = (r', q)" by fastforce
    show ?thesis
    proof (cases "walk ls maxLinks r [] (pre @ [e])")
      case w: (Some k1)
      have ext: "\<exists>es'. prefix es' (e # es) \<and> walk ls maxLinks r [] (pre @ es') = Some k"
        if "\<exists>es'. prefix es' es \<and> walk ls maxLinks r [] ((pre @ [e]) @ es') = Some k"
        using that by (metis Cons_prefix_Cons append.assoc append_Cons append_Nil)
      show ?thesis
      proof (cases "node_at d k1")
        case None
        then have k1: "map_of d k1 = None" by (auto simp: node_at_def split: if_splits)
        show ?thesis
        proof (cases "map_of ls (r', push r' q e)")
          case m: None
          note ih = 2(1)[OF refl Some[unfolded p1] refl w None]
          show ?thesis
          proof (cases "k = k1")
            case True
            with w have "\<exists>es'. prefix es' (e # es) \<and> walk ls maxLinks r [] (pre @ es') = Some k"
              by (intro exI[of _ "[e]"]) simp
            with ih m Some p1 w None k1 True show ?thesis by auto
          qed (use ih m Some p1 w None k1 ext in auto)
        qed (use Some p1 w None in simp)
      next
        case n: (Some x)
        from 2(2)[OF refl Some[unfolded p1] refl w n] Some p1 w n ext show ?thesis by (cases x) auto
      qed
    qed (use Some p1 in simp)
  qed simp
qed simp

lemma lk_MkdirAll_frame:
  "snd (snd (lk_MkdirAll io p (d, ls))) = ls"
  "map_of (fst (snd (lk_MkdirAll io p (d, ls)))) k = map_of d k \<or>
   (map_of d k = None \<and> map_of (fst (snd (lk_MkdirAll io p (d, ls)))) k = Some NDir \<and>
    (\<exists>es. prefix es (elems p) \<and> walk ls maxLinks (is_abs p) [] es = Some k))"
proof -
  have sub: "prefix ks (take n (elems p)) \<Longrightarrow> prefix ks (elems p)" for ks n
    using prefix_order.trans take_is_prefix by blast
  show "snd (snd (lk_MkdirAll io p (d, ls))) = ls"
    by (simp add: lk_MkdirAll_def split: option.split prod.split)
  show "map_of (fst (snd (lk_MkdirAll io p (d, ls)))) k = map_of d k \<or>
   (map_of d k = None \<and> map_of (fst (snd (lk_MkdirAll io p (d, ls)))) k = Some NDir \<and>
    (\<exists>es. prefix es (elems p) \<and> walk ls maxLinks (is_abs p) [] es = Some k))"
  proof (cases "io_fault io ''mkdir'' p")
    case None
    with lk_mkdir_loop_frame[of ls "is_abs p" "[]" "elems p" d k] show ?thesis
      by (simp add: lk_MkdirAll_def case_prod_beta)
  next
    case (Some e)
    with lk_mkdir_loop_frame[of ls "is_abs p" "[]" "take (io_made io p) (elems p)" d k] sub show ?thesis
      by (auto simp: lk_MkdirAll_def)
  qed
qed

lemma lk_WriteFile_frame:
  "snd (snd (lk_WriteFile io p b (d, ls))) = ls"
  "locate ls p \<noteq> Some k \<Longrightarrow> map_of (fst (snd (lk_WriteFile io p b (d, ls)))) k = map_of d k"
  using WriteFile_frame[of k "path_of k'" io b d for k'] dkey_path_of[OF locate_normal[of ls p]]
  by (auto simp: lk_WriteFile_def split: option.split prod.split) (metis snd_conv)

lemma locate_entry_normal: "locate_entry ls p = Some k \<Longrightarrow> normal (fst k) (snd k)"
proof (cases "elems p = []")
  case False
  assume "locate_entry ls p = Some k"
  then obtain r pre where w: "walk ls maxLinks (is_abs p) [] (butlast (elems p)) = Some (r, pre)"
    and k: "k = (r, push r pre (last (elems p)))"
    using False by (auto simp: locate_entry_def split: option.splits)
  have "\<forall>e \<in> set (elems p). slash \<notin> set e" using normal_no_slash[OF elems_normal] by blast
  then have "normal r pre" "slash \<notin> set (last (elems p))"
    using walk_normal[OF normal_Nil _ w] False by (auto dest: in_set_butlastD)
  then show ?thesis unfolding k push_def using clean_acc_normal[of r "rev pre" "[last (elems p)]"]
    by (simp del: clean_acc.simps)
qed (auto simp: locate_entry_def dkey_def)

lemma lk_Remove_frame:
  assumes "locate_entry ls p \<noteq> Some k"
  shows "map_of (fst (snd (lk_Remove io p (d, ls)))) k = map_of d k \<and> map_of (snd (snd (lk_Remove io p (d, ls)))) k = map_of ls k"
  using assms Remove_frame[of k "path_of k'" io d for k'] dkey_path_of[OF locate_entry_normal[of ls p]]
  by (auto simp: lk_Remove_def delete_conv' split: option.split prod.split) (metis snd_conv)+

text \<open>
  A call that only reaches into a directory whose links stay in it changes nothing outside
  that directory, but for missing directories on the way to it.
\<close>

definition within_tree :: "dpath \<Rightarrow> ltree \<Rightarrow> ltree \<Rightarrow> bool" where
  "within_tree v x x' \<longleftrightarrow> (\<forall>k. below v k \<or> (map_of (snd x') k = map_of (snd x) k \<and>
     (map_of (fst x') k = map_of (fst x) k \<or>
      (map_of (fst x) k = None \<and> map_of (fst x') k = Some NDir \<and> below k v))))"

lemma within_tree_refl [simp]: "within_tree v x x"
  by (simp add: within_tree_def)

lemma within_tree_step:
  assumes "within_tree v x y" "\<And>k. \<not> below v k \<Longrightarrow> map_of (fst z) k = map_of (fst y) k \<and> map_of (snd z) k = map_of (snd y) k"
  shows "within_tree v x z"
  unfolding within_tree_def
proof
  fix k
  show "below v k \<or> (map_of (snd z) k = map_of (snd x) k \<and> (map_of (fst z) k = map_of (fst x) k \<or>
      (map_of (fst x) k = None \<and> map_of (fst z) k = Some NDir \<and> below k v)))"
    using assms(1)[unfolded within_tree_def, rule_format, of k] assms(2)[of k] by (cases "below v k") simp_all
qed

lemma within_tree_trans:
  assumes "within_tree v x y" "within_tree v y z"
  shows "within_tree v x z"
  unfolding within_tree_def
proof
  fix k
  show "below v k \<or> (map_of (snd z) k = map_of (snd x) k \<and> (map_of (fst z) k = map_of (fst x) k \<or>
      (map_of (fst x) k = None \<and> map_of (fst z) k = Some NDir \<and> below k v)))"
    using assms[unfolded within_tree_def, rule_format, of k] by (cases "below v k") auto
qed

lemma stays_prefix:
  assumes "links_stay ls dir" "inside dir f" "prefix es (elems f)" "walk ls maxLinks (is_abs f) [] es = Some k"
  shows "below (dkey dir) k \<or> below k (dkey dir)"
proof -
  from assms(2) obtain ts where f: "is_abs dir = is_abs f" "elems f = elems dir @ ts" "''..'' \<notin> set ts"
    by (auto simp: inside_def)
  have n: "normal (is_abs f) es" using assms(3) elems_normal[of f] normal_prefix by (auto simp: prefix_def)
  from prefix_same_cases[OF assms(3), of "elems dir"] f(2) consider "prefix es (elems dir)" | us where "es = elems dir @ us"
    by (auto simp: prefix_def)
  then show ?thesis
  proof cases
    case 1
    have "map_of ls (is_abs f, es') = None" if "prefix es' es" for es'
      using that 1 assms(1) f(1) prefix_order.trans[of es' es "elems dir"]
      by (auto simp: links_stay_def below_def dkey_def)
    with walk_no_links[of "is_abs f" "[]" es ls maxLinks] n assms(4) have "k = (is_abs f, es)" by simp
    with 1 f(1) show ?thesis by (simp add: below_def dkey_def)
  next
    case 2
    then have "''..'' \<notin> set us" using assms(3) f(2,3) by (auto simp: prefix_def)
    then have "inside dir (render (is_abs f) es)"
      using n 2 f(1) by (simp add: inside_def is_abs_render elems_render)
    moreover have "locate ls (render (is_abs f) es) = Some k"
      using n assms(4) by (simp add: locate_def is_abs_render elems_render)
    ultimately show ?thesis using assms(1) unfolding links_stay_def by blast
  qed
qed

lemma within_tree_MkdirAll:
  assumes "links_stay ls dir" "inside dir f" "is_abs p = is_abs f" "prefix (elems p) (elems f)"
  shows "within_tree (dkey dir) (d, ls) (snd (lk_MkdirAll io p (d, ls)))"
proof -
  have "below (dkey dir) k \<or> below k (dkey dir)"
    if "prefix es (elems p)" "walk ls maxLinks (is_abs p) [] es = Some k" for k es
    using stays_prefix[OF assms(1,2)] that assms(3) prefix_order.trans[OF that(1) assms(4)] by simp
  then show ?thesis
    using lk_MkdirAll_frame(2)[of io p d ls] unfolding within_tree_def
    by (simp add: lk_MkdirAll_frame(1)) blast
qed

lemma within_tree_WriteFile:
  assumes "links_stay (snd x) dir" "inside dir f"
  shows "within_tree (dkey dir) x (snd (lk_WriteFile io f b x))"
proof (rule within_tree_step[OF within_tree_refl])
  fix k assume "\<not> below (dkey dir) k"
  then have "locate (snd x) f \<noteq> Some k" using assms unfolding links_stay_def by blast
  with lk_WriteFile_frame(1)[of io f b "fst x" "snd x"] lk_WriteFile_frame(2)[of "snd x" f k io b "fst x"]
  show "map_of (fst (snd (lk_WriteFile io f b x))) k = map_of (fst x) k \<and>
      map_of (snd (snd (lk_WriteFile io f b x))) k = map_of (snd x) k" by simp
qed

lemma stays_entry:
  assumes "links_stay ls dir" "inside dir f" "locate_entry ls f = Some k"
  shows "below (dkey dir) k"
proof -
  from assms(2) obtain ts where f: "is_abs dir = is_abs f" "elems f = elems dir @ ts" "''..'' \<notin> set ts"
    by (auto simp: inside_def)
  have n: "normal (is_abs f) (elems f)" by (rule elems_normal)
  show ?thesis
  proof (cases "ts = []")
    case True
    have w: "walk ls maxLinks (is_abs f) [] (butlast (elems f)) = Some (is_abs f, butlast (elems f))"
      if "elems f \<noteq> []"
    proof -
      have "map_of ls (is_abs f, es) = None" if "prefix es (butlast (elems f))" for es
        using that f(1,2) True assms(1) prefix_order.trans[OF that prefixeq_butlast]
        by (auto simp: links_stay_def below_def dkey_def)
      with walk_no_links[of "is_abs f" "[]" "butlast (elems f)" ls maxLinks] n \<open>elems f \<noteq> []\<close> show ?thesis
        by (metis append_Nil append_butlast_last_id normal_butlast(1))
    qed
    have "push (is_abs f) (butlast (elems f)) (last (elems f)) = elems f" if "elems f \<noteq> []"
      using push_normal[of "is_abs f" "butlast (elems f)" "last (elems f)"] n that by simp
    with w assms(3) f(1,2) True show ?thesis
      by (auto simp: locate_entry_def dkey_def below_def split: if_splits)
  next
    case False
    then have ne: "elems f \<noteq> []" "last (elems f) = last ts" "butlast (elems f) = elems dir @ butlast ts"
      using f(2) by (simp_all add: butlast_append)
    obtain r pre where w: "walk ls maxLinks (is_abs f) [] (butlast (elems f)) = Some (r, pre)"
      and k: "k = (r, push r pre (last ts))"
      using assms(3) ne by (auto simp: locate_entry_def split: option.splits)
    have "normal (is_abs f) (butlast (elems f) @ [last (elems f)])" using n append_butlast_last_id[OF ne(1)] by simp
    note nb = normal_butlast[OF this]
    have "last ts \<noteq> ''..''" using last_in_set[OF False] f(3) by metis
    with nb(2) ne(2) have pl: "plain (last ts)" by simp
    have "inside dir (render (is_abs f) (butlast (elems f)))"
      using nb(1) f(1,3) ne(3) by (auto simp: inside_def is_abs_render elems_render dest: in_set_butlastD)
    moreover have "locate ls (render (is_abs f) (butlast (elems f))) = Some (r, pre)"
      using nb(1) w by (simp add: locate_def is_abs_render elems_render)
    ultimately have "below (dkey dir) (r, pre)" using assms(1) unfolding links_stay_def by blast
    with pl show ?thesis by (auto simp: k below_def)
  qed
qed

lemma within_tree_Remove:
  assumes "links_stay (snd x) dir" "inside dir f"
  shows "within_tree (dkey dir) x (snd (lk_Remove io f x))"
proof (rule within_tree_step[OF within_tree_refl])
  fix k assume "\<not> below (dkey dir) k"
  then have "locate_entry (snd x) f \<noteq> Some k" using stays_entry[OF assms] by blast
  with lk_Remove_frame[of "snd x" f k io "fst x"]
  show "map_of (fst (snd (lk_Remove io f x))) k = map_of (fst x) k \<and>
      map_of (snd (snd (lk_Remove io f x))) k = map_of (snd x) k" by simp
qed

text \<open>What is written is read back, through the same links.\<close>

lemma lk_write_read:
  assumes "lk_WriteFile io p b x = (Inr (), x')" "\<And>q. io_fault io' ''read'' q = None"
  shows "lk_ReadFile io' p x' = Inr b"
proof -
  from assms(1) obtain k where k: "locate (snd x) p = Some k" "os_WriteFile io (path_of k) b (fst x) = (Inr (), fst x')" "snd x' = snd x"
    by (auto simp: lk_WriteFile_def split: option.splits prod.splits)
  from WriteFile_ok[OF k(2)] assms(2) k show ?thesis
    by (simp add: lk_ReadFile_def os_ReadFile_def node_at_def dkey_def)
qed

end
