(* ===== verification/Store.thy ===== *)
theory Store
  imports Prelude
begin

text \<open>
  The key-value store of \<^verbatim>\<open>internal/store/store.go\<close>: the \<open>Store\<close> interface as a record of
  operations over a state type, the in-memory implementation \<open>memStore\<close>, and the contract
  every implementation keeps (\<open>store_laws\<close>), which the registry and everything above it
  rely on. The contract is interpreted for \<open>memStore\<close> here and for the replicated,
  encrypted \<open>RaftStore\<close> in its own theory.

  The mutexes make each operation atomic; an operation is one state transition. Values
  are of a type \<open>'b\<close>: the store never looks inside them.
\<close>

section \<open>The interface\<close>

record ('s, 'b) Store =
  st_Get :: "string \<Rightarrow> 's \<Rightarrow> 'b res"
  st_Put :: "string \<Rightarrow> 'b \<Rightarrow> ('s, unit) action"
  st_Delete :: "string \<Rightarrow> ('s, unit) action"
  st_List :: "string \<Rightarrow> 's \<Rightarrow> (string, 'b) gomap res"

section \<open>The in-memory store\<close>

type_synonym 'b memStore = "(string, 'b) gomap"

definition NewMemStore :: "'b memStore" where
  "NewMemStore = []"

definition mem_Get :: "string \<Rightarrow> 'b memStore \<Rightarrow> 'b res" where
  "mem_Get key data = (case map_of data key of None \<Rightarrow> Inl ErrNotFound | Some v \<Rightarrow> Inr v)"

definition mem_Put :: "string \<Rightarrow> 'b \<Rightarrow> ('b memStore, unit) action" where
  "mem_Put key value data = (Inr (), AList.update key value data)"

definition mem_Delete :: "string \<Rightarrow> ('b memStore, unit) action" where
  "mem_Delete key data = (Inr (), AList.delete key data)"

definition mem_List :: "string \<Rightarrow> 'b memStore \<Rightarrow> (string, 'b) gomap res" where
  "mem_List pre data = Inr (filter (\<lambda>(k, v). HasPrefix k pre) data)"

definition memStore :: "('b memStore, 'b) Store" where
  "memStore = \<lparr>st_Get = mem_Get, st_Put = mem_Put, st_Delete = mem_Delete, st_List = mem_List\<rparr>"

lemmas memStore_defs = memStore_def mem_Get_def mem_Put_def mem_Delete_def mem_List_def

text \<open>The writes as data, a run of them, and their meaning on a map.\<close>

datatype 'b store_op = OpPut string 'b | OpDelete string

fun store_exec :: "('s, 'b) Store \<Rightarrow> 'b store_op \<Rightarrow> ('s, unit) action" where
  "store_exec S (OpPut k v) = st_Put S k v"
| "store_exec S (OpDelete k) = st_Delete S k"

definition run_ops :: "('s, 'b) Store \<Rightarrow> 'b store_op list \<Rightarrow> ('s, unit) action" where
  "run_ops S ops = forA (store_exec S) ops"

fun spec_step :: "'b store_op \<Rightarrow> (string \<rightharpoonup> 'b) \<Rightarrow> (string \<rightharpoonup> 'b)" where
  "spec_step (OpPut k v) m = m(k \<mapsto> v)"
| "spec_step (OpDelete k) m = m(k := None)"

section \<open>The contract\<close>

text \<open>
  \<open>inv\<close> is the implementation's invariant and \<open>abs\<close> the map it represents. A write that
  reports an error has either not happened or has happened (a replicated write can be
  committed after its caller gave up), never anything else.
\<close>

locale store_laws =
  fixes S :: "('s, 'b) Store" and inv :: "'s \<Rightarrow> bool" and abs :: "'s \<Rightarrow> (string \<rightharpoonup> 'b)"
  assumes get_Some: "inv s \<Longrightarrow> abs s k = Some v \<Longrightarrow> st_Get S k s = Inr v"
    and get_None: "inv s \<Longrightarrow> abs s k = None \<Longrightarrow> st_Get S k s = Inl ErrNotFound"
    and list_ok: "inv s \<Longrightarrow> \<exists>m. st_List S p s = Inr m \<and> distinct (map fst m) \<and>
      map_of m = (\<lambda>k. if HasPrefix k p then abs s k else None)"
    and put_inv: "inv s \<Longrightarrow> inv (snd (st_Put S k v s))"
    and put_ok: "inv s \<Longrightarrow> st_Put S k v s = (Inr (), s') \<Longrightarrow> abs s' = (abs s)(k \<mapsto> v)"
    and put_err: "inv s \<Longrightarrow> st_Put S k v s = (Inl e, s') \<Longrightarrow>
      abs s' = abs s \<or> abs s' = (abs s)(k \<mapsto> v)"
    and delete_inv: "inv s \<Longrightarrow> inv (snd (st_Delete S k s))"
    and delete_ok: "inv s \<Longrightarrow> st_Delete S k s = (Inr (), s') \<Longrightarrow> abs s' = (abs s)(k := None)"
    and delete_err: "inv s \<Longrightarrow> st_Delete S k s = (Inl e, s') \<Longrightarrow>
      abs s' = abs s \<or> abs s' = (abs s)(k := None)"
begin

lemma get_iff: "inv s \<Longrightarrow> st_Get S k s = Inr v \<longleftrightarrow> abs s k = Some v"
  by (cases "abs s k") (auto simp: get_Some get_None)

lemma get_cases: "inv s \<Longrightarrow>
  st_Get S k s = (case abs s k of None \<Rightarrow> Inl ErrNotFound | Some v \<Rightarrow> Inr v)"
  by (simp add: get_Some get_None split: option.split)

text \<open>Whatever a write reports, only its own key can change.\<close>

lemma put_frame: "inv s \<Longrightarrow> st_Put S k v s = (r, s') \<Longrightarrow> k' \<noteq> k \<Longrightarrow> abs s' k' = abs s k'"
  using put_ok put_err by (cases r) (fastforce split: if_splits)+

lemma delete_frame: "inv s \<Longrightarrow> st_Delete S k s = (r, s') \<Longrightarrow> k' \<noteq> k \<Longrightarrow> abs s' k' = abs s k'"
  using delete_ok delete_err by (cases r) (fastforce split: if_splits)+

lemma get_put: "inv s \<Longrightarrow> st_Put S k v s = (Inr (), s') \<Longrightarrow>
  st_Get S k' s' = (if k' = k then Inr v else st_Get S k' s)"
  using put_inv[of s k v] by (simp add: get_cases put_ok)

lemma get_delete: "inv s \<Longrightarrow> st_Delete S k s = (Inr (), s') \<Longrightarrow>
  st_Get S k' s' = (if k' = k then Inl ErrNotFound else st_Get S k' s)"
  using delete_inv[of s k] by (simp add: get_cases delete_ok)

lemma list_set:
  assumes "inv s" and "st_List S p s = Inr m"
  shows "set m = {(k, v). HasPrefix k p \<and> abs s k = Some v}" and "distinct (map fst m)"
proof -
  from list_ok[OF assms(1), of p] assms(2) have d: "distinct (map fst m)"
    and m: "map_of m = (\<lambda>k. if HasPrefix k p then abs s k else None)"
    by auto
  from d show "distinct (map fst m)" .
  have "(k, v) \<in> set m \<longleftrightarrow> map_of m k = Some v" for k v
    using d by simp
  then show "set m = {(k, v). HasPrefix k p \<and> abs s k = Some v}"
    by (auto simp: m split: if_splits)
qed

lemma list_Inr: "inv s \<Longrightarrow> \<exists>m. st_List S p s = Inr m"
  using list_ok by blast

lemma store_exec_ok:
  assumes "inv s" "store_exec S op s = (Inr (), s')"
  shows "inv s' \<and> abs s' = spec_step op (abs s)"
proof (cases op)
  case (OpPut k v)
  with assms put_inv[OF assms(1), of k v] put_ok[OF assms(1)] show ?thesis by simp
next
  case (OpDelete k)
  with assms delete_inv[OF assms(1), of k] delete_ok[OF assms(1)] show ?thesis by simp
qed

lemma run_ops_ok:
  assumes "inv s" "run_ops S ops s = (Inr (), s')"
  shows "inv s' \<and> abs s' = fold spec_step ops (abs s)"
  using assms
proof (induction ops arbitrary: s)
  case Nil
  then show ?case by (simp add: run_ops_def ret_def)
next
  case (Cons op ops)
  then obtain s1 where 1: "store_exec S op s = (Inr (), s1)" "run_ops S ops s1 = (Inr (), s')"
    by (auto simp: run_ops_def bindA_Inr)
  with store_exec_ok[OF Cons.prems(1) 1(1)] Cons.IH[of s1] show ?case by simp
qed

end

lemma map_of_filter_key:
  "map_of (filter (\<lambda>(k, v). P k) m) = (\<lambda>k. if P k then map_of m k else None)"
  by (induction m) (auto simp: fun_eq_iff)

lemma distinct_filter_fst: "distinct (map fst m) \<Longrightarrow> distinct (map fst (filter P m))"
  by (induction m) auto

interpretation mem: store_laws "memStore :: ('b memStore, 'b) Store" "\<lambda>m. distinct (map fst m)" map_of
  by unfold_locales
    (auto simp: memStore_defs map_of_filter_key distinct_filter_fst distinct_delete
      split: option.splits)

section \<open>Sequences of writes\<close>

lemma mem_run_total: "\<exists>s'. run_ops memStore ops s = (Inr (), s')"
proof (induction ops arbitrary: s)
  case (Cons op ops)
  then show ?case by (cases op) (simp_all add: run_ops_def actions memStore_defs)
qed (simp add: run_ops_def ret_def)

text \<open>
  After any sequence of writes to a new in-memory store, every write has succeeded,
  \<open>Get\<close> returns exactly what the map updated by the same writes holds (\<open>ErrNotFound\<close>
  where it holds nothing), and \<open>List\<close> returns each key with the prefix exactly once, with
  that value.\<close>

theorem mem_refines:
  "\<exists>s. run_ops memStore ops (NewMemStore :: 'b memStore) = (Inr (), s) \<and>
    (\<forall>k. mem_Get k s =
       (case fold spec_step ops Map.empty k of None \<Rightarrow> Inl ErrNotFound | Some v \<Rightarrow> Inr v)) \<and>
    (\<forall>p. \<exists>l. mem_List p s = Inr l \<and> distinct (map fst l) \<and>
       set l = {(k, v). HasPrefix k p \<and> fold spec_step ops Map.empty k = Some v})"
proof -
  let ?m = "fold spec_step ops (Map.empty :: string \<rightharpoonup> 'b)"
  obtain s where run: "run_ops memStore ops (NewMemStore :: 'b memStore) = (Inr (), s)"
    using mem_run_total by blast
  have d: "distinct (map fst (NewMemStore :: 'b memStore))" by (simp add: NewMemStore_def)
  from mem.run_ops_ok[OF d run] have s: "distinct (map fst s)" "map_of s = ?m"
    by (simp_all add: NewMemStore_def)
  have "\<exists>l. mem_List p s = Inr l \<and> distinct (map fst l) \<and>
      set l = {(k, v). HasPrefix k p \<and> ?m k = Some v}" for p
    using mem.list_Inr[OF s(1), of p] mem.list_set[OF s(1), of p] s(2)
    by (auto simp: memStore_def)
  moreover have "mem_Get k s = (case ?m k of None \<Rightarrow> Inl ErrNotFound | Some v \<Rightarrow> Inr v)" for k
    using mem.get_cases[OF s(1), of k] s(2) by (simp add: memStore_def)
  ultimately show ?thesis using run by blast
qed

end
