(* ===== verification/RaftStore.thy ===== *)
theory RaftStore
  imports Store
begin

text \<open>
  The replicated, encrypted store: \<^verbatim>\<open>internal/store/crypto.go\<close>, \<^verbatim>\<open>internal/store/raft.go\<close>
  and the key-rotation controller \<^verbatim>\<open>internal/controller/key_rotation.go\<close>. HashiCorp Raft,
  AES-GCM, the system's random source and \<open>encoding/json\<close> are parameters (\<open>raft_env\<close>);
  the locale \<open>raft_env_laws\<close> lists what is relied on. Within it the store is shown to keep the
  contract of \<open>Store\<close>, and key rotation to keep every value readable as long as every
  re-encryption completes before the next rotation.
\<close>

section \<open>Parameters\<close>

record command =
  cmd_Op :: string
  cmd_Key :: string
  cmd_Value :: bytes

record RaftConfig =
  cfg_NodeID :: string
  cfg_BindAddr :: string
  cfg_DataDir :: string
  cfg_Bootstrap :: bool
  cfg_EncryptionKey :: bytes

text \<open>
  \<open>re_Apply\<close> is \<open>raft.Apply(...).Error()\<close>: the error, whether the entry has been applied to
  the local state machine by then, and the new state of the Raft node. \<open>re_Start\<close> stands for
  opening the log, starting the node, bootstrapping, and the replay of the log into the
  state machine.
\<close>

record ('r, 'g, 'l) raft_env =
  re_IsLeader :: "'r \<Rightarrow> bool"
  re_Apply :: "'l \<Rightarrow> 'r \<Rightarrow> (error option \<times> bool) \<times> 'r"
  re_AddVoter :: "string \<Rightarrow> string \<Rightarrow> 'r \<Rightarrow> unit res \<times> 'r"
  re_Start :: "RaftConfig \<Rightarrow> ('r \<times> (string, bytes) gomap) res"
  re_Marshal :: "command \<Rightarrow> 'l res"
  re_Unmarshal :: "'l \<Rightarrow> command res"
  re_EncodeMap :: "(string, bytes) gomap \<Rightarrow> 'l res"
  re_DecodeMap :: "'l \<Rightarrow> (string, bytes) gomap res"
  re_NonceSize :: nat
  re_Seal :: "bytes \<Rightarrow> bytes \<Rightarrow> bytes \<Rightarrow> bytes"
  re_Open :: "bytes \<Rightarrow> bytes \<Rightarrow> bytes \<Rightarrow> bytes res"
  re_Rand :: "nat \<Rightarrow> 'g \<Rightarrow> bytes res \<times> 'g"

section \<open>Encryption of values\<close>

definition EncryptionKeySize :: nat where
  "EncryptionKeySize = 32"

definition newGCM :: "bytes \<Rightarrow> unit res" where
  "newGCM key =
     (if length key \<noteq> EncryptionKeySize then Inl (ErrText ''store: encryption key must be 32 bytes'')
      else Inr ())"

definition encryptValue :: "('r, 'g, 'l) raft_env \<Rightarrow> bytes \<Rightarrow> bytes \<Rightarrow> ('g, bytes) action" where
  "encryptValue E key plaintext =
     bindA (readA (\<lambda>_. newGCM key)) (\<lambda>_.
     bindA (wrapA ''store: generate nonce'' (re_Rand E (re_NonceSize E))) (\<lambda>nonce.
     ret (nonce @ re_Seal E key nonce plaintext)))"

definition decryptValue :: "('r, 'g, 'l) raft_env \<Rightarrow> bytes \<Rightarrow> bytes \<Rightarrow> bytes res" where
  "decryptValue E key ciphertext =
     (case newGCM key of
        Inl e \<Rightarrow> Inl e
      | Inr _ \<Rightarrow>
          if length ciphertext < re_NonceSize E
          then Inl (ErrText ''store: ciphertext shorter than nonce'')
          else re_Open E key (take (re_NonceSize E) ciphertext) (drop (re_NonceSize E) ciphertext))"

section \<open>The state machine\<close>

text \<open>\<open>fsm.Apply\<close>; an operation that is neither put nor delete is ignored.\<close>

definition fsm_Apply :: "('r, 'g, 'l) raft_env \<Rightarrow> 'l \<Rightarrow> ((string, bytes) gomap, unit) action" where
  "fsm_Apply E entry data =
     (case re_Unmarshal E entry of
        Inl e \<Rightarrow> (Inl e, data)
      | Inr cmd \<Rightarrow>
          if cmd_Op cmd = ''put'' then (Inr (), AList.update (cmd_Key cmd) (cmd_Value cmd) data)
          else if cmd_Op cmd = ''delete'' then (Inr (), AList.delete (cmd_Key cmd) data)
          else (Inr (), data))"

definition fsm_get :: "string \<Rightarrow> (string, bytes) gomap \<Rightarrow> bytes res" where
  "fsm_get key data = (case map_of data key of None \<Rightarrow> Inl ErrNotFound | Some v \<Rightarrow> Inr v)"

definition fsm_list :: "string \<Rightarrow> (string, bytes) gomap \<Rightarrow> (string, bytes) gomap" where
  "fsm_list pre data = filter (\<lambda>(k, v). HasPrefix k pre) data"

definition fsm_Snapshot :: "(string, bytes) gomap \<Rightarrow> (string, bytes) gomap" where
  "fsm_Snapshot data = maps_Copy [] data"

definition fsm_Persist :: "('r, 'g, 'l) raft_env \<Rightarrow> (string, bytes) gomap \<Rightarrow> 'l res" where
  "fsm_Persist E snap = re_EncodeMap E snap"

definition fsm_Restore :: "('r, 'g, 'l) raft_env \<Rightarrow> 'l \<Rightarrow> ((string, bytes) gomap, unit) action" where
  "fsm_Restore E rc data =
     (case re_DecodeMap E rc of Inl e \<Rightarrow> (Inl e, data) | Inr data' \<Rightarrow> (Inr (), data'))"

section \<open>The store\<close>

record ('r, 'g) RaftStore =
  rs_raft :: 'r
  rs_rand :: 'g
  rs_fsm :: "(string, bytes) gomap"
  rs_encKey :: bytes
  rs_prevEncKey :: bytes

definition NewRaftStore :: "('r, 'g, 'l) raft_env \<Rightarrow> RaftConfig \<Rightarrow> 'g \<Rightarrow> ('r, 'g) RaftStore res" where
  "NewRaftStore E cfg g =
     (if cfg_NodeID cfg = [] then Inl (ErrText ''store: NodeID is required'')
      else if cfg_EncryptionKey cfg \<noteq> [] \<and> length (cfg_EncryptionKey cfg) \<noteq> EncryptionKeySize
        then Inl (ErrText ''store: encryption key must be 32 bytes'')
      else (case re_Start E cfg of
              Inl e \<Rightarrow> Inl e
            | Inr (r, data) \<Rightarrow> Inr \<lparr>rs_raft = r, rs_rand = g, rs_fsm = data,
                rs_encKey = cfg_EncryptionKey cfg, rs_prevEncKey = []\<rparr>))"

definition IsLeader :: "('r, 'g, 'l) raft_env \<Rightarrow> ('r, 'g) RaftStore \<Rightarrow> bool" where
  "IsLeader E s = re_IsLeader E (rs_raft s)"

definition AddVoter :: "('r, 'g, 'l) raft_env \<Rightarrow> string \<Rightarrow> string \<Rightarrow> (('r, 'g) RaftStore, unit) action" where
  "AddVoter E nodeID addr s =
     (if \<not> IsLeader E s then (Inl ErrNotLeader, s)
      else (case re_AddVoter E nodeID addr (rs_raft s) of (r, raft') \<Rightarrow> (r, s\<lparr>rs_raft := raft'\<rparr>)))"

definition rs_apply :: "('r, 'g, 'l) raft_env \<Rightarrow> command \<Rightarrow> (('r, 'g) RaftStore, unit) action" where
  "rs_apply E cmd s =
     (if \<not> IsLeader E s then (Inl ErrNotLeader, s)
      else (case re_Marshal E cmd of
              Inl e \<Rightarrow> (Inl e, s)
            | Inr b \<Rightarrow>
                (case re_Apply E b (rs_raft s) of
                   ((err, applied), raft') \<Rightarrow>
                     ((case err of None \<Rightarrow> Inr () | Some e \<Rightarrow> Inl e),
                      s\<lparr>rs_raft := raft',
                        rs_fsm := (if applied then snd (fsm_Apply E b (rs_fsm s)) else rs_fsm s)\<rparr>))))"

definition rs_encrypt :: "('r, 'g, 'l) raft_env \<Rightarrow> bytes \<Rightarrow> (('r, 'g) RaftStore, bytes) action" where
  "rs_encrypt E plaintext s =
     (if rs_encKey s = [] then (Inr plaintext, s)
      else (case encryptValue E (rs_encKey s) plaintext (rs_rand s) of (r, g) \<Rightarrow> (r, s\<lparr>rs_rand := g\<rparr>)))"

definition rs_decrypt :: "('r, 'g, 'l) raft_env \<Rightarrow> bytes \<Rightarrow> ('r, 'g) RaftStore \<Rightarrow> bytes res" where
  "rs_decrypt E stored s =
     (if rs_encKey s = [] then Inr stored
      else (case decryptValue E (rs_encKey s) stored of
              Inr plain \<Rightarrow> Inr plain
            | Inl err \<Rightarrow>
                if rs_prevEncKey s \<noteq> [] then
                  (case decryptValue E (rs_prevEncKey s) stored of
                     Inr plain \<Rightarrow> Inr plain | Inl prevErr \<Rightarrow> Inl err)
                else Inl err))"

definition rs_Get :: "('r, 'g, 'l) raft_env \<Rightarrow> string \<Rightarrow> ('r, 'g) RaftStore \<Rightarrow> bytes res" where
  "rs_Get E key s =
     (case fsm_get key (rs_fsm s) of Inl e \<Rightarrow> Inl e | Inr stored \<Rightarrow> rs_decrypt E stored s)"

definition rs_Put :: "('r, 'g, 'l) raft_env \<Rightarrow> string \<Rightarrow> bytes \<Rightarrow> (('r, 'g) RaftStore, unit) action" where
  "rs_Put E key value =
     bindA (rs_encrypt E value)
       (\<lambda>stored. rs_apply E \<lparr>cmd_Op = ''put'', cmd_Key = key, cmd_Value = stored\<rparr>)"

definition rs_Delete :: "('r, 'g, 'l) raft_env \<Rightarrow> string \<Rightarrow> (('r, 'g) RaftStore, unit) action" where
  "rs_Delete E key = rs_apply E \<lparr>cmd_Op = ''delete'', cmd_Key = key, cmd_Value = []\<rparr>"

fun decrypt_all :: "('r, 'g, 'l) raft_env \<Rightarrow> (string, bytes) gomap \<Rightarrow> ('r, 'g) RaftStore \<Rightarrow> (string, bytes) gomap res" where
  "decrypt_all E [] s = Inr []"
| "decrypt_all E ((k, v) # stored) s =
     (case rs_decrypt E v s of
        Inl e \<Rightarrow> Inl (ErrWrap ''store: decrypt'' e)
      | Inr plain \<Rightarrow> (case decrypt_all E stored s of Inl e \<Rightarrow> Inl e | Inr out \<Rightarrow> Inr ((k, plain) # out)))"

definition rs_List :: "('r, 'g, 'l) raft_env \<Rightarrow> string \<Rightarrow> ('r, 'g) RaftStore \<Rightarrow> (string, bytes) gomap res" where
  "rs_List E pre s = decrypt_all E (fsm_list pre (rs_fsm s)) s"

definition RotateEncryptionKey :: "bytes \<Rightarrow> (('r, 'g) RaftStore, unit) action" where
  "RotateEncryptionKey newKey s =
     (if length newKey \<noteq> EncryptionKeySize
      then (Inl (ErrText ''store: encryption key must be 32 bytes''), s)
      else (Inr (), s\<lparr>rs_prevEncKey := rs_encKey s, rs_encKey := newKey\<rparr>))"

text \<open>
  The loop of \<open>ReencryptAll\<close>: the number of values written so far, and the error that
  stopped it.
\<close>

fun reencrypt_loop :: "('r, 'g, 'l) raft_env \<Rightarrow> (string, bytes) gomap \<Rightarrow> nat \<Rightarrow> ('r, 'g) RaftStore \<Rightarrow>
    (nat \<times> error option) \<times> ('r, 'g) RaftStore" where
  "reencrypt_loop E [] cnt s = ((cnt, None), s)"
| "reencrypt_loop E ((key, value) # all) cnt s =
     (case rs_Put E key value s of
        (Inl e, s') \<Rightarrow> ((cnt, Some (ErrWrap ''store: re-encrypt'' e)), s')
      | (Inr _, s') \<Rightarrow> reencrypt_loop E all (Suc cnt) s')"

definition ReencryptAll :: "('r, 'g, 'l) raft_env \<Rightarrow> ('r, 'g) RaftStore \<Rightarrow>
    (nat \<times> error option) \<times> ('r, 'g) RaftStore" where
  "ReencryptAll E s =
     (case rs_List E [] s of
        Inl e \<Rightarrow> ((0, Some (ErrWrap ''store: list values to re-encrypt'' e)), s)
      | Inr all \<Rightarrow>
          (case reencrypt_loop E all 0 s of
             ((cnt, Some e), s') \<Rightarrow> ((cnt, Some e), s')
           | ((cnt, None), s') \<Rightarrow> ((cnt, None), s'\<lparr>rs_prevEncKey := []\<rparr>)))"

text \<open>The controller.\<close>

record KeyRotationReconciler =
  krr_interval :: int

definition NewKeyRotationReconciler :: "int \<Rightarrow> KeyRotationReconciler" where
  "NewKeyRotationReconciler interval =
     \<lparr>krr_interval = (if interval \<le> 0 then 24 * 3600 * Second else interval)\<rparr>"

text \<open>\<open>KeyRotationReconciler.rotate\<close>, one tick of the rotation controller.\<close>

definition key_rotate :: "('r, 'g, 'l) raft_env \<Rightarrow> ('r, 'g) RaftStore \<Rightarrow> ('r, 'g) RaftStore" where
  "key_rotate E s =
     (case re_Rand E EncryptionKeySize (rs_rand s) of
        (Inl e, g) \<Rightarrow> s\<lparr>rs_rand := g\<rparr>
      | (Inr newKey, g) \<Rightarrow>
          (case RotateEncryptionKey newKey (s\<lparr>rs_rand := g\<rparr>) of
             (Inl e, s') \<Rightarrow> s'
           | (Inr _, s') \<Rightarrow> snd (ReencryptAll E s')))"

definition raftStore :: "('r, 'g, 'l) raft_env \<Rightarrow> (('r, 'g) RaftStore, bytes) Store" where
  "raftStore E = \<lparr>st_Get = rs_Get E, st_Put = rs_Put E, st_Delete = rs_Delete E, st_List = rs_List E\<rparr>"

section \<open>The invariant and the map the store represents\<close>

text \<open>A stored value that is the encryption of \<open>p\<close> under \<open>key\<close>.\<close>

definition enc_under :: "('r, 'g, 'l) raft_env \<Rightarrow> bytes \<Rightarrow> bytes \<Rightarrow> bytes \<Rightarrow> bool" where
  "enc_under E key c p \<longleftrightarrow> length key = EncryptionKeySize \<and>
     (\<exists>nonce. length nonce = re_NonceSize E \<and> c = nonce @ re_Seal E key nonce p)"

text \<open>
  The invariant: every stored value decrypts to something, under the current key or, while a
  rotation is being carried out, under the previous one. Without a key, values are stored
  as they are.
\<close>

definition raft_inv :: "('r, 'g, 'l) raft_env \<Rightarrow> ('r, 'g) RaftStore \<Rightarrow> bool" where
  "raft_inv E s \<longleftrightarrow> distinct (map fst (rs_fsm s)) \<and>
     (rs_encKey s = [] \<or>
      length (rs_encKey s) = EncryptionKeySize \<and>
      (\<forall>(k, c) \<in> set (rs_fsm s). \<exists>p. enc_under E (rs_encKey s) c p \<or> enc_under E (rs_prevEncKey s) c p))"

definition raft_abs :: "('r, 'g, 'l) raft_env \<Rightarrow> ('r, 'g) RaftStore \<Rightarrow> string \<rightharpoonup> bytes" where
  "raft_abs E s k = (case map_of (rs_fsm s) k of None \<Rightarrow> None
     | Some c \<Rightarrow> (case rs_decrypt E c s of Inl e \<Rightarrow> None | Inr p \<Rightarrow> Some p))"

text \<open>Every value is under the current key: no rotation is pending.\<close>

definition settled :: "('r, 'g, 'l) raft_env \<Rightarrow> ('r, 'g) RaftStore \<Rightarrow> bool" where
  "settled E s \<longleftrightarrow> distinct (map fst (rs_fsm s)) \<and> length (rs_encKey s) = EncryptionKeySize \<and>
     (\<forall>(k, c) \<in> set (rs_fsm s). \<exists>p. enc_under E (rs_encKey s) c p)"

section \<open>What the parameters promise\<close>

text \<open>
  \<open>encoding/json\<close> gives back what it encoded (keys and names are valid UTF-8, which protobuf
  checks on every request); a Raft write that reports no error has been applied; the random
  source fills the buffer or fails; AES-GCM opens what it sealed under the same key and
  rejects it under another.
\<close>

locale raft_env_laws =
  fixes E :: "('r, 'g, 'l) raft_env"
  assumes json: "re_Marshal E c = Inr b \<Longrightarrow> re_Unmarshal E b = Inr c"
    and json_map: "re_EncodeMap E m = Inr b \<Longrightarrow>
      \<exists>m'. re_DecodeMap E b = Inr m' \<and> map_of m' = map_of m \<and> distinct (map fst m')"
    and apply_ok: "re_Apply E b r = ((None, applied), r') \<Longrightarrow> applied"
    and rand: "re_Rand E n g = (Inr bs, g') \<Longrightarrow> length bs = n"
    and open_seal: "length key = EncryptionKeySize \<Longrightarrow> length nonce = re_NonceSize E \<Longrightarrow>
      re_Open E key nonce (re_Seal E key nonce p) = Inr p"
    and open_other: "length key = EncryptionKeySize \<Longrightarrow> length key' = EncryptionKeySize \<Longrightarrow>
      key \<noteq> key' \<Longrightarrow> \<exists>e. re_Open E key' nonce (re_Seal E key nonce p) = Inl e"
begin

text \<open>A stored value that is the encryption of \<open>p\<close> under \<open>key\<close>.\<close>

lemma decrypt_same: "enc_under E key c p \<Longrightarrow> decryptValue E key c = Inr p"
  by (auto simp: enc_under_def decryptValue_def newGCM_def open_seal)

lemma decrypt_other:
  "enc_under E key c p \<Longrightarrow> length key' = EncryptionKeySize \<Longrightarrow> key' \<noteq> key \<Longrightarrow> \<exists>e. decryptValue E key' c = Inl e"
  using open_other by (auto simp: enc_under_def decryptValue_def newGCM_def)

lemma encryptValue_under: "encryptValue E key p g = (Inr c, g') \<Longrightarrow> enc_under E key c p"
  by (auto simp: encryptValue_def actions newGCM_def enc_under_def dest: rand
      split: prod.splits sum.splits if_splits)

lemma key_nonempty: "length key = EncryptionKeySize \<Longrightarrow> key \<noteq> []"
  by (auto simp: EncryptionKeySize_def)

lemma settled_inv: "settled E s \<Longrightarrow> raft_inv E s"
  unfolding settled_def raft_inv_def by fast

lemma settled_key: "settled E s \<Longrightarrow> rs_encKey s \<noteq> []"
  by (auto simp: settled_def EncryptionKeySize_def)

lemma enc_under_key: "enc_under E key c p \<Longrightarrow> key \<noteq> []"
  by (auto simp: enc_under_def EncryptionKeySize_def)

lemma rs_decrypt_cur: "enc_under E (rs_encKey s) c p \<Longrightarrow> rs_decrypt E c s = Inr p"
  using enc_under_key decrypt_same by (simp add: rs_decrypt_def)

lemma rs_decrypt_prev:
  assumes "enc_under E (rs_prevEncKey s) c p" "length (rs_encKey s) = EncryptionKeySize"
  shows "rs_decrypt E c s = Inr p"
proof (cases "rs_encKey s = rs_prevEncKey s")
  case True
  with assms show ?thesis by (metis rs_decrypt_cur)
next
  case False
  with decrypt_other[OF assms(1,2)] obtain e where "decryptValue E (rs_encKey s) c = Inl e"
    by blast
  with key_nonempty[OF assms(2)] enc_under_key[OF assms(1)] decrypt_same[OF assms(1)] show ?thesis
    by (simp add: rs_decrypt_def)
qed

lemma inv_decrypts:
  assumes "raft_inv E s" "(k, c) \<in> set (rs_fsm s)"
  shows "\<exists>p. rs_decrypt E c s = Inr p"
proof (cases "rs_encKey s = []")
  case True
  then show ?thesis by (simp add: rs_decrypt_def)
next
  case False
  with assms obtain p where "length (rs_encKey s) = EncryptionKeySize"
    "enc_under E (rs_encKey s) c p \<or> enc_under E (rs_prevEncKey s) c p"
    unfolding raft_inv_def by fastforce
  then show ?thesis using rs_decrypt_cur rs_decrypt_prev by blast
qed

lemma rs_decrypt_keys:
  "rs_encKey s' = rs_encKey s \<Longrightarrow> rs_prevEncKey s' = rs_prevEncKey s \<Longrightarrow> rs_decrypt E c s' = rs_decrypt E c s"
  by (simp only: rs_decrypt_def)

section \<open>The contract\<close>

text \<open>
  A command that goes through Raft either is applied or leaves the data alone; without an
  error it is applied.
\<close>

lemma rs_apply_cases:
  assumes "rs_apply E cmd s = (r, s')"
  obtains (skip) e where "r = Inl e" "rs_fsm s' = rs_fsm s" "rs_encKey s' = rs_encKey s"
      "rs_prevEncKey s' = rs_prevEncKey s"
  | (put) "cmd_Op cmd = ''put''" "rs_fsm s' = AList.update (cmd_Key cmd) (cmd_Value cmd) (rs_fsm s)"
      "rs_encKey s' = rs_encKey s" "rs_prevEncKey s' = rs_prevEncKey s"
  | (del) "cmd_Op cmd = ''delete''" "rs_fsm s' = AList.delete (cmd_Key cmd) (rs_fsm s)"
      "rs_encKey s' = rs_encKey s" "rs_prevEncKey s' = rs_prevEncKey s"
  | (other) "cmd_Op cmd \<noteq> ''put''" "cmd_Op cmd \<noteq> ''delete''"
proof (cases "\<not> IsLeader E s")
  case True
  with assms show ?thesis by (intro skip) (auto simp: rs_apply_def)
next
  case leader: False
  show ?thesis
  proof (cases "re_Marshal E cmd")
    case (Inl e)
    with assms leader show ?thesis by (intro skip) (auto simp: rs_apply_def)
  next
    case (Inr b)
    obtain err applied raft' where ap: "re_Apply E b (rs_raft s) = ((err, applied), raft')"
      by (metis surj_pair)
    from assms leader Inr ap have r: "r = (case err of None \<Rightarrow> Inr () | Some e \<Rightarrow> Inl e)"
      and s': "s' = s\<lparr>rs_raft := raft',
        rs_fsm := (if applied then snd (fsm_Apply E b (rs_fsm s)) else rs_fsm s)\<rparr>"
      by (auto simp: rs_apply_def)
    show ?thesis
    proof (cases applied)
      case False
      with ap apply_ok obtain e where "err = Some e" by (cases err) auto
      with r s' False show ?thesis by (intro skip) auto
    next
      case True
      with s' show ?thesis using put del other json[OF Inr] by (auto simp: fsm_Apply_def)
    qed
  qed
qed

lemma rs_encrypt_frame:
  assumes "rs_encrypt E v s = (r, s')"
  shows "rs_fsm s' = rs_fsm s" "rs_encKey s' = rs_encKey s" "rs_prevEncKey s' = rs_prevEncKey s"
  using assms by (auto simp: rs_encrypt_def split: if_splits prod.splits)

lemma rs_encrypt_value:
  assumes "rs_encrypt E v s = (Inr c, s')"
  shows "if rs_encKey s = [] then c = v else enc_under E (rs_encKey s) c v"
  using assms encryptValue_under by (auto simp: rs_encrypt_def split: if_splits prod.splits)

text \<open>Adding an encrypted value, or removing one, keeps the invariant and updates the map.\<close>

lemma raft_inv_update:
  assumes "raft_inv E s" "rs_fsm s' = AList.update k c (rs_fsm s)" "rs_encKey s' = rs_encKey s"
    "rs_prevEncKey s' = rs_prevEncKey s" "if rs_encKey s = [] then c = v else enc_under E (rs_encKey s) c v"
  shows "raft_inv E s'" and "raft_abs E s' = (raft_abs E s)(k \<mapsto> v)"
proof -
  have set: "set (AList.update k c (rs_fsm s)) \<subseteq> insert (k, c) (set (rs_fsm s))"
    by (rule set_update_subset)
  show "raft_inv E s'"
    using assms set unfolding raft_inv_def by (auto split: if_splits)
  have "rs_decrypt E c s = Inr v"
    using assms(5) by (cases "rs_encKey s = []") (simp_all add: rs_decrypt_cur, simp add: rs_decrypt_def)
  then show "raft_abs E s' = (raft_abs E s)(k \<mapsto> v)"
    by (simp add: fun_eq_iff raft_abs_def assms(2) rs_decrypt_keys[OF assms(3,4)] split: option.split)
qed

lemma raft_inv_delete:
  assumes "raft_inv E s" "rs_fsm s' = AList.delete k (rs_fsm s)" "rs_encKey s' = rs_encKey s"
    "rs_prevEncKey s' = rs_prevEncKey s"
  shows "raft_inv E s'" and "raft_abs E s' = (raft_abs E s)(k := None)"
proof -
  have set: "set (AList.delete k (rs_fsm s)) \<subseteq> set (rs_fsm s)"
    by (rule set_delete_subset)
  show "raft_inv E s'"
    using assms set unfolding raft_inv_def by (auto simp: distinct_delete)
  show "raft_abs E s' = (raft_abs E s)(k := None)"
    by (simp add: fun_eq_iff raft_abs_def assms(2) rs_decrypt_keys[OF assms(3,4)] split: option.split)
qed

lemma raft_inv_same:
  assumes "rs_fsm s' = rs_fsm s" "rs_encKey s' = rs_encKey s" "rs_prevEncKey s' = rs_prevEncKey s"
  shows "raft_inv E s' \<longleftrightarrow> raft_inv E s" and "raft_abs E s' = raft_abs E s"
  by (simp_all only: raft_inv_def fun_eq_iff raft_abs_def assms rs_decrypt_keys[OF assms(2,3)] simp_thms)

lemma rs_Put_cases:
  assumes "raft_inv E s" "rs_Put E k v s = (r, s')"
  shows "raft_inv E s' \<and> rs_encKey s' = rs_encKey s \<and> rs_prevEncKey s' = rs_prevEncKey s \<and>
    (raft_abs E s' = (raft_abs E s)(k \<mapsto> v) \<or> (\<exists>e. r = Inl e) \<and> raft_abs E s' = raft_abs E s)"
proof (cases "rs_encrypt E v s")
  case (Pair rc s1)
  note enc = rs_encrypt_frame[OF Pair]
  show ?thesis
  proof (cases rc)
    case (Inl e)
    with assms(2) Pair have "r = Inl e" "s' = s1" by (auto simp: rs_Put_def actions)
    with enc assms(1) raft_inv_same[OF enc] show ?thesis by simp
  next
    case (Inr c)
    with assms(2) Pair
    have ap: "rs_apply E \<lparr>cmd_Op = ''put'', cmd_Key = k, cmd_Value = c\<rparr> s1 = (r, s')"
      by (auto simp: rs_Put_def actions)
    have val: "if rs_encKey s1 = [] then c = v else enc_under E (rs_encKey s1) c v"
      using rs_encrypt_value[OF Pair[unfolded Inr]] enc by simp
    have inv1: "raft_inv E s1" "raft_abs E s1 = raft_abs E s"
      using raft_inv_same[OF enc] assms(1) by simp_all
    from ap show ?thesis
    proof (cases rule: rs_apply_cases)
      case (skip e)
      with raft_inv_same[of s' s1] inv1 enc show ?thesis by simp
    next
      case put
      then have upd: "rs_fsm s' = AList.update k c (rs_fsm s1)" by simp
      from raft_inv_update[OF inv1(1) upd put(3,4) val] inv1(2) put(3,4) enc show ?thesis by simp
    qed auto
  qed
qed

lemma rs_Delete_cases:
  assumes "raft_inv E s" "rs_Delete E k s = (r, s')"
  shows "raft_inv E s' \<and>
    (raft_abs E s' = (raft_abs E s)(k := None) \<or> (\<exists>e. r = Inl e) \<and> raft_abs E s' = raft_abs E s)"
  using assms(2) unfolding rs_Delete_def
proof (cases rule: rs_apply_cases)
  case (skip e)
  with assms(1) raft_inv_same[of s' s] show ?thesis by simp
next
  case del
  then have "rs_fsm s' = AList.delete k (rs_fsm s)" by simp
  from raft_inv_delete[OF assms(1) this del(3,4)] show ?thesis by simp
qed auto

lemma rs_Get_abs:
  assumes "raft_inv E s"
  shows "rs_Get E k s = (case raft_abs E s k of None \<Rightarrow> Inl ErrNotFound | Some p \<Rightarrow> Inr p)"
proof (cases "map_of (rs_fsm s) k")
  case None
  then show ?thesis by (simp add: rs_Get_def fsm_get_def raft_abs_def)
next
  case (Some c)
  with inv_decrypts[OF assms] obtain p where "rs_decrypt E c s = Inr p"
    by (meson map_of_SomeD)
  with Some show ?thesis by (simp add: rs_Get_def fsm_get_def raft_abs_def)
qed

lemma decrypt_all_Inr:
  assumes "\<forall>(k, c) \<in> set m. \<exists>p. rs_decrypt E c s = Inr p"
  shows "\<exists>out. decrypt_all E m s = Inr out \<and> map fst out = map fst m \<and>
    map_of out = (\<lambda>k. case map_of m k of None \<Rightarrow> None
      | Some c \<Rightarrow> (case rs_decrypt E c s of Inl e \<Rightarrow> None | Inr p \<Rightarrow> Some p))"
  using assms by (induction m) (fastforce simp: fun_eq_iff)+

lemma rs_List_abs:
  assumes "raft_inv E s"
  shows "\<exists>m. rs_List E p s = Inr m \<and> distinct (map fst m) \<and>
    map_of m = (\<lambda>k. if HasPrefix k p then raft_abs E s k else None)"
proof -
  have "\<forall>(k, c) \<in> set (fsm_list p (rs_fsm s)). \<exists>q. rs_decrypt E c s = Inr q"
    using inv_decrypts[OF assms] by (auto simp: fsm_list_def)
  from decrypt_all_Inr[OF this] obtain out where
    out: "decrypt_all E (fsm_list p (rs_fsm s)) s = Inr out"
      "map fst out = map fst (fsm_list p (rs_fsm s))"
      "map_of out = (\<lambda>k. case map_of (fsm_list p (rs_fsm s)) k of None \<Rightarrow> None
        | Some c \<Rightarrow> (case rs_decrypt E c s of Inl e \<Rightarrow> None | Inr q \<Rightarrow> Some q))" by blast
  moreover have "distinct (map fst (fsm_list p (rs_fsm s)))"
    using assms distinct_filter_fst by (auto simp: raft_inv_def fsm_list_def)
  ultimately show ?thesis
    by (auto simp: rs_List_def fsm_list_def map_of_filter_key raft_abs_def fun_eq_iff)
qed

lemma raftStore_laws: "store_laws (raftStore E) (raft_inv E) (raft_abs E)"
proof
  fix s k v s' e p
  assume inv: "raft_inv E s"
  note put = rs_Put_cases[OF inv, of k v] and del = rs_Delete_cases[OF inv, of k]
  show "raft_abs E s k = Some v \<Longrightarrow> st_Get (raftStore E) k s = Inr v"
    and "raft_abs E s k = None \<Longrightarrow> st_Get (raftStore E) k s = Inl ErrNotFound"
    using rs_Get_abs[OF inv, of k] by (simp_all add: raftStore_def)
  show "\<exists>m. st_List (raftStore E) p s = Inr m \<and> distinct (map fst m) \<and>
      map_of m = (\<lambda>k. if HasPrefix k p then raft_abs E s k else None)"
    using rs_List_abs[OF inv] by (simp add: raftStore_def)
  show "raft_inv E (snd (st_Put (raftStore E) k v s))"
    using put[OF surjective_pairing] by (simp add: raftStore_def)
  show "st_Put (raftStore E) k v s = (Inr (), s') \<Longrightarrow> raft_abs E s' = (raft_abs E s)(k \<mapsto> v)"
    and "st_Put (raftStore E) k v s = (Inl e, s') \<Longrightarrow>
      raft_abs E s' = raft_abs E s \<or> raft_abs E s' = (raft_abs E s)(k \<mapsto> v)"
    using put[of "Inr ()" s'] put[of "Inl e" s'] by (auto simp: raftStore_def)
  show "raft_inv E (snd (st_Delete (raftStore E) k s))"
    using del[OF surjective_pairing] by (simp add: raftStore_def)
  show "st_Delete (raftStore E) k s = (Inr (), s') \<Longrightarrow> raft_abs E s' = (raft_abs E s)(k := None)"
    and "st_Delete (raftStore E) k s = (Inl e, s') \<Longrightarrow>
      raft_abs E s' = raft_abs E s \<or> raft_abs E s' = (raft_abs E s)(k := None)"
    using del[of "Inr ()" s'] del[of "Inl e" s'] by (auto simp: raftStore_def)
qed

section \<open>Key rotation\<close>

text \<open>The values of the keys in \<open>D\<close> are under the current key.\<close>

definition current_on :: "string set \<Rightarrow> ('r, 'g) RaftStore \<Rightarrow> bool" where
  "current_on D s \<longleftrightarrow> (\<forall>(k, c) \<in> set (rs_fsm s). k \<in> D \<longrightarrow> (\<exists>p. enc_under E (rs_encKey s) c p))"

lemma rotate_ok:
  assumes "settled E s" "RotateEncryptionKey key s = (Inr (), s')"
  shows "raft_inv E s'" and "raft_abs E s' = raft_abs E s" and "rs_encKey s' = key"
    and "length key = EncryptionKeySize"
proof -
  from assms(2) have s': "s' = s\<lparr>rs_prevEncKey := rs_encKey s, rs_encKey := key\<rparr>"
    and len: "length key = EncryptionKeySize"
    by (auto simp: RotateEncryptionKey_def split: if_splits)
  from len show "length key = EncryptionKeySize" .
  from s' show "rs_encKey s' = key" by simp
  show "raft_inv E s'"
    using assms(1) len unfolding settled_def raft_inv_def s' by fastforce
  have "rs_decrypt E c s' = rs_decrypt E c s" if "(k, c) \<in> set (rs_fsm s)" for k c
  proof -
    from assms(1) that obtain p where p: "enc_under E (rs_encKey s) c p"
      unfolding settled_def by blast
    then have "rs_decrypt E c s' = Inr p"
      by (intro rs_decrypt_prev) (simp_all add: s' len)
    with rs_decrypt_cur[OF p] show ?thesis by simp
  qed
  then show "raft_abs E s' = raft_abs E s"
    by (auto simp: fun_eq_iff raft_abs_def s' dest: map_of_SomeD split: option.splits)
qed

lemma rs_Put_current:
  assumes inv: "raft_inv E s" and key: "length (rs_encKey s) = EncryptionKeySize"
    and cur: "current_on D s" and put: "rs_Put E k v s = (Inr (), s')"
  shows "current_on (insert k D) s'"
proof -
  from put obtain c s1 where enc: "rs_encrypt E v s = (Inr c, s1)"
    and ap: "rs_apply E \<lparr>cmd_Op = ''put'', cmd_Key = k, cmd_Value = c\<rparr> s1 = (Inr (), s')"
    unfolding rs_Put_def bindA_Inr by blast
  note fr = rs_encrypt_frame[OF enc]
  have c: "enc_under E (rs_encKey s) c v"
    using rs_encrypt_value[OF enc] key_nonempty[OF key] by simp
  from ap have "rs_fsm s' = AList.update k c (rs_fsm s)" and "rs_encKey s' = rs_encKey s"
    by (cases rule: rs_apply_cases; simp add: fr)+
  moreover have "distinct (map fst (rs_fsm s))" using inv by (simp add: raft_inv_def)
  ultimately show ?thesis using c cur
    by (auto simp: current_on_def mem_update_iff split: if_splits)
qed

text \<open>Writing every value back changes no value, however far the loop gets.\<close>

lemma reencrypt_loop_ok:
  assumes "raft_inv E s" "length (rs_encKey s) = EncryptionKeySize" "current_on D s"
    "\<forall>(k, v) \<in> set all. raft_abs E s k = Some v" "reencrypt_loop E all cnt s = ((cnt', err), s')"
  shows "raft_inv E s' \<and> raft_abs E s' = raft_abs E s \<and> rs_encKey s' = rs_encKey s \<and>
    rs_prevEncKey s' = rs_prevEncKey s \<and>
    (err = None \<longrightarrow> current_on (D \<union> fst ` set all) s' \<and> cnt' = cnt + length all)"
  using assms
proof (induction all arbitrary: s cnt D)
  case Nil
  then show ?case by simp
next
  case (Cons kv all)
  obtain k v where kv: "kv = (k, v)" by fastforce
  obtain r s1 where put: "rs_Put E k v s = (r, s1)" by fastforce
  have same: "(raft_abs E s)(k \<mapsto> v) = raft_abs E s"
    using Cons.prems(4) kv by (auto simp: fun_upd_idem_iff)
  note p = rs_Put_cases[OF Cons.prems(1) put, unfolded same]
  show ?case
  proof (cases r)
    case (Inl e)
    with Cons.prems(5) kv put have "s' = s1" "err \<noteq> None" by auto
    with p show ?thesis by auto
  next
    case (Inr u)
    then have "rs_Put E k v s = (Inr (), s1)" using put by simp
    from rs_Put_current[OF Cons.prems(1-3) this] have cur: "current_on (insert k D) s1" .
    have l: "reencrypt_loop E all (Suc cnt) s1 = ((cnt', err), s')"
      using Cons.prems(5) kv put Inr by simp
    from p have "raft_inv E s1" "length (rs_encKey s1) = EncryptionKeySize"
      "\<forall>(k, v) \<in> set all. raft_abs E s1 k = Some v"
      using Cons.prems(2,4) by auto
    from Cons.IH[OF this(1,2) cur this(3) l] p kv show ?thesis by auto
  qed
qed

lemma dom_raft_abs: "raft_inv E s \<Longrightarrow> dom (raft_abs E s) = fst ` set (rs_fsm s)"
proof -
  assume inv: "raft_inv E s"
  have "k \<in> dom (raft_abs E s) \<longleftrightarrow> k \<in> dom (map_of (rs_fsm s))" for k
  proof (cases "map_of (rs_fsm s) k")
    case None
    then show ?thesis by (simp add: raft_abs_def domIff)
  next
    case (Some c)
    with inv_decrypts[OF inv map_of_SomeD[OF Some]] show ?thesis by (auto simp: raft_abs_def domIff)
  qed
  then show ?thesis by (auto simp: dom_map_of_conv_image_fst)
qed

lemma current_settled:
  assumes "raft_inv E s" "length (rs_encKey s) = EncryptionKeySize" "current_on (dom (raft_abs E s)) s"
  shows "settled E s"
  unfolding settled_def
proof (intro conjI ballI)
  show "distinct (map fst (rs_fsm s))" using assms(1) by (simp add: raft_inv_def)
  show "length (rs_encKey s) = EncryptionKeySize" by fact
  fix x assume x: "x \<in> set (rs_fsm s)"
  then have "fst x \<in> dom (raft_abs E s)" using dom_raft_abs[OF assms(1)] by simp
  with x assms(3) show "case x of (k, c) \<Rightarrow> \<exists>p. enc_under E (rs_encKey s) c p"
    unfolding current_on_def by fastforce
qed

lemma ReencryptAll_ok:
  assumes "raft_inv E s" "length (rs_encKey s) = EncryptionKeySize" "ReencryptAll E s = ((cnt, err), s')"
  shows "raft_inv E s'" and "raft_abs E s' = raft_abs E s" and "rs_encKey s' = rs_encKey s"
    and "err = None \<Longrightarrow> settled E s' \<and> rs_prevEncKey s' = [] \<and> cnt = card (dom (raft_abs E s))"
    and "err \<noteq> None \<Longrightarrow> rs_prevEncKey s' = rs_prevEncKey s"
proof -
  obtain all where all: "rs_List E [] s = Inr all" "distinct (map fst all)" "map_of all = raft_abs E s"
    using rs_List_abs[OF assms(1), of "[]"] by auto
  obtain cnt1 err1 s1 where loop: "reencrypt_loop E all 0 s = ((cnt1, err1), s1)"
    by (metis surj_pair)
  have "current_on {} s" by (simp add: current_on_def)
  moreover have "\<forall>(k, v) \<in> set all. raft_abs E s k = Some v"
    using all(2,3) by (auto simp flip: all(3))
  ultimately have l: "raft_inv E s1" "raft_abs E s1 = raft_abs E s" "rs_encKey s1 = rs_encKey s"
    "rs_prevEncKey s1 = rs_prevEncKey s"
    "err1 = None \<Longrightarrow> current_on (fst ` set all) s1 \<and> cnt1 = length all"
    using reencrypt_loop_ok[OF assms(1,2) _ _ loop, of "{}"] by auto
  have fin: "cnt = cnt1 \<and> err = err1 \<and> s' = (if err1 = None then s1\<lparr>rs_prevEncKey := []\<rparr> else s1)"
    using assms(3) all(1) loop by (auto simp: ReencryptAll_def split: option.splits)
  have settled: "settled E s1" if "err1 = None"
  proof (rule current_settled[OF l(1)])
    have "dom (raft_abs E s1) = fst ` set all"
      using l(2) all(3) dom_map_of_conv_image_fst by metis
    then show "current_on (dom (raft_abs E s1)) s1" using l(5)[OF that] by simp
  qed (simp add: l(3) assms(2))
  have prev: "settled E (s1\<lparr>rs_prevEncKey := []\<rparr>) \<and> raft_abs E (s1\<lparr>rs_prevEncKey := []\<rparr>) = raft_abs E s1"
    if "err1 = None"
  proof
    from settled[OF that] show st: "settled E (s1\<lparr>rs_prevEncKey := []\<rparr>)" by (simp add: settled_def)
    have "rs_decrypt E c (s1\<lparr>rs_prevEncKey := []\<rparr>) = rs_decrypt E c s1" if "(k, c) \<in> set (rs_fsm s1)" for k c
    proof -
      from settled[OF \<open>err1 = None\<close>] that obtain p where "enc_under E (rs_encKey s1) c p"
        unfolding settled_def by blast
      then show ?thesis using rs_decrypt_cur[of s1 c p] rs_decrypt_cur[of "s1\<lparr>rs_prevEncKey := []\<rparr>" c p] by simp
    qed
    then show "raft_abs E (s1\<lparr>rs_prevEncKey := []\<rparr>) = raft_abs E s1"
      by (auto simp: fun_eq_iff raft_abs_def dest: map_of_SomeD split: option.splits)
  qed
  show "raft_inv E s'" "raft_abs E s' = raft_abs E s" "rs_encKey s' = rs_encKey s"
    using fin l prev settled_inv by auto
  show "err \<noteq> None \<Longrightarrow> rs_prevEncKey s' = rs_prevEncKey s"
    using fin l(4) by auto
  show "err = None \<Longrightarrow> settled E s' \<and> rs_prevEncKey s' = [] \<and> cnt = card (dom (raft_abs E s))"
  proof -
    assume "err = None"
    moreover have "card (dom (raft_abs E s)) = length all"
      using all(2,3) by (metis distinct_card dom_map_of_conv_image_fst length_map list.set_map)
    ultimately show ?thesis using fin l(5) prev by simp
  qed
qed

lemma rotate_prev: "RotateEncryptionKey key s = (Inr (), s') \<Longrightarrow> rs_prevEncKey s' = rs_encKey s"
  by (auto simp: RotateEncryptionKey_def split: if_splits)

text \<open>A tick that leaves no previous key behind has re-encrypted everything.\<close>

lemma key_rotate_ok:
  assumes "settled E s"
  shows "raft_inv E (key_rotate E s) \<and> raft_abs E (key_rotate E s) = raft_abs E s \<and>
    (rs_prevEncKey (key_rotate E s) = [] \<longrightarrow> settled E (key_rotate E s))"
proof (cases "re_Rand E EncryptionKeySize (rs_rand s)")
  case (Pair r g)
  have s0: "settled E (s\<lparr>rs_rand := g\<rparr>)" "raft_abs E (s\<lparr>rs_rand := g\<rparr>) = raft_abs E s"
    using assms raft_inv_same(2)[of "s\<lparr>rs_rand := g\<rparr>" s] by (simp_all add: settled_def)
  show ?thesis
  proof (cases r)
    case (Inl e)
    with Pair s0 show ?thesis by (simp add: key_rotate_def settled_inv)
  next
    case (Inr key)
    with Pair rand have "length key = EncryptionKeySize" by blast
    then obtain s1 where rot: "RotateEncryptionKey key (s\<lparr>rs_rand := g\<rparr>) = (Inr (), s1)"
      by (simp add: RotateEncryptionKey_def)
    obtain cnt err s2 where re: "ReencryptAll E s1 = ((cnt, err), s2)" by (metis surj_pair)
    note k = rotate_ok[OF s0(1) rot]
    have len: "length (rs_encKey s1) = EncryptionKeySize" using k(3,4) by simp
    have "rs_prevEncKey s1 \<noteq> []"
      using rotate_prev[OF rot] settled_key[OF assms] by simp
    with ReencryptAll_ok[OF k(1) len re] k(2) s0(2) Pair Inr rot re show ?thesis
      by (cases err) (simp_all add: key_rotate_def)
  qed
qed

lemma key_rotate_n:
  assumes "settled E s" "\<forall>i < n. rs_prevEncKey ((key_rotate E ^^ i) s) = []" "0 < n"
  shows "raft_inv E ((key_rotate E ^^ n) s) \<and> raft_abs E ((key_rotate E ^^ n) s) = raft_abs E s \<and>
    (rs_prevEncKey ((key_rotate E ^^ n) s) = [] \<longrightarrow> settled E ((key_rotate E ^^ n) s))"
  using assms
proof (induction n)
  case (Suc n)
  show ?case
  proof (cases "n = 0")
    case True
    with key_rotate_ok[OF Suc.prems(1)] show ?thesis by simp
  next
    case False
    with Suc have "settled E ((key_rotate E ^^ n) s)" "raft_abs E ((key_rotate E ^^ n) s) = raft_abs E s"
      by simp_all
    with key_rotate_ok[of "(key_rotate E ^^ n) s"] show ?thesis by simp
  qed
qed simp

text \<open>Values under a key the node no longer has.\<close>

lemma lost_key:
  assumes "enc_under E key c p" "length (rs_encKey s) = EncryptionKeySize" "rs_encKey s \<noteq> key"
    "rs_prevEncKey s \<noteq> key" "rs_prevEncKey s = [] \<or> length (rs_prevEncKey s) = EncryptionKeySize"
  shows "\<exists>e. rs_decrypt E c s = Inl e"
proof -
  obtain e where "decryptValue E (rs_encKey s) c = Inl e"
    using decrypt_other[OF assms(1,2,3)] by blast
  moreover have "rs_prevEncKey s = [] \<or> (\<exists>e. decryptValue E (rs_prevEncKey s) c = Inl e)"
    using decrypt_other[OF assms(1), of "rs_prevEncKey s"] assms(4,5) by blast
  ultimately show ?thesis using key_nonempty[OF assms(2)] by (auto simp: rs_decrypt_def)
qed

lemma lost_key_get:
  assumes "settled E s" "map_of (rs_fsm s) k \<noteq> None" "rs_fsm s' = rs_fsm s"
    "length (rs_encKey s') = EncryptionKeySize" "rs_encKey s' \<noteq> rs_encKey s"
    "rs_prevEncKey s' \<noteq> rs_encKey s" "rs_prevEncKey s' = [] \<or> length (rs_prevEncKey s') = EncryptionKeySize"
  shows "\<exists>e. rs_Get E k s' = Inl e"
proof -
  from assms(2) obtain c where c: "map_of (rs_fsm s) k = Some c" by blast
  with assms(1) obtain p where "enc_under E (rs_encKey s) c p"
    unfolding settled_def by (blast dest: map_of_SomeD)
  from lost_key[OF this assms(4-7)] c assms(3) show ?thesis
    by (auto simp: rs_Get_def fsm_get_def)
qed

end

sublocale raft_env_laws \<subseteq> store_laws "raftStore E" "raft_inv E" "raft_abs E"
  by (rule raftStore_laws)

section \<open>A reference environment\<close>

text \<open>
  An environment that satisfies the laws: a leader whose writes are applied at once, a
  cipher that puts the key in front of the plaintext, a counter as the random source.
\<close>

datatype ref_entry = RefCmd command | RefMap "(string, bytes) gomap"

definition ref_env :: "(bool, nat, ref_entry) raft_env" where
  "ref_env = \<lparr>re_IsLeader = (\<lambda>r. r), re_Apply = (\<lambda>b r. ((None, True), r)),
     re_AddVoter = (\<lambda>i a r. (Inr (), r)), re_Start = (\<lambda>cfg. Inr (True, [])),
     re_Marshal = (\<lambda>c. Inr (RefCmd c)),
     re_Unmarshal = (\<lambda>b. case b of RefCmd c \<Rightarrow> Inr c | RefMap m \<Rightarrow> Inl (ErrText ''json'')),
     re_EncodeMap = (\<lambda>m. Inr (RefMap m)),
     re_DecodeMap = (\<lambda>b. case b of RefMap m \<Rightarrow> Inr (AList.clearjunk m) | RefCmd c \<Rightarrow> Inl (ErrText ''json'')),
     re_NonceSize = 12,
     re_Seal = (\<lambda>k n p. k @ p),
     re_Open = (\<lambda>k n c. if take EncryptionKeySize c = k then Inr (drop EncryptionKeySize c)
                        else Inl (ErrText ''cipher: message authentication failed'')),
     re_Rand = (\<lambda>n g. (Inr (replicate n (char_of g)), Suc g))\<rparr>"

interpretation ref: raft_env_laws ref_env
  by unfold_locales (auto simp: ref_env_def map_of_clearjunk)

section \<open>Properties\<close>

text \<open>
  C2: the replicated, encrypted store behaves as a map. From a state in which every value
  decrypts, after any sequence of writes that report no error, \<open>Get\<close> returns what the map
  updated by the same writes holds and \<open>List\<close> succeeds and returns exactly its keys with
  the prefix, each once, decrypted.
\<close>

theorem raft_refines:
  assumes "raft_env_laws E" "raft_inv E s" "run_ops (raftStore E) ops s = (Inr (), s')"
  shows "rs_Get E k s' =
      (case fold spec_step ops (raft_abs E s) k of None \<Rightarrow> Inl ErrNotFound | Some v \<Rightarrow> Inr v) \<and>
    (\<exists>l. rs_List E p s' = Inr l \<and> distinct (map fst l) \<and>
       set l = {(k, v). HasPrefix k p \<and> fold spec_step ops (raft_abs E s) k = Some v})"
proof -
  from assms(1) have contract: "store_laws (raftStore E) (raft_inv E) (raft_abs E)"
    by (rule raft_env_laws.raftStore_laws)
  note st = store_laws.run_ops_ok[OF contract assms(2,3)]
  then have i: "raft_inv E s'" and a: "raft_abs E s' = fold spec_step ops (raft_abs E s)"
    by simp_all
  show ?thesis
    using store_laws.get_cases[OF contract i, of k]
      store_laws.list_Inr[OF contract i, of p] store_laws.list_set[OF contract i, of p] a
    by (auto simp: raftStore_def)
qed

definition ex_cfg :: RaftConfig where
  "ex_cfg = \<lparr>cfg_NodeID = ''a'', cfg_BindAddr = [], cfg_DataDir = [], cfg_Bootstrap = True,
     cfg_EncryptionKey = replicate 32 CHR ''k''\<rparr>"

text \<open>A node with one value written under the configured key.\<close>

definition ex_store :: "(bool, nat) RaftStore" where
  "ex_store = \<lparr>rs_raft = True, rs_rand = 1,
     rs_fsm = [(''/x'', replicate 12 (char_of (0 :: nat)) @ replicate 32 CHR ''k'' @ ''v'')],
     rs_encKey = replicate 32 CHR ''k'', rs_prevEncKey = []\<rparr>"

lemma ex_store_enc: "enc_under ref_env (replicate 32 CHR ''k'')
    (replicate 12 (char_of (0 :: nat)) @ replicate 32 CHR ''k'' @ ''v'') ''v''"
  unfolding enc_under_def EncryptionKeySize_def
  by (auto simp: ref_env_def intro!: exI[of _ "replicate 12 (char_of (0 :: nat))"])

lemma ex_store_settled: "settled ref_env ex_store"
  using ex_store_enc unfolding settled_def ex_store_def EncryptionKeySize_def
  by auto

lemmas ex_raft_defs = ref_env_def ex_store_def ex_cfg_def raftStore_def rs_Put_def rs_Get_def rs_Delete_def
  rs_encrypt_def encryptValue_def newGCM_def rs_apply_def fsm_Apply_def fsm_get_def rs_decrypt_def
  decryptValue_def IsLeader_def EncryptionKeySize_def actions run_ops_def

theorem raft_refines_witness:
  "\<exists>s'. run_ops (raftStore ref_env) [OpPut ''/y'' ''w'', OpDelete ''/x''] ex_store = (Inr (), s') \<and>
     rs_Get ref_env ''/y'' s' = Inr ''w'' \<and> rs_Get ref_env ''/x'' s' = Inl ErrNotFound"
proof -
  have "\<exists>s'. run_ops (raftStore ref_env) [OpPut ''/y'' ''w'', OpDelete ''/x''] ex_store = (Inr (), s')"
    by (simp add: ex_raft_defs)
  then obtain s' where run:
    "run_ops (raftStore ref_env) [OpPut ''/y'' ''w'', OpDelete ''/x''] ex_store = (Inr (), s')"
    by blast
  have "raft_env_laws ref_env" by (rule ref.raft_env_laws_axioms)
  note r = raft_refines[OF this ref.settled_inv[OF ex_store_settled] run]
  from r[of "''/y''"] r[of "''/x''"] run show ?thesis by simp
qed

text \<open>
  C9: key rotation loses nothing as long as every rotation but the last has completed.
  From a state in which every value is under the current key, any number of ticks of the
  rotation controller, each started when the one before has left no previous key
  behind, leaves the result of every \<open>Get\<close> as it was, even if the last tick fails in the
  middle of its re-encryption; and a tick that completes leaves every value under the
  new key.
\<close>

theorem key_rotation_keeps_values:
  assumes "raft_env_laws E" "settled E s" "\<forall>i < n. rs_prevEncKey ((key_rotate E ^^ i) s) = []" "0 < n"
  shows "rs_Get E k ((key_rotate E ^^ n) s) = rs_Get E k s \<and>
    (rs_prevEncKey ((key_rotate E ^^ n) s) = [] \<longrightarrow> settled E ((key_rotate E ^^ n) s))"
proof -
  note r = raft_env_laws.key_rotate_n[OF assms]
  note get = raft_env_laws.rs_Get_abs[OF assms(1)]
  show ?thesis
    using r get[of "(key_rotate E ^^ n) s" k] get[of s k] raft_env_laws.settled_inv[OF assms(1,2)] by simp
qed

theorem key_rotation_keeps_values_witness:
  "rs_Get ref_env ''/x'' ((key_rotate ref_env ^^ 1) ex_store) = Inr ''v''"
proof -
  have "raft_env_laws ref_env" by (rule ref.raft_env_laws_axioms)
  from key_rotation_keeps_values[OF this ex_store_settled, of 1 "''/x''"]
  have "rs_Get ref_env ''/x'' ((key_rotate ref_env ^^ 1) ex_store) = rs_Get ref_env ''/x'' ex_store"
    by (simp add: ex_store_def)
  also have "\<dots> = Inr ''v''" by (simp add: ex_raft_defs)
  finally show ?thesis .
qed

text \<open>
  Two rotations without a completed re-encryption in between lose every value: the key
  the values are under is neither the current nor the previous one any more, and every
  read of an existing key fails.
\<close>

theorem two_rotations_lose:
  assumes "raft_env_laws E" "settled E s" "map_of (rs_fsm s) k \<noteq> None"
    and "RotateEncryptionKey k1 s = (Inr (), s1)" "RotateEncryptionKey k2 s1 = (Inr (), s2)"
    and "k1 \<noteq> rs_encKey s" "k2 \<noteq> rs_encKey s"
  shows "\<exists>e. rs_Get E k s2 = Inl e"
  using raft_env_laws.lost_key_get[OF assms(1-3), of s2] assms(4-7)
  by (auto simp: RotateEncryptionKey_def split: if_splits)

theorem two_rotations_lose_witness:
  "\<exists>e. rs_Get ref_env ''/x'' (snd (RotateEncryptionKey (replicate 32 CHR ''b'')
     (snd (RotateEncryptionKey (replicate 32 CHR ''a'') ex_store)))) = Inl e"
proof -
  have l: "raft_env_laws ref_env" by (rule ref.raft_env_laws_axioms)
  show ?thesis
    by (rule two_rotations_lose[OF l ex_store_settled])
      (auto simp: ex_store_def RotateEncryptionKey_def EncryptionKeySize_def)
qed

text \<open>
  The rotated key lives in memory only. When a node whose values have been moved to a
  rotated key is started again with the key of its configuration (its log and snapshots
  give back the same data), no existing value can be read.
\<close>

theorem restart_after_rotation_loses:
  assumes "raft_env_laws E" "settled E s" "map_of (rs_fsm s) k \<noteq> None"
    and "NewRaftStore E cfg g = Inr s'" "rs_fsm s' = rs_fsm s"
    and "cfg_EncryptionKey cfg \<noteq> []" "cfg_EncryptionKey cfg \<noteq> rs_encKey s"
  shows "\<exists>e. rs_Get E k s' = Inl e"
proof -
  from assms(4,6) have "length (rs_encKey s') = EncryptionKeySize" "rs_prevEncKey s' = []"
    "rs_encKey s' = cfg_EncryptionKey cfg"
    by (auto simp: NewRaftStore_def split: if_splits sum.splits prod.splits)
  moreover have "rs_encKey s \<noteq> []"
    by (rule raft_env_laws.settled_key[OF assms(1,2)])
  ultimately show ?thesis
    using raft_env_laws.lost_key_get[OF assms(1-3,5)] assms(7) by simp
qed

theorem restart_after_rotation_loses_witness:
  "\<exists>e. rs_Get (ref_env\<lparr>re_Start := (\<lambda>cfg. Inr (True, rs_fsm ex_store))\<rparr>) ''/x''
     (projr (NewRaftStore (ref_env\<lparr>re_Start := (\<lambda>cfg. Inr (True, rs_fsm ex_store))\<rparr>)
        (ex_cfg\<lparr>cfg_EncryptionKey := replicate 32 CHR ''o''\<rparr>) 0)) = Inl e"
proof -
  let ?E = "ref_env\<lparr>re_Start := (\<lambda>cfg. Inr (True, rs_fsm ex_store))\<rparr>"
  have l: "raft_env_laws ?E"
    by unfold_locales (auto simp: ref_env_def map_of_clearjunk)
  have st: "settled ?E ex_store"
    using ex_store_settled by (simp add: settled_def enc_under_def)
  show ?thesis
    by (rule restart_after_rotation_loses[OF l st, where cfg = "ex_cfg\<lparr>cfg_EncryptionKey := replicate 32 CHR ''o''\<rparr>"
          and g = 0])
      (auto simp: ex_store_def NewRaftStore_def ex_cfg_def EncryptionKeySize_def)
qed

text \<open>
  A snapshot taken of the state machine, written out and restored on any node, holds
  exactly the data it was taken of.
\<close>

theorem snapshot_roundtrip:
  assumes "raft_env_laws E" "distinct (map fst data)" "fsm_Persist E (fsm_Snapshot data) = Inr b"
  shows "\<exists>data'. fsm_Restore E b old = (Inr (), data') \<and> (\<forall>k. fsm_get k data' = fsm_get k data) \<and>
    distinct (map fst data')"
proof -
  have "map_of (fsm_Snapshot data) = map_of data"
    using assms(2) by (simp add: fsm_Snapshot_def map_of_maps_Copy map_of_rev_distinct)
  with raft_env_laws.json_map[OF assms(1) assms(3)[unfolded fsm_Persist_def]] show ?thesis
    by (auto simp: fsm_Restore_def fsm_get_def)
qed

theorem snapshot_roundtrip_witness:
  "\<exists>data'. fsm_Restore ref_env (RefMap (fsm_Snapshot [(''a'', ''1'')])) [(''old'', ''2'')] = (Inr (), data') \<and>
     fsm_get ''a'' data' = Inr ''1''"
proof -
  have l: "raft_env_laws ref_env" by (rule ref.raft_env_laws_axioms)
  have p: "fsm_Persist ref_env (fsm_Snapshot [(''a'', ''1'')]) = Inr (RefMap (fsm_Snapshot [(''a'', ''1'')]))"
    by (simp add: fsm_Persist_def ref_env_def)
  from snapshot_roundtrip[OF l _ p, of "[(''old'', ''2'')]"] show ?thesis by (auto simp: fsm_get_def)
qed

end
