(* ===== verification/Registry.thy ===== *)
theory Registry
  imports Store
begin

text \<open>
  The typed registry of \<^verbatim>\<open>internal/registry/registry.go\<close>: objects of one kind kept in the
  key-value store under \<open>/registry/<kind>/[<namespace>/]<name>\<close>, encoded by the protobuf
  library. The library is a parameter (\<open>codec\<close>); what is relied on is that decoding
  inverts encoding (\<open>codec_laws\<close>). The locale \<open>registry_laws\<close> lifts the store contract to
  objects.
\<close>

section \<open>Definitions\<close>

text \<open>\<open>proto.Marshal\<close> and \<open>proto.Unmarshal\<close> into a fresh \<open>newFn()\<close> value.\<close>

record ('t, 'b) codec =
  proto_Marshal :: "'t \<Rightarrow> 'b res"
  proto_Unmarshal :: "'b \<Rightarrow> 't res"

record ('s, 'b, 't) Registry =
  reg_store :: "('s, 'b) Store"
  reg_kind :: string
  reg_codec :: "('t, 'b) codec"

definition reg_New :: "('s, 'b) Store \<Rightarrow> string \<Rightarrow> ('t, 'b) codec \<Rightarrow> ('s, 'b, 't) Registry" where
  "reg_New s kind newFn = \<lparr>reg_store = s, reg_kind = kind, reg_codec = newFn\<rparr>"

definition reg_prefix :: "string \<Rightarrow> string \<Rightarrow> string" where
  "reg_prefix kind ns =
     (if ns = [] then ''/registry/'' @ kind @ ''/''
      else ''/registry/'' @ kind @ ''/'' @ ns @ ''/'')"

definition key_of :: "string \<Rightarrow> string \<Rightarrow> string \<Rightarrow> string" where
  "key_of kind ns name =
     (if ns = [] then ''/registry/'' @ kind @ ''/'' @ name
      else ''/registry/'' @ kind @ ''/'' @ ns @ ''/'' @ name)"

definition reg_key :: "('s, 'b, 't) Registry \<Rightarrow> string \<Rightarrow> string \<Rightarrow> string" where
  "reg_key r ns name = key_of (reg_kind r) ns name"

definition reg_Put :: "('s, 'b, 't) Registry \<Rightarrow> string \<Rightarrow> string \<Rightarrow> 't \<Rightarrow> ('s, unit) action" where
  "reg_Put r ns name obj =
     bindA (wrapA ''registry: marshal'' (readA (\<lambda>_. proto_Marshal (reg_codec r) obj)))
       (\<lambda>b. st_Put (reg_store r) (reg_key r ns name) b)"

definition reg_Get :: "('s, 'b, 't) Registry \<Rightarrow> string \<Rightarrow> string \<Rightarrow> 's \<Rightarrow> 't res" where
  "reg_Get r ns name s =
     (case st_Get (reg_store r) (reg_key r ns name) s of
        Inl e \<Rightarrow> Inl e
      | Inr b \<Rightarrow> (case proto_Unmarshal (reg_codec r) b of
                   Inl e \<Rightarrow> Inl (ErrWrap ''registry: unmarshal'' e) | Inr obj \<Rightarrow> Inr obj))"

definition reg_Delete :: "('s, 'b, 't) Registry \<Rightarrow> string \<Rightarrow> string \<Rightarrow> ('s, unit) action" where
  "reg_Delete r ns name = st_Delete (reg_store r) (reg_key r ns name)"

text \<open>The loop of \<open>List\<close>: the first value that does not decode ends it.\<close>

fun unmarshal_all :: "('t, 'b) codec \<Rightarrow> (string, 'b) gomap \<Rightarrow> 't list res" where
  "unmarshal_all c [] = Inr []"
| "unmarshal_all c ((k, b) # raw) =
     (case proto_Unmarshal c b of
        Inl e \<Rightarrow> Inl (ErrWrap ''registry: unmarshal'' e)
      | Inr obj \<Rightarrow> (case unmarshal_all c raw of Inl e \<Rightarrow> Inl e | Inr out \<Rightarrow> Inr (obj # out)))"

definition reg_List :: "('s, 'b, 't) Registry \<Rightarrow> string \<Rightarrow> 's \<Rightarrow> 't list res" where
  "reg_List r ns s =
     (case st_List (reg_store r) (reg_prefix (reg_kind r) ns) s of
        Inl e \<Rightarrow> Inl (ErrWrap ''registry: list'' e)
      | Inr raw \<Rightarrow> unmarshal_all (reg_codec r) raw)"

lemmas registry_defs = reg_New_def reg_key_def reg_Put_def reg_Get_def reg_Delete_def reg_List_def

section \<open>Keys\<close>

text \<open>
  A name or namespace without a slash. Only \<open>volumeService.DeleteVolume\<close>, the CSI driver
  and the session layer look at the form of names, so a slash can reach a key.
\<close>

definition no_slash :: "string \<Rightarrow> bool" where
  "no_slash s \<longleftrightarrow> CHR ''/'' \<notin> set s"

lemma no_slash_Itoa [simp]: "no_slash (Itoa n)"
  by (simp add: no_slash_def Itoa_no_slash)

lemma no_slash_append [simp]: "no_slash (a @ b) \<longleftrightarrow> no_slash a \<and> no_slash b"
  by (simp add: no_slash_def)

lemma split_at_slash:
  "no_slash a \<Longrightarrow> no_slash c \<Longrightarrow> a @ CHR ''/'' # b = c @ CHR ''/'' # d \<longleftrightarrow> a = c \<and> b = d"
proof (induction a arbitrary: c)
  case Nil
  then show ?case by (cases c) (auto simp: no_slash_def)
next
  case (Cons x a)
  then show ?case by (cases c) (auto simp: no_slash_def)
qed

lemma key_of_prefix [simp, go_strings]: "HasPrefix (key_of kind ns name) (reg_prefix kind [])"
  by (simp add: HasPrefix_iff key_of_def reg_prefix_def)

lemma key_of_prefix_ns [simp, go_strings]: "HasPrefix (key_of kind ns name) (reg_prefix kind ns)"
  by (simp add: HasPrefix_iff key_of_def reg_prefix_def)

lemma reg_prefix_ns_kind: "HasPrefix k (reg_prefix kind ns) \<Longrightarrow> HasPrefix k (reg_prefix kind [])"
  by (auto simp: HasPrefix_iff reg_prefix_def)

text \<open>Two kinds (without slashes) never share a key, whatever the names.\<close>

lemma reg_prefix_kinds:
  assumes "no_slash k1" "no_slash k2" "HasPrefix s (reg_prefix k1 [])" "HasPrefix s (reg_prefix k2 [])"
  shows "k1 = k2"
  using assms by (auto simp: HasPrefix_iff reg_prefix_def split_at_slash)

lemma key_of_eq_ns:
  assumes "no_slash ns" "no_slash ns'" "no_slash n" "no_slash n'"
  shows "key_of kind ns n = key_of kind ns' n' \<longleftrightarrow> ns = ns' \<and> n = n'"
  using assms
  by (auto simp: key_of_def split_at_slash) (auto simp: no_slash_def)

lemma key_of_same_ns [simp]: "key_of kind ns n = key_of kind ns n' \<longleftrightarrow> n = n'"
  by (simp add: key_of_def)

lemma key_of_prefix_iff:
  assumes "no_slash ns" "no_slash ns'" "no_slash n" "ns \<noteq> []"
  shows "HasPrefix (key_of kind ns' n) (reg_prefix kind ns) \<longleftrightarrow> ns' = ns"
  using assms
  by (auto simp: key_of_def reg_prefix_def HasPrefix_iff split_at_slash) (auto simp: no_slash_def)

section \<open>The contract on objects\<close>

text \<open>
  The protobuf library: what \<open>Marshal\<close> accepts, \<open>Unmarshal\<close> gives back.
\<close>

locale codec_laws =
  fixes C :: "('t, 'b) codec"
  assumes roundtrip: "proto_Marshal C x = Inr b \<Longrightarrow> proto_Unmarshal C b = Inr x"

text \<open>The objects of a kind, by key; a value that does not decode has no object.\<close>

definition obj_at :: "('s \<Rightarrow> string \<rightharpoonup> 'b) \<Rightarrow> ('t, 'b) codec \<Rightarrow> string \<Rightarrow> 's \<Rightarrow> string \<rightharpoonup> 't" where
  "obj_at repr C kind s k = (if HasPrefix k (reg_prefix kind []) then
     (case repr s k of None \<Rightarrow> None
      | Some b \<Rightarrow> (case proto_Unmarshal C b of Inl e \<Rightarrow> None | Inr x \<Rightarrow> Some x))
     else None)"

text \<open>Every value stored under the kind decodes.\<close>

definition decodes :: "('s \<Rightarrow> string \<rightharpoonup> 'b) \<Rightarrow> ('t, 'b) codec \<Rightarrow> string \<Rightarrow> 's \<Rightarrow> bool" where
  "decodes repr C kind s \<longleftrightarrow> (\<forall>k b. HasPrefix k (reg_prefix kind []) \<longrightarrow> repr s k = Some b \<longrightarrow>
     (\<exists>x. proto_Unmarshal C b = Inr x))"

locale registry_laws = store_laws S inv abs + codec_laws C
  for S :: "('s, 'b) Store" and inv :: "'s \<Rightarrow> bool" and abs :: "'s \<Rightarrow> (string \<rightharpoonup> 'b)"
    and C :: "('t, 'b) codec" +
  fixes kind :: string
begin

abbreviation R :: "('s, 'b, 't) Registry" where
  "R \<equiv> reg_New S kind C"

abbreviation objs :: "'s \<Rightarrow> string \<rightharpoonup> 't" where
  "objs \<equiv> obj_at abs C kind"

abbreviation readable :: "'s \<Rightarrow> bool" where
  "readable \<equiv> decodes abs C kind"

lemma dom_obj_at:
  assumes "readable s"
  shows "dom (objs s) = {k. HasPrefix k (reg_prefix kind []) \<and> k \<in> dom (abs s)}"
proof -
  have "objs s k \<noteq> None \<longleftrightarrow> HasPrefix k (reg_prefix kind []) \<and> abs s k \<noteq> None" for k
    using assms unfolding decodes_def obj_at_def by (cases "abs s k") force+
  then show ?thesis by (auto simp: dom_def)
qed

lemma reg_Get_obj_at:
  assumes "inv s" "readable s"
  shows "reg_Get R ns n s =
    (case objs s (key_of kind ns n) of None \<Rightarrow> Inl ErrNotFound | Some x \<Rightarrow> Inr x)"
proof (cases "abs s (key_of kind ns n)")
  case None
  then show ?thesis using assms by (simp add: registry_defs obj_at_def get_None)
next
  case (Some b)
  with assms(2) obtain x where "proto_Unmarshal C b = Inr x"
    unfolding decodes_def using key_of_prefix by blast
  with Some assms(1) show ?thesis by (simp add: registry_defs obj_at_def get_Some)
qed

lemma reg_Put_ok:
  assumes "inv s" "reg_Put R ns n x s = (Inr (), s')"
  shows "inv s'" and "objs s' = (objs s)(key_of kind ns n \<mapsto> x)"
    and "readable s \<Longrightarrow> readable s'"
proof -
  from assms(2) obtain b where b: "proto_Marshal C x = Inr b"
    and put: "st_Put S (key_of kind ns n) b s = (Inr (), s')"
    by (auto simp: registry_defs actions split: sum.splits)
  with put_inv[OF assms(1)] show "inv s'" by (metis snd_conv)
  from put_ok[OF assms(1) put] have a: "abs s' = (abs s)(key_of kind ns n \<mapsto> b)" .
  then show "objs s' = (objs s)(key_of kind ns n \<mapsto> x)"
    by (simp add: fun_eq_iff obj_at_def roundtrip[OF b])
  from a show "readable s \<Longrightarrow> readable s'"
    by (auto simp: decodes_def roundtrip[OF b] split: if_splits)
qed

text \<open>A write that reports an error left the registry as it was, or wrote the object.\<close>

lemma reg_Put_any:
  assumes "inv s"
  shows "inv (snd (reg_Put R ns n x s))"
    and "objs (snd (reg_Put R ns n x s)) \<in> {objs s, (objs s)(key_of kind ns n \<mapsto> x)}"
    and "readable s \<Longrightarrow> readable (snd (reg_Put R ns n x s))"
proof -
  let ?Q = "\<lambda>s'. inv s' \<and> objs s' \<in> {objs s, (objs s)(key_of kind ns n \<mapsto> x)} \<and>
    (readable s \<longrightarrow> readable s')"
  have "?Q (snd (reg_Put R ns n x s))"
  proof (cases "proto_Marshal C x")
    case (Inl e)
    with assms show ?thesis by (simp add: registry_defs actions)
  next
    case (Inr b)
    obtain r s' where put: "st_Put S (key_of kind ns n) b s = (r, s')" by fastforce
    with put_inv[OF assms] have i: "inv s'" by (metis snd_conv)
    from put put_ok[OF assms] put_err[OF assms]
    have a: "abs s' = abs s \<or> abs s' = (abs s)(key_of kind ns n \<mapsto> b)"
      by (cases r) auto
    then have "objs s' = objs s \<or> objs s' = (objs s)(key_of kind ns n \<mapsto> x)"
      by (auto simp: fun_eq_iff obj_at_def roundtrip[OF Inr])
    moreover from a have "readable s \<Longrightarrow> readable s'"
      by (auto simp: decodes_def roundtrip[OF Inr] split: if_splits)
    moreover from Inr put have "snd (reg_Put R ns n x s) = s'"
      by (simp add: registry_defs actions)
    ultimately show ?thesis using i by auto
  qed
  then show "inv (snd (reg_Put R ns n x s))"
    "objs (snd (reg_Put R ns n x s)) \<in> {objs s, (objs s)(key_of kind ns n \<mapsto> x)}"
    "readable s \<Longrightarrow> readable (snd (reg_Put R ns n x s))"
    by blast+
qed

lemma reg_Delete_any:
  assumes "inv s"
  shows "inv (snd (reg_Delete R ns n s))"
    and "objs (snd (reg_Delete R ns n s)) \<in> {objs s, (objs s)(key_of kind ns n := None)}"
    and "readable s \<Longrightarrow> readable (snd (reg_Delete R ns n s))"
proof -
  obtain r s' where del: "st_Delete S (key_of kind ns n) s = (r, s')" by fastforce
  from del delete_inv[OF assms] have i: "inv s'" by (metis snd_conv)
  from del delete_ok[OF assms] delete_err[OF assms]
  have a: "abs s' = abs s \<or> abs s' = (abs s)(key_of kind ns n := None)"
    by (cases r) auto
  then have o: "objs s' = objs s \<or> objs s' = (objs s)(key_of kind ns n := None)"
    by (auto simp: fun_eq_iff obj_at_def)
  from a have d: "readable s \<Longrightarrow> readable s'"
    by (auto simp: decodes_def split: if_splits)
  from del i o d show "inv (snd (reg_Delete R ns n s))"
    "objs (snd (reg_Delete R ns n s)) \<in> {objs s, (objs s)(key_of kind ns n := None)}"
    "readable s \<Longrightarrow> readable (snd (reg_Delete R ns n s))"
    by (auto simp: registry_defs)
qed

lemma reg_Delete_ok:
  assumes "inv s" "reg_Delete R ns n s = (Inr (), s')"
  shows "objs s' = (objs s)(key_of kind ns n := None)"
  using assms delete_ok[OF assms(1)]
  by (auto simp: registry_defs fun_eq_iff obj_at_def)

text \<open>
  \<open>List\<close> returns exactly the objects whose key has the prefix, one entry per key, in some
  order.
\<close>

lemma unmarshal_all_map:
  "\<forall>(k, b) \<in> set raw. proto_Unmarshal C b = Inr (f k) \<Longrightarrow>
   unmarshal_all C raw = Inr (map (f \<circ> fst) raw)"
  by (induction raw) auto

lemma reg_List_ok:
  assumes "inv s" "readable s"
  shows "\<exists>ks. reg_List R ns s = Inr (map (the \<circ> objs s) ks) \<and> distinct ks \<and>
    set ks = {k \<in> dom (objs s). HasPrefix k (reg_prefix kind ns)}"
proof -
  obtain m where m: "st_List S (reg_prefix kind ns) s = Inr m"
    using list_Inr[OF assms(1)] by blast
  note ms = list_set[OF assms(1) m]
  have dec: "\<forall>(k, b) \<in> set m. proto_Unmarshal C b = Inr (the (objs s k))"
  proof clarify
    fix k b assume "(k, b) \<in> set m"
    with ms(1) have kb: "HasPrefix k (reg_prefix kind ns)" "abs s k = Some b" by auto
    then have k0: "HasPrefix k (reg_prefix kind [])" by (blast intro: reg_prefix_ns_kind)
    with kb(2) assms(2) obtain x where "proto_Unmarshal C b = Inr x"
      unfolding decodes_def by blast
    with kb(2) k0 show "proto_Unmarshal C b = Inr (the (objs s k))"
      by (simp add: obj_at_def)
  qed
  have "reg_List R ns s = Inr (map (the \<circ> objs s) (map fst m))"
    using m unmarshal_all_map[OF dec] by (simp add: registry_defs comp_def)
  moreover have "set (map fst m) = {k \<in> dom (objs s). HasPrefix k (reg_prefix kind ns)}"
  proof -
    have "k \<in> dom (objs s) \<longleftrightarrow> k \<in> dom (abs s)" if "HasPrefix k (reg_prefix kind ns)" for k
      using dom_obj_at[OF assms(2)] reg_prefix_ns_kind[OF that] by blast
    moreover have "fst ` set m = {k. HasPrefix k (reg_prefix kind ns) \<and> k \<in> dom (abs s)}"
      unfolding ms(1) by (force simp: dom_def)
    ultimately show ?thesis by auto
  qed
  ultimately show ?thesis using ms(2) by blast
qed

text \<open>Operations of another kind do not touch the objects of this one.\<close>

lemma obj_at_cong:
  assumes "\<And>k. HasPrefix k (reg_prefix kind []) \<Longrightarrow> abs s' k = abs s k"
  shows "objs s' = objs s" and "readable s' \<longleftrightarrow> readable s"
  using assms by (auto simp: fun_eq_iff obj_at_def decodes_def)

lemma reg_Put_frame:
  assumes "inv s" "k \<noteq> key_of kind ns n"
  shows "abs (snd (reg_Put R ns n x s)) k = abs s k"
proof (cases "proto_Marshal C x")
  case (Inr b)
  then show ?thesis
    using put_frame[OF assms(1) surjective_pairing assms(2)] by (simp add: registry_defs actions)
qed (simp add: registry_defs actions)

lemma reg_Delete_frame:
  assumes "inv s" "k \<noteq> key_of kind ns n"
  shows "abs (snd (reg_Delete R ns n s)) k = abs s k"
  using delete_frame[OF assms(1) surjective_pairing assms(2)] by (simp add: registry_defs)

text \<open>Writing this kind leaves every other kind as it is.\<close>

lemma other_kind:
  assumes "no_slash kind" "no_slash kind'" "kind' \<noteq> kind"
    and "HasPrefix k (reg_prefix kind' [])"
  shows "k \<noteq> key_of kind ns n"
  using assms reg_prefix_kinds[of kind kind' k] by auto

lemma reg_Put_other:
  assumes "inv s" "no_slash kind" "no_slash kind'" "kind' \<noteq> kind"
  shows "obj_at abs C' kind' (snd (reg_Put R ns n x s)) = obj_at abs C' kind' s"
    and "decodes abs C' kind' (snd (reg_Put R ns n x s)) \<longleftrightarrow> decodes abs C' kind' s"
  using reg_Put_frame[OF assms(1) other_kind[OF assms(2-4)]]
  by (auto simp: fun_eq_iff obj_at_def decodes_def)

lemma reg_Delete_other:
  assumes "inv s" "no_slash kind" "no_slash kind'" "kind' \<noteq> kind"
  shows "obj_at abs C' kind' (snd (reg_Delete R ns n s)) = obj_at abs C' kind' s"
    and "decodes abs C' kind' (snd (reg_Delete R ns n s)) \<longleftrightarrow> decodes abs C' kind' s"
  using reg_Delete_frame[OF assms(1) other_kind[OF assms(2-4)]]
  by (auto simp: fun_eq_iff obj_at_def decodes_def)

end

end
