(* ===== verification/Api.thy ===== *)
theory Api
  imports Prelude
begin

text \<open>
  The API objects: one record per protobuf message of \<^verbatim>\<open>src/api/v1\<close> with the fields of its
  generated Go struct, and its nil-safe getters. A pointer to a message is an \<open>option\<close>
  (\<open>None\<close> is nil), so a chain such as \<open>p.GetSpec().GetNodeName()\<close> is
  \<open>PodSpec_GetNodeName (pod_spec p)\<close> and gives the zero value on nil. Objects that the code
  handles only through non-nil pointers (list elements, decoded values) are plain records.
\<close>

section \<open>Messages of \<^verbatim>\<open>api/v1/common.pb.go\<close>\<close>

record ObjectMeta =
  meta_name :: string
  meta_namespace :: string
  meta_uid :: string
  meta_resource_version :: string
  meta_labels :: "(string, string) gomap"
  meta_created_at_unix :: int64

fun ObjectMeta_GetName :: "ObjectMeta option \<Rightarrow> string" where
  "ObjectMeta_GetName None = []"
| "ObjectMeta_GetName (Some x) = meta_name x"

fun ObjectMeta_GetNamespace :: "ObjectMeta option \<Rightarrow> string" where
  "ObjectMeta_GetNamespace None = []"
| "ObjectMeta_GetNamespace (Some x) = meta_namespace x"

fun ObjectMeta_GetUid :: "ObjectMeta option \<Rightarrow> string" where
  "ObjectMeta_GetUid None = []"
| "ObjectMeta_GetUid (Some x) = meta_uid x"

fun ObjectMeta_GetResourceVersion :: "ObjectMeta option \<Rightarrow> string" where
  "ObjectMeta_GetResourceVersion None = []"
| "ObjectMeta_GetResourceVersion (Some x) = meta_resource_version x"

fun ObjectMeta_GetLabels :: "ObjectMeta option \<Rightarrow> (string, string) gomap" where
  "ObjectMeta_GetLabels None = []"
| "ObjectMeta_GetLabels (Some x) = meta_labels x"

fun ObjectMeta_GetCreatedAtUnix :: "ObjectMeta option \<Rightarrow> int64" where
  "ObjectMeta_GetCreatedAtUnix None = 0"
| "ObjectMeta_GetCreatedAtUnix (Some x) = meta_created_at_unix x"

record ResourceList =
  rl_cpu_millis :: int64
  rl_memory_bytes :: int64
  rl_accelerators :: "(string, int64) gomap"

fun ResourceList_GetCpuMillis :: "ResourceList option \<Rightarrow> int64" where
  "ResourceList_GetCpuMillis None = 0"
| "ResourceList_GetCpuMillis (Some x) = rl_cpu_millis x"

fun ResourceList_GetMemoryBytes :: "ResourceList option \<Rightarrow> int64" where
  "ResourceList_GetMemoryBytes None = 0"
| "ResourceList_GetMemoryBytes (Some x) = rl_memory_bytes x"

fun ResourceList_GetAccelerators :: "ResourceList option \<Rightarrow> (string, int64) gomap" where
  "ResourceList_GetAccelerators None = []"
| "ResourceList_GetAccelerators (Some x) = rl_accelerators x"

record ResourceRequirements =
  rr_requests :: "ResourceList option"
  rr_limits :: "ResourceList option"

fun ResourceRequirements_GetRequests :: "ResourceRequirements option \<Rightarrow> ResourceList option" where
  "ResourceRequirements_GetRequests None = None"
| "ResourceRequirements_GetRequests (Some x) = rr_requests x"

fun ResourceRequirements_GetLimits :: "ResourceRequirements option \<Rightarrow> ResourceList option" where
  "ResourceRequirements_GetLimits None = None"
| "ResourceRequirements_GetLimits (Some x) = rr_limits x"

record Condition =
  cond_type :: string
  cond_status :: string
  cond_reason :: string
  cond_message :: string
  cond_last_transition_unix :: int64

fun Condition_GetType :: "Condition option \<Rightarrow> string" where
  "Condition_GetType None = []"
| "Condition_GetType (Some x) = cond_type x"

fun Condition_GetStatus :: "Condition option \<Rightarrow> string" where
  "Condition_GetStatus None = []"
| "Condition_GetStatus (Some x) = cond_status x"

fun Condition_GetReason :: "Condition option \<Rightarrow> string" where
  "Condition_GetReason None = []"
| "Condition_GetReason (Some x) = cond_reason x"

fun Condition_GetMessage :: "Condition option \<Rightarrow> string" where
  "Condition_GetMessage None = []"
| "Condition_GetMessage (Some x) = cond_message x"

fun Condition_GetLastTransitionUnix :: "Condition option \<Rightarrow> int64" where
  "Condition_GetLastTransitionUnix None = 0"
| "Condition_GetLastTransitionUnix (Some x) = cond_last_transition_unix x"

section \<open>Messages of \<^verbatim>\<open>api/v1/volume.pb.go\<close>\<close>

datatype VolumePhase = VOLUME_PHASE_UNSPECIFIED | VOLUME_PHASE_PENDING | VOLUME_PHASE_BOUND | VOLUME_PHASE_FAILED

record VolumeSpec =
  volspec_requested_bytes :: int64

fun VolumeSpec_GetRequestedBytes :: "VolumeSpec option \<Rightarrow> int64" where
  "VolumeSpec_GetRequestedBytes None = 0"
| "VolumeSpec_GetRequestedBytes (Some x) = volspec_requested_bytes x"

record VolumeStatus =
  volstat_phase :: VolumePhase
  volstat_capacity_bytes :: int64
  volstat_message :: string
  volstat_node_name :: string

fun VolumeStatus_GetPhase :: "VolumeStatus option \<Rightarrow> VolumePhase" where
  "VolumeStatus_GetPhase None = VOLUME_PHASE_UNSPECIFIED"
| "VolumeStatus_GetPhase (Some x) = volstat_phase x"

fun VolumeStatus_GetCapacityBytes :: "VolumeStatus option \<Rightarrow> int64" where
  "VolumeStatus_GetCapacityBytes None = 0"
| "VolumeStatus_GetCapacityBytes (Some x) = volstat_capacity_bytes x"

fun VolumeStatus_GetMessage :: "VolumeStatus option \<Rightarrow> string" where
  "VolumeStatus_GetMessage None = []"
| "VolumeStatus_GetMessage (Some x) = volstat_message x"

fun VolumeStatus_GetNodeName :: "VolumeStatus option \<Rightarrow> string" where
  "VolumeStatus_GetNodeName None = []"
| "VolumeStatus_GetNodeName (Some x) = volstat_node_name x"

record Volume =
  vol_metadata :: "ObjectMeta option"
  vol_spec :: "VolumeSpec option"
  vol_status :: "VolumeStatus option"

fun Volume_GetMetadata :: "Volume option \<Rightarrow> ObjectMeta option" where
  "Volume_GetMetadata None = None"
| "Volume_GetMetadata (Some x) = vol_metadata x"

fun Volume_GetSpec :: "Volume option \<Rightarrow> VolumeSpec option" where
  "Volume_GetSpec None = None"
| "Volume_GetSpec (Some x) = vol_spec x"

fun Volume_GetStatus :: "Volume option \<Rightarrow> VolumeStatus option" where
  "Volume_GetStatus None = None"
| "Volume_GetStatus (Some x) = vol_status x"

record VolumeMount =
  mnt_volume_name :: string
  mnt_mount_path :: string
  mnt_read_only :: bool

fun VolumeMount_GetVolumeName :: "VolumeMount option \<Rightarrow> string" where
  "VolumeMount_GetVolumeName None = []"
| "VolumeMount_GetVolumeName (Some x) = mnt_volume_name x"

fun VolumeMount_GetMountPath :: "VolumeMount option \<Rightarrow> string" where
  "VolumeMount_GetMountPath None = []"
| "VolumeMount_GetMountPath (Some x) = mnt_mount_path x"

fun VolumeMount_GetReadOnly :: "VolumeMount option \<Rightarrow> bool" where
  "VolumeMount_GetReadOnly None = False"
| "VolumeMount_GetReadOnly (Some x) = mnt_read_only x"

section \<open>Messages of \<^verbatim>\<open>api/v1/pod.pb.go\<close>\<close>

datatype RestartPolicy = RESTART_POLICY_UNSPECIFIED | RESTART_POLICY_ALWAYS | RESTART_POLICY_ON_FAILURE | RESTART_POLICY_NEVER

datatype PodPhase = POD_PHASE_UNSPECIFIED | POD_PHASE_PENDING | POD_PHASE_RUNNING | POD_PHASE_SUCCEEDED | POD_PHASE_FAILED | POD_PHASE_UNKNOWN

record SecurityContext =
  sc_seccomp_profile :: string
  sc_add_capabilities :: "string list"
  sc_privileged :: bool
  sc_allow_privilege_escalation :: bool
  sc_run_as_non_root :: bool

fun SecurityContext_GetSeccompProfile :: "SecurityContext option \<Rightarrow> string" where
  "SecurityContext_GetSeccompProfile None = []"
| "SecurityContext_GetSeccompProfile (Some x) = sc_seccomp_profile x"

fun SecurityContext_GetAddCapabilities :: "SecurityContext option \<Rightarrow> string list" where
  "SecurityContext_GetAddCapabilities None = []"
| "SecurityContext_GetAddCapabilities (Some x) = sc_add_capabilities x"

fun SecurityContext_GetPrivileged :: "SecurityContext option \<Rightarrow> bool" where
  "SecurityContext_GetPrivileged None = False"
| "SecurityContext_GetPrivileged (Some x) = sc_privileged x"

fun SecurityContext_GetAllowPrivilegeEscalation :: "SecurityContext option \<Rightarrow> bool" where
  "SecurityContext_GetAllowPrivilegeEscalation None = False"
| "SecurityContext_GetAllowPrivilegeEscalation (Some x) = sc_allow_privilege_escalation x"

fun SecurityContext_GetRunAsNonRoot :: "SecurityContext option \<Rightarrow> bool" where
  "SecurityContext_GetRunAsNonRoot None = False"
| "SecurityContext_GetRunAsNonRoot (Some x) = sc_run_as_non_root x"

record BuildSource =
  bs_repo_url :: string
  bs_branch :: string
  bs_dockerfile_path :: string
  bs_context_path :: string

fun BuildSource_GetRepoUrl :: "BuildSource option \<Rightarrow> string" where
  "BuildSource_GetRepoUrl None = []"
| "BuildSource_GetRepoUrl (Some x) = bs_repo_url x"

fun BuildSource_GetBranch :: "BuildSource option \<Rightarrow> string" where
  "BuildSource_GetBranch None = []"
| "BuildSource_GetBranch (Some x) = bs_branch x"

fun BuildSource_GetDockerfilePath :: "BuildSource option \<Rightarrow> string" where
  "BuildSource_GetDockerfilePath None = []"
| "BuildSource_GetDockerfilePath (Some x) = bs_dockerfile_path x"

fun BuildSource_GetContextPath :: "BuildSource option \<Rightarrow> string" where
  "BuildSource_GetContextPath None = []"
| "BuildSource_GetContextPath (Some x) = bs_context_path x"

record Container =
  ctr_name :: string
  ctr_image :: string
  ctr_resources :: "ResourceRequirements option"
  ctr_security_context :: "SecurityContext option"
  ctr_command :: "string list"
  ctr_wasm_module_path :: string
  ctr_container_ports :: "int32 list"
  ctr_env :: "(string, string) gomap"
  ctr_build_source :: "BuildSource option"

fun Container_GetName :: "Container option \<Rightarrow> string" where
  "Container_GetName None = []"
| "Container_GetName (Some x) = ctr_name x"

fun Container_GetImage :: "Container option \<Rightarrow> string" where
  "Container_GetImage None = []"
| "Container_GetImage (Some x) = ctr_image x"

fun Container_GetResources :: "Container option \<Rightarrow> ResourceRequirements option" where
  "Container_GetResources None = None"
| "Container_GetResources (Some x) = ctr_resources x"

fun Container_GetSecurityContext :: "Container option \<Rightarrow> SecurityContext option" where
  "Container_GetSecurityContext None = None"
| "Container_GetSecurityContext (Some x) = ctr_security_context x"

fun Container_GetCommand :: "Container option \<Rightarrow> string list" where
  "Container_GetCommand None = []"
| "Container_GetCommand (Some x) = ctr_command x"

fun Container_GetWasmModulePath :: "Container option \<Rightarrow> string" where
  "Container_GetWasmModulePath None = []"
| "Container_GetWasmModulePath (Some x) = ctr_wasm_module_path x"

fun Container_GetContainerPorts :: "Container option \<Rightarrow> int32 list" where
  "Container_GetContainerPorts None = []"
| "Container_GetContainerPorts (Some x) = ctr_container_ports x"

fun Container_GetEnv :: "Container option \<Rightarrow> (string, string) gomap" where
  "Container_GetEnv None = []"
| "Container_GetEnv (Some x) = ctr_env x"

fun Container_GetBuildSource :: "Container option \<Rightarrow> BuildSource option" where
  "Container_GetBuildSource None = None"
| "Container_GetBuildSource (Some x) = ctr_build_source x"

record PodSpec =
  ps_containers :: "Container list"
  ps_node_name :: string
  ps_volumes :: "VolumeMount list"
  ps_restart_policy :: RestartPolicy

fun PodSpec_GetContainers :: "PodSpec option \<Rightarrow> Container list" where
  "PodSpec_GetContainers None = []"
| "PodSpec_GetContainers (Some x) = ps_containers x"

fun PodSpec_GetNodeName :: "PodSpec option \<Rightarrow> string" where
  "PodSpec_GetNodeName None = []"
| "PodSpec_GetNodeName (Some x) = ps_node_name x"

fun PodSpec_GetVolumes :: "PodSpec option \<Rightarrow> VolumeMount list" where
  "PodSpec_GetVolumes None = []"
| "PodSpec_GetVolumes (Some x) = ps_volumes x"

fun PodSpec_GetRestartPolicy :: "PodSpec option \<Rightarrow> RestartPolicy" where
  "PodSpec_GetRestartPolicy None = RESTART_POLICY_UNSPECIFIED"
| "PodSpec_GetRestartPolicy (Some x) = ps_restart_policy x"

record PodStatus =
  pst_phase :: PodPhase
  pst_message :: string
  pst_conditions :: "Condition list"
  pst_restart_count :: int32
  pst_memory_usage_bytes :: int64

fun PodStatus_GetPhase :: "PodStatus option \<Rightarrow> PodPhase" where
  "PodStatus_GetPhase None = POD_PHASE_UNSPECIFIED"
| "PodStatus_GetPhase (Some x) = pst_phase x"

fun PodStatus_GetMessage :: "PodStatus option \<Rightarrow> string" where
  "PodStatus_GetMessage None = []"
| "PodStatus_GetMessage (Some x) = pst_message x"

fun PodStatus_GetConditions :: "PodStatus option \<Rightarrow> Condition list" where
  "PodStatus_GetConditions None = []"
| "PodStatus_GetConditions (Some x) = pst_conditions x"

fun PodStatus_GetRestartCount :: "PodStatus option \<Rightarrow> int32" where
  "PodStatus_GetRestartCount None = 0"
| "PodStatus_GetRestartCount (Some x) = pst_restart_count x"

fun PodStatus_GetMemoryUsageBytes :: "PodStatus option \<Rightarrow> int64" where
  "PodStatus_GetMemoryUsageBytes None = 0"
| "PodStatus_GetMemoryUsageBytes (Some x) = pst_memory_usage_bytes x"

record Pod =
  pod_metadata :: "ObjectMeta option"
  pod_spec :: "PodSpec option"
  pod_status :: "PodStatus option"

fun Pod_GetMetadata :: "Pod option \<Rightarrow> ObjectMeta option" where
  "Pod_GetMetadata None = None"
| "Pod_GetMetadata (Some x) = pod_metadata x"

fun Pod_GetSpec :: "Pod option \<Rightarrow> PodSpec option" where
  "Pod_GetSpec None = None"
| "Pod_GetSpec (Some x) = pod_spec x"

fun Pod_GetStatus :: "Pod option \<Rightarrow> PodStatus option" where
  "Pod_GetStatus None = None"
| "Pod_GetStatus (Some x) = pod_status x"

section \<open>Messages of \<^verbatim>\<open>api/v1/node.pb.go\<close>\<close>

record NodeSpec =
  ns_unschedulable :: bool

fun NodeSpec_GetUnschedulable :: "NodeSpec option \<Rightarrow> bool" where
  "NodeSpec_GetUnschedulable None = False"
| "NodeSpec_GetUnschedulable (Some x) = ns_unschedulable x"

record NodeStatus =
  nst_capacity :: "ResourceList option"
  nst_allocatable :: "ResourceList option"
  nst_ready :: bool
  nst_conditions :: "Condition list"
  nst_last_heartbeat_unix :: int64
  nst_internal_ip :: string

fun NodeStatus_GetCapacity :: "NodeStatus option \<Rightarrow> ResourceList option" where
  "NodeStatus_GetCapacity None = None"
| "NodeStatus_GetCapacity (Some x) = nst_capacity x"

fun NodeStatus_GetAllocatable :: "NodeStatus option \<Rightarrow> ResourceList option" where
  "NodeStatus_GetAllocatable None = None"
| "NodeStatus_GetAllocatable (Some x) = nst_allocatable x"

fun NodeStatus_GetReady :: "NodeStatus option \<Rightarrow> bool" where
  "NodeStatus_GetReady None = False"
| "NodeStatus_GetReady (Some x) = nst_ready x"

fun NodeStatus_GetConditions :: "NodeStatus option \<Rightarrow> Condition list" where
  "NodeStatus_GetConditions None = []"
| "NodeStatus_GetConditions (Some x) = nst_conditions x"

fun NodeStatus_GetLastHeartbeatUnix :: "NodeStatus option \<Rightarrow> int64" where
  "NodeStatus_GetLastHeartbeatUnix None = 0"
| "NodeStatus_GetLastHeartbeatUnix (Some x) = nst_last_heartbeat_unix x"

fun NodeStatus_GetInternalIp :: "NodeStatus option \<Rightarrow> string" where
  "NodeStatus_GetInternalIp None = []"
| "NodeStatus_GetInternalIp (Some x) = nst_internal_ip x"

record Node =
  node_metadata :: "ObjectMeta option"
  node_spec :: "NodeSpec option"
  node_status :: "NodeStatus option"

fun Node_GetMetadata :: "Node option \<Rightarrow> ObjectMeta option" where
  "Node_GetMetadata None = None"
| "Node_GetMetadata (Some x) = node_metadata x"

fun Node_GetSpec :: "Node option \<Rightarrow> NodeSpec option" where
  "Node_GetSpec None = None"
| "Node_GetSpec (Some x) = node_spec x"

fun Node_GetStatus :: "Node option \<Rightarrow> NodeStatus option" where
  "Node_GetStatus None = None"
| "Node_GetStatus (Some x) = node_status x"

section \<open>Messages of \<^verbatim>\<open>api/v1/deployment.pb.go\<close>\<close>

record DeploymentSpec =
  ds_replicas :: int32
  ds_selector :: "(string, string) gomap"
  ds_template :: "PodSpec option"
  ds_min_replicas :: int32
  ds_max_replicas :: int32

fun DeploymentSpec_GetReplicas :: "DeploymentSpec option \<Rightarrow> int32" where
  "DeploymentSpec_GetReplicas None = 0"
| "DeploymentSpec_GetReplicas (Some x) = ds_replicas x"

fun DeploymentSpec_GetSelector :: "DeploymentSpec option \<Rightarrow> (string, string) gomap" where
  "DeploymentSpec_GetSelector None = []"
| "DeploymentSpec_GetSelector (Some x) = ds_selector x"

fun DeploymentSpec_GetTemplate :: "DeploymentSpec option \<Rightarrow> PodSpec option" where
  "DeploymentSpec_GetTemplate None = None"
| "DeploymentSpec_GetTemplate (Some x) = ds_template x"

fun DeploymentSpec_GetMinReplicas :: "DeploymentSpec option \<Rightarrow> int32" where
  "DeploymentSpec_GetMinReplicas None = 0"
| "DeploymentSpec_GetMinReplicas (Some x) = ds_min_replicas x"

fun DeploymentSpec_GetMaxReplicas :: "DeploymentSpec option \<Rightarrow> int32" where
  "DeploymentSpec_GetMaxReplicas None = 0"
| "DeploymentSpec_GetMaxReplicas (Some x) = ds_max_replicas x"

record DeploymentStatus =
  dst_replicas :: int32
  dst_ready_replicas :: int32

fun DeploymentStatus_GetReplicas :: "DeploymentStatus option \<Rightarrow> int32" where
  "DeploymentStatus_GetReplicas None = 0"
| "DeploymentStatus_GetReplicas (Some x) = dst_replicas x"

fun DeploymentStatus_GetReadyReplicas :: "DeploymentStatus option \<Rightarrow> int32" where
  "DeploymentStatus_GetReadyReplicas None = 0"
| "DeploymentStatus_GetReadyReplicas (Some x) = dst_ready_replicas x"

record Deployment =
  dep_metadata :: "ObjectMeta option"
  dep_spec :: "DeploymentSpec option"
  dep_status :: "DeploymentStatus option"

fun Deployment_GetMetadata :: "Deployment option \<Rightarrow> ObjectMeta option" where
  "Deployment_GetMetadata None = None"
| "Deployment_GetMetadata (Some x) = dep_metadata x"

fun Deployment_GetSpec :: "Deployment option \<Rightarrow> DeploymentSpec option" where
  "Deployment_GetSpec None = None"
| "Deployment_GetSpec (Some x) = dep_spec x"

fun Deployment_GetStatus :: "Deployment option \<Rightarrow> DeploymentStatus option" where
  "Deployment_GetStatus None = None"
| "Deployment_GetStatus (Some x) = dep_status x"

section \<open>Messages of \<^verbatim>\<open>api/v1/service.pb.go\<close>\<close>

record ServiceSpec =
  ss_selector :: "(string, string) gomap"
  ss_port :: int32
  ss_target_port :: int32
  ss_node_port :: int32

fun ServiceSpec_GetSelector :: "ServiceSpec option \<Rightarrow> (string, string) gomap" where
  "ServiceSpec_GetSelector None = []"
| "ServiceSpec_GetSelector (Some x) = ss_selector x"

fun ServiceSpec_GetPort :: "ServiceSpec option \<Rightarrow> int32" where
  "ServiceSpec_GetPort None = 0"
| "ServiceSpec_GetPort (Some x) = ss_port x"

fun ServiceSpec_GetTargetPort :: "ServiceSpec option \<Rightarrow> int32" where
  "ServiceSpec_GetTargetPort None = 0"
| "ServiceSpec_GetTargetPort (Some x) = ss_target_port x"

fun ServiceSpec_GetNodePort :: "ServiceSpec option \<Rightarrow> int32" where
  "ServiceSpec_GetNodePort None = 0"
| "ServiceSpec_GetNodePort (Some x) = ss_node_port x"

record ServiceEndpoint =
  ep_pod_name :: string
  ep_node_ip :: string
  ep_node_port :: int32

fun ServiceEndpoint_GetPodName :: "ServiceEndpoint option \<Rightarrow> string" where
  "ServiceEndpoint_GetPodName None = []"
| "ServiceEndpoint_GetPodName (Some x) = ep_pod_name x"

fun ServiceEndpoint_GetNodeIp :: "ServiceEndpoint option \<Rightarrow> string" where
  "ServiceEndpoint_GetNodeIp None = []"
| "ServiceEndpoint_GetNodeIp (Some x) = ep_node_ip x"

fun ServiceEndpoint_GetNodePort :: "ServiceEndpoint option \<Rightarrow> int32" where
  "ServiceEndpoint_GetNodePort None = 0"
| "ServiceEndpoint_GetNodePort (Some x) = ep_node_port x"

record ServiceStatus =
  sst_endpoints :: "ServiceEndpoint list"

fun ServiceStatus_GetEndpoints :: "ServiceStatus option \<Rightarrow> ServiceEndpoint list" where
  "ServiceStatus_GetEndpoints None = []"
| "ServiceStatus_GetEndpoints (Some x) = sst_endpoints x"

record Service =
  svc_metadata :: "ObjectMeta option"
  svc_spec :: "ServiceSpec option"
  svc_status :: "ServiceStatus option"

fun Service_GetMetadata :: "Service option \<Rightarrow> ObjectMeta option" where
  "Service_GetMetadata None = None"
| "Service_GetMetadata (Some x) = svc_metadata x"

fun Service_GetSpec :: "Service option \<Rightarrow> ServiceSpec option" where
  "Service_GetSpec None = None"
| "Service_GetSpec (Some x) = svc_spec x"

fun Service_GetStatus :: "Service option \<Rightarrow> ServiceStatus option" where
  "Service_GetStatus None = None"
| "Service_GetStatus (Some x) = svc_status x"

section \<open>Messages of \<^verbatim>\<open>api/v1/networkpolicy.pb.go\<close>\<close>

record NetworkPolicyPort =
  npp_protocol :: string
  npp_port :: int32

fun NetworkPolicyPort_GetProtocol :: "NetworkPolicyPort option \<Rightarrow> string" where
  "NetworkPolicyPort_GetProtocol None = []"
| "NetworkPolicyPort_GetProtocol (Some x) = npp_protocol x"

fun NetworkPolicyPort_GetPort :: "NetworkPolicyPort option \<Rightarrow> int32" where
  "NetworkPolicyPort_GetPort None = 0"
| "NetworkPolicyPort_GetPort (Some x) = npp_port x"

record NetworkPolicyPeer =
  npr_pod_selector :: "(string, string) gomap"

fun NetworkPolicyPeer_GetPodSelector :: "NetworkPolicyPeer option \<Rightarrow> (string, string) gomap" where
  "NetworkPolicyPeer_GetPodSelector None = []"
| "NetworkPolicyPeer_GetPodSelector (Some x) = npr_pod_selector x"

record NetworkPolicyIngressRule =
  npi_from :: "NetworkPolicyPeer list"
  npi_ports :: "NetworkPolicyPort list"

fun NetworkPolicyIngressRule_GetFrom :: "NetworkPolicyIngressRule option \<Rightarrow> NetworkPolicyPeer list" where
  "NetworkPolicyIngressRule_GetFrom None = []"
| "NetworkPolicyIngressRule_GetFrom (Some x) = npi_from x"

fun NetworkPolicyIngressRule_GetPorts :: "NetworkPolicyIngressRule option \<Rightarrow> NetworkPolicyPort list" where
  "NetworkPolicyIngressRule_GetPorts None = []"
| "NetworkPolicyIngressRule_GetPorts (Some x) = npi_ports x"

record NetworkPolicySpec =
  nps_pod_selector :: "(string, string) gomap"
  nps_ingress :: "NetworkPolicyIngressRule list"

fun NetworkPolicySpec_GetPodSelector :: "NetworkPolicySpec option \<Rightarrow> (string, string) gomap" where
  "NetworkPolicySpec_GetPodSelector None = []"
| "NetworkPolicySpec_GetPodSelector (Some x) = nps_pod_selector x"

fun NetworkPolicySpec_GetIngress :: "NetworkPolicySpec option \<Rightarrow> NetworkPolicyIngressRule list" where
  "NetworkPolicySpec_GetIngress None = []"
| "NetworkPolicySpec_GetIngress (Some x) = nps_ingress x"

record NetworkPolicy =
  np_metadata :: "ObjectMeta option"
  np_spec :: "NetworkPolicySpec option"

fun NetworkPolicy_GetMetadata :: "NetworkPolicy option \<Rightarrow> ObjectMeta option" where
  "NetworkPolicy_GetMetadata None = None"
| "NetworkPolicy_GetMetadata (Some x) = np_metadata x"

fun NetworkPolicy_GetSpec :: "NetworkPolicy option \<Rightarrow> NetworkPolicySpec option" where
  "NetworkPolicy_GetSpec None = None"
| "NetworkPolicy_GetSpec (Some x) = np_spec x"

section \<open>Messages of \<^verbatim>\<open>api/v1/namespace.pb.go\<close>\<close>

record Namespace =
  nsp_metadata :: "ObjectMeta option"

fun Namespace_GetMetadata :: "Namespace option \<Rightarrow> ObjectMeta option" where
  "Namespace_GetMetadata None = None"
| "Namespace_GetMetadata (Some x) = nsp_metadata x"

section \<open>Messages of \<^verbatim>\<open>api/v1/policy.pb.go\<close>\<close>

record PolicySpec =
  pols_expression :: string
  pols_message :: string

fun PolicySpec_GetExpression :: "PolicySpec option \<Rightarrow> string" where
  "PolicySpec_GetExpression None = []"
| "PolicySpec_GetExpression (Some x) = pols_expression x"

fun PolicySpec_GetMessage :: "PolicySpec option \<Rightarrow> string" where
  "PolicySpec_GetMessage None = []"
| "PolicySpec_GetMessage (Some x) = pols_message x"

record Policy =
  pol_metadata :: "ObjectMeta option"
  pol_spec :: "PolicySpec option"

fun Policy_GetMetadata :: "Policy option \<Rightarrow> ObjectMeta option" where
  "Policy_GetMetadata None = None"
| "Policy_GetMetadata (Some x) = pol_metadata x"

fun Policy_GetSpec :: "Policy option \<Rightarrow> PolicySpec option" where
  "Policy_GetSpec None = None"
| "Policy_GetSpec (Some x) = pol_spec x"

section \<open>Messages of \<^verbatim>\<open>api/v1/secret.pb.go\<close>\<close>

record Secret =
  sec_metadata :: "ObjectMeta option"
  sec_data :: "(string, bytes) gomap"

fun Secret_GetMetadata :: "Secret option \<Rightarrow> ObjectMeta option" where
  "Secret_GetMetadata None = None"
| "Secret_GetMetadata (Some x) = sec_metadata x"

fun Secret_GetData :: "Secret option \<Rightarrow> (string, bytes) gomap" where
  "Secret_GetData None = []"
| "Secret_GetData (Some x) = sec_data x"

section \<open>Messages of \<^verbatim>\<open>api/v1/imageregistry.pb.go\<close>\<close>

record ImageRecord =
  img_reference :: string
  img_signature :: bytes
  img_pushed_at_unix :: int64

fun ImageRecord_GetReference :: "ImageRecord option \<Rightarrow> string" where
  "ImageRecord_GetReference None = []"
| "ImageRecord_GetReference (Some x) = img_reference x"

fun ImageRecord_GetSignature :: "ImageRecord option \<Rightarrow> bytes" where
  "ImageRecord_GetSignature None = []"
| "ImageRecord_GetSignature (Some x) = img_signature x"

fun ImageRecord_GetPushedAtUnix :: "ImageRecord option \<Rightarrow> int64" where
  "ImageRecord_GetPushedAtUnix None = 0"
| "ImageRecord_GetPushedAtUnix (Some x) = img_pushed_at_unix x"

section \<open>Shorthands\<close>

text \<open>The getter chains the components use most.\<close>

abbreviation pod_name :: "Pod \<Rightarrow> string" where
  "pod_name p \<equiv> ObjectMeta_GetName (pod_metadata p)"
abbreviation pod_namespace :: "Pod \<Rightarrow> string" where
  "pod_namespace p \<equiv> ObjectMeta_GetNamespace (pod_metadata p)"
abbreviation pod_labels :: "Pod \<Rightarrow> (string, string) gomap" where
  "pod_labels p \<equiv> ObjectMeta_GetLabels (pod_metadata p)"
abbreviation pod_node :: "Pod \<Rightarrow> string" where
  "pod_node p \<equiv> PodSpec_GetNodeName (pod_spec p)"
abbreviation pod_phase :: "Pod \<Rightarrow> PodPhase" where
  "pod_phase p \<equiv> PodStatus_GetPhase (pod_status p)"
abbreviation pod_containers :: "Pod \<Rightarrow> Container list" where
  "pod_containers p \<equiv> PodSpec_GetContainers (pod_spec p)"
abbreviation ctr_requests :: "Container \<Rightarrow> ResourceList option" where
  "ctr_requests c \<equiv> ResourceRequirements_GetRequests (ctr_resources c)"
abbreviation node_name :: "Node \<Rightarrow> string" where
  "node_name n \<equiv> ObjectMeta_GetName (node_metadata n)"
abbreviation node_ready :: "Node \<Rightarrow> bool" where
  "node_ready n \<equiv> NodeStatus_GetReady (node_status n)"
abbreviation dep_name :: "Deployment \<Rightarrow> string" where
  "dep_name d \<equiv> ObjectMeta_GetName (dep_metadata d)"
abbreviation dep_namespace :: "Deployment \<Rightarrow> string" where
  "dep_namespace d \<equiv> ObjectMeta_GetNamespace (dep_metadata d)"
abbreviation dep_template :: "Deployment \<Rightarrow> PodSpec option" where
  "dep_template d \<equiv> DeploymentSpec_GetTemplate (dep_spec d)"
abbreviation dep_mounts :: "Deployment \<Rightarrow> VolumeMount list" where
  "dep_mounts d \<equiv> PodSpec_GetVolumes (dep_template d)"
abbreviation dep_replicas :: "Deployment \<Rightarrow> int32" where
  "dep_replicas d \<equiv> DeploymentSpec_GetReplicas (dep_spec d)"

text \<open>The zero value of the messages that the code allocates with \<open>&v1.T{}\<close>.\<close>

definition zero_ObjectMeta :: ObjectMeta where
  "zero_ObjectMeta = \<lparr>meta_name = [], meta_namespace = [], meta_uid = [],
     meta_resource_version = [], meta_labels = [], meta_created_at_unix = 0\<rparr>"
definition zero_PodSpec :: PodSpec where
  "zero_PodSpec = \<lparr>ps_containers = [], ps_node_name = [], ps_volumes = [],
     ps_restart_policy = RESTART_POLICY_UNSPECIFIED\<rparr>"
definition zero_PodStatus :: PodStatus where
  "zero_PodStatus = \<lparr>pst_phase = POD_PHASE_UNSPECIFIED, pst_message = [], pst_conditions = [],
     pst_restart_count = 0, pst_memory_usage_bytes = 0\<rparr>"
definition zero_NodeStatus :: NodeStatus where
  "zero_NodeStatus = \<lparr>nst_capacity = None, nst_allocatable = None, nst_ready = False,
     nst_conditions = [], nst_last_heartbeat_unix = 0, nst_internal_ip = []\<rparr>"
definition zero_VolumeStatus :: VolumeStatus where
  "zero_VolumeStatus = \<lparr>volstat_phase = VOLUME_PHASE_UNSPECIFIED, volstat_capacity_bytes = 0,
     volstat_message = [], volstat_node_name = []\<rparr>"
definition zero_ServiceSpec :: ServiceSpec where
  "zero_ServiceSpec = \<lparr>ss_selector = [], ss_port = 0, ss_target_port = 0, ss_node_port = 0\<rparr>"
definition zero_SecurityContext :: SecurityContext where
  "zero_SecurityContext = \<lparr>sc_seccomp_profile = [], sc_add_capabilities = [], sc_privileged = False,
     sc_allow_privilege_escalation = False, sc_run_as_non_root = False\<rparr>"

lemmas zero_messages = zero_ObjectMeta_def zero_PodSpec_def zero_PodStatus_def zero_NodeStatus_def
  zero_VolumeStatus_def zero_ServiceSpec_def zero_SecurityContext_def

end
