(* ===== verification/Cluster.thy ===== *)
theory Cluster
  imports Registry Api
begin

text \<open>
  The registries the controllers and services share: pods, nodes, deployments and volumes
  in one store, as \<^verbatim>\<open>cmd/nimbus-apiserver/main.go\<close> creates them. The locale \<open>cluster\<close> puts
  the contracts of the four registries side by side; \<open>cluster_ok\<close> is the invariant the
  controllers start from and keep: every value decodes and every object is stored under
  the key of its own metadata. The in-memory store with a tagged encoding of the messages
  is an instance.
\<close>

section \<open>Objects under their own keys\<close>

definition own_keys :: "('s \<Rightarrow> string \<rightharpoonup> 'b) \<Rightarrow> ('t, 'b) codec \<Rightarrow> string \<Rightarrow> ('t \<Rightarrow> string) \<Rightarrow> ('t \<Rightarrow> string) \<Rightarrow> 's \<Rightarrow> bool" where
  "own_keys repr C kind nsf namef s \<longleftrightarrow>
     (\<forall>k x. obj_at repr C kind s k = Some x \<longrightarrow> k = key_of kind (nsf x) (namef x))"

abbreviation "kPods \<equiv> ''pods''"
abbreviation "kNodes \<equiv> ''nodes''"
abbreviation "kDeployments \<equiv> ''deployments''"
abbreviation "kVolumes \<equiv> ''volumes''"

lemma kinds_no_slash [simp]: "no_slash kPods" "no_slash kNodes" "no_slash kDeployments" "no_slash kVolumes"
  by (simp_all add: no_slash_def)

definition cluster_ok :: "('s \<Rightarrow> bool) \<Rightarrow> ('s \<Rightarrow> string \<rightharpoonup> 'b) \<Rightarrow> (Pod, 'b) codec \<Rightarrow> (Node, 'b) codec \<Rightarrow>
    (Deployment, 'b) codec \<Rightarrow> (Volume, 'b) codec \<Rightarrow> 's \<Rightarrow> bool" where
  "cluster_ok good repr CP CN CD CV s \<longleftrightarrow> good s \<and>
     decodes repr CP kPods s \<and> decodes repr CN kNodes s \<and>
     decodes repr CD kDeployments s \<and> decodes repr CV kVolumes s \<and>
     own_keys repr CP kPods pod_namespace pod_name s \<and>
     own_keys repr CN kNodes (\<lambda>n. []) node_name s \<and>
     own_keys repr CD kDeployments dep_namespace dep_name s"

section \<open>The contract of the four registries\<close>

locale cluster =
  pods: registry_laws S inv abs CP kPods + nodes: registry_laws S inv abs CN kNodes +
  deps: registry_laws S inv abs CD kDeployments + vols: registry_laws S inv abs CV kVolumes
  for S :: "('s, 'b) Store" and inv :: "'s \<Rightarrow> bool" and abs :: "'s \<Rightarrow> (string \<rightharpoonup> 'b)"
    and CP :: "(Pod, 'b) codec" and CN :: "(Node, 'b) codec"
    and CD :: "(Deployment, 'b) codec" and CV :: "(Volume, 'b) codec"
begin

abbreviation ok :: "'s \<Rightarrow> bool" where
  "ok \<equiv> cluster_ok inv abs CP CN CD CV"

lemmas other_kinds =
  pods.reg_Put_other pods.reg_Delete_other nodes.reg_Put_other deps.reg_Put_other vols.reg_Put_other

lemma okD:
  assumes "ok s"
  shows "inv s" "pods.readable s" "nodes.readable s" "deps.readable s" "vols.readable s"
    "pods.objs s k = Some p \<Longrightarrow> k = key_of kPods (pod_namespace p) (pod_name p)"
    "nodes.objs s k = Some n \<Longrightarrow> k = key_of kNodes [] (node_name n)"
    "deps.objs s k = Some d \<Longrightarrow> k = key_of kDeployments (dep_namespace d) (dep_name d)"
  using assms unfolding cluster_ok_def own_keys_def by blast+

text \<open>Writes of one kind: the invariant, the kind itself, and the three others.\<close>

lemma put_pod:
  assumes "ok s" "ns = pod_namespace p" "n = pod_name p"
  shows "ok (snd (reg_Put pods.R ns n p s))"
    and "nodes.objs (snd (reg_Put pods.R ns n p s)) = nodes.objs s"
    and "deps.objs (snd (reg_Put pods.R ns n p s)) = deps.objs s"
    and "vols.objs (snd (reg_Put pods.R ns n p s)) = vols.objs s"
    and "pods.objs (snd (reg_Put pods.R ns n p s)) \<in> {pods.objs s, (pods.objs s)(key_of kPods ns n \<mapsto> p)}"
    and "reg_Put pods.R ns n p s = (Inr (), s') \<Longrightarrow> pods.objs s' = (pods.objs s)(key_of kPods ns n \<mapsto> p)"
proof -
  note i = okD(1)[OF assms(1)]
  note o = other_kinds(1,2)[OF i]
  note a = pods.reg_Put_any[OF i, of ns n p]
  show "nodes.objs (snd (reg_Put pods.R ns n p s)) = nodes.objs s"
    "deps.objs (snd (reg_Put pods.R ns n p s)) = deps.objs s"
    "vols.objs (snd (reg_Put pods.R ns n p s)) = vols.objs s" by (rule o(1); simp)+
  show "pods.objs (snd (reg_Put pods.R ns n p s)) \<in> {pods.objs s, (pods.objs s)(key_of kPods ns n \<mapsto> p)}"
    by (rule a(2))
  show "reg_Put pods.R ns n p s = (Inr (), s') \<Longrightarrow> pods.objs s' = (pods.objs s)(key_of kPods ns n \<mapsto> p)"
    by (rule pods.reg_Put_ok(2)[OF i])
  from assms a show "ok (snd (reg_Put pods.R ns n p s))"
    unfolding cluster_ok_def own_keys_def by (auto simp: o split: if_splits)
qed

lemma delete_pod:
  assumes "ok s"
  shows "ok (snd (reg_Delete pods.R ns n s))"
    and "nodes.objs (snd (reg_Delete pods.R ns n s)) = nodes.objs s"
    and "deps.objs (snd (reg_Delete pods.R ns n s)) = deps.objs s"
    and "vols.objs (snd (reg_Delete pods.R ns n s)) = vols.objs s"
    and "reg_Delete pods.R ns n s = (Inr (), s') \<Longrightarrow> pods.objs s' = (pods.objs s)(key_of kPods ns n := None)"
proof -
  note i = okD(1)[OF assms(1)]
  note o = other_kinds(3,4)[OF i]
  note a = pods.reg_Delete_any[OF i, of ns n]
  show "nodes.objs (snd (reg_Delete pods.R ns n s)) = nodes.objs s"
    "deps.objs (snd (reg_Delete pods.R ns n s)) = deps.objs s"
    "vols.objs (snd (reg_Delete pods.R ns n s)) = vols.objs s" by (rule o(1); simp)+
  show "reg_Delete pods.R ns n s = (Inr (), s') \<Longrightarrow> pods.objs s' = (pods.objs s)(key_of kPods ns n := None)"
    by (rule pods.reg_Delete_ok[OF i])
  from assms a show "ok (snd (reg_Delete pods.R ns n s))"
    unfolding cluster_ok_def own_keys_def by (auto simp: o split: if_splits)
qed

lemma put_node:
  assumes "ok s" "n = node_name x"
  shows "ok (snd (reg_Put nodes.R [] n x s))"
    and "pods.objs (snd (reg_Put nodes.R [] n x s)) = pods.objs s"
    and "nodes.objs (snd (reg_Put nodes.R [] n x s)) \<in> {nodes.objs s, (nodes.objs s)(key_of kNodes [] n \<mapsto> x)}"
    and "reg_Put nodes.R [] n x s = (Inr (), s') \<Longrightarrow> nodes.objs s' = (nodes.objs s)(key_of kNodes [] n \<mapsto> x)"
proof -
  note i = okD(1)[OF assms(1)]
  note o = other_kinds(5,6)[OF i]
  note a = nodes.reg_Put_any[OF i, of "[]" n x]
  show "pods.objs (snd (reg_Put nodes.R [] n x s)) = pods.objs s" by (rule o(1); simp)
  show "nodes.objs (snd (reg_Put nodes.R [] n x s)) \<in> {nodes.objs s, (nodes.objs s)(key_of kNodes [] n \<mapsto> x)}"
    by (rule a(2))
  show "reg_Put nodes.R [] n x s = (Inr (), s') \<Longrightarrow> nodes.objs s' = (nodes.objs s)(key_of kNodes [] n \<mapsto> x)"
    by (rule nodes.reg_Put_ok(2)[OF i])
  from assms a show "ok (snd (reg_Put nodes.R [] n x s))"
    unfolding cluster_ok_def own_keys_def by (auto simp: o split: if_splits)
qed

lemma put_dep:
  assumes "ok s" "ns = dep_namespace x" "n = dep_name x"
  shows "ok (snd (reg_Put deps.R ns n x s))"
    and "pods.objs (snd (reg_Put deps.R ns n x s)) = pods.objs s"
    and "nodes.objs (snd (reg_Put deps.R ns n x s)) = nodes.objs s"
    and "reg_Put deps.R ns n x s = (Inr (), s') \<Longrightarrow> deps.objs s' = (deps.objs s)(key_of kDeployments ns n \<mapsto> x)"
proof -
  note i = okD(1)[OF assms(1)]
  note o = other_kinds(7,8)[OF i]
  note a = deps.reg_Put_any[OF i, of ns n x]
  show "pods.objs (snd (reg_Put deps.R ns n x s)) = pods.objs s"
    "nodes.objs (snd (reg_Put deps.R ns n x s)) = nodes.objs s" by (rule o(1); simp)+
  show "reg_Put deps.R ns n x s = (Inr (), s') \<Longrightarrow> deps.objs s' = (deps.objs s)(key_of kDeployments ns n \<mapsto> x)"
    by (rule deps.reg_Put_ok(2)[OF i])
  from assms a show "ok (snd (reg_Put deps.R ns n x s))"
    unfolding cluster_ok_def own_keys_def by (auto simp: o split: if_splits)
qed

lemma put_vol:
  assumes "ok s"
  shows "ok (snd (reg_Put vols.R ns n x s))"
    and "pods.objs (snd (reg_Put vols.R ns n x s)) = pods.objs s"
    and "nodes.objs (snd (reg_Put vols.R ns n x s)) = nodes.objs s"
    and "deps.objs (snd (reg_Put vols.R ns n x s)) = deps.objs s"
proof -
  note i = okD(1)[OF assms(1)]
  note o = other_kinds(9,10)[OF i]
  note a = vols.reg_Put_any[OF i, of ns n x]
  show "pods.objs (snd (reg_Put vols.R ns n x s)) = pods.objs s"
    "nodes.objs (snd (reg_Put vols.R ns n x s)) = nodes.objs s"
    "deps.objs (snd (reg_Put vols.R ns n x s)) = deps.objs s" by (rule o(1); simp)+
  from assms a show "ok (snd (reg_Put vols.R ns n x s))"
    unfolding cluster_ok_def own_keys_def by (auto simp: o split: if_splits)
qed

end

section \<open>A tagged encoding over the in-memory store\<close>

datatype wire = WPod Pod | WNode Node | WDeployment Deployment | WVolume Volume | WService Service
  | WSecret Secret | WPolicy Policy | WNetworkPolicy NetworkPolicy | WNamespace Namespace
  | WImage ImageRecord

definition wrong_type :: "'a res" where
  "wrong_type = Inl (ErrText ''proto: cannot parse invalid wire-format data'')"

definition pod_codec :: "(Pod, wire) codec" where
  "pod_codec = \<lparr>proto_Marshal = (\<lambda>x. Inr (WPod x)),
     proto_Unmarshal = (\<lambda>b. case b of WPod x \<Rightarrow> Inr x | _ \<Rightarrow> wrong_type)\<rparr>"

definition node_codec :: "(Node, wire) codec" where
  "node_codec = \<lparr>proto_Marshal = (\<lambda>x. Inr (WNode x)),
     proto_Unmarshal = (\<lambda>b. case b of WNode x \<Rightarrow> Inr x | _ \<Rightarrow> wrong_type)\<rparr>"

definition dep_codec :: "(Deployment, wire) codec" where
  "dep_codec = \<lparr>proto_Marshal = (\<lambda>x. Inr (WDeployment x)),
     proto_Unmarshal = (\<lambda>b. case b of WDeployment x \<Rightarrow> Inr x | _ \<Rightarrow> wrong_type)\<rparr>"

definition vol_codec :: "(Volume, wire) codec" where
  "vol_codec = \<lparr>proto_Marshal = (\<lambda>x. Inr (WVolume x)),
     proto_Unmarshal = (\<lambda>b. case b of WVolume x \<Rightarrow> Inr x | _ \<Rightarrow> wrong_type)\<rparr>"

definition svc_codec :: "(Service, wire) codec" where
  "svc_codec = \<lparr>proto_Marshal = (\<lambda>x. Inr (WService x)),
     proto_Unmarshal = (\<lambda>b. case b of WService x \<Rightarrow> Inr x | _ \<Rightarrow> wrong_type)\<rparr>"

lemmas codec_defs = pod_codec_def node_codec_def dep_codec_def vol_codec_def svc_codec_def

abbreviation mem_ok :: "'b memStore \<Rightarrow> bool" where
  "mem_ok m \<equiv> distinct (map fst m)"

interpretation mem_cluster: cluster memStore mem_ok map_of pod_codec node_codec dep_codec vol_codec
  by unfold_locales (auto simp: codec_defs)

interpretation mem_services: registry_laws memStore mem_ok map_of svc_codec "''services''"
  by unfold_locales (auto simp: codec_defs)

end
