(* ===== verification/Scheduler.thy ===== *)
theory Scheduler
  imports Prelude
begin

text \<open>
  The scheduler of \<^verbatim>\<open>internal/scheduler/scheduler.go\<close>: a pass over the candidate nodes that
  keeps the fitting node with the largest free CPU plus free memory. \<open>int64\<close> arithmetic is
  at its width.
\<close>

section \<open>Definitions\<close>

record NodeCandidate =
  nc_Name :: string
  nc_CPUCapacity :: int64
  nc_MemCapacity :: int64
  nc_CPUUsed :: int64
  nc_MemUsed :: int64
  nc_AcceleratorCapacity :: "(string, int64) gomap"
  nc_AcceleratorUsed :: "(string, int64) gomap"
  nc_UsedPorts :: "(int32, bool) gomap"

record PodRequest =
  pr_Name :: string
  pr_CPURequest :: int64
  pr_MemRequest :: int64
  pr_AcceleratorsRequested :: "(string, int64) gomap"
  pr_ContainerPorts :: "int32 list"

fun acceleratorsFit :: "(string, int64) gomap \<Rightarrow> (string, int64) gomap \<Rightarrow> (string, int64) gomap \<Rightarrow> bool" where
  "acceleratorsFit [] capacity used = True"
| "acceleratorsFit ((name, want) # requested) capacity used =
     (if want \<le> 0 then acceleratorsFit requested capacity used
      else if wrap64 (iget capacity name - iget used name) < want then False
      else acceleratorsFit requested capacity used)"

fun portsFit :: "int32 list \<Rightarrow> (int32, bool) gomap \<Rightarrow> bool" where
  "portsFit [] used = True"
| "portsFit (port # requested) used = (if bget used port then False else portsFit requested used)"

definition freeCPU :: "NodeCandidate \<Rightarrow> int64" where
  "freeCPU n = wrap64 (nc_CPUCapacity n - nc_CPUUsed n)"

definition freeMem :: "NodeCandidate \<Rightarrow> int64" where
  "freeMem n = wrap64 (nc_MemCapacity n - nc_MemUsed n)"

definition score :: "NodeCandidate \<Rightarrow> int64" where
  "score n = wrap64 (freeCPU n + freeMem n)"

text \<open>The three \<open>continue\<close> conditions of the loop body, negated.\<close>

definition fits :: "PodRequest \<Rightarrow> NodeCandidate \<Rightarrow> bool" where
  "fits pod n \<longleftrightarrow>
     \<not> (freeCPU n < pr_CPURequest pod \<or> freeMem n < pr_MemRequest pod) \<and>
     acceleratorsFit (pr_AcceleratorsRequested pod) (nc_AcceleratorCapacity n) (nc_AcceleratorUsed n) \<and>
     portsFit (pr_ContainerPorts pod) (nc_UsedPorts n)"

fun schedule_loop :: "PodRequest \<Rightarrow> NodeCandidate list \<Rightarrow> NodeCandidate option \<Rightarrow> int64 \<Rightarrow> NodeCandidate option" where
  "schedule_loop pod [] best bestScore = best"
| "schedule_loop pod (n # nodes) best bestScore =
     (if \<not> fits pod n then schedule_loop pod nodes best bestScore
      else if score n > bestScore then schedule_loop pod nodes (Some n) (score n)
      else schedule_loop pod nodes best bestScore)"

definition Schedule :: "PodRequest \<Rightarrow> NodeCandidate list \<Rightarrow> string res" where
  "Schedule pod nodes =
     (case schedule_loop pod nodes None (-1) of
        None \<Rightarrow> Inl ErrNoNodeAvailable | Some best \<Rightarrow> Inr (nc_Name best))"

section \<open>What a placement means\<close>

text \<open>
  \<open>room\<close> is the same test over unbounded integers and as a proposition on every resource:
  the specification the loop's checks are measured against.
\<close>

definition room :: "PodRequest \<Rightarrow> NodeCandidate \<Rightarrow> bool" where
  "room pod n \<longleftrightarrow>
     pr_CPURequest pod \<le> nc_CPUCapacity n - nc_CPUUsed n \<and>
     pr_MemRequest pod \<le> nc_MemCapacity n - nc_MemUsed n \<and>
     (\<forall>(a, want) \<in> set (pr_AcceleratorsRequested pod).
        want \<le> 0 \<or> want \<le> iget (nc_AcceleratorCapacity n) a - iget (nc_AcceleratorUsed n) a) \<and>
     (\<forall>p \<in> set (pr_ContainerPorts pod). \<not> bget (nc_UsedPorts n) p)"

text \<open>
  A candidate whose differences stay inside \<open>int64\<close>: what holds of real nodes, whose
  capacities and usages are non-negative.
\<close>

definition sane_node :: "NodeCandidate \<Rightarrow> bool" where
  "sane_node n \<longleftrightarrow> in64 (nc_CPUCapacity n - nc_CPUUsed n) \<and> in64 (nc_MemCapacity n - nc_MemUsed n) \<and>
     in64 (nc_CPUCapacity n - nc_CPUUsed n + (nc_MemCapacity n - nc_MemUsed n)) \<and>
     (\<forall>a. in64 (iget (nc_AcceleratorCapacity n) a - iget (nc_AcceleratorUsed n) a))"

definition exact_score :: "NodeCandidate \<Rightarrow> int" where
  "exact_score n = nc_CPUCapacity n - nc_CPUUsed n + (nc_MemCapacity n - nc_MemUsed n)"

lemma acceleratorsFit_iff:
  "acceleratorsFit requested capacity used \<longleftrightarrow>
     (\<forall>(a, want) \<in> set requested. want \<le> 0 \<or> want \<le> wrap64 (iget capacity a - iget used a))"
  by (induction requested capacity used rule: acceleratorsFit.induct) auto

lemma portsFit_iff: "portsFit ports used \<longleftrightarrow> (\<forall>p \<in> set ports. \<not> bget used p)"
  by (induction ports used rule: portsFit.induct) auto

lemma fits_room: "sane_node n \<Longrightarrow> fits pod n \<longleftrightarrow> room pod n"
  by (auto simp: fits_def room_def sane_node_def freeCPU_def freeMem_def wrap64_id
      acceleratorsFit_iff portsFit_iff not_less)

lemma score_exact: "sane_node n \<Longrightarrow> score n = exact_score n"
  by (simp add: score_def freeCPU_def freeMem_def exact_score_def sane_node_def wrap64_id)

section \<open>The loop\<close>

text \<open>
  The loop returns a fitting node of maximal score among those above the initial bound,
  and the incumbent exactly when there is none.
\<close>

lemma schedule_loop_None:
  "schedule_loop pod nodes best b = best \<or>
   (\<exists>n \<in> set nodes. schedule_loop pod nodes best b = Some n \<and> fits pod n \<and> b < score n)"
  by (induction nodes arbitrary: best b) fastforce+

lemma schedule_loop_keep:
  "(\<forall>n \<in> set nodes. fits pod n \<longrightarrow> score n \<le> b) \<Longrightarrow> schedule_loop pod nodes best b = best"
  by (induction nodes arbitrary: best b) auto

lemma schedule_loop_max:
  assumes "n \<in> set nodes" "fits pod n" "b < score n"
  shows "\<exists>m \<in> set nodes. schedule_loop pod nodes best b = Some m \<and> fits pod m \<and>
    (\<forall>n \<in> set nodes. fits pod n \<longrightarrow> score n \<le> score m)"
  using assms
proof (induction nodes arbitrary: best b n)
  case Nil
  then show ?case by simp
next
  case (Cons a nodes)
  show ?case
  proof (cases "fits pod a \<and> b < score a")
    case True
    show ?thesis
    proof (cases "\<exists>n \<in> set nodes. fits pod n \<and> score a < score n")
      case better: True
      then obtain n' where n': "n' \<in> set nodes" "fits pod n'" "score a < score n'" by blast
      from Cons.IH[OF n', of "Some a"] n' obtain m where m: "m \<in> set nodes" "fits pod m"
        "schedule_loop pod nodes (Some a) (score a) = Some m"
        "\<forall>n \<in> set nodes. fits pod n \<longrightarrow> score n \<le> score m" by blast
      with n' have "score a \<le> score m" by force
      with m True show ?thesis by auto
    next
      case False
      then have "schedule_loop pod nodes (Some a) (score a) = Some a"
        by (auto intro: schedule_loop_keep simp: not_less)
      with True False show ?thesis by (auto simp: not_less)
    qed
  next
    case False
    with Cons.prems have n: "n \<in> set nodes" by auto
    from False have loop: "schedule_loop pod (a # nodes) best b = schedule_loop pod nodes best b"
      by auto
    from Cons.IH[OF n Cons.prems(2,3), of best] obtain m where m: "m \<in> set nodes" "fits pod m"
      "schedule_loop pod nodes best b = Some m"
      "\<forall>n \<in> set nodes. fits pod n \<longrightarrow> score n \<le> score m" by blast
    have "b < score m" using m(4) n Cons.prems(2,3) by force
    with False have "fits pod a \<longrightarrow> score a \<le> score m" by auto
    with m loop show ?thesis by auto
  qed
qed

section \<open>Correctness\<close>

lemma room_score: "0 \<le> pr_CPURequest pod \<Longrightarrow> 0 \<le> pr_MemRequest pod \<Longrightarrow> room pod n \<Longrightarrow> 0 \<le> exact_score n"
  by (auto simp: room_def exact_score_def)

text \<open>
  C15: on nodes whose free amounts fit \<open>int64\<close> and for non-negative requests, \<open>Schedule\<close>
  fails with \<open>ErrNoNodeAvailable\<close> exactly when no candidate has room for the pod (CPU,
  memory, every accelerator, every port), and otherwise names a candidate that has room
  and whose free CPU plus free memory is the largest among the candidates with room.
\<close>

theorem schedule_best_fit:
  assumes "\<forall>n \<in> set nodes. sane_node n" "0 \<le> pr_CPURequest pod" "0 \<le> pr_MemRequest pod"
  shows "case Schedule pod nodes of
      Inl e \<Rightarrow> e = ErrNoNodeAvailable \<and> (\<forall>n \<in> set nodes. \<not> room pod n)
    | Inr name \<Rightarrow> (\<exists>n \<in> set nodes. nc_Name n = name \<and> room pod n \<and>
        (\<forall>m \<in> set nodes. room pod m \<longrightarrow> exact_score m \<le> exact_score n))"
proof (cases "\<exists>n \<in> set nodes. room pod n")
  case True
  then obtain n where n: "n \<in> set nodes" "room pod n" by blast
  with assms have "fits pod n" "-1 < score n"
    using room_score[of pod n] by (simp_all add: fits_room score_exact)
  from schedule_loop_max[OF n(1) this, of None] assms(1) show ?thesis
    by (auto simp: Schedule_def fits_room score_exact)
next
  case False
  with assms(1) have "schedule_loop pod nodes None (-1) = None"
    by (intro schedule_loop_keep) (auto simp: fits_room)
  with False show ?thesis by (simp add: Schedule_def)
qed

definition ex_pod :: PodRequest where
  "ex_pod = \<lparr>pr_Name = ''web'', pr_CPURequest = 500, pr_MemRequest = 256,
     pr_AcceleratorsRequested = [], pr_ContainerPorts = [80]\<rparr>"

definition ex_node :: "string \<Rightarrow> int \<Rightarrow> (int32, bool) gomap \<Rightarrow> NodeCandidate" where
  "ex_node name cpu ports = \<lparr>nc_Name = name, nc_CPUCapacity = cpu, nc_MemCapacity = 8192,
     nc_CPUUsed = 0, nc_MemUsed = 0, nc_AcceleratorCapacity = [], nc_AcceleratorUsed = [],
     nc_UsedPorts = ports\<rparr>"

lemma ex_node_sane: "0 \<le> cpu \<Longrightarrow> cpu \<le> 100000 \<Longrightarrow> sane_node (ex_node name cpu ports)"
  by (simp add: sane_node_def ex_node_def in64_def iget_def)

theorem schedule_best_fit_witness:
  "Schedule ex_pod [ex_node ''busy'' 9000 [(80, True)], ex_node ''free'' 4000 []] = Inr ''free'' \<and>
   (\<exists>n \<in> set [ex_node ''busy'' 9000 [(80, True)], ex_node ''free'' 4000 []].
      nc_Name n = ''free'' \<and> room ex_pod n)"
proof -
  let ?ns = "[ex_node ''busy'' 9000 [(80, True)], ex_node ''free'' 4000 []]"
  have s: "Schedule ex_pod ?ns = Inr ''free''"
    by (simp add: Schedule_def fits_def score_def freeCPU_def freeMem_def ex_pod_def ex_node_def
        wrap64_def bget_def)
  have "\<forall>n \<in> set ?ns. sane_node n" by (simp add: ex_node_sane)
  from schedule_best_fit[OF this, of ex_pod] s show ?thesis
    by (auto simp: ex_pod_def)
qed

end
