(* ===== verification/Scheduling.thy ===== *)
theory Scheduling
  imports Cluster Scheduler
begin

text \<open>
  What the controllers share to place pods: \<^verbatim>\<open>internal/controller/scheduling.go\<close> and
  \<open>computeNodeUsage\<close> of \<^verbatim>\<open>internal/controller/deployment.go\<close>. The usage of a node is shown to
  be the sum over the pods bound to it, and a placement to respect the node's allocatable
  amounts on top of that sum.
\<close>

section \<open>Usage\<close>

record nodeResourceUsage =
  nru_cpuMillis :: int64
  nru_memoryBytes :: int64
  nru_accelerators :: "(string, int64) gomap"
  nru_ports :: "(int32, bool) gomap"

definition zero_usage :: nodeResourceUsage where
  "zero_usage = \<lparr>nru_cpuMillis = 0, nru_memoryBytes = 0, nru_accelerators = [], nru_ports = []\<rparr>"

definition uget :: "(string, nodeResourceUsage) gomap \<Rightarrow> string \<Rightarrow> nodeResourceUsage" where
  "uget usage name = (case map_of usage name of None \<Rightarrow> zero_usage | Some u \<Rightarrow> u)"

text \<open>\<open>for name, count := range req { m[name] += count }\<close>\<close>

definition add_accelerators :: "(string, int64) gomap \<Rightarrow> (string, int64) gomap \<Rightarrow> (string, int64) gomap" where
  "add_accelerators m req =
     foldl (\<lambda>m (name, count). AList.update name (wrap64 (iget m name + count)) m) m req"

definition add_ports :: "(int32, bool) gomap \<Rightarrow> int32 list \<Rightarrow> (int32, bool) gomap" where
  "add_ports m ports = foldl (\<lambda>m port. AList.update port True m) m ports"

definition container_usage :: "nodeResourceUsage \<Rightarrow> Container \<Rightarrow> nodeResourceUsage" where
  "container_usage u c =
     \<lparr>nru_cpuMillis = wrap64 (nru_cpuMillis u + ResourceList_GetCpuMillis (ctr_requests c)),
      nru_memoryBytes = wrap64 (nru_memoryBytes u + ResourceList_GetMemoryBytes (ctr_requests c)),
      nru_accelerators = add_accelerators (nru_accelerators u) (ResourceList_GetAccelerators (ctr_requests c)),
      nru_ports = add_ports (nru_ports u) (ctr_container_ports c)\<rparr>"

definition usage_step :: "(string, nodeResourceUsage) gomap \<Rightarrow> Pod \<Rightarrow> (string, nodeResourceUsage) gomap" where
  "usage_step usage p =
     (if pod_node p = [] then usage
      else AList.update (pod_node p) (foldl container_usage (uget usage (pod_node p)) (pod_containers p)) usage)"

definition usage_of :: "Pod list \<Rightarrow> (string, nodeResourceUsage) gomap" where
  "usage_of all = foldl usage_step [] all"

definition computeNodeUsage :: "('s, 'b, Pod) Registry \<Rightarrow> 's \<Rightarrow> (string, nodeResourceUsage) gomap res" where
  "computeNodeUsage pods s = (case reg_List pods [] s of Inl e \<Rightarrow> Inl e | Inr all \<Rightarrow> Inr (usage_of all))"

section \<open>Candidates and requests\<close>

definition candidate_of :: "Node \<Rightarrow> (string, nodeResourceUsage) gomap \<Rightarrow> NodeCandidate" where
  "candidate_of n usage =
     (let name = node_name n; alloc = NodeStatus_GetAllocatable (node_status n)
      in \<lparr>nc_Name = name,
          nc_CPUCapacity = ResourceList_GetCpuMillis alloc,
          nc_MemCapacity = ResourceList_GetMemoryBytes alloc,
          nc_CPUUsed = nru_cpuMillis (uget usage name),
          nc_MemUsed = nru_memoryBytes (uget usage name),
          nc_AcceleratorCapacity = ResourceList_GetAccelerators alloc,
          nc_AcceleratorUsed = nru_accelerators (uget usage name),
          nc_UsedPorts = nru_ports (uget usage name)\<rparr>)"

fun candidate_loop :: "Node list \<Rightarrow> (string, nodeResourceUsage) gomap \<Rightarrow> NodeCandidate list" where
  "candidate_loop [] usage = []"
| "candidate_loop (n # all) usage =
     (if \<not> NodeStatus_GetReady (node_status n) \<or> NodeSpec_GetUnschedulable (node_spec n)
      then candidate_loop all usage
      else candidate_of n usage # candidate_loop all usage)"

definition buildNodeCandidates :: "('s, 'b, Node) Registry \<Rightarrow> (string, nodeResourceUsage) gomap \<Rightarrow> 's \<Rightarrow>
    NodeCandidate list res" where
  "buildNodeCandidates nodes usage s =
     (case reg_List nodes [] s of Inl e \<Rightarrow> Inl e | Inr all \<Rightarrow> Inr (candidate_loop all usage))"

definition request_step :: "int64 \<times> int64 \<times> (string, int64) gomap \<times> int32 list \<Rightarrow> Container \<Rightarrow>
    int64 \<times> int64 \<times> (string, int64) gomap \<times> int32 list" where
  "request_step acc c =
     (case acc of (cpuMillis, memoryBytes, accelerators, ports) \<Rightarrow>
        (let req = ctr_requests c
         in (wrap64 (cpuMillis + ResourceList_GetCpuMillis req),
             wrap64 (memoryBytes + ResourceList_GetMemoryBytes req),
             add_accelerators accelerators (ResourceList_GetAccelerators req),
             ports @ ctr_container_ports c)))"

definition podResourceRequest :: "Pod \<Rightarrow> int64 \<times> int64 \<times> (string, int64) gomap \<times> int32 list" where
  "podResourceRequest p = foldl request_step (0, 0, [], []) (pod_containers p)"

definition pod_request :: "Pod \<Rightarrow> PodRequest" where
  "pod_request p =
     (case podResourceRequest p of (cpuReq, memReq, accelReq, ports) \<Rightarrow>
        \<lparr>pr_Name = pod_name p, pr_CPURequest = cpuReq, pr_MemRequest = memReq,
         pr_AcceleratorsRequested = accelReq, pr_ContainerPorts = ports\<rparr>)"

section \<open>Placing one pod\<close>

text \<open>\<open>%v\<close> of a slice of integers: \<open>[80 443]\<close>.\<close>

definition fmt_int :: "int \<Rightarrow> string" where
  "fmt_int i = (if i < 0 then CHR ''-'' # Itoa (nat (- i)) else Itoa (nat i))"

fun fmt_ints :: "int list \<Rightarrow> string" where
  "fmt_ints [] = []"
| "fmt_ints [i] = fmt_int i"
| "fmt_ints (i # is) = fmt_int i @ '' '' @ fmt_ints is"

definition pending_message :: "int32 list \<Rightarrow> string" where
  "pending_message ports =
     (if ports \<noteq> []
      then ''waiting for a node with enough free CPU/memory and an available port for containerPort(s) ['' @
           fmt_ints ports @ '']''
      else ''waiting for a node with enough free CPU/memory'')"

abbreviation pod_message :: "Pod \<Rightarrow> string" where
  "pod_message p \<equiv> PodStatus_GetMessage (pod_status p)"

definition set_message :: "string \<Rightarrow> Pod \<Rightarrow> Pod" where
  "set_message m p =
     p\<lparr>pod_status := Some ((case pod_status p of None \<Rightarrow> zero_PodStatus | Some st \<Rightarrow> st)\<lparr>pst_message := m\<rparr>)\<rparr>"

definition set_node :: "string \<Rightarrow> Pod \<Rightarrow> Pod" where
  "set_node n p =
     p\<lparr>pod_spec := Some ((case pod_spec p of None \<Rightarrow> zero_PodSpec | Some sp \<Rightarrow> sp)\<lparr>ps_node_name := n\<rparr>)\<rparr>"

text \<open>
  \<open>schedulePod\<close> changes the pod it is given, which its caller goes on using: the pod is part
  of the result, also when the write fails.
\<close>

type_synonym sched = "PodRequest \<Rightarrow> NodeCandidate list \<Rightarrow> string res"

definition schedulePod :: "('s, 'b, Pod) Registry \<Rightarrow> sched \<Rightarrow> NodeCandidate list \<Rightarrow> Pod \<Rightarrow> 's \<Rightarrow>
    (unit res \<times> Pod) \<times> 's" where
  "schedulePod pods sched candidates p s =
     (case sched (pod_request p) candidates of
        Inl err \<Rightarrow>
          (let msg = pending_message (pr_ContainerPorts (pod_request p))
           in if pod_message p = msg then ((Inr (), p), s)
              else (let p' = set_message msg p
                    in case wrapA ''record pending reason for pod'' (reg_Put pods (pod_namespace p') (pod_name p') p') s of
                         (r, s') \<Rightarrow> ((r, p'), s')))
      | Inr nodeName \<Rightarrow>
          (let p1 = set_node nodeName p;
               p2 = (if pod_message p1 \<noteq> [] then set_message [] p1 else p1)
           in case wrapA ''assign pod to node'' (reg_Put pods (pod_namespace p2) (pod_name p2) p2) s of
                (r, s') \<Rightarrow> ((r, p2), s')))"

section \<open>The usage is the sum over the bound pods\<close>

text \<open>Requests over unbounded integers, the specification.\<close>

definition ctr_cpu :: "Container \<Rightarrow> int" where
  "ctr_cpu c = ResourceList_GetCpuMillis (ctr_requests c)"

definition ctr_mem :: "Container \<Rightarrow> int" where
  "ctr_mem c = ResourceList_GetMemoryBytes (ctr_requests c)"

definition ctr_acc :: "string \<Rightarrow> Container \<Rightarrow> int" where
  "ctr_acc a c = (\<Sum>(n, v) \<leftarrow> ResourceList_GetAccelerators (ctr_requests c). if n = a then v else 0)"

definition pod_cpu :: "Pod \<Rightarrow> int" where
  "pod_cpu p = (\<Sum>c \<leftarrow> pod_containers p. ctr_cpu c)"

definition pod_mem :: "Pod \<Rightarrow> int" where
  "pod_mem p = (\<Sum>c \<leftarrow> pod_containers p. ctr_mem c)"

definition pod_acc :: "string \<Rightarrow> Pod \<Rightarrow> int" where
  "pod_acc a p = (\<Sum>c \<leftarrow> pod_containers p. ctr_acc a c)"

definition pod_ports :: "Pod \<Rightarrow> int32 set" where
  "pod_ports p = (\<Union>c \<in> set (pod_containers p). set (ctr_container_ports c))"

definition bound_to :: "string \<Rightarrow> Pod list \<Rightarrow> Pod list" where
  "bound_to n all = filter (\<lambda>p. pod_node p = n) all"

lemma iget_add_accelerators:
  "in64 (iget m a) \<Longrightarrow>
   iget (add_accelerators m req) a = wrap64 (iget m a + (\<Sum>(n, v) \<leftarrow> req. if n = a then v else 0))"
  unfolding add_accelerators_def
proof (induction req arbitrary: m)
  case (Cons nv req)
  obtain n v where nv: "nv = (n, v)" by fastforce
  show ?case
    using Cons.prems Cons.IH[of "AList.update n (wrap64 (iget m n + v)) m"] nv
    by (auto simp: add.assoc)
qed (simp add: wrap64_id)

lemma bget_add_ports: "bget (add_ports m ports) q \<longleftrightarrow> q \<in> set ports \<or> bget m q"
  by (induction ports arbitrary: m) (auto simp: add_ports_def)

lemma container_usage_fields [simp]:
  "nru_cpuMillis (container_usage u c) = wrap64 (nru_cpuMillis u + ctr_cpu c)"
  "nru_memoryBytes (container_usage u c) = wrap64 (nru_memoryBytes u + ctr_mem c)"
  "bget (nru_ports (container_usage u c)) q \<longleftrightarrow> q \<in> set (ctr_container_ports c) \<or> bget (nru_ports u) q"
  by (simp_all add: container_usage_def ctr_cpu_def ctr_mem_def bget_add_ports)

lemma container_usage_fold:
  assumes "in64 (nru_cpuMillis u)" "in64 (nru_memoryBytes u)" "\<And>a. in64 (iget (nru_accelerators u) a)"
  shows "nru_cpuMillis (foldl container_usage u cs) = wrap64 (nru_cpuMillis u + (\<Sum>c \<leftarrow> cs. ctr_cpu c)) \<and>
    nru_memoryBytes (foldl container_usage u cs) = wrap64 (nru_memoryBytes u + (\<Sum>c \<leftarrow> cs. ctr_mem c)) \<and>
    iget (nru_accelerators (foldl container_usage u cs)) a =
      wrap64 (iget (nru_accelerators u) a + (\<Sum>c \<leftarrow> cs. ctr_acc a c)) \<and>
    (bget (nru_ports (foldl container_usage u cs)) q \<longleftrightarrow>
       bget (nru_ports u) q \<or> (\<exists>c \<in> set cs. q \<in> set (ctr_container_ports c)))"
  using assms
proof (induction cs arbitrary: u)
  case Nil
  then show ?case by (simp add: wrap64_id)
next
  case (Cons c cs)
  have acc: "iget (nru_accelerators (container_usage u c)) b = wrap64 (iget (nru_accelerators u) b + ctr_acc b c)" for b
    using iget_add_accelerators[OF Cons.prems(3)] by (simp add: container_usage_def ctr_acc_def)
  have "in64 (iget (nru_accelerators (container_usage u c)) b)" for b by (simp add: acc)
  with Cons.IH[of "container_usage u c"] show ?case
    by (auto simp: acc add.assoc)
qed

text \<open>The usage recorded for a node, resource by resource.\<close>

lemma usage_fold:
  fixes n :: string
  assumes "n \<noteq> []" "in64 (nru_cpuMillis (uget usage n))" "in64 (nru_memoryBytes (uget usage n))"
    "\<And>a. in64 (iget (nru_accelerators (uget usage n)) a)"
  shows "let u = uget (foldl usage_step usage all) n; v = uget usage n in
    nru_cpuMillis u = wrap64 (nru_cpuMillis v + (\<Sum>p \<leftarrow> bound_to n all. pod_cpu p)) \<and>
    nru_memoryBytes u = wrap64 (nru_memoryBytes v + (\<Sum>p \<leftarrow> bound_to n all. pod_mem p)) \<and>
    iget (nru_accelerators u) a = wrap64 (iget (nru_accelerators v) a + (\<Sum>p \<leftarrow> bound_to n all. pod_acc a p)) \<and>
    (bget (nru_ports u) q \<longleftrightarrow> bget (nru_ports v) q \<or> (\<exists>p \<in> set (bound_to n all). q \<in> pod_ports p))"
  using assms
proof (induction all arbitrary: usage)
  case Nil
  then show ?case by (simp add: bound_to_def wrap64_id)
next
  case (Cons p all)
  show ?case
  proof (cases "pod_node p = n")
    case False
    then have "uget (usage_step usage p) n = uget usage n"
      by (simp add: usage_step_def uget_def)
    with Cons.IH[of "usage_step usage p"] Cons.prems False show ?thesis
      by (simp add: bound_to_def Let_def)
  next
    case True
    let ?v = "uget usage n" and ?w = "foldl container_usage (uget usage n) (pod_containers p)"
    from True Cons.prems(1) have w: "uget (usage_step usage p) n = ?w"
      by (simp add: usage_step_def uget_def)
    note f = container_usage_fold[OF Cons.prems(2-4), of "pod_containers p"]
    have "in64 (nru_cpuMillis ?w)" "in64 (nru_memoryBytes ?w)" "\<And>a. in64 (iget (nru_accelerators ?w) a)"
      using f by simp_all
    with Cons.IH[of "usage_step usage p"] Cons.prems(1) True f show ?thesis
      by (auto simp: w bound_to_def pod_cpu_def pod_mem_def pod_acc_def pod_ports_def Let_def add.assoc)
  qed
qed

lemma usage_of_exact:
  assumes "n \<noteq> []"
  shows "nru_cpuMillis (uget (usage_of all) n) = wrap64 (\<Sum>p \<leftarrow> bound_to n all. pod_cpu p)"
    and "nru_memoryBytes (uget (usage_of all) n) = wrap64 (\<Sum>p \<leftarrow> bound_to n all. pod_mem p)"
    and "iget (nru_accelerators (uget (usage_of all) n)) a = wrap64 (\<Sum>p \<leftarrow> bound_to n all. pod_acc a p)"
    and "bget (nru_ports (uget (usage_of all) n)) q \<longleftrightarrow> (\<exists>p \<in> set (bound_to n all). q \<in> pod_ports p)"
  using usage_fold[OF assms, of "[]" all a q]
  by (simp_all add: usage_of_def uget_def zero_usage_def in64_def iget_def bget_def Let_def)

lemma request_fold:
  assumes "in64 cpu" "in64 mem" "\<And>a. in64 (iget acc a)"
  shows "case foldl request_step (cpu, mem, acc, ports) cs of (cpu', mem', acc', ports') \<Rightarrow>
    cpu' = wrap64 (cpu + (\<Sum>c \<leftarrow> cs. ctr_cpu c)) \<and> mem' = wrap64 (mem + (\<Sum>c \<leftarrow> cs. ctr_mem c)) \<and>
    iget acc' a = wrap64 (iget acc a + (\<Sum>c \<leftarrow> cs. ctr_acc a c)) \<and>
    ports' = ports @ concat (map ctr_container_ports cs)"
  using assms
proof (induction cs arbitrary: cpu mem acc ports)
  case Nil
  then show ?case by (simp add: wrap64_id)
next
  case (Cons c cs)
  have acc: "iget (add_accelerators acc (ResourceList_GetAccelerators (ctr_requests c))) b =
      wrap64 (iget acc b + ctr_acc b c)" for b
    using iget_add_accelerators[OF Cons.prems(3)] by (simp add: ctr_acc_def)
  show ?case
    using Cons.IH[of "wrap64 (cpu + ctr_cpu c)" "wrap64 (mem + ctr_mem c)"
        "add_accelerators acc (ResourceList_GetAccelerators (ctr_requests c))"
        "ports @ ctr_container_ports c"]
    by (simp add: request_step_def acc ctr_cpu_def ctr_mem_def Let_def add.assoc split: prod.splits)
qed

lemma pod_request_exact:
  shows "pr_CPURequest (pod_request p) = wrap64 (pod_cpu p)"
    and "pr_MemRequest (pod_request p) = wrap64 (pod_mem p)"
    and "iget (pr_AcceleratorsRequested (pod_request p)) a = wrap64 (pod_acc a p)"
    and "set (pr_ContainerPorts (pod_request p)) = pod_ports p"
  using request_fold[of 0 0 "[]", where a = a and ports = "[]" and cs = "pod_containers p"]
  by (auto simp: pod_request_def podResourceRequest_def pod_cpu_def pod_mem_def pod_acc_def pod_ports_def
      in64_def iget_def split: prod.splits)

section \<open>A placement respects the node\<close>

text \<open>
  The amounts involved are non-negative and add up below the \<open>int64\<close> limit, for the pods
  bound to a node and for the pod to place.
\<close>

definition amount :: "int \<Rightarrow> bool" where
  "amount x \<longleftrightarrow> 0 \<le> x \<and> x \<le> MaxInt64"

abbreviation node_alloc :: "Node \<Rightarrow> ResourceList option" where
  "node_alloc n \<equiv> NodeStatus_GetAllocatable (node_status n)"

definition sane_load :: "Pod \<Rightarrow> Pod list \<Rightarrow> Node \<Rightarrow> bool" where
  "sane_load p all n \<longleftrightarrow>
     node_name n \<noteq> [] \<and>
     amount (pod_cpu p) \<and> amount (pod_mem p) \<and> (\<forall>a. amount (pod_acc a p)) \<and>
     amount (\<Sum>q \<leftarrow> bound_to (node_name n) all. pod_cpu q) \<and>
     amount (\<Sum>q \<leftarrow> bound_to (node_name n) all. pod_mem q) \<and>
     (\<forall>a. amount (\<Sum>q \<leftarrow> bound_to (node_name n) all. pod_acc a q)) \<and>
     amount (ResourceList_GetCpuMillis (node_alloc n)) \<and> amount (ResourceList_GetMemoryBytes (node_alloc n)) \<and>
     (\<forall>a. amount (iget (ResourceList_GetAccelerators (node_alloc n)) a))"

text \<open>The node can take the pod on top of the pods bound to it.\<close>

definition node_takes :: "Pod \<Rightarrow> Pod list \<Rightarrow> Node \<Rightarrow> bool" where
  "node_takes p all n \<longleftrightarrow>
     node_ready n \<and> \<not> NodeSpec_GetUnschedulable (node_spec n) \<and>
     (\<Sum>q \<leftarrow> bound_to (node_name n) all. pod_cpu q) + pod_cpu p \<le> ResourceList_GetCpuMillis (node_alloc n) \<and>
     (\<Sum>q \<leftarrow> bound_to (node_name n) all. pod_mem q) + pod_mem p \<le> ResourceList_GetMemoryBytes (node_alloc n) \<and>
     (\<forall>a. pod_acc a p > 0 \<longrightarrow> (\<Sum>q \<leftarrow> bound_to (node_name n) all. pod_acc a q) + pod_acc a p
        \<le> iget (ResourceList_GetAccelerators (node_alloc n)) a) \<and>
     (\<forall>q \<in> set (bound_to (node_name n) all). pod_ports q \<inter> pod_ports p = {})"

lemma amount_in64: "amount x \<Longrightarrow> in64 x" "amount x \<Longrightarrow> amount y \<Longrightarrow> in64 (x - y)"
  by (auto simp: amount_def in64_def MaxInt64_def)

lemma candidate_loop_mem:
  "c \<in> set (candidate_loop ns usage) \<Longrightarrow>
   \<exists>n \<in> set ns. node_ready n \<and> \<not> NodeSpec_GetUnschedulable (node_spec n) \<and> c = candidate_of n usage"
  by (induction ns) (auto split: if_splits)

lemma fits_takes:
  assumes c: "c \<in> set (candidate_loop ns (usage_of all))" "fits (pod_request p) c"
    and sane: "\<forall>n \<in> set ns. sane_load p all n"
  shows "\<exists>n \<in> set ns. node_name n = nc_Name c \<and> node_takes p all n"
proof -
  from candidate_loop_mem[OF c(1)] obtain n where n: "n \<in> set ns" "node_ready n"
    "\<not> NodeSpec_GetUnschedulable (node_spec n)" "c = candidate_of n (usage_of all)" by blast
  note n' = n(4)[unfolded candidate_of_def Let_def]
  from sane n(1) have s: "sane_load p all n" by blast
  then have ne: "node_name n \<noteq> []" by (simp add: sane_load_def)
  note u = usage_of_exact[OF ne, of all]
  note s' = s[unfolded sane_load_def]
  have cpu: "pod_cpu p \<le> nc_CPUCapacity c - nc_CPUUsed c" and mem: "pod_mem p \<le> nc_MemCapacity c - nc_MemUsed c"
    using c(2) s' by (auto simp: fits_def freeCPU_def freeMem_def n' u pod_request_exact wrap64_id amount_in64)
  have acc: "pod_acc a p \<le> iget (nc_AcceleratorCapacity c) a - iget (nc_AcceleratorUsed c) a"
    if "pod_acc a p > 0" for a
  proof -
    have w: "iget (pr_AcceleratorsRequested (pod_request p)) a = pod_acc a p"
      using s' by (simp add: pod_request_exact wrap64_id amount_in64)
    with that have "(a, pod_acc a p) \<in> set (pr_AcceleratorsRequested (pod_request p))"
      by (auto simp: iget_def dest: map_of_SomeD split: option.splits)
    with c(2) that s' show ?thesis
      by (auto simp: fits_def acceleratorsFit_iff n' u wrap64_id amount_in64)
  qed
  have "pod_ports q \<inter> pod_ports p = {}" if "q \<in> set (bound_to (node_name n) all)" for q
    using c(2) that by (auto simp: fits_def portsFit_iff n' u pod_request_exact)
  with n(1-3) cpu mem acc s' show ?thesis
    by (auto simp: node_takes_def n' u wrap64_id amount_in64 intro!: bexI[of _ n] simp: algebra_simps)
qed

text \<open>
  C10: when the controllers' pipeline (usage over all pods, candidates over all nodes,
  \<open>Schedule\<close>) names a node for a pod, that node is ready and schedulable, and the pods already
  bound to it together with the new pod stay within its allocatable CPU, memory and
  accelerators and share no container port, as long as the amounts involved are
  non-negative and below the \<open>int64\<close> limit.
\<close>

theorem placement_respects_node:
  assumes "\<forall>n \<in> set ns. sane_load p all n"
    and "Schedule (pod_request p) (candidate_loop ns (usage_of all)) = Inr name"
  shows "\<exists>n \<in> set ns. node_name n = name \<and> node_takes p all n"
proof -
  from assms(2) obtain c where "schedule_loop (pod_request p) (candidate_loop ns (usage_of all)) None (-1) = Some c"
    and name: "nc_Name c = name"
    by (auto simp: Schedule_def split: option.splits)
  with schedule_loop_None[of "pod_request p" "candidate_loop ns (usage_of all)" None "-1"]
  have "c \<in> set (candidate_loop ns (usage_of all))" "fits (pod_request p) c" by auto
  from fits_takes[OF this assms(1)] name show ?thesis by simp
qed

text \<open>One node, one pod bound to it on port 80, one pod to place on port 8080.\<close>

definition ex_container :: "int32 list \<Rightarrow> Container" where
  "ex_container ports = \<lparr>ctr_name = ''c'', ctr_image = ''img'',
     ctr_resources = Some \<lparr>rr_requests = Some \<lparr>rl_cpu_millis = 500, rl_memory_bytes = 256, rl_accelerators = []\<rparr>,
       rr_limits = None\<rparr>,
     ctr_security_context = None, ctr_command = [], ctr_wasm_module_path = [],
     ctr_container_ports = ports, ctr_env = [], ctr_build_source = None\<rparr>"

definition ex_pod_obj :: "string \<Rightarrow> string \<Rightarrow> int32 list \<Rightarrow> Pod" where
  "ex_pod_obj name node ports = \<lparr>pod_metadata = Some (zero_ObjectMeta\<lparr>meta_name := name, meta_namespace := ''default''\<rparr>),
     pod_spec = Some (zero_PodSpec\<lparr>ps_containers := [ex_container ports], ps_node_name := node\<rparr>),
     pod_status = Some (zero_PodStatus\<lparr>pst_phase := POD_PHASE_PENDING\<rparr>)\<rparr>"

definition ex_node_obj :: "string \<Rightarrow> Node" where
  "ex_node_obj name = \<lparr>node_metadata = Some (zero_ObjectMeta\<lparr>meta_name := name\<rparr>), node_spec = None,
     node_status = Some (zero_NodeStatus\<lparr>nst_ready := True,
       nst_allocatable := Some \<lparr>rl_cpu_millis = 4000, rl_memory_bytes = 8192, rl_accelerators = []\<rparr>\<rparr>)\<rparr>"

lemmas ex_object_defs = ex_container_def ex_pod_obj_def ex_node_obj_def zero_messages

lemma ex_sane_load: "sane_load (ex_pod_obj ''b'' [] [8080]) [ex_pod_obj ''a'' ''n1'' [80]] (ex_node_obj ''n1'')"
  by (simp add: sane_load_def amount_def ex_object_defs pod_cpu_def pod_mem_def pod_acc_def ctr_cpu_def
      ctr_mem_def ctr_acc_def bound_to_def iget_def MaxInt64_def)

lemma ex_schedule: "Schedule (pod_request (ex_pod_obj ''b'' [] [8080]))
    (candidate_loop [ex_node_obj ''n1''] (usage_of [ex_pod_obj ''a'' ''n1'' [80]])) = Inr ''n1''"
  by code_simp

theorem placement_respects_node_witness:
  "node_takes (ex_pod_obj ''b'' [] [8080]) [ex_pod_obj ''a'' ''n1'' [80]] (ex_node_obj ''n1'')"
  using placement_respects_node[of "[ex_node_obj ''n1'']" _ _, OF _ ex_schedule] ex_sane_load by simp

end
