(* ===== verification/Deployments.thy ===== *)
theory Deployments
  imports Scheduling
begin

text \<open>
  The deployment controller, \<^verbatim>\<open>internal/controller/deployment.go\<close>: one pass of
  \<open>reconcileOne\<close> with every step of the source (eviction, scaling up by the first free
  ordinals, scaling down, placement, volume claims, status).
\<close>

section \<open>Definitions\<close>

definition OwnerDeploymentLabel :: string where
  "OwnerDeploymentLabel = ''nimbuscore.io/owner-deployment''"

record ('s, 'b) DeploymentReconciler =
  dr_deployments :: "('s, 'b, Deployment) Registry"
  dr_pods :: "('s, 'b, Pod) Registry"
  dr_nodes :: "('s, 'b, Node) Registry"
  dr_volumes :: "('s, 'b, Volume) Registry"
  dr_scheduler :: sched
  dr_resync :: int

definition NewDeploymentReconciler where
  "NewDeploymentReconciler deployments pods nodes volumes sched resync =
     \<lparr>dr_deployments = deployments, dr_pods = pods, dr_nodes = nodes, dr_volumes = volumes,
      dr_scheduler = sched, dr_resync = (if resync \<le> 0 then 5 * Second else resync)\<rparr>"

definition owner_of :: "Pod \<Rightarrow> string" where
  "owner_of p = lget (pod_labels p) OwnerDeploymentLabel"

definition terminal :: "PodPhase \<Rightarrow> bool" where
  "terminal phase \<longleftrightarrow> phase = POD_PHASE_SUCCEEDED \<or> phase = POD_PHASE_FAILED"

definition nodeReady :: "('s, 'b) DeploymentReconciler \<Rightarrow> string \<Rightarrow> 's \<Rightarrow> bool res" where
  "nodeReady r name s =
     (case reg_Get (dr_nodes r) [] name s of
        Inl err \<Rightarrow> if errors_Is err ErrNotFound then Inr False else Inl err
      | Inr node \<Rightarrow> Inr (NodeStatus_GetReady (node_status node)))"

definition delete_pod_obj :: "('s, 'b) DeploymentReconciler \<Rightarrow> Pod \<Rightarrow> ('s, unit) action" where
  "delete_pod_obj r p = reg_Delete (dr_pods r) (pod_namespace p) (pod_name p)"

text \<open>The loop of \<open>ownedPods\<close> with its two evictions.\<close>

fun owned_loop :: "('s, 'b) DeploymentReconciler \<Rightarrow> Deployment \<Rightarrow> Pod list \<Rightarrow> ('s, Pod list) action" where
  "owned_loop r d [] s = (Inr [], s)"
| "owned_loop r d (p # all) s =
     (let keep_or_replace = (\<lambda>s. if terminal (pod_phase p)
             then bindA (delete_pod_obj r p) (\<lambda>_. owned_loop r d all) s
             else bindA (owned_loop r d all) (\<lambda>owned. ret (p # owned)) s)
      in if owner_of p \<noteq> dep_name d then owned_loop r d all s
         else if pod_node p \<noteq> [] then
           (case nodeReady r (pod_node p) s of
              Inl err \<Rightarrow> (Inl err, s)
            | Inr ready \<Rightarrow>
                if \<not> ready then bindA (delete_pod_obj r p) (\<lambda>_. owned_loop r d all) s
                else keep_or_replace s)
         else keep_or_replace s)"

definition ownedPods :: "('s, 'b) DeploymentReconciler \<Rightarrow> Deployment \<Rightarrow> ('s, Pod list) action" where
  "ownedPods r d = bindA (readA (reg_List (dr_pods r) (dep_namespace d))) (\<lambda>all. owned_loop r d all)"

definition newPod :: "Deployment \<Rightarrow> nat \<Rightarrow> Pod" where
  "newPod d index =
     \<lparr>pod_metadata = Some (zero_ObjectMeta\<lparr>
        meta_name := dep_name d @ ''-'' @ Itoa index,
        meta_namespace := dep_namespace d,
        meta_labels := AList.update OwnerDeploymentLabel (dep_name d)
          (maps_Copy [] (DeploymentSpec_GetSelector (dep_spec d)))\<rparr>),
      pod_spec = dep_template d,
      pod_status = Some (zero_PodStatus\<lparr>pst_phase := POD_PHASE_PENDING\<rparr>)\<rparr>"

text \<open>
  \<open>pod.Spec.NodeName = claimedNode\<close>; the claimed node comes from the template's volumes, so
  the template, and with it the clone, is not nil.
\<close>

definition pin_pod :: "string \<Rightarrow> Pod \<Rightarrow> Pod" where
  "pin_pod claimedNode pod =
     (if claimedNode \<noteq> [] then pod\<lparr>pod_spec := map_option (\<lambda>sp. sp\<lparr>ps_node_name := claimedNode\<rparr>) (pod_spec pod)\<rparr>
      else pod)"

fun resolve_loop :: "('s, 'b) DeploymentReconciler \<Rightarrow> string \<Rightarrow> VolumeMount list \<Rightarrow> 's \<Rightarrow> string res" where
  "resolve_loop r namespace [] s = Inr []"
| "resolve_loop r namespace (m # mounts) s =
     (case reg_Get (dr_volumes r) namespace (mnt_volume_name m) s of
        Inl err \<Rightarrow> if errors_Is err ErrNotFound then resolve_loop r namespace mounts s else Inl err
      | Inr vol \<Rightarrow>
          let nodeName = VolumeStatus_GetNodeName (vol_status vol)
          in if nodeName \<noteq> [] then Inr nodeName else resolve_loop r namespace mounts s)"

definition resolveVolumeNode :: "('s, 'b) DeploymentReconciler \<Rightarrow> string \<Rightarrow> VolumeMount list \<Rightarrow> ('s, string) action" where
  "resolveVolumeNode r namespace mounts = readA (resolve_loop r namespace mounts)"

definition occupied_indices :: "Deployment \<Rightarrow> Pod list \<Rightarrow> (int, bool) gomap" where
  "occupied_indices d owned =
     foldl (\<lambda>occ p. case Atoi (TrimPrefix (pod_name p) (dep_name d @ ''-'')) of
              Some idx \<Rightarrow> AList.update idx True occ | None \<Rightarrow> occ) [] owned"

text \<open>\<open>for i := 0; toCreate > 0; i++\<close>: the index moves past the occupied ordinals.\<close>

function create_loop :: "('s, 'b) DeploymentReconciler \<Rightarrow> Deployment \<Rightarrow> string \<Rightarrow> (int, bool) gomap \<Rightarrow>
    nat \<Rightarrow> nat \<Rightarrow> ('s, unit) action" where
  "create_loop r d claimedNode occupied i toCreate s =
     (if toCreate = 0 then (Inr (), s)
      else if bget occupied (int i) then create_loop r d claimedNode occupied (Suc i) toCreate s
      else (let pod = pin_pod claimedNode (newPod d i)
            in case wrapA ''create pod'' (reg_Put (dr_pods r) (pod_namespace pod) (pod_name pod) pod) s of
                 (Inl e, s') \<Rightarrow> (Inl e, s')
               | (Inr _, s') \<Rightarrow> create_loop r d claimedNode occupied (Suc i) (toCreate - 1) s'))"
  by pat_completeness auto

definition occupied_above :: "(int, bool) gomap \<Rightarrow> nat \<Rightarrow> int set" where
  "occupied_above occupied i = {k. int i \<le> k \<and> bget occupied k}"

lemma finite_occupied: "finite (occupied_above occupied i)"
proof (rule finite_subset)
  show "occupied_above occupied i \<subseteq> fst ` set occupied"
    by (force simp: occupied_above_def bget_def dest: map_of_SomeD split: option.splits)
qed simp

lemma occupied_above_Suc:
  "bget occupied (int i) \<Longrightarrow> card (occupied_above occupied (Suc i)) < card (occupied_above occupied i)"
proof (rule psubset_card_mono[OF finite_occupied])
  assume "bget occupied (int i)"
  then have "int i \<in> occupied_above occupied i" by (simp add: occupied_above_def)
  moreover have "int i \<notin> occupied_above occupied (Suc i)" by (simp add: occupied_above_def)
  moreover have "occupied_above occupied (Suc i) \<subseteq> occupied_above occupied i"
    by (auto simp: occupied_above_def)
  ultimately show "occupied_above occupied (Suc i) \<subset> occupied_above occupied i" by blast
qed

termination create_loop
proof (relation "measures [\<lambda>(r, d, c, occ, i, t, s). t, \<lambda>(r, d, c, occ, i, t, s). card (occupied_above occ i)]")
qed (auto simp: occupied_above_Suc)

declare create_loop.simps [simp del]

fun delete_loop :: "('s, 'b) DeploymentReconciler \<Rightarrow> Pod list \<Rightarrow> ('s, unit) action" where
  "delete_loop r [] = ret ()"
| "delete_loop r (p # ps) = bindA (wrapA ''delete pod'' (delete_pod_obj r p)) (\<lambda>_. delete_loop r ps)"

text \<open>The loop of \<open>scheduleUnassigned\<close>; the pods it has changed are handed back.\<close>

fun schedule_each :: "('s, 'b, Pod) Registry \<Rightarrow> sched \<Rightarrow> NodeCandidate list \<Rightarrow> Pod list \<Rightarrow> 's \<Rightarrow>
    (unit res \<times> Pod list) \<times> 's" where
  "schedule_each pods sched candidates [] s = ((Inr (), []), s)"
| "schedule_each pods sched candidates (p # ps) s =
     (if pod_node p \<noteq> []
      then (case schedule_each pods sched candidates ps s of ((res, ps'), s') \<Rightarrow> ((res, p # ps'), s'))
      else (case schedulePod pods sched candidates p s of
              ((Inl e, p'), s') \<Rightarrow> ((Inl e, p' # ps), s')
            | ((Inr _, p'), s') \<Rightarrow>
                (case schedule_each pods sched candidates ps s' of ((res, ps'), s'') \<Rightarrow> ((res, p' # ps'), s''))))"

definition scheduleUnassigned :: "('s, 'b) DeploymentReconciler \<Rightarrow> Pod list \<Rightarrow> 's \<Rightarrow> (unit res \<times> Pod list) \<times> 's" where
  "scheduleUnassigned r pods s =
     (if filter (\<lambda>p. pod_node p = []) pods = [] then ((Inr (), pods), s)
      else (case computeNodeUsage (dr_pods r) s of
              Inl e \<Rightarrow> ((Inl (ErrWrap ''compute node usage'' e), pods), s)
            | Inr usage \<Rightarrow>
                (case buildNodeCandidates (dr_nodes r) usage s of
                   Inl e \<Rightarrow> ((Inl (ErrWrap ''list nodes'' e), pods), s)
                 | Inr candidates \<Rightarrow> schedule_each (dr_pods r) (dr_scheduler r) candidates pods s)))"

definition first_node :: "Pod list \<Rightarrow> string" where
  "first_node owned = (case filter (\<lambda>n. n \<noteq> []) (map (\<lambda>p. pod_node p) owned) of [] \<Rightarrow> [] | n # _ \<Rightarrow> n)"

fun claim_loop :: "('s, 'b) DeploymentReconciler \<Rightarrow> Deployment \<Rightarrow> string \<Rightarrow> VolumeMount list \<Rightarrow> ('s, unit) action" where
  "claim_loop r d nodeName [] s = (Inr (), s)"
| "claim_loop r d nodeName (m # mounts) s =
     (case reg_Get (dr_volumes r) (dep_namespace d) (mnt_volume_name m) s of
        Inl err \<Rightarrow> if errors_Is err ErrNotFound then claim_loop r d nodeName mounts s else (Inl err, s)
      | Inr vol \<Rightarrow>
          if VolumeStatus_GetNodeName (vol_status vol) \<noteq> [] then claim_loop r d nodeName mounts s
          else (case vol_metadata vol of
                  None \<Rightarrow> (Inl (ErrPanic ''nil pointer dereference''), s)
                | Some meta \<Rightarrow>
                    let vol' = vol\<lparr>vol_status := Some ((case vol_status vol of None \<Rightarrow> zero_VolumeStatus | Some st \<Rightarrow> st)
                                     \<lparr>volstat_node_name := nodeName\<rparr>),
                                   vol_metadata := Some (meta\<lparr>meta_labels :=
                                     AList.update OwnerDeploymentLabel (dep_name d) (meta_labels meta)\<rparr>)\<rparr>
                    in bindA (reg_Put (dr_volumes r) (dep_namespace d) (meta_name meta) vol')
                         (\<lambda>_. claim_loop r d nodeName mounts) s))"

definition claimVolumeNodes :: "('s, 'b) DeploymentReconciler \<Rightarrow> Deployment \<Rightarrow> Pod list \<Rightarrow> ('s, unit) action" where
  "claimVolumeNodes r d owned =
     (if dep_mounts d = [] then ret ()
      else if first_node owned = [] then ret ()
      else claim_loop r d (first_node owned) (dep_mounts d))"

definition wanted :: "Deployment \<Rightarrow> int" where
  "wanted d = (if dep_mounts d \<noteq> [] \<and> dep_replicas d > 1 then 1 else dep_replicas d)"

text \<open>The \<open>switch\<close>: scale up, down (a negative index panics) or not at all.\<close>

definition scale :: "('s, 'b) DeploymentReconciler \<Rightarrow> Deployment \<Rightarrow> Pod list \<Rightarrow> ('s, unit) action" where
  "scale r d owned =
     (let want = wanted d; have = int (length owned)
      in if have < want then
           bindA (if dep_mounts d \<noteq> []
                  then wrapA ''resolve volume node'' (resolveVolumeNode r (dep_namespace d) (dep_mounts d))
                  else ret [])
             (\<lambda>claimedNode. create_loop r d claimedNode (occupied_indices d owned) 0 (nat (want - have)))
         else if have > want then
           (if want < 0 then throw (ErrPanic ''index out of range'')
            else delete_loop r (drop (nat want) owned))
         else ret ())"

definition count_ready :: "Pod list \<Rightarrow> int32" where
  "count_ready owned = wrap32 (int (length (filter (\<lambda>p. pod_phase p = POD_PHASE_RUNNING) owned)))"

definition update_status :: "('s, 'b) DeploymentReconciler \<Rightarrow> Deployment \<Rightarrow> Pod list \<Rightarrow> ('s, unit) action" where
  "update_status r d owned =
     bindA (wrapA ''re-fetch deployment before status update''
              (readA (reg_Get (dr_deployments r) (dep_namespace d) (dep_name d))))
       (\<lambda>current.
          let current' = current\<lparr>dep_status := Some \<lparr>dst_replicas = wrap32 (int (length owned)),
                                                    dst_ready_replicas = count_ready owned\<rparr>\<rparr>
          in reg_Put (dr_deployments r) (dep_namespace current') (dep_name current') current')"

text \<open>An error of the placement is logged; the pods it changed stay changed.\<close>

definition place :: "('s, 'b) DeploymentReconciler \<Rightarrow> Pod list \<Rightarrow> ('s, Pod list) action" where
  "place r owned s = (case scheduleUnassigned r owned s of ((res, owned'), s') \<Rightarrow> (Inr owned', s'))"

definition reconcileOne :: "('s, 'b) DeploymentReconciler \<Rightarrow> Deployment \<Rightarrow> ('s, unit) action" where
  "reconcileOne r d =
     bindA (wrapA ''list owned pods'' (ownedPods r d)) (\<lambda>owned.
     bindA (scale r d owned) (\<lambda>_.
     bindA (wrapA ''re-list owned pods'' (ownedPods r d)) (\<lambda>owned.
     bindA (place r owned) (\<lambda>owned.
     bindA (if dep_mounts d \<noteq> [] then logA (claimVolumeNodes r d owned) else ret ()) (\<lambda>_.
     update_status r d owned)))))"

definition reconcileAll :: "('s, 'b) DeploymentReconciler \<Rightarrow> ('s, unit) action" where
  "reconcileAll r s =
     (case reg_List (dr_deployments r) [] s of
        Inl e \<Rightarrow> (Inr (), s)
      | Inr deployments \<Rightarrow> forA (\<lambda>d. logA (reconcileOne r d)) deployments s)"

section \<open>Pods by key\<close>

definition pkey :: "Pod \<Rightarrow> string" where
  "pkey p = key_of kPods (pod_namespace p) (pod_name p)"

text \<open>The keys of the pods the deployment owns in its namespace.\<close>

definition mine :: "Deployment \<Rightarrow> (string \<rightharpoonup> Pod) \<Rightarrow> string set" where
  "mine d m = {k. HasPrefix k (reg_prefix kPods (dep_namespace d)) \<and>
     (\<exists>p. m k = Some p \<and> owner_of p = dep_name d)}"

definition node_up :: "(string \<rightharpoonup> Node) \<Rightarrow> string \<Rightarrow> bool" where
  "node_up nm name \<longleftrightarrow> (\<exists>n. nm (key_of kNodes [] name) = Some n \<and> node_ready n)"

definition alive :: "(string \<rightharpoonup> Node) \<Rightarrow> Pod \<Rightarrow> bool" where
  "alive nm p \<longleftrightarrow> \<not> terminal (pod_phase p) \<and> (pod_node p \<noteq> [] \<longrightarrow> node_up nm (pod_node p))"

lemma pkey_newPod [simp]: "pkey (newPod d i) = key_of kPods (dep_namespace d) (dep_name d @ ''-'' @ Itoa i)"
  by (simp add: pkey_def newPod_def)

lemma pin_pod_fields [simp]:
  "pod_metadata (pin_pod c p) = pod_metadata p" "pod_status (pin_pod c p) = pod_status p"
  "pkey (pin_pod c p) = pkey p" "owner_of (pin_pod c p) = owner_of p"
  by (simp_all add: pin_pod_def pkey_def owner_of_def)

lemma set_fields [simp]:
  "pod_metadata (set_node n p) = pod_metadata p" "pod_metadata (set_message m p) = pod_metadata p"
  "pod_phase (set_node n p) = pod_phase p" "pod_phase (set_message m p) = pod_phase p"
  by (auto simp: set_node_def set_message_def zero_messages split: option.splits)

lemma owner_newPod [simp]: "owner_of (newPod d i) = dep_name d"
  by (simp add: owner_of_def newPod_def)

lemma mine_upd: "HasPrefix k (reg_prefix kPods (dep_namespace d)) \<Longrightarrow> owner_of p = dep_name d \<Longrightarrow>
  mine d (m(k \<mapsto> p)) = insert k (mine d m)"
  by (auto simp: mine_def)

lemma mine_del: "mine d (m(k := None)) = mine d m - {k}"
  by (auto simp: mine_def)

section \<open>The ordinals\<close>

lemma bget_occupied:
  "bget (occupied_indices d owned) k \<longleftrightarrow>
     (\<exists>p \<in> set owned. Atoi (TrimPrefix (pod_name p) (dep_name d @ ''-'')) = Some k)"
proof -
  have "bget (foldl (\<lambda>occ p. case Atoi (TrimPrefix (pod_name p) (dep_name d @ ''-'')) of
              Some idx \<Rightarrow> AList.update idx True occ | None \<Rightarrow> occ) occ owned) k \<longleftrightarrow>
        bget occ k \<or> (\<exists>p \<in> set owned. Atoi (TrimPrefix (pod_name p) (dep_name d @ ''-'')) = Some k)" for occ
    by (induction owned arbitrary: occ) (auto split: option.splits)
  then show ?thesis by (simp add: occupied_indices_def bget_def[of "[]"])
qed

lemma card_occupied: "card (occupied_above (occupied_indices d owned) i) \<le> length owned"
proof -
  have "occupied_above (occupied_indices d owned) i \<subseteq>
      (\<lambda>p. the (Atoi (TrimPrefix (pod_name p) (dep_name d @ ''-'')))) ` set owned"
    by (force simp: occupied_above_def bget_occupied)
  then have "card (occupied_above (occupied_indices d owned) i) \<le> card (set owned)"
    by (meson List.finite_set card_image_le card_mono finite_imageI le_trans)
  then show ?thesis using card_length le_trans by blast
qed

text \<open>The ordinals the creation loop uses.\<close>

function free_from :: "(int, bool) gomap \<Rightarrow> nat \<Rightarrow> nat \<Rightarrow> nat list" where
  "free_from occupied i n =
     (if n = 0 then []
      else if bget occupied (int i) then free_from occupied (Suc i) n
      else i # free_from occupied (Suc i) (n - 1))"
  by pat_completeness auto

termination free_from
proof (relation "measures [\<lambda>(occ, i, n). n, \<lambda>(occ, i, n). card (occupied_above occ i)]")
qed (auto simp: occupied_above_Suc)

declare free_from.simps [simp del]

lemma card_occupied_mono: "card (occupied_above occ (Suc i)) \<le> card (occupied_above occ i)"
  by (rule card_mono[OF finite_occupied]) (auto simp: occupied_above_def)

lemma free_from_props:
  "length (free_from occ i n) = n \<and> distinct (free_from occ i n) \<and>
   (\<forall>j \<in> set (free_from occ i n). i \<le> j \<and> \<not> bget occ (int j) \<and> j < i + card (occupied_above occ i) + n)"
proof (induction occ i n rule: free_from.induct)
  case (1 occ i n)
  consider "n = 0" | "n \<noteq> 0" "bget occ (int i)" | "n \<noteq> 0" "\<not> bget occ (int i)" by blast
  then show ?case
  proof cases
    case 1
    then show ?thesis by (subst (1 2 3) free_from.simps) simp
  next
    case 2
    then have eq: "free_from occ i n = free_from occ (Suc i) n" by (subst free_from.simps) simp
    show ?thesis
      using "1.IH"(1)[OF 2] occupied_above_Suc[OF 2(2)] unfolding eq by fastforce
  next
    case 3
    then have eq: "free_from occ i n = i # free_from occ (Suc i) (n - 1)" by (subst free_from.simps) simp
    show ?thesis
      using "1.IH"(2)[OF 3] card_occupied_mono[of occ i] 3 unfolding eq by fastforce
  qed
qed

lemma create_loop_forA:
  "create_loop r d c occ i n s =
     forA (\<lambda>j. let pod = pin_pod c (newPod d j)
       in wrapA ''create pod'' (reg_Put (dr_pods r) (pod_namespace pod) (pod_name pod) pod)) (free_from occ i n) s"
proof (induction r d c occ i n s rule: create_loop.induct)
  case (1 r d c occ i n s)
  consider "n = 0" | "n \<noteq> 0" "bget occ (int i)" | "n \<noteq> 0" "\<not> bget occ (int i)" by blast
  then show ?case
  proof cases
    case 1
    then show ?thesis by (simp add: create_loop.simps[of _ _ _ _ _ 0] free_from.simps[of _ _ 0] ret_def)
  next
    case 2
    then show ?thesis
      using "1.IH"(1)[OF 2] by (simp add: create_loop.simps[of r d c occ i n] free_from.simps[of occ i n])
  next
    case 3
    then show ?thesis
      using "1.IH"(2)[OF 3 refl]
      by (simp add: create_loop.simps[of r d c occ i n] free_from.simps[of occ i n] Let_def bindA_def
          split: prod.splits sum.splits del: wrapA_Inr)
  qed
qed

section \<open>The steps of a pass, over any store that keeps its contract\<close>

context cluster
begin

abbreviation DR :: "sched \<Rightarrow> int \<Rightarrow> ('s, 'b) DeploymentReconciler" where
  "DR sch rs \<equiv> NewDeploymentReconciler deps.R pods.R nodes.R vols.R sch rs"

lemma DR_fields [simp]:
  "dr_pods (DR sch rs) = pods.R" "dr_nodes (DR sch rs) = nodes.R"
  "dr_deployments (DR sch rs) = deps.R" "dr_volumes (DR sch rs) = vols.R" "dr_scheduler (DR sch rs) = sch"
  by (simp_all add: NewDeploymentReconciler_def)

text \<open>What a step on pods leaves alone.\<close>

definition same_rest :: "'s \<Rightarrow> 's \<Rightarrow> bool" where
  "same_rest s s' \<longleftrightarrow> nodes.objs s' = nodes.objs s \<and> deps.objs s' = deps.objs s \<and> vols.objs s' = vols.objs s"

lemma same_rest_refl [simp]: "same_rest s s"
  by (simp add: same_rest_def)

lemma same_rest_trans: "same_rest s s' \<Longrightarrow> same_rest s' s'' \<Longrightarrow> same_rest s s''"
  by (simp add: same_rest_def)

lemma put_pod_ok:
  assumes "ok s" "reg_Put pods.R (pod_namespace p) (pod_name p) p s = (r, s')"
  shows "ok s'" "same_rest s s'" "pods.objs s' \<in> {pods.objs s, (pods.objs s)(pkey p \<mapsto> p)}"
    "r = Inr () \<Longrightarrow> pods.objs s' = (pods.objs s)(pkey p \<mapsto> p)"
  using put_pod[OF assms(1), of "pod_namespace p" p "pod_name p"] assms(2)
  by (simp_all add: same_rest_def pkey_def)

lemma delete_pod_ok:
  assumes "ok s" "delete_pod_obj (DR sch rs) p s = (Inr (), s')"
  shows "ok s'" "same_rest s s'" "pods.objs s' = (pods.objs s)(pkey p := None)"
  using delete_pod[OF assms(1), of "pod_namespace p" "pod_name p"] assms(2)
  by (simp_all add: same_rest_def pkey_def delete_pod_obj_def)

lemma nodeReady_up:
  assumes "ok s"
  shows "nodeReady (DR sch rs) name s = Inr (node_up (nodes.objs s) name)"
  using nodes.reg_Get_obj_at[OF okD(1,3)[OF assms], of "[]" name]
  by (auto simp: nodeReady_def node_up_def split: option.splits)

text \<open>Pods as \<open>List\<close> gives them: under their own keys, each once.\<close>

definition listed :: "Pod list \<Rightarrow> 's \<Rightarrow> bool" where
  "listed ps s \<longleftrightarrow> distinct (map pkey ps) \<and> (\<forall>p \<in> set ps. pods.objs s (pkey p) = Some p)"

lemma list_pods:
  assumes "ok s"
  obtains all where "reg_List pods.R ns s = Inr all" "listed all s"
    "pkey ` set all = {k \<in> dom (pods.objs s). HasPrefix k (reg_prefix kPods ns)}"
proof -
  obtain ks where ks: "reg_List pods.R ns s = Inr (map (the \<circ> pods.objs s) ks)" "distinct ks"
    "set ks = {k \<in> dom (pods.objs s). HasPrefix k (reg_prefix kPods ns)}"
    using pods.reg_List_ok[OF okD(1,2)[OF assms], of ns] by blast
  let ?all = "map (the \<circ> pods.objs s) ks"
  have key: "pkey (the (pods.objs s k)) = k" and obj: "pods.objs s k = Some (the (pods.objs s k))"
    if "k \<in> set ks" for k
    using that ks(3) okD(6)[OF assms, of k] by (auto simp: pkey_def)
  have "map pkey ?all = ks" by (rule nth_equalityI) (auto simp: key)
  moreover have "pods.objs s (pkey p) = Some p" if "p \<in> set ?all" for p
    using that key obj by fastforce
  ultimately have "listed ?all s" "pkey ` set ?all = set ks"
    using ks(2) by (simp_all add: listed_def del: map_map flip: set_map)
  with ks(1,3) that show thesis by simp
qed

lemma owned_loop_ok:
  assumes "ok s" "listed all s" "owned_loop (DR sch rs) d all s = (Inr ps, s')"
  shows "ok s' \<and> same_rest s s' \<and>
    ps = filter (\<lambda>p. owner_of p = dep_name d \<and> alive (nodes.objs s) p) all \<and>
    pods.objs s' = (\<lambda>k. if k \<in> pkey ` {p \<in> set all. owner_of p = dep_name d \<and> \<not> alive (nodes.objs s) p}
      then None else pods.objs s k)"
  using assms
proof (induction all arbitrary: s ps)
  case Nil
  then show ?case by simp
next
  case (Cons p all)
  let ?r = "DR sch rs"
  have rest: "listed all s" using Cons.prems(2) by (auto simp: listed_def)
  have evict: ?case if dead: "owner_of p = dep_name d" "\<not> alive (nodes.objs s) p"
    and loop: "bindA (delete_pod_obj ?r p) (\<lambda>_. owned_loop ?r d all) s = (Inr ps, s')"
  proof -
    from loop obtain s1 where 1: "delete_pod_obj ?r p s = (Inr (), s1)" "owned_loop ?r d all s1 = (Inr ps, s')"
      by (auto simp: bindA_Inr)
    note del = delete_pod_ok[OF Cons.prems(1) 1(1)]
    have "pkey q \<noteq> pkey p" if "q \<in> set all" for q
      using Cons.prems(2) that unfolding listed_def by force
    with rest have "listed all s1" by (simp add: listed_def del(3))
    note ih = Cons.IH[OF del(1) this 1(2)]
    have nm: "nodes.objs s1 = nodes.objs s" using del(2) by (simp add: same_rest_def)
    have "pkey ` {q \<in> set (p # all). owner_of q = dep_name d \<and> \<not> alive (nodes.objs s) q} =
        insert (pkey p) (pkey ` {q \<in> set all. owner_of q = dep_name d \<and> \<not> alive (nodes.objs s) q})"
      using dead by auto
    with ih del(3) have "pods.objs s' = (\<lambda>k. if k \<in> pkey ` {q \<in> set (p # all). owner_of q = dep_name d \<and>
        \<not> alive (nodes.objs s) q} then None else pods.objs s k)"
      by (simp add: nm fun_eq_iff)
    with ih dead same_rest_trans[OF del(2)] show ?thesis by (simp add: nm)
  qed
  have keep: ?case if live: "owner_of p = dep_name d" "alive (nodes.objs s) p"
    and loop: "bindA (owned_loop ?r d all) (\<lambda>owned. ret (p # owned)) s = (Inr ps, s')"
  proof -
    from loop obtain qs where 1: "owned_loop ?r d all s = (Inr qs, s')" "ps = p # qs"
      by (auto simp: bindA_Inr ret_def)
    from Cons.IH[OF Cons.prems(1) rest 1(1)] 1(2) live show ?thesis by (auto simp: fun_eq_iff)
  qed
  show ?case
  proof (cases "owner_of p = dep_name d")
    case False
    with Cons.prems(3) have "owned_loop ?r d all s = (Inr ps, s')" by simp
    from Cons.IH[OF Cons.prems(1) rest this] False show ?thesis by (auto simp: fun_eq_iff)
  next
    case True
    then show ?thesis
      using Cons.prems(3) evict keep nodeReady_up[OF Cons.prems(1), of sch rs "pod_node p"]
      by (auto simp: Let_def alive_def split: if_splits)
  qed
qed

text \<open>\<open>ownedPods\<close> removes the dead pods of the deployment and returns exactly the others.\<close>

lemma ownedPods_ok:
  assumes "ok s" "ownedPods (DR sch rs) d s = (Inr ps, s')"
  shows "ok s'" "same_rest s s'" "listed ps s'" "pkey ` set ps = mine d (pods.objs s')"
    "\<forall>p \<in> set ps. alive (nodes.objs s) p"
    "pods.objs s' = (\<lambda>k. case pods.objs s k of None \<Rightarrow> None | Some p \<Rightarrow>
       if k \<in> mine d (pods.objs s) \<and> \<not> alive (nodes.objs s) p then None else Some p)"
proof -
  obtain all where all: "reg_List pods.R (dep_namespace d) s = Inr all" "listed all s"
    "pkey ` set all = {k \<in> dom (pods.objs s). HasPrefix k (reg_prefix kPods (dep_namespace d))}"
    by (rule list_pods[OF assms(1)])
  from assms(2) all(1) have loop: "owned_loop (DR sch rs) d all s = (Inr ps, s')"
    by (simp add: ownedPods_def actions)
  note l = owned_loop_ok[OF assms(1) all(2) loop]
  let ?dead = "pkey ` {p \<in> set all. owner_of p = dep_name d \<and> \<not> alive (nodes.objs s) p}"
  from l show "ok s'" "same_rest s s'" by simp_all
  from l have ps: "ps = filter (\<lambda>p. owner_of p = dep_name d \<and> alive (nodes.objs s) p) all"
    and m: "pods.objs s' = (\<lambda>k. if k \<in> ?dead then None else pods.objs s k)" by simp_all
  from ps show "\<forall>p \<in> set ps. alive (nodes.objs s) p" by simp
  have obj: "pods.objs s (pkey p) = Some p" if "p \<in> set all" for p
    using all(2) that by (simp add: listed_def)
  have "pkey p \<notin> ?dead" if "p \<in> set ps" for p
  proof
    assume "pkey p \<in> ?dead"
    then obtain q where "q \<in> set all" "\<not> alive (nodes.objs s) q" "pkey p = pkey q" by blast
    with obj[of p] obj[of q] that show False by (simp add: ps)
  qed
  moreover have "distinct (map pkey ps)"
    using all(2) by (simp add: listed_def ps distinct_map_filter)
  ultimately show li: "listed ps s'"
    using obj by (auto simp: listed_def m ps)
  have dead: "k \<in> ?dead \<longleftrightarrow> k \<in> mine d (pods.objs s) \<and> \<not> alive (nodes.objs s) p" if "pods.objs s k = Some p" for k p
  proof
    assume "k \<in> ?dead"
    then obtain q where q: "q \<in> set all" "owner_of q = dep_name d" "\<not> alive (nodes.objs s) q" "k = pkey q" by blast
    from q(1,4) all(3) have "k \<in> {k \<in> dom (pods.objs s). HasPrefix k (reg_prefix kPods (dep_namespace d))}"
      by blast
    with q obj[OF q(1)] that show "k \<in> mine d (pods.objs s) \<and> \<not> alive (nodes.objs s) p"
      by (auto simp: mine_def)
  next
    assume k: "k \<in> mine d (pods.objs s) \<and> \<not> alive (nodes.objs s) p"
    with that have "k \<in> pkey ` set all" unfolding all(3) by (auto simp: mine_def)
    then obtain q where "q \<in> set all" "k = pkey q" by blast
    with k that obj[of q] show "k \<in> ?dead" by (auto simp: mine_def)
  qed
  then show m': "pods.objs s' = (\<lambda>k. case pods.objs s k of None \<Rightarrow> None | Some p \<Rightarrow>
       if k \<in> mine d (pods.objs s) \<and> \<not> alive (nodes.objs s) p then None else Some p)"
    unfolding m by (auto simp: fun_eq_iff split: option.splits)
  show "pkey ` set ps = mine d (pods.objs s')"
  proof (rule set_eqI)
    fix k
    show "k \<in> pkey ` set ps \<longleftrightarrow> k \<in> mine d (pods.objs s')"
    proof
      assume "k \<in> pkey ` set ps"
      then obtain p where p: "p \<in> set ps" "k = pkey p" by blast
      then have "p \<in> set all" "owner_of p = dep_name d" "pods.objs s' k = Some p"
        using li by (simp_all add: ps listed_def)
      moreover have "k \<in> pkey ` set all" using p(2) \<open>p \<in> set all\<close> by blast
      ultimately show "k \<in> mine d (pods.objs s')" unfolding all(3) by (auto simp: mine_def)
    next
      assume k: "k \<in> mine d (pods.objs s')"
      then obtain p where p: "pods.objs s' k = Some p" "owner_of p = dep_name d"
        "HasPrefix k (reg_prefix kPods (dep_namespace d))" by (auto simp: mine_def)
      from p(1) have sk: "pods.objs s k = Some p" "\<not> (k \<in> mine d (pods.objs s) \<and> \<not> alive (nodes.objs s) p)"
        unfolding m' by (auto split: option.splits if_splits)
      with p have "alive (nodes.objs s) p" by (auto simp: mine_def)
      moreover have "k \<in> pkey ` set all" unfolding all(3) using sk(1) p(3) by auto
      then have "p \<in> set all" "k = pkey p" using obj sk(1) by auto
      ultimately show "k \<in> pkey ` set ps" using p(2) by (simp add: ps)
    qed
  qed
qed

section \<open>Scaling\<close>

lemma create_each_ok:
  assumes "ok s" "forA (\<lambda>j. let pod = pin_pod c (newPod d j)
     in wrapA ''create pod'' (reg_Put (dr_pods (DR sch rs)) (pod_namespace pod) (pod_name pod) pod)) js s = (Inr (), s')"
  shows "ok s' \<and> same_rest s s' \<and>
    pods.objs s' = fold (\<lambda>j m. m(pkey (newPod d j) \<mapsto> pin_pod c (newPod d j))) js (pods.objs s)"
  using assms
proof (induction js arbitrary: s)
  case Nil
  then show ?case by (simp add: ret_def)
next
  case (Cons j js)
  let ?p = "pin_pod c (newPod d j)"
  from Cons.prems(2) obtain s1 where put: "reg_Put pods.R (pod_namespace ?p) (pod_name ?p) ?p s = (Inr (), s1)"
    and rest: "forA (\<lambda>j. let pod = pin_pod c (newPod d j)
     in wrapA ''create pod'' (reg_Put (dr_pods (DR sch rs)) (pod_namespace pod) (pod_name pod) pod)) js s1 = (Inr (), s')"
    by (auto simp: Let_def bindA_Inr)
  note p = put_pod_ok[OF Cons.prems(1) put]
  from Cons.IH[OF p(1) rest] p(4) same_rest_trans[OF p(2)] show ?case
    by (simp del: pkey_newPod)
qed

lemma delete_loop_ok:
  assumes "ok s" "delete_loop (DR sch rs) ps s = (Inr (), s')"
  shows "ok s' \<and> same_rest s s' \<and> pods.objs s' = (\<lambda>k. if k \<in> pkey ` set ps then None else pods.objs s k)"
  using assms
proof (induction ps arbitrary: s)
  case Nil
  then show ?case by (simp add: ret_def)
next
  case (Cons p ps)
  from Cons.prems(2) obtain s1 where del: "delete_pod_obj (DR sch rs) p s = (Inr (), s1)"
    and rest: "delete_loop (DR sch rs) ps s1 = (Inr (), s')"
    by (auto simp: bindA_Inr wrapA_def split: prod.splits sum.splits)
  note d = delete_pod_ok[OF Cons.prems(1) del]
  from Cons.IH[OF d(1) rest] d(3) same_rest_trans[OF d(2)] show ?case
    by (auto simp: fun_eq_iff)
qed

end

lemma fold_upd_notin:
  "k \<notin> f ` set js \<Longrightarrow> fold (\<lambda>j m. m(f j \<mapsto> g j)) js m k = m k"
  by (induction js arbitrary: m) auto

lemma fold_upd_inj:
  assumes "inj_on f (set js)" "j \<in> set js"
  shows "fold (\<lambda>j m. m(f j \<mapsto> g j)) js m (f j) = Some (g j)"
  using assms
proof (induction js rule: rev_induct)
  case (snoc x js)
  show ?case
  proof (cases "j = x")
    case False
    with snoc.prems have "f j \<noteq> f x" "j \<in> set js" "inj_on f (set js)"
      by (auto simp: inj_on_def)
    with snoc.IH show ?thesis by simp
  qed simp
qed simp

lemma newPod_prefix: "HasPrefix (pkey (newPod d j)) (reg_prefix kPods (dep_namespace d))"
  by simp

lemma pkey_newPod_inj: "inj (\<lambda>j. pkey (newPod d j))"
  by (simp add: inj_def)

text \<open>Names without slashes: a key then determines namespace and name.\<close>

definition clean_pod :: "Pod \<Rightarrow> bool" where
  "clean_pod p \<longleftrightarrow> no_slash (pod_namespace p) \<and> no_slash (pod_name p)"

definition clean_dep :: "Deployment \<Rightarrow> bool" where
  "clean_dep d \<longleftrightarrow> no_slash (dep_namespace d) \<and> no_slash (dep_name d)"

text \<open>A free ordinal names no pod that the deployment has.\<close>

lemma free_ordinal:
  assumes "clean_dep d" "p \<in> set owned" "clean_pod p" "\<not> bget (occupied_indices d owned) (int j)"
    "int j \<le> MaxInt64"
  shows "pkey p \<noteq> pkey (newPod d j)"
proof
  assume "pkey p = pkey (newPod d j)"
  with assms(1,3) have "pod_name p = (dep_name d @ ''-'') @ Itoa j"
    unfolding pkey_def
    by (auto simp: newPod_def clean_dep_def clean_pod_def key_of_eq_ns no_slash_def[of "CHR ''-'' # _"]
        Itoa_no_slash)
  then have "Atoi (TrimPrefix (pod_name p) (dep_name d @ ''-'')) = Some (int j)"
    using Atoi_Itoa[OF assms(5)] by (simp only: TrimPrefix_append)
  with assms(2,4) show False by (auto simp: bget_occupied)
qed

text \<open>What placement may do to a pod: a message, or a node that is up.\<close>

definition placed :: "(string \<rightharpoonup> Node) \<Rightarrow> Pod \<Rightarrow> Pod \<Rightarrow> bool" where
  "placed nm p q \<longleftrightarrow> pod_metadata q = pod_metadata p \<and> pod_phase q = pod_phase p \<and>
     (pod_node q = pod_node p \<or> node_up nm (pod_node q))"

lemma placed_refl [simp]: "placed nm p p"
  by (simp add: placed_def)

lemma placed_alive: "placed nm p q \<Longrightarrow> alive nm p \<Longrightarrow> alive nm q"
  by (auto simp: placed_def alive_def)

lemma placed_key: "placed nm p q \<Longrightarrow> pkey q = pkey p \<and> owner_of q = owner_of p"
  by (simp add: placed_def pkey_def owner_of_def)

definition dep_key :: "Deployment \<Rightarrow> string" where
  "dep_key d = key_of kDeployments (dep_namespace d) (dep_name d)"

text \<open>The node a new pod is pinned to, by a volume or by the template.\<close>

definition target_node :: "string \<Rightarrow> Deployment \<Rightarrow> string" where
  "target_node claimed d = (if claimed \<noteq> [] then claimed else PodSpec_GetNodeName (dep_template d))"

lemma alive_newPod:
  "target_node c d = [] \<or> node_up nm (target_node c d) \<Longrightarrow> alive nm (pin_pod c (newPod d j))"
  by (cases "dep_template d")
    (auto simp: alive_def target_node_def pin_pod_def newPod_def terminal_def zero_messages)

text \<open>The nodes that new pods may be pinned to are up.\<close>

definition targets_up :: "(string \<rightharpoonup> Node) \<Rightarrow> (string \<rightharpoonup> Volume) \<Rightarrow> Deployment \<Rightarrow> bool" where
  "targets_up nm vm d \<longleftrightarrow>
     (PodSpec_GetNodeName (dep_template d) = [] \<or> node_up nm (PodSpec_GetNodeName (dep_template d))) \<and>
     (\<forall>m \<in> set (dep_mounts d). \<forall>vol. vm (key_of kVolumes (dep_namespace d) (mnt_volume_name m)) = Some vol \<longrightarrow>
        VolumeStatus_GetNodeName (vol_status vol) = [] \<or> node_up nm (VolumeStatus_GetNodeName (vol_status vol)))"

context cluster
begin

lemma card_listed: "listed ps s \<Longrightarrow> card (pkey ` set ps) = length ps"
  by (metis listed_def distinct_card length_map list.set_map)

lemma scale_up_ok:
  assumes "ok s" "listed owned s" "pkey ` set owned = mine d (pods.objs s)"
    and live: "\<forall>p \<in> set owned. alive (nodes.objs s) p"
    and less: "int (length owned) < wanted d" "wanted d \<le> MaxInt32"
    and clean: "clean_dep d" "\<forall>p \<in> set owned. clean_pod p"
    and target: "target_node c d = [] \<or> node_up (nodes.objs s) (target_node c d)"
    and loop: "create_loop (DR sch rs) d c (occupied_indices d owned) 0 (nat (wanted d - int (length owned))) s = (Inr (), s')"
  shows "ok s' \<and> same_rest s s' \<and> int (card (mine d (pods.objs s'))) = wanted d \<and>
    (\<forall>k \<in> mine d (pods.objs s'). \<forall>p. pods.objs s' k = Some p \<longrightarrow> alive (nodes.objs s) p) \<and>
    (\<forall>k. k \<notin> range (\<lambda>j. pkey (newPod d j)) \<longrightarrow> pods.objs s' k = pods.objs s k) \<and>
    (\<forall>p \<in> set owned. pods.objs s' (pkey p) = Some p)"
proof -
  let ?js = "free_from (occupied_indices d owned) 0 (nat (wanted d - int (length owned)))"
  let ?f = "\<lambda>j. pkey (newPod d j)"
  note fr = free_from_props[of "occupied_indices d owned" 0 "nat (wanted d - int (length owned))"]
  note cr = create_each_ok[OF assms(1) loop[unfolded create_loop_forA]]
  have m': "pods.objs s' = fold (\<lambda>j m. m(?f j \<mapsto> pin_pod c (newPod d j))) ?js (pods.objs s)"
    using cr by blast
  have new: "pods.objs s' (?f j) = Some (pin_pod c (newPod d j))" if "j \<in> set ?js" for j
    unfolding m' by (rule fold_upd_inj[OF inj_on_subset[OF pkey_newPod_inj] that]) simp
  have old: "pods.objs s' k = pods.objs s k" if "k \<notin> ?f ` set ?js" for k
    unfolding m' by (rule fold_upd_notin[OF that])
  have "int j < MaxInt32" if "j \<in> set ?js" for j
    using fr that card_occupied[of d owned 0] less by force
  then have fresh: "pkey p \<noteq> ?f j" if "p \<in> set owned" "j \<in> set ?js" for p j
    using free_ordinal[OF clean(1) that(1)] clean(2) fr that by (force simp: MaxInt32_def MaxInt64_def)
  then have disj: "mine d (pods.objs s) \<inter> ?f ` set ?js = {}"
    unfolding assms(3)[symmetric] by blast
  have mine': "mine d (pods.objs s') = mine d (pods.objs s) \<union> ?f ` set ?js"
  proof (rule set_eqI)
    fix k
    show "k \<in> mine d (pods.objs s') \<longleftrightarrow> k \<in> mine d (pods.objs s) \<union> ?f ` set ?js"
    proof (cases "k \<in> ?f ` set ?js")
      case True
      then obtain j where "j \<in> set ?js" "k = ?f j" by blast
      with new[of j] newPod_prefix[of d j] True show ?thesis by (simp add: mine_def del: pkey_newPod)
    next
      case False
      with old[of k] show ?thesis by (simp add: mine_def)
    qed
  qed
  have "card (?f ` set ?js) = nat (wanted d - int (length owned))"
    using fr card_image[OF inj_on_subset[OF pkey_newPod_inj], of "set ?js" d] by (simp add: distinct_card)
  moreover have "card (mine d (pods.objs s)) = length owned"
    using card_listed[OF assms(2)] assms(3) by simp
  moreover have "finite (mine d (pods.objs s))"
    unfolding assms(3)[symmetric] by simp
  ultimately have "int (card (mine d (pods.objs s'))) = wanted d"
    using disj less by (simp add: mine' card_Un_disjoint)
  moreover have "alive (nodes.objs s) p" if "k \<in> mine d (pods.objs s')" "pods.objs s' k = Some p" for k p
  proof (cases "k \<in> ?f ` set ?js")
    case True
    then obtain j where "j \<in> set ?js" "k = ?f j" by blast
    with new that alive_newPod[OF target] show ?thesis by fastforce
  next
    case False
    with that mine' old assms(3) obtain q where "q \<in> set owned" "k = pkey q" by blast
    with live assms(2) old[OF False] that(2) show ?thesis by (auto simp: listed_def)
  qed
  moreover have "pods.objs s' (pkey p) = Some p" if "p \<in> set owned" for p
    using fresh[OF that] old[of "pkey p"] assms(2) that by (auto simp: listed_def)
  moreover have "pods.objs s' k = pods.objs s k" if "k \<notin> range ?f" for k
    using old[of k] that by blast
  ultimately show ?thesis using cr by blast
qed

lemma scale_down_ok:
  assumes "ok s" "listed owned s" "pkey ` set owned = mine d (pods.objs s)"
    and live: "\<forall>p \<in> set owned. alive (nodes.objs s) p"
    and more: "0 \<le> n" "n \<le> int (length owned)"
    and loop: "delete_loop (DR sch rs) (drop (nat n) owned) s = (Inr (), s')"
  shows "ok s' \<and> same_rest s s' \<and> int (card (mine d (pods.objs s'))) = n \<and>
    (\<forall>k \<in> mine d (pods.objs s'). \<forall>p. pods.objs s' k = Some p \<longrightarrow> alive (nodes.objs s) p) \<and>
    (\<forall>k. k \<notin> mine d (pods.objs s) \<longrightarrow> pods.objs s' k = pods.objs s k)"
proof -
  note del = delete_loop_ok[OF assms(1) loop]
  have d: "distinct (map pkey owned)" and obj: "\<forall>p \<in> set owned. pods.objs s (pkey p) = Some p"
    using assms(2) by (auto simp: listed_def)
  let ?keep = "pkey ` set (take (nat n) owned)" and ?gone = "pkey ` set (drop (nat n) owned)"
  have "?keep \<union> ?gone = mine d (pods.objs s)"
    by (metis append_take_drop_id assms(3) image_Un set_append)
  moreover have "?keep \<inter> ?gone = {}"
    using d by (metis append_take_drop_id distinct_append list.set_map map_append)
  ultimately have mine': "mine d (pods.objs s') = ?keep"
    using del unfolding mine_def by (auto split: if_splits)
  have "card ?keep = nat n"
    using d more by (metis distinct_card distinct_take length_map length_take list.set_map min.absorb2 nat_le_iff take_map)
  moreover have "alive (nodes.objs s) p" if "k \<in> mine d (pods.objs s')" "pods.objs s' k = Some p" for k p
    using that del obj live mine' by (auto split: if_splits dest: in_set_takeD)
  moreover have "pods.objs s' k = pods.objs s k" if "k \<notin> mine d (pods.objs s)" for k
    using that del \<open>?keep \<union> ?gone = mine d (pods.objs s)\<close> by auto
  ultimately show ?thesis using del more(1) mine' by simp
qed

section \<open>Placement\<close>

lemma candidate_up:
  assumes "ok s" "buildNodeCandidates nodes.R usage s = Inr cs" "Schedule req cs = Inr name"
  shows "node_up (nodes.objs s) name"
proof -
  from assms(3) schedule_loop_None[of req cs None "-1"] obtain c where c: "c \<in> set cs" "nc_Name c = name"
    by (auto simp: Schedule_def split: option.splits)
  obtain ks where ks: "reg_List nodes.R [] s = Inr (map (the \<circ> nodes.objs s) ks)"
    "set ks = {k \<in> dom (nodes.objs s). HasPrefix k (reg_prefix kNodes [])}"
    using nodes.reg_List_ok[OF okD(1,3)[OF assms(1)], of "[]"] by blast
  from assms(2) ks(1) have "cs = candidate_loop (map (the \<circ> nodes.objs s) ks) usage"
    by (simp add: buildNodeCandidates_def)
  with candidate_loop_mem c(1) obtain n where n: "n \<in> set (map (the \<circ> nodes.objs s) ks)"
    "node_ready n" "c = candidate_of n usage" by blast
  from n(1) ks(2) obtain k where "nodes.objs s k = Some n" by auto
  with okD(7)[OF assms(1), of k n] n(2,3) c(2) show ?thesis
    by (auto simp: node_up_def candidate_of_def Let_def)
qed

lemma schedulePod_ok:
  assumes "ok s" and up: "\<And>req name. Schedule req cs = Inr name \<Longrightarrow> node_up nm name"
    and run: "schedulePod pods.R Schedule cs p s = ((res, q), s')"
  shows "ok s' \<and> same_rest s s' \<and> placed nm p q \<and> pods.objs s' \<in> {pods.objs s, (pods.objs s)(pkey p \<mapsto> q)}"
proof -
  have put: "ok t' \<and> same_rest t t' \<and> placed nm p q \<and> pods.objs t' \<in> {pods.objs t, (pods.objs t)(pkey p \<mapsto> q)}"
    if "ok t" "placed nm p q" "wrapA m (reg_Put pods.R (pod_namespace q) (pod_name q) q) t = (res, t')" for t t' m
  proof -
    from that(3) have "t' = snd (reg_Put pods.R (pod_namespace q) (pod_name q) q t)"
      by (metis snd_conv snd_wrapA)
    then obtain r where "reg_Put pods.R (pod_namespace q) (pod_name q) q t = (r, t')"
      by (metis prod.collapse)
    from put_pod_ok[OF that(1) this] placed_key[OF that(2)] that(2) show ?thesis by simp
  qed
  show ?thesis
  proof (cases "Schedule (pod_request p) cs")
    case (Inl e)
    let ?msg = "pending_message (pr_ContainerPorts (pod_request p))"
    show ?thesis
    proof (cases "pod_message p = ?msg")
      case True
      with run Inl assms(1) show ?thesis by (simp add: schedulePod_def Let_def)
    next
      case False
      have "placed nm p (set_message ?msg p)"
        by (simp add: placed_def) (simp add: set_message_def)
      moreover from False run Inl have "q = set_message ?msg p"
        "wrapA ''record pending reason for pod'' (reg_Put pods.R (pod_namespace q) (pod_name q) q) s = (res, s')"
        by (auto simp: schedulePod_def Let_def split: prod.splits)
      ultimately show ?thesis using put[OF assms(1)] by blast
    qed
  next
    case (Inr name)
    let ?p1 = "set_node name p"
    have "pod_node (set_message m ?p1) = name" "pod_node ?p1 = name" for m
      by (simp_all add: set_message_def set_node_def)
    then have pl: "placed nm p (if pod_message ?p1 \<noteq> [] then set_message [] ?p1 else ?p1)"
      using up[OF Inr] by (simp add: placed_def)
    from run Inr have "q = (if pod_message ?p1 \<noteq> [] then set_message [] ?p1 else ?p1)"
      "wrapA ''assign pod to node'' (reg_Put pods.R (pod_namespace q) (pod_name q) q) s = (res, s')"
      by (auto simp: schedulePod_def Let_def simp del: set_fields split: prod.splits)
    with pl put[OF assms(1)] show ?thesis by blast
  qed
qed

lemma schedule_each_ok:
  assumes "ok s" and up: "\<And>req name. Schedule req cs = Inr name \<Longrightarrow> node_up nm name"
    and "listed ps s" "schedule_each pods.R Schedule cs ps s = ((res, qs), s')"
  shows "ok s' \<and> same_rest s s' \<and> list_all2 (placed nm) ps qs \<and>
    (\<forall>k. k \<notin> pkey ` set ps \<longrightarrow> pods.objs s' k = pods.objs s k) \<and>
    (\<forall>p \<in> set ps. \<exists>q. placed nm p q \<and> pods.objs s' (pkey p) = Some q)"
  using assms(1,3,4)
proof (induction ps arbitrary: s res qs s')
  case Nil
  then show ?case by simp
next
  case (Cons p ps)
  have fresh: "pkey q \<noteq> pkey p" if "q \<in> set ps" for q
    using Cons.prems(2) that unfolding listed_def by force
  have p: "pods.objs s (pkey p) = Some p" and li: "listed ps s"
    using Cons.prems(2) by (auto simp: listed_def)
  have all2: "list_all2 (placed nm) xs xs" for xs by (simp add: list_all2_same)
  show ?case
  proof (cases "pod_node p = []")
    case False
    then obtain rs qs' where e: "schedule_each pods.R Schedule cs ps s = ((rs, qs'), s')" "qs = p # qs'"
      using Cons.prems(3) by (auto split: prod.splits)
    note ih = Cons.IH[OF Cons.prems(1) li e(1)]
    have "pkey p \<notin> pkey ` set ps" using fresh by force
    with ih p have "placed nm p p \<and> pods.objs s' (pkey p) = Some p" by simp
    with ih e(2) show ?thesis by auto
  next
    case True
    obtain r1 p' s1 where sp: "schedulePod pods.R Schedule cs p s = ((r1, p'), s1)"
      by (metis surj_pair)
    from schedulePod_ok[OF Cons.prems(1) up sp] have 1: "ok s1" "same_rest s s1" "placed nm p p'"
      "pods.objs s1 \<in> {pods.objs s, (pods.objs s)(pkey p \<mapsto> p')}" by auto
    have key1: "\<exists>q. placed nm p q \<and> pods.objs s1 (pkey p) = Some q"
      using 1(3,4) p by (auto intro: exI[of _ p])
    have old1: "pods.objs s1 k = pods.objs s k" if "k \<noteq> pkey p" for k
      using 1(4) that by auto
    show ?thesis
    proof (cases r1)
      case (Inl e)
      with Cons.prems(3) True sp have "qs = p' # ps" "s' = s1" by auto
      moreover have "\<exists>q'. placed nm q q' \<and> pods.objs s1 (pkey q) = Some q'" if "q \<in> set ps" for q
        using that fresh old1 li by (auto simp: listed_def intro: exI[of _ q])
      ultimately show ?thesis using 1 all2 key1 old1 by auto
    next
      case (Inr u)
      then obtain rs qs' where e: "schedule_each pods.R Schedule cs ps s1 = ((rs, qs'), s')" "qs = p' # qs'"
        using Cons.prems(3) True sp by (auto split: prod.splits)
      have li1: "listed ps s1" using li fresh old1 by (simp add: listed_def)
      note ih = Cons.IH[OF 1(1) li1 e(1)]
      have "pkey p \<notin> pkey ` set ps" using fresh by force
      with ih key1 have "\<exists>q. placed nm p q \<and> pods.objs s' (pkey p) = Some q" by simp
      with ih e(2) 1(3) same_rest_trans[OF 1(2)] old1 show ?thesis by auto
    qed
  qed
qed

lemma scheduleUnassigned_ok:
  assumes "ok s" "listed ps s" "scheduleUnassigned (DR Schedule rs) ps s = ((res, qs), s')"
  shows "ok s' \<and> same_rest s s' \<and> list_all2 (placed (nodes.objs s)) ps qs \<and>
    (\<forall>k. k \<notin> pkey ` set ps \<longrightarrow> pods.objs s' k = pods.objs s k) \<and>
    (\<forall>p \<in> set ps. \<exists>q. placed (nodes.objs s) p q \<and> pods.objs s' (pkey p) = Some q)"
proof -
  have all2: "list_all2 (placed (nodes.objs s)) xs xs" for xs by (simp add: list_all2_same)
  have same: ?thesis if "qs = ps" "s' = s"
    using that assms(1,2) all2 by (auto simp: listed_def)
  show ?thesis
  proof (cases "\<exists>usage cs. computeNodeUsage pods.R s = Inr usage \<and> buildNodeCandidates nodes.R usage s = Inr cs \<and>
      filter (\<lambda>p. pod_node p = []) ps \<noteq> []")
    case True
    then obtain usage cs where 1: "computeNodeUsage pods.R s = Inr usage" "buildNodeCandidates nodes.R usage s = Inr cs"
      "filter (\<lambda>p. pod_node p = []) ps \<noteq> []" by blast
    with assms(3) have "schedule_each pods.R Schedule cs ps s = ((res, qs), s')"
      by (simp add: scheduleUnassigned_def)
    from schedule_each_ok[OF assms(1) candidate_up[OF assms(1) 1(2)] assms(2) this] show ?thesis .
  next
    case False
    with assms(3) show ?thesis
      by (intro same) (auto simp: scheduleUnassigned_def split: if_splits sum.splits)
  qed
qed

section \<open>Volume claims\<close>

lemma claim_loop_ok:
  assumes "ok s"
  shows "ok (snd (claim_loop (DR sch rs) d n ms s)) \<and>
    pods.objs (snd (claim_loop (DR sch rs) d n ms s)) = pods.objs s \<and>
    nodes.objs (snd (claim_loop (DR sch rs) d n ms s)) = nodes.objs s \<and>
    deps.objs (snd (claim_loop (DR sch rs) d n ms s)) = deps.objs s"
  using assms
proof (induction ms arbitrary: s)
  case Nil
  then show ?case by simp
next
  case (Cons m ms)
  have step: "ok (snd (bindA (reg_Put vols.R ns nm v) (\<lambda>_. claim_loop (DR sch rs) d n ms) s)) \<and>
      pods.objs (snd (bindA (reg_Put vols.R ns nm v) (\<lambda>_. claim_loop (DR sch rs) d n ms) s)) = pods.objs s \<and>
      nodes.objs (snd (bindA (reg_Put vols.R ns nm v) (\<lambda>_. claim_loop (DR sch rs) d n ms) s)) = nodes.objs s \<and>
      deps.objs (snd (bindA (reg_Put vols.R ns nm v) (\<lambda>_. claim_loop (DR sch rs) d n ms) s)) = deps.objs s"
    for ns nm v
  proof -
    obtain r s1 where p: "reg_Put vols.R ns nm v s = (r, s1)" by fastforce
    with put_vol[OF Cons.prems, of ns nm v] have "ok s1" "pods.objs s1 = pods.objs s"
      "nodes.objs s1 = nodes.objs s" "deps.objs s1 = deps.objs s" by simp_all
    with Cons.IH[of s1] p show ?thesis by (cases r) (simp_all add: bindA_def)
  qed
  show ?case
    using Cons step by (auto simp: Let_def split: sum.splits option.splits)
qed

lemma claimVolumeNodes_ok:
  assumes "ok s"
  shows "ok (snd (claimVolumeNodes (DR sch rs) d ps s)) \<and>
    pods.objs (snd (claimVolumeNodes (DR sch rs) d ps s)) = pods.objs s \<and>
    nodes.objs (snd (claimVolumeNodes (DR sch rs) d ps s)) = nodes.objs s \<and>
    deps.objs (snd (claimVolumeNodes (DR sch rs) d ps s)) = deps.objs s"
  using claim_loop_ok[OF assms] assms by (simp add: claimVolumeNodes_def)

section \<open>Status\<close>

lemma update_status_ok:
  assumes "ok s" "update_status (DR sch rs) d ps s = (Inr (), s')"
  shows "ok s' \<and> pods.objs s' = pods.objs s \<and> nodes.objs s' = nodes.objs s \<and>
    (\<exists>cur. deps.objs s (dep_key d) = Some cur \<and> deps.objs s' (dep_key d) =
       Some (cur\<lparr>dep_status := Some \<lparr>dst_replicas = wrap32 (int (length ps)), dst_ready_replicas = count_ready ps\<rparr>\<rparr>))"
proof -
  let ?upd = "\<lambda>cur. cur\<lparr>dep_status := Some \<lparr>dst_replicas = wrap32 (int (length ps)), dst_ready_replicas = count_ready ps\<rparr>\<rparr>"
  from assms(2) obtain cur where get: "reg_Get deps.R (dep_namespace d) (dep_name d) s = Inr cur"
    and put: "reg_Put deps.R (dep_namespace cur) (dep_name cur) (?upd cur) s = (Inr (), s')"
    by (auto simp: update_status_def bindA_Inr Let_def)
  from get have cur: "deps.objs s (dep_key d) = Some cur"
    using deps.reg_Get_obj_at[OF okD(1,4)[OF assms(1)], of "dep_namespace d" "dep_name d"]
    by (simp add: dep_key_def split: option.splits)
  from okD(8)[OF assms(1) cur] have "dep_key d = key_of kDeployments (dep_namespace cur) (dep_name cur)"
    by (simp add: dep_key_def)
  with put_dep[OF assms(1), of "dep_namespace cur" "?upd cur" "dep_name cur"] put cur show ?thesis by auto
qed

section \<open>A whole pass\<close>

lemma resolve_loop_target:
  assumes "ok s" "\<forall>m \<in> set ms. \<forall>vol. vols.objs s (key_of kVolumes ns (mnt_volume_name m)) = Some vol \<longrightarrow>
      VolumeStatus_GetNodeName (vol_status vol) = [] \<or> node_up (nodes.objs s) (VolumeStatus_GetNodeName (vol_status vol))"
    "resolve_loop (DR sch rs) ns ms s = Inr c"
  shows "c = [] \<or> node_up (nodes.objs s) c"
  using assms(2,3)
proof (induction ms)
  case (Cons m ms)
  show ?case
    using Cons vols.reg_Get_obj_at[OF okD(1,5)[OF assms(1)], of ns "mnt_volume_name m"]
    by (auto simp: Let_def split: option.splits if_splits)
qed simp

lemma scale_ok:
  assumes "ok s" "listed owned s" "pkey ` set owned = mine d (pods.objs s)"
    and live: "\<forall>p \<in> set owned. alive (nodes.objs s) p"
    and rep: "0 \<le> dep_replicas d" "in32 (dep_replicas d)"
    and clean: "clean_dep d" "\<forall>p \<in> set owned. clean_pod p" and up: "targets_up (nodes.objs s) (vols.objs s) d"
    and run: "scale (DR sch rs) d owned s = (Inr (), s')"
  shows "ok s' \<and> same_rest s s' \<and> int (card (mine d (pods.objs s'))) = wanted d \<and>
    (\<forall>k \<in> mine d (pods.objs s'). \<forall>p. pods.objs s' k = Some p \<longrightarrow> alive (nodes.objs s) p) \<and>
    (\<forall>k. k \<notin> range (\<lambda>j. pkey (newPod d j)) \<longrightarrow> k \<notin> mine d (pods.objs s) \<longrightarrow> pods.objs s' k = pods.objs s k)"
proof -
  have w: "0 \<le> wanted d" "wanted d \<le> MaxInt32"
    using rep by (auto simp: wanted_def in32_def MaxInt32_def)
  consider (up) "int (length owned) < wanted d" | (down) "wanted d < int (length owned)" | (eq) "wanted d = int (length owned)"
    by linarith
  then show ?thesis
  proof cases
    case up': up
    then obtain c where c: "if dep_mounts d \<noteq> [] then resolve_loop (DR sch rs) (dep_namespace d) (dep_mounts d) s = Inr c else c = []"
      and loop: "create_loop (DR sch rs) d c (occupied_indices d owned) 0 (nat (wanted d - int (length owned))) s = (Inr (), s')"
      using run by (cases "dep_mounts d = []")
        (auto simp: scale_def Let_def bindA_Inr resolveVolumeNode_def)
    have "c = [] \<or> node_up (nodes.objs s) c"
      using c up resolve_loop_target[OF assms(1), of "dep_mounts d" "dep_namespace d"]
      by (auto simp: targets_up_def split: if_splits)
    with up have "target_node c d = [] \<or> node_up (nodes.objs s) (target_node c d)"
      by (auto simp: target_node_def targets_up_def)
    from scale_up_ok[OF assms(1-4) up' w(2) clean this loop] show ?thesis by blast
  next
    case down
    then have loop: "delete_loop (DR sch rs) (drop (nat (wanted d)) owned) s = (Inr (), s')"
      using run w(1) by (simp add: scale_def Let_def)
    from scale_down_ok[OF assms(1-4) w(1) less_imp_le[OF down] loop] show ?thesis by blast
  next
    case eq
    then have "s' = s" using run by (simp add: scale_def Let_def ret_def)
    moreover have "card (mine d (pods.objs s)) = length owned"
      using card_listed[OF assms(2)] assms(3) by simp
    moreover have "alive (nodes.objs s) p" if "k \<in> mine d (pods.objs s)" "pods.objs s k = Some p" for k p
      using that live assms(2) unfolding assms(3)[symmetric] listed_def by auto
    ultimately show ?thesis using assms(1) eq by simp
  qed
qed

text \<open>Placement keeps the set of owned pods, and keeps them alive.\<close>

lemma place_ok:
  assumes "ok s" "listed ps s" "pkey ` set ps = mine d (pods.objs s)" "\<forall>p \<in> set ps. alive (nodes.objs s) p"
    and run: "place (DR Schedule rs) ps s = (Inr qs, s')"
  shows "ok s' \<and> same_rest s s' \<and> length qs = length ps \<and> mine d (pods.objs s') = mine d (pods.objs s) \<and>
    (\<forall>k \<in> mine d (pods.objs s'). \<forall>p. pods.objs s' k = Some p \<longrightarrow> alive (nodes.objs s) p) \<and>
    (\<forall>k. k \<notin> mine d (pods.objs s) \<longrightarrow> pods.objs s' k = pods.objs s k)"
proof -
  from run obtain res where "scheduleUnassigned (DR Schedule rs) ps s = ((res, qs), s')"
    by (auto simp: place_def split: prod.splits)
  note p = scheduleUnassigned_ok[OF assms(1,2) this]
  have obj: "\<exists>q. pods.objs s' k = Some q \<and> alive (nodes.objs s) q \<and> owner_of q = dep_name d"
    if "k \<in> mine d (pods.objs s)" for k
  proof -
    from that obtain x where x: "x \<in> set ps" "k = pkey x" unfolding assms(3)[symmetric] by blast
    then have "pods.objs s k = Some x" using assms(2) by (simp add: listed_def)
    with that have "owner_of x = dep_name d" by (simp add: mine_def)
    with p x assms(4) placed_alive placed_key show ?thesis by metis
  qed
  have out: "pods.objs s' k = pods.objs s k" if "k \<notin> mine d (pods.objs s)" for k
    using p that assms(3) by auto
  have "mine d (pods.objs s') = mine d (pods.objs s)"
  proof (rule set_eqI)
    fix k
    show "k \<in> mine d (pods.objs s') \<longleftrightarrow> k \<in> mine d (pods.objs s)"
    proof (cases "k \<in> mine d (pods.objs s)")
      case True
      with obj[OF True] show ?thesis by (auto simp: mine_def)
    next
      case False
      with out[OF False] show ?thesis by (simp add: mine_def)
    qed
  qed
  moreover have "length qs = length ps" using p by (metis list_all2_lengthD)
  ultimately show ?thesis using p obj out by fastforce
qed

lemma bindA_InrE:
  assumes "bindA m f t = (Inr y, t'')"
  obtains x t' where "m t = (Inr x, t')" "f x t' = (Inr y, t'')"
  using assms by (auto simp: bindA_Inr)

lemma reconcileOne_steps:
  assumes "reconcileOne (DR Schedule rs) d s = (Inr (), s')" "ok s"
  obtains owned s1 s2 owned2 s3 owned3 s4 s5 where
    "ownedPods (DR Schedule rs) d s = (Inr owned, s1)" "scale (DR Schedule rs) d owned s1 = (Inr (), s2)"
    "ownedPods (DR Schedule rs) d s2 = (Inr owned2, s3)" "place (DR Schedule rs) owned2 s3 = (Inr owned3, s4)"
    "s5 = (if dep_mounts d \<noteq> [] then snd (claimVolumeNodes (DR Schedule rs) d owned3 s4) else s4)"
    "update_status (DR Schedule rs) d owned3 s5 = (Inr (), s')"
proof -
  have claim: "s5 = (if dep_mounts d \<noteq> [] then snd (claimVolumeNodes (DR Schedule rs) d ps t) else t)"
    if "(if dep_mounts d \<noteq> [] then logA (claimVolumeNodes (DR Schedule rs) d ps) else ret ()) t = (Inr u, s5)" for ps t u s5
    using that by (cases "dep_mounts d = []") (auto simp: ret_def dest: arg_cong[where f = snd])
  show thesis
    using assms(1) unfolding reconcileOne_def
  proof (elim bindA_InrE, unfold wrapA_Inr)
    fix owned s1 u s2 owned2 s3 owned3 s4 v s5
    assume "ownedPods (DR Schedule rs) d s = (Inr owned, s1)" "scale (DR Schedule rs) d owned s1 = (Inr u, s2)"
      "ownedPods (DR Schedule rs) d s2 = (Inr owned2, s3)" "place (DR Schedule rs) owned2 s3 = (Inr owned3, s4)"
      and c: "(if dep_mounts d \<noteq> [] then logA (claimVolumeNodes (DR Schedule rs) d owned3) else ret ()) s4 = (Inr v, s5)"
      and "update_status (DR Schedule rs) d owned3 s5 = (Inr (), s')"
    then show thesis using that claim[OF c] by simp
  qed
qed

lemma reconcileOne_ok:
  assumes "ok s" "0 \<le> dep_replicas d" "in32 (dep_replicas d)" "clean_dep d"
    and clean: "\<forall>k p. pods.objs s k = Some p \<longrightarrow> clean_pod p" and up: "targets_up (nodes.objs s) (vols.objs s) d"
    and run: "reconcileOne (DR Schedule rs) d s = (Inr (), s')"
  shows "ok s' \<and> nodes.objs s' = nodes.objs s \<and> int (card (mine d (pods.objs s'))) = wanted d \<and>
    (\<forall>k \<in> mine d (pods.objs s'). \<forall>p. pods.objs s' k = Some p \<longrightarrow> alive (nodes.objs s) p) \<and>
    (\<forall>k. k \<notin> range (\<lambda>j. pkey (newPod d j)) \<longrightarrow> k \<notin> mine d (pods.objs s) \<longrightarrow> pods.objs s' k = pods.objs s k) \<and>
    (\<exists>cur. deps.objs s (dep_key d) = Some cur \<and> (\<exists>ready. deps.objs s' (dep_key d) =
       Some (cur\<lparr>dep_status := Some \<lparr>dst_replicas = wanted d, dst_ready_replicas = ready\<rparr>\<rparr>)))"
proof -
  from reconcileOne_steps[OF run assms(1)] obtain owned s1 s2 owned2 s3 owned3 s4 s5 where
    1: "ownedPods (DR Schedule rs) d s = (Inr owned, s1)" and 2: "scale (DR Schedule rs) d owned s1 = (Inr (), s2)"
    and 3: "ownedPods (DR Schedule rs) d s2 = (Inr owned2, s3)" and 4: "place (DR Schedule rs) owned2 s3 = (Inr owned3, s4)"
    and 5: "s5 = (if dep_mounts d \<noteq> [] then snd (claimVolumeNodes (DR Schedule rs) d owned3 s4) else s4)"
    and 6: "update_status (DR Schedule rs) d owned3 s5 = (Inr (), s')" by blast
  note a1 = ownedPods_ok[OF assms(1) 1]
  have n1: "nodes.objs s1 = nodes.objs s" "vols.objs s1 = vols.objs s" "deps.objs s1 = deps.objs s"
    using a1(2) by (simp_all add: same_rest_def)
  have sub1: "pods.objs s1 k = Some p \<Longrightarrow> pods.objs s k = Some p" for k p
    unfolding a1(6) by (auto split: option.splits if_splits)
  have cl: "\<forall>p \<in> set owned. clean_pod p"
    using a1(3) clean sub1 unfolding listed_def by blast
  have up1: "targets_up (nodes.objs s1) (vols.objs s1) d" using up by (simp add: targets_up_def n1)
  have li1: "\<forall>p \<in> set owned. alive (nodes.objs s1) p" using a1(5) by (simp add: n1)
  note a2 = scale_ok[OF a1(1,3,4) li1 assms(2,3,4) cl up1 2]
  then have n2: "nodes.objs s2 = nodes.objs s" "deps.objs s2 = deps.objs s"
    by (simp_all add: same_rest_def n1)
  have ok2: "ok s2" using a2 by blast
  note a3 = ownedPods_ok[OF ok2 3]
  have keep: "pods.objs s3 = pods.objs s2"
  proof
    fix k
    show "pods.objs s3 k = pods.objs s2 k"
      using a2 unfolding a3(6) n2(1) n1(1) by (auto split: option.splits)
  qed
  have n3: "nodes.objs s3 = nodes.objs s" "deps.objs s3 = deps.objs s"
    using a3(2) by (simp_all add: same_rest_def n2)
  have li3: "\<forall>p \<in> set owned2. alive (nodes.objs s3) p" using a3(5) by (simp add: n2 n3)
  note a4 = place_ok[OF a3(1,3,4) li3 4]
  have n4: "nodes.objs s4 = nodes.objs s" "deps.objs s4 = deps.objs s"
    using a4 by (simp_all add: same_rest_def n3)
  have a5: "ok s5" "pods.objs s5 = pods.objs s4" "nodes.objs s5 = nodes.objs s" "deps.objs s5 = deps.objs s"
    using claimVolumeNodes_ok[of s4] a4 n4 5 by (simp_all split: if_splits)
  note a6 = update_status_ok[OF a5(1) 6]
  have cnt: "int (length owned3) = wanted d"
    using a4 card_listed[OF a3(3)] a3(4) a2 keep by simp
  moreover have "wrap32 (wanted d) = wanted d"
    using assms(2,3) by (auto intro: wrap32_id simp: wanted_def in32_def)
  ultimately have st: "\<exists>cur. deps.objs s (dep_key d) = Some cur \<and> (\<exists>ready. deps.objs s' (dep_key d) =
       Some (cur\<lparr>dep_status := Some \<lparr>dst_replicas = wanted d, dst_ready_replicas = ready\<rparr>\<rparr>))"
    using a6 a5(4) by auto
  have out: "pods.objs s' k = pods.objs s k" if "k \<notin> range (\<lambda>j. pkey (newPod d j))" "k \<notin> mine d (pods.objs s)" for k
  proof -
    have "k \<notin> mine d (pods.objs s1)" using that(2) sub1 by (auto simp: mine_def)
    with a2 that(1) have s2: "pods.objs s2 k = pods.objs s1 k" by blast
    with \<open>k \<notin> mine d (pods.objs s1)\<close> have "k \<notin> mine d (pods.objs s2)" by (simp add: mine_def)
    with a4 keep a5(2) a6 s2 have "pods.objs s' k = pods.objs s1 k" by simp
    with that(2) show ?thesis unfolding a1(6) by (simp split: option.splits)
  qed
  have "int (card (mine d (pods.objs s'))) = wanted d"
    using a2 keep a4 a5(2) a6 by simp
  moreover have "alive (nodes.objs s) p" if "k \<in> mine d (pods.objs s')" "pods.objs s' k = Some p" for k p
    using that a4 a5(2) a6 n3(1) by metis
  ultimately show ?thesis using a6 a5(3) st out by metis
qed

lemma owned_list:
  assumes "ok s"
  obtains ps where "reg_List pods.R (dep_namespace d) s = Inr ps"
    "length (filter (\<lambda>p. owner_of p = dep_name d) ps) = card (mine d (pods.objs s))"
    "\<forall>p \<in> set ps. pods.objs s (pkey p) = Some p \<and> (owner_of p = dep_name d \<longrightarrow> pkey p \<in> mine d (pods.objs s))"
proof -
  obtain all where all: "reg_List pods.R (dep_namespace d) s = Inr all" "listed all s"
    "pkey ` set all = {k \<in> dom (pods.objs s). HasPrefix k (reg_prefix kPods (dep_namespace d))}"
    by (rule list_pods[OF assms])
  have obj: "pods.objs s (pkey p) = Some p" if "p \<in> set all" for p
    using all(2) that by (simp add: listed_def)
  have mem: "p \<in> set all \<Longrightarrow> owner_of p = dep_name d \<Longrightarrow> pkey p \<in> mine d (pods.objs s)" for p
    using obj all(3) unfolding mine_def by blast
  let ?own = "filter (\<lambda>p. owner_of p = dep_name d) all"
  have "pkey ` set ?own = mine d (pods.objs s)"
  proof
    show "pkey ` set ?own \<subseteq> mine d (pods.objs s)" using mem by auto
    show "mine d (pods.objs s) \<subseteq> pkey ` set ?own"
    proof
      fix k assume k: "k \<in> mine d (pods.objs s)"
      then have "k \<in> pkey ` set all" unfolding all(3) by (auto simp: mine_def)
      then obtain p where "p \<in> set all" "k = pkey p" by blast
      with k obj show "k \<in> pkey ` set ?own" by (auto simp: mine_def)
    qed
  qed
  moreover have "listed ?own s"
    using all(2) by (simp add: listed_def distinct_map_filter)
  ultimately have "length ?own = card (mine d (pods.objs s))"
    using card_listed[of ?own s] by simp
  with that all(1) obj mem show thesis by blast
qed

text \<open>The outcome of a pass, in terms of the list of pods.\<close>

lemma pass_reaches:
  assumes "ok s" "0 \<le> dep_replicas d" "in32 (dep_replicas d)" "clean_dep d"
    and "\<forall>k p. pods.objs s k = Some p \<longrightarrow> clean_pod p" "targets_up (nodes.objs s) (vols.objs s) d"
    and "reconcileOne (DR Schedule rs) d s = (Inr (), s')"
  shows "ok s' \<and> (\<exists>ps. reg_List pods.R (dep_namespace d) s' = Inr ps \<and>
       int (length (filter (\<lambda>p. owner_of p = dep_name d) ps)) = wanted d \<and>
       (\<forall>p \<in> set ps. owner_of p = dep_name d \<longrightarrow> alive (nodes.objs s') p))"
proof -
  note pass = reconcileOne_ok[OF assms]
  then have ok': "ok s'" by blast
  obtain ps where ps: "reg_List pods.R (dep_namespace d) s' = Inr ps"
    "length (filter (\<lambda>p. owner_of p = dep_name d) ps) = card (mine d (pods.objs s'))"
    "\<forall>p \<in> set ps. pods.objs s' (pkey p) = Some p \<and> (owner_of p = dep_name d \<longrightarrow> pkey p \<in> mine d (pods.objs s'))"
    by (rule owned_list[OF ok'])
  have "alive (nodes.objs s') p" if "p \<in> set ps" "owner_of p = dep_name d" for p using that ps(3) pass by metis
  with ps(1,2) ok' pass show ?thesis by auto
qed

end

section \<open>Properties\<close>

text \<open>
  C1: a pass of the deployment controller that reports no error reaches the wanted number of
  replicas (the requested number, at most one with volumes). Afterwards exactly that many
  pods of the deployment exist in its namespace; each of them is neither succeeded nor
  failed, and is unassigned or on a ready node; and the cluster invariant still holds. The
  names are free of slashes, the replica count is a non-negative \<open>int32\<close>, and the nodes the
  template or a claimed volume pins to are up.
\<close>

theorem reconcile_reaches_replicas:
  assumes "cluster S good repr CP CN CD CV" and "cluster_ok good repr CP CN CD CV s"
    and "r = NewDeploymentReconciler (reg_New S kDeployments CD) (reg_New S kPods CP) (reg_New S kNodes CN)
           (reg_New S kVolumes CV) Schedule rs"
    and "0 \<le> dep_replicas d" "in32 (dep_replicas d)" "clean_dep d"
    and "\<forall>k p. obj_at repr CP kPods s k = Some p \<longrightarrow> clean_pod p"
    and "targets_up (obj_at repr CN kNodes s) (obj_at repr CV kVolumes s) d"
    and "reconcileOne r d s = (Inr (), s')"
  shows "cluster_ok good repr CP CN CD CV s' \<and>
    (\<exists>ps. reg_List (dr_pods r) (dep_namespace d) s' = Inr ps \<and>
       int (length (filter (\<lambda>p. owner_of p = dep_name d) ps)) = wanted d \<and>
       (\<forall>p \<in> set ps. owner_of p = dep_name d \<longrightarrow> alive (obj_at repr CN kNodes s') p))"
  using cluster.pass_reaches[OF assms(1,2,4-8) assms(9)[unfolded assms(3)]]
  by (simp add: assms(3) NewDeploymentReconciler_def)

text \<open>
  A deployment with a negative replica count, which neither the API server nor admission
  rejects, makes the controller index its list of pods with a negative number: the pass
  ends in a panic, whatever pods exist, as soon as listing them succeeds.
\<close>

theorem negative_replicas_panic:
  assumes "dep_replicas d < 0" "ownedPods r d s = (Inr owned, s1)"
  shows "reconcileOne r d s = (Inl (ErrPanic ''index out of range''), s1)"
  using assms by (simp add: reconcileOne_def bindA_def wrapA_def scale_def wanted_def Let_def throw_def)

section \<open>Instances\<close>

definition ex_rec :: "(wire memStore, wire) DeploymentReconciler" where
  "ex_rec = NewDeploymentReconciler (reg_New memStore kDeployments dep_codec) (reg_New memStore kPods pod_codec)
     (reg_New memStore kNodes node_codec) (reg_New memStore kVolumes vol_codec) Schedule 0"

definition ex_dep :: "int32 \<Rightarrow> Deployment" where
  "ex_dep n = \<lparr>dep_metadata = Some (zero_ObjectMeta\<lparr>meta_name := ''web'', meta_namespace := ''default''\<rparr>),
     dep_spec = Some \<lparr>ds_replicas = n, ds_selector = [], ds_template = Some (zero_PodSpec\<lparr>ps_containers := [ex_container []]\<rparr>),
       ds_min_replicas = 0, ds_max_replicas = 0\<rparr>, dep_status = None\<rparr>"

definition ex_owned :: Pod where
  "ex_owned = newPod (ex_dep 2) 1"

text \<open>A ready node, a deployment of two replicas, and its second replica.\<close>

definition ex_state :: "wire memStore" where
  "ex_state = [(''/registry/nodes/n1'', WNode (ex_node_obj ''n1'')),
     (''/registry/deployments/default/web'', WDeployment (ex_dep 2)),
     (''/registry/pods/default/web-1'', WPod ex_owned)]"

lemmas ex_dep_defs = ex_dep_def ex_owned_def ex_object_defs newPod_def

lemma ex_owned_meta: "pod_namespace ex_owned = ''default''" "pod_name ex_owned = ''web-1''"
  by (code_simp, code_simp)

lemma ex_state_ok: "cluster_ok mem_ok map_of pod_codec node_codec dep_codec vol_codec ex_state"
  by (auto simp: cluster_ok_def ex_state_def decodes_def own_keys_def obj_at_def HasPrefix_def reg_prefix_def
      codec_defs key_of_def ex_owned_meta ex_dep_def ex_node_obj_def zero_messages split: if_splits)

lemma ex_state_clean: "\<forall>k p. obj_at map_of pod_codec kPods ex_state k = Some p \<longrightarrow> clean_pod p"
  by (auto simp: ex_state_def obj_at_def HasPrefix_def reg_prefix_def codec_defs clean_pod_def ex_owned_meta
      no_slash_def split: if_splits)

lemma ex_run: "fst (reconcileOne ex_rec (ex_dep 2) ex_state) = Inr ()"
  by code_simp

lemma ex_run': "reconcileOne ex_rec (ex_dep 2) ex_state = (Inr (), snd (reconcileOne ex_rec (ex_dep 2) ex_state))"
  using ex_run by (metis prod.collapse)

lemma ex_assms:
  "0 \<le> dep_replicas (ex_dep 2)" "in32 (dep_replicas (ex_dep 2))" "clean_dep (ex_dep 2)"
  "targets_up nm vm (ex_dep 2)"
  by (simp_all add: ex_dep_def in32_def clean_dep_def no_slash_def targets_up_def zero_messages)

theorem reconcile_reaches_replicas_witness:
  "\<exists>ps. reg_List (dr_pods ex_rec) ''default'' (snd (reconcileOne ex_rec (ex_dep 2) ex_state)) = Inr ps \<and>
     int (length (filter (\<lambda>p. owner_of p = ''web'') ps)) = 2"
  using reconcile_reaches_replicas[OF mem_cluster.cluster_axioms ex_state_ok ex_rec_def ex_assms(1-3) ex_state_clean
      ex_assms(4) ex_run']
  by (auto simp: ex_dep_def wanted_def zero_messages)

theorem negative_replicas_panic_witness:
  "\<exists>s1. reconcileOne ex_rec (ex_dep (-1)) ex_state = (Inl (ErrPanic ''index out of range''), s1)"
proof -
  have "\<exists>ps. fst (ownedPods ex_rec (ex_dep (-1)) ex_state) = Inr ps"
    by (rule exI[of _ "[ex_owned]"]) code_simp
  then obtain ps s1 where "ownedPods ex_rec (ex_dep (-1)) ex_state = (Inr ps, s1)" by (metis prod.collapse)
  from negative_replicas_panic[OF _ this] show ?thesis by (auto simp: ex_dep_def)
qed

end
