(* ===== verification/Controllers.thy ===== *)
theory Controllers
  imports Deployments
begin

text \<open>
  The pod controller (\<^verbatim>\<open>internal/controller/pod.go\<close>) and the node-health controller
  (\<^verbatim>\<open>internal/controller/node_health.go\<close>): one pass of each. The current time is a parameter,
  in nanoseconds since the epoch.
\<close>

section \<open>The pod controller\<close>

record ('s, 'b) PodReconciler =
  prc_pods :: "('s, 'b, Pod) Registry"
  prc_nodes :: "('s, 'b, Node) Registry"
  prc_scheduler :: sched
  prc_resync :: int

definition NewPodReconciler where
  "NewPodReconciler pods nodes sched resync =
     \<lparr>prc_pods = pods, prc_nodes = nodes, prc_scheduler = sched,
      prc_resync = (if resync \<le> 0 then 5 * Second else resync)\<rparr>"

text \<open>The three \<open>continue\<close> tests of the selection loop, negated.\<close>

definition unassigned :: "Pod \<Rightarrow> bool" where
  "unassigned p \<longleftrightarrow> owner_of p = [] \<and> pod_node p = [] \<and> \<not> terminal (pod_phase p)"

text \<open>The placement loop: an error is logged and the loop goes on.\<close>

fun pod_each :: "('s, 'b, Pod) Registry \<Rightarrow> sched \<Rightarrow> NodeCandidate list \<Rightarrow> Pod list \<Rightarrow> 's \<Rightarrow> 's" where
  "pod_each pods sched candidates [] s = s"
| "pod_each pods sched candidates (p # ps) s =
     (case schedulePod pods sched candidates p s of (r, s') \<Rightarrow> pod_each pods sched candidates ps s')"

definition pod_reconcileAll :: "('s, 'b) PodReconciler \<Rightarrow> 's \<Rightarrow> 's" where
  "pod_reconcileAll r s =
     (case reg_List (prc_pods r) [] s of
        Inl err \<Rightarrow> s
      | Inr all \<Rightarrow>
          if filter unassigned all = [] then s
          else (case computeNodeUsage (prc_pods r) s of
                  Inl err \<Rightarrow> s
                | Inr usage \<Rightarrow>
                    (case buildNodeCandidates (prc_nodes r) usage s of
                       Inl err \<Rightarrow> s
                     | Inr candidates \<Rightarrow>
                         pod_each (prc_pods r) (prc_scheduler r) candidates (filter unassigned all) s)))"

section \<open>The node-health controller\<close>

record ('s, 'b) NodeHealthReconciler =
  nhr_nodes :: "('s, 'b, Node) Registry"
  nhr_timeout :: int
  nhr_resync :: int

definition NewNodeHealthReconciler where
  "NewNodeHealthReconciler nodes timeout resync =
     \<lparr>nhr_nodes = nodes, nhr_timeout = (if timeout \<le> 0 then 15 * Second else timeout),
      nhr_resync = (if resync \<le> 0 then 5 * Second else resync)\<rparr>"

text \<open>\<open>time.Now().Add(-r.timeout).Unix()\<close>\<close>

definition health_cutoff :: "('s, 'b) NodeHealthReconciler \<Rightarrow> int \<Rightarrow> int64" where
  "health_cutoff r now = (now - nhr_timeout r) div Second"

definition stale :: "int64 \<Rightarrow> Node \<Rightarrow> bool" where
  "stale cutoff n \<longleftrightarrow> NodeStatus_GetReady (node_status n) \<and>
     NodeStatus_GetLastHeartbeatUnix (node_status n) < cutoff"

text \<open>\<open>n.Status.Ready = false\<close>; the status of a ready node is not nil.\<close>

definition mark_not_ready :: "Node \<Rightarrow> Node" where
  "mark_not_ready n = n\<lparr>node_status := map_option (\<lambda>st. st\<lparr>nst_ready := False\<rparr>) (node_status n)\<rparr>"

fun check_loop :: "('s, 'b, Node) Registry \<Rightarrow> int64 \<Rightarrow> Node list \<Rightarrow> 's \<Rightarrow> 's" where
  "check_loop nodes cutoff [] s = s"
| "check_loop nodes cutoff (n # ns) s =
     (if \<not> NodeStatus_GetReady (node_status n) then check_loop nodes cutoff ns s
      else if NodeStatus_GetLastHeartbeatUnix (node_status n) \<ge> cutoff then check_loop nodes cutoff ns s
      else check_loop nodes cutoff ns
             (snd (reg_Put nodes [] (node_name n) (mark_not_ready n) s)))"

definition checkAll :: "('s, 'b) NodeHealthReconciler \<Rightarrow> int \<Rightarrow> 's \<Rightarrow> 's" where
  "checkAll r now s =
     (case reg_List (nhr_nodes r) [] s of
        Inl err \<Rightarrow> s
      | Inr nodes \<Rightarrow> check_loop (nhr_nodes r) (health_cutoff r now) nodes s)"

section \<open>Over any store that keeps its contract\<close>

lemma mark_not_ready_fields [simp]:
  "node_metadata (mark_not_ready n) = node_metadata n" "\<not> node_ready (mark_not_ready n)"
  by (auto simp: mark_not_ready_def) (cases "node_status n"; simp)+

context cluster
begin

lemma pod_each_ok:
  assumes "ok s" "\<forall>req name. Schedule req cs = Inr name \<longrightarrow> node_up nm name" "listed ps s"
  shows "ok (pod_each pods.R Schedule cs ps s) \<and> same_rest s (pod_each pods.R Schedule cs ps s) \<and>
    (\<forall>k. k \<notin> pkey ` set ps \<longrightarrow> pods.objs (pod_each pods.R Schedule cs ps s) k = pods.objs s k) \<and>
    (\<forall>p \<in> set ps. \<exists>q. placed nm p q \<and> pods.objs (pod_each pods.R Schedule cs ps s) (pkey p) = Some q)"
  using assms(1,3)
proof (induction ps arbitrary: s)
  case Nil
  then show ?case by simp
next
  case (Cons p ps)
  have fresh: "pkey q \<noteq> pkey p" if "q \<in> set ps" for q
    using Cons.prems(2) that unfolding listed_def by force
  have p: "pods.objs s (pkey p) = Some p" and li: "listed ps s"
    using Cons.prems(2) by (auto simp: listed_def)
  obtain r1 p' s1 where sp: "schedulePod pods.R Schedule cs p s = ((r1, p'), s1)" by (metis surj_pair)
  from schedulePod_ok[OF Cons.prems(1) assms(2)[rule_format] sp] have 1: "ok s1" "same_rest s s1" "placed nm p p'"
    "pods.objs s1 \<in> {pods.objs s, (pods.objs s)(pkey p \<mapsto> p')}" by auto
  have old1: "pods.objs s1 k = pods.objs s k" if "k \<noteq> pkey p" for k
    using 1(4) that by auto
  have li1: "listed ps s1" using li fresh old1 by (simp add: listed_def)
  note ih = Cons.IH[OF 1(1) li1]
  have key1: "\<exists>q. placed nm p q \<and> pods.objs s1 (pkey p) = Some q"
    using 1(3,4) p by (auto intro: exI[of _ p])
  have "pkey p \<notin> pkey ` set ps" using fresh by force
  with ih key1 have "\<exists>q. placed nm p q \<and> pods.objs (pod_each pods.R Schedule cs ps s1) (pkey p) = Some q" by simp
  with ih same_rest_trans[OF 1(2)] old1 sp show ?case by auto
qed

lemma pod_reconcileAll_ok:
  assumes "ok s"
  shows "ok (pod_reconcileAll (NewPodReconciler pods.R nodes.R Schedule rs) s) \<and>
    same_rest s (pod_reconcileAll (NewPodReconciler pods.R nodes.R Schedule rs) s) \<and>
    (\<forall>k p. pods.objs s k = Some p \<longrightarrow>
      (\<exists>q. pods.objs (pod_reconcileAll (NewPodReconciler pods.R nodes.R Schedule rs) s) k = Some q \<and>
        (if unassigned p then placed (nodes.objs s) p q else q = p)))"
proof -
  let ?r = "NewPodReconciler pods.R nodes.R Schedule rs"
  let ?s' = "pod_reconcileAll ?r s"
  have r: "prc_pods ?r = pods.R" "prc_nodes ?r = nodes.R" "prc_scheduler ?r = Schedule"
    by (simp_all add: NewPodReconciler_def)
  obtain all where all: "reg_List pods.R [] s = Inr all" "listed all s"
    "pkey ` set all = {k \<in> dom (pods.objs s). HasPrefix k (reg_prefix kPods [])}"
    by (rule list_pods[OF assms])
  show ?thesis
  proof (cases "\<exists>usage cs. computeNodeUsage pods.R s = Inr usage \<and> buildNodeCandidates nodes.R usage s = Inr cs \<and>
      filter unassigned all \<noteq> []")
    case False
    then have "?s' = s"
      using all(1) by (auto simp: pod_reconcileAll_def r split: sum.splits)
    with assms show ?thesis by simp
  next
    case True
    then obtain usage cs where 1: "computeNodeUsage pods.R s = Inr usage" "buildNodeCandidates nodes.R usage s = Inr cs"
      "filter unassigned all \<noteq> []" by blast
    then have s': "?s' = pod_each pods.R Schedule cs (filter unassigned all) s"
      using all(1) by (simp add: pod_reconcileAll_def r)
    have "listed (filter unassigned all) s"
      using all(2) by (simp add: listed_def distinct_map_filter)
    moreover have "\<forall>req name. Schedule req cs = Inr name \<longrightarrow> node_up (nodes.objs s) name"
      using candidate_up[OF assms 1(2)] by blast
    ultimately have e: "ok ?s' \<and> same_rest s ?s' \<and>
      (\<forall>k. k \<notin> pkey ` set (filter unassigned all) \<longrightarrow> pods.objs ?s' k = pods.objs s k) \<and>
      (\<forall>p \<in> set (filter unassigned all). \<exists>q. placed (nodes.objs s) p q \<and> pods.objs ?s' (pkey p) = Some q)"
      unfolding s' using pod_each_ok[OF assms] by blast
    have "\<exists>q. pods.objs ?s' k = Some q \<and> (if unassigned p then placed (nodes.objs s) p q else q = p)"
      if k: "pods.objs s k = Some p" for k p
    proof -
      have "HasPrefix k (reg_prefix kPods [])" using k by (auto simp: obj_at_def split: if_splits)
      with k all(3) have "k \<in> pkey ` set all" by blast
      then obtain q where q: "q \<in> set all" "k = pkey q" by blast
      with all(2) k have "q = p" by (auto simp: listed_def)
      show ?thesis
      proof (cases "unassigned p")
        case True
        with e q \<open>q = p\<close> have "\<exists>q. placed (nodes.objs s) p q \<and> pods.objs ?s' k = Some q" by simp
        with True show ?thesis by auto
      next
        case False
        have "k \<notin> pkey ` set (filter unassigned all)"
        proof
          assume "k \<in> pkey ` set (filter unassigned all)"
          then obtain x where "x \<in> set all" "unassigned x" "k = pkey x" by auto
          with all(2) k False show False by (auto simp: listed_def)
        qed
        with e k False show ?thesis by simp
      qed
    qed
    with e show ?thesis by blast
  qed
qed

lemma check_loop_ok:
  assumes "ok s" "\<forall>n \<in> set ns. nodes.objs s (key_of kNodes [] (node_name n)) = Some n" "distinct (map (\<lambda>n. node_name n) ns)"
  shows "ok (check_loop nodes.R cutoff ns s) \<and> pods.objs (check_loop nodes.R cutoff ns s) = pods.objs s \<and>
    (\<forall>k n. nodes.objs s k = Some n \<longrightarrow>
      (\<exists>n'. nodes.objs (check_loop nodes.R cutoff ns s) k = Some n' \<and>
         (n' = n \<or> stale cutoff n \<and> n' = mark_not_ready n)))"
  using assms
proof (induction ns arbitrary: s)
  case Nil
  then show ?case by simp
next
  case (Cons n ns)
  show ?case
  proof (cases "stale cutoff n")
    case False
    with Cons show ?thesis by (auto simp: stale_def)
  next
    case True
    let ?s1 = "snd (reg_Put nodes.R [] (node_name n) (mark_not_ready n) s)"
    have put: "ok ?s1" "pods.objs ?s1 = pods.objs s"
      "nodes.objs ?s1 \<in> {nodes.objs s, (nodes.objs s)(key_of kNodes [] (node_name n) \<mapsto> mark_not_ready n)}"
      using put_node[OF Cons.prems(1), of "node_name n" "mark_not_ready n"] by simp_all
    have n: "nodes.objs s (key_of kNodes [] (node_name n)) = Some n" using Cons.prems(2) by simp
    have ne: "key_of kNodes [] (node_name x) \<noteq> key_of kNodes [] (node_name n)" if "x \<in> set ns" for x
      using Cons.prems(3) imageI[OF that, of "\<lambda>n. node_name n"] by auto
    have "nodes.objs ?s1 (key_of kNodes [] (node_name x)) = nodes.objs s (key_of kNodes [] (node_name x))"
      if "x \<in> set ns" for x
      using put(3) ne[OF that] by (metis (no_types, lifting) fun_upd_other insertE singletonD)
    with Cons.prems(2) have "\<forall>x \<in> set ns. nodes.objs ?s1 (key_of kNodes [] (node_name x)) = Some x" by simp
    with Cons.IH[OF put(1) this] Cons.prems(3) have ih:
      "ok (check_loop nodes.R cutoff ns ?s1)" "pods.objs (check_loop nodes.R cutoff ns ?s1) = pods.objs ?s1"
      "\<forall>k x. nodes.objs ?s1 k = Some x \<longrightarrow> (\<exists>x'. nodes.objs (check_loop nodes.R cutoff ns ?s1) k = Some x' \<and>
         (x' = x \<or> stale cutoff x \<and> x' = mark_not_ready x))" by auto
    have "\<exists>n'. nodes.objs (check_loop nodes.R cutoff ns ?s1) k = Some n' \<and> (n' = x \<or> stale cutoff x \<and> n' = mark_not_ready x)"
      if "nodes.objs s k = Some x" for k x
    proof (cases "k = key_of kNodes [] (node_name n) \<and> nodes.objs ?s1 k = Some (mark_not_ready n)")
      case True
      with ih(3) that n \<open>stale cutoff n\<close> show ?thesis by (fastforce simp: stale_def)
    next
      case False
      then have "nodes.objs ?s1 k = Some x" using put(3) that by (auto split: if_splits)
      with ih(3) show ?thesis by blast
    qed
    with ih put(2) True show ?thesis by (simp add: stale_def)
  qed
qed

lemma list_nodes:
  assumes "ok s"
  obtains all where "reg_List nodes.R [] s = Inr all" "distinct (map (\<lambda>n. node_name n) all)"
    "\<forall>n \<in> set all. nodes.objs s (key_of kNodes [] (node_name n)) = Some n"
    "\<forall>k n. nodes.objs s k = Some n \<longrightarrow> n \<in> set all"
proof -
  obtain ks where ks: "reg_List nodes.R [] s = Inr (map (the \<circ> nodes.objs s) ks)" "distinct ks"
    "set ks = {k \<in> dom (nodes.objs s). HasPrefix k (reg_prefix kNodes [])}"
    using nodes.reg_List_ok[OF okD(1,3)[OF assms], of "[]"] by blast
  have key: "key_of kNodes [] (node_name (the (nodes.objs s k))) = k" if "k \<in> set ks" for k
    using that ks(3) okD(7)[OF assms, of k] by auto
  have "map (\<lambda>n. key_of kNodes [] (node_name n)) (map (the \<circ> nodes.objs s) ks) = ks"
    by (rule nth_equalityI) (auto simp: key)
  then have "distinct (map (key_of kNodes []) (map (\<lambda>n. node_name n) (map (the \<circ> nodes.objs s) ks)))"
    using ks(2) by (simp add: comp_def)
  then have "distinct (map (\<lambda>n. node_name n) (map (the \<circ> nodes.objs s) ks))"
    unfolding distinct_map[of "key_of kNodes []"] by blast
  moreover have "\<forall>n \<in> set (map (the \<circ> nodes.objs s) ks). nodes.objs s (key_of kNodes [] (node_name n)) = Some n"
    using key ks(3) by fastforce
  moreover have "n \<in> set (map (the \<circ> nodes.objs s) ks)" if "nodes.objs s k = Some n" for k n
  proof -
    have "HasPrefix k (reg_prefix kNodes [])" using that by (auto simp: obj_at_def split: if_splits)
    with that ks(3) have "k \<in> set ks" by blast
    with that show ?thesis by force
  qed
  ultimately show thesis using that ks(1) by blast
qed

lemma checkAll_ok:
  assumes "ok s"
  shows "ok (checkAll (NewNodeHealthReconciler nodes.R t rs) now s) \<and>
    pods.objs (checkAll (NewNodeHealthReconciler nodes.R t rs) now s) = pods.objs s \<and>
    (\<forall>k n. nodes.objs s k = Some n \<longrightarrow>
      (\<exists>n'. nodes.objs (checkAll (NewNodeHealthReconciler nodes.R t rs) now s) k = Some n' \<and>
         (n' = n \<or> stale (health_cutoff (NewNodeHealthReconciler nodes.R t rs) now) n \<and> n' = mark_not_ready n)))"
proof -
  obtain all where all: "reg_List nodes.R [] s = Inr all" "distinct (map (\<lambda>n. node_name n) all)"
    "\<forall>n \<in> set all. nodes.objs s (key_of kNodes [] (node_name n)) = Some n"
    by (rule list_nodes[OF assms])
  have "nhr_nodes (NewNodeHealthReconciler nodes.R t rs) = nodes.R"
    by (simp add: NewNodeHealthReconciler_def)
  with all(1) check_loop_ok[OF assms all(3,2)] show ?thesis by (simp add: checkAll_def)
qed

end

section \<open>Properties\<close>

text \<open>
  A pass of the pod controller changes only the pods it is responsible for. A pod that is
  owned by a deployment, already bound or finished is exactly as it was; an unassigned
  pod keeps its metadata and phase and either stays unassigned or is bound to a node that
  exists and is ready; no pod disappears, nodes, deployments and volumes are untouched.
\<close>

theorem pod_pass_only_places:
  assumes "cluster S good repr CP CN CD CV" "cluster_ok good repr CP CN CD CV s"
    and "s' = pod_reconcileAll (NewPodReconciler (reg_New S kPods CP) (reg_New S kNodes CN) Schedule rs) s"
    and "reg_Get (reg_New S kPods CP) ns name s = Inr p"
  shows "(\<exists>q. reg_Get (reg_New S kPods CP) ns name s' = Inr q \<and>
      (if unassigned p then placed (obj_at repr CN kNodes s) p q else q = p)) \<and>
    obj_at repr CN kNodes s' = obj_at repr CN kNodes s \<and>
    obj_at repr CD kDeployments s' = obj_at repr CD kDeployments s \<and>
    obj_at repr CV kVolumes s' = obj_at repr CV kVolumes s"
proof -
  note p = cluster.pod_reconcileAll_ok[OF assms(1,2), of rs, folded assms(3)]
  then have ok': "cluster_ok good repr CP CN CD CV s'" by blast
  have rp: "registry_laws S good repr CP" using assms(1) by (simp add: cluster_def)
  note get = registry_laws.reg_Get_obj_at[OF rp]
  note i = cluster.okD(1,2)[OF assms(1,2)] and i' = cluster.okD(1,2)[OF assms(1) ok']
  from assms(4) have k: "obj_at repr CP kPods s (key_of kPods ns name) = Some p"
    by (simp add: get[OF i] split: option.splits)
  with p obtain q where "obj_at repr CP kPods s' (key_of kPods ns name) = Some q"
    "if unassigned p then placed (obj_at repr CN kNodes s) p q else q = p" by blast
  with p show ?thesis by (auto simp: get[OF i'] cluster.same_rest_def[OF assms(1)])
qed

text \<open>A node and two pods that want the same port.\<close>

definition ex_two_pods :: "wire memStore" where
  "ex_two_pods = [(''/registry/nodes/n1'', WNode (ex_node_obj ''n1'')),
     (''/registry/pods/default/a'', WPod (ex_pod_obj ''a'' [] [80])),
     (''/registry/pods/default/b'', WPod (ex_pod_obj ''b'' [] [80]))]"

lemma ex_two_pods_ok: "cluster_ok mem_ok map_of pod_codec node_codec dep_codec vol_codec ex_two_pods"
  by (auto simp: cluster_ok_def ex_two_pods_def decodes_def own_keys_def obj_at_def HasPrefix_def reg_prefix_def
      codec_defs key_of_def ex_pod_obj_def ex_node_obj_def zero_messages split: if_splits)

lemma ex_two_get: "reg_Get (reg_New memStore kPods pod_codec) ''default'' ''a'' ex_two_pods = Inr (ex_pod_obj ''a'' [] [80])"
  by code_simp

theorem pod_pass_only_places_witness:
  "\<exists>q. reg_Get (reg_New memStore kPods pod_codec) ''default'' ''a''
     (pod_reconcileAll (NewPodReconciler (reg_New memStore kPods pod_codec) (reg_New memStore kNodes node_codec) Schedule 0)
       ex_two_pods) = Inr q \<and> placed (obj_at map_of node_codec kNodes ex_two_pods) (ex_pod_obj ''a'' [] [80]) q"
  using pod_pass_only_places[OF mem_cluster.cluster_axioms ex_two_pods_ok refl ex_two_get, of 0]
  by (auto simp: unassigned_def ex_pod_obj_def owner_of_def lget_def terminal_def zero_messages split: if_splits)

text \<open>
  The candidates' usage is computed once per pass and not updated as pods are placed: two
  unassigned pods that want the same container port are bound to the same node by one pass
  of the pod controller, although a placement on its own avoids ports in use.
\<close>

theorem one_pass_shares_port:
  "\<exists>p q. reg_Get (reg_New memStore kPods pod_codec) ''default'' ''a''
      (pod_reconcileAll (NewPodReconciler (reg_New memStore kPods pod_codec) (reg_New memStore kNodes node_codec) Schedule 0)
        ex_two_pods) = Inr p \<and>
    reg_Get (reg_New memStore kPods pod_codec) ''default'' ''b''
      (pod_reconcileAll (NewPodReconciler (reg_New memStore kPods pod_codec) (reg_New memStore kNodes node_codec) Schedule 0)
        ex_two_pods) = Inr q \<and>
    pod_node p = ''n1'' \<and> pod_node q = ''n1'' \<and> 80 \<in> pod_ports p \<inter> pod_ports q"
proof -
  let ?s = "pod_reconcileAll (NewPodReconciler (reg_New memStore kPods pod_codec) (reg_New memStore kNodes node_codec) Schedule 0)
    ex_two_pods"
  have "reg_Get (reg_New memStore kPods pod_codec) ''default'' ''a'' ?s = Inr (ex_pod_obj ''a'' ''n1'' [80])"
    by code_simp
  moreover have "reg_Get (reg_New memStore kPods pod_codec) ''default'' ''b'' ?s = Inr (ex_pod_obj ''b'' ''n1'' [80])"
    by code_simp
  ultimately show ?thesis by (simp add: ex_pod_obj_def pod_ports_def ex_container_def zero_messages)
qed

text \<open>
  The node-health controller only ever takes readiness away, and only from nodes that are
  ready and whose last heartbeat is older than the timeout: every other node, and every
  pod, is exactly as it was.
\<close>

theorem node_health_only_stale:
  assumes "cluster S good repr CP CN CD CV" "cluster_ok good repr CP CN CD CV s"
    and "r = NewNodeHealthReconciler (reg_New S kNodes CN) timeout rs" "s' = checkAll r now s"
    and "reg_Get (reg_New S kNodes CN) [] name s = Inr n"
  shows "\<exists>n'. reg_Get (reg_New S kNodes CN) [] name s' = Inr n' \<and>
      (n' = n \<or> stale (health_cutoff r now) n \<and> n' = mark_not_ready n) \<and>
    obj_at repr CP kPods s' = obj_at repr CP kPods s"
proof -
  note p = cluster.checkAll_ok[OF assms(1,2), of timeout rs now, folded assms(3), folded assms(4)]
  then have ok': "cluster_ok good repr CP CN CD CV s'" by blast
  have rn: "registry_laws S good repr CN" using assms(1) by (simp add: cluster_def)
  note get = registry_laws.reg_Get_obj_at[OF rn]
  note i = cluster.okD(1,3)[OF assms(1,2)] and i' = cluster.okD(1,3)[OF assms(1) ok']
  from assms(5) have k: "obj_at repr CN kNodes s (key_of kNodes [] name) = Some n"
    by (simp add: get[OF i] split: option.splits)
  with p obtain n' where "obj_at repr CN kNodes s' (key_of kNodes [] name) = Some n'"
    "n' = n \<or> stale (health_cutoff r now) n \<and> n' = mark_not_ready n" by blast
  with p show ?thesis by (auto simp: get[OF i'])
qed

theorem node_health_only_stale_witness:
  "\<exists>n'. reg_Get (reg_New memStore kNodes node_codec) [] ''n1''
      (checkAll (NewNodeHealthReconciler (reg_New memStore kNodes node_codec) 0 0) (100 * Second) ex_two_pods) = Inr n' \<and>
    (n' = ex_node_obj ''n1'' \<or> \<not> node_ready n')"
proof -
  have "reg_Get (reg_New memStore kNodes node_codec) [] ''n1'' ex_two_pods = Inr (ex_node_obj ''n1'')" by code_simp
  from node_health_only_stale[OF mem_cluster.cluster_axioms ex_two_pods_ok refl refl this, of 0 0 "100 * Second"]
  show ?thesis by auto
qed

text \<open>
  Over the in-memory store a pass leaves no stale node behind: after it, a node is ready
  exactly when it was ready and its last heartbeat is not older than the timeout.
\<close>

theorem node_health_complete:
  assumes "cluster_ok mem_ok map_of pod_codec node_codec dep_codec vol_codec s"
    and "r = NewNodeHealthReconciler (reg_New memStore kNodes node_codec) timeout rs"
    and "reg_Get (reg_New memStore kNodes node_codec) [] name s = Inr n"
  shows "\<exists>n'. reg_Get (reg_New memStore kNodes node_codec) [] name (checkAll r now s) = Inr n' \<and>
    (node_ready n' \<longleftrightarrow> node_ready n \<and> \<not> stale (health_cutoff r now) n)"
proof -
  let ?R = "reg_New memStore kNodes node_codec" and ?cut = "health_cutoff r now"
  have put: "reg_Put ?R [] m x t = (Inr (), AList.update (key_of kNodes [] m) (WNode x) t)" for m x t
    by (simp add: registry_defs actions memStore_defs node_codec_def)
  have loop: "map_of (check_loop ?R c ns t) (key_of kNodes [] m) =
      (case filter (\<lambda>x. node_name x = m \<and> stale c x) ns of [] \<Rightarrow> map_of t (key_of kNodes [] m)
       | xs \<Rightarrow> Some (WNode (mark_not_ready (last xs))))" for c ns t m
  proof (induction ns arbitrary: t)
    case (Cons x ns)
    then show ?case by (auto simp: put stale_def split: list.splits)
  qed simp
  obtain all where all: "reg_List ?R [] s = Inr all" "distinct (map (\<lambda>n. node_name n) all)"
    "\<forall>x \<in> set all. mem_cluster.nodes.objs s (key_of kNodes [] (node_name x)) = Some x"
    "\<forall>k x. mem_cluster.nodes.objs s k = Some x \<longrightarrow> x \<in> set all"
    by (rule mem_cluster.list_nodes[OF assms(1)])
  note i = mem_cluster.okD[OF assms(1)]
  from assms(3) have n: "mem_cluster.nodes.objs s (key_of kNodes [] name) = Some n"
    by (simp add: mem_cluster.nodes.reg_Get_obj_at[OF i(1,3)] split: option.splits)
  with i(7) have nn: "node_name n = name" by fastforce
  have mem: "x \<in> set all \<and> node_name x = name \<longleftrightarrow> x = n" for x
  proof
    assume "x \<in> set all \<and> node_name x = name"
    with all(3) n show "x = n" by (metis option.inject)
  next
    assume "x = n"
    with all(4) n nn show "x \<in> set all \<and> node_name x = name" by blast
  qed
  have chk: "checkAll r now s = check_loop ?R ?cut all s"
    by (simp add: checkAll_def assms(2) NewNodeHealthReconciler_def all(1))
  have ok': "cluster_ok mem_ok map_of pod_codec node_codec dep_codec vol_codec (checkAll r now s)"
    using mem_cluster.checkAll_ok[OF assms(1)] by (simp add: assms(2))
  note get' = mem_cluster.nodes.reg_Get_obj_at[OF mem_cluster.okD(1,3)[OF ok']]
  show ?thesis
  proof (cases "stale ?cut n")
    case True
    let ?xs = "filter (\<lambda>x. node_name x = name \<and> stale ?cut x) all"
    have xs: "set ?xs = {n}" using mem True by auto
    then have "?xs \<noteq> []" by force
    moreover from this have "last ?xs = n" using last_in_set[of ?xs] unfolding xs by simp
    ultimately have "map_of (checkAll r now s) (key_of kNodes [] name) = Some (WNode (mark_not_ready n))"
      unfolding chk loop by (cases ?xs) simp_all
    then have "mem_cluster.nodes.objs (checkAll r now s) (key_of kNodes [] name) = Some (mark_not_ready n)"
      by (simp add: obj_at_def node_codec_def)
    with True show ?thesis by (auto simp: get')
  next
    case False
    then have "filter (\<lambda>x. node_name x = name \<and> stale ?cut x) all = []"
      unfolding filter_empty_conv by (metis mem)
    then have "map_of (checkAll r now s) (key_of kNodes [] name) = map_of s (key_of kNodes [] name)"
      unfolding chk loop by simp
    then have "mem_cluster.nodes.objs (checkAll r now s) (key_of kNodes [] name) = Some n"
      using n by (simp add: obj_at_def)
    with False show ?thesis by (auto simp: get')
  qed
qed

theorem node_health_complete_witness:
  "\<exists>n'. reg_Get (reg_New memStore kNodes node_codec) [] ''n1''
      (checkAll (NewNodeHealthReconciler (reg_New memStore kNodes node_codec) 0 0) (100 * Second) ex_two_pods) = Inr n' \<and>
    \<not> node_ready n'"
proof -
  have get: "reg_Get (reg_New memStore kNodes node_codec) [] ''n1'' ex_two_pods = Inr (ex_node_obj ''n1'')" by code_simp
  have "stale (health_cutoff (NewNodeHealthReconciler (reg_New memStore kNodes node_codec) 0 0) (100 * Second))
      (ex_node_obj ''n1'')"
    by (simp add: stale_def health_cutoff_def NewNodeHealthReconciler_def Second_def ex_node_obj_def zero_messages)
  with node_health_complete[OF ex_two_pods_ok refl get, of 0 0 "100 * Second"] show ?thesis by auto
qed

end
