(* ===== verification/Keeps.thy ===== *)
theory Keeps
  imports Cluster
begin

text \<open>
  A small program logic for actions: \<open>keeps I f R\<close> says that \<open>f\<close> keeps the invariant \<open>I\<close>,
  whether or not it fails, and that a value it returns satisfies \<open>R\<close>. The rules follow the
  combinators of the prelude. The locale \<open>entry_guard\<close> uses it for invariants that say the
  same of every entry of a store: a write keeps such an invariant when the entry it writes
  satisfies it, whatever else the store holds, and everything read satisfies it.
\<close>

section \<open>Actions that keep an invariant\<close>

definition keeps :: "('s \<Rightarrow> bool) \<Rightarrow> ('s, 'a) action \<Rightarrow> ('a \<Rightarrow> bool) \<Rightarrow> bool" where
  "keeps I f R \<longleftrightarrow> (\<forall>s. I s \<longrightarrow> I (snd (f s)) \<and> (\<forall>x. fst (f s) = Inr x \<longrightarrow> R x))"

abbreviation any :: "'a \<Rightarrow> bool" where
  "any x \<equiv> True"

named_theorems keeps_intro \<open>rules of the logic, one per combinator\<close>

lemma keepsD: "keeps I f R \<Longrightarrow> I s \<Longrightarrow> I (snd (f s))"
  by (simp add: keeps_def)

lemma keepsD2: "keeps I f R \<Longrightarrow> I s \<Longrightarrow> f s = (Inr x, s') \<Longrightarrow> R x \<and> I s'"
  by (auto simp: keeps_def)

lemma keeps_any: "keeps I f R \<Longrightarrow> keeps I f any"
  by (simp add: keeps_def)

lemma keeps_weaken: "keeps I f R \<Longrightarrow> (\<And>x. R x \<Longrightarrow> R' x) \<Longrightarrow> keeps I f R'"
  by (simp add: keeps_def)

lemma keeps_ret [keeps_intro]: "R x \<Longrightarrow> keeps I (ret x) R"
  by (simp add: keeps_def ret_def)

lemma keeps_throw [keeps_intro]: "keeps I (throw e) R"
  by (simp add: keeps_def throw_def)

lemma keeps_bind:
  "keeps I f R' \<Longrightarrow> (\<And>x. R' x \<Longrightarrow> keeps I (g x) R) \<Longrightarrow> keeps I (bindA f g) R"
  by (auto simp: keeps_def bindA_def split: prod.splits sum.splits)

lemma keeps_wrapA [keeps_intro]: "keeps I f R \<Longrightarrow> keeps I (wrapA m f) R"
  by (auto simp: keeps_def wrapA_def split: prod.splits sum.splits)

lemma keeps_statusA [keeps_intro]: "keeps I f R \<Longrightarrow> keeps I (statusA c m f) R"
  by (auto simp: keeps_def statusA_def split: prod.splits sum.splits)

lemma keeps_logA [keeps_intro]: "keeps I f R \<Longrightarrow> keeps I (logA f) any"
  by (auto simp: keeps_def logA_def split: prod.splits sum.splits)

lemma keeps_readA [keeps_intro]: "(\<And>s x. I s \<Longrightarrow> g s = Inr x \<Longrightarrow> R x) \<Longrightarrow> keeps I (readA g) R"
  by (simp add: keeps_def readA_def)

lemma keeps_forA [keeps_intro]: "(\<And>x. x \<in> set xs \<Longrightarrow> keeps I (f x) any) \<Longrightarrow> keeps I (forA f xs) any"
  by (induction xs) (auto intro: keeps_bind keeps_ret)

lemma keeps_if [keeps_intro]:
  "(b \<Longrightarrow> keeps I f R) \<Longrightarrow> (\<not> b \<Longrightarrow> keeps I g R) \<Longrightarrow> keeps I (if b then f else g) R"
  by simp

text \<open>An action that looks at the state before it acts.\<close>

lemma keepsI:
  "(\<And>s. I s \<Longrightarrow> I (snd (f s))) \<Longrightarrow> (\<And>s x s'. I s \<Longrightarrow> f s = (Inr x, s') \<Longrightarrow> R x) \<Longrightarrow> keeps I f R"
  by (auto simp: keeps_def) (metis prod.collapse)

lemma keeps_look:
  assumes "\<And>s. I s \<Longrightarrow> \<exists>g. f s = g s \<and> keeps I g R"
  shows "keeps I f R"
  unfolding keeps_def
proof (intro allI impI)
  fix s assume s: "I s"
  with assms obtain g where "f s = g s" "keeps I g R" by blast
  with s show "I (snd (f s)) \<and> (\<forall>x. fst (f s) = Inr x \<longrightarrow> R x)" by (simp add: keeps_def)
qed

section \<open>Invariants of every entry\<close>

definition entries :: "('s \<Rightarrow> bool) \<Rightarrow> ('s \<Rightarrow> string \<rightharpoonup> 'b) \<Rightarrow> (string \<Rightarrow> 'b \<Rightarrow> bool) \<Rightarrow> 's \<Rightarrow> bool" where
  "entries good repr P s \<longleftrightarrow> good s \<and> (\<forall>k b. repr s k = Some b \<longrightarrow> P k b)"

locale entry_guard = store_laws S inv abs
  for S :: "('s, 'b) Store" and inv :: "'s \<Rightarrow> bool" and abs :: "'s \<Rightarrow> (string \<rightharpoonup> 'b)" +
  fixes P :: "string \<Rightarrow> 'b \<Rightarrow> bool"
begin

abbreviation I :: "'s \<Rightarrow> bool" where
  "I \<equiv> entries inv abs P"

lemma st_Put_entry: "P k b \<Longrightarrow> keeps I (st_Put S k b) any"
proof (rule keepsI)
  fix s assume P: "P k b" and s: "I s"
  then have i: "inv s" by (simp add: entries_def)
  obtain r s' where put: "st_Put S k b s = (r, s')" by fastforce
  with put_inv[OF i, of k b] have "inv s'" by simp
  moreover from put put_ok[OF i] put_err[OF i] have "abs s' = abs s \<or> abs s' = (abs s)(k \<mapsto> b)"
    by (cases r) auto
  ultimately show "I (snd (st_Put S k b s))" using P s put by (auto simp: entries_def split: if_splits)
qed simp

lemma st_Delete_entry [keeps_intro]: "keeps I (st_Delete S k) any"
proof (rule keepsI)
  fix s assume s: "I s"
  then have i: "inv s" by (simp add: entries_def)
  obtain r s' where del: "st_Delete S k s = (r, s')" by fastforce
  with delete_inv[OF i, of k] have "inv s'" by simp
  moreover from del delete_ok[OF i] delete_err[OF i] have "abs s' = abs s \<or> abs s' = (abs s)(k := None)"
    by (cases r) auto
  ultimately show "I (snd (st_Delete S k s))" using s del by (auto simp: entries_def split: if_splits)
qed simp

lemma put_entry:
  assumes "\<And>b. proto_Marshal C x = Inr b \<Longrightarrow> P (key_of kind ns n) b"
  shows "keeps I (reg_Put (reg_New S kind C) ns n x) any"
proof (cases "proto_Marshal C x")
  case (Inr b)
  from st_Put_entry[OF assms[OF this]] Inr show ?thesis by (simp add: keeps_def registry_defs actions)
qed (simp add: keeps_def registry_defs actions)

lemma delete_entry [keeps_intro]: "keeps I (reg_Delete (reg_New S kind C) ns n) any"
  using st_Delete_entry[of "key_of kind ns n"] by (simp add: keeps_def registry_defs)

lemma get_entry:
  assumes "I s" "reg_Get (reg_New S kind C) ns n s = Inr x"
  shows "\<exists>b. P (key_of kind ns n) b \<and> proto_Unmarshal C b = Inr x"
  using assms by (auto simp: entries_def registry_defs get_iff split: sum.splits)

lemma unmarshal_all_mem:
  "unmarshal_all C raw = Inr xs \<Longrightarrow> x \<in> set xs \<Longrightarrow> \<exists>k b. (k, b) \<in> set raw \<and> proto_Unmarshal C b = Inr x"
  by (induction raw arbitrary: xs) (fastforce split: sum.splits prod.splits)+

lemma list_entry:
  assumes "I s" "reg_List (reg_New S kind C) ns s = Inr xs" "x \<in> set xs"
  shows "\<exists>k b. HasPrefix k (reg_prefix kind []) \<and> P k b \<and> proto_Unmarshal C b = Inr x"
proof -
  from assms(1) have i: "inv s" by (simp add: entries_def)
  from list_ok[OF i] obtain m where m: "st_List S (reg_prefix kind ns) s = Inr m"
    "map_of m = (\<lambda>k. if HasPrefix k (reg_prefix kind ns) then abs s k else None)" "distinct (map fst m)" by blast
  from assms(2) m(1) have "unmarshal_all C m = Inr xs" by (simp add: registry_defs)
  from unmarshal_all_mem[OF this assms(3)] obtain k b where kb: "(k, b) \<in> set m" "proto_Unmarshal C b = Inr x" by blast
  with m(2,3) have "HasPrefix k (reg_prefix kind ns)" "abs s k = Some b"
    by (metis map_of_is_SomeI option.distinct(1))+
  with assms(1) kb(2) show ?thesis unfolding entries_def using reg_prefix_ns_kind by blast
qed

end

end
