(* ===== verification/Footprint.thy ===== *)
theory Footprint
  imports Deployments Keeps
begin

text \<open>
  Which keys of the store a pass of the deployment controller writes, whatever comes of the
  pass. The invariant \<open>framed\<close> says of a state that it agrees with the first one outside a set
  of keys; every step of the pass keeps it for the deployment's footprint.
\<close>

section \<open>The footprint of a deployment\<close>

text \<open>
  The keys of the pods it owns, the keys of its ordinal names, its own key, and, when its
  template mounts volumes, the keys of the volumes of its namespace.
\<close>

definition footprint :: "Deployment \<Rightarrow> (string \<rightharpoonup> Pod) \<Rightarrow> string set" where
  "footprint d pm = mine d pm \<union> range (\<lambda>j. pkey (newPod d j)) \<union> {dep_key d} \<union>
     (if dep_mounts d = [] then {} else range (key_of kVolumes (dep_namespace d)))"

context cluster
begin

definition framed :: "Deployment \<Rightarrow> 's \<Rightarrow> 's \<Rightarrow> bool" where
  "framed d s0 s \<longleftrightarrow> ok s \<and> (\<forall>k. k \<notin> footprint d (pods.objs s0) \<longrightarrow> abs s k = abs s0 k)"

lemma framed_mine:
  assumes "framed d s0 s" "k \<in> mine d (pods.objs s)"
  shows "k \<in> footprint d (pods.objs s0)"
proof (rule ccontr)
  assume k: "k \<notin> footprint d (pods.objs s0)"
  with assms(1) have "pods.objs s k = pods.objs s0 k" by (simp add: framed_def obj_at_def)
  with assms(2) k show False by (auto simp: mine_def footprint_def)
qed

lemma framed_step:
  assumes "framed d s0 s" "ok s1" "\<And>k. k \<noteq> k0 \<Longrightarrow> abs s1 k = abs s k" "k0 \<in> footprint d (pods.objs s0)"
  shows "framed d s0 s1"
  unfolding framed_def
proof (intro conjI allI impI)
  fix k assume "k \<notin> footprint d (pods.objs s0)"
  moreover with assms(4) have "k \<noteq> k0" by blast
  ultimately show "abs s1 k = abs s0 k" using assms(1,3) by (simp add: framed_def)
qed (rule assms(2))

abbreviation touchable :: "Deployment \<Rightarrow> 's \<Rightarrow> Pod \<Rightarrow> bool" where
  "touchable d s0 p \<equiv> pkey p \<in> footprint d (pods.objs s0)"

lemma framed_put_pod:
  assumes "touchable d s0 p"
  shows "keeps (framed d s0) (reg_Put pods.R (pod_namespace p) (pod_name p) p) any"
proof (rule keepsI)
  fix s assume s: "framed d s0 s"
  then have o: "ok s" by (simp add: framed_def)
  from framed_step[OF s put_pod(1)[OF o refl refl] pods.reg_Put_frame[OF okD(1)[OF o]]] assms
  show "framed d s0 (snd (reg_Put pods.R (pod_namespace p) (pod_name p) p s))" by (simp add: pkey_def)
qed simp

lemma framed_delete_pod:
  assumes "touchable d s0 p" "dr_pods r = pods.R"
  shows "keeps (framed d s0) (delete_pod_obj r p) any"
  unfolding delete_pod_obj_def assms(2)
proof (rule keepsI)
  fix s assume s: "framed d s0 s"
  then have o: "ok s" by (simp add: framed_def)
  from framed_step[OF s delete_pod(1)[OF o] pods.reg_Delete_frame[OF okD(1)[OF o]]] assms(1)
  show "framed d s0 (snd (reg_Delete pods.R (pod_namespace p) (pod_name p) s))" by (simp add: pkey_def)
qed simp

lemma framed_put_vol:
  assumes "dep_mounts d \<noteq> []"
  shows "keeps (framed d s0) (reg_Put vols.R (dep_namespace d) n v) any"
proof (rule keepsI)
  fix s assume s: "framed d s0 s"
  then have o: "ok s" by (simp add: framed_def)
  have "key_of kVolumes (dep_namespace d) n \<in> footprint d (pods.objs s0)" using assms by (simp add: footprint_def)
  from framed_step[OF s put_vol(1)[OF o] vols.reg_Put_frame[OF okD(1)[OF o]] this]
  show "framed d s0 (snd (reg_Put vols.R (dep_namespace d) n v s))" by simp
qed simp

section \<open>The steps of a pass\<close>

lemma owned_loop_framed:
  "dr_pods r = pods.R \<Longrightarrow> \<forall>p \<in> set ps. owner_of p = dep_name d \<longrightarrow> touchable d s0 p \<Longrightarrow>
   keeps (framed d s0) (owned_loop r d ps) (list_all (touchable d s0))"
proof (induction ps)
  case Nil
  then show ?case by (simp add: keeps_def)
next
  case (Cons p ps)
  then have rest: "keeps (framed d s0) (owned_loop r d ps) (list_all (touchable d s0))" by simp
  show ?case
  proof (cases "owner_of p = dep_name d")
    case True
    with Cons.prems have t: "touchable d s0 p" by simp
    have del: "keeps (framed d s0) (bindA (delete_pod_obj r p) (\<lambda>_. owned_loop r d ps)) (list_all (touchable d s0))"
      by (rule keeps_bind[OF framed_delete_pod[OF t Cons.prems(1)] rest])
    have keep: "keeps (framed d s0) (bindA (owned_loop r d ps) (\<lambda>owned. ret (p # owned))) (list_all (touchable d s0))"
      by (rule keeps_bind[OF rest]) (use t in \<open>auto intro: keeps_ret\<close>)
    show ?thesis
    proof (rule keeps_look)
      fix s
      show "\<exists>g. owned_loop r d (p # ps) s = g s \<and> keeps (framed d s0) g (list_all (touchable d s0))"
      proof (cases "nodeReady r (pod_node p) s")
        case (Inl e)
        have "keeps (framed d s0) (throw e) (list_all (touchable d s0))" by (rule keeps_throw)
        then have th: "\<exists>g. (Inl e, s) = g s \<and> keeps (framed d s0) g (list_all (touchable d s0))"
          by (intro exI[of _ "throw e"]) (simp add: throw_def)
        with True Inl show ?thesis using del keep by (cases "pod_node p = []"; cases "terminal (pod_phase p)") auto
      next
        case (Inr b)
        with True show ?thesis using del keep by (cases "pod_node p = []"; cases b; cases "terminal (pod_phase p)") auto
      qed
    qed
  next
    case False
    then have "owned_loop r d (p # ps) = owned_loop r d ps" by (auto simp: Let_def)
    with rest show ?thesis by metis
  qed
qed

lemma ownedPods_framed:
  assumes "dr_pods r = pods.R"
  shows "keeps (framed d s0) (ownedPods r d) (list_all (touchable d s0))"
  unfolding ownedPods_def
proof (rule keeps_bind)
  show "keeps (framed d s0) (readA (reg_List (dr_pods r) (dep_namespace d)))
      (\<lambda>all. \<forall>p \<in> set all. owner_of p = dep_name d \<longrightarrow> touchable d s0 p)"
  proof (rule keeps_readA)
    fix s all assume s: "framed d s0 s" and l: "reg_List (dr_pods r) (dep_namespace d) s = Inr all"
    have o: "ok s" using s by (simp add: framed_def)
    obtain ps where "reg_List pods.R (dep_namespace d) s = Inr ps"
      "\<forall>p \<in> set ps. pods.objs s (pkey p) = Some p \<and> (owner_of p = dep_name d \<longrightarrow> pkey p \<in> mine d (pods.objs s))"
      by (rule owned_list[OF o, of d])
    with l assms framed_mine[OF s] show "\<forall>p \<in> set all. owner_of p = dep_name d \<longrightarrow> touchable d s0 p" by auto
  qed
qed (rule owned_loop_framed[OF assms])

lemma create_loop_framed:
  "dr_pods r = pods.R \<Longrightarrow> framed d s0 s \<Longrightarrow> framed d s0 (snd (create_loop r d claimed occ i todo s))"
proof (induction r d claimed occ i todo s rule: create_loop.induct)
  case (1 r d claimed occ i todo s)
  let ?p = "pin_pod claimed (newPod d i)"
  obtain res s1 where put: "wrapA ''create pod'' (reg_Put (dr_pods r) (pod_namespace ?p) (pod_name ?p) ?p) s = (res, s1)" by fastforce
  have "touchable d s0 ?p" by (simp add: footprint_def)
  from keepsD[OF keeps_wrapA[OF framed_put_pod[OF this]] 1(4), of "''create pod''"] put 1(3) have "framed d s0 s1"
    by (metis snd_conv)
  with 1 put show ?case by (subst create_loop.simps) (auto simp: Let_def split: sum.splits prod.splits)
qed

lemma delete_loop_framed:
  "dr_pods r = pods.R \<Longrightarrow> list_all (touchable d s0) ps \<Longrightarrow> keeps (framed d s0) (delete_loop r ps) any"
  by (induction ps) (auto intro!: keeps_intro keeps_bind[where R' = any] framed_delete_pod)

lemma scale_framed:
  assumes "dr_pods r = pods.R" "list_all (touchable d s0) owned"
  shows "keeps (framed d s0) (scale r d owned) any"
proof -
  have "keeps (framed d s0) (create_loop r d c occ i n) any" for c occ i n
    using create_loop_framed[OF assms(1)] by (auto intro: keepsI)
  moreover have "list_all (touchable d s0) (drop n owned)" for n
    using assms(2) by (auto simp: list_all_iff dest: in_set_dropD)
  ultimately show ?thesis
    unfolding scale_def Let_def resolveVolumeNode_def
    by (auto intro!: keeps_intro keeps_bind[where R' = any] delete_loop_framed assms)
qed

lemma schedulePod_framed:
  assumes "touchable d s0 p" "framed d s0 s"
  shows "framed d s0 (snd (schedulePod pods.R sch cs p s))"
proof -
  have put: "framed d s0 (snd (wrapA w (reg_Put pods.R (pod_namespace p) (pod_name p) q) s))"
    if "pod_metadata q = pod_metadata p" for q w
  proof -
    have q: "pod_namespace q = pod_namespace p" "pod_name q = pod_name p" "touchable d s0 q"
      using that assms(1) by (simp_all add: pkey_def)
    show ?thesis using keepsD[OF keeps_wrapA[OF framed_put_pod[OF q(3)]] assms(2)] by (simp only: q)
  qed
  then show ?thesis
    using assms(2) by (auto simp: schedulePod_def Let_def case_prod_beta simp del: snd_wrapA split: sum.splits)
qed

lemma schedule_each_framed:
  "list_all (touchable d s0) ps \<Longrightarrow> framed d s0 s \<Longrightarrow> framed d s0 (snd (schedule_each pods.R sch cs ps s))"
proof (induction ps arbitrary: s)
  case (Cons p ps)
  then have "framed d s0 (snd (schedulePod pods.R sch cs p s))" by (intro schedulePod_framed) simp_all
  with Cons show ?case by (auto simp: case_prod_beta split: sum.splits prod.splits)
qed simp

lemma place_framed:
  "dr_pods r = pods.R \<Longrightarrow> framed d s0 s \<Longrightarrow> list_all (touchable d s0) ps \<Longrightarrow> framed d s0 (snd (place r ps s))"
  using schedule_each_framed[of d s0 ps s]
  by (auto simp: place_def scheduleUnassigned_def case_prod_beta split: sum.splits)

lemma claim_loop_framed:
  "dr_volumes r = vols.R \<Longrightarrow> dep_mounts d \<noteq> [] \<Longrightarrow> keeps (framed d s0) (claim_loop r d node ms) any"
proof (induction ms)
  case (Cons m ms)
  then have rest: "keeps (framed d s0) (claim_loop r d node ms) any" by simp
  have put: "framed d s0 (snd (bindA (reg_Put vols.R (dep_namespace d) n v) (\<lambda>_. claim_loop r d node ms) s))"
    if "framed d s0 s" for n v s
    by (rule keepsD[OF keeps_bind[OF framed_put_vol[OF Cons.prems(2)] rest] that])
  show ?case
    by (rule keepsI) (use Cons.prems in \<open>auto simp: Let_def intro: keepsD[OF rest] put split: sum.splits option.splits\<close>)
qed (simp add: keeps_def)

lemma update_status_framed:
  assumes "dr_deployments r = deps.R"
  shows "keeps (framed d s0) (update_status r d owned) any"
proof (rule keepsI)
  fix s assume s: "framed d s0 s"
  then have o: "ok s" by (simp add: framed_def)
  show "framed d s0 (snd (update_status r d owned s))"
  proof (cases "reg_Get deps.R (dep_namespace d) (dep_name d) s")
    case (Inl e)
    with s assms show ?thesis by (simp add: update_status_def actions)
  next
    case (Inr cur)
    let ?c = "cur\<lparr>dep_status := Some \<lparr>dst_replicas = wrap32 (int (length owned)), dst_ready_replicas = count_ready owned\<rparr>\<rparr>"
    from Inr have cur: "deps.objs s (dep_key d) = Some cur"
      using deps.reg_Get_obj_at[OF okD(1,4)[OF o], of "dep_namespace d" "dep_name d"]
      by (simp add: dep_key_def split: option.splits)
    have "key_of kDeployments (dep_namespace ?c) (dep_name ?c) = dep_key d"
      using okD(8)[OF o cur] by simp
    moreover have "snd (update_status r d owned s) = snd (reg_Put deps.R (dep_namespace ?c) (dep_name ?c) ?c s)"
      using Inr assms by (simp add: update_status_def actions Let_def)
    ultimately show ?thesis
      using framed_step[OF s put_dep(1)[OF o refl refl, of ?c] deps.reg_Put_frame[OF okD(1)[OF o]]]
      by (simp add: footprint_def)
  qed
qed simp

lemma reconcileOne_framed:
  assumes "dr_pods r = pods.R" "dr_deployments r = deps.R" "dr_volumes r = vols.R"
  shows "keeps (framed d s0) (reconcileOne r d) any"
proof -
  have place: "keeps (framed d s0) (place r ps) any" if "list_all (touchable d s0) ps" for ps
    using place_framed[OF assms(1)] that by (auto intro: keepsI)
  have claim: "keeps (framed d s0) (claimVolumeNodes r d ps) any" if "dep_mounts d \<noteq> []" for ps
    using claim_loop_framed[OF assms(3) that] by (auto simp: claimVolumeNodes_def intro!: keeps_intro)
  show ?thesis
    unfolding reconcileOne_def
    by (rule keeps_bind, rule keeps_wrapA, rule ownedPods_framed[OF assms(1)], rule keeps_bind, erule scale_framed[OF assms(1)],
        rule keeps_bind, rule keeps_wrapA, rule ownedPods_framed[OF assms(1)], rule keeps_bind, erule place, rule keeps_bind[where R' = any])
      (auto intro!: keeps_intro claim update_status_framed assms)
qed

end

section \<open>Properties\<close>

text \<open>
  C21: what a pass of the deployment controller can change. Whether the pass succeeds or stops with
  an error, and whatever nodes are down, every entry of the store keeps its value, of any kind
  (pods, nodes, deployments, volumes, services, secrets, images), but for the deployment's
  own entry, the pods that carry its owner label in its namespace, the pods under its ordinal
  names \<open>name-0\<close>, \<open>name-1\<close>, \<open>...\<close> (a foreign pod with such a name is overwritten, as
  \<open>ordinal_overwrites_foreign_pod\<close> shows), and, if its template mounts volumes, the volumes of
  its namespace. When the pass succeeds, with clean names, a replica count that is a
  non-negative \<open>int32\<close>, and the nodes pinned by the template or by a claimed volume up, the
  deployment's entry changes in its status only, which then holds the wanted number.
\<close>

theorem reconcile_footprint:
  assumes "cluster S good repr CP CN CD CV" and "cluster_ok good repr CP CN CD CV s"
    and "r = NewDeploymentReconciler (reg_New S kDeployments CD) (reg_New S kPods CP) (reg_New S kNodes CN)
           (reg_New S kVolumes CV) Schedule rs"
    and "reconcileOne r d s = (res, s')"
  shows "(\<forall>k. k \<notin> mine d (obj_at repr CP kPods s) \<longrightarrow> (\<forall>j. k \<noteq> key_of kPods (dep_namespace d) (dep_name d @ ''-'' @ Itoa j)) \<longrightarrow>
        k \<noteq> key_of kDeployments (dep_namespace d) (dep_name d) \<longrightarrow>
        (dep_mounts d = [] \<or> (\<forall>n. k \<noteq> key_of kVolumes (dep_namespace d) n)) \<longrightarrow> repr s' k = repr s k) \<and>
    (res = Inr () \<longrightarrow> 0 \<le> dep_replicas d \<longrightarrow> in32 (dep_replicas d) \<longrightarrow> clean_dep d \<longrightarrow>
      (\<forall>k p. obj_at repr CP kPods s k = Some p \<longrightarrow> clean_pod p) \<longrightarrow>
      targets_up (obj_at repr CN kNodes s) (obj_at repr CV kVolumes s) d \<longrightarrow>
      (\<exists>cur ready. obj_at repr CD kDeployments s (key_of kDeployments (dep_namespace d) (dep_name d)) = Some cur \<and>
         obj_at repr CD kDeployments s' (key_of kDeployments (dep_namespace d) (dep_name d)) =
           Some (cur\<lparr>dep_status := Some \<lparr>dst_replicas = wanted d, dst_ready_replicas = ready\<rparr>\<rparr>)))"
proof (intro conjI allI impI)
  have r: "dr_pods r = reg_New S kPods CP" "dr_deployments r = reg_New S kDeployments CD" "dr_volumes r = reg_New S kVolumes CV"
    by (simp_all add: assms(3) NewDeploymentReconciler_def)
  have "cluster.framed good repr CP CN CD CV d s s"
    using assms(2) by (simp add: cluster.framed_def[OF assms(1)])
  from keepsD[OF cluster.reconcileOne_framed[OF assms(1) r] this]
  have f: "k \<notin> footprint d (obj_at repr CP kPods s) \<Longrightarrow> repr s' k = repr s k" for k
    by (simp add: cluster.framed_def[OF assms(1)] assms(4))
  fix k assume "k \<notin> mine d (obj_at repr CP kPods s)" "\<forall>j. k \<noteq> key_of kPods (dep_namespace d) (dep_name d @ ''-'' @ Itoa j)"
    "k \<noteq> key_of kDeployments (dep_namespace d) (dep_name d)" "dep_mounts d = [] \<or> (\<forall>n. k \<noteq> key_of kVolumes (dep_namespace d) n)"
  then show "repr s' k = repr s k" by (intro f) (auto simp: footprint_def dep_key_def)
next
  assume "res = Inr ()" "0 \<le> dep_replicas d" "in32 (dep_replicas d)" "clean_dep d"
    "\<forall>k p. obj_at repr CP kPods s k = Some p \<longrightarrow> clean_pod p" "targets_up (obj_at repr CN kNodes s) (obj_at repr CV kVolumes s) d"
  with cluster.reconcileOne_ok[OF assms(1,2)] assms(3,4)
  show "\<exists>cur ready. obj_at repr CD kDeployments s (key_of kDeployments (dep_namespace d) (dep_name d)) = Some cur \<and>
         obj_at repr CD kDeployments s' (key_of kDeployments (dep_namespace d) (dep_name d)) =
           Some (cur\<lparr>dep_status := Some \<lparr>dst_replicas = wanted d, dst_ready_replicas = ready\<rparr>\<rparr>)"
    unfolding dep_key_def[symmetric] by blast
qed

theorem reconcile_footprint_witness:
  "map_of (snd (reconcileOne ex_rec (ex_dep 2) ex_state)) ''/registry/nodes/n1'' = Some (WNode (ex_node_obj ''n1'')) \<and>
   (\<exists>cur ready. obj_at map_of dep_codec kDeployments (snd (reconcileOne ex_rec (ex_dep 2) ex_state)) ''/registry/deployments/default/web'' =
     Some (cur\<lparr>dep_status := Some \<lparr>dst_replicas = 2, dst_ready_replicas = ready\<rparr>\<rparr>))"
proof -
  note fp = reconcile_footprint[OF mem_cluster.cluster_axioms ex_state_ok ex_rec_def ex_run']
  have k: "key_of kDeployments (dep_namespace (ex_dep 2)) (dep_name (ex_dep 2)) = ''/registry/deployments/default/web''" by code_simp
  have m: "dep_mounts (ex_dep 2) = []" "wanted (ex_dep 2) = 2" by code_simp+
  have "''/registry/nodes/n1'' \<notin> mine (ex_dep 2) (obj_at map_of pod_codec kPods ex_state)"
    by (simp add: mine_def HasPrefix_def reg_prefix_def ex_dep_def)
  moreover have "''/registry/nodes/n1'' \<noteq> key_of kPods ns n" for ns n by (simp add: key_of_def)
  ultimately have "map_of (snd (reconcileOne ex_rec (ex_dep 2) ex_state)) ''/registry/nodes/n1'' = map_of ex_state ''/registry/nodes/n1''"
    using fp m unfolding k by simp
  moreover have "map_of ex_state ''/registry/nodes/n1'' = Some (WNode (ex_node_obj ''n1''))" by (simp add: ex_state_def)
  ultimately show ?thesis using fp ex_assms ex_state_clean unfolding k m by auto
qed

text \<open>
  A pod of nobody's that happens to have an ordinal name of a deployment is replaced: the
  controller counts only pods with its owner label, takes the ordinal for free and puts its
  own pod under the name.
\<close>

definition ex_foreign :: Pod where
  "ex_foreign = (newPod (ex_dep 1) 0)\<lparr>pod_metadata := Some (zero_ObjectMeta\<lparr>meta_name := ''web-0'', meta_namespace := ''default''\<rparr>)\<rparr>"

lemma ordinal_overwrites_foreign_pod:
  "let s = [(''/registry/nodes/n1'', WNode (ex_node_obj ''n1'')), (''/registry/deployments/default/web'', WDeployment (ex_dep 1)),
       (''/registry/pods/default/web-0'', WPod ex_foreign)]
   in owner_of ex_foreign = [] \<and>
      map_option owner_of (obj_at map_of pod_codec kPods (snd (reconcileOne ex_rec (ex_dep 1) s)) ''/registry/pods/default/web-0'') = Some ''web''"
  by code_simp

end
