(* ===== verification/Autoscaler.thy ===== *)
theory Autoscaler
  imports Footprint Complex_Main
begin

text \<open>
  Cluster capacity and the horizontal autoscaler: \<^verbatim>\<open>internal/controller/capacity.go\<close> and
  \<^verbatim>\<open>internal/controller/hpa.go\<close>. The \<open>float64\<close> operations are a parameter of the model
  (\<open>float_ops\<close>): conversion from integers, division, addition, multiplication, and
  \<open>int32(math.Ceil(x))\<close>, whose value out of range Go leaves to the implementation. The
  bounds proved hold whatever these operations return.
\<close>

section \<open>Capacity\<close>

record clusterCapacity =
  cc_cpuCapacity :: int64
  cc_cpuUsed :: int64
  cc_memCapacity :: int64
  cc_memUsed :: int64
  cc_acceleratorCapacity :: "(string, int64) gomap"
  cc_acceleratorUsed :: "(string, int64) gomap"

definition zero_capacity :: clusterCapacity where
  "zero_capacity = \<lparr>cc_cpuCapacity = 0, cc_cpuUsed = 0, cc_memCapacity = 0, cc_memUsed = 0,
     cc_acceleratorCapacity = [], cc_acceleratorUsed = []\<rparr>"

definition capacity_step :: "(string, nodeResourceUsage) gomap \<Rightarrow> clusterCapacity \<Rightarrow> Node \<Rightarrow> clusterCapacity" where
  "capacity_step usage result n =
     (if \<not> NodeStatus_GetReady (node_status n) \<or> NodeSpec_GetUnschedulable (node_spec n) then result
      else (let alloc = NodeStatus_GetAllocatable (node_status n); u = uget usage (node_name n)
            in \<lparr>cc_cpuCapacity = wrap64 (cc_cpuCapacity result + ResourceList_GetCpuMillis alloc),
                cc_cpuUsed = wrap64 (cc_cpuUsed result + nru_cpuMillis u),
                cc_memCapacity = wrap64 (cc_memCapacity result + ResourceList_GetMemoryBytes alloc),
                cc_memUsed = wrap64 (cc_memUsed result + nru_memoryBytes u),
                cc_acceleratorCapacity = add_accelerators (cc_acceleratorCapacity result) (ResourceList_GetAccelerators alloc),
                cc_acceleratorUsed = add_accelerators (cc_acceleratorUsed result) (nru_accelerators u)\<rparr>))"

definition computeClusterCapacity :: "('s, 'b, Node) Registry \<Rightarrow> (string, nodeResourceUsage) gomap \<Rightarrow> 's \<Rightarrow>
    clusterCapacity res" where
  "computeClusterCapacity nodes usage s =
     (case reg_List nodes [] s of
        Inl e \<Rightarrow> Inl e | Inr all \<Rightarrow> Inr (foldl (capacity_step usage) zero_capacity all))"

definition fitCount :: "int64 \<Rightarrow> int64 \<Rightarrow> int32" where
  "fitCount remaining perUnit =
     (if perUnit \<le> 0 then MaxInt32
      else if remaining \<le> 0 then 0
      else (let fit = go_div remaining perUnit in if fit > MaxInt32 then MaxInt32 else wrap32 fit))"

definition lower :: "int32 \<Rightarrow> int32 \<Rightarrow> int32" where
  "lower limit fit = (if fit < limit then fit else limit)"

definition maxAdditionalReplicas :: "clusterCapacity \<Rightarrow> int64 \<Rightarrow> int64 \<Rightarrow> (string, int64) gomap \<Rightarrow> int32" where
  "maxAdditionalReplicas c perReplicaCPU perReplicaMem perReplicaAccel =
     foldl (\<lambda>max (name, per). lower max
        (fitCount (wrap64 (iget (cc_acceleratorCapacity c) name - iget (cc_acceleratorUsed c) name)) per))
       (lower (lower MaxInt32 (fitCount (wrap64 (cc_cpuCapacity c - cc_cpuUsed c)) perReplicaCPU))
          (fitCount (wrap64 (cc_memCapacity c - cc_memUsed c)) perReplicaMem))
       perReplicaAccel"

section \<open>The autoscaler\<close>

record 'f float_ops =
  fo_of_int :: "int \<Rightarrow> 'f"
  fo_add :: "'f \<Rightarrow> 'f \<Rightarrow> 'f"
  fo_mul :: "'f \<Rightarrow> 'f \<Rightarrow> 'f"
  fo_div :: "'f \<Rightarrow> 'f \<Rightarrow> 'f"
  fo_ceil32 :: "'f \<Rightarrow> int32"

record ('s, 'b) HorizontalAutoscaler =
  ha_deployments :: "('s, 'b, Deployment) Registry"
  ha_pods :: "('s, 'b, Pod) Registry"
  ha_nodes :: "('s, 'b, Node) Registry"
  ha_resync :: int

definition NewHorizontalAutoscaler where
  "NewHorizontalAutoscaler deployments pods nodes resync =
     \<lparr>ha_deployments = deployments, ha_pods = pods, ha_nodes = nodes,
      ha_resync = (if resync \<le> 0 then 15 * Second else resync)\<rparr>"

definition per_replica :: "Deployment \<Rightarrow> int64 \<times> int64 \<times> (string, int64) gomap" where
  "per_replica d =
     (case foldl request_step (0, 0, [], []) (PodSpec_GetContainers (dep_template d)) of
        (cpu, mem, acc, ports) \<Rightarrow> (cpu, mem, acc))"

text \<open>The last lines of \<open>capToClusterCapacity\<close>: the capped number and the shortfall.\<close>

definition cap_replicas :: "int32 \<Rightarrow> int32 \<Rightarrow> int32 \<Rightarrow> int32 \<times> int32" where
  "cap_replicas currentReplicas desired maxAdditional =
     (if wrap32 (desired - currentReplicas) \<le> maxAdditional then (desired, 0)
      else (let capped = wrap32 (currentReplicas + maxAdditional);
                capped = (if capped < currentReplicas then currentReplicas else capped)
            in (capped, wrap32 (desired - capped))))"

definition capToClusterCapacity :: "('s, 'b) HorizontalAutoscaler \<Rightarrow> Deployment \<Rightarrow> int32 \<Rightarrow> int32 \<Rightarrow> 's \<Rightarrow>
    (int32 \<times> int32) res" where
  "capToClusterCapacity r d currentReplicas desired s =
     (case computeNodeUsage (ha_pods r) s of
        Inl e \<Rightarrow> Inl e
      | Inr usage \<Rightarrow>
          (case computeClusterCapacity (ha_nodes r) usage s of
             Inl e \<Rightarrow> Inl e
           | Inr capacity \<Rightarrow>
               (case per_replica d of (cpu, mem, acc) \<Rightarrow>
                  Inr (cap_replicas currentReplicas desired (maxAdditionalReplicas capacity cpu mem acc)))))"

definition running_owned :: "Deployment \<Rightarrow> Pod list \<Rightarrow> Pod list" where
  "running_owned d all = filter (\<lambda>p. owner_of p = dep_name d \<and> pod_phase p = POD_PHASE_RUNNING) all"

definition clamp :: "int32 \<Rightarrow> int32 \<Rightarrow> int32 \<Rightarrow> int32" where
  "clamp minReplicas maxReplicas desired =
     (let desired = (if desired < minReplicas then minReplicas else desired)
      in if desired > maxReplicas then maxReplicas else desired)"

definition min_replicas :: "Deployment \<Rightarrow> int32" where
  "min_replicas d = (let m = DeploymentSpec_GetMinReplicas (dep_spec d) in if m \<le> 0 then 1 else m)"

definition current_replicas :: "Deployment \<Rightarrow> Pod list \<Rightarrow> int32" where
  "current_replicas d running = (if dep_replicas d \<le> 0 then wrap32 (int (length running)) else dep_replicas d)"

text \<open>\<open>math.Ceil(float64(currentReplicas) * avgUtilization)\<close>, then the two bounds.\<close>

definition raw_desired :: "'f float_ops \<Rightarrow> Deployment \<Rightarrow> int64 \<Rightarrow> Pod list \<Rightarrow> int32" where
  "raw_desired F d targetMemory running =
     (let total = foldl (\<lambda>t p. fo_add F t (fo_div F (fo_of_int F (PodStatus_GetMemoryUsageBytes (pod_status p)))
                    (fo_of_int F targetMemory))) (fo_of_int F 0) running;
          avg = fo_div F total (fo_of_int F (int (length running)))
      in clamp (min_replicas d) (DeploymentSpec_GetMaxReplicas (dep_spec d))
           (fo_ceil32 F (fo_mul F (fo_of_int F (current_replicas d running)) avg)))"

text \<open>The write at the end; \<open>current.Spec\<close> is dereferenced.\<close>

definition set_replicas :: "('s, 'b) HorizontalAutoscaler \<Rightarrow> Deployment \<Rightarrow> int32 \<Rightarrow> ('s, unit) action" where
  "set_replicas r d desired =
     bindA (wrapA ''re-fetch deployment before scaling''
              (readA (reg_Get (ha_deployments r) (dep_namespace d) (dep_name d))))
       (\<lambda>current. case dep_spec current of
          None \<Rightarrow> throw (ErrPanic ''nil pointer dereference'')
        | Some spec \<Rightarrow>
            let current' = current\<lparr>dep_spec := Some (spec\<lparr>ds_replicas := desired\<rparr>)\<rparr>
            in reg_Put (ha_deployments r) (dep_namespace current') (dep_name current') current')"

definition hpa_reconcileOne :: "'f float_ops \<Rightarrow> ('s, 'b) HorizontalAutoscaler \<Rightarrow> Deployment \<Rightarrow> ('s, unit) action" where
  "hpa_reconcileOne F r d s =
     (if DeploymentSpec_GetMaxReplicas (dep_spec d) \<le> 0 then (Inr (), s)
      else case PodSpec_GetContainers (dep_template d) of
        [] \<Rightarrow> (Inr (), s)
      | c # _ \<Rightarrow>
          let targetMemory = ResourceList_GetMemoryBytes (ctr_requests c)
          in if targetMemory \<le> 0 then (Inr (), s)
             else case reg_List (ha_pods r) (dep_namespace d) s of
               Inl e \<Rightarrow> (Inl e, s)
             | Inr all \<Rightarrow>
                 let running = running_owned d all
                 in if running = [] then (Inr (), s)
                    else
                      let currentReplicas = current_replicas d running;
                          desired = raw_desired F d targetMemory running
                      in if desired > currentReplicas then
                           (case capToClusterCapacity r d currentReplicas desired s of
                              Inl e \<Rightarrow> (Inl (ErrWrap ''check cluster capacity'' e), s)
                            | Inr (capped, shortfall) \<Rightarrow>
                                if capped = dep_replicas d then (Inr (), s) else set_replicas r d capped s)
                         else if desired = dep_replicas d then (Inr (), s)
                         else set_replicas r d desired s)"

definition hpa_reconcileAll :: "'f float_ops \<Rightarrow> ('s, 'b) HorizontalAutoscaler \<Rightarrow> ('s, unit) action" where
  "hpa_reconcileAll F r s =
     (case reg_List (ha_deployments r) [] s of
        Inl e \<Rightarrow> (Inr (), s)
      | Inr deployments \<Rightarrow> forA (\<lambda>d. logA (hpa_reconcileOne F r d)) deployments s)"

section \<open>How many replicas fit\<close>

lemma fitCount_range: "0 \<le> fitCount rem per" "fitCount rem per \<le> MaxInt32"
proof -
  have "0 \<le> fitCount rem per \<and> fitCount rem per \<le> MaxInt32"
  proof (cases "per \<le> 0 \<or> rem \<le> 0")
    case True
    then show ?thesis by (auto simp: fitCount_def MaxInt32_def)
  next
    case False
    then have q: "go_div rem per = rem div per" "0 \<le> rem div per" by (simp_all add: go_div_pos pos_imp_zdiv_nonneg_iff)
    with False show ?thesis
      by (auto simp: fitCount_def Let_def MaxInt32_def wrap32_id in32_def)
  qed
  then show "0 \<le> fitCount rem per" "fitCount rem per \<le> MaxInt32" by simp_all
qed

lemma fitCount_fits:
  assumes "0 \<le> n" "n \<le> fitCount rem per" "0 < per"
  shows "n = 0 \<or> n * per \<le> rem"
proof (cases "rem \<le> 0")
  case True
  with assms show ?thesis by (simp add: fitCount_def)
next
  case False
  with assms(3) have q: "go_div rem per = rem div per" "0 \<le> rem div per"
    by (simp_all add: go_div_pos pos_imp_zdiv_nonneg_iff)
  have "fitCount rem per \<le> rem div per"
    using False assms(3) q by (auto simp: fitCount_def Let_def wrap32_id in32_def MaxInt32_def)
  with assms(2) have "n * per \<le> (rem div per) * per"
    using assms(3) by (simp add: mult_right_mono)
  also have "\<dots> \<le> rem"
    by (metis add.commute add_increasing div_mult_mod_eq assms(3) mult.commute order_refl pos_mod_sign)
  finally show ?thesis by simp
qed

lemma foldl_lower:
  "foldl (\<lambda>max (name, per). lower max (f name per)) m l \<le> m \<and>
   (\<forall>(name, per) \<in> set l. foldl (\<lambda>max (name, per). lower max (f name per)) m l \<le> f name per)"
proof (induction l arbitrary: m)
  case (Cons x l)
  obtain name per where x: "x = (name, per)" by fastforce
  have "lower m (f name per) \<le> m" "lower m (f name per) \<le> f name per" by (simp_all add: lower_def)
  with Cons.IH[of "lower m (f name per)"] x show ?case by fastforce
qed simp

lemma foldl_lower_nonneg:
  "0 \<le> m \<Longrightarrow> \<forall>(name, per) \<in> set l. 0 \<le> f name per \<Longrightarrow> 0 \<le> foldl (\<lambda>max (name, per). lower max (f name per)) m l"
  by (induction l arbitrary: m) (auto simp: lower_def)

lemma maxAdditional_range: "0 \<le> maxAdditionalReplicas c cpu mem acc" "maxAdditionalReplicas c cpu mem acc \<le> MaxInt32"
proof -
  let ?m = "lower (lower MaxInt32 (fitCount (wrap64 (cc_cpuCapacity c - cc_cpuUsed c)) cpu))
    (fitCount (wrap64 (cc_memCapacity c - cc_memUsed c)) mem)"
  have m: "0 \<le> ?m" "?m \<le> MaxInt32"
    using fitCount_range by (auto simp: lower_def MaxInt32_def)
  show "0 \<le> maxAdditionalReplicas c cpu mem acc"
    unfolding maxAdditionalReplicas_def by (rule foldl_lower_nonneg[OF m(1)]) (auto simp: fitCount_range)
  show "maxAdditionalReplicas c cpu mem acc \<le> MaxInt32"
    unfolding maxAdditionalReplicas_def
    using foldl_lower[of "\<lambda>name per. fitCount (wrap64 (iget (cc_acceleratorCapacity c) name -
        iget (cc_acceleratorUsed c) name)) per" ?m acc] m(2) by linarith
qed

text \<open>
  \<open>maxAdditionalReplicas\<close> never promises more than fits: any positive number of replicas up
  to it, times the per-replica request, stays within the free CPU, the free memory and the
  free amount of every requested accelerator.
\<close>

theorem maxAdditional_fits:
  assumes "0 < n" "n \<le> maxAdditionalReplicas c cpu mem acc"
  shows "(0 < cpu \<longrightarrow> n * cpu \<le> wrap64 (cc_cpuCapacity c - cc_cpuUsed c)) \<and>
    (0 < mem \<longrightarrow> n * mem \<le> wrap64 (cc_memCapacity c - cc_memUsed c)) \<and>
    (\<forall>(name, per) \<in> set acc. 0 < per \<longrightarrow>
       n * per \<le> wrap64 (iget (cc_acceleratorCapacity c) name - iget (cc_acceleratorUsed c) name))"
proof -
  let ?m = "lower (lower MaxInt32 (fitCount (wrap64 (cc_cpuCapacity c - cc_cpuUsed c)) cpu))
    (fitCount (wrap64 (cc_memCapacity c - cc_memUsed c)) mem)"
  note f = foldl_lower[of "\<lambda>name per. fitCount (wrap64 (iget (cc_acceleratorCapacity c) name -
      iget (cc_acceleratorUsed c) name)) per" ?m acc, folded maxAdditionalReplicas_def]
  from f assms(2) have "n \<le> ?m" by linarith
  then have cm: "n \<le> fitCount (wrap64 (cc_cpuCapacity c - cc_cpuUsed c)) cpu"
    "n \<le> fitCount (wrap64 (cc_memCapacity c - cc_memUsed c)) mem"
    by (auto simp: lower_def split: if_splits)
  have "n * per \<le> wrap64 (iget (cc_acceleratorCapacity c) name - iget (cc_acceleratorUsed c) name)"
    if "(name, per) \<in> set acc" "0 < per" for name per
    using f that assms fitCount_fits[of n _ per] by fastforce
  with cm assms(1) fitCount_fits[of n _ cpu] fitCount_fits[of n _ mem] show ?thesis by fastforce
qed

theorem maxAdditional_fits_witness:
  "2 * 500 \<le> wrap64 (4000 - 2900) \<and>
   maxAdditionalReplicas (zero_capacity\<lparr>cc_cpuCapacity := 4000, cc_cpuUsed := 2900\<rparr>) 500 0 [] = 2"
proof -
  have m: "maxAdditionalReplicas (zero_capacity\<lparr>cc_cpuCapacity := 4000, cc_cpuUsed := 2900\<rparr>) 500 0 [] = 2"
    by (simp add: maxAdditionalReplicas_def lower_def fitCount_def go_div_def wrap64_def wrap32_def MaxInt32_def)
  with maxAdditional_fits[of 2 "zero_capacity\<lparr>cc_cpuCapacity := 4000, cc_cpuUsed := 2900\<rparr>" 500 0 "[]"]
  show ?thesis by simp
qed

lemma clamp_range: "clamp lo hi x \<le> hi" "min lo hi \<le> clamp lo hi x"
  by (auto simp: clamp_def Let_def)

lemma cap_replicas_range:
  assumes "1 \<le> cur" "cur < desired" "in32 cur" "in32 desired" "0 \<le> m" "m \<le> MaxInt32"
  shows "cur \<le> fst (cap_replicas cur desired m)" "fst (cap_replicas cur desired m) \<le> desired"
    "fst (cap_replicas cur desired m) - cur \<le> m"
    "snd (cap_replicas cur desired m) = desired - fst (cap_replicas cur desired m)"
proof -
  have d: "wrap32 (desired - cur) = desired - cur"
    using assms by (intro wrap32_id) (auto simp: in32_def)
  have "cur \<le> fst (cap_replicas cur desired m) \<and> fst (cap_replicas cur desired m) \<le> desired \<and>
    fst (cap_replicas cur desired m) - cur \<le> m \<and>
    snd (cap_replicas cur desired m) = desired - fst (cap_replicas cur desired m)"
  proof (cases "desired - cur \<le> m")
    case True
    then show ?thesis using assms(2) by (simp add: cap_replicas_def d)
  next
    case False
    then have c: "wrap32 (cur + m) = cur + m" "wrap32 (desired - (cur + m)) = desired - (cur + m)"
      using assms by (auto intro!: wrap32_id simp: in32_def)
    with False assms show ?thesis by (auto simp: cap_replicas_def d Let_def)
  qed
  then show "cur \<le> fst (cap_replicas cur desired m)" "fst (cap_replicas cur desired m) \<le> desired"
    "fst (cap_replicas cur desired m) - cur \<le> m"
    "snd (cap_replicas cur desired m) = desired - fst (cap_replicas cur desired m)"
    by simp_all
qed

section \<open>What the autoscaler writes\<close>

lemma min_replicas_pos: "1 \<le> min_replicas d"
  by (auto simp: min_replicas_def Let_def)

lemma in32_clamp: "in32 lo \<Longrightarrow> in32 hi \<Longrightarrow> in32 (clamp lo hi x)"
  by (auto simp: clamp_def Let_def in32_def)

text \<open>How many more replicas the remaining capacity of the cluster allows.\<close>

definition room :: "('s, 'b) HorizontalAutoscaler \<Rightarrow> Deployment \<Rightarrow> 's \<Rightarrow> int32 option" where
  "room r d s =
     (case computeNodeUsage (ha_pods r) s of
        Inl e \<Rightarrow> None
      | Inr usage \<Rightarrow>
          (case computeClusterCapacity (ha_nodes r) usage s of
             Inl e \<Rightarrow> None
           | Inr capacity \<Rightarrow> (case per_replica d of (cpu, mem, acc) \<Rightarrow> Some (maxAdditionalReplicas capacity cpu mem acc))))"

text \<open>
  The values that reach the write: at most the maximum; at least the minimum (the maximum, if
  that is lower), but for a count the capacity keeps below it, which is the current count and
  all the room there is; and never more additional replicas than there is room for.
\<close>

definition scaled_ok :: "('s, 'b) HorizontalAutoscaler \<Rightarrow> Deployment \<Rightarrow> Pod list \<Rightarrow> 's \<Rightarrow> int32 \<Rightarrow> bool" where
  "scaled_ok r d running s v \<longleftrightarrow> 1 \<le> v \<and> v \<le> DeploymentSpec_GetMaxReplicas (dep_spec d) \<and>
     (min (min_replicas d) (DeploymentSpec_GetMaxReplicas (dep_spec d)) \<le> v \<or>
      room r d s = Some (v - current_replicas d running)) \<and>
     (current_replicas d running < v \<longrightarrow> (\<exists>m. room r d s = Some m \<and> v - current_replicas d running \<le> m))"

definition sane_bounds :: "Deployment \<Rightarrow> bool" where
  "sane_bounds d \<longleftrightarrow> in32 (dep_replicas d) \<and> in32 (DeploymentSpec_GetMinReplicas (dep_spec d)) \<and>
     in32 (DeploymentSpec_GetMaxReplicas (dep_spec d)) \<and> 0 < DeploymentSpec_GetMaxReplicas (dep_spec d)"

lemma raw_desired_bounds:
  assumes "sane_bounds d"
  shows "1 \<le> raw_desired F d t running" "raw_desired F d t running \<le> DeploymentSpec_GetMaxReplicas (dep_spec d)"
    "min (min_replicas d) (DeploymentSpec_GetMaxReplicas (dep_spec d)) \<le> raw_desired F d t running" "in32 (raw_desired F d t running)"
proof -
  let ?hi = "DeploymentSpec_GetMaxReplicas (dep_spec d)"
  obtain x where x: "raw_desired F d t running = clamp (min_replicas d) ?hi x"
    by (simp add: raw_desired_def Let_def)
  have "in32 (min_replicas d)" using assms by (auto simp: sane_bounds_def min_replicas_def Let_def in32_def)
  then show "in32 (raw_desired F d t running)" using assms in32_clamp by (simp add: x sane_bounds_def)
  show "1 \<le> raw_desired F d t running" "raw_desired F d t running \<le> ?hi" "min (min_replicas d) ?hi \<le> raw_desired F d t running"
    using clamp_range[of "min_replicas d" ?hi x] min_replicas_pos[of d] assms unfolding x sane_bounds_def by linarith+
qed

lemma cap_replicas_short:
  assumes "1 \<le> cur" "cur < desired" "in32 cur" "in32 desired" "0 \<le> m" "m \<le> MaxInt32"
  shows "fst (cap_replicas cur desired m) = desired \<or> fst (cap_replicas cur desired m) = cur + m"
proof (cases "desired - cur \<le> m")
  case False
  have "wrap32 (desired - cur) = desired - cur" using assms by (intro wrap32_id) (auto simp: in32_def)
  moreover have "wrap32 (cur + m) = cur + m" using assms False by (intro wrap32_id) (auto simp: in32_def)
  ultimately show ?thesis using False assms(5) by (simp add: cap_replicas_def Let_def)
next
  case True
  have "wrap32 (desired - cur) = desired - cur" using assms by (intro wrap32_id) (auto simp: in32_def)
  with True show ?thesis by (simp add: cap_replicas_def)
qed

lemma cap_scaled_ok:
  assumes "sane_bounds d" "1 \<le> current_replicas d running" "in32 (current_replicas d running)"
    "current_replicas d running < raw_desired F d t running" "room r d s = Some m" "0 \<le> m" "m \<le> MaxInt32"
  shows "scaled_ok r d running s (fst (cap_replicas (current_replicas d running) (raw_desired F d t running) m))"
proof -
  note b = raw_desired_bounds[OF assms(1), where running = running and F = F and t = t]
  note c = cap_replicas_range[OF assms(2,4,3) b(4) assms(6,7)] cap_replicas_short[OF assms(2,4,3) b(4) assms(6,7)]
  show ?thesis unfolding scaled_ok_def using b(2,3) c(1-3,5) assms(2,5) by auto
qed

context cluster
begin

lemma set_replicas_ok:
  assumes "ok s" "set_replicas (NewHorizontalAutoscaler deps.R pods.R nodes.R rs) d v s = (Inr (), s')"
  shows "\<exists>cur spec. deps.objs s (dep_key d) = Some cur \<and> dep_spec cur = Some spec \<and>
    deps.objs s' (dep_key d) = Some (cur\<lparr>dep_spec := Some (spec\<lparr>ds_replicas := v\<rparr>)\<rparr>) \<and>
    (\<forall>k. k \<noteq> dep_key d \<longrightarrow> abs s' k = abs s k)"
proof -
  from assms(2) obtain cur spec where get: "reg_Get deps.R (dep_namespace d) (dep_name d) s = Inr cur"
    and sp: "dep_spec cur = Some spec"
    and put: "reg_Put deps.R (dep_namespace cur) (dep_name cur) (cur\<lparr>dep_spec := Some (spec\<lparr>ds_replicas := v\<rparr>)\<rparr>) s = (Inr (), s')"
    by (auto simp: set_replicas_def bindA_Inr Let_def NewHorizontalAutoscaler_def throw_def split: option.splits)
  from get have cur: "deps.objs s (dep_key d) = Some cur"
    using deps.reg_Get_obj_at[OF okD(1,4)[OF assms(1)], of "dep_namespace d" "dep_name d"]
    by (simp add: dep_key_def split: option.splits)
  from okD(8)[OF assms(1) cur] have "dep_key d = key_of kDeployments (dep_namespace cur) (dep_name cur)"
    by (simp add: dep_key_def)
  with put_dep[OF assms(1), of "dep_namespace cur" "cur\<lparr>dep_spec := Some (spec\<lparr>ds_replicas := v\<rparr>)\<rparr>" "dep_name cur"]
    put cur sp deps.reg_Put_frame[OF okD(1)[OF assms(1)], of _ "dep_namespace cur" "dep_name cur" "cur\<lparr>dep_spec := Some (spec\<lparr>ds_replicas := v\<rparr>)\<rparr>"]
  show ?thesis by auto
qed

end

text \<open>
  A pass that reports no error left everything as it was, or wrote such a value.
\<close>

lemma hpa_cases:
  assumes run: "hpa_reconcileOne F r d s = (Inr (), s')" and all: "reg_List (ha_pods r) (dep_namespace d) s = Inr all"
    and sane: "sane_bounds d" "int (length (running_owned d all)) \<le> MaxInt32"
  shows "s' = s \<or> (\<exists>v. scaled_ok r d (running_owned d all) s v \<and> set_replicas r d v s = (Inr (), s'))"
proof (cases "running_owned d all = []")
  case True
  with run all show ?thesis
    by (auto simp: hpa_reconcileOne_def Let_def split: if_splits list.splits)
next
  case ne: False
  let ?cur = "current_replicas d (running_owned d all)"
  have "0 < int (length (running_owned d all))" using ne by simp
  moreover have "wrap32 (int (length (running_owned d all))) = int (length (running_owned d all))"
    using sane(2) by (intro wrap32_id) (simp add: in32_def MaxInt32_def)
  ultimately have cur: "1 \<le> ?cur" "in32 ?cur"
    using sane by (auto simp: current_replicas_def sane_bounds_def in32_def MaxInt32_def Suc_le_eq)
  have cap: "scaled_ok r d (running_owned d all) s v"
    if "?cur < raw_desired F d t (running_owned d all)"
      "capToClusterCapacity r d ?cur (raw_desired F d t (running_owned d all)) s = Inr (v, w)" for t v w
  proof -
    from that(2) obtain usage capacity cpu mem acc where "computeNodeUsage (ha_pods r) s = Inr usage"
      "computeClusterCapacity (ha_nodes r) usage s = Inr capacity" "per_replica d = (cpu, mem, acc)"
      and v: "cap_replicas ?cur (raw_desired F d t (running_owned d all)) (maxAdditionalReplicas capacity cpu mem acc) = (v, w)"
      by (auto simp: capToClusterCapacity_def split: sum.splits prod.splits)
    then have "room r d s = Some (maxAdditionalReplicas capacity cpu mem acc)" by (simp add: room_def)
    from cap_scaled_ok[OF sane(1) cur that(1) this maxAdditional_range] v show ?thesis by simp
  qed
  have raw: "scaled_ok r d (running_owned d all) s (raw_desired F d t (running_owned d all))"
    if "\<not> ?cur < raw_desired F d t (running_owned d all)" for t
    using that raw_desired_bounds[OF sane(1), of F t "running_owned d all"] by (auto simp: scaled_ok_def)
  show ?thesis
    using run all ne cap raw
    by (auto simp: hpa_reconcileOne_def Let_def split: if_splits list.splits sum.splits prod.splits)
qed


section \<open>Instance\<close>

text \<open>Exact rationals in place of \<open>float64\<close>.\<close>

definition rat_ops :: "rat float_ops" where
  "rat_ops = \<lparr>fo_of_int = of_int, fo_add = (+), fo_mul = (*), fo_div = (/), fo_ceil32 = ceiling\<rparr>"

definition ex_hpa_dep :: Deployment where
  "ex_hpa_dep = \<lparr>dep_metadata = Some (zero_ObjectMeta\<lparr>meta_name := ''web'', meta_namespace := ''default''\<rparr>),
     dep_spec = Some \<lparr>ds_replicas = 1, ds_selector = [], ds_template = Some (zero_PodSpec\<lparr>ps_containers := [ex_container []]\<rparr>),
       ds_min_replicas = 1, ds_max_replicas = 3\<rparr>, dep_status = None\<rparr>"

text \<open>One running replica that uses twice its memory request.\<close>

definition ex_hpa_pod :: Pod where
  "ex_hpa_pod = (newPod ex_hpa_dep 0)\<lparr>pod_status := Some (zero_PodStatus\<lparr>pst_phase := POD_PHASE_RUNNING,
     pst_memory_usage_bytes := 512\<rparr>)\<rparr>"

definition ex_hpa_state :: "wire memStore" where
  "ex_hpa_state = [(''/registry/nodes/n1'', WNode (ex_node_obj ''n1'')),
     (''/registry/deployments/default/web'', WDeployment ex_hpa_dep),
     (''/registry/pods/default/web-0'', WPod ex_hpa_pod)]"

definition ex_hpa :: "(wire memStore, wire) HorizontalAutoscaler" where
  "ex_hpa = NewHorizontalAutoscaler (reg_New memStore kDeployments dep_codec) (reg_New memStore kPods pod_codec)
     (reg_New memStore kNodes node_codec) 0"

lemma ex_hpa_meta: "pod_namespace ex_hpa_pod = ''default''" "pod_name ex_hpa_pod = ''web-0''"
  by (code_simp, code_simp)

lemma ex_hpa_ok: "cluster_ok mem_ok map_of pod_codec node_codec dep_codec vol_codec ex_hpa_state"
  by (auto simp: cluster_ok_def ex_hpa_state_def decodes_def own_keys_def obj_at_def HasPrefix_def reg_prefix_def
      codec_defs key_of_def ex_hpa_meta ex_hpa_dep_def ex_node_obj_def zero_messages split: if_splits)

lemma ex_hpa_list: "reg_List (ha_pods ex_hpa) (dep_namespace ex_hpa_dep) ex_hpa_state = Inr [ex_hpa_pod]"
  by code_simp

lemma ex_hpa_run: "fst (hpa_reconcileOne rat_ops ex_hpa ex_hpa_dep ex_hpa_state) = Inr ()"
  by code_simp

lemma ex_hpa_changes:
  "map_of (snd (hpa_reconcileOne rat_ops ex_hpa ex_hpa_dep ex_hpa_state)) ''/registry/deployments/default/web'' =
     Some (WDeployment (ex_hpa_dep\<lparr>dep_spec := map_option (\<lambda>sp. sp\<lparr>ds_replicas := 2\<rparr>) (dep_spec ex_hpa_dep)\<rparr>))"
  by code_simp


end
