(* ===== verification/Admission.thy ===== *)
theory Admission
  imports Deployments
begin

text \<open>
  Admission: the chain and its six validators (\<^verbatim>\<open>internal/admission\<close>) and the policy engine
  (\<^verbatim>\<open>internal/policy\<close>). A validator may change the request's pod specification, which the
  caller goes on to store, so the request is part of every result. CEL and the image
  verifier are parameters. The state \<open>'w\<close> of the chain is the store together with the
  compiled-policy cache.
\<close>

section \<open>The chain\<close>

record Request =
  req_Namespace :: string
  req_Name :: string
  req_Labels :: "(string, string) gomap"
  req_Spec :: "PodSpec option"
  req_Replicas :: int32

type_synonym 'w Validator = "Request \<Rightarrow> 'w \<Rightarrow> (unit res \<times> Request) \<times> 'w"

fun chain_loop :: "'w Validator list \<Rightarrow> 'w Validator" where
  "chain_loop [] req w = ((Inr (), req), w)"
| "chain_loop (v # vs) req w =
     (case v req w of
        ((Inl e, req'), w') \<Rightarrow> ((Inl (ErrWrap ''admission'' e), req'), w')
      | ((Inr _, req'), w') \<Rightarrow> chain_loop vs req' w')"

definition Chain_Admit :: "'w Validator list \<Rightarrow> 'w Validator" where
  "Chain_Admit validators req w =
     chain_loop validators (if req_Replicas req \<le> 0 then req\<lparr>req_Replicas := 1\<rparr> else req) w"

section \<open>Image signatures\<close>

fun image_loop :: "(string \<Rightarrow> unit res) \<Rightarrow> Container list \<Rightarrow> unit res" where
  "image_loop Verify [] = Inr ()"
| "image_loop Verify (c # cs) =
     (case Verify (ctr_image c) of Inl e \<Rightarrow> Inl (ErrWrap ''container image'' e) | Inr _ \<Rightarrow> image_loop Verify cs)"

definition ImageSignaturePolicy_Admit :: "(string \<Rightarrow> unit res) \<Rightarrow> 'w Validator" where
  "ImageSignaturePolicy_Admit Verify req w = ((image_loop Verify (PodSpec_GetContainers (req_Spec req)), req), w)"

section \<open>Security contexts\<close>

definition DefaultSeccompProfile :: string where
  "DefaultSeccompProfile = ''RuntimeDefault''"

text \<open>The container with its context created and its profile defaulted.\<close>

definition default_context :: "Container \<Rightarrow> Container" where
  "default_context c =
     (let sc = (case ctr_security_context c of None \<Rightarrow> zero_SecurityContext | Some sc \<Rightarrow> sc);
          sc = (if sc_seccomp_profile sc = [] then sc\<lparr>sc_seccomp_profile := DefaultSeccompProfile\<rparr> else sc)
      in c\<lparr>ctr_security_context := Some sc\<rparr>)"

fun security_loop :: "string list \<Rightarrow> Container list \<Rightarrow> unit res \<times> Container list" where
  "security_loop allowed [] = (Inr (), [])"
| "security_loop allowed (c # cs) =
     (let c' = default_context c; sc = ctr_security_context c'
      in if SecurityContext_GetPrivileged sc
           then (Inl (ErrText ''privileged containers are not permitted''), c' # cs)
         else if SecurityContext_GetAllowPrivilegeEscalation sc
           then (Inl (ErrText ''privilege escalation is not permitted''), c' # cs)
         else if \<not> list_all (\<lambda>cap. cap \<in> set allowed) (SecurityContext_GetAddCapabilities sc)
           then (Inl (ErrText ''capability is not in the cluster's allowlist''), c' # cs)
         else (case security_loop allowed cs of (r, cs') \<Rightarrow> (r, c' # cs')))"

definition SecurityContextPolicy_Admit :: "string list \<Rightarrow> 'w Validator" where
  "SecurityContextPolicy_Admit allowed req w =
     (case security_loop allowed (PodSpec_GetContainers (req_Spec req)) of
        (r, cs) \<Rightarrow> ((r, req\<lparr>req_Spec := map_option (\<lambda>sp. sp\<lparr>ps_containers := cs\<rparr>) (req_Spec req)\<rparr>), w))"

section \<open>Quota\<close>

text \<open>The accumulation loops, \<open>int64\<close> with wrap-around.\<close>

definition sum_requests :: "Container list \<Rightarrow> int64 \<times> int64 \<Rightarrow> int64 \<times> int64" where
  "sum_requests cs acc =
     foldl (\<lambda>(cpu, mem) c. (wrap64 (cpu + ResourceList_GetCpuMillis (ctr_requests c)),
                            wrap64 (mem + ResourceList_GetMemoryBytes (ctr_requests c)))) acc cs"

definition QuotaPolicy_Admit :: "('w \<Rightarrow> string \<Rightarrow> Pod list res) \<Rightarrow> ResourceList option \<Rightarrow> 'w Validator" where
  "QuotaPolicy_Admit List quota req w =
     (if ResourceList_GetCpuMillis quota \<le> 0 \<and> ResourceList_GetMemoryBytes quota \<le> 0 then ((Inr (), req), w)
      else case List w (req_Namespace req) of
        Inl e \<Rightarrow> ((Inl (ErrWrap ''quota: list existing pods'' e), req), w)
      | Inr existing \<Rightarrow>
          (let (usedCPU, usedMem) = foldl (\<lambda>acc pod. sum_requests (pod_containers pod) acc) (0, 0) existing;
               (cpu, mem) = sum_requests (PodSpec_GetContainers (req_Spec req)) (0, 0);
               reqCPU = wrap64 (cpu * req_Replicas req); reqMem = wrap64 (mem * req_Replicas req)
           in if ResourceList_GetCpuMillis quota > 0 \<and> wrap64 (usedCPU + reqCPU) > ResourceList_GetCpuMillis quota
                then ((Inl (ErrText ''namespace would exceed its CPU quota''), req), w)
              else if ResourceList_GetMemoryBytes quota > 0 \<and> wrap64 (usedMem + reqMem) > ResourceList_GetMemoryBytes quota
                then ((Inl (ErrText ''namespace would exceed its memory quota''), req), w)
              else ((Inr (), req), w)))"

section \<open>Volumes\<close>

definition VolumeReplicasPolicy_Admit :: "'w Validator" where
  "VolumeReplicasPolicy_Admit req w =
     (if PodSpec_GetVolumes (req_Spec req) = [] then ((Inr (), req), w)
      else if req_Replicas req > 1
        then ((Inl (ErrText ''volume-backed deployments must have replicas <= 1''), req), w)
      else ((Inr (), req), w))"

fun ownership_loop :: "(string \<Rightarrow> string \<Rightarrow> Volume res) \<Rightarrow> Request \<Rightarrow> VolumeMount list \<Rightarrow> unit res" where
  "ownership_loop Get req [] = Inr ()"
| "ownership_loop Get req (m # ms) =
     (case Get (req_Namespace req) (mnt_volume_name m) of
        Inl e \<Rightarrow> ownership_loop Get req ms
      | Inr vol \<Rightarrow>
          (let owner = lget (ObjectMeta_GetLabels (vol_metadata vol)) OwnerDeploymentLabel
           in if owner \<noteq> [] \<and> req_Name req \<noteq> [] \<and> owner \<noteq> req_Name req
                then Inl (ErrText ''volume is already owned by deployment'')
              else ownership_loop Get req ms))"

definition VolumeOwnershipPolicy_Admit :: "('w \<Rightarrow> string \<Rightarrow> string \<Rightarrow> Volume res) \<Rightarrow> 'w Validator" where
  "VolumeOwnershipPolicy_Admit Get req w =
     ((ownership_loop (Get w) req (PodSpec_GetVolumes (req_Spec req)), req), w)"

section \<open>Policies\<close>

text \<open>What \<open>PodView\<close> exposes to an expression.\<close>

record container_view =
  cv_name :: string
  cv_image :: string
  cv_privileged :: bool

record pod_view =
  pv_namespace :: string
  pv_labels :: "(string, string) gomap"
  pv_containers :: "container_view list"

definition PodView :: "string \<Rightarrow> (string, string) gomap \<Rightarrow> PodSpec option \<Rightarrow> pod_view" where
  "PodView namespace labels spec =
     \<lparr>pv_namespace = namespace, pv_labels = labels,
      pv_containers = map (\<lambda>c. \<lparr>cv_name = ctr_name c, cv_image = ctr_image c,
        cv_privileged = SecurityContext_GetPrivileged (ctr_security_context c)\<rparr>) (PodSpec_GetContainers spec)\<rparr>"

text \<open>The CEL library: compile, build a program, evaluate to a boolean or another value.\<close>

datatype cel_value = CelBool bool | CelOther

record ('ast, 'prg) cel_env =
  cel_Compile :: "string \<Rightarrow> 'ast res"
  cel_Program :: "'ast \<Rightarrow> 'prg res"
  cel_Eval :: "'prg \<Rightarrow> pod_view \<Rightarrow> cel_value res"

definition Engine_Compile :: "('ast, 'prg) cel_env \<Rightarrow> string \<Rightarrow> 'prg res" where
  "Engine_Compile env expression =
     (case cel_Compile env expression of
        Inl e \<Rightarrow> Inl (ErrWrap ''policy: compile'' e)
      | Inr ast \<Rightarrow> (case cel_Program env ast of
                     Inl e \<Rightarrow> Inl (ErrWrap ''policy: build program'' e) | Inr prg \<Rightarrow> Inr prg))"

definition Engine_Evaluate :: "('ast, 'prg) cel_env \<Rightarrow> 'prg \<Rightarrow> pod_view \<Rightarrow> bool res" where
  "Engine_Evaluate env prg view =
     (case cel_Eval env prg view of
        Inl e \<Rightarrow> Inl (ErrWrap ''policy: evaluate'' e)
      | Inr (CelBool b) \<Rightarrow> Inr b
      | Inr CelOther \<Rightarrow> Inl (ErrText ''policy: expression must evaluate to a bool''))"

text \<open>The store and the cache of compiled expressions.\<close>

record ('s, 'prg) adm_state =
  as_store :: 's
  as_compiled :: "(string, 'prg) gomap"

definition pv_compile :: "('ast, 'prg) cel_env \<Rightarrow> string \<Rightarrow> (('s, 'prg) adm_state, 'prg) action" where
  "pv_compile env expression w =
     (case map_of (as_compiled w) expression of
        Some prg \<Rightarrow> (Inr prg, w)
      | None \<Rightarrow>
          (case Engine_Compile env expression of
             Inl e \<Rightarrow> (Inl e, w)
           | Inr prg \<Rightarrow> (Inr prg, w\<lparr>as_compiled := AList.update expression prg (as_compiled w)\<rparr>)))"

abbreviation pol_expr :: "Policy \<Rightarrow> string" where
  "pol_expr pol \<equiv> PolicySpec_GetExpression (pol_spec pol)"

abbreviation pol_msg :: "Policy \<Rightarrow> string" where
  "pol_msg pol \<equiv> PolicySpec_GetMessage (pol_spec pol)"

fun policy_loop :: "('ast, 'prg) cel_env \<Rightarrow> pod_view \<Rightarrow> Policy list \<Rightarrow> (('s, 'prg) adm_state, unit) action" where
  "policy_loop env view [] w = (Inr (), w)"
| "policy_loop env view (pol # pols) w =
     (case pv_compile env (pol_expr pol) w of
        (Inl e, w') \<Rightarrow> (Inl (ErrWrap ''policy'' e), w')
      | (Inr prg, w') \<Rightarrow>
          (case Engine_Evaluate env prg view of
             Inl e \<Rightarrow> (Inl (ErrWrap ''policy'' e), w')
           | Inr ok \<Rightarrow>
               if \<not> ok then (Inl (ErrText (if pol_msg pol = [] then ''denied by policy'' else pol_msg pol)), w')
               else policy_loop env view pols w'))"

definition PolicyValidator_Admit :: "('ast, 'prg) cel_env \<Rightarrow> ('s \<Rightarrow> string \<Rightarrow> Policy list res) \<Rightarrow>
    ('s, 'prg) adm_state Validator" where
  "PolicyValidator_Admit env List req w =
     (case List (as_store w) [] of
        Inl e \<Rightarrow> ((Inl (ErrWrap ''policy: list policies'' e), req), w)
      | Inr policies \<Rightarrow>
          if policies = [] then ((Inr (), req), w)
          else (case policy_loop env (PodView (req_Namespace req) (req_Labels req) (req_Spec req)) policies w of
                  (r, w') \<Rightarrow> ((r, req), w')))"

section \<open>Properties of the validators\<close>

text \<open>What a container must be to run: no privilege, an allowed set of capabilities, a profile.\<close>

definition safe_container :: "string list \<Rightarrow> Container \<Rightarrow> bool" where
  "safe_container allowed c \<longleftrightarrow>
     (\<exists>sc. ctr_security_context c = Some sc \<and> sc_seccomp_profile sc \<noteq> [] \<and> \<not> sc_privileged sc \<and>
        \<not> sc_allow_privilege_escalation sc \<and> set (sc_add_capabilities sc) \<subseteq> set allowed)"

lemma default_context_fields:
  "\<exists>sc. ctr_security_context (default_context c) = Some sc \<and> sc_seccomp_profile sc \<noteq> [] \<and>
     sc_privileged sc = SecurityContext_GetPrivileged (ctr_security_context c) \<and>
     sc_allow_privilege_escalation sc = SecurityContext_GetAllowPrivilegeEscalation (ctr_security_context c) \<and>
     sc_add_capabilities sc = SecurityContext_GetAddCapabilities (ctr_security_context c)"
  "ctr_image (default_context c) = ctr_image c" "ctr_resources (default_context c) = ctr_resources c"
  by (auto simp: default_context_def DefaultSeccompProfile_def zero_SecurityContext_def Let_def split: option.splits)

text \<open>The contexts that pass, before defaulting.\<close>

definition unprivileged :: "string list \<Rightarrow> Container \<Rightarrow> bool" where
  "unprivileged allowed c \<longleftrightarrow>
     \<not> SecurityContext_GetPrivileged (ctr_security_context c) \<and>
     \<not> SecurityContext_GetAllowPrivilegeEscalation (ctr_security_context c) \<and>
     set (SecurityContext_GetAddCapabilities (ctr_security_context c)) \<subseteq> set allowed"

lemma safe_default: "safe_container allowed (default_context c) \<longleftrightarrow> unprivileged allowed c"
  using default_context_fields(1)[of c] by (auto simp: safe_container_def unprivileged_def)

lemma security_loop_cases:
  "case security_loop allowed cs of
     (Inr _, cs') \<Rightarrow> (\<forall>c \<in> set cs. unprivileged allowed c) \<and> cs' = map default_context cs
   | (Inl e, cs') \<Rightarrow> (\<exists>c \<in> set cs. \<not> unprivileged allowed c)"
proof (induction cs)
  case (Cons c cs)
  obtain sc where sc: "ctr_security_context (default_context c) = Some sc"
    "sc_privileged sc = SecurityContext_GetPrivileged (ctr_security_context c)"
    "sc_allow_privilege_escalation sc = SecurityContext_GetAllowPrivilegeEscalation (ctr_security_context c)"
    "sc_add_capabilities sc = SecurityContext_GetAddCapabilities (ctr_security_context c)"
    using default_context_fields(1)[of c] by blast
  show ?case
    using Cons.IH by (auto simp: sc unprivileged_def Let_def list_all_iff split: prod.splits sum.splits)
qed simp

text \<open>
  The security policy admits a request exactly when no container is privileged, may
  escalate privileges, or adds a capability outside the allow-list; and it hands back the
  same containers with a security context and a seccomp profile filled in, so that every
  admitted container is safe.
\<close>

theorem security_policy_exact:
  "case SecurityContextPolicy_Admit allowed req w of
     ((Inr _, req'), w') \<Rightarrow> w' = w \<and>
       PodSpec_GetContainers (req_Spec req') = map default_context (PodSpec_GetContainers (req_Spec req)) \<and>
       (\<forall>c \<in> set (PodSpec_GetContainers (req_Spec req)). unprivileged allowed c) \<and>
       (\<forall>c \<in> set (PodSpec_GetContainers (req_Spec req')). safe_container allowed c)
   | ((Inl e, req'), w') \<Rightarrow> w' = w \<and> (\<exists>c \<in> set (PodSpec_GetContainers (req_Spec req)). \<not> unprivileged allowed c)"
proof (cases "security_loop allowed (PodSpec_GetContainers (req_Spec req))")
  case (Pair r cs)
  then show ?thesis
    using security_loop_cases[where allowed = allowed and cs = "PodSpec_GetContainers (req_Spec req)"]
    by (cases "req_Spec req"; cases r) (auto simp: SecurityContextPolicy_Admit_def safe_default)
qed

definition ex_request :: Request where
  "ex_request = \<lparr>req_Namespace = ''default'', req_Name = [], req_Labels = [],
     req_Spec = Some (zero_PodSpec\<lparr>ps_containers := [ex_container []]\<rparr>), req_Replicas = 1\<rparr>"

theorem security_policy_exact_witness:
  "list_all (safe_container [])
     (PodSpec_GetContainers (req_Spec (snd (fst (SecurityContextPolicy_Admit [] ex_request ())))))"
proof -
  have "fst (fst (SecurityContextPolicy_Admit [] ex_request ())) = Inr ()" by code_simp
  then obtain req' where "SecurityContextPolicy_Admit [] ex_request () = ((Inr (), req'), ())"
    by (metis (full_types) old.unit.exhaust prod.collapse)
  with security_policy_exact[where allowed = "[]" and req = ex_request and w = "()"] show ?thesis
    by (simp add: list_all_iff)
qed

section \<open>The policy cache\<close>

text \<open>Every cached program is what compiling its expression gives.\<close>

definition cache_ok :: "('ast, 'prg) cel_env \<Rightarrow> ('s, 'prg) adm_state \<Rightarrow> bool" where
  "cache_ok env w \<longleftrightarrow> (\<forall>e prg. map_of (as_compiled w) e = Some prg \<longrightarrow> Engine_Compile env e = Inr prg)"

text \<open>The check without a cache.\<close>

fun policies_check :: "('ast, 'prg) cel_env \<Rightarrow> pod_view \<Rightarrow> Policy list \<Rightarrow> unit res" where
  "policies_check env view [] = Inr ()"
| "policies_check env view (pol # pols) =
     (case Engine_Compile env (pol_expr pol) of
        Inl e \<Rightarrow> Inl (ErrWrap ''policy'' e)
      | Inr prg \<Rightarrow>
          (case Engine_Evaluate env prg view of
             Inl e \<Rightarrow> Inl (ErrWrap ''policy'' e)
           | Inr ok \<Rightarrow>
               if \<not> ok then Inl (ErrText (if pol_msg pol = [] then ''denied by policy'' else pol_msg pol))
               else policies_check env view pols))"

lemma pv_compile_ok:
  assumes "cache_ok env w"
  shows "fst (pv_compile env e w) = Engine_Compile env e" "cache_ok env (snd (pv_compile env e w))"
    "as_store (snd (pv_compile env e w)) = as_store w"
  using assms by (auto simp: pv_compile_def cache_ok_def split: option.splits sum.splits)

lemma policy_loop_ok:
  assumes "cache_ok env w"
  shows "fst (policy_loop env view pols w) = policies_check env view pols \<and>
    cache_ok env (snd (policy_loop env view pols w)) \<and> as_store (snd (policy_loop env view pols w)) = as_store w"
  using assms
proof (induction pols arbitrary: w)
  case (Cons pol pols)
  obtain r w1 where c: "pv_compile env (pol_expr pol) w = (r, w1)" by fastforce
  with pv_compile_ok[OF Cons.prems, of "pol_expr pol"] have 1: "Engine_Compile env (pol_expr pol) = r" "cache_ok env w1"
    "as_store w1 = as_store w" by simp_all
  show ?case
    using Cons.IH[OF 1(2)] 1 c by (auto split: sum.splits)
qed simp

text \<open>
  C32: the cache of compiled policies is transparent. While every cached program is what
  compiling its expression gives, validating a request gives the verdict of the check that
  compiles every policy afresh, leaves the request and the store alone, and keeps the
  cache consistent.
\<close>

theorem policy_cache_transparent:
  assumes "cache_ok env w" "List (as_store w) [] = Inr policies"
  shows "\<exists>w'. PolicyValidator_Admit env List req w =
      ((policies_check env (PodView (req_Namespace req) (req_Labels req) (req_Spec req)) policies, req), w') \<and>
    cache_ok env w' \<and> as_store w' = as_store w"
proof -
  let ?view = "PodView (req_Namespace req) (req_Labels req) (req_Spec req)"
  obtain r w1 where loop: "policy_loop env ?view policies w = (r, w1)" by fastforce
  with policy_loop_ok[OF assms(1), of ?view policies] have "r = policies_check env ?view policies" "cache_ok env w1"
    "as_store w1 = as_store w" by simp_all
  note w1 = this
  show ?thesis
  proof (cases "policies = []")
    case True
    with assms have "PolicyValidator_Admit env List req w = ((policies_check env ?view policies, req), w)"
      by (simp add: PolicyValidator_Admit_def)
    with assms(1) show ?thesis by blast
  next
    case False
    with assms(2) loop have "PolicyValidator_Admit env List req w = ((r, req), w1)"
      by (simp add: PolicyValidator_Admit_def)
    with w1 show ?thesis by blast
  qed
qed

text \<open>An environment in which a policy expression is the name of the namespace it allows.\<close>

definition ex_cel :: "(string, string) cel_env" where
  "ex_cel = \<lparr>cel_Compile = (\<lambda>e. Inr e), cel_Program = (\<lambda>a. Inr a),
     cel_Eval = (\<lambda>p v. Inr (CelBool (pv_namespace v = p)))\<rparr>"

definition ex_policy :: "string \<Rightarrow> Policy" where
  "ex_policy e = \<lparr>pol_metadata = None, pol_spec = Some \<lparr>pols_expression = e, pols_message = []\<rparr>\<rparr>"

theorem policy_cache_transparent_witness:
  "\<exists>w'. PolicyValidator_Admit ex_cel (\<lambda>s ns. Inr [ex_policy ''prod'']) ex_request
      \<lparr>as_store = (), as_compiled = [(''prod'', ''prod'')]\<rparr> = ((Inl (ErrText ''denied by policy''), ex_request), w')"
proof -
  let ?w = "\<lparr>as_store = (), as_compiled = [(''prod'', ''prod'')]\<rparr>" and ?List = "\<lambda>s ns. Inr [ex_policy ''prod'']"
  have c: "cache_ok ex_cel ?w"
    by (auto simp: cache_ok_def Engine_Compile_def ex_cel_def split: if_splits)
  have v: "policies_check ex_cel (PodView (req_Namespace ex_request) (req_Labels ex_request) (req_Spec ex_request))
      [ex_policy ''prod''] = Inl (ErrText ''denied by policy'')"
    by (simp add: ex_cel_def ex_policy_def Engine_Compile_def Engine_Evaluate_def PodView_def ex_request_def)
  from policy_cache_transparent[OF c, where List = ?List and req = ex_request and policies = "[ex_policy ''prod'']"]
  obtain w' where "PolicyValidator_Admit ex_cel ?List ex_request ?w =
    ((policies_check ex_cel (PodView (req_Namespace ex_request) (req_Labels ex_request) (req_Spec ex_request))
      [ex_policy ''prod''], ex_request), w')" by blast
  then show ?thesis unfolding v by blast
qed

section \<open>Quota\<close>

definition cs_cpu :: "Container list \<Rightarrow> int" where
  "cs_cpu cs = (\<Sum>c \<leftarrow> cs. ctr_cpu c)"

definition cs_mem :: "Container list \<Rightarrow> int" where
  "cs_mem cs = (\<Sum>c \<leftarrow> cs. ctr_mem c)"

lemma sum_requests_exact:
  "in64 a \<Longrightarrow> in64 b \<Longrightarrow> sum_requests cs (a, b) = (wrap64 (a + cs_cpu cs), wrap64 (b + cs_mem cs))"
  unfolding sum_requests_def cs_cpu_def cs_mem_def
  by (induction cs arbitrary: a b) (simp_all add: wrap64_id ctr_cpu_def ctr_mem_def add.assoc)

lemma sum_pods_exact:
  assumes "in64 a" "in64 b"
  shows "foldl (\<lambda>acc pod. sum_requests (pod_containers pod) acc) (a, b) pods =
    (wrap64 (a + (\<Sum>p \<leftarrow> pods. pod_cpu p)), wrap64 (b + (\<Sum>p \<leftarrow> pods. pod_mem p)))"
  using assms
proof (induction pods arbitrary: a b)
  case (Cons p pods)
  then show ?case
    by (simp add: sum_requests_exact cs_cpu_def cs_mem_def pod_cpu_def pod_mem_def add.assoc)
qed (simp add: wrap64_id)

text \<open>The amounts a quota check adds up, over unbounded integers.\<close>

definition total_cpu :: "Pod list \<Rightarrow> Request \<Rightarrow> int" where
  "total_cpu existing req = (\<Sum>p \<leftarrow> existing. pod_cpu p) + cs_cpu (PodSpec_GetContainers (req_Spec req)) * req_Replicas req"

definition total_mem :: "Pod list \<Rightarrow> Request \<Rightarrow> int" where
  "total_mem existing req = (\<Sum>p \<leftarrow> existing. pod_mem p) + cs_mem (PodSpec_GetContainers (req_Spec req)) * req_Replicas req"

definition no_quota_overflow :: "Pod list \<Rightarrow> Request \<Rightarrow> bool" where
  "no_quota_overflow existing req \<longleftrightarrow>
     in64 (\<Sum>p \<leftarrow> existing. pod_cpu p) \<and> in64 (\<Sum>p \<leftarrow> existing. pod_mem p) \<and>
     in64 (cs_cpu (PodSpec_GetContainers (req_Spec req))) \<and> in64 (cs_mem (PodSpec_GetContainers (req_Spec req))) \<and>
     in64 (cs_cpu (PodSpec_GetContainers (req_Spec req)) * req_Replicas req) \<and>
     in64 (cs_mem (PodSpec_GetContainers (req_Spec req)) * req_Replicas req) \<and>
     in64 (total_cpu existing req) \<and> in64 (total_mem existing req)"

text \<open>
  When no sum overflows \<open>int64\<close>, the quota policy admits a request exactly when, for each
  of CPU and memory whose quota is positive, the requests of the namespace's existing pods
  plus the request times its replicas stay within the quota.
\<close>

theorem quota_exact:
  assumes "List w (req_Namespace req) = Inr existing" "no_quota_overflow existing req"
  shows "fst (fst (QuotaPolicy_Admit List quota req w)) = Inr () \<longleftrightarrow>
    (0 < ResourceList_GetCpuMillis quota \<longrightarrow> total_cpu existing req \<le> ResourceList_GetCpuMillis quota) \<and>
    (0 < ResourceList_GetMemoryBytes quota \<longrightarrow> total_mem existing req \<le> ResourceList_GetMemoryBytes quota)"
proof -
  have z: "in64 0" by (simp add: in64_def)
  show ?thesis
    using assms
    by (auto simp: QuotaPolicy_Admit_def sum_pods_exact[OF z z] sum_requests_exact[OF z z] no_quota_overflow_def
        wrap64_id total_cpu_def total_mem_def Let_def)
qed

theorem quota_exact_witness:
  "fst (fst (QuotaPolicy_Admit (\<lambda>w ns. Inr [ex_pod_obj ''a'' [] []])
      (Some \<lparr>rl_cpu_millis = 900, rl_memory_bytes = 0, rl_accelerators = []\<rparr>) ex_request ())) \<noteq> Inr ()"
proof -
  let ?List = "\<lambda>w ns. Inr [ex_pod_obj ''a'' [] []] :: Pod list res"
  have o: "no_quota_overflow [ex_pod_obj ''a'' [] []] ex_request"
    by (simp add: no_quota_overflow_def total_cpu_def total_mem_def cs_cpu_def cs_mem_def ctr_cpu_def ctr_mem_def
        pod_cpu_def pod_mem_def ex_object_defs ex_request_def in64_def)
  show ?thesis
    using quota_exact[of ?List "()" ex_request, OF refl o, of "Some \<lparr>rl_cpu_millis = 900, rl_memory_bytes = 0, rl_accelerators = []\<rparr>"]
    by (simp add: total_cpu_def cs_cpu_def pod_cpu_def ctr_cpu_def ex_object_defs ex_request_def)
qed

text \<open>A request of $2^{62}$ millicores per replica.\<close>

definition ex_huge :: Request where
  "ex_huge = ex_request\<lparr>req_Spec := Some (zero_PodSpec\<lparr>ps_containers := [(ex_container [])\<lparr>ctr_resources :=
     Some \<lparr>rr_requests = Some \<lparr>rl_cpu_millis = 4611686018427387904, rl_memory_bytes = 0, rl_accelerators = []\<rparr>,
       rr_limits = None\<rparr>\<rparr>]\<rparr>), req_Replicas := 4\<rparr>"

text \<open>
  The product of the request and the replica count is not checked for overflow: four
  replicas of $2^{62}$ millicores each wrap around to zero and pass a quota of one millicore
  in an empty namespace.
\<close>

theorem quota_overflow_admits:
  "fst (fst (QuotaPolicy_Admit (\<lambda>w ns. Inr []) (Some \<lparr>rl_cpu_millis = 1, rl_memory_bytes = 0, rl_accelerators = []\<rparr>)
      ex_huge ())) = Inr () \<and> total_cpu [] ex_huge = 2 ^ 64"
  by (simp add: QuotaPolicy_Admit_def sum_requests_def wrap64_def total_cpu_def cs_cpu_def ctr_cpu_def ex_huge_def
      ex_request_def ex_container_def zero_messages Let_def)

section \<open>Volumes and the chain\<close>

text \<open>
  An admitted deployment never mounts a volume that another deployment has claimed: when
  the ownership policy admits a named request, every mounted volume that exists is
  unclaimed or claimed by that name.
\<close>

theorem ownership_exclusive:
  assumes "fst (fst (VolumeOwnershipPolicy_Admit Get req w)) = Inr ()" "req_Name req \<noteq> []"
    and "m \<in> set (PodSpec_GetVolumes (req_Spec req))" "Get w (req_Namespace req) (mnt_volume_name m) = Inr vol"
  shows "lget (ObjectMeta_GetLabels (vol_metadata vol)) OwnerDeploymentLabel \<in> {[], req_Name req}"
proof -
  have "ownership_loop (Get w) req ms = Inr () \<Longrightarrow> m \<in> set ms \<Longrightarrow>
      lget (ObjectMeta_GetLabels (vol_metadata vol)) OwnerDeploymentLabel \<in> {[], req_Name req}" for ms
    using assms(2,4) by (induction ms) (auto simp: Let_def split: sum.splits if_splits)
  with assms(1,3) show ?thesis by (simp add: VolumeOwnershipPolicy_Admit_def)
qed

definition ex_claimed :: "string \<Rightarrow> Volume" where
  "ex_claimed owner = \<lparr>vol_metadata = Some (zero_ObjectMeta\<lparr>meta_name := ''data'', meta_labels := [(OwnerDeploymentLabel, owner)]\<rparr>),
     vol_spec = None, vol_status = None\<rparr>"

definition ex_mounting :: Request where
  "ex_mounting = ex_request\<lparr>req_Name := ''web'', req_Spec := Some (zero_PodSpec\<lparr>ps_volumes :=
     [\<lparr>mnt_volume_name = ''data'', mnt_mount_path = ''/d'', mnt_read_only = False\<rparr>]\<rparr>)\<rparr>"

theorem ownership_exclusive_witness:
  "lget (ObjectMeta_GetLabels (vol_metadata (ex_claimed ''web''))) OwnerDeploymentLabel \<in> {[], ''web''}"
proof -
  let ?Get = "\<lambda>w ns n. Inr (ex_claimed ''web'') :: Volume res"
  have "fst (fst (VolumeOwnershipPolicy_Admit ?Get ex_mounting ())) = Inr ()"
    by (simp add: VolumeOwnershipPolicy_Admit_def ex_mounting_def ex_request_def ex_claimed_def lget_def zero_messages Let_def)
  from ownership_exclusive[OF this, of "\<lparr>mnt_volume_name = ''data'', mnt_mount_path = ''/d'', mnt_read_only = False\<rparr>"
      "ex_claimed ''web''"] show ?thesis
    by (simp add: ex_mounting_def zero_messages)
qed

end
