(* ===== verification/Rbac.thy ===== *)
theory Rbac
  imports Prelude
begin

text \<open>
  Authorisation: roles and bindings of \<^verbatim>\<open>internal/rbac/rbac.go\<close>, the table of methods and the
  default bindings of \<^verbatim>\<open>internal/apiserver/rbac.go\<close>, and the interceptor every call goes
  through, \<^verbatim>\<open>internal/apiserver/auth.go\<close>. The TLS state of the connection is data
  (\<open>peer_ctx\<close>); parsing a SPIFFE URI and the trust-domain matcher belong to the SPIFFE
  library and are parameters.
\<close>

section \<open>Roles and bindings\<close>

definition Wildcard :: string where "Wildcard = ''*''"

record Rule =
  rule_Resources :: "string list"
  rule_Verbs :: "string list"

definition rule_allows :: "Rule \<Rightarrow> string \<Rightarrow> string \<Rightarrow> bool" where
  "rule_allows r resource verb \<longleftrightarrow>
     (Wildcard \<in> set (rule_Resources r) \<or> resource \<in> set (rule_Resources r)) \<and>
     (Wildcard \<in> set (rule_Verbs r) \<or> verb \<in> set (rule_Verbs r))"

record Role =
  role_Name :: string
  role_Rules :: "Rule list"

fun rules_allow :: "Rule list \<Rightarrow> string \<Rightarrow> string \<Rightarrow> bool" where
  "rules_allow [] resource verb = False"
| "rules_allow (rule # rules) resource verb =
     (if rule_allows rule resource verb then True else rules_allow rules resource verb)"

definition role_allows :: "Role \<Rightarrow> string \<Rightarrow> string \<Rightarrow> bool" where
  "role_allows r resource verb = rules_allow (role_Rules r) resource verb"

record Binding =
  bind_PathPrefix :: string
  bind_Role :: Role

type_synonym Authorizer = "Binding list"

fun Allow :: "Authorizer \<Rightarrow> string \<Rightarrow> string \<Rightarrow> string \<Rightarrow> bool" where
  "Allow [] idPath resource verb = False"
| "Allow (b # bs) idPath resource verb =
     (if HasPrefix idPath (bind_PathPrefix b) \<and> role_allows (bind_Role b) resource verb then True
      else Allow bs idPath resource verb)"

section \<open>Methods and default bindings\<close>

definition methodResourceVerb :: "(string \<times> string \<times> string) list" where
  "methodResourceVerb =
    [(''/nimbuscore.v1.PodService/CreatePod'', ''pods'', ''create''),
     (''/nimbuscore.v1.PodService/GetPod'', ''pods'', ''get''),
     (''/nimbuscore.v1.PodService/ListPods'', ''pods'', ''list''),
     (''/nimbuscore.v1.PodService/DeletePod'', ''pods'', ''delete''),
     (''/nimbuscore.v1.PodService/UpdatePodStatus'', ''pods'', ''update''),
     (''/nimbuscore.v1.NodeService/CreateNode'', ''nodes'', ''create''),
     (''/nimbuscore.v1.NodeService/GetNode'', ''nodes'', ''get''),
     (''/nimbuscore.v1.NodeService/ListNodes'', ''nodes'', ''list''),
     (''/nimbuscore.v1.NodeService/DeleteNode'', ''nodes'', ''delete''),
     (''/nimbuscore.v1.NodeService/Heartbeat'', ''nodes'', ''update''),
     (''/nimbuscore.v1.DeploymentService/CreateDeployment'', ''deployments'', ''create''),
     (''/nimbuscore.v1.DeploymentService/GetDeployment'', ''deployments'', ''get''),
     (''/nimbuscore.v1.DeploymentService/ListDeployments'', ''deployments'', ''list''),
     (''/nimbuscore.v1.DeploymentService/DeleteDeployment'', ''deployments'', ''delete''),
     (''/nimbuscore.v1.NamespaceService/CreateNamespace'', ''namespaces'', ''create''),
     (''/nimbuscore.v1.NamespaceService/GetNamespace'', ''namespaces'', ''get''),
     (''/nimbuscore.v1.NamespaceService/ListNamespaces'', ''namespaces'', ''list''),
     (''/nimbuscore.v1.NamespaceService/DeleteNamespace'', ''namespaces'', ''delete''),
     (''/nimbuscore.v1.VolumeService/CreateVolume'', ''volumes'', ''create''),
     (''/nimbuscore.v1.VolumeService/GetVolume'', ''volumes'', ''get''),
     (''/nimbuscore.v1.VolumeService/ListVolumes'', ''volumes'', ''list''),
     (''/nimbuscore.v1.VolumeService/DeleteVolume'', ''volumes'', ''delete''),
     (''/nimbuscore.v1.NetworkPolicyService/CreateNetworkPolicy'', ''networkpolicies'', ''create''),
     (''/nimbuscore.v1.NetworkPolicyService/GetNetworkPolicy'', ''networkpolicies'', ''get''),
     (''/nimbuscore.v1.NetworkPolicyService/ListNetworkPolicies'', ''networkpolicies'', ''list''),
     (''/nimbuscore.v1.NetworkPolicyService/DeleteNetworkPolicy'', ''networkpolicies'', ''delete''),
     (''/nimbuscore.v1.ServiceService/CreateService'', ''services'', ''create''),
     (''/nimbuscore.v1.ServiceService/GetService'', ''services'', ''get''),
     (''/nimbuscore.v1.ServiceService/ListServices'', ''services'', ''list''),
     (''/nimbuscore.v1.ServiceService/DeleteService'', ''services'', ''delete''),
     (''/nimbuscore.v1.PolicyService/CreatePolicy'', ''policies'', ''create''),
     (''/nimbuscore.v1.PolicyService/GetPolicy'', ''policies'', ''get''),
     (''/nimbuscore.v1.PolicyService/ListPolicies'', ''policies'', ''list''),
     (''/nimbuscore.v1.PolicyService/DeletePolicy'', ''policies'', ''delete''),
     (''/nimbuscore.v1.SecretService/CreateSecret'', ''secrets'', ''create''),
     (''/nimbuscore.v1.SecretService/GetSecret'', ''secrets'', ''get''),
     (''/nimbuscore.v1.SecretService/ListSecrets'', ''secrets'', ''list''),
     (''/nimbuscore.v1.SecretService/DeleteSecret'', ''secrets'', ''delete''),
     (''/nimbuscore.v1.ImageRegistryService/PushImage'', ''images'', ''create''),
     (''/nimbuscore.v1.ImageRegistryService/GetImage'', ''images'', ''get''),
     (''/nimbuscore.v1.ImageRegistryService/ListImages'', ''images'', ''list''),
     (''/nimbuscore.v1.ImageRegistryService/DeleteImage'', ''images'', ''delete''),
     (''/nimbuscore.v1.BackupService/CreateBackup'', ''backup'', ''create''),
     (''/nimbuscore.v1.BackupService/RestoreBackup'', ''backup'', ''restore''),
     (''/nimbuscore.v1.FederationService/RegisterCluster'', ''federation'', ''create''),
     (''/nimbuscore.v1.FederationService/UnregisterCluster'', ''federation'', ''delete''),
     (''/nimbuscore.v1.FederationService/ListClusters'', ''federation'', ''list''),
     (''/nimbuscore.v1.FederationService/ListFederatedPods'', ''federation'', ''list''),
     (''/nimbuscore.v1.AdminService/JoinRaft'', ''admin'', ''join''),
     (''/nimbuscore.v1.FinOpsService/GetCostReport'', ''finops'', ''get'')]"

definition nodeRole :: Role where
  "nodeRole = \<lparr>role_Name = ''node'', role_Rules =
     [\<lparr>rule_Resources = [''nodes''], rule_Verbs = [''create'', ''update'']\<rparr>,
      \<lparr>rule_Resources = [''pods''], rule_Verbs = [''list'', ''update'']\<rparr>,
      \<lparr>rule_Resources = [''services''], rule_Verbs = [''list'']\<rparr>]\<rparr>"

definition clientRole :: Role where
  "clientRole = \<lparr>role_Name = ''client'', role_Rules =
     [\<lparr>rule_Resources = [''pods'', ''deployments'', ''volumes'', ''networkpolicies'', ''services'', ''policies'',
         ''secrets'', ''images'', ''backup'', ''federation'', ''finops'', ''namespaces''], rule_Verbs = [Wildcard]\<rparr>,
      \<lparr>rule_Resources = [''nodes''], rule_Verbs = [''get'', ''list'']\<rparr>]\<rparr>"

definition controlPlaneRole :: Role where
  "controlPlaneRole = \<lparr>role_Name = ''control-plane'', role_Rules =
     [\<lparr>rule_Resources = [Wildcard], rule_Verbs = [Wildcard]\<rparr>]\<rparr>"

definition DefaultRBACBindings :: "Binding list" where
  "DefaultRBACBindings =
     [\<lparr>bind_PathPrefix = ''/node/'', bind_Role = nodeRole\<rparr>,
      \<lparr>bind_PathPrefix = ''/client/'', bind_Role = clientRole\<rparr>,
      \<lparr>bind_PathPrefix = ''/control-plane/'', bind_Role = controlPlaneRole\<rparr>]"

section \<open>The caller's identity\<close>

record spiffe_ID =
  id_TrustDomain :: string
  id_Path :: string

text \<open>The URIs of each certificate of each verified chain; \<open>None\<close>: not a TLS connection.\<close>

record peer_ctx =
  peer_present :: bool
  peer_tls :: "string list list list option"

definition PeerSPIFFEID :: "(string \<Rightarrow> spiffe_ID res) \<Rightarrow> peer_ctx \<Rightarrow> spiffe_ID res" where
  "PeerSPIFFEID FromURI ctx =
     (if \<not> peer_present ctx then Inl (ErrText ''no peer information on context'')
      else case peer_tls ctx of
        None \<Rightarrow> Inl (ErrText ''connection is not TLS'')
      | Some vchains \<Rightarrow>
          (case vchains of
             (leaf # _) # _ \<Rightarrow>
               (case leaf of [uri] \<Rightarrow> FromURI uri
                | _ \<Rightarrow> Inl (ErrText ''client certificate must carry exactly one URI SAN''))
           | _ \<Rightarrow> Inl (ErrText ''no client certificate presented'')))"

section \<open>The interceptor\<close>

definition unauthenticatedMethods :: "string list" where
  "unauthenticatedMethods = [''/nimbuscore.v1.IdentityService/RequestSVID'']"

definition AuthInterceptor :: "(string \<Rightarrow> spiffe_ID res) \<Rightarrow> (spiffe_ID \<Rightarrow> error option) \<Rightarrow> Authorizer \<Rightarrow>
    peer_ctx \<Rightarrow> string \<Rightarrow> ('s, 'a) action \<Rightarrow> ('s, 'a) action" where
  "AuthInterceptor FromURI expectTrustDomain authz ctx fullMethod handler =
     (if fullMethod \<in> set unauthenticatedMethods then handler
      else case PeerSPIFFEID FromURI ctx of
        Inl err \<Rightarrow> throw (ErrStatus Unauthenticated [])
      | Inr ident \<Rightarrow>
          (case expectTrustDomain ident of
             Some err \<Rightarrow> throw (ErrStatus PermissionDenied ''identity rejected'')
           | None \<Rightarrow>
               (case map_of methodResourceVerb fullMethod of
                  None \<Rightarrow> throw (ErrStatus PermissionDenied ''method has no RBAC mapping'')
                | Some (resource, verb) \<Rightarrow>
                    if \<not> Allow authz (id_Path ident) resource verb
                    then throw (ErrStatus PermissionDenied ''identity is not authorized'')
                    else handler)))"

section \<open>Properties\<close>

lemma rules_allow_iff: "rules_allow rs resource verb \<longleftrightarrow> (\<exists>r \<in> set rs. rule_allows r resource verb)"
  by (induction rs) auto

lemma Allow_iff:
  "Allow bs idPath resource verb \<longleftrightarrow>
     (\<exists>b \<in> set bs. HasPrefix idPath (bind_PathPrefix b) \<and> role_allows (bind_Role b) resource verb)"
  by (induction bs) auto

text \<open>The calls that are let through, as a condition on caller and method.\<close>

definition permitted :: "(string \<Rightarrow> spiffe_ID res) \<Rightarrow> (spiffe_ID \<Rightarrow> error option) \<Rightarrow> Authorizer \<Rightarrow> peer_ctx \<Rightarrow> string \<Rightarrow> bool" where
  "permitted FromURI trust authz ctx m \<longleftrightarrow> m = ''/nimbuscore.v1.IdentityService/RequestSVID'' \<or>
     (\<exists>uri chain vchains ident resource verb. peer_present ctx \<and> peer_tls ctx = Some (([uri] # chain) # vchains) \<and>
        FromURI uri = Inr ident \<and> trust ident = None \<and> map_of methodResourceVerb m = Some (resource, verb) \<and>
        (\<exists>b \<in> set authz. HasPrefix (id_Path ident) (bind_PathPrefix b) \<and> role_allows (bind_Role b) resource verb))"

lemma PeerSPIFFEID_Inr:
  "PeerSPIFFEID FromURI ctx = Inr ident \<longleftrightarrow>
     (\<exists>uri chain vchains. peer_present ctx \<and> peer_tls ctx = Some (([uri] # chain) # vchains) \<and> FromURI uri = Inr ident)"
  by (auto simp: PeerSPIFFEID_def split: option.splits list.splits)

text \<open>
  C5: a handler runs exactly for permitted calls: the one method open to anyone, or a caller
  whose verified certificate carries one URI with a trusted identity, a method with an
  entry in the table, and a binding whose prefix matches and whose role allows it. Every
  other call is answered with \<open>Unauthenticated\<close> or \<open>PermissionDenied\<close> and leaves the state
  alone.
\<close>

theorem auth_exact:
  "if permitted FromURI trust authz ctx m
   then AuthInterceptor FromURI trust authz ctx m handler s = handler s
   else \<exists>c msg. c \<in> {Unauthenticated, PermissionDenied} \<and>
     AuthInterceptor FromURI trust authz ctx m handler s = (Inl (ErrStatus c msg), s)"
proof (cases "permitted FromURI trust authz ctx m")
  case True
  then show ?thesis
    by (auto simp: permitted_def AuthInterceptor_def unauthenticatedMethods_def Allow_iff PeerSPIFFEID_def)
next
  case False
  then show ?thesis
    by (auto simp: permitted_def AuthInterceptor_def unauthenticatedMethods_def Allow_iff throw_def PeerSPIFFEID_Inr
        split: sum.splits option.splits prod.splits)
qed

definition node_methods :: "string list" where
  "node_methods = [''/nimbuscore.v1.NodeService/CreateNode'', ''/nimbuscore.v1.NodeService/Heartbeat'',
     ''/nimbuscore.v1.PodService/ListPods'', ''/nimbuscore.v1.PodService/UpdatePodStatus'',
     ''/nimbuscore.v1.ServiceService/ListServices'']"

definition not_for_clients :: "string list" where
  "not_for_clients = [''/nimbuscore.v1.NodeService/CreateNode'', ''/nimbuscore.v1.NodeService/DeleteNode'',
     ''/nimbuscore.v1.NodeService/Heartbeat'', ''/nimbuscore.v1.AdminService/JoinRaft'']"

lemmas rbac_defs = DefaultRBACBindings_def nodeRole_def clientRole_def controlPlaneRole_def role_allows_def
  rule_allows_def Wildcard_def HasPrefix_def

lemma node_allow: "Allow DefaultRBACBindings (''/node/'' @ name) resource verb \<longleftrightarrow>
    resource = ''nodes'' \<and> (verb = ''create'' \<or> verb = ''update'') \<or>
    resource = ''pods'' \<and> (verb = ''list'' \<or> verb = ''update'') \<or> resource = ''services'' \<and> verb = ''list''"
  if "resource \<noteq> ''*''"
  using that by (auto simp: rbac_defs)

lemma client_allow: "Allow DefaultRBACBindings (''/client/'' @ name) resource verb \<longleftrightarrow>
    resource \<in> {''pods'', ''deployments'', ''volumes'', ''networkpolicies'', ''services'', ''policies'',
      ''secrets'', ''images'', ''backup'', ''federation'', ''finops'', ''namespaces''} \<or>
    resource = ''nodes'' \<and> (verb = ''get'' \<or> verb = ''list'')"
  by (auto simp: rbac_defs)

lemma table_node: "list_all (\<lambda>(m, resource, verb). resource \<noteq> ''*'' \<and>
    ((resource = ''nodes'' \<and> (verb = ''create'' \<or> verb = ''update'') \<or>
      resource = ''pods'' \<and> (verb = ''list'' \<or> verb = ''update'') \<or> resource = ''services'' \<and> verb = ''list'')
     \<longleftrightarrow> m \<in> set node_methods)) methodResourceVerb"
  by code_simp

lemma table_client: "list_all (\<lambda>(m, resource, verb).
    (resource \<in> {''pods'', ''deployments'', ''volumes'', ''networkpolicies'', ''services'', ''policies'',
      ''secrets'', ''images'', ''backup'', ''federation'', ''finops'', ''namespaces''} \<or>
    resource = ''nodes'' \<and> (verb = ''get'' \<or> verb = ''list'')) \<longleftrightarrow> m \<notin> set not_for_clients) methodResourceVerb"
  by code_simp

lemma table_mapped: "list_all (\<lambda>m. map_of methodResourceVerb m \<noteq> None) (node_methods @ not_for_clients)"
  by code_simp

text \<open>
  With the default bindings, a worker node's identity (path \<open>/node/...\<close>) reaches exactly
  five methods behind authentication: creating its node, heartbeats, listing pods and
  services, and pod status updates. A client identity (path \<open>/client/...\<close>) reaches every method in the
  table except creating and deleting nodes, heartbeats and joining the Raft cluster.
\<close>

theorem default_roles_exact:
  assumes "map_of methodResourceVerb m = Some (resource, verb)"
  shows "(Allow DefaultRBACBindings (''/node/'' @ name) resource verb \<longleftrightarrow> m \<in> set node_methods) \<and>
    (Allow DefaultRBACBindings (''/client/'' @ name) resource verb \<longleftrightarrow> m \<notin> set not_for_clients)"
proof -
  from assms have mem: "(m, resource, verb) \<in> set methodResourceVerb" by (rule map_of_SomeD)
  note n = bspec[OF table_node[unfolded list_all_iff] mem, unfolded prod.case]
  note c = bspec[OF table_client[unfolded list_all_iff] mem, unfolded prod.case]
  from n have "resource \<noteq> ''*''" by (rule conjunct1)
  note node_allow[OF this, of name verb, unfolded n[THEN conjunct2]]
    client_allow[of name resource verb, unfolded c]
  then show ?thesis by (rule conjI)
qed

theorem default_roles_exact_witness:
  "\<not> Allow DefaultRBACBindings ''/node/worker-1'' ''secrets'' ''get'' \<and>
   Allow DefaultRBACBindings ''/client/alice'' ''secrets'' ''get''"
proof -
  have m: "map_of methodResourceVerb ''/nimbuscore.v1.SecretService/GetSecret'' = Some (''secrets'', ''get'')"
    by code_simp
  from default_roles_exact[OF m, of "''worker-1''"] default_roles_exact[OF m, of "''alice''"] show ?thesis
    by (simp add: node_methods_def not_for_clients_def)
qed

end
