(* ===== verification/ApiServices.thy ===== *)
theory ApiServices
  imports Admission Rbac RaftStore
begin

text \<open>
  The gRPC services of \<^verbatim>\<open>internal/apiserver\<close>, handler by handler. A request message is given by
  its fields; a message that a client may leave out is an \<open>option\<close>. The time is a parameter,
  in seconds since the epoch where the source asks for \<open>Unix()\<close>. Status texts keep the
  static part of the format string.
\<close>

section \<open>Handlers shared in form\<close>

definition api_get :: "string \<Rightarrow> ('s, 'b, 't) Registry \<Rightarrow> string \<Rightarrow> string \<Rightarrow> ('s, 't) action" where
  "api_get what r ns name = statusA NotFound what (readA (reg_Get r ns name))"

definition api_list :: "string \<Rightarrow> ('s, 'b, 't) Registry \<Rightarrow> string \<Rightarrow> ('s, 't list) action" where
  "api_list what r ns = statusA Internal what (readA (reg_List r ns))"

definition api_delete :: "string \<Rightarrow> ('s, 'b, 't) Registry \<Rightarrow> string \<Rightarrow> string \<Rightarrow> ('s, unit) action" where
  "api_delete what r ns name = statusA Internal what (reg_Delete r ns name)"

definition api_put :: "string \<Rightarrow> ('s, 'b, 't) Registry \<Rightarrow> string \<Rightarrow> string \<Rightarrow> 't \<Rightarrow> ('s, 't) action" where
  "api_put what r ns name obj = bindA (statusA Internal what (reg_Put r ns name obj)) (\<lambda>_. ret obj)"

definition invalid :: "string \<Rightarrow> ('s, 'a) action" where
  "invalid what = throw (ErrStatus InvalidArgument what)"

text \<open>An action on the store, where the state also holds the policy cache.\<close>

definition onStore :: "('s, 'a) action \<Rightarrow> (('s, 'p) adm_state, 'a) action" where
  "onStore a w = (case a (as_store w) of (r, s) \<Rightarrow> (r, w\<lparr>as_store := s\<rparr>))"

section \<open>Pods\<close>

record ('s, 'b, 'p) podService =
  psv_pods :: "('s, 'b, Pod) Registry"
  psv_admission :: "('s, 'p) adm_state Validator list"

definition NewPodService :: "('s, 'b) Store \<Rightarrow> (Pod, 'b) codec \<Rightarrow> ('s, 'p) adm_state Validator list \<Rightarrow>
    ('s, 'b, 'p) podService" where
  "NewPodService s newFn chain = \<lparr>psv_pods = reg_New s kPods newFn, psv_admission = chain\<rparr>"

text \<open>Admission works on the pod's own specification; what it fills in is stored.\<close>

definition CreatePod :: "('s, 'b, 'p) podService \<Rightarrow> Pod option \<Rightarrow> (('s, 'p) adm_state, Pod) action" where
  "CreatePod svc req w =
     (case req of
        None \<Rightarrow> invalid ''pod.metadata.name is required'' w
      | Some pod \<Rightarrow>
          if pod_name pod = [] then invalid ''pod.metadata.name is required'' w
          else (case Chain_Admit (psv_admission svc)
                       \<lparr>req_Namespace = pod_namespace pod, req_Name = [], req_Labels = pod_labels pod,
                        req_Spec = pod_spec pod, req_Replicas = 1\<rparr> w of
                  ((Inl e, areq), w') \<Rightarrow> (Inl (ErrStatus FailedPrecondition []), w')
                | ((Inr _, areq), w') \<Rightarrow>
                    (let pod' = pod\<lparr>pod_spec := req_Spec areq\<rparr>
                     in onStore (api_put ''create pod'' (psv_pods svc) (pod_namespace pod') (pod_name pod') pod') w')))"

definition GetPod :: "('s, 'b, 'p) podService \<Rightarrow> string \<Rightarrow> string \<Rightarrow> ('s, Pod) action" where
  "GetPod svc ns name = api_get ''pod'' (psv_pods svc) ns name"

definition ListPods :: "('s, 'b, 'p) podService \<Rightarrow> string \<Rightarrow> ('s, Pod list) action" where
  "ListPods svc ns = api_list ''list pods'' (psv_pods svc) ns"

definition DeletePod :: "('s, 'b, 'p) podService \<Rightarrow> string \<Rightarrow> string \<Rightarrow> ('s, unit) action" where
  "DeletePod svc ns name = api_delete ''delete pod'' (psv_pods svc) ns name"

text \<open>
  \<open>caller\<close> is the result of \<open>PeerSPIFFEID\<close>. A caller without an identity, or one that is not a
  node, is not checked here.
\<close>

definition foreign_node :: "spiffe_ID res \<Rightarrow> Pod \<Rightarrow> bool" where
  "foreign_node caller pod =
     (case caller of
        Inl e \<Rightarrow> False
      | Inr ident \<Rightarrow> HasPrefix (id_Path ident) ''/node/'' \<and> pod_node pod \<noteq> [] \<and>
          pod_node pod \<noteq> TrimPrefix (id_Path ident) ''/node/'')"

definition UpdatePodStatus :: "('s, 'b, 'p) podService \<Rightarrow> spiffe_ID res \<Rightarrow> string \<Rightarrow> string \<Rightarrow> PodStatus option \<Rightarrow>
    ('s, Pod) action" where
  "UpdatePodStatus svc caller ns name st =
     bindA (api_get ''pod'' (psv_pods svc) ns name) (\<lambda>pod.
       if foreign_node caller pod then throw (ErrStatus PermissionDenied ''node may not update status'')
       else api_put ''update pod status'' (psv_pods svc) ns name (pod\<lparr>pod_status := st\<rparr>))"

section \<open>Deployments\<close>

record ('s, 'b, 'p) deploymentService =
  dsv_deployments :: "('s, 'b, Deployment) Registry"
  dsv_pods :: "('s, 'b, Pod) Registry"
  dsv_admission :: "('s, 'p) adm_state Validator list"

definition NewDeploymentService :: "('s, 'b) Store \<Rightarrow> (Deployment, 'b) codec \<Rightarrow> (Pod, 'b) codec \<Rightarrow>
    ('s, 'p) adm_state Validator list \<Rightarrow> ('s, 'b, 'p) deploymentService" where
  "NewDeploymentService s cd cp chain =
     \<lparr>dsv_deployments = reg_New s kDeployments cd, dsv_pods = reg_New s kPods cp, dsv_admission = chain\<rparr>"

definition CreateDeployment :: "('s, 'b, 'p) deploymentService \<Rightarrow> Deployment option \<Rightarrow>
    (('s, 'p) adm_state, Deployment) action" where
  "CreateDeployment svc req w =
     (case req of
        None \<Rightarrow> invalid ''deployment.metadata.name is required'' w
      | Some d \<Rightarrow>
          if dep_name d = [] then invalid ''deployment.metadata.name is required'' w
          else (case Chain_Admit (dsv_admission svc)
                       \<lparr>req_Namespace = dep_namespace d, req_Name = dep_name d,
                        req_Labels = ObjectMeta_GetLabels (dep_metadata d),
                        req_Spec = dep_template d, req_Replicas = dep_replicas d\<rparr> w of
                  ((Inl e, areq), w') \<Rightarrow> (Inl (ErrStatus FailedPrecondition []), w')
                | ((Inr _, areq), w') \<Rightarrow>
                    (let d' = d\<lparr>dep_spec := map_option (\<lambda>sp. sp\<lparr>ds_template := req_Spec areq\<rparr>) (dep_spec d)\<rparr>
                     in onStore (api_put ''create deployment'' (dsv_deployments svc) (dep_namespace d') (dep_name d') d') w')))"

definition GetDeployment :: "('s, 'b, 'p) deploymentService \<Rightarrow> string \<Rightarrow> string \<Rightarrow> ('s, Deployment) action" where
  "GetDeployment svc ns name = api_get ''deployment'' (dsv_deployments svc) ns name"

definition ListDeployments :: "('s, 'b, 'p) deploymentService \<Rightarrow> string \<Rightarrow> ('s, Deployment list) action" where
  "ListDeployments svc ns = api_list ''list deployments'' (dsv_deployments svc) ns"

fun cascade_loop :: "('s, 'b, Pod) Registry \<Rightarrow> string \<Rightarrow> Pod list \<Rightarrow> ('s, unit) action" where
  "cascade_loop pods name [] = ret ()"
| "cascade_loop pods name (p # ps) =
     (if owner_of p \<noteq> name then cascade_loop pods name ps
      else bindA (statusA Internal ''delete owned pod'' (reg_Delete pods (pod_namespace p) (pod_name p)))
             (\<lambda>_. cascade_loop pods name ps))"

definition DeleteDeployment :: "('s, 'b, 'p) deploymentService \<Rightarrow> string \<Rightarrow> string \<Rightarrow> ('s, unit) action" where
  "DeleteDeployment svc ns name =
     bindA (statusA Internal ''delete deployment'' (reg_Delete (dsv_deployments svc) ns name)) (\<lambda>_.
     bindA (statusA Internal ''list pods for cascade delete'' (readA (reg_List (dsv_pods svc) ns))) (\<lambda>pods.
     cascade_loop (dsv_pods svc) name pods))"

section \<open>Nodes\<close>

definition CreateNode :: "('s, 'b, Node) Registry \<Rightarrow> Node option \<Rightarrow> ('s, Node) action" where
  "CreateNode nodes req =
     (case req of None \<Rightarrow> invalid ''node.metadata.name is required''
      | Some node \<Rightarrow> if node_name node = [] then invalid ''node.metadata.name is required''
          else api_put ''create node'' nodes [] (node_name node) node)"

definition GetNode :: "('s, 'b, Node) Registry \<Rightarrow> string \<Rightarrow> ('s, Node) action" where
  "GetNode nodes name = api_get ''node'' nodes [] name"

definition ListNodes :: "('s, 'b, Node) Registry \<Rightarrow> ('s, Node list) action" where
  "ListNodes nodes = api_list ''list nodes'' nodes []"

definition DeleteNode :: "('s, 'b, Node) Registry \<Rightarrow> string \<Rightarrow> ('s, unit) action" where
  "DeleteNode nodes name = api_delete ''delete node'' nodes [] name"

definition beat :: "int64 \<Rightarrow> ResourceList option \<Rightarrow> ResourceList option \<Rightarrow> Node \<Rightarrow> Node" where
  "beat now capacity allocatable node =
     (let st = (case node_status node of None \<Rightarrow> zero_NodeStatus | Some st \<Rightarrow> st);
          st = st\<lparr>nst_ready := True, nst_last_heartbeat_unix := now\<rparr>;
          st = (if capacity \<noteq> None then st\<lparr>nst_capacity := capacity\<rparr> else st);
          st = (if allocatable \<noteq> None then st\<lparr>nst_allocatable := allocatable\<rparr> else st)
      in node\<lparr>node_status := Some st\<rparr>)"

definition Heartbeat :: "('s, 'b, Node) Registry \<Rightarrow> int64 \<Rightarrow> string \<Rightarrow> ResourceList option \<Rightarrow> ResourceList option \<Rightarrow>
    ('s, bool) action" where
  "Heartbeat nodes now name capacity allocatable =
     bindA (api_get ''node'' nodes [] name) (\<lambda>node.
     bindA (statusA Internal ''update node'' (reg_Put nodes [] name (beat now capacity allocatable node)))
       (\<lambda>_. ret True))"

section \<open>Namespaces\<close>

abbreviation nsp_name :: "Namespace \<Rightarrow> string" where
  "nsp_name n \<equiv> ObjectMeta_GetName (nsp_metadata n)"

definition CreateNamespace :: "('s, 'b, Namespace) Registry \<Rightarrow> Namespace option \<Rightarrow> ('s, Namespace) action" where
  "CreateNamespace namespaces req s =
     (case req of None \<Rightarrow> invalid ''namespace.metadata.name is required'' s
      | Some ns \<Rightarrow> if nsp_name ns = [] then invalid ''namespace.metadata.name is required'' s
          else (case reg_Get namespaces [] (nsp_name ns) s of
                  Inr old \<Rightarrow> (Inl (ErrStatus AlreadyExists ''namespace already exists''), s)
                | Inl e \<Rightarrow> api_put ''create namespace'' namespaces [] (nsp_name ns) ns s))"

definition GetNamespace :: "('s, 'b, Namespace) Registry \<Rightarrow> string \<Rightarrow> ('s, Namespace) action" where
  "GetNamespace namespaces name = api_get ''namespace'' namespaces [] name"

definition ListNamespaces :: "('s, 'b, Namespace) Registry \<Rightarrow> ('s, Namespace list) action" where
  "ListNamespaces namespaces = api_list ''list namespaces'' namespaces []"

definition DeleteNamespace :: "('s, 'b, Namespace) Registry \<Rightarrow> string \<Rightarrow> ('s, unit) action" where
  "DeleteNamespace namespaces name = api_delete ''delete namespace'' namespaces [] name"

section \<open>Volumes\<close>

text \<open>The CSI controller, on a state of its own beside the store.\<close>

record 'v CSIController =
  csi_CreateVolume :: "string \<Rightarrow> int64 \<Rightarrow> ('v, int64) action"
  csi_DeleteVolume :: "string \<Rightarrow> ('v, unit) action"

definition onFst :: "('s, 'a) action \<Rightarrow> ('s \<times> 'v, 'a) action" where
  "onFst a w = (case a (fst w) of (r, s) \<Rightarrow> (r, (s, snd w)))"

definition onSnd :: "('v, 'a) action \<Rightarrow> ('s \<times> 'v, 'a) action" where
  "onSnd a w = (case a (snd w) of (r, v) \<Rightarrow> (r, (fst w, v)))"

abbreviation vol_name :: "Volume \<Rightarrow> string" where
  "vol_name v \<equiv> ObjectMeta_GetName (vol_metadata v)"

abbreviation vol_namespace :: "Volume \<Rightarrow> string" where
  "vol_namespace v \<equiv> ObjectMeta_GetNamespace (vol_metadata v)"

definition CreateVolume :: "('s, 'b, Volume) Registry \<Rightarrow> 'v CSIController \<Rightarrow> Volume option \<Rightarrow> ('s \<times> 'v, Volume) action" where
  "CreateVolume volumes csi req =
     (case req of None \<Rightarrow> invalid ''volume.metadata.name is required''
      | Some vol \<Rightarrow> if vol_name vol = [] then invalid ''volume.metadata.name is required''
          else bindA (onSnd (statusA Internal ''provision volume''
                        (csi_CreateVolume csi (vol_namespace vol @ ''/'' @ vol_name vol)
                           (VolumeSpec_GetRequestedBytes (vol_spec vol)))))
                 (\<lambda>capacity. onFst (api_put ''create volume'' volumes (vol_namespace vol) (vol_name vol)
                    (vol\<lparr>vol_status := Some (zero_VolumeStatus\<lparr>volstat_phase := VOLUME_PHASE_BOUND,
                       volstat_capacity_bytes := capacity\<rparr>)\<rparr>))))"

definition GetVolume :: "('s, 'b, Volume) Registry \<Rightarrow> string \<Rightarrow> string \<Rightarrow> ('s, Volume) action" where
  "GetVolume volumes ns name = api_get ''volume'' volumes ns name"

definition ListVolumes :: "('s, 'b, Volume) Registry \<Rightarrow> string \<Rightarrow> ('s, Volume list) action" where
  "ListVolumes volumes ns = api_list ''list volumes'' volumes ns"

definition DeleteVolume :: "('s, 'b, Volume) Registry \<Rightarrow> 'v CSIController \<Rightarrow> string \<Rightarrow> string \<Rightarrow> ('s \<times> 'v, unit) action" where
  "DeleteVolume volumes csi ns name =
     (if ns = [] \<or> name = [] then invalid ''namespace and name are required''
      else bindA (onSnd (statusA Internal ''deprovision volume'' (csi_DeleteVolume csi (ns @ ''/'' @ name))))
             (\<lambda>_. onFst (statusA Internal ''delete volume'' (reg_Delete volumes ns name))))"

section \<open>Secrets, policies, network policies\<close>

abbreviation sec_name :: "Secret \<Rightarrow> string" where "sec_name x \<equiv> ObjectMeta_GetName (sec_metadata x)"
abbreviation sec_namespace :: "Secret \<Rightarrow> string" where "sec_namespace x \<equiv> ObjectMeta_GetNamespace (sec_metadata x)"
abbreviation np_name :: "NetworkPolicy \<Rightarrow> string" where "np_name x \<equiv> ObjectMeta_GetName (np_metadata x)"
abbreviation np_namespace :: "NetworkPolicy \<Rightarrow> string" where "np_namespace x \<equiv> ObjectMeta_GetNamespace (np_metadata x)"
abbreviation pol_name :: "Policy \<Rightarrow> string" where "pol_name x \<equiv> ObjectMeta_GetName (pol_metadata x)"

definition CreateSecret :: "('s, 'b, Secret) Registry \<Rightarrow> Secret option \<Rightarrow> ('s, Secret) action" where
  "CreateSecret secrets req =
     (case req of None \<Rightarrow> invalid ''secret.metadata.name is required''
      | Some x \<Rightarrow> if sec_name x = [] then invalid ''secret.metadata.name is required''
          else api_put ''create secret'' secrets (sec_namespace x) (sec_name x) x)"

definition GetSecret :: "('s, 'b, Secret) Registry \<Rightarrow> string \<Rightarrow> string \<Rightarrow> ('s, Secret) action" where
  "GetSecret secrets ns name = api_get ''secret'' secrets ns name"

definition ListSecrets :: "('s, 'b, Secret) Registry \<Rightarrow> string \<Rightarrow> ('s, Secret list) action" where
  "ListSecrets secrets ns = api_list ''list secrets'' secrets ns"

definition DeleteSecret :: "('s, 'b, Secret) Registry \<Rightarrow> string \<Rightarrow> string \<Rightarrow> ('s, unit) action" where
  "DeleteSecret secrets ns name = api_delete ''delete secret'' secrets ns name"

definition CreatePolicy :: "('s, 'b, Policy) Registry \<Rightarrow> ('ast, 'prg) cel_env \<Rightarrow> Policy option \<Rightarrow> ('s, Policy) action" where
  "CreatePolicy policies env req =
     (case req of None \<Rightarrow> invalid ''policy.metadata.name is required''
      | Some pol \<Rightarrow>
          if pol_name pol = [] then invalid ''policy.metadata.name is required''
          else if pol_expr pol = [] then invalid ''policy.spec.expression is required''
          else (case Engine_Compile env (pol_expr pol) of
                  Inl e \<Rightarrow> invalid ''invalid CEL expression''
                | Inr prg \<Rightarrow> api_put ''create policy'' policies [] (pol_name pol) pol))"

definition GetPolicy :: "('s, 'b, Policy) Registry \<Rightarrow> string \<Rightarrow> ('s, Policy) action" where
  "GetPolicy policies name = api_get ''policy'' policies [] name"

definition ListPolicies :: "('s, 'b, Policy) Registry \<Rightarrow> ('s, Policy list) action" where
  "ListPolicies policies = api_list ''list policies'' policies []"

definition DeletePolicy :: "('s, 'b, Policy) Registry \<Rightarrow> string \<Rightarrow> ('s, unit) action" where
  "DeletePolicy policies name = api_delete ''delete policy'' policies [] name"

definition CreateNetworkPolicy :: "('s, 'b, NetworkPolicy) Registry \<Rightarrow> NetworkPolicy option \<Rightarrow> ('s, NetworkPolicy) action" where
  "CreateNetworkPolicy policies req =
     (case req of None \<Rightarrow> invalid ''network_policy.metadata.name is required''
      | Some x \<Rightarrow> if np_name x = [] then invalid ''network_policy.metadata.name is required''
          else api_put ''create network policy'' policies (np_namespace x) (np_name x) x)"

definition GetNetworkPolicy :: "('s, 'b, NetworkPolicy) Registry \<Rightarrow> string \<Rightarrow> string \<Rightarrow> ('s, NetworkPolicy) action" where
  "GetNetworkPolicy policies ns name = api_get ''network policy'' policies ns name"

definition ListNetworkPolicies :: "('s, 'b, NetworkPolicy) Registry \<Rightarrow> string \<Rightarrow> ('s, NetworkPolicy list) action" where
  "ListNetworkPolicies policies ns = api_list ''list network policies'' policies ns"

definition DeleteNetworkPolicy :: "('s, 'b, NetworkPolicy) Registry \<Rightarrow> string \<Rightarrow> string \<Rightarrow> ('s, unit) action" where
  "DeleteNetworkPolicy policies ns name = api_delete ''delete network policy'' policies ns name"

section \<open>Images\<close>

text \<open>
  \<open>verify\<close> stands for \<open>imagesign.Verify\<close> with the service's public key: ECDSA over the
  SHA-256 of the reference.
\<close>

definition PushImage :: "('s, 'b, ImageRecord) Registry \<Rightarrow> (string \<Rightarrow> bytes \<Rightarrow> unit res) \<Rightarrow> int64 \<Rightarrow> string \<Rightarrow> bytes \<Rightarrow>
    ('s, ImageRecord) action" where
  "PushImage images verify now reference signature =
     (if reference = [] then invalid ''reference is required''
      else case verify reference signature of
        Inl e \<Rightarrow> throw (ErrStatus PermissionDenied ''signature verification failed'')
      | Inr _ \<Rightarrow> api_put ''push image'' images [] reference
          \<lparr>img_reference = reference, img_signature = signature, img_pushed_at_unix = now\<rparr>)"

definition GetImage :: "('s, 'b, ImageRecord) Registry \<Rightarrow> string \<Rightarrow> ('s, ImageRecord) action" where
  "GetImage images reference = api_get ''image'' images [] reference"

definition ListImages :: "('s, 'b, ImageRecord) Registry \<Rightarrow> ('s, ImageRecord list) action" where
  "ListImages images = api_list ''list images'' images []"

definition DeleteImage :: "('s, 'b, ImageRecord) Registry \<Rightarrow> string \<Rightarrow> ('s, unit) action" where
  "DeleteImage images reference = api_delete ''delete image'' images [] reference"

text \<open>\<open>imageregistry.Verifier\<close>: admission accepts an image with a record.\<close>

definition registry_Verify :: "('s, 'b, ImageRecord) Registry \<Rightarrow> 's \<Rightarrow> string \<Rightarrow> unit res" where
  "registry_Verify records s imageRef =
     (case reg_Get records [] imageRef s of
        Inl e \<Rightarrow> Inl (ErrWrap ''imageregistry: image was not pushed to the cluster registry'' e)
      | Inr rec \<Rightarrow> Inr ())"

section \<open>Backup\<close>

definition CreateBackup :: "('s, 'b) Store \<Rightarrow> ('s, (string, 'b) gomap) action" where
  "CreateBackup S = statusA Internal ''list store contents'' (readA (st_List S []))"

definition RestoreBackup :: "('s, 'b) Store \<Rightarrow> (string, 'b) gomap \<Rightarrow> ('s, int32) action" where
  "RestoreBackup S entries =
     bindA (forA (\<lambda>(k, v). statusA Internal ''restore key'' (st_Put S k v)) entries)
       (\<lambda>_. ret (wrap32 (int (length entries))))"

section \<open>Joining the control plane\<close>

definition JoinRaft :: "('r, 'g, 'l) raft_env \<Rightarrow> spiffe_ID res \<Rightarrow> string \<Rightarrow> string \<Rightarrow> (('r, 'g) RaftStore, unit) action" where
  "JoinRaft E caller nodeID addr =
     (case caller of
        Inl e \<Rightarrow> throw (ErrStatus Unauthenticated [])
      | Inr ident \<Rightarrow>
          if \<not> HasPrefix (id_Path ident) ''/control-plane/''
          then throw (ErrStatus PermissionDenied ''JoinRaft requires a control-plane identity'')
          else if nodeID = [] \<or> addr = [] then invalid ''node_id and raft_addr are required''
          else statusA FailedPrecondition ''add voter'' (AddVoter E nodeID addr))"

section \<open>Backup and restore\<close>

context store_laws
begin

lemma restore_loop:
  assumes "inv s" "forA (\<lambda>(k, v). statusA Internal m (st_Put S k v)) entries s = (Inr (), s')"
  shows "inv s' \<and> abs s' = abs s ++ map_of (rev entries)"
  using assms
proof (induction entries arbitrary: s)
  case Nil
  then show ?case by (simp add: ret_def)
next
  case (Cons e entries)
  obtain k v where e: "e = (k, v)" by fastforce
  from Cons.prems(2) obtain s1 where put: "st_Put S k v s = (Inr (), s1)"
    and rest: "forA (\<lambda>(k, v). statusA Internal m (st_Put S k v)) entries s1 = (Inr (), s')"
    by (auto simp: e bindA_Inr)
  from put put_inv[OF Cons.prems(1), of k v] have i: "inv s1" by simp
  from Cons.IH[OF i rest] put_ok[OF Cons.prems(1) put] show ?case
    by (auto simp: e fun_eq_iff map_add_def split: option.splits)
qed

lemma backup_contents:
  assumes "inv s"
  shows "\<exists>b. CreateBackup S s = (Inr b, s) \<and> distinct (map fst b) \<and> map_of b = abs s"
proof -
  from list_ok[OF assms, of "[]"] obtain b where "st_List S [] s = Inr b" "distinct (map fst b)" "map_of b = abs s"
    by auto
  then show ?thesis by (auto simp: CreateBackup_def actions)
qed

end

text \<open>
  C23: a backup is complete and restoring it brings it back, between any two stores that
  keep the contract (two Raft stores under different keys, say). Taking the backup never
  fails and changes nothing; a restore that reports no error leaves the backup's value under
  every key of the backup and every other key as it was. An empty store becomes equal to
  the one backed up, a store with other keys keeps them.
\<close>

theorem backup_restore_roundtrip:
  assumes "store_laws S good repr" "good s" "store_laws T good' repr'" "good' t"
  shows "\<exists>b. CreateBackup S s = (Inr b, s) \<and>
    (\<forall>n t'. RestoreBackup T b t = (Inr n, t') \<longrightarrow>
       good' t' \<and> repr' t' = repr' t ++ repr s \<and> (repr' t = Map.empty \<longrightarrow> repr' t' = repr s))"
proof -
  from store_laws.backup_contents[OF assms(1,2)] obtain b
    where b: "CreateBackup S s = (Inr b, s)" "distinct (map fst b)" "map_of b = repr s" by blast
  have "good' t' \<and> repr' t' = repr' t ++ repr s" if "RestoreBackup T b t = (Inr n, t')" for n t'
  proof -
    from that have "forA (\<lambda>(k, v). statusA Internal ''restore key'' (st_Put T k v)) b t = (Inr (), t')"
      by (auto simp: RestoreBackup_def bindA_Inr ret_def)
    from store_laws.restore_loop[OF assms(3,4) this] b(2,3) show ?thesis
      by (simp add: map_of_rev_distinct)
  qed
  with b(1) show ?thesis by auto
qed

theorem backup_restore_roundtrip_witness:
  "\<exists>t'. RestoreBackup memStore [(''a'', ''x''), (''b'', ''y'')] NewMemStore = (Inr 2, t') \<and>
     map_of t' = map_of [(''a'', ''x''), (''b'', ''y'')]"
proof -
  let ?s = "[(''a'', ''x''), (''b'', ''y'')] :: string memStore"
  obtain b where b: "CreateBackup memStore ?s = (Inr b, ?s)" and r: "\<And>n t'. RestoreBackup memStore b NewMemStore = (Inr n, t') \<Longrightarrow>
      map_of t' = map_of (NewMemStore :: string memStore) ++ map_of ?s"
    using backup_restore_roundtrip[OF mem.store_laws_axioms _ mem.store_laws_axioms, of ?s NewMemStore]
    by (auto simp: NewMemStore_def)
  have "CreateBackup memStore ?s = (Inr ?s, ?s)" by code_simp
  with b have "b = ?s" by simp
  moreover have "RestoreBackup memStore ?s NewMemStore = (Inr 2, ?s)" by code_simp
  ultimately show ?thesis using r by blast
qed

section \<open>Status updates\<close>

text \<open>
  A node may only report on its own pods. Called with the identity \<open>/node/N\<close>, an update
  of a pod that is bound to another node is refused and changes nothing. A successful update
  replaces the status of that one pod, which was bound to \<open>N\<close> or to no node, and leaves its
  metadata and specification and every other pod alone.
\<close>

theorem status_update_own_node:
  assumes "registry_laws S good repr CP" "good s" "decodes repr CP kPods s"
    and "id_Path ident = ''/node/'' @ N" "obj_at repr CP kPods s (key_of kPods ns n) = Some p"
    and "UpdatePodStatus (NewPodService S CP chain) (Inr ident) ns n st s = (r, s')"
  shows "if pod_node p \<in> {[], N}
    then \<forall>x. r = Inr x \<longrightarrow> x = p\<lparr>pod_status := st\<rparr> \<and>
           obj_at repr CP kPods s' = (obj_at repr CP kPods s)(key_of kPods ns n \<mapsto> p\<lparr>pod_status := st\<rparr>)
    else r = Inl (ErrStatus PermissionDenied ''node may not update status'') \<and> s' = s"
proof -
  let ?R = "reg_New S kPods CP"
  have get: "api_get ''pod'' ?R ns n s = (Inr p, s)"
    using registry_laws.reg_Get_obj_at[OF assms(1-3), of ns n] assms(5)
    by (simp add: api_get_def actions)
  have f: "foreign_node (Inr ident) p \<longleftrightarrow> pod_node p \<notin> {[], N}"
    using assms(4) by (simp add: foreign_node_def HasPrefix_def TrimPrefix_def)
  have upd: "UpdatePodStatus (NewPodService S CP chain) (Inr ident) ns n st s =
      (if foreign_node (Inr ident) p then throw (ErrStatus PermissionDenied ''node may not update status'') s
       else api_put ''update pod status'' ?R ns n (p\<lparr>pod_status := st\<rparr>) s)"
    by (simp add: UpdatePodStatus_def NewPodService_def bindA_def get)
  show ?thesis
  proof (cases "pod_node p \<in> {[], N}")
    case True
    with f have "\<not> foreign_node (Inr ident) p" by blast
    with upd assms(6) have put: "api_put ''update pod status'' ?R ns n (p\<lparr>pod_status := st\<rparr>) s = (r, s')" by simp
    have "x = p\<lparr>pod_status := st\<rparr> \<and>
        obj_at repr CP kPods s' = (obj_at repr CP kPods s)(key_of kPods ns n \<mapsto> p\<lparr>pod_status := st\<rparr>)" if "r = Inr x" for x
      using put that registry_laws.reg_Put_ok(2)[OF assms(1,2)] by (auto simp: api_put_def bindA_Inr ret_def)
    with True show ?thesis by auto
  next
    case False
    with f upd assms(6) show ?thesis by (simp add: throw_def)
  qed
qed

definition ex_bound :: "wire memStore" where
  "ex_bound = [(''/registry/pods/default/a'', WPod (ex_pod_obj ''a'' ''n1'' [80]))]"

theorem status_update_own_node_witness:
  "UpdatePodStatus (NewPodService memStore pod_codec [] :: (wire memStore, wire, unit) podService) (Inr \<lparr>id_TrustDomain = ''nimbus'', id_Path = ''/node/n2''\<rparr>)
     ''default'' ''a'' None ex_bound =
   (Inl (ErrStatus PermissionDenied ''node may not update status''), ex_bound)"
proof -
  let ?id = "\<lparr>id_TrustDomain = ''nimbus'', id_Path = ''/node/n2''\<rparr>"
  let ?run = "UpdatePodStatus (NewPodService memStore pod_codec [] :: (wire memStore, wire, unit) podService) (Inr ?id) ''default'' ''a'' None ex_bound"
  have d: "decodes map_of pod_codec kPods ex_bound"
    by (auto simp: decodes_def ex_bound_def codec_defs split: if_splits)
  have p: "obj_at map_of pod_codec kPods ex_bound (key_of kPods ''default'' ''a'') = Some (ex_pod_obj ''a'' ''n1'' [80])"
    by (simp add: obj_at_def ex_bound_def codec_defs key_of_def HasPrefix_def reg_prefix_def)
  have n: "pod_node (ex_pod_obj ''a'' ''n1'' [80]) = ''n1''" by (simp add: ex_object_defs)
  have i: "id_Path ?id = ''/node/'' @ ''n2''" "mem_ok ex_bound" by (simp_all add: ex_bound_def)
  from status_update_own_node[OF mem_cluster.pods.registry_laws_axioms i(2) d i(1) p prod.collapse[symmetric, of ?run]] n
  show ?thesis by (simp add: prod_eq_iff)
qed

section \<open>Deleting a deployment\<close>

context cluster
begin

lemma delete_dep:
  assumes "ok s" "reg_Delete deps.R ns n s = (Inr (), s')"
  shows "ok s'" "deps.objs s' = (deps.objs s)(key_of kDeployments ns n := None)"
    "pods.objs s' = pods.objs s" "nodes.objs s' = nodes.objs s" "vols.objs s' = vols.objs s"
proof -
  note i = okD(1)[OF assms(1)]
  note o = deps.reg_Delete_other[OF i, of _ _ ns n, unfolded assms(2) snd_conv]
  note a = deps.reg_Delete_any[OF i, of ns n, unfolded assms(2) snd_conv]
  show "deps.objs s' = (deps.objs s)(key_of kDeployments ns n := None)"
    by (rule deps.reg_Delete_ok[OF i assms(2)])
  show "pods.objs s' = pods.objs s" "nodes.objs s' = nodes.objs s" "vols.objs s' = vols.objs s"
    by (rule o(1); simp)+
  from assms(1) a show "ok s'"
    unfolding cluster_ok_def own_keys_def by (auto simp: o split: if_splits)
qed

lemma cascade_loop_ok:
  assumes "ok s" "cascade_loop pods.R name ps s = (Inr (), s')"
  shows "ok s' \<and> deps.objs s' = deps.objs s \<and> nodes.objs s' = nodes.objs s \<and> vols.objs s' = vols.objs s \<and>
    pods.objs s' = (\<lambda>k. if \<exists>p \<in> set ps. owner_of p = name \<and> k = pkey p then None else pods.objs s k)"
  using assms
proof (induction ps arbitrary: s)
  case Nil
  then show ?case by (simp add: ret_def)
next
  case (Cons p ps)
  show ?case
  proof (cases "owner_of p = name")
    case False
    with Cons.IH[OF Cons.prems(1)] Cons.prems(2) show ?thesis by (auto simp: fun_eq_iff)
  next
    case True
    with Cons.prems(2) obtain s1 where del: "reg_Delete pods.R (pod_namespace p) (pod_name p) s = (Inr (), s1)"
      and rest: "cascade_loop pods.R name ps s1 = (Inr (), s')"
      by (auto simp: bindA_Inr)
    note d = delete_pod[OF Cons.prems(1), of "pod_namespace p" "pod_name p", unfolded del snd_conv]
    from Cons.IH[OF d(1) rest] d(2-4) d(5)[OF refl] True show ?thesis
      by (auto simp: fun_eq_iff pkey_def)
  qed
qed

end

text \<open>
  C22: a successful \<open>DeleteDeployment\<close> removes the deployment, and with it exactly the pods its
  label names as the owner's among the pods stored under the namespace; every other pod,
  and every node, volume and other deployment, is as before.
\<close>

theorem delete_deployment_cascades:
  assumes "cluster S good repr CP CN CD CV" "cluster_ok good repr CP CN CD CV s"
    and "DeleteDeployment (NewDeploymentService S CD CP chain) ns name s = (Inr (), s')"
  shows "cluster_ok good repr CP CN CD CV s' \<and>
    obj_at repr CD kDeployments s' = (obj_at repr CD kDeployments s)(key_of kDeployments ns name := None) \<and>
    obj_at repr CP kPods s' = (\<lambda>k. case obj_at repr CP kPods s k of None \<Rightarrow> None
      | Some p \<Rightarrow> if HasPrefix k (reg_prefix kPods ns) \<and> owner_of p = name then None else Some p) \<and>
    obj_at repr CN kNodes s' = obj_at repr CN kNodes s \<and> obj_at repr CV kVolumes s' = obj_at repr CV kVolumes s"
proof -
  let ?D = "reg_New S kDeployments CD" and ?P = "reg_New S kPods CP"
  obtain s1 ps where del: "reg_Delete ?D ns name s = (Inr (), s1)" and ls: "reg_List ?P ns s1 = Inr ps"
    and cas: "cascade_loop ?P name ps s1 = (Inr (), s')"
    using assms(3) by (auto simp: DeleteDeployment_def NewDeploymentService_def bindA_Inr)
  note d = cluster.delete_dep[OF assms(1,2) del]
  note okd = cluster.okD[OF assms(1) d(1)]
  obtain ks where ks: "ps = map (the \<circ> obj_at repr CP kPods s1) ks"
    "set ks = {k \<in> dom (obj_at repr CP kPods s1). HasPrefix k (reg_prefix kPods ns)}"
    using registry_laws.reg_List_ok[OF cluster.axioms(1)[OF assms(1)] okd(1,2), of ns] ls by auto
  have key: "k = pkey p" if "obj_at repr CP kPods s1 k = Some p" for k p
    using okd(6)[OF that] by (simp add: pkey_def)
  have removed: "(\<exists>p \<in> set ps. owner_of p = name \<and> k = pkey p) \<longleftrightarrow>
      (\<exists>p. obj_at repr CP kPods s1 k = Some p \<and> HasPrefix k (reg_prefix kPods ns) \<and> owner_of p = name)" for k
    using key by (auto simp: ks dom_def)
  note c = cluster.cascade_loop_ok[OF assms(1) d(1) cas]
  have "obj_at repr CP kPods s' k = (case obj_at repr CP kPods s k of None \<Rightarrow> None
      | Some p \<Rightarrow> if HasPrefix k (reg_prefix kPods ns) \<and> owner_of p = name then None else Some p)" for k
    using c d(3) removed[of k] by (auto simp: fun_eq_iff split: option.splits)
  with c d show ?thesis by (auto simp: fun_eq_iff)
qed

theorem delete_deployment_cascades_witness:
  "obj_at map_of pod_codec kPods
      (snd (DeleteDeployment (NewDeploymentService memStore dep_codec pod_codec [] :: (wire memStore, wire, unit) deploymentService)
         ''default'' ''web'' ex_state)) (key_of kPods ''default'' ''web-1'') = None"
proof -
  let ?svc = "NewDeploymentService memStore dep_codec pod_codec [] :: (wire memStore, wire, unit) deploymentService"
  have "fst (DeleteDeployment ?svc ''default'' ''web'' ex_state) = Inr ()" by code_simp
  then have run: "DeleteDeployment ?svc ''default'' ''web'' ex_state =
      (Inr (), snd (DeleteDeployment ?svc ''default'' ''web'' ex_state))" by (metis prod.collapse)
  have own: "owner_of ex_owned = ''web''" by code_simp
  have "obj_at map_of pod_codec kPods ex_state (key_of kPods ''default'' ''web-1'') = Some ex_owned"
    by (simp add: ex_state_def obj_at_def HasPrefix_def reg_prefix_def codec_defs key_of_def)
  with delete_deployment_cascades[OF mem_cluster.cluster_axioms ex_state_ok run] own show ?thesis
    by (simp add: fun_eq_iff)
qed

section \<open>Admission in front of the store\<close>

text \<open>The chain \<^verbatim>\<open>cmd/nimbus-apiserver/main.go\<close> builds; \<open>Verify\<close> is the image verifier.\<close>

definition admission_chain :: "string list \<Rightarrow> (string \<Rightarrow> unit res) \<Rightarrow> ('s, 'b, Pod) Registry \<Rightarrow> ResourceList option \<Rightarrow>
    ('ast, 'prg) cel_env \<Rightarrow> ('s, 'b, Policy) Registry \<Rightarrow> ('s, 'b, Volume) Registry \<Rightarrow> ('s, 'prg) adm_state Validator list" where
  "admission_chain allowed Verify pods quota env policies volumes =
     [SecurityContextPolicy_Admit allowed,
      ImageSignaturePolicy_Admit Verify,
      QuotaPolicy_Admit (\<lambda>w ns. reg_List pods ns (as_store w)) quota,
      PolicyValidator_Admit env (\<lambda>s ns. reg_List policies ns s),
      VolumeReplicasPolicy_Admit,
      VolumeOwnershipPolicy_Admit (\<lambda>w ns n. reg_Get volumes ns n (as_store w))]"

lemma image_loop_Inr: "image_loop Verify cs = Inr () \<longleftrightarrow> (\<forall>c \<in> set cs. Verify (ctr_image c) = Inr ())"
  by (induction cs) (auto split: sum.splits)

lemma ImageSignature_Inr:
  "ImageSignaturePolicy_Admit Verify req w = ((Inr u, req'), w') \<longleftrightarrow> req' = req \<and> w' = w \<and>
     (\<forall>c \<in> set (PodSpec_GetContainers (req_Spec req)). Verify (ctr_image c) = Inr ())"
  by (auto simp: ImageSignaturePolicy_Admit_def image_loop_Inr[symmetric])

lemma Quota_Inr: "QuotaPolicy_Admit List quota req w = ((Inr u, req'), w') \<Longrightarrow> req' = req \<and> w' = w"
  by (auto simp: QuotaPolicy_Admit_def Let_def split: if_splits sum.splits prod.splits)

lemma Policy_Inr:
  assumes "PolicyValidator_Admit env List req w = ((Inr u, req'), w')" "cache_ok env w"
  shows "req' = req \<and> cache_ok env w' \<and> as_store w' = as_store w \<and>
    (\<exists>pols. List (as_store w) [] = Inr pols \<and>
       policies_check env (PodView (req_Namespace req) (req_Labels req) (req_Spec req)) pols = Inr ())"
  using assms policy_loop_ok[OF assms(2), of "PodView (req_Namespace req) (req_Labels req) (req_Spec req)"]
  by (auto simp: PolicyValidator_Admit_def split: sum.splits if_splits prod.splits) (metis fst_conv snd_conv)+

lemma VolumeReplicas_Inr:
  "VolumeReplicasPolicy_Admit req w = ((Inr u, req'), w') \<longleftrightarrow> req' = req \<and> w' = w \<and>
     (PodSpec_GetVolumes (req_Spec req) = [] \<or> req_Replicas req \<le> 1)"
  by (auto simp: VolumeReplicasPolicy_Admit_def)

lemma VolumeOwnership_Inr:
  "VolumeOwnershipPolicy_Admit Get req w = ((Inr u, req'), w') \<Longrightarrow> req' = req \<and> w' = w"
  by (auto simp: VolumeOwnershipPolicy_Admit_def)

lemma Security_Inr:
  assumes "SecurityContextPolicy_Admit allowed req w = ((Inr u, req'), w')"
  shows "w' = w \<and> (\<forall>c \<in> set (PodSpec_GetContainers (req_Spec req)). unprivileged allowed c) \<and>
    req' = req\<lparr>req_Spec := map_option (\<lambda>sp. sp\<lparr>ps_containers := map default_context (ps_containers sp)\<rparr>) (req_Spec req)\<rparr>"
proof (cases "security_loop allowed (PodSpec_GetContainers (req_Spec req))")
  case (Pair r cs)
  with security_loop_cases[where allowed = allowed and cs = "PodSpec_GetContainers (req_Spec req)"] assms
  show ?thesis by (cases "req_Spec req"; cases r) (auto simp: SecurityContextPolicy_Admit_def)
qed

text \<open>What a request that came through the chain looks like.\<close>

lemma chain_admits:
  assumes "Chain_Admit (admission_chain allowed Verify pods quota env policies volumes) req w = ((Inr u, req'), w')"
    and "cache_ok env w"
  shows "as_store w' = as_store w \<and> cache_ok env w' \<and>
    req_Spec req' = map_option (\<lambda>sp. sp\<lparr>ps_containers := map default_context (ps_containers sp)\<rparr>) (req_Spec req) \<and>
    (\<forall>c \<in> set (PodSpec_GetContainers (req_Spec req)). unprivileged allowed c \<and> Verify (ctr_image c) = Inr ()) \<and>
    (PodSpec_GetVolumes (req_Spec req) = [] \<or> req_Replicas req \<le> 1) \<and>
    (\<exists>pols. reg_List policies [] (as_store w) = Inr pols \<and>
       policies_check env (PodView (req_Namespace req) (req_Labels req) (req_Spec req')) pols = Inr ())"
proof -
  define r0 where "r0 = (if req_Replicas req \<le> 0 then req\<lparr>req_Replicas := 1\<rparr> else req)"
  have r0: "req_Spec r0 = req_Spec req" "req_Namespace r0 = req_Namespace req" "req_Labels r0 = req_Labels req"
    "req_Replicas r0 \<le> 1 \<longleftrightarrow> req_Replicas req \<le> 1"
    by (auto simp: r0_def)
  from assms(1) obtain r1 w1 r2 w2 r3 w3 r4 w4 r5 w5 r6 w6 where steps:
    "SecurityContextPolicy_Admit allowed r0 w = ((Inr (), r1), w1)"
    "ImageSignaturePolicy_Admit Verify r1 w1 = ((Inr (), r2), w2)"
    "QuotaPolicy_Admit (\<lambda>w ns. reg_List pods ns (as_store w)) quota r2 w2 = ((Inr (), r3), w3)"
    "PolicyValidator_Admit env (\<lambda>s ns. reg_List policies ns s) r3 w3 = ((Inr (), r4), w4)"
    "VolumeReplicasPolicy_Admit r4 w4 = ((Inr (), r5), w5)"
    "VolumeOwnershipPolicy_Admit (\<lambda>w ns n. reg_Get volumes ns n (as_store w)) r5 w5 = ((Inr (), r6), w6)"
    "req' = r6" "w' = w6"
    unfolding Chain_Admit_def r0_def[symmetric] admission_chain_def
    by (auto split: prod.splits sum.splits)
  note 1 = Security_Inr[OF steps(1)]
  have 2: "r2 = r1" "w2 = w" "\<forall>c \<in> set (PodSpec_GetContainers (req_Spec r1)). Verify (ctr_image c) = Inr ()"
    using steps(2) 1 by (simp_all add: ImageSignature_Inr)
  have 3: "r3 = r1" "w3 = w" using Quota_Inr[OF steps(3)] 2 by simp_all
  note 4 = Policy_Inr[OF steps(4), unfolded 3, OF assms(2)]
  have 5: "r5 = r1" "w5 = w4" "PodSpec_GetVolumes (req_Spec r1) = [] \<or> req_Replicas r1 \<le> 1"
    using steps(5) 4 by (auto simp: VolumeReplicas_Inr)
  have 6: "req' = r1" "w' = w4" using VolumeOwnership_Inr[OF steps(6)] 5 steps(7,8) by simp_all
  have spec: "req_Spec r1 = map_option (\<lambda>sp. sp\<lparr>ps_containers := map default_context (ps_containers sp)\<rparr>) (req_Spec req)"
    using 1 r0 by simp
  have "\<forall>c \<in> set (PodSpec_GetContainers (req_Spec req)). Verify (ctr_image c) = Inr ()"
    using 2(3) by (cases "req_Spec req") (auto simp: spec default_context_fields)
  moreover have "PodSpec_GetVolumes (req_Spec req) = [] \<or> req_Replicas req \<le> 1"
    using 5(3) 1 r0 by (cases "req_Spec req") auto
  ultimately show ?thesis using 1 4 6 r0 spec by auto
qed

lemma containers_defaulted:
  "PodSpec_GetContainers (map_option (\<lambda>sp. sp\<lparr>ps_containers := map default_context (ps_containers sp)\<rparr>) spec) =
     map default_context (PodSpec_GetContainers spec)"
  "PodSpec_GetVolumes (map_option (\<lambda>sp. sp\<lparr>ps_containers := map default_context (ps_containers sp)\<rparr>) spec) =
     PodSpec_GetVolumes spec"
  by (cases spec; simp)+

lemma onStore_Inr:
  "onStore a w = (Inr x, w') \<longleftrightarrow> (\<exists>s'. a (as_store w) = (Inr x, s') \<and> w' = w\<lparr>as_store := s'\<rparr>)"
  by (auto simp: onStore_def split: prod.splits)

lemma cache_ok_store [simp]: "cache_ok env (w\<lparr>as_store := s\<rparr>) \<longleftrightarrow> cache_ok env w"
  by (simp add: cache_ok_def)

lemma api_put_Inr:
  "api_put what r ns n obj s = (Inr x, s') \<longleftrightarrow> x = obj \<and> reg_Put r ns n obj s = (Inr (), s')"
  by (auto simp: api_put_def bindA_Inr ret_def)

lemma CreatePod_Inr:
  assumes "CreatePod svc (Some pod) w = (Inr pod', w')"
  obtains areq w1 s' where "pod_name pod \<noteq> []"
    "Chain_Admit (psv_admission svc) \<lparr>req_Namespace = pod_namespace pod, req_Name = [], req_Labels = pod_labels pod,
       req_Spec = pod_spec pod, req_Replicas = 1\<rparr> w = ((Inr (), areq), w1)"
    "pod' = pod\<lparr>pod_spec := req_Spec areq\<rparr>" "w' = w1\<lparr>as_store := s'\<rparr>"
    "reg_Put (psv_pods svc) (pod_namespace pod) (pod_name pod) pod' (as_store w1) = (Inr (), s')"
  using assms unfolding CreatePod_def option.case
  by (auto simp: invalid_def throw_def onStore_Inr api_put_Inr Let_def split: if_splits prod.splits sum.splits)

text \<open>
  Every pod the API server accepts has passed admission. When \<open>CreatePod\<close> succeeds behind
  the API server's chain, what is stored is the pod of the request with defaulted security
  contexts, stored under its own key and changing no other pod; each of its containers is
  safe and its image verified, and every stored policy, compiled afresh, evaluates to true
  on it.
\<close>

theorem created_pod_admitted:
  assumes "registry_laws S good repr CP" "good (as_store w)" "cache_ok env w"
    and "CreatePod (NewPodService S CP (admission_chain allowed Verify pods quota env policies volumes)) (Some pod) w =
      (Inr pod', w')"
  shows "cache_ok env w' \<and> pod_metadata pod' = pod_metadata pod \<and>
    obj_at repr CP kPods (as_store w') = (obj_at repr CP kPods (as_store w))(key_of kPods (pod_namespace pod') (pod_name pod') \<mapsto> pod') \<and>
    pod_containers pod' = map default_context (pod_containers pod) \<and>
    (\<forall>c \<in> set (pod_containers pod'). safe_container allowed c \<and> Verify (ctr_image c) = Inr ()) \<and>
    (\<exists>pols. reg_List policies [] (as_store w) = Inr pols \<and>
       policies_check env (PodView (pod_namespace pod') (pod_labels pod') (pod_spec pod')) pols = Inr ())"
proof -
  obtain areq w1 s' where c:
    "Chain_Admit (admission_chain allowed Verify pods quota env policies volumes)
       \<lparr>req_Namespace = pod_namespace pod, req_Name = [], req_Labels = pod_labels pod,
        req_Spec = pod_spec pod, req_Replicas = 1\<rparr> w = ((Inr (), areq), w1)"
    "pod' = pod\<lparr>pod_spec := req_Spec areq\<rparr>" "w' = w1\<lparr>as_store := s'\<rparr>"
    "reg_Put (reg_New S kPods CP) (pod_namespace pod) (pod_name pod) pod' (as_store w1) = (Inr (), s')"
    by (rule CreatePod_Inr[OF assms(4)]) (simp add: NewPodService_def)
  from chain_admits[OF c(1) assms(3)] have w1: "as_store w1 = as_store w" "cache_ok env w1"
    and spec: "req_Spec areq = map_option (\<lambda>sp. sp\<lparr>ps_containers := map default_context (ps_containers sp)\<rparr>) (pod_spec pod)"
    and cs: "\<forall>c \<in> set (pod_containers pod). unprivileged allowed c \<and> Verify (ctr_image c) = Inr ()"
    and pol: "\<exists>pols. reg_List policies [] (as_store w) = Inr pols \<and>
       policies_check env (PodView (pod_namespace pod) (pod_labels pod) (req_Spec areq)) pols = Inr ()"
    unfolding Request.select_convs by blast+
  have p: "pod_metadata pod' = pod_metadata pod" "pod_containers pod' = map default_context (pod_containers pod)"
    by (simp_all add: c(2) spec containers_defaulted)
  from registry_laws.reg_Put_ok(2)[OF assms(1,2) c(4)[unfolded w1]] have
    "obj_at repr CP kPods s' = (obj_at repr CP kPods (as_store w))(key_of kPods (pod_namespace pod) (pod_name pod) \<mapsto> pod')" .
  moreover have "\<forall>c \<in> set (pod_containers pod'). safe_container allowed c \<and> Verify (ctr_image c) = Inr ()"
    using cs by (auto simp: p(2) safe_default default_context_fields)
  ultimately show ?thesis using w1 pol p by (simp add: c(2,3))
qed

definition policy_codec :: "(Policy, wire) codec" where
  "policy_codec = \<lparr>proto_Marshal = (\<lambda>x. Inr (WPolicy x)),
     proto_Unmarshal = (\<lambda>b. case b of WPolicy x \<Rightarrow> Inr x | _ \<Rightarrow> wrong_type)\<rparr>"

text \<open>A cluster with one policy; the chain accepts images \<open>img\<close>.\<close>

definition ex_adm :: "(wire memStore, string) adm_state" where
  "ex_adm = \<lparr>as_store = [(''/registry/policies/p'', WPolicy (ex_policy ''default''))], as_compiled = []\<rparr>"

definition ex_chain :: "(wire memStore, string) adm_state Validator list" where
  "ex_chain = admission_chain [] (\<lambda>i. if i = ''img'' then Inr () else Inl (ErrText ''unsigned'')) (reg_New memStore kPods pod_codec) None
     ex_cel (reg_New memStore ''policies'' policy_codec) (reg_New memStore kVolumes vol_codec)"

lemma ex_adm_cache: "cache_ok ex_cel ex_adm"
  by (simp add: cache_ok_def ex_adm_def)

theorem created_pod_admitted_witness:
  "list_all (safe_container []) (pod_containers (projr (fst
     (CreatePod (NewPodService memStore pod_codec ex_chain) (Some (ex_pod_obj ''a'' [] [80])) ex_adm))))"
proof -
  let ?run = "CreatePod (NewPodService memStore pod_codec ex_chain) (Some (ex_pod_obj ''a'' [] [80])) ex_adm"
  have "isl (fst ?run) = False" by code_simp
  then have run: "?run = (Inr (projr (fst ?run)), snd ?run)" by (metis prod.collapse sum.collapse(2))
  have "mem_ok (as_store ex_adm)" by (simp add: ex_adm_def)
  from created_pod_admitted[OF mem_cluster.pods.registry_laws_axioms this ex_adm_cache run[unfolded ex_chain_def]]
  show ?thesis by (simp add: list_all_iff ex_chain_def)
qed

lemma CreateDeployment_Inr:
  assumes "CreateDeployment svc (Some d) w = (Inr d', w')"
  obtains areq w1 s' where
    "Chain_Admit (dsv_admission svc) \<lparr>req_Namespace = dep_namespace d, req_Name = dep_name d,
       req_Labels = ObjectMeta_GetLabels (dep_metadata d), req_Spec = dep_template d, req_Replicas = dep_replicas d\<rparr> w =
       ((Inr (), areq), w1)"
    "d' = d\<lparr>dep_spec := map_option (\<lambda>sp. sp\<lparr>ds_template := req_Spec areq\<rparr>) (dep_spec d)\<rparr>" "w' = w1\<lparr>as_store := s'\<rparr>"
    "reg_Put (dsv_deployments svc) (dep_namespace d) (dep_name d) d' (as_store w1) = (Inr (), s')"
  using assms unfolding CreateDeployment_def option.case
  by (auto simp: invalid_def throw_def onStore_Inr api_put_Inr Let_def split: if_splits prod.splits sum.splits)

lemma admitted_deployment:
  assumes "registry_laws S good repr CD" "good (as_store w)" "cache_ok env w"
    and "CreateDeployment (NewDeploymentService S CD CP (admission_chain allowed Verify pods quota env policies volumes)) (Some d) w =
      (Inr d', w')"
  shows "good (as_store w')" "cache_ok env w'" "dep_metadata d' = dep_metadata d" "dep_replicas d' = dep_replicas d" "dep_mounts d' = dep_mounts d"
    "obj_at repr CD kDeployments (as_store w') =
      (obj_at repr CD kDeployments (as_store w))(key_of kDeployments (dep_namespace d') (dep_name d') \<mapsto> d')"
    "PodSpec_GetContainers (dep_template d') = map default_context (PodSpec_GetContainers (dep_template d))"
    "\<forall>c \<in> set (PodSpec_GetContainers (dep_template d')). safe_container allowed c \<and> Verify (ctr_image c) = Inr ()"
    "dep_mounts d' = [] \<or> dep_replicas d' \<le> 1"
    "\<exists>pols. reg_List policies [] (as_store w) = Inr pols \<and>
       policies_check env (PodView (dep_namespace d') (ObjectMeta_GetLabels (dep_metadata d')) (dep_template d')) pols = Inr ()"
proof -
  obtain areq w1 s' where c:
    "Chain_Admit (admission_chain allowed Verify pods quota env policies volumes)
       \<lparr>req_Namespace = dep_namespace d, req_Name = dep_name d, req_Labels = ObjectMeta_GetLabels (dep_metadata d),
        req_Spec = dep_template d, req_Replicas = dep_replicas d\<rparr> w = ((Inr (), areq), w1)"
    "d' = d\<lparr>dep_spec := map_option (\<lambda>sp. sp\<lparr>ds_template := req_Spec areq\<rparr>) (dep_spec d)\<rparr>" "w' = w1\<lparr>as_store := s'\<rparr>"
    "reg_Put (reg_New S kDeployments CD) (dep_namespace d) (dep_name d) d' (as_store w1) = (Inr (), s')"
    by (rule CreateDeployment_Inr[OF assms(4)]) (simp add: NewDeploymentService_def)
  from chain_admits[OF c(1) assms(3)] have w1: "as_store w1 = as_store w" "cache_ok env w1"
    and spec: "req_Spec areq = map_option (\<lambda>sp. sp\<lparr>ps_containers := map default_context (ps_containers sp)\<rparr>) (dep_template d)"
    and cs: "\<forall>c \<in> set (PodSpec_GetContainers (dep_template d)). unprivileged allowed c \<and> Verify (ctr_image c) = Inr ()"
    and vols: "dep_mounts d = [] \<or> dep_replicas d \<le> 1"
    and pol: "\<exists>pols. reg_List policies [] (as_store w) = Inr pols \<and>
       policies_check env (PodView (dep_namespace d) (ObjectMeta_GetLabels (dep_metadata d)) (req_Spec areq)) pols = Inr ()"
    unfolding Request.select_convs by blast+
  have t: "dep_template d' = req_Spec areq" "dep_replicas d' = dep_replicas d"
    using spec by (cases "dep_spec d"; simp add: c(2))+
  have p: "dep_metadata d' = dep_metadata d" "dep_mounts d' = dep_mounts d"
    "PodSpec_GetContainers (dep_template d') = map default_context (PodSpec_GetContainers (dep_template d))"
    by (simp add: c(2)) (simp_all add: t spec containers_defaulted)
  note put = registry_laws.reg_Put_ok[OF assms(1,2) c(4)[unfolded w1]]
  have "\<forall>c \<in> set (PodSpec_GetContainers (dep_template d')). safe_container allowed c \<and> Verify (ctr_image c) = Inr ()"
    using cs by (auto simp: p(3) safe_default default_context_fields)
  then show "good (as_store w')" "cache_ok env w'" "dep_metadata d' = dep_metadata d" "dep_replicas d' = dep_replicas d" "dep_mounts d' = dep_mounts d"
    "obj_at repr CD kDeployments (as_store w') =
      (obj_at repr CD kDeployments (as_store w))(key_of kDeployments (dep_namespace d') (dep_name d') \<mapsto> d')"
    "PodSpec_GetContainers (dep_template d') = map default_context (PodSpec_GetContainers (dep_template d))"
    "\<forall>c \<in> set (PodSpec_GetContainers (dep_template d')). safe_container allowed c \<and> Verify (ctr_image c) = Inr ()"
    "dep_mounts d' = [] \<or> dep_replicas d' \<le> 1"
    "\<exists>pols. reg_List policies [] (as_store w) = Inr pols \<and>
       policies_check env (PodView (dep_namespace d') (ObjectMeta_GetLabels (dep_metadata d')) (dep_template d')) pols = Inr ()"
    using w1 pol p vols t put(1,2) by (simp_all add: c(3))
qed

text \<open>
  The same for deployments: the stored deployment is the requested one with the defaulted
  template; every container of the template is safe and its image verified, a template with
  volumes has at most one replica, and every stored policy holds of the template.
\<close>

theorem created_deployment_admitted:
  assumes "registry_laws S good repr CD" "good (as_store w)" "cache_ok env w"
    and "CreateDeployment (NewDeploymentService S CD CP (admission_chain allowed Verify pods quota env policies volumes)) (Some d) w =
      (Inr d', w')"
  shows "cache_ok env w' \<and> dep_metadata d' = dep_metadata d \<and> dep_replicas d' = dep_replicas d \<and>
    obj_at repr CD kDeployments (as_store w') =
      (obj_at repr CD kDeployments (as_store w))(key_of kDeployments (dep_namespace d') (dep_name d') \<mapsto> d') \<and>
    PodSpec_GetContainers (dep_template d') = map default_context (PodSpec_GetContainers (dep_template d)) \<and>
    (\<forall>c \<in> set (PodSpec_GetContainers (dep_template d')). safe_container allowed c \<and> Verify (ctr_image c) = Inr ()) \<and>
    (dep_mounts d' = [] \<or> dep_replicas d' \<le> 1) \<and>
    (\<exists>pols. reg_List policies [] (as_store w) = Inr pols \<and>
       policies_check env (PodView (dep_namespace d') (ObjectMeta_GetLabels (dep_metadata d')) (dep_template d')) pols = Inr ())"
  using admitted_deployment[OF assms] by blast

theorem created_deployment_admitted_witness:
  "list_all (safe_container []) (PodSpec_GetContainers (dep_template (projr (fst
     (CreateDeployment (NewDeploymentService memStore dep_codec pod_codec ex_chain) (Some (ex_dep 2)) ex_adm)))))"
proof -
  let ?run = "CreateDeployment (NewDeploymentService memStore dep_codec pod_codec ex_chain) (Some (ex_dep 2)) ex_adm"
  have "isl (fst ?run) = False" by code_simp
  then have run: "?run = (Inr (projr (fst ?run)), snd ?run)" by (metis prod.collapse sum.collapse(2))
  have "mem_ok (as_store ex_adm)" by (simp add: ex_adm_def)
  from created_deployment_admitted[OF mem_cluster.deps.registry_laws_axioms this ex_adm_cache run[unfolded ex_chain_def]]
  show ?thesis by (simp add: list_all_iff ex_chain_def)
qed

end
