(* ===== verification/Services.thy ===== *)
theory Services
  imports Cluster
begin

text \<open>
  \<^verbatim>\<open>internal/apiserver/service_service.go\<close>: services, the allocation of their node ports and the
  resolution of their endpoints. A handler reads the services and then writes one; the two
  parts of \<open>CreateService\<close> are separate definitions, so that two calls can be interleaved
  between them (the handlers run concurrently and share no lock).
\<close>

section \<open>Definitions\<close>

definition nodePortRangeMin :: int32 where "nodePortRangeMin = 30000"
definition nodePortRangeMax :: int32 where "nodePortRangeMax = 32767"

abbreviation "kServices \<equiv> ''services''"

abbreviation svc_name :: "Service \<Rightarrow> string" where
  "svc_name x \<equiv> ObjectMeta_GetName (svc_metadata x)"
abbreviation svc_namespace :: "Service \<Rightarrow> string" where
  "svc_namespace x \<equiv> ObjectMeta_GetNamespace (svc_metadata x)"
abbreviation svc_port :: "Service \<Rightarrow> int32" where
  "svc_port x \<equiv> ServiceSpec_GetNodePort (svc_spec x)"

record ('s, 'b) serviceService =
  sv_services :: "('s, 'b, Service) Registry"
  sv_pods :: "('s, 'b, Pod) Registry"
  sv_nodes :: "('s, 'b, Node) Registry"

definition NewServiceService :: "('s, 'b) Store \<Rightarrow> (Service, 'b) codec \<Rightarrow> (Pod, 'b) codec \<Rightarrow> (Node, 'b) codec \<Rightarrow>
    ('s, 'b) serviceService" where
  "NewServiceService s cs cp cn =
     \<lparr>sv_services = reg_New s kServices cs, sv_pods = reg_New s kPods cp, sv_nodes = reg_New s kNodes cn\<rparr>"

text \<open>The ports in use, and the first free port from \<open>port\<close> on.\<close>

definition used_ports :: "Service list \<Rightarrow> (int32, bool) gomap" where
  "used_ports all = foldl (\<lambda>used x. if svc_port x \<noteq> 0 then AList.update (svc_port x) True used else used) [] all"

function port_loop :: "(int32, bool) gomap \<Rightarrow> int32 \<Rightarrow> int32 res" where
  "port_loop used port =
     (if port > nodePortRangeMax then Inl (ErrText ''no free node_port left in range'')
      else if \<not> bget used port then Inr port
      else port_loop used (port + 1))"
  by pat_completeness auto
termination by (relation "measure (\<lambda>(used, port). nat (nodePortRangeMax + 1 - port))") auto

declare port_loop.simps [simp del]

definition allocateNodePort :: "('s, 'b) serviceService \<Rightarrow> 's \<Rightarrow> int32 res" where
  "allocateNodePort svc s =
     (case reg_List (sv_services svc) [] s of
        Inl e \<Rightarrow> Inl e
      | Inr all \<Rightarrow> port_loop (used_ports all) nodePortRangeMin)"

fun in_use_loop :: "int32 \<Rightarrow> string \<Rightarrow> string \<Rightarrow> Service list \<Rightarrow> bool" where
  "in_use_loop port namespace name [] = False"
| "in_use_loop port namespace name (x # xs) =
     (if svc_port x \<noteq> port then in_use_loop port namespace name xs
      else if svc_namespace x = namespace \<and> svc_name x = name then in_use_loop port namespace name xs
      else True)"

definition nodePortInUse :: "('s, 'b) serviceService \<Rightarrow> int32 \<Rightarrow> string \<Rightarrow> string \<Rightarrow> 's \<Rightarrow> bool res" where
  "nodePortInUse svc port namespace name s =
     (case reg_List (sv_services svc) [] s of
        Inl e \<Rightarrow> Inl e
      | Inr all \<Rightarrow> Inr (in_use_loop port namespace name all))"

fun labelsMatch :: "(string, string) gomap \<Rightarrow> (string, string) gomap \<Rightarrow> bool" where
  "labelsMatch labels [] = True"
| "labelsMatch labels ((k, v) # selector) = (if lget labels k \<noteq> v then False else labelsMatch labels selector)"

text \<open>The endpoint of one pod, where it has one.\<close>

definition endpoint_of :: "('s, 'b) serviceService \<Rightarrow> Service \<Rightarrow> 's \<Rightarrow> Pod \<Rightarrow> ServiceEndpoint list" where
  "endpoint_of svc x s p =
     (if pod_phase p \<noteq> POD_PHASE_RUNNING then []
      else if \<not> labelsMatch (pod_labels p) (ServiceSpec_GetSelector (svc_spec x)) then []
      else if pod_node p = [] then []
      else case reg_Get (sv_nodes svc) [] (pod_node p) s of
        Inl e \<Rightarrow> []
      | Inr node \<Rightarrow> [\<lparr>ep_pod_name = pod_name p, ep_node_ip = NodeStatus_GetInternalIp (node_status node),
                     ep_node_port = svc_port x\<rparr>])"

definition resolve :: "('s, 'b) serviceService \<Rightarrow> Service \<Rightarrow> ('s, Service) action" where
  "resolve svc x =
     (if ServiceSpec_GetSelector (svc_spec x) = [] then ret (x\<lparr>svc_status := Some \<lparr>sst_endpoints = []\<rparr>\<rparr>)
      else bindA (statusA Internal ''resolve service endpoints: list pods''
                    (readA (reg_List (sv_pods svc) (svc_namespace x))))
             (\<lambda>allPods s. ret (x\<lparr>svc_status := Some \<lparr>sst_endpoints = concat (map (endpoint_of svc x s) allPods)\<rparr>\<rparr>) s))"

text \<open>The first part of \<open>CreateService\<close>: the service with its port, or the error.\<close>

definition choose_port :: "('s, 'b) serviceService \<Rightarrow> Service option \<Rightarrow> 's \<Rightarrow> Service res" where
  "choose_port svc req s =
     (case req of
        None \<Rightarrow> Inl (ErrStatus InvalidArgument ''service.metadata.name is required'')
      | Some x \<Rightarrow>
          if svc_name x = [] then Inl (ErrStatus InvalidArgument ''service.metadata.name is required'')
          else (let spec = (case svc_spec x of None \<Rightarrow> zero_ServiceSpec | Some sp \<Rightarrow> sp)
                in if ss_node_port spec = 0
                   then (case allocateNodePort svc s of
                           Inl e \<Rightarrow> Inl (ErrStatus Internal ''allocate node_port'')
                         | Inr port \<Rightarrow> Inr (x\<lparr>svc_spec := Some (spec\<lparr>ss_node_port := port\<rparr>)\<rparr>))
                   else (case nodePortInUse svc (ss_node_port spec) (svc_namespace x) (svc_name x) s of
                           Inl e \<Rightarrow> Inl (ErrStatus Internal ''check node_port availability'')
                         | Inr used \<Rightarrow>
                             if used then Inl (ErrStatus AlreadyExists ''node_port is already allocated to another service'')
                             else Inr (x\<lparr>svc_spec := Some spec\<rparr>))))"

text \<open>The second part: the write, and the response.\<close>

definition store_service :: "('s, 'b) serviceService \<Rightarrow> Service \<Rightarrow> ('s, Service) action" where
  "store_service svc x =
     bindA (statusA Internal ''create service'' (reg_Put (sv_services svc) (svc_namespace x) (svc_name x) x))
       (\<lambda>_. resolve svc x)"

definition CreateService :: "('s, 'b) serviceService \<Rightarrow> Service option \<Rightarrow> ('s, Service) action" where
  "CreateService svc req = bindA (readA (choose_port svc req)) (store_service svc)"

definition GetService :: "('s, 'b) serviceService \<Rightarrow> string \<Rightarrow> string \<Rightarrow> ('s, Service) action" where
  "GetService svc namespace name =
     bindA (statusA NotFound ''service'' (readA (reg_Get (sv_services svc) namespace name))) (resolve svc)"

fun resolve_all :: "('s, 'b) serviceService \<Rightarrow> Service list \<Rightarrow> ('s, Service list) action" where
  "resolve_all svc [] = ret []"
| "resolve_all svc (x # xs) = bindA (resolve svc x) (\<lambda>r. bindA (resolve_all svc xs) (\<lambda>rs. ret (r # rs)))"

definition ListServices :: "('s, 'b) serviceService \<Rightarrow> string \<Rightarrow> ('s, Service list) action" where
  "ListServices svc namespace =
     bindA (statusA Internal ''list services'' (readA (reg_List (sv_services svc) namespace))) (resolve_all svc)"

definition DeleteService :: "('s, 'b) serviceService \<Rightarrow> string \<Rightarrow> string \<Rightarrow> ('s, unit) action" where
  "DeleteService svc namespace name =
     statusA Internal ''delete service'' (reg_Delete (sv_services svc) namespace name)"

section \<open>The loops\<close>

lemma bget_used_ports: "bget (used_ports all) p \<longleftrightarrow> p \<noteq> 0 \<and> (\<exists>x \<in> set all. svc_port x = p)"
  unfolding used_ports_def
  by (induction all rule: rev_induct) (auto simp: bget_def)

lemma port_loop_cases:
  "case port_loop used port of
     Inr p \<Rightarrow> port \<le> p \<and> p \<le> nodePortRangeMax \<and> \<not> bget used p \<and> (\<forall>q. port \<le> q \<and> q < p \<longrightarrow> bget used q)
   | Inl e \<Rightarrow> (\<forall>q. port \<le> q \<and> q \<le> nodePortRangeMax \<longrightarrow> bget used q)"
proof (induction used port rule: port_loop.induct)
  case (1 used port)
  show ?case
  proof (cases "port > nodePortRangeMax \<or> \<not> bget used port")
    case True
    then show ?thesis by (subst port_loop.simps) auto
  next
    case False
    then have step: "port_loop used port = port_loop used (port + 1)"
      by (subst port_loop.simps) simp
    from False 1 have ih: "case port_loop used (port + 1) of
        Inr p \<Rightarrow> port + 1 \<le> p \<and> p \<le> nodePortRangeMax \<and> \<not> bget used p \<and> (\<forall>q. port + 1 \<le> q \<and> q < p \<longrightarrow> bget used q)
      | Inl e \<Rightarrow> (\<forall>q. port + 1 \<le> q \<and> q \<le> nodePortRangeMax \<longrightarrow> bget used q)" by simp
    have split: "q = port \<or> port + 1 \<le> q" if "port \<le> q" for q using that by linarith
    from ih False show ?thesis unfolding step
      by (cases "port_loop used (port + 1)") (auto dest: split)
  qed
qed

lemma in_use_loop_iff:
  "in_use_loop port ns n xs \<longleftrightarrow>
     (\<exists>x \<in> set xs. svc_port x = port \<and> \<not> (svc_namespace x = ns \<and> svc_name x = n))"
  by (induction xs) auto

lemma labelsMatch_iff: "labelsMatch labels sel \<longleftrightarrow> (\<forall>(k, v) \<in> set sel. lget labels k = v)"
  by (induction sel) (auto split: if_splits)

section \<open>Steps\<close>

text \<open>
  A step is one call of a handler that writes, run to its end, whatever it reports; the
  other kinds are written by the other services and the controllers.
\<close>

inductive svc_step :: "('s, 'b) serviceService \<Rightarrow> 's \<Rightarrow> 's \<Rightarrow> bool" for svc where
  step_create: "svc_step svc s (snd (CreateService svc req s))"
| step_delete: "svc_step svc s (snd (DeleteService svc ns n s))"
| step_put_pod: "svc_step svc s (snd (reg_Put (sv_pods svc) ns n p s))"
| step_delete_pod: "svc_step svc s (snd (reg_Delete (sv_pods svc) ns n s))"
| step_put_node: "svc_step svc s (snd (reg_Put (sv_nodes svc) ns n x s))"
| step_delete_node: "svc_step svc s (snd (reg_Delete (sv_nodes svc) ns n s))"

inductive_cases svc_stepE: "svc_step svc s s'"

text \<open>
  Services are stored under their own keys, each with a node port, and no two of them
  share one.
\<close>

definition services_ok :: "('s \<Rightarrow> bool) \<Rightarrow> ('s \<Rightarrow> string \<rightharpoonup> 'b) \<Rightarrow> (Service, 'b) codec \<Rightarrow> 's \<Rightarrow> bool" where
  "services_ok good repr C s \<longleftrightarrow> good s \<and> decodes repr C kServices s \<and>
     own_keys repr C kServices svc_namespace svc_name s \<and>
     (\<forall>k x. obj_at repr C kServices s k = Some x \<longrightarrow> svc_port x \<noteq> 0) \<and>
     (\<forall>k k' x y. obj_at repr C kServices s k = Some x \<longrightarrow> obj_at repr C kServices s k' = Some y \<longrightarrow>
        svc_port x = svc_port y \<longrightarrow> k = k')"

lemma snd_resolve [simp]: "snd (resolve svc x s) = s"
  by (auto simp: resolve_def actions split: sum.splits)

lemma snd_CreateService:
  "snd (CreateService svc req s) =
     (case choose_port svc req s of Inl e \<Rightarrow> s
      | Inr x \<Rightarrow> snd (reg_Put (sv_services svc) (svc_namespace x) (svc_name x) x s))"
proof (cases "choose_port svc req s")
  case (Inr x)
  obtain r s' where "reg_Put (sv_services svc) (svc_namespace x) (svc_name x) x s = (r, s')" by fastforce
  with Inr show ?thesis
    by (cases r) (simp_all add: CreateService_def store_service_def bindA_def readA_def statusA_def)
qed (simp add: CreateService_def actions)

locale services =
  svcs: registry_laws S inv abs CS kServices + pods: registry_laws S inv abs CP kPods +
  nodes: registry_laws S inv abs CN kNodes
  for S :: "('s, 'b) Store" and inv :: "'s \<Rightarrow> bool" and abs :: "'s \<Rightarrow> (string \<rightharpoonup> 'b)"
    and CS :: "(Service, 'b) codec" and CP :: "(Pod, 'b) codec" and CN :: "(Node, 'b) codec"
begin

abbreviation SV :: "('s, 'b) serviceService" where
  "SV \<equiv> NewServiceService S CS CP CN"

abbreviation ok :: "'s \<Rightarrow> bool" where
  "ok \<equiv> services_ok inv abs CS"

lemma list_services:
  assumes "inv s" "svcs.readable s"
  shows "\<exists>all. reg_List svcs.R [] s = Inr all \<and> set all = ran (svcs.objs s)"
proof -
  obtain ks where ks: "reg_List svcs.R [] s = Inr (map (the \<circ> svcs.objs s) ks)"
    "set ks = {k \<in> dom (svcs.objs s). HasPrefix k (reg_prefix kServices [])}"
    using svcs.reg_List_ok[OF assms, of "[]"] by blast
  have "set ks = dom (svcs.objs s)"
    unfolding ks(2) by (auto simp: obj_at_def split: if_splits)
  then have "set (map (the \<circ> svcs.objs s) ks) = ran (svcs.objs s)"
    by (force simp: ran_def dom_def image_iff)
  with ks(1) show ?thesis by blast
qed

lemma allocate_cases:
  assumes "ok s"
  shows "case allocateNodePort SV s of
     Inr p \<Rightarrow> nodePortRangeMin \<le> p \<and> p \<le> nodePortRangeMax \<and> p \<notin> svc_port ` ran (svcs.objs s) \<and>
       {nodePortRangeMin..<p} \<subseteq> svc_port ` ran (svcs.objs s)
   | Inl e \<Rightarrow> {nodePortRangeMin..nodePortRangeMax} \<subseteq> svc_port ` ran (svcs.objs s)"
proof -
  from assms obtain all where all: "reg_List svcs.R [] s = Inr all" "set all = ran (svcs.objs s)"
    using list_services unfolding services_ok_def by blast
  have b: "bget (used_ports all) q \<longleftrightarrow> q \<noteq> 0 \<and> q \<in> svc_port ` ran (svcs.objs s)" for q
    by (auto simp: bget_used_ports all(2)[symmetric])
  have nz: "nodePortRangeMin \<le> q \<Longrightarrow> q \<noteq> 0" for q by (simp add: nodePortRangeMin_def)
  from all(1) have a: "allocateNodePort SV s = port_loop (used_ports all) nodePortRangeMin"
    by (simp add: allocateNodePort_def NewServiceService_def)
  show ?thesis
    using port_loop_cases[where used = "used_ports all" and port = nodePortRangeMin] nz
    unfolding a by (auto simp: b split: sum.splits)
qed

lemma choose_port_fresh:
  assumes "ok s" "choose_port SV req s = Inr x"
  shows "svc_port x \<noteq> 0"
    and "svcs.objs s k = Some y \<Longrightarrow> svc_port y = svc_port x \<Longrightarrow> k = key_of kServices (svc_namespace x) (svc_name x)"
proof -
  from assms(2) obtain x0 where x0: "req = Some x0" "svc_name x0 \<noteq> []"
    by (auto simp: choose_port_def split: option.splits if_splits)
  define spec where "spec = (case svc_spec x0 of None \<Rightarrow> zero_ServiceSpec | Some sp \<Rightarrow> sp)"
  have key: "k = key_of kServices (svc_namespace y) (svc_name y)" if "svcs.objs s k = Some y" for k y
    using that assms(1) unfolding services_ok_def own_keys_def by blast
  from assms(1) obtain all where all: "reg_List svcs.R [] s = Inr all" "set all = ran (svcs.objs s)"
    using list_services unfolding services_ok_def by blast
  consider (alloc) p where "ss_node_port spec = 0" "allocateNodePort SV s = Inr p"
      "x = x0\<lparr>svc_spec := Some (spec\<lparr>ss_node_port := p\<rparr>)\<rparr>"
    | (given) "ss_node_port spec \<noteq> 0" "x = x0\<lparr>svc_spec := Some spec\<rparr>"
      "\<not> in_use_loop (ss_node_port spec) (svc_namespace x0) (svc_name x0) all"
    using assms(2) x0 all(1)
    by (auto simp: choose_port_def spec_def[symmetric] Let_def nodePortInUse_def NewServiceService_def
        split: if_splits sum.splits)
  then have "svc_port x \<noteq> 0 \<and> (\<forall>k y. svcs.objs s k = Some y \<longrightarrow> svc_port y = svc_port x \<longrightarrow>
      k = key_of kServices (svc_namespace x) (svc_name x))"
  proof cases
    case alloc
    with allocate_cases[OF assms(1)] show ?thesis
      by (auto simp: nodePortRangeMin_def ran_def)
  next
    case given
    have "k = key_of kServices (svc_namespace x0) (svc_name x0)"
      if ky: "svcs.objs s k = Some y" "svc_port y = ss_node_port spec" for k y
    proof -
      from ky(1) all(2) have "y \<in> set all" by (auto intro: ranI)
      with given(3) ky(2) have "svc_namespace y = svc_namespace x0 \<and> svc_name y = svc_name x0"
        unfolding in_use_loop_iff by blast
      with key[OF ky(1)] show ?thesis by simp
    qed
    with given(1,2) show ?thesis by simp
  qed
  then show "svc_port x \<noteq> 0"
    "svcs.objs s k = Some y \<Longrightarrow> svc_port y = svc_port x \<Longrightarrow> k = key_of kServices (svc_namespace x) (svc_name x)"
    by blast+
qed

lemma create_ok:
  assumes "ok s"
  shows "ok (snd (CreateService SV req s))"
proof (cases "choose_port SV req s")
  case (Inr x)
  let ?K = "key_of kServices (svc_namespace x) (svc_name x)"
  let ?s = "snd (reg_Put svcs.R (svc_namespace x) (svc_name x) x s)"
  from assms have i: "inv s" "svcs.readable s" by (simp_all add: services_ok_def)
  note put = svcs.reg_Put_any[OF i(1), of "svc_namespace x" "svc_name x" x]
  note fresh = choose_port_fresh[OF assms Inr]
  have "ok ?s"
    using put(1,3) i(2) put(2) assms fresh unfolding services_ok_def own_keys_def
    by (elim insertE emptyE) (auto split: if_splits)
  with Inr show ?thesis by (simp add: snd_CreateService NewServiceService_def)
qed (simp add: snd_CreateService assms)

lemma ok_cong:
  assumes "ok s" "inv s'" "svcs.objs s' = svcs.objs s" "svcs.readable s' \<longleftrightarrow> svcs.readable s"
  shows "ok s'"
  using assms unfolding services_ok_def own_keys_def by simp

lemma step_ok:
  assumes "svc_step SV s s'" "ok s"
  shows "ok s'"
proof -
  from assms(2) have i: "inv s" by (simp add: services_ok_def)
  have ns: "no_slash kServices" "no_slash kPods" "no_slash kNodes" by (simp_all add: no_slash_def)
  have others: "ok (snd (reg_Put pods.R ns n p s))" "ok (snd (reg_Delete pods.R ns n s))"
    "ok (snd (reg_Put nodes.R ns n x s))" "ok (snd (reg_Delete nodes.R ns n s))" for ns n p x
    by (rule ok_cong[OF assms(2)];
        rule pods.reg_Put_any(1)[OF i] pods.reg_Delete_any(1)[OF i]
          nodes.reg_Put_any(1)[OF i] nodes.reg_Delete_any(1)[OF i]
          pods.reg_Put_other[OF i ns(2,1)] pods.reg_Delete_other[OF i ns(2,1)]
          nodes.reg_Put_other[OF i ns(3,1)] nodes.reg_Delete_other[OF i ns(3,1)]; simp)+
  have del: "ok (snd (reg_Delete svcs.R ns n s))" for ns n
    using svcs.reg_Delete_any[OF i, of ns n] assms(2) unfolding services_ok_def own_keys_def
    by (elim insertE emptyE) (auto split: if_splits)
  from assms(1) show ?thesis
    by (cases rule: svc_stepE)
      (auto simp: NewServiceService_def others DeleteService_def del
        intro: create_ok[OF assms(2), unfolded NewServiceService_def])
qed

lemma reachable_ok: "(svc_step SV)\<^sup>*\<^sup>* s s' \<Longrightarrow> ok s \<Longrightarrow> ok s'"
  by (induction rule: rtranclp_induct) (auto intro: step_ok)

text \<open>The pods behind a service, and their endpoints.\<close>

lemma endpoint_of_set:
  assumes "inv s" "nodes.readable s"
  shows "set (endpoint_of SV x s p) = {e. \<exists>node. pod_phase p = POD_PHASE_RUNNING \<and>
    (\<forall>(k, v) \<in> set (ServiceSpec_GetSelector (svc_spec x)). lget (pod_labels p) k = v) \<and> pod_node p \<noteq> [] \<and>
    nodes.objs s (key_of kNodes [] (pod_node p)) = Some node \<and>
    e = \<lparr>ep_pod_name = pod_name p, ep_node_ip = NodeStatus_GetInternalIp (node_status node), ep_node_port = svc_port x\<rparr>}"
  unfolding labelsMatch_iff[symmetric] endpoint_of_def
  by (auto simp: NewServiceService_def nodes.reg_Get_obj_at[OF assms] split: option.splits)

lemma resolve_endpoints:
  assumes "inv s" "pods.readable s" "nodes.readable s" "ServiceSpec_GetSelector (svc_spec x) \<noteq> []"
  shows "\<exists>es. resolve SV x s = (Inr (x\<lparr>svc_status := Some \<lparr>sst_endpoints = es\<rparr>\<rparr>), s) \<and>
    set es = (\<Union>p \<in> {p. \<exists>k. HasPrefix k (reg_prefix kPods (svc_namespace x)) \<and> pods.objs s k = Some p}.
      set (endpoint_of SV x s p))"
proof -
  obtain ks where ks: "reg_List pods.R (svc_namespace x) s = Inr (map (the \<circ> pods.objs s) ks)"
    "set ks = {k \<in> dom (pods.objs s). HasPrefix k (reg_prefix kPods (svc_namespace x))}"
    using pods.reg_List_ok[OF assms(1,2)] by blast
  have set_eq: "set (map (the \<circ> pods.objs s) ks) =
      {p. \<exists>k. HasPrefix k (reg_prefix kPods (svc_namespace x)) \<and> pods.objs s k = Some p}"
    using ks(2) by (force simp: image_iff)
  have "sv_pods SV = pods.R" by (simp add: NewServiceService_def)
  with ks(1) assms(4) have "resolve SV x s = (Inr (x\<lparr>svc_status := Some \<lparr>sst_endpoints =
      concat (map (endpoint_of SV x s) (map (the \<circ> pods.objs s) ks))\<rparr>\<rparr>), s)"
    by (simp add: resolve_def actions)
  then show ?thesis unfolding set_eq[symmetric] by (intro exI conjI) (assumption, simp)
qed

end

section \<open>The services of the in-memory store\<close>

interpretation mem_svcs: services memStore mem_ok map_of svc_codec pod_codec node_codec
  by unfold_locales (auto simp: codec_defs)

abbreviation mem_svc :: "(wire memStore, wire) serviceService" where
  "mem_svc \<equiv> NewServiceService memStore svc_codec pod_codec node_codec"

text \<open>
  C16: node ports are unique. Over any store that keeps the contract, whatever sequence of
  service handlers and of writes to pods and nodes has run, one after the other, since the
  store was empty, every stored service has a node port, no two services have the same, and
  a service created without one gets the smallest free port of the range; only when every
  port of the range is taken is it refused.
\<close>

theorem node_ports_unique:
  assumes "services S good repr CS CP CN" "good s0" "repr s0 = Map.empty"
    and "(svc_step (NewServiceService S CS CP CN))\<^sup>*\<^sup>* s0 s"
  shows "(\<forall>k x. obj_at repr CS kServices s k = Some x \<longrightarrow> svc_port x \<noteq> 0) \<and>
    (\<forall>k k' x y. obj_at repr CS kServices s k = Some x \<longrightarrow> obj_at repr CS kServices s k' = Some y \<longrightarrow>
       svc_port x = svc_port y \<longrightarrow> k = k') \<and>
    (case allocateNodePort (NewServiceService S CS CP CN) s of
       Inr p \<Rightarrow> nodePortRangeMin \<le> p \<and> p \<le> nodePortRangeMax \<and> p \<notin> svc_port ` ran (obj_at repr CS kServices s) \<and>
         {nodePortRangeMin..<p} \<subseteq> svc_port ` ran (obj_at repr CS kServices s)
     | Inl e \<Rightarrow> {nodePortRangeMin..nodePortRangeMax} \<subseteq> svc_port ` ran (obj_at repr CS kServices s))"
proof -
  have "services_ok good repr CS s0"
    by (simp add: services_ok_def assms(2,3) decodes_def own_keys_def obj_at_def)
  with services.reachable_ok[OF assms(1,4)] have ok: "services_ok good repr CS s" .
  then have "\<forall>k x. obj_at repr CS kServices s k = Some x \<longrightarrow> svc_port x \<noteq> 0"
    "\<forall>k k' x y. obj_at repr CS kServices s k = Some x \<longrightarrow> obj_at repr CS kServices s k' = Some y \<longrightarrow>
       svc_port x = svc_port y \<longrightarrow> k = k'"
    unfolding services_ok_def by blast+
  with services.allocate_cases[OF assms(1) ok] show ?thesis by blast
qed

abbreviation services_of :: "wire memStore \<Rightarrow> string \<rightharpoonup> Service" where
  "services_of \<equiv> obj_at map_of svc_codec kServices"

definition ex_service :: "string \<Rightarrow> Service" where
  "ex_service n = \<lparr>svc_metadata = Some (zero_ObjectMeta\<lparr>meta_name := n, meta_namespace := ''default''\<rparr>),
     svc_spec = Some (zero_ServiceSpec\<lparr>ss_selector := [(''app'', ''web'')]\<rparr>), svc_status = None\<rparr>"

definition ex_services :: "wire memStore" where
  "ex_services = snd (CreateService mem_svc (Some (ex_service ''b''))
     (snd (CreateService mem_svc (Some (ex_service ''a'')) NewMemStore)))"

theorem node_ports_unique_witness:
  "map_option svc_port (services_of ex_services (key_of kServices ''default'' ''a'')) = Some 30000 \<and>
   map_option svc_port (services_of ex_services (key_of kServices ''default'' ''b'')) = Some 30001 \<and>
   allocateNodePort mem_svc ex_services = Inr 30002 \<and>
   {30000..<30002} \<subseteq> svc_port ` ran (services_of ex_services)"
proof -
  have "(svc_step mem_svc)\<^sup>*\<^sup>* NewMemStore ex_services"
    unfolding ex_services_def by (blast intro: rtranclp.intros svc_step.intros)
  moreover have a: "allocateNodePort mem_svc ex_services = Inr 30002" by code_simp
  moreover have "map_option svc_port (services_of ex_services (key_of kServices ''default'' ''a'')) = Some 30000"
    "map_option svc_port (services_of ex_services (key_of kServices ''default'' ''b'')) = Some 30001" by code_simp+
  ultimately show ?thesis
    using node_ports_unique[OF mem_svcs.services_axioms, of NewMemStore ex_services]
    by (simp add: nodePortRangeMin_def NewMemStore_def)
qed

text \<open>
  The handlers do not exclude each other. Two \<open>CreateService\<close> calls that both read the
  services before either has written are both accepted with the same node port.
\<close>

theorem concurrent_create_shares_port:
  "\<exists>x y s r r'. choose_port mem_svc (Some (ex_service ''a'')) NewMemStore = Inr x \<and>
     choose_port mem_svc (Some (ex_service ''b'')) NewMemStore = Inr y \<and>
     store_service mem_svc x NewMemStore = (Inr r, s) \<and>
     (\<exists>s'. store_service mem_svc y s = (Inr r', s') \<and>
        map_option svc_port (services_of s' (key_of kServices ''default'' ''a'')) = Some 30000 \<and>
        map_option svc_port (services_of s' (key_of kServices ''default'' ''b'')) = Some 30000)"
proof -
  define x where "x = (ex_service ''a'')\<lparr>svc_spec := Some (zero_ServiceSpec\<lparr>ss_selector := [(''app'', ''web'')], ss_node_port := 30000\<rparr>)\<rparr>"
  define y where "y = (ex_service ''b'')\<lparr>svc_spec := Some (zero_ServiceSpec\<lparr>ss_selector := [(''app'', ''web'')], ss_node_port := 30000\<rparr>)\<rparr>"
  define s where "s = snd (store_service mem_svc x NewMemStore)"
  define r where "r = projr (fst (store_service mem_svc x NewMemStore))"
  define r' where "r' = projr (fst (store_service mem_svc y s))"
  have "choose_port mem_svc (Some (ex_service ''a'')) NewMemStore = Inr x"
    "choose_port mem_svc (Some (ex_service ''b'')) NewMemStore = Inr y"
    unfolding x_def y_def by code_simp+
  moreover have "store_service mem_svc x NewMemStore = (Inr r, s)"
    unfolding r_def s_def x_def by code_simp
  moreover have "store_service mem_svc y s = (Inr r', snd (store_service mem_svc y s))"
    unfolding r'_def s_def x_def y_def by code_simp
  moreover have "map_option svc_port (services_of (snd (store_service mem_svc y s)) (key_of kServices ''default'' ''a'')) = Some 30000"
    "map_option svc_port (services_of (snd (store_service mem_svc y s)) (key_of kServices ''default'' ''b'')) = Some 30000"
    unfolding s_def x_def y_def by code_simp+
  ultimately show ?thesis by blast
qed

text \<open>
  \<open>GetService\<close> returns the stored service with exactly the endpoints of the pods of its
  namespace that are running, carry every label of the selector, and are bound to a node
  that exists: the pod's name, the node's address and the service's port. A service without
  a selector has none.
\<close>

theorem endpoints_exact:
  assumes "services S good repr CS CP CN" "good s" "decodes repr CS kServices s" "decodes repr CP kPods s"
    and "decodes repr CN kNodes s" "obj_at repr CS kServices s (key_of kServices ns n) = Some x"
  shows "\<exists>es. GetService (NewServiceService S CS CP CN) ns n s = (Inr (x\<lparr>svc_status := Some \<lparr>sst_endpoints = es\<rparr>\<rparr>), s) \<and>
    set es = {e. ServiceSpec_GetSelector (svc_spec x) \<noteq> [] \<and>
      (\<exists>k p node. HasPrefix k (reg_prefix kPods (svc_namespace x)) \<and> obj_at repr CP kPods s k = Some p \<and>
         pod_phase p = POD_PHASE_RUNNING \<and>
         (\<forall>(l, v) \<in> set (ServiceSpec_GetSelector (svc_spec x)). lget (pod_labels p) l = v) \<and> pod_node p \<noteq> [] \<and>
         obj_at repr CN kNodes s (key_of kNodes [] (pod_node p)) = Some node \<and>
         e = \<lparr>ep_pod_name = pod_name p, ep_node_ip = NodeStatus_GetInternalIp (node_status node),
              ep_node_port = svc_port x\<rparr>)}"
proof -
  let ?SV = "NewServiceService S CS CP CN"
  have g: "GetService ?SV ns n s = resolve ?SV x s"
    using registry_laws.reg_Get_obj_at[OF services.axioms(1)[OF assms(1)] assms(2,3), of ns n] assms(6)
    by (simp add: GetService_def NewServiceService_def actions)
  show ?thesis
  proof (cases "ServiceSpec_GetSelector (svc_spec x) = []")
    case True
    then show ?thesis by (simp add: g resolve_def ret_def)
  next
    case False
    from services.resolve_endpoints[OF assms(1,2,4,5) False] show ?thesis
      unfolding g services.endpoint_of_set[OF assms(1,2,5)] using False by fastforce
  qed
qed

text \<open>A service whose pod runs on a known node.\<close>

definition ex_web_node :: Node where
  "ex_web_node = \<lparr>node_metadata = Some (zero_ObjectMeta\<lparr>meta_name := ''n1''\<rparr>), node_spec = None,
     node_status = Some (zero_NodeStatus\<lparr>nst_internal_ip := ''10.0.0.1''\<rparr>)\<rparr>"

definition ex_web_pod :: Pod where
  "ex_web_pod = \<lparr>pod_metadata = Some (zero_ObjectMeta\<lparr>meta_name := ''p'', meta_labels := [(''app'', ''web'')]\<rparr>),
     pod_spec = Some (zero_PodSpec\<lparr>ps_node_name := ''n1''\<rparr>),
     pod_status = Some (zero_PodStatus\<lparr>pst_phase := POD_PHASE_RUNNING\<rparr>)\<rparr>"

definition ex_backed :: "wire memStore" where
  "ex_backed = [(''/registry/nodes/n1'', WNode ex_web_node), (''/registry/services/default/a'', WService (ex_service ''a'')),
     (''/registry/pods/default/p'', WPod ex_web_pod)]"

lemmas ex_backed_simps = ex_backed_def decodes_def obj_at_def HasPrefix_def reg_prefix_def codec_defs key_of_def

lemma ex_backed_decodes:
  "decodes map_of svc_codec kServices ex_backed" "decodes map_of pod_codec kPods ex_backed"
  "decodes map_of node_codec kNodes ex_backed"
  by (auto simp: ex_backed_simps split: if_splits)

theorem endpoints_exact_witness:
  "\<exists>es. GetService mem_svc ''default'' ''a'' ex_backed =
       (Inr ((ex_service ''a'')\<lparr>svc_status := Some \<lparr>sst_endpoints = es\<rparr>\<rparr>), ex_backed) \<and>
     \<lparr>ep_pod_name = ''p'', ep_node_ip = ''10.0.0.1'', ep_node_port = 0\<rparr> \<in> set es"
proof -
  have x: "obj_at map_of svc_codec kServices ex_backed (key_of kServices ''default'' ''a'') = Some (ex_service ''a'')"
    by (simp add: ex_backed_simps)
  have p: "obj_at map_of pod_codec kPods ex_backed (key_of kPods ''default'' ''p'') = Some ex_web_pod"
    and n: "obj_at map_of node_codec kNodes ex_backed (key_of kNodes [] ''n1'') = Some ex_web_node"
    and d: "mem_ok ex_backed"
    by (simp_all add: ex_backed_simps)
  note exact = endpoints_exact[OF mem_svcs.services_axioms d ex_backed_decodes x]
  show ?thesis
    by (rule exE[OF exact], rule exI, erule conjE, rule conjI, assumption, simp only: mem_Collect_eq,
        rule conjI, simp add: ex_service_def, rule exI[of _ "key_of kPods ''default'' ''p''"],
        rule exI[of _ ex_web_pod], rule exI[of _ ex_web_node])
      (use p n in \<open>simp add: ex_service_def ex_web_pod_def ex_web_node_def zero_messages lget_def\<close>)
qed

end
