(* ===== verification/Images.thy ===== *)
theory Images
  imports ApiServices
begin

text \<open>
  Image signatures: \<^verbatim>\<open>internal/imagesign\<close> (the trust file and its verifier), the images service
  of \<^verbatim>\<open>internal/apiserver\<close> and the verifier of \<^verbatim>\<open>internal/imageregistry\<close>. ECDSA and SHA-256
  are parameters; base64, through which signatures pass on their way into the trust file,
  is written out.
\<close>

section \<open>Base64, standard alphabet with padding\<close>

definition b64_char :: "nat \<Rightarrow> char" where
  "b64_char n = char_of (if n < 26 then n + 65 else if n < 52 then n + 71 else if n < 62 then n - 4
     else if n = 62 then 43 else 47)"

definition b64_val :: "char \<Rightarrow> nat option" where
  "b64_val c = (let n = of_char c in
     if 65 \<le> n \<and> n \<le> 90 then Some (n - 65) else if 97 \<le> n \<and> n \<le> 122 then Some (n - 71)
     else if 48 \<le> n \<and> n \<le> 57 then Some (n + 4) else if n = 43 then Some 62 else if n = 47 then Some 63 else None)"

fun b64_encode :: "nat list \<Rightarrow> string" where
  "b64_encode [] = []"
| "b64_encode [a] = [b64_char (a div 4), b64_char (a mod 4 * 16), CHR ''='', CHR ''='']"
| "b64_encode [a, b] =
     [b64_char (a div 4), b64_char (a mod 4 * 16 + b div 16), b64_char (b mod 16 * 4), CHR ''='']"
| "b64_encode (a # b # c # r) =
     b64_char (a div 4) # b64_char (a mod 4 * 16 + b div 16) # b64_char (b mod 16 * 4 + c div 64) #
     b64_char (c mod 64) # b64_encode r"

text \<open>Four characters at a time; padding only at the end. The unused bits are not checked.\<close>

fun b64_decode :: "string \<Rightarrow> nat list option" where
  "b64_decode [] = Some []"
| "b64_decode (w # x # y # z # r) =
     (case (b64_val w, b64_val x) of
        (Some v, Some u) \<Rightarrow>
          if y = CHR ''='' then (if z = CHR ''='' \<and> r = [] then Some [v * 4 + u div 16] else None)
          else (case b64_val y of
            None \<Rightarrow> None
          | Some t \<Rightarrow>
              if z = CHR ''='' then (if r = [] then Some [v * 4 + u div 16, u mod 16 * 16 + t div 4] else None)
              else (case (b64_val z, b64_decode r) of
                (Some q, Some rest) \<Rightarrow> Some ((v * 4 + u div 16) # (u mod 16 * 16 + t div 4) # (t mod 4 * 64 + q) # rest)
              | _ \<Rightarrow> None))
      | _ \<Rightarrow> None)"
| "b64_decode _ = None"

definition EncodeToString :: "bytes \<Rightarrow> string" where
  "EncodeToString b = b64_encode (map of_char b)"

text \<open>\<open>DecodeString\<close> skips line breaks.\<close>

definition DecodeString :: "string \<Rightarrow> bytes res" where
  "DecodeString s =
     (case b64_decode (filter (\<lambda>c. c \<noteq> CHR 0x0A \<and> c \<noteq> CHR 0x0D) s) of
        None \<Rightarrow> Inl (ErrText ''illegal base64 data'')
      | Some ns \<Rightarrow> Inr (map char_of ns))"

section \<open>The trust file\<close>

record ('pub, 'priv) ecdsa =
  sha256 :: "string \<Rightarrow> bytes"
  SignASN1 :: "'priv \<Rightarrow> bytes \<Rightarrow> bytes res"
  VerifyASN1 :: "'pub \<Rightarrow> bytes \<Rightarrow> bytes \<Rightarrow> bool"

definition imagesign_Sign :: "('pub, 'priv) ecdsa \<Rightarrow> 'priv \<Rightarrow> string \<Rightarrow> bytes res" where
  "imagesign_Sign E key imageRef = SignASN1 E key (sha256 E imageRef)"

definition imagesign_Verify :: "('pub, 'priv) ecdsa \<Rightarrow> 'pub \<Rightarrow> string \<Rightarrow> bytes \<Rightarrow> unit res" where
  "imagesign_Verify E pub imageRef sig =
     (if \<not> VerifyASN1 E pub (sha256 E imageRef) sig
      then Inl (ErrText ''imagesign: signature verification failed'') else Inr ())"

record TrustFile =
  tf_Signatures :: "(string, string) gomap"

definition TrustFile_Add :: "string \<Rightarrow> bytes \<Rightarrow> TrustFile \<Rightarrow> TrustFile" where
  "TrustFile_Add imageRef sig tf =
     tf\<lparr>tf_Signatures := AList.update imageRef (EncodeToString sig) (tf_Signatures tf)\<rparr>"

definition KeyVerifier_Verify :: "('pub, 'priv) ecdsa \<Rightarrow> 'pub \<Rightarrow> TrustFile \<Rightarrow> string \<Rightarrow> unit res" where
  "KeyVerifier_Verify E pub tf imageRef =
     (case map_of (tf_Signatures tf) imageRef of
        None \<Rightarrow> Inl (ErrText ''imagesign: no signature on file for image'')
      | Some encoded \<Rightarrow>
          (case DecodeString encoded of
             Inl e \<Rightarrow> Inl (ErrWrap ''imagesign: decode signature'' e)
           | Inr sig \<Rightarrow> imagesign_Verify E pub imageRef sig))"

section \<open>Base64 round trip\<close>

lemma b64_val_char [simp]: "n < 64 \<Longrightarrow> b64_val (b64_char n) = Some n"
  by (simp add: b64_val_def b64_char_def Let_def) presburger

lemma of_char_b64_char:
  "n < 64 \<Longrightarrow> of_char (b64_char n) \<in> {65..90} \<union> {97..122} \<union> {48..57} \<union> {43, 47 :: nat}"
  by (simp add: b64_char_def) presburger

lemma b64_char_plain [simp]:
  assumes "n < 64"
  shows "b64_char n \<noteq> CHR ''=''" "b64_char n \<noteq> CHR 0x0A" "b64_char n \<noteq> CHR 0x0D"
  using of_char_b64_char[OF assms] by auto

text \<open>The sextets that two bytes share.\<close>

lemma sextets:
  assumes "b < (256 :: nat)"
  shows "a mod 4 * 16 + b div 16 < 64" "(a mod 4 * 16 + b div 16) div 16 = a mod 4"
    "(a mod 4 * 16 + b div 16) mod 16 = b div 16"
    "a mod 16 * 4 + b div 64 < 64" "(a mod 16 * 4 + b div 64) div 4 = a mod 16"
    "(a mod 16 * 4 + b div 64) mod 4 = b div 64"
proof -
  have lt: "b div 16 < 16" "b div 64 < 4" using assms by simp_all
  have "a mod 4 < 4" "a mod 16 < 16" by simp_all
  with lt show "a mod 4 * 16 + b div 16 < 64" "a mod 16 * 4 + b div 64 < 64" by linarith+
  from lt show "(a mod 4 * 16 + b div 16) div 16 = a mod 4" "(a mod 4 * 16 + b div 16) mod 16 = b div 16"
    "(a mod 16 * 4 + b div 64) div 4 = a mod 16" "(a mod 16 * 4 + b div 64) mod 4 = b div 64"
    by simp_all
qed

lemma b64_encode_plain: "list_all (\<lambda>a. a < 256) ns \<Longrightarrow>
  filter (\<lambda>c. c \<noteq> CHR 0x0A \<and> c \<noteq> CHR 0x0D) (b64_encode ns) = b64_encode ns"
  by (induction ns rule: b64_encode.induct) (simp_all add: less_mult_imp_div_less sextets)

lemma b64_roundtrip: "list_all (\<lambda>a. a < 256) ns \<Longrightarrow> b64_decode (b64_encode ns) = Some ns"
  by (induction ns rule: b64_encode.induct) (simp_all add: less_mult_imp_div_less sextets)

lemma DecodeString_EncodeToString [simp]: "DecodeString (EncodeToString b) = Inr b"
proof -
  have "list_all (\<lambda>a. a < 256) (map of_char b :: nat list)" by (simp add: list_all_iff)
  then show ?thesis
    by (simp add: DecodeString_def EncodeToString_def b64_encode_plain b64_roundtrip comp_def)
qed

text \<open>
  What \<open>Sign\<close> produces and \<open>Add\<close> puts into the trust file, the verifier accepts for that
  image, whatever the bytes of the signature (they go through base64 and back); and adding
  a signature changes the verdict on no other image. \<open>VerifyASN1\<close> accepts what \<open>SignASN1\<close>
  made of the same digest with the matching key.
\<close>

theorem signed_image_verifies:
  assumes "\<And>d sg. SignASN1 E key d = Inr sg \<Longrightarrow> VerifyASN1 E pub d sg" "imagesign_Sign E key imageRef = Inr sig"
  shows "KeyVerifier_Verify E pub (TrustFile_Add imageRef sig tf) imageRef = Inr () \<and>
    (\<forall>other. other \<noteq> imageRef \<longrightarrow>
       KeyVerifier_Verify E pub (TrustFile_Add imageRef sig tf) other = KeyVerifier_Verify E pub tf other)"
  using assms by (simp add: KeyVerifier_Verify_def TrustFile_Add_def imagesign_Verify_def imagesign_Sign_def)

text \<open>A toy signature scheme: the signature is the key followed by the digest.\<close>

definition ex_ecdsa :: "(string, string) ecdsa" where
  "ex_ecdsa = \<lparr>sha256 = rev, SignASN1 = (\<lambda>k d. Inr (k @ d)), VerifyASN1 = (\<lambda>p d s. s = p @ d)\<rparr>"

theorem signed_image_verifies_witness:
  "KeyVerifier_Verify ex_ecdsa ''k'' (TrustFile_Add ''app:v1'' ''k1v:ppa'' \<lparr>tf_Signatures = []\<rparr>) ''app:v1'' = Inr ()"
  using signed_image_verifies[of ex_ecdsa "''k''" "''k''" "''app:v1''" "''k1v:ppa''" "\<lparr>tf_Signatures = []\<rparr>"]
  by (simp add: ex_ecdsa_def imagesign_Sign_def)

section \<open>The cluster's image registry\<close>

abbreviation "kImages \<equiv> ''images''"

text \<open>The calls that write image records, run to their end whatever they report.\<close>

inductive img_step :: "('s, 'b, ImageRecord) Registry \<Rightarrow> (string \<Rightarrow> bytes \<Rightarrow> unit res) \<Rightarrow> 's \<Rightarrow> 's \<Rightarrow> bool"
  for images Vf where
  step_push: "img_step images Vf s (snd (PushImage images Vf now reference signature s))"
| step_drop: "img_step images Vf s (snd (DeleteImage images reference s))"

definition images_signed :: "('s \<Rightarrow> string \<rightharpoonup> 'b) \<Rightarrow> (ImageRecord, 'b) codec \<Rightarrow> (string \<Rightarrow> bytes \<Rightarrow> unit res) \<Rightarrow> 's \<Rightarrow> bool" where
  "images_signed repr C Vf s \<longleftrightarrow> (\<forall>k x. obj_at repr C kImages s k = Some x \<longrightarrow>
     k = key_of kImages [] (img_reference x) \<and> Vf (img_reference x) (img_signature x) = Inr ())"

lemma snd_api_put [simp]: "snd (api_put what r ns n obj s) = snd (reg_Put r ns n obj s)"
  by (auto simp: api_put_def bindA_def ret_def statusA_def split: prod.splits sum.splits)

lemma img_step_keeps:
  assumes laws: "registry_laws S good repr C" and step: "img_step (reg_New S kImages C) Vf s s'"
    and init: "good s" "decodes repr C kImages s" "images_signed repr C Vf s"
  shows "good s' \<and> decodes repr C kImages s' \<and> images_signed repr C Vf s'"
  using step
proof cases
  case (step_push now reference signature)
  let ?rec = "\<lparr>img_reference = reference, img_signature = signature, img_pushed_at_unix = now\<rparr>"
  show ?thesis
  proof (cases "reference \<noteq> [] \<and> Vf reference signature = Inr ()")
    case True
    with step_push have s': "s' = snd (reg_Put (reg_New S kImages C) [] reference ?rec s)"
      by (simp add: PushImage_def)
    note put = registry_laws.reg_Put_any[OF laws init(1), of kImages "[]" reference ?rec, folded s']
    from put(2) init(3) True have "images_signed repr C Vf s'"
      unfolding images_signed_def by (elim insertE emptyE) (auto split: if_splits)
    with put(1,3) init(2) show ?thesis by blast
  next
    case False
    then have "s' = s"
      using step_push by (auto simp: PushImage_def invalid_def throw_def split: sum.splits)
    with init show ?thesis by simp
  qed
next
  case (step_drop reference)
  then have s': "s' = snd (reg_Delete (reg_New S kImages C) [] reference s)"
    by (simp add: DeleteImage_def api_delete_def)
  note del = registry_laws.reg_Delete_any[OF laws init(1), of kImages "[]" reference, folded s']
  from del(2) init(3) have "images_signed repr C Vf s'"
    unfolding images_signed_def by (elim insertE emptyE) (auto split: if_splits)
  with del(1,3) init(2) show ?thesis by blast
qed

text \<open>
  The image registry only vouches for signed images. However images have been pushed and
  deleted since the store was empty, an image the registry's verifier accepts has a record
  whose signature verifies for exactly that reference.
\<close>

theorem registry_vouches_for_signed:
  assumes "registry_laws S good repr C" "good s0" "repr s0 = Map.empty"
    and "(img_step (reg_New S kImages C) Vf)\<^sup>*\<^sup>* s0 s"
    and "registry_Verify (reg_New S kImages C) s imageRef = Inr ()"
  shows "\<exists>x. obj_at repr C kImages s (key_of kImages [] imageRef) = Some x \<and>
    img_reference x = imageRef \<and> Vf imageRef (img_signature x) = Inr ()"
proof -
  have "good s \<and> decodes repr C kImages s \<and> images_signed repr C Vf s"
    using assms(4)
  proof (induction rule: rtranclp_induct)
    case base
    show ?case by (simp add: assms(2,3) decodes_def images_signed_def obj_at_def)
  next
    case (step y z)
    then show ?case using img_step_keeps[OF assms(1) step.hyps(2)] by blast
  qed
  then have s: "good s" "decodes repr C kImages s" "images_signed repr C Vf s" by blast+
  from assms(5) obtain x where x: "obj_at repr C kImages s (key_of kImages [] imageRef) = Some x"
    using registry_laws.reg_Get_obj_at[OF assms(1) s(1,2), of "[]" imageRef]
    by (auto simp: registry_Verify_def split: option.splits)
  with s(3) have "key_of kImages [] imageRef = key_of kImages [] (img_reference x)"
    "Vf (img_reference x) (img_signature x) = Inr ()"
    unfolding images_signed_def by blast+
  with x show ?thesis by simp
qed

definition image_codec :: "(ImageRecord, wire) codec" where
  "image_codec = \<lparr>proto_Marshal = (\<lambda>x. Inr (WImage x)),
     proto_Unmarshal = (\<lambda>b. case b of WImage x \<Rightarrow> Inr x | _ \<Rightarrow> wrong_type)\<rparr>"

interpretation mem_images: registry_laws memStore mem_ok map_of image_codec kImages
  by unfold_locales (simp add: image_codec_def)

abbreviation mem_image_reg :: "(wire memStore, wire, ImageRecord) Registry" where
  "mem_image_reg \<equiv> reg_New memStore kImages image_codec"

definition ex_pushed :: "wire memStore" where
  "ex_pushed = snd (PushImage mem_image_reg (imagesign_Verify ex_ecdsa ''k'') 7 ''app:v1'' ''k1v:ppa'' NewMemStore)"

theorem registry_vouches_for_signed_witness:
  "\<exists>x. obj_at map_of image_codec kImages ex_pushed (key_of kImages [] ''app:v1'') = Some x \<and>
     imagesign_Verify ex_ecdsa ''k'' ''app:v1'' (img_signature x) = Inr ()"
proof -
  have "(img_step mem_image_reg (imagesign_Verify ex_ecdsa ''k''))\<^sup>*\<^sup>* NewMemStore ex_pushed"
    unfolding ex_pushed_def by (blast intro: img_step.intros)
  moreover have "registry_Verify mem_image_reg ex_pushed ''app:v1'' = Inr ()" by code_simp
  ultimately show ?thesis
    using registry_vouches_for_signed[OF mem_images.registry_laws_axioms, of NewMemStore
        "imagesign_Verify ex_ecdsa ''k''" ex_pushed "''app:v1''"]
    by (auto simp: NewMemStore_def)
qed

end
