(* ===== verification/NetPolicy.thy ===== *)
theory NetPolicy
  imports Api
begin

text \<open>
  \<^verbatim>\<open>internal/netpolicy/engine.go\<close>: whether the network policies of a namespace let a connection
  through.
\<close>

text \<open>\<open>strings.EqualFold\<close> on ASCII text, which protocol names are.\<close>

definition fold_char :: "char \<Rightarrow> char" where
  "fold_char c = (if 65 \<le> (of_char c :: nat) \<and> (of_char c :: nat) \<le> 90 then char_of (of_char c + 32 :: nat) else c)"

definition EqualFold :: "string \<Rightarrow> string \<Rightarrow> bool" where
  "EqualFold s t \<longleftrightarrow> map fold_char s = map fold_char t"

fun selectorMatches :: "(string, string) gomap \<Rightarrow> (string, string) gomap \<Rightarrow> bool" where
  "selectorMatches [] labels = True"
| "selectorMatches ((k, v) # selector) labels = (if lget labels k \<noteq> v then False else selectorMatches selector labels)"

fun np_port_loop :: "NetworkPolicyPort list \<Rightarrow> string \<Rightarrow> int32 \<Rightarrow> bool" where
  "np_port_loop [] protocol port = False"
| "np_port_loop (p # ps) protocol port =
     (if npp_port p \<noteq> 0 \<and> npp_port p \<noteq> port then np_port_loop ps protocol port
      else if npp_protocol p \<noteq> [] \<and> \<not> EqualFold (npp_protocol p) protocol then np_port_loop ps protocol port
      else True)"

definition portAllowed :: "NetworkPolicyPort list \<Rightarrow> string \<Rightarrow> int32 \<Rightarrow> bool" where
  "portAllowed ports protocol port = (if ports = [] then True else np_port_loop ports protocol port)"

fun peer_loop :: "NetworkPolicyPeer list \<Rightarrow> (string, string) gomap \<Rightarrow> bool" where
  "peer_loop [] sourceLabels = False"
| "peer_loop (peer # peers) sourceLabels =
     (if selectorMatches (npr_pod_selector peer) sourceLabels then True else peer_loop peers sourceLabels)"

definition peerAllowed :: "NetworkPolicyPeer list \<Rightarrow> (string, string) gomap \<Rightarrow> bool" where
  "peerAllowed peers sourceLabels = (if peers = [] then True else peer_loop peers sourceLabels)"

fun ingress_loop :: "NetworkPolicyIngressRule list \<Rightarrow> (string, string) gomap \<Rightarrow> string \<Rightarrow> int32 \<Rightarrow> bool" where
  "ingress_loop [] sourceLabels protocol port = False"
| "ingress_loop (r # rs) sourceLabels protocol port =
     (if portAllowed (npi_ports r) protocol port \<and> peerAllowed (npi_from r) sourceLabels then True
      else ingress_loop rs sourceLabels protocol port)"

fun Allowed :: "NetworkPolicy list \<Rightarrow> (string, string) gomap \<Rightarrow> (string, string) gomap \<Rightarrow> string \<Rightarrow> int32 \<Rightarrow> bool" where
  "Allowed [] sourceLabels destLabels protocol port = False"
| "Allowed (p # ps) sourceLabels destLabels protocol port =
     (if \<not> selectorMatches (NetworkPolicySpec_GetPodSelector (np_spec p)) destLabels
        then Allowed ps sourceLabels destLabels protocol port
      else if ingress_loop (NetworkPolicySpec_GetIngress (np_spec p)) sourceLabels protocol port then True
      else Allowed ps sourceLabels destLabels protocol port)"

section \<open>What is let through\<close>

text \<open>A label map satisfies a selector when it has every entry; a missing label counts as empty.\<close>

definition satisfies :: "(string, string) gomap \<Rightarrow> (string, string) gomap \<Rightarrow> bool" where
  "satisfies labels selector \<longleftrightarrow> (\<forall>(k, v) \<in> set selector. lget labels k = v)"

definition admits :: "NetworkPolicyIngressRule \<Rightarrow> (string, string) gomap \<Rightarrow> string \<Rightarrow> int32 \<Rightarrow> bool" where
  "admits r sourceLabels protocol port \<longleftrightarrow>
     (npi_from r = [] \<or> (\<exists>peer \<in> set (npi_from r). satisfies sourceLabels (npr_pod_selector peer))) \<and>
     (npi_ports r = [] \<or> (\<exists>p \<in> set (npi_ports r). npp_port p \<in> {0, port} \<and>
        (npp_protocol p = [] \<or> EqualFold (npp_protocol p) protocol)))"

lemma selectorMatches_iff: "selectorMatches sel labels \<longleftrightarrow> satisfies labels sel"
  by (induction sel) (auto simp: satisfies_def split: if_splits)

lemma np_port_loop_iff: "np_port_loop ps protocol port \<longleftrightarrow>
    (\<exists>p \<in> set ps. npp_port p \<in> {0, port} \<and> (npp_protocol p = [] \<or> EqualFold (npp_protocol p) protocol))"
  by (induction ps) auto

lemma peer_loop_iff: "peer_loop ps labels \<longleftrightarrow> (\<exists>peer \<in> set ps. satisfies labels (npr_pod_selector peer))"
  by (induction ps) (auto simp: selectorMatches_iff)

lemma admits_iff: "admits r src protocol port \<longleftrightarrow> peerAllowed (npi_from r) src \<and> portAllowed (npi_ports r) protocol port"
  unfolding admits_def portAllowed_def peerAllowed_def np_port_loop_iff peer_loop_iff by simp

lemma ingress_loop_iff: "ingress_loop rs src protocol port \<longleftrightarrow> (\<exists>r \<in> set rs. admits r src protocol port)"
  by (induction rs) (auto simp: admits_iff)

text \<open>
  A connection is let through exactly when some policy selects the destination and has an
  ingress rule that admits the source's labels and the protocol and port. In particular the
  order of policies and rules does not matter, a destination no policy selects receives
  nothing, and a rule with no peers or no ports leaves that side open.
\<close>

theorem netpolicy_exact:
  "Allowed policies src dest protocol port \<longleftrightarrow>
     (\<exists>p \<in> set policies. satisfies dest (NetworkPolicySpec_GetPodSelector (np_spec p)) \<and>
        (\<exists>r \<in> set (NetworkPolicySpec_GetIngress (np_spec p)). admits r src protocol port))"
  by (induction policies) (auto simp: selectorMatches_iff ingress_loop_iff)

end
