(* ===== verification/Mesh.thy ===== *)
theory Mesh
  imports Prelude
begin

text \<open>
  \<^verbatim>\<open>internal/mesh\<close>: the circuit breaker, the retry policy and the client interceptor that
  combines them. Times and durations are nanoseconds on the monotonic clock. The mutex of
  the breaker makes each of its operations atomic, so concurrent callers appear as one
  sequence of operations. Floating-point scaling of the backoff is a
  parameter, and the policy's \<open>BackoffMultiplier\<close> enters only through it.
\<close>

section \<open>The circuit breaker\<close>

datatype State = Closed | Open | HalfOpen

fun State_String :: "State \<Rightarrow> string" where
  "State_String Open = ''open''"
| "State_String HalfOpen = ''half-open''"
| "State_String Closed = ''closed''"

record CircuitBreaker =
  cb_state :: State
  cb_failures :: int64
  cb_threshold :: int64
  cb_resetTimeout :: int64
  cb_openedAt :: int

definition NewCircuitBreaker :: "int64 \<Rightarrow> int64 \<Rightarrow> CircuitBreaker" where
  "NewCircuitBreaker threshold resetTimeout =
     \<lparr>cb_state = Closed, cb_failures = 0,
      cb_threshold = (if threshold \<le> 0 then 5 else threshold),
      cb_resetTimeout = (if resetTimeout \<le> 0 then 30 * Second else resetTimeout), cb_openedAt = 0\<rparr>"

definition cb_Allow :: "int \<Rightarrow> CircuitBreaker \<Rightarrow> bool \<times> CircuitBreaker" where
  "cb_Allow now cb =
     (if cb_state cb \<noteq> Open then (True, cb)
      else if now - cb_openedAt cb < cb_resetTimeout cb then (False, cb)
      else (True, cb\<lparr>cb_state := HalfOpen\<rparr>))"

definition RecordSuccess :: "CircuitBreaker \<Rightarrow> CircuitBreaker" where
  "RecordSuccess cb = cb\<lparr>cb_failures := 0, cb_state := Closed\<rparr>"

definition RecordFailure :: "int \<Rightarrow> CircuitBreaker \<Rightarrow> CircuitBreaker" where
  "RecordFailure now cb =
     (let cb = cb\<lparr>cb_failures := wrap64 (cb_failures cb + 1)\<rparr>
      in if cb_state cb = HalfOpen \<or> cb_failures cb \<ge> cb_threshold cb
         then cb\<lparr>cb_state := Open, cb_openedAt := now\<rparr> else cb)"

section \<open>Retries\<close>

record RetryPolicy =
  rp_MaxAttempts :: int
  rp_InitialBackoff :: int64
  rp_MaxBackoff :: int64
  rp_RetryableCodes :: "code list"

definition DefaultRetryPolicy :: RetryPolicy where
  "DefaultRetryPolicy = \<lparr>rp_MaxAttempts = 3, rp_InitialBackoff = 100000000, rp_MaxBackoff = 2 * Second,
     rp_RetryableCodes = [Unavailable, DeadlineExceeded, ResourceExhausted]\<rparr>"

text \<open>\<open>status.FromError\<close>: the code of a status error, also when it is wrapped.\<close>

fun status_code :: "error \<Rightarrow> code option" where
  "status_code (ErrStatus c m) = Some c"
| "status_code (ErrWrap m e) = status_code e"
| "status_code e = None"

definition retryable :: "RetryPolicy \<Rightarrow> error \<Rightarrow> bool" where
  "retryable p err = (case status_code err of None \<Rightarrow> False | Some c \<Rightarrow> c \<in> set (rp_RetryableCodes p))"

definition attempts :: "RetryPolicy \<Rightarrow> int" where
  "attempts p = (if rp_MaxAttempts p \<le> 0 then 1 else rp_MaxAttempts p)"

section \<open>The interceptor\<close>

text \<open>
  The outside of one call: \<open>invoke\<close> makes the next remote call, \<open>await\<close> waits for the given
  time unless the context ends first (then it gives the context's error), \<open>clock\<close> reads the
  time. \<open>scale\<close> is \<open>time.Duration(float64(backoff) * retry.BackoffMultiplier)\<close>.
\<close>

record 'w call_env =
  invoke :: "'w \<Rightarrow> error option \<times> 'w"
  await :: "int64 \<Rightarrow> 'w \<Rightarrow> error option \<times> 'w"
  clock :: "'w \<Rightarrow> int"

definition next_backoff :: "RetryPolicy \<Rightarrow> (int64 \<Rightarrow> int64) \<Rightarrow> int64 \<Rightarrow> int64" where
  "next_backoff retry scale backoff =
     (let backoff = scale backoff
      in if rp_MaxBackoff retry > 0 \<and> backoff > rp_MaxBackoff retry then rp_MaxBackoff retry else backoff)"

text \<open>The loop with \<open>left\<close> attempts to go; \<open>left = 1\<close> is the last one.\<close>

fun attempt_loop :: "'w call_env \<Rightarrow> RetryPolicy \<Rightarrow> (int64 \<Rightarrow> int64) \<Rightarrow> nat \<Rightarrow> int64 \<Rightarrow> CircuitBreaker \<Rightarrow> 'w \<Rightarrow>
    error option \<times> CircuitBreaker \<times> 'w" where
  "attempt_loop E retry scale 0 backoff cb w = (None, cb, w)"
| "attempt_loop E retry scale (Suc left) backoff cb w =
     (case invoke E w of
        (None, w1) \<Rightarrow> (None, RecordSuccess cb, w1)
      | (Some lastErr, w1) \<Rightarrow>
          if left = 0 \<or> \<not> retryable retry lastErr then (Some lastErr, RecordFailure (clock E w1) cb, w1)
          else (case await E backoff w1 of
                  (Some ctxErr, w2) \<Rightarrow> (Some ctxErr, RecordFailure (clock E w2) cb, w2)
                | (None, w2) \<Rightarrow> attempt_loop E retry scale left (next_backoff retry scale backoff) cb w2))"

definition NewClientInterceptor :: "'w call_env \<Rightarrow> RetryPolicy \<Rightarrow> (int64 \<Rightarrow> int64) \<Rightarrow> CircuitBreaker \<Rightarrow> 'w \<Rightarrow>
    error option \<times> CircuitBreaker \<times> 'w" where
  "NewClientInterceptor E retry scale cb w =
     (case cb_Allow (clock E w) cb of
        (False, cb') \<Rightarrow> (Some (ErrStatus Unavailable ''mesh: circuit breaker open''), cb', w)
      | (True, cb') \<Rightarrow> attempt_loop E retry scale (nat (attempts retry)) (rp_InitialBackoff retry) cb' w)"

section \<open>Sequences of operations on a breaker\<close>

datatype cb_op = OpAllow | OpSuccess | OpFailure

fun cb_exec :: "int \<times> cb_op \<Rightarrow> CircuitBreaker \<Rightarrow> CircuitBreaker" where
  "cb_exec (t, OpAllow) cb = snd (cb_Allow t cb)"
| "cb_exec (t, OpSuccess) cb = RecordSuccess cb"
| "cb_exec (t, OpFailure) cb = RecordFailure t cb"

text \<open>The times of the failures since the last success, the latest first.\<close>

definition recent_failures :: "(int \<times> cb_op) list \<Rightarrow> int list" where
  "recent_failures ops = foldl (\<lambda>fs (t, op). case op of OpAllow \<Rightarrow> fs | OpSuccess \<Rightarrow> [] | OpFailure \<Rightarrow> t # fs) [] ops"

text \<open>What a breaker knows after a sequence of operations.\<close>

definition breaker_tracks :: "CircuitBreaker \<Rightarrow> int \<Rightarrow> int list \<Rightarrow> CircuitBreaker \<Rightarrow> bool" where
  "breaker_tracks cb0 now fs cb \<longleftrightarrow>
     cb_threshold cb = cb_threshold cb0 \<and> cb_resetTimeout cb = cb_resetTimeout cb0 \<and>
     cb_failures cb = int (length fs) \<and>
     (if int (length fs) < cb_threshold cb0 then cb_state cb = Closed
      else fs \<noteq> [] \<and> cb_openedAt cb = hd fs \<and>
        (cb_state cb = Open \<or> cb_state cb = HalfOpen \<and> now - hd fs \<ge> cb_resetTimeout cb0))"

lemma breaker_step:
  assumes "breaker_tracks cb0 now fs cb" "now \<le> t" "0 < cb_threshold cb0" "int (length fs) < MaxInt64"
  shows "breaker_tracks cb0 t (case op of OpAllow \<Rightarrow> fs | OpSuccess \<Rightarrow> [] | OpFailure \<Rightarrow> t # fs) (cb_exec (t, op) cb)"
proof (cases op)
  case OpFailure
  have "wrap64 (int (length fs) + 1) = int (length fs) + 1"
    using assms(4) by (intro wrap64_id) (simp add: in64_def MaxInt64_def)
  with OpFailure assms show ?thesis
    by (auto simp: breaker_tracks_def RecordFailure_def Let_def split: if_splits)
next
  case OpAllow
  with assms show ?thesis by (auto simp: breaker_tracks_def cb_Allow_def split: if_splits)
next
  case OpSuccess
  with assms show ?thesis by (auto simp: breaker_tracks_def RecordSuccess_def)
qed

lemma recent_failures_simps [simp]:
  "recent_failures [] = []"
  "recent_failures (ops @ [(t, op)]) =
     (case op of OpAllow \<Rightarrow> recent_failures ops | OpSuccess \<Rightarrow> [] | OpFailure \<Rightarrow> t # recent_failures ops)"
  by (simp_all add: recent_failures_def split: cb_op.split)

lemma recent_failures_length: "length (recent_failures ops) \<le> length ops"
  by (induction ops rule: rev_induct) (auto split: cb_op.splits)

lemma breaker_run:
  assumes "sorted (map fst ops)" "\<forall>t \<in> fst ` set ops. t0 \<le> t" "0 < cb_threshold cb0"
    "int (length ops) \<le> MaxInt64" "breaker_tracks cb0 t0 [] cb0"
  shows "breaker_tracks cb0 (last (t0 # map fst ops)) (recent_failures ops) (fold cb_exec ops cb0)"
  using assms(1,2,4)
proof (induction ops rule: rev_induct)
  case Nil
  with assms(5) show ?case by simp
next
  case (snoc e ops)
  obtain t op where e: "e = (t, op)" by fastforce
  from snoc have ih: "breaker_tracks cb0 (last (t0 # map fst ops)) (recent_failures ops) (fold cb_exec ops cb0)"
    by (simp add: sorted_append)
  have "last (t0 # map fst ops) \<le> t"
    using snoc.prems(1,2) e by (cases ops rule: rev_cases) (auto simp: sorted_append)
  moreover have "int (length (recent_failures ops)) < MaxInt64"
    using recent_failures_length[of ops] snoc.prems(3) by simp
  ultimately show ?case using breaker_step[OF ih _ assms(3), of t op] by (simp add: e del: cb_exec.simps)
qed

text \<open>
  The breaker refuses a call exactly when at least \<open>threshold\<close> failures have been recorded
  since the last success and less than the reset timeout has passed since the latest of
  them; whatever operations, from however many callers, came before, as long as the clock
  does not run backwards.
\<close>

theorem breaker_exact:
  assumes "sorted (map fst ops)" "\<forall>e \<in> set ops. fst e \<le> t" "int (length ops) \<le> MaxInt64"
  shows "let cb0 = NewCircuitBreaker threshold resetTimeout; fs = recent_failures ops
    in fst (cb_Allow t (fold cb_exec ops cb0)) \<longleftrightarrow>
       \<not> (cb_threshold cb0 \<le> int (length fs) \<and> t - hd fs < cb_resetTimeout cb0)"
proof -
  let ?cb0 = "NewCircuitBreaker threshold resetTimeout" and ?t0 = "hd (map fst ops @ [t])"
  have th: "0 < cb_threshold ?cb0" by (simp add: NewCircuitBreaker_def)
  have init: "breaker_tracks ?cb0 ?t0 [] ?cb0" by (simp add: breaker_tracks_def NewCircuitBreaker_def)
  have "\<forall>u \<in> fst ` set ops. ?t0 \<le> u" using assms(1) by (cases ops) auto
  from breaker_run[OF assms(1) this th assms(3) init]
  have run: "breaker_tracks ?cb0 (last (?t0 # map fst ops)) (recent_failures ops) (fold cb_exec ops ?cb0)" .
  have "last (?t0 # map fst ops) \<le> t" using assms(2) by (cases ops rule: rev_cases) auto
  with run show ?thesis
    by (auto simp: breaker_tracks_def cb_Allow_def Let_def split: if_splits)
qed

theorem breaker_exact_witness:
  "\<not> fst (cb_Allow 9 (fold cb_exec [(1, OpFailure), (2, OpAllow), (3, OpFailure)] (NewCircuitBreaker 2 10)))"
  using breaker_exact[of "[(1, OpFailure), (2, OpAllow), (3, OpFailure)]" 9 2 10]
  by (simp add: MaxInt64_def recent_failures_def NewCircuitBreaker_def)

section \<open>One intercepted call\<close>

text \<open>
  A scripted outside: \<open>out i\<close> is the result of the \<open>i\<close>-th remote call, \<open>ends i\<close> whether the
  context ends during the wait after \<open>i\<close> calls. The state counts the calls and records the
  waits.
\<close>

definition script :: "(nat \<Rightarrow> error option) \<Rightarrow> (nat \<Rightarrow> error option) \<Rightarrow> (nat \<Rightarrow> int) \<Rightarrow> (nat \<times> int64 list) call_env" where
  "script out ends time = \<lparr>invoke = (\<lambda>(i, ws). (out i, (Suc i, ws))),
     await = (\<lambda>d (i, ws). (ends i, (i, ws @ [d]))), clock = (\<lambda>(i, ws). time i)\<rparr>"

text \<open>The call after which the loop ends, and what it returns.\<close>

definition goes_on :: "RetryPolicy \<Rightarrow> (nat \<Rightarrow> error option) \<Rightarrow> (nat \<Rightarrow> error option) \<Rightarrow> nat \<Rightarrow> bool" where
  "goes_on retry out ends i \<longleftrightarrow> (\<exists>e. out i = Some e \<and> retryable retry e) \<and> ends (Suc i) = None"

definition call_result :: "RetryPolicy \<Rightarrow> (nat \<Rightarrow> error option) \<Rightarrow> (nat \<Rightarrow> error option) \<Rightarrow> bool \<Rightarrow> nat \<Rightarrow> error option" where
  "call_result retry out ends is_last k =
     (case out k of None \<Rightarrow> None | Some e \<Rightarrow> if is_last \<or> \<not> retryable retry e then Some e else ends (Suc k))"

lemma attempt_loop_script:
  assumes "0 < left"
  shows "\<exists>k ds. i \<le> k \<and> k < i + left \<and> (\<forall>j. i \<le> j \<and> j < k \<longrightarrow> goes_on retry out ends j) \<and>
    (Suc k = i + left \<or> \<not> goes_on retry out ends k) \<and> length ds \<le> Suc k - i \<and>
    (ds \<noteq> [] \<longrightarrow> hd ds = backoff) \<and> (\<forall>d \<in> set (tl ds). rp_MaxBackoff retry > 0 \<longrightarrow> d \<le> rp_MaxBackoff retry) \<and>
    attempt_loop (script out ends time) retry scale left backoff cb (i, ws) =
      (call_result retry out ends (Suc k = i + left) k,
       if out k = None then RecordSuccess cb else RecordFailure (time (Suc k)) cb, (Suc k, ws @ ds))"
  using assms
proof (induction left arbitrary: i backoff ws)
  case (Suc left)
  show ?case
  proof (cases "left = 0 \<or> \<not> goes_on retry out ends i")
    case True
    let ?ds = "if out i = None \<or> left = 0 \<or> \<not> retryable retry (the (out i)) then [] else [backoff]"
    have loop: "attempt_loop (script out ends time) retry scale (Suc left) backoff cb (i, ws) =
        (call_result retry out ends (Suc i = i + Suc left) i,
         if out i = None then RecordSuccess cb else RecordFailure (time (Suc i)) cb, (Suc i, ws @ ?ds))"
      using True by (auto simp: script_def call_result_def goes_on_def split: option.splits)
    show ?thesis
      by (rule exI[of _ i], rule exI[of _ ?ds]) (use True loop in auto)
  next
    case False
    then have go: "goes_on retry out ends i" and l: "0 < left" by auto
    from go obtain e where e: "out i = Some e" "retryable retry e" "ends (Suc i) = None"
      by (auto simp: goes_on_def)
    let ?nb = "next_backoff retry scale backoff"
    from Suc.IH[OF l, of "Suc i" ?nb "ws @ [backoff]"] obtain k ds where k:
      "Suc i \<le> k" "k < Suc i + left" "\<forall>j. Suc i \<le> j \<and> j < k \<longrightarrow> goes_on retry out ends j"
      "Suc k = Suc i + left \<or> \<not> goes_on retry out ends k" "length ds \<le> Suc k - Suc i" "ds \<noteq> [] \<longrightarrow> hd ds = ?nb"
      "\<forall>d \<in> set (tl ds). rp_MaxBackoff retry > 0 \<longrightarrow> d \<le> rp_MaxBackoff retry"
      "attempt_loop (script out ends time) retry scale left ?nb cb (Suc i, ws @ [backoff]) =
        (call_result retry out ends (Suc k = Suc i + left) k,
         if out k = None then RecordSuccess cb else RecordFailure (time (Suc k)) cb, (Suc k, (ws @ [backoff]) @ ds))"
      by blast
    have "attempt_loop (script out ends time) retry scale (Suc left) backoff cb (i, ws) =
        attempt_loop (script out ends time) retry scale left ?nb cb (Suc i, ws @ [backoff])"
      using e l by (simp add: script_def)
    moreover have "\<forall>j. i \<le> j \<and> j < k \<longrightarrow> goes_on retry out ends j"
      using k(3) go by (metis le_eq_less_or_eq less_eq_Suc_le)
    moreover have "\<forall>d \<in> set ds. rp_MaxBackoff retry > 0 \<longrightarrow> d \<le> rp_MaxBackoff retry"
      using k(6,7) by (cases ds) (auto simp: next_backoff_def Let_def)
    ultimately show ?thesis
      by (intro exI[of _ k] exI[of _ "backoff # ds"]) (use k in auto)
  qed
qed simp

text \<open>
  C30: one intercepted call. When the breaker refuses, no remote call is made and the answer is
  \<open>Unavailable\<close>. Otherwise between one and \<open>attempts\<close> remote calls are made: the first ones
  failed with a retryable code, the last one succeeded, failed for good, was the last
  allowed, or the context ended in the wait after it. The caller gets its result (or the
  context's error), the breaker records exactly one success or failure, the first wait is
  the initial backoff and no later one exceeds the maximum.
\<close>

theorem intercepted_call:
  "if \<not> fst (cb_Allow (time 0) cb)
   then NewClientInterceptor (script out ends time) retry scale cb (0, []) =
     (Some (ErrStatus Unavailable ''mesh: circuit breaker open''), cb, (0, []))
   else \<exists>k ds. int k < attempts retry \<and> (\<forall>j<k. goes_on retry out ends j) \<and>
     (int (Suc k) = attempts retry \<or> \<not> goes_on retry out ends k) \<and> length ds \<le> Suc k \<and>
     (ds \<noteq> [] \<longrightarrow> hd ds = rp_InitialBackoff retry) \<and>
     (\<forall>d \<in> set (tl ds). rp_MaxBackoff retry > 0 \<longrightarrow> d \<le> rp_MaxBackoff retry) \<and>
     NewClientInterceptor (script out ends time) retry scale cb (0, []) =
       (call_result retry out ends (int (Suc k) = attempts retry) k,
        if out k = None then RecordSuccess (snd (cb_Allow (time 0) cb))
        else RecordFailure (time (Suc k)) (snd (cb_Allow (time 0) cb)), (Suc k, ds))"
proof (cases "fst (cb_Allow (time 0) cb)")
  case False
  then have "cb_Allow (time 0) cb = (False, cb)" by (auto simp: cb_Allow_def split: if_splits)
  then show ?thesis by (simp add: NewClientInterceptor_def script_def)
next
  case True
  then obtain cb' where a: "cb_Allow (time 0) cb = (True, cb')" by (metis prod.collapse)
  have n: "0 < nat (attempts retry)" by (simp add: attempts_def)
  have eq: "NewClientInterceptor (script out ends time) retry scale cb (0, []) =
      attempt_loop (script out ends time) retry scale (nat (attempts retry)) (rp_InitialBackoff retry) cb' (0, [])"
    using a by (simp add: NewClientInterceptor_def script_def)
  have conv: "Suc k = 0 + nat (attempts retry) \<longleftrightarrow> int (Suc k) = attempts retry" for k using n by auto
  from attempt_loop_script[OF n, of 0 retry out ends "rp_InitialBackoff retry" time scale cb' "[]"]
  obtain k ds where k: "k < 0 + nat (attempts retry)" "\<forall>j. 0 \<le> j \<and> j < k \<longrightarrow> goes_on retry out ends j"
    "Suc k = 0 + nat (attempts retry) \<or> \<not> goes_on retry out ends k" "length ds \<le> Suc k - 0"
    "ds \<noteq> [] \<longrightarrow> hd ds = rp_InitialBackoff retry" "\<forall>d \<in> set (tl ds). rp_MaxBackoff retry > 0 \<longrightarrow> d \<le> rp_MaxBackoff retry"
    "attempt_loop (script out ends time) retry scale (nat (attempts retry)) (rp_InitialBackoff retry) cb' (0, []) =
      (call_result retry out ends (Suc k = 0 + nat (attempts retry)) k,
       if out k = None then RecordSuccess cb' else RecordFailure (time (Suc k)) cb', (Suc k, [] @ ds))"
    by blast
  have g: "snd (cb_Allow (time 0) cb) = cb'" using a by simp
  have "int k < attempts retry" "\<forall>j<k. goes_on retry out ends j" using k(1,2) by simp_all
  with k(3-7)[unfolded conv append_Nil minus_nat.diff_0] have "int k < attempts retry \<and> (\<forall>j<k. goes_on retry out ends j) \<and>
     (int (Suc k) = attempts retry \<or> \<not> goes_on retry out ends k) \<and> length ds \<le> Suc k \<and>
     (ds \<noteq> [] \<longrightarrow> hd ds = rp_InitialBackoff retry) \<and>
     (\<forall>d \<in> set (tl ds). rp_MaxBackoff retry > 0 \<longrightarrow> d \<le> rp_MaxBackoff retry) \<and>
     NewClientInterceptor (script out ends time) retry scale cb (0, []) =
       (call_result retry out ends (int (Suc k) = attempts retry) k,
        if out k = None then RecordSuccess cb' else RecordFailure (time (Suc k)) cb', (Suc k, ds))"
    unfolding eq by blast
  then show ?thesis unfolding g using True by (simp only: not_True_eq_False if_False) blast
qed

text \<open>A server that is unavailable once.\<close>

definition ex_out :: "nat \<Rightarrow> error option" where
  "ex_out i = (if i = 0 then Some (ErrStatus Unavailable []) else None)"

theorem intercepted_call_witness:
  "fst (NewClientInterceptor (script ex_out (\<lambda>i. None) int) DefaultRetryPolicy (\<lambda>b. 2 * b) (NewCircuitBreaker 5 1) (0, [])) = None"
proof -
  have allow: "fst (cb_Allow (int 0) (NewCircuitBreaker 5 1))" by (simp add: cb_Allow_def NewCircuitBreaker_def)
  have g: "goes_on DefaultRetryPolicy ex_out (\<lambda>i. None) 0" "\<not> goes_on DefaultRetryPolicy ex_out (\<lambda>i. None) 1"
    by (simp_all add: goes_on_def ex_out_def retryable_def DefaultRetryPolicy_def)
  have n: "attempts DefaultRetryPolicy = 3" by (simp add: attempts_def DefaultRetryPolicy_def)
  obtain k where k: "\<forall>j<k. goes_on DefaultRetryPolicy ex_out (\<lambda>i. None) j"
    "int (Suc k) = 3 \<or> \<not> goes_on DefaultRetryPolicy ex_out (\<lambda>i. None) k"
    "fst (NewClientInterceptor (script ex_out (\<lambda>i. None) int) DefaultRetryPolicy (\<lambda>b. 2 * b) (NewCircuitBreaker 5 1) (0, [])) =
       call_result DefaultRetryPolicy ex_out (\<lambda>i. None) (int (Suc k) = 3) k"
    using intercepted_call[of int "NewCircuitBreaker 5 1" ex_out "\<lambda>i. None" DefaultRetryPolicy "\<lambda>b. 2 * b"] allow
    unfolding n by (simp only: not_True_eq_False if_False) (elim exE conjE, rule that, assumption+, simp only: fst_conv)
  have "\<not> 1 < k" using k(1) g(2) by blast
  moreover have "k \<noteq> 0" using k(2) g(1) by (cases k) auto
  ultimately have "k = 1" by linarith
  with k(3) show ?thesis by (simp add: call_result_def ex_out_def)
qed

end
