(* ===== verification/FinOps.thy ===== *)
theory FinOps
  imports Autoscaler
begin

text \<open>
  \<^verbatim>\<open>internal/finops/cost.go\<close> and \<^verbatim>\<open>internal/apiserver/finops_service.go\<close>: the cost report. The
  floating-point operations are the parameter \<open>F\<close> of the autoscaler's theory;
  over the rationals they are exact. \<open>now\<close> is in
  nanoseconds since the epoch.
\<close>

section \<open>Definitions\<close>

record 'f CostModel =
  cm_CPUCoreHour :: 'f
  cm_MemoryGBHour :: 'f
  cm_AcceleratorHour :: "(string, 'f) gomap"

record 'f Report =
  rep_Total :: 'f
  rep_ByNamespace :: "(string, 'f) gomap"
  rep_ByLabel :: "(string, 'f) gomap"

definition newReport :: "'f float_ops \<Rightarrow> 'f Report" where
  "newReport F = \<lparr>rep_Total = fo_of_int F 0, rep_ByNamespace = [], rep_ByLabel = []\<rparr>"

text \<open>Reading an absent key of a \<open>map[string]float64\<close> gives zero.\<close>

definition fget :: "'f float_ops \<Rightarrow> (string, 'f) gomap \<Rightarrow> string \<Rightarrow> 'f" where
  "fget F m k = (case map_of m k of None \<Rightarrow> fo_of_int F 0 | Some v \<Rightarrow> v)"

definition fadd :: "'f float_ops \<Rightarrow> string \<Rightarrow> 'f \<Rightarrow> (string, 'f) gomap \<Rightarrow> (string, 'f) gomap" where
  "fadd F k x m = AList.update k (fo_add F (fget F m k) x) m"

text \<open>\<open>now.Sub\<close> saturates at the limits of a duration; \<open>Hours\<close> adds whole hours and the rest.\<close>

definition sub_time :: "int \<Rightarrow> int \<Rightarrow> int64" where
  "sub_time a b = max (- 9223372036854775808) (min 9223372036854775807 (a - b))"

definition duration_Hours :: "'f float_ops \<Rightarrow> int64 \<Rightarrow> 'f" where
  "duration_Hours F d = fo_add F (fo_of_int F (d div 3600000000000))
     (fo_div F (fo_of_int F (d mod 3600000000000)) (fo_of_int F 3600000000000))"

text \<open>
  \<open>runningHours\<close> gives \<open>None\<close> where the source returns 0, which \<open>Estimate\<close> skips; a positive
  duration is at least a nanosecond and has positive hours.
\<close>

definition runningHours :: "'f float_ops \<Rightarrow> Pod \<Rightarrow> int \<Rightarrow> 'f option" where
  "runningHours F p now =
     (let createdAt = ObjectMeta_GetCreatedAtUnix (pod_metadata p)
      in if createdAt \<le> 0 then None
         else (let elapsed = sub_time now (createdAt * Second)
               in if elapsed \<le> 0 then None else Some (duration_Hours F elapsed)))"

definition container_cost :: "'f float_ops \<Rightarrow> 'f CostModel \<Rightarrow> 'f \<Rightarrow> 'f \<Rightarrow> Container \<Rightarrow> 'f" where
  "container_cost F model hours podCost c =
     (let req = ctr_requests c;
          podCost = fo_add F podCost (fo_mul F (fo_mul F (fo_div F (fo_of_int F (ResourceList_GetCpuMillis req)) (fo_of_int F 1000))
                      (cm_CPUCoreHour model)) hours);
          podCost = fo_add F podCost (fo_mul F (fo_mul F (fo_div F (fo_of_int F (ResourceList_GetMemoryBytes req)) (fo_of_int F 1073741824))
                      (cm_MemoryGBHour model)) hours)
      in foldl (\<lambda>cost (name, count). fo_add F cost (fo_mul F (fo_mul F (fo_of_int F count)
                  (fget F (cm_AcceleratorHour model) name)) hours)) podCost (ResourceList_GetAccelerators req))"

definition pod_cost :: "'f float_ops \<Rightarrow> 'f CostModel \<Rightarrow> 'f \<Rightarrow> Pod \<Rightarrow> 'f" where
  "pod_cost F model hours p = foldl (container_cost F model hours) (fo_of_int F 0) (pod_containers p)"

definition add_pod :: "'f float_ops \<Rightarrow> string \<Rightarrow> Pod \<Rightarrow> 'f \<Rightarrow> 'f Report \<Rightarrow> 'f Report" where
  "add_pod F labelKey p podCost report =
     (let report = report\<lparr>rep_Total := fo_add F (rep_Total report) podCost,
                         rep_ByNamespace := fadd F (pod_namespace p) podCost (rep_ByNamespace report)\<rparr>
      in if labelKey = [] then report
         else (case map_of (pod_labels p) labelKey of
                 Some v \<Rightarrow> report\<lparr>rep_ByLabel := fadd F v podCost (rep_ByLabel report)\<rparr>
               | None \<Rightarrow> report\<lparr>rep_ByLabel := fadd F ''unlabeled'' podCost (rep_ByLabel report)\<rparr>))"

definition Estimate :: "'f float_ops \<Rightarrow> Pod list \<Rightarrow> 'f CostModel \<Rightarrow> string \<Rightarrow> int \<Rightarrow> 'f Report" where
  "Estimate F pods model labelKey now =
     foldl (\<lambda>report p. case runningHours F p now of
        None \<Rightarrow> report
      | Some hours \<Rightarrow> add_pod F labelKey p (pod_cost F model hours p) report) (newReport F) pods"

definition GetCostReport :: "'f float_ops \<Rightarrow> ('s, 'b, Pod) Registry \<Rightarrow> 'f CostModel \<Rightarrow> string \<Rightarrow> string \<Rightarrow> int \<Rightarrow> ('s, 'f Report) action" where
  "GetCostReport F pods model namespace labelKey now =
     bindA (statusA Internal ''list pods'' (readA (reg_List pods namespace)))
       (\<lambda>ps. ret (Estimate F ps model labelKey now))"

section \<open>The report\<close>

text \<open>The exact cost of a pod: its requests, priced by the hour, times the hours since its creation.\<close>

definition exact_hours :: "Pod \<Rightarrow> int \<Rightarrow> rat" where
  "exact_hours p now =
     (let createdAt = ObjectMeta_GetCreatedAtUnix (pod_metadata p)
      in if createdAt \<le> 0 then 0 else of_int (max 0 (sub_time now (createdAt * Second))) / 3600000000000)"

definition container_rate :: "rat CostModel \<Rightarrow> Container \<Rightarrow> rat" where
  "container_rate model c =
     of_int (ResourceList_GetCpuMillis (ctr_requests c)) / 1000 * cm_CPUCoreHour model +
     of_int (ResourceList_GetMemoryBytes (ctr_requests c)) / 1073741824 * cm_MemoryGBHour model +
     (\<Sum>(name, count) \<leftarrow> ResourceList_GetAccelerators (ctr_requests c). of_int count * fget rat_ops (cm_AcceleratorHour model) name)"

definition charge :: "rat CostModel \<Rightarrow> int \<Rightarrow> Pod \<Rightarrow> rat" where
  "charge model now p = (\<Sum>c \<leftarrow> pod_containers p. container_rate model c) * exact_hours p now"

definition label_of :: "string \<Rightarrow> Pod \<Rightarrow> string" where
  "label_of labelKey p = (case map_of (pod_labels p) labelKey of Some v \<Rightarrow> v | None \<Rightarrow> ''unlabeled'')"

lemma rat_ops_simps [simp]:
  "fo_of_int rat_ops = of_int" "fo_add rat_ops = (+)" "fo_mul rat_ops = (*)" "fo_div rat_ops = (/)"
  by (simp_all add: rat_ops_def)

lemma fget_fadd [simp]: "fget rat_ops (fadd rat_ops k x m) k' = fget rat_ops m k' + (if k' = k then x else 0)"
  by (simp add: fget_def fadd_def)

lemma duration_Hours_rat: "duration_Hours rat_ops d = of_int d / 3600000000000"
proof -
  have "d = d div 3600000000000 * 3600000000000 + d mod 3600000000000" by simp
  then have "(of_int d :: rat) = of_int (d div 3600000000000) * 3600000000000 + of_int (d mod 3600000000000)"
    by (metis of_int_add of_int_mult of_int_numeral)
  then show ?thesis by (simp add: duration_Hours_def field_simps)
qed

lemma acc_fold: "foldl (\<lambda>cost (name, count). cost + of_int count * g name * h) x acc =
    x + (\<Sum>(name, count) \<leftarrow> acc. of_int count * g name) * (h :: rat)"
  by (induction acc arbitrary: x) (auto simp: algebra_simps)

lemma container_cost_rat: "container_cost rat_ops model h x c = x + container_rate model c * h"
  unfolding container_cost_def container_rate_def Let_def rat_ops_simps acc_fold by (simp add: algebra_simps)

lemma pod_cost_rat: "pod_cost rat_ops model h p = (\<Sum>c \<leftarrow> pod_containers p. container_rate model c) * h"
proof -
  have "foldl (container_cost rat_ops model h) x cs = x + (\<Sum>c \<leftarrow> cs. container_rate model c) * h" for x cs
    by (induction cs arbitrary: x) (auto simp: container_cost_rat algebra_simps)
  then show ?thesis by (simp add: pod_cost_def)
qed

lemma charge_cases:
  "charge model now p = (case runningHours rat_ops p now of None \<Rightarrow> 0 | Some h \<Rightarrow> pod_cost rat_ops model h p)"
  by (auto simp: charge_def exact_hours_def runningHours_def Let_def pod_cost_rat duration_Hours_rat max_def)

text \<open>One pod, in the three accounts of the report.\<close>

lemma report_step:
  fixes r :: "rat Report" and p :: Pod and now :: int and model :: "rat CostModel" and labelKey :: string
  defines "r' \<equiv> (case runningHours rat_ops p now of None \<Rightarrow> r
      | Some h \<Rightarrow> add_pod rat_ops labelKey p (pod_cost rat_ops model h p) r)"
  shows "rep_Total r' = rep_Total r + charge model now p"
    "fget rat_ops (rep_ByNamespace r') ns = fget rat_ops (rep_ByNamespace r) ns + (if ns = pod_namespace p then charge model now p else 0)"
    "labelKey \<noteq> [] \<Longrightarrow> fget rat_ops (rep_ByLabel r') v =
       fget rat_ops (rep_ByLabel r) v + (if v = label_of labelKey p then charge model now p else 0)"
  unfolding r'_def charge_cases by (auto simp: add_pod_def Let_def label_of_def split: option.splits)

lemma report_fold:
  "let r' = foldl (\<lambda>r p. case runningHours rat_ops p now of None \<Rightarrow> r
      | Some h \<Rightarrow> add_pod rat_ops labelKey p (pod_cost rat_ops model h p) r) r pods
   in rep_Total r' = rep_Total r + (\<Sum>p \<leftarrow> pods. charge model now p) \<and>
      fget rat_ops (rep_ByNamespace r') ns = fget rat_ops (rep_ByNamespace r) ns +
        (\<Sum>p \<leftarrow> filter (\<lambda>p. pod_namespace p = ns) pods. charge model now p) \<and>
      (labelKey \<noteq> [] \<longrightarrow> fget rat_ops (rep_ByLabel r') v = fget rat_ops (rep_ByLabel r) v +
        (\<Sum>p \<leftarrow> filter (\<lambda>p. label_of labelKey p = v) pods. charge model now p))"
proof (induction pods arbitrary: r)
  case (Cons p pods)
  show ?case
    using Cons.IH[of "case runningHours rat_ops p now of None \<Rightarrow> r
        | Some h \<Rightarrow> add_pod rat_ops labelKey p (pod_cost rat_ops model h p) r"]
    by (auto simp: Let_def report_step)
qed simp

text \<open>
  C39: in exact arithmetic the report is the bill. The total is the sum of the pods' charges
  (requested CPU, memory and accelerators priced by the hour, times the hours since
  creation), each namespace's entry is the sum over its pods, and with a label key each
  label value's entry is the sum over the pods with that value, pods without the label
  under \<open>unlabeled\<close>.
\<close>

theorem report_is_bill:
  "rep_Total (Estimate rat_ops pods model labelKey now) = (\<Sum>p \<leftarrow> pods. charge model now p) \<and>
   (\<forall>ns. fget rat_ops (rep_ByNamespace (Estimate rat_ops pods model labelKey now)) ns =
      (\<Sum>p \<leftarrow> filter (\<lambda>p. pod_namespace p = ns) pods. charge model now p)) \<and>
   (labelKey \<noteq> [] \<longrightarrow> (\<forall>v. fget rat_ops (rep_ByLabel (Estimate rat_ops pods model labelKey now)) v =
      (\<Sum>p \<leftarrow> filter (\<lambda>p. label_of labelKey p = v) pods. charge model now p)))"
  using report_fold[where now = now and labelKey = labelKey and model = model and r = "newReport rat_ops" and pods = pods]
  by (simp add: Estimate_def newReport_def Let_def fget_def)

definition ex_billed :: Pod where
  "ex_billed = (ex_pod_obj ''a'' ''n1'' [])\<lparr>pod_metadata := Some (zero_ObjectMeta\<lparr>meta_name := ''a'', meta_namespace := ''default'',
     meta_created_at_unix := 3600\<rparr>)\<rparr>"

text \<open>Half a core for two hours at 4 per core and hour.\<close>

theorem report_is_bill_witness:
  "rep_Total (Estimate rat_ops [ex_billed] \<lparr>cm_CPUCoreHour = 4, cm_MemoryGBHour = 0, cm_AcceleratorHour = []\<rparr> ''team'' (10800 * Second)) = 4 \<and>
   fget rat_ops (rep_ByLabel (Estimate rat_ops [ex_billed] \<lparr>cm_CPUCoreHour = 4, cm_MemoryGBHour = 0, cm_AcceleratorHour = []\<rparr>
      ''team'' (10800 * Second))) ''unlabeled'' = 4"
  using report_is_bill[of "[ex_billed]" "\<lparr>cm_CPUCoreHour = 4, cm_MemoryGBHour = 0, cm_AcceleratorHour = []\<rparr>" "''team''" "10800 * Second"]
  by (simp add: charge_def container_rate_def exact_hours_def sub_time_def ex_billed_def ex_object_defs label_of_def Second_def)

text \<open>
  The pods the deployment controller creates cost nothing. Their creation time is never
  set (by nothing in the sources), so they are skipped, whatever the prices and however the
  arithmetic rounds: a report over such pods is empty.
\<close>

theorem controller_pods_cost_nothing:
  "Estimate F (map (\<lambda>(d, i). newPod d i) created) model labelKey now = newReport F"
proof -
  have "runningHours F (newPod d i) now = None" for d i
    by (simp add: runningHours_def newPod_def zero_messages Let_def)
  then show ?thesis unfolding Estimate_def by (induction created) auto
qed

end
