(* ===== verification/Federation.thy ===== *)
theory Federation
  imports Api
begin

text \<open>
  \<^verbatim>\<open>internal/federation/registry.go\<close> and \<^verbatim>\<open>internal/apiserver/federation_service.go\<close>: the registry
  of connections to other clusters and the service that keeps it. A connection is a value
  of type \<open>'c\<close>; the state records which ones have been closed. Enrolment with the remote
  cluster and dialling are outside, their results are arguments. \<open>RegisterCluster\<close> releases
  the service's mutex before it tells the registry, so its two writes are separate
  definitions and another call can come in between.
\<close>

section \<open>Definitions\<close>

record RemoteCluster =
  rc_name :: string
  rc_api_addr :: string

record 'c federation_state =
  fs_registry :: "(string, 'c) gomap"
  fs_clusters :: "(string, RemoteCluster) gomap"
  fs_conns :: "(string, 'c) gomap"
  fs_closed :: "'c list"

definition NewFederationService :: "'c federation_state" where
  "NewFederationService = \<lparr>fs_registry = [], fs_clusters = [], fs_conns = [], fs_closed = []\<rparr>"

definition reg_Register :: "string \<Rightarrow> 'c \<Rightarrow> 'c federation_state \<Rightarrow> 'c federation_state" where
  "reg_Register name conn s = s\<lparr>fs_registry := AList.update name conn (fs_registry s)\<rparr>"

definition reg_Unregister :: "string \<Rightarrow> 'c federation_state \<Rightarrow> 'c federation_state" where
  "reg_Unregister name s = s\<lparr>fs_registry := AList.delete name (fs_registry s)\<rparr>"

definition reg_Clusters :: "'c federation_state \<Rightarrow> string list" where
  "reg_Clusters s = map fst (fs_registry s)"

text \<open>Closing a connection that is still held under the name.\<close>

definition close_old :: "string \<Rightarrow> 'c federation_state \<Rightarrow> 'c federation_state" where
  "close_old name s = (case map_of (fs_conns s) name of None \<Rightarrow> s | Some old \<Rightarrow> s\<lparr>fs_closed := old # fs_closed s\<rparr>)"

text \<open>The section of \<open>RegisterCluster\<close> under the mutex.\<close>

definition commit_cluster :: "string \<Rightarrow> string \<Rightarrow> 'c \<Rightarrow> 'c federation_state \<Rightarrow> 'c federation_state" where
  "commit_cluster name addr conn s =
     (let s = close_old name s
      in s\<lparr>fs_clusters := AList.update name \<lparr>rc_name = name, rc_api_addr = addr\<rparr> (fs_clusters s),
           fs_conns := AList.update name conn (fs_conns s)\<rparr>)"

definition RegisterCluster :: "string \<Rightarrow> string \<Rightarrow> string \<Rightarrow> unit res \<Rightarrow> unit res \<Rightarrow> 'c res \<Rightarrow> ('c federation_state, RemoteCluster) action" where
  "RegisterCluster name apiAddr joinToken enrolled selfID dialled =
     (if name = [] \<or> apiAddr = [] \<or> joinToken = []
      then throw (ErrStatus InvalidArgument ''name, api_addr, and join_token are required'')
      else case enrolled of
        Inl e \<Rightarrow> throw (ErrStatus PermissionDenied ''enroll with remote cluster'')
      | Inr _ \<Rightarrow>
          (case selfID of
             Inl e \<Rightarrow> throw (ErrStatus Internal ''read enrolled identity'')
           | Inr _ \<Rightarrow>
               (case dialled of
                  Inl e \<Rightarrow> throw (ErrStatus Internal ''dial remote cluster'')
                | Inr conn \<Rightarrow>
                    (\<lambda>s. (Inr \<lparr>rc_name = name, rc_api_addr = apiAddr\<rparr>,
                          reg_Register name conn (commit_cluster name apiAddr conn s))))))"

text \<open>The section of \<open>UnregisterCluster\<close> under the mutex.\<close>

definition drop_cluster :: "string \<Rightarrow> 'c federation_state \<Rightarrow> 'c federation_state" where
  "drop_cluster name s =
     (let s = close_old name s
      in s\<lparr>fs_clusters := AList.delete name (fs_clusters s), fs_conns := AList.delete name (fs_conns s)\<rparr>)"

definition UnregisterCluster :: "string \<Rightarrow> ('c federation_state, unit) action" where
  "UnregisterCluster name s = (Inr (), drop_cluster name (reg_Unregister name s))"

definition ListClusters :: "'c federation_state \<Rightarrow> RemoteCluster list" where
  "ListClusters s = map snd (fs_clusters s)"

record ClusterPods =
  cp_Cluster :: string
  cp_Items :: "Pod list"
  cp_Err :: "error option"

text \<open>\<open>ListPods\<close> is the remote call on a connection; each cluster has its own goroutine and its own slot.\<close>

definition ListPodsAll :: "('c \<Rightarrow> string \<Rightarrow> Pod list res) \<Rightarrow> string \<Rightarrow> 'c federation_state \<Rightarrow> ClusterPods list" where
  "ListPodsAll ListPods namespace s =
     map (\<lambda>(name, conn). case ListPods conn namespace of
            Inl err \<Rightarrow> \<lparr>cp_Cluster = name, cp_Items = [], cp_Err = Some err\<rparr>
          | Inr items \<Rightarrow> \<lparr>cp_Cluster = name, cp_Items = items, cp_Err = None\<rparr>) (maps_Copy [] (fs_registry s))"

record FederatedPods =
  fp_cluster :: string
  fp_items :: "Pod list"
  fp_error :: string

text \<open>\<open>err.Error()\<close> is the parameter \<open>Error\<close>.\<close>

definition ListFederatedPods :: "(error \<Rightarrow> string) \<Rightarrow> ('c \<Rightarrow> string \<Rightarrow> Pod list res) \<Rightarrow> string \<Rightarrow> 'c federation_state \<Rightarrow> FederatedPods list" where
  "ListFederatedPods Error ListPods namespace s =
     map (\<lambda>r. \<lparr>fp_cluster = cp_Cluster r, fp_items = cp_Items r,
               fp_error = (case cp_Err r of None \<Rightarrow> [] | Some e \<Rightarrow> Error e)\<rparr>) (ListPodsAll ListPods namespace s)"

section \<open>Calls one after the other\<close>

text \<open>A dialled connection is a new one.\<close>

inductive fed_step :: "'c federation_state \<Rightarrow> 'c federation_state \<Rightarrow> bool" where
  fed_register: "(\<And>conn. dialled = Inr conn \<Longrightarrow> conn \<notin> set (fs_closed s) \<and> conn \<notin> snd ` set (fs_conns s)) \<Longrightarrow>
    fed_step s (snd (RegisterCluster name addr token enrolled selfID dialled s))"
| fed_unregister: "fed_step s (snd (UnregisterCluster name s))"

text \<open>Registry and service agree, each cluster has its own open connection.\<close>

definition fed_ok :: "'c federation_state \<Rightarrow> bool" where
  "fed_ok s \<longleftrightarrow> distinct (map fst (fs_registry s)) \<and> distinct (map fst (fs_conns s)) \<and>
     map_of (fs_registry s) = map_of (fs_conns s) \<and> dom (map_of (fs_clusters s)) = dom (map_of (fs_conns s)) \<and>
     (\<forall>n c. map_of (fs_conns s) n = Some c \<longrightarrow> c \<notin> set (fs_closed s)) \<and>
     (\<forall>n m c. map_of (fs_conns s) n = Some c \<longrightarrow> map_of (fs_conns s) m = Some c \<longrightarrow> n = m)"

lemma fed_ok_register:
  assumes "fed_ok s" "conn \<notin> set (fs_closed s)" "conn \<notin> snd ` set (fs_conns s)"
  shows "fed_ok (reg_Register name conn (commit_cluster name addr conn s))"
proof -
  have fresh: "map_of (fs_conns s) n \<noteq> Some conn" for n
    using assms(3) by (metis (no_types) map_of_SomeD image_eqI snd_conv)
  from assms fresh show ?thesis
    by (auto simp: fed_ok_def reg_Register_def commit_cluster_def close_old_def Let_def split: option.splits)
qed

lemma fed_ok_unregister:
  assumes "fed_ok s"
  shows "fed_ok (drop_cluster name (reg_Unregister name s))"
  using assms
  by (auto simp: fed_ok_def reg_Unregister_def drop_cluster_def close_old_def Let_def distinct_delete split: option.splits if_splits)

lemma fed_step_ok: "fed_step s s' \<Longrightarrow> fed_ok s \<Longrightarrow> fed_ok s'"
proof (induction rule: fed_step.induct)
  case (fed_register dialled s name addr token enrolled selfID)
  then show ?case
    by (auto simp: RegisterCluster_def throw_def fed_ok_register split: sum.splits)
qed (simp add: UnregisterCluster_def fed_ok_unregister)

lemma fed_ok_new: "fed_ok NewFederationService"
  by (simp add: fed_ok_def NewFederationService_def)

lemma fed_reachable: "fed_step\<^sup>*\<^sup>* NewFederationService s \<Longrightarrow> fed_ok s"
  by (induction rule: rtranclp_induct) (auto intro: fed_step_ok fed_ok_new)

lemma maps_Copy_empty: "distinct (map fst m) \<Longrightarrow> map_of (maps_Copy [] m) = map_of m"
  by (simp add: map_of_maps_Copy map_of_rev_distinct)

lemma distinct_maps_Copy: "distinct (map fst dst) \<Longrightarrow> distinct (map fst (maps_Copy dst src))"
  unfolding maps_Copy_def by (induction src arbitrary: dst) (auto simp: AList.distinct_update)

text \<open>
  C38: with calls that run one after the other, registry and service agree: a federated
  listing asks exactly the clusters \<open>ListClusters\<close> knows, each once, over a connection that
  has not been closed, and reports for each its pods or its error.
\<close>

theorem federated_listing_complete:
  assumes "fed_step\<^sup>*\<^sup>* NewFederationService s"
  shows "distinct (map fp_cluster (ListFederatedPods Error ListPods ns s)) \<and>
    set (map fp_cluster (ListFederatedPods Error ListPods ns s)) = dom (map_of (fs_clusters s)) \<and>
    (\<forall>r \<in> set (ListFederatedPods Error ListPods ns s). \<exists>conn. map_of (fs_conns s) (fp_cluster r) = Some conn \<and>
       conn \<notin> set (fs_closed s) \<and>
       (case ListPods conn ns of Inr items \<Rightarrow> fp_items r = items \<and> fp_error r = []
        | Inl e \<Rightarrow> fp_items r = [] \<and> fp_error r = Error e))"
proof -
  from fed_reachable[OF assms] have ok: "fed_ok s" .
  let ?m = "maps_Copy [] (fs_registry s)"
  have d: "distinct (map fst ?m)" by (rule distinct_maps_Copy) simp
  from ok have m: "map_of ?m = map_of (fs_conns s)" by (simp add: fed_ok_def maps_Copy_empty)
  have names: "map fp_cluster (ListFederatedPods Error ListPods ns s) = map fst ?m"
    by (auto simp: ListFederatedPods_def ListPodsAll_def split: sum.splits)
  have "fst ` set ?m = dom (map_of (fs_clusters s))"
    using ok m by (metis dom_map_of_conv_image_fst fed_ok_def)
  moreover have "\<exists>conn. map_of (fs_conns s) (fp_cluster r) = Some conn \<and> conn \<notin> set (fs_closed s) \<and>
       (case ListPods conn ns of Inr items \<Rightarrow> fp_items r = items \<and> fp_error r = []
        | Inl e \<Rightarrow> fp_items r = [] \<and> fp_error r = Error e)" if r: "r \<in> set (ListFederatedPods Error ListPods ns s)" for r
  proof -
    from r obtain n c where nc: "(n, c) \<in> set ?m" and req: "r = (case ListPods c ns of
        Inl e \<Rightarrow> \<lparr>fp_cluster = n, fp_items = [], fp_error = Error e\<rparr>
      | Inr items \<Rightarrow> \<lparr>fp_cluster = n, fp_items = items, fp_error = []\<rparr>)"
      by (force simp: ListFederatedPods_def ListPodsAll_def split: sum.splits)
    from nc d have "map_of (fs_conns s) n = Some c" using m by (metis map_of_is_SomeI)
    with ok req show ?thesis by (auto simp: fed_ok_def split: sum.splits)
  qed
  ultimately show ?thesis unfolding names using d by auto
qed

definition ex_federation :: "nat federation_state" where
  "ex_federation = snd (RegisterCluster ''eu'' ''a:1'' ''t'' (Inr ()) (Inr ()) (Inr 1) NewFederationService)"

theorem federated_listing_complete_witness:
  "set (map fp_cluster (ListFederatedPods (\<lambda>e. ''err'') (\<lambda>c ns. Inr []) ''default'' ex_federation)) = {''eu''}"
proof -
  have "fed_step\<^sup>*\<^sup>* NewFederationService ex_federation"
    unfolding ex_federation_def
    by (rule r_into_rtranclp, rule fed_register) (simp add: NewFederationService_def)
  moreover have "dom (map_of (fs_clusters ex_federation)) = {''eu''}"
    by (simp add: ex_federation_def RegisterCluster_def reg_Register_def commit_cluster_def close_old_def NewFederationService_def)
  ultimately show ?thesis
    using federated_listing_complete[of ex_federation "\<lambda>e. ''err''" "\<lambda>c ns. Inr []" "''default''"] by simp
qed

text \<open>
  Two overlapping \<open>RegisterCluster\<close> calls for one name can leave a closed connection in the
  registry. The second call's section under the mutex closes the first call's connection;
  when the first call then publishes it, the registry lists pods over a closed connection
  although the service holds the open one.
\<close>

theorem concurrent_register_publishes_closed:
  "\<exists>s :: nat federation_state.
     s = reg_Register ''eu'' 1 (reg_Register ''eu'' 2 (commit_cluster ''eu'' ''a:1'' 2
           (commit_cluster ''eu'' ''a:1'' 1 NewFederationService))) \<and>
     map_of (fs_registry s) ''eu'' = Some 1 \<and> 1 \<in> set (fs_closed s) \<and> map_of (fs_conns s) ''eu'' = Some 2"
  by (simp add: reg_Register_def commit_cluster_def close_old_def NewFederationService_def)

end
