(* ===== verification/Identity.thy ===== *)
theory Identity
  imports Rbac
begin

text \<open>
  Workload identities: the certificate authority of \<^verbatim>\<open>internal/identity/ca.go\<close> and the identity
  service of \<^verbatim>\<open>internal/apiserver/identity_service.go\<close>, the one service that is open to callers
  without a certificate. X.509 and the SPIFFE library are the parameter \<open>X\<close>: a certificate
  is seen through its URIs and its validity. Times are nanoseconds since the epoch.
\<close>

section \<open>Definitions\<close>

definition DefaultSVIDTTL :: int where "DefaultSVIDTTL = 3600 * Second"

text \<open>The fields of the certificate template that \<open>IssueSVID\<close> fills in; \<open>'pub\<close> is the subject's key.\<close>

record 'pub cert_template =
  tmpl_SerialNumber :: int
  tmpl_CommonName :: string
  tmpl_URIs :: "string list"
  tmpl_NotBefore :: int
  tmpl_NotAfter :: int
  tmpl_pub :: 'pub

record ('csr, 'pub, 'cert) x509_env =
  ParseCertificateRequest :: "bytes \<Rightarrow> 'csr res"
  CheckSignature :: "'csr \<Rightarrow> error option"
  ecdsa_PublicKey :: "'csr \<Rightarrow> 'pub option"
  CreateCertificate :: "'pub cert_template \<Rightarrow> bytes res"
  ParseCertificate :: "bytes \<Rightarrow> 'cert res"
  cert_Raw :: "'cert \<Rightarrow> bytes"
  spiffe_FromPath :: "string \<Rightarrow> string \<Rightarrow> spiffe_ID res"
  spiffe_String :: "spiffe_ID \<Rightarrow> string"

record 'cert CA =
  ca_trustDomain :: string
  ca_cert :: 'cert

text \<open>\<open>serial\<close> is the result of \<open>randSerial\<close>.\<close>

definition IssueSVID :: "('csr, 'pub, 'cert) x509_env \<Rightarrow> 'cert CA \<Rightarrow> int \<Rightarrow> int res \<Rightarrow> 'pub \<Rightarrow> spiffe_ID \<Rightarrow> int64 \<Rightarrow> 'cert res" where
  "IssueSVID X ca now serial pub ident ttl =
     (if id_TrustDomain ident \<noteq> ca_trustDomain ca then Inl (ErrText ''identity: not a member of trust domain'')
      else (let ttl = (if ttl \<le> 0 then DefaultSVIDTTL else ttl)
            in case serial of
                 Inl e \<Rightarrow> Inl e
               | Inr n \<Rightarrow>
                   (case CreateCertificate X \<lparr>tmpl_SerialNumber = n, tmpl_CommonName = spiffe_String X ident,
                           tmpl_URIs = [spiffe_String X ident], tmpl_NotBefore = now - 60 * Second,
                           tmpl_NotAfter = now + ttl, tmpl_pub = pub\<rparr> of
                      Inl e \<Rightarrow> Inl (ErrWrap ''identity: issue SVID'' e)
                    | Inr der \<Rightarrow> ParseCertificate X der)))"

datatype SVIDRole = SVID_ROLE_UNSPECIFIED | SVID_ROLE_NODE | SVID_ROLE_CONTROL_PLANE | SVID_ROLE_CLIENT

record 'cert identityService =
  is_ca :: "'cert CA"
  is_joinToken :: string
  is_svidTTL :: int64
  is_dataEncryptionKey :: bytes

record RequestSVIDRequest =
  rsr_join_token :: string
  rsr_node_name :: string
  rsr_csr_der :: bytes
  rsr_role :: SVIDRole

record RequestSVIDResponse =
  rsp_cert_der :: bytes
  rsp_trust_bundle_der :: bytes
  rsp_data_encryption_key :: bytes

fun role_path :: "SVIDRole \<Rightarrow> string \<Rightarrow> string option" where
  "role_path SVID_ROLE_NODE name = Some (''/node/'' @ name)"
| "role_path SVID_ROLE_CONTROL_PLANE name = Some (''/control-plane/'' @ name)"
| "role_path SVID_ROLE_CLIENT name = Some (''/client/'' @ name)"
| "role_path SVID_ROLE_UNSPECIFIED name = None"

definition RequestSVID :: "('csr, 'pub, 'cert) x509_env \<Rightarrow> 'cert identityService \<Rightarrow> int \<Rightarrow> int res \<Rightarrow> RequestSVIDRequest \<Rightarrow>
    RequestSVIDResponse res" where
  "RequestSVID X svc now serial req =
     (if rsr_join_token req \<noteq> is_joinToken svc then Inl (ErrStatus PermissionDenied ''invalid join token'')
      else if rsr_node_name req = [] then Inl (ErrStatus InvalidArgument ''node_name is required'')
      else case ParseCertificateRequest X (rsr_csr_der req) of
        Inl e \<Rightarrow> Inl (ErrStatus InvalidArgument ''parse CSR'')
      | Inr csr \<Rightarrow>
          (case CheckSignature X csr of
             Some e \<Rightarrow> Inl (ErrStatus InvalidArgument ''CSR signature invalid'')
           | None \<Rightarrow>
          (case ecdsa_PublicKey X csr of
             None \<Rightarrow> Inl (ErrStatus InvalidArgument ''CSR must use an ECDSA public key'')
           | Some pub \<Rightarrow>
          (case role_path (rsr_role req) (rsr_node_name req) of
             None \<Rightarrow> Inl (ErrStatus InvalidArgument
                       ''role must be SVID_ROLE_NODE, SVID_ROLE_CONTROL_PLANE, or SVID_ROLE_CLIENT'')
           | Some idPath \<Rightarrow>
          (case spiffe_FromPath X (ca_trustDomain (is_ca svc)) idPath of
             Inl e \<Rightarrow> Inl (ErrStatus Internal ''build SPIFFE ID'')
           | Inr ident \<Rightarrow>
          (case IssueSVID X (is_ca svc) now serial pub ident (is_svidTTL svc) of
             Inl e \<Rightarrow> Inl (ErrStatus Internal ''issue SVID'')
           | Inr cert \<Rightarrow>
               Inr \<lparr>rsp_cert_der = cert_Raw X cert, rsp_trust_bundle_der = cert_Raw X (ca_cert (is_ca svc)),
                    rsp_data_encryption_key =
                      (if rsr_role req = SVID_ROLE_CONTROL_PLANE then is_dataEncryptionKey svc else [])\<rparr>))))))"

section \<open>What an enrolment gives\<close>

text \<open>
  The documented behaviour of the libraries: a certificate parsed from what
  \<open>CreateCertificate\<close> made of a template carries the template's URIs and validity, and
  \<open>FromPath\<close> gives an identity with that trust domain and path.
\<close>

definition x509_laws :: "('csr, 'pub, 'cert) x509_env \<Rightarrow> ('cert \<Rightarrow> string list) \<Rightarrow> ('cert \<Rightarrow> int) \<Rightarrow> bool" where
  "x509_laws X uris valid_until \<longleftrightarrow>
     (\<forall>t der c. CreateCertificate X t = Inr der \<longrightarrow> ParseCertificate X der = Inr c \<longrightarrow>
        uris c = tmpl_URIs t \<and> valid_until c = tmpl_NotAfter t) \<and>
     (\<forall>td path ident. spiffe_FromPath X td path = Inr ident \<longrightarrow> id_TrustDomain ident = td \<and> id_Path ident = path)"

lemma parse_created:
  assumes "x509_laws X uris valid_until" "CreateCertificate X t = Inr der" "ParseCertificate X der = Inr c"
  shows "uris c = tmpl_URIs t \<and> valid_until c = tmpl_NotAfter t"
  using assms unfolding x509_laws_def by blast

lemma from_path:
  assumes "x509_laws X uris valid_until" "spiffe_FromPath X td path = Inr ident"
  shows "id_TrustDomain ident = td \<and> id_Path ident = path"
  using assms unfolding x509_laws_def by blast

lemma issue_ok:
  assumes "x509_laws X uris valid_until" "IssueSVID X ca now serial pub ident ttl = Inr c"
  shows "id_TrustDomain ident = ca_trustDomain ca \<and> uris c = [spiffe_String X ident] \<and>
    valid_until c = now + (if ttl \<le> 0 then DefaultSVIDTTL else ttl)"
  using assms(2) by (auto simp: IssueSVID_def Let_def dest!: parse_created[OF assms(1)] split: if_splits sum.splits)

lemma request_ok:
  assumes "x509_laws X uris valid_until" "RequestSVID X svc now serial req = Inr resp"
  obtains path ident c where "rsr_join_token req = is_joinToken svc"
    "role_path (rsr_role req) (rsr_node_name req) = Some path" "id_Path ident = path"
    "id_TrustDomain ident = ca_trustDomain (is_ca svc)" "rsp_cert_der resp = cert_Raw X c"
    "uris c = [spiffe_String X ident]"
    "valid_until c = now + (if is_svidTTL svc \<le> 0 then DefaultSVIDTTL else is_svidTTL svc)"
    "rsp_data_encryption_key resp =
       (if rsr_role req = SVID_ROLE_CONTROL_PLANE then is_dataEncryptionKey svc else [])"
  using assms(2) unfolding RequestSVID_def
  by (auto dest!: issue_ok[OF assms(1)] dest: from_path[OF assms(1)] split: if_splits sum.splits option.splits)

text \<open>
  Enrolment needs the join token, and the certificate says what role was asked for. When
  \<open>RequestSVID\<close> succeeds, the token was right, the certificate carries exactly one URI, whose
  identity has the CA's trust domain and the path of the requested role and name, and it
  is valid for the configured time from now; the cluster's data-encryption key is in the
  answer for the control-plane role only.
\<close>

theorem enrolment_exact:
  assumes "x509_laws X uris valid_until" "RequestSVID X svc now serial req = Inr resp"
  shows "rsr_join_token req = is_joinToken svc \<and>
    (\<exists>c ident. rsp_cert_der resp = cert_Raw X c \<and> uris c = [spiffe_String X ident] \<and>
       id_TrustDomain ident = ca_trustDomain (is_ca svc) \<and>
       role_path (rsr_role req) (rsr_node_name req) = Some (id_Path ident) \<and>
       valid_until c = now + (if is_svidTTL svc \<le> 0 then DefaultSVIDTTL else is_svidTTL svc)) \<and>
    (rsr_role req \<noteq> SVID_ROLE_CONTROL_PLANE \<longrightarrow> rsp_data_encryption_key resp = [])"
  by (rule request_ok[OF assms], intro conjI exI impI) (assumption | simp)+

text \<open>A library whose certificates are the fields of the template, for templates with one URI.\<close>

definition ex_x509 :: "(bytes, bytes, string \<times> int) x509_env" where
  "ex_x509 = \<lparr>ParseCertificateRequest = Inr, CheckSignature = (\<lambda>_. None), ecdsa_PublicKey = Some,
     CreateCertificate = (\<lambda>t. case tmpl_URIs t of [u] \<Rightarrow> if tmpl_NotAfter t = 3600000000000 then Inr u else Inl (ErrText [])
       | _ \<Rightarrow> Inl (ErrText [])),
     ParseCertificate = (\<lambda>der. Inr (der, 3600000000000)), cert_Raw = fst,
     spiffe_FromPath = (\<lambda>td path. Inr \<lparr>id_TrustDomain = td, id_Path = path\<rparr>),
     spiffe_String = (\<lambda>i. ''spiffe://'' @ id_TrustDomain i @ id_Path i)\<rparr>"

lemma ex_x509_laws: "x509_laws ex_x509 (\<lambda>c. [fst c]) snd"
  by (auto simp: x509_laws_def ex_x509_def split: list.splits if_splits)

definition ex_identity :: "(string \<times> int) identityService" where
  "ex_identity = \<lparr>is_ca = \<lparr>ca_trustDomain = ''nimbus'', ca_cert = (''ca'', 0)\<rparr>, is_joinToken = ''t'', is_svidTTL = 0,
     is_dataEncryptionKey = ''key''\<rparr>"

definition ex_enrol :: RequestSVIDRequest where
  "ex_enrol = \<lparr>rsr_join_token = ''t'', rsr_node_name = ''w1'', rsr_csr_der = ''csr'', rsr_role = SVID_ROLE_NODE\<rparr>"

definition ex_response :: RequestSVIDResponse where
  "ex_response = \<lparr>rsp_cert_der = ''spiffe://nimbus/node/w1'', rsp_trust_bundle_der = ''ca'', rsp_data_encryption_key = []\<rparr>"

lemma ex_enrolled: "RequestSVID ex_x509 ex_identity 0 (Inr 1) ex_enrol = Inr ex_response"
  by code_simp

theorem enrolment_exact_witness:
  "rsp_data_encryption_key ex_response = [] \<and>
   (\<exists>ident. rsp_cert_der ex_response = spiffe_String ex_x509 ident \<and> id_Path ident = ''/node/w1'')"
proof -
  have raw: "cert_Raw ex_x509 = fst" by (simp add: ex_x509_def)
  from enrolment_exact[OF ex_x509_laws ex_enrolled] show ?thesis
    unfolding raw by (auto simp: ex_enrol_def)
qed

section \<open>From enrolment to authorization\<close>

lemma node_call:
  assumes "PeerSPIFFEID FromURI ctx = Inr ident" "trust ident = None" "id_Path ident = ''/node/'' @ name"
  shows "if m \<in> set (unauthenticatedMethods @ node_methods)
    then AuthInterceptor FromURI trust DefaultRBACBindings ctx m handler s = handler s
    else \<exists>msg. AuthInterceptor FromURI trust DefaultRBACBindings ctx m handler s = (Inl (ErrStatus PermissionDenied msg), s)"
proof (cases "map_of methodResourceVerb m")
  case None
  have "m \<notin> set node_methods"
  proof
    assume "m \<in> set node_methods"
    then have "m \<in> set (node_methods @ not_for_clients)" by simp
    with table_mapped[unfolded list_all_iff] None show False by (auto dest: bspec)
  qed
  then show ?thesis using assms(1,2) None by (auto simp: AuthInterceptor_def throw_def)
next
  case (Some rv)
  obtain r v where rv: "rv = (r, v)" by fastforce
  from Some rv have "(m, r, v) \<in> set methodResourceVerb" by (simp add: map_of_SomeD)
  note n = bspec[OF table_node[unfolded list_all_iff] this, unfolded prod.case]
  note node_allow[OF n[THEN conjunct1], of name v, unfolded n[THEN conjunct2]]
  then show ?thesis using assms Some rv by (auto simp: AuthInterceptor_def throw_def simp del: Allow.simps)
qed

text \<open>
  A worker that enrols gets no further than a worker's calls. The certificate issued for
  the node role, presented on a TLS connection, passes authentication; the handler runs for
  the open method and the five node methods and for no other, every other call is answered
  with \<open>PermissionDenied\<close> before it reaches a handler. The SPIFFE library reads back an
  identity it has printed, and its matcher accepts exactly the members of the trust domain.
\<close>

theorem enrolled_node_reach:
  assumes "x509_laws X uris valid_until" "RequestSVID X svc now serial req = Inr resp" "rsr_role req = SVID_ROLE_NODE"
    and "\<forall>i. id_TrustDomain i = ca_trustDomain (is_ca svc) \<longrightarrow> FromURI (spiffe_String X i) = Inr i"
    and "\<forall>i. trust i = None \<longleftrightarrow> id_TrustDomain i = ca_trustDomain (is_ca svc)"
  shows "\<exists>c. rsp_cert_der resp = cert_Raw X c \<and>
    (\<forall>m. if m \<in> set (unauthenticatedMethods @ node_methods)
       then AuthInterceptor FromURI trust DefaultRBACBindings \<lparr>peer_present = True, peer_tls = Some [[uris c]]\<rparr> m handler s = handler s
       else \<exists>msg. AuthInterceptor FromURI trust DefaultRBACBindings \<lparr>peer_present = True, peer_tls = Some [[uris c]]\<rparr> m handler s =
         (Inl (ErrStatus PermissionDenied msg), s))"
proof -
  obtain ident c where c: "id_Path ident = ''/node/'' @ rsr_node_name req" "id_TrustDomain ident = ca_trustDomain (is_ca svc)"
    "rsp_cert_der resp = cert_Raw X c" "uris c = [spiffe_String X ident]"
    using request_ok[OF assms(1,2)] assms(3) by (metis option.inject role_path.simps(1))
  have p: "PeerSPIFFEID FromURI \<lparr>peer_present = True, peer_tls = Some [[uris c]]\<rparr> = Inr ident"
    using c(2,4) assms(4) by (simp add: PeerSPIFFEID_def)
  have t: "trust ident = None" using assms(5) c(2) by blast
  note node_call[where FromURI = FromURI and trust = trust and handler = handler and s = s, OF p t c(1)]
  with c(3) show ?thesis by blast
qed

definition ex_FromURI :: "string \<Rightarrow> spiffe_ID res" where
  "ex_FromURI u = Inr \<lparr>id_TrustDomain = ''nimbus'', id_Path = drop (length ''spiffe://nimbus'') u\<rparr>"

definition ex_trust :: "spiffe_ID \<Rightarrow> error option" where
  "ex_trust i = (if id_TrustDomain i = ''nimbus'' then None else Some (ErrText []))"

theorem enrolled_node_reach_witness:
  "\<exists>(c :: string \<times> int) msg. rsp_cert_der ex_response = fst c \<and>
     AuthInterceptor ex_FromURI ex_trust DefaultRBACBindings \<lparr>peer_present = True, peer_tls = Some [[[fst c]]]\<rparr>
       ''/nimbuscore.v1.SecretService/GetSecret'' (ret ()) () = (Inl (ErrStatus PermissionDenied msg), ())"
proof -
  have raw: "cert_Raw ex_x509 = fst" by (simp add: ex_x509_def)
  have role: "rsr_role ex_enrol = SVID_ROLE_NODE" by (simp add: ex_enrol_def)
  have uri: "\<forall>i. id_TrustDomain i = ca_trustDomain (is_ca ex_identity) \<longrightarrow> ex_FromURI (spiffe_String ex_x509 i) = Inr i"
    by (simp add: ex_FromURI_def ex_x509_def ex_identity_def)
  have trust: "\<forall>i. ex_trust i = None \<longleftrightarrow> id_TrustDomain i = ca_trustDomain (is_ca ex_identity)"
    by (simp add: ex_trust_def ex_identity_def)
  have other: "''/nimbuscore.v1.SecretService/GetSecret'' \<notin> set (unauthenticatedMethods @ node_methods)"
    by (simp add: unauthenticatedMethods_def node_methods_def)
  let ?call = "\<lambda>(c :: string \<times> int) m. AuthInterceptor ex_FromURI ex_trust DefaultRBACBindings
    \<lparr>peer_present = True, peer_tls = Some [[[fst c]]]\<rparr> m (ret ()) ()"
  obtain c where c: "rsp_cert_der ex_response = fst c" "\<forall>m. if m \<in> set (unauthenticatedMethods @ node_methods)
      then ?call c m = ret () () else \<exists>msg. ?call c m = (Inl (ErrStatus PermissionDenied msg), ())"
    using enrolled_node_reach[where FromURI = ex_FromURI and trust = ex_trust and handler = "ret ()" and s = "()",
      OF ex_x509_laws ex_enrolled role uri trust] unfolding raw by blast
  from c(2)[rule_format, of "''/nimbuscore.v1.SecretService/GetSecret''"] other
  have "\<exists>msg. ?call c ''/nimbuscore.v1.SecretService/GetSecret'' = (Inl (ErrStatus PermissionDenied msg), ())"
    by (simp only: if_False)
  with c(1) show ?thesis by blast
qed

end
