(* ===== verification/Http.thy ===== *)
theory Http
  imports Prelude
begin

text \<open>
  Requests and responses of Go's \<open>net/http\<close> as far as the node's file and log servers and
  the dashboard use them: method, path, query parameters, cookies and the body that reading
  yields; a status, a content type, a payload, and the cookie and redirect of the login.
  \<open>http.ServeMux\<close> is the choice of the first registered pattern that matches: an exact path,
  or the longest registered prefix ending in a slash.
\<close>

record HttpRequest =
  rq_Method :: string
  rq_Path :: string
  rq_Query :: "(string, string) gomap"
  rq_RawQuery :: string
  rq_Cookies :: "(string, string) gomap"
  rq_Body :: "bytes res"

text \<open>A payload: nothing, a text, a file's bytes or an encoded value.\<close>

datatype 'm payload = NoBody | Text string | Bytes bytes | Json 'm

record Cookie =
  ck_Name :: string
  ck_Value :: string
  ck_Path :: string
  ck_HttpOnly :: bool
  ck_SameSite :: string
  ck_MaxAge :: int

record 'm HttpResponse =
  hr_Status :: nat
  hr_Type :: string
  hr_Body :: "'m payload"
  hr_Cookie :: "Cookie option"
  hr_Location :: string

definition StatusOK :: nat where "StatusOK = 200"
definition StatusNoContent :: nat where "StatusNoContent = 204"
definition StatusFound :: nat where "StatusFound = 302"
definition StatusBadRequest :: nat where "StatusBadRequest = 400"
definition StatusUnauthorized :: nat where "StatusUnauthorized = 401"
definition StatusNotFound :: nat where "StatusNotFound = 404"
definition StatusMethodNotAllowed :: nat where "StatusMethodNotAllowed = 405"
definition StatusRequestEntityTooLarge :: nat where "StatusRequestEntityTooLarge = 413"
definition StatusInternalServerError :: nat where "StatusInternalServerError = 500"
definition StatusBadGateway :: nat where "StatusBadGateway = 502"

lemmas status_codes = StatusOK_def StatusNoContent_def StatusFound_def StatusBadRequest_def
  StatusUnauthorized_def StatusNotFound_def StatusMethodNotAllowed_def
  StatusRequestEntityTooLarge_def StatusInternalServerError_def StatusBadGateway_def

definition reply :: "nat \<Rightarrow> string \<Rightarrow> 'm payload \<Rightarrow> 'm HttpResponse" where
  "reply st ty b = \<lparr>hr_Status = st, hr_Type = ty, hr_Body = b, hr_Cookie = None, hr_Location = []\<rparr>"

definition http_Error :: "string \<Rightarrow> nat \<Rightarrow> 'm HttpResponse" where
  "http_Error msg st = reply st ''text/plain; charset=utf-8'' (Text msg)"

definition no_content :: "'m HttpResponse" where
  "no_content = reply StatusNoContent [] NoBody"

definition write_json :: "'m \<Rightarrow> 'm HttpResponse" where
  "write_json x = reply StatusOK ''application/json'' (Json x)"

definition http_NotFound :: "'m HttpResponse" where
  "http_NotFound = http_Error ''404 page not found'' StatusNotFound"

definition http_Redirect :: "string \<Rightarrow> nat \<Rightarrow> 'm HttpResponse" where
  "http_Redirect url st = (reply st [] NoBody)\<lparr>hr_Location := url\<rparr>"

lemmas http_defs = reply_def http_Error_def no_content_def write_json_def http_NotFound_def
  http_Redirect_def

lemma reply_sel [simp]:
  "hr_Status (reply st ty b) = st" "hr_Body (reply st ty b) = b" "hr_Cookie (reply st ty b) = None"
  "hr_Type (reply st ty b) = ty"
  by (simp_all add: reply_def)

lemma response_status [simp]:
  "hr_Status (http_Error msg st) = st" "hr_Status no_content = StatusNoContent"
  "hr_Status (write_json x) = StatusOK" "hr_Status (http_Redirect url st) = st"
  "hr_Body (write_json x) = Json x"
  by (simp_all add: http_defs)

text \<open>\<open>err.Error()\<close>.\<close>

fun code_text :: "code \<Rightarrow> string" where
  "code_text InvalidArgument = ''InvalidArgument''"
| "code_text NotFound = ''NotFound''"
| "code_text AlreadyExists = ''AlreadyExists''"
| "code_text PermissionDenied = ''PermissionDenied''"
| "code_text Unauthenticated = ''Unauthenticated''"
| "code_text FailedPrecondition = ''FailedPrecondition''"
| "code_text Internal = ''Internal''"
| "code_text Unavailable = ''Unavailable''"
| "code_text DeadlineExceeded = ''DeadlineExceeded''"
| "code_text ResourceExhausted = ''ResourceExhausted''"

fun error_text :: "error \<Rightarrow> string" where
  "error_text ErrNotFound = ''store: key not found''"
| "error_text ErrNotLeader = ''store: not the raft leader''"
| "error_text ErrNoNodeAvailable = ''scheduler: no node available''"
| "error_text (ErrText m) = m"
| "error_text (ErrWrap m e) = m @ '': '' @ error_text e"
| "error_text (ErrStatus c m) = ''rpc error: code = '' @ code_text c @ '' desc = '' @ m"
| "error_text (ErrPanic m) = m"

end
