(* ===== verification/NodeFiles.thy ===== *)
theory NodeFiles
  imports Links Http
begin

text \<open>
  The HTTP servers of a node: the volume file server (\<open>internal/agent/files.go\<close>) and the log
  server (\<open>internal/agent/logserver.go\<close>). The file server works on a tree with symbolic links,
  since containers write into the volumes; the theorems say which paths a request can reach,
  what it can change on the disk, and that a file written is the file read.
\<close>

section \<open>Paths into a volume\<close>

definition maxFileWriteBytes :: nat where "maxFileWriteBytes = 8388608"

record fileEntry =
  fe_Name :: string
  fe_IsDir :: bool
  fe_Size :: int64
  fe_ModTimeUnix :: int64

definition resolveVolumePath :: "string \<Rightarrow> string \<Rightarrow> string \<Rightarrow> string \<Rightarrow> string option" where
  "resolveVolumePath volumesDir namespace name relPath =
     (if namespace = [] \<or> name = [] then None
      else let volDir = Join [volumesDir, namespace, name];
               full = Join [volDir, relPath];
               cleanVolDir = Clean volDir;
               cleanFull = Clean full
           in case Rel cleanVolDir cleanFull of
                Inl err \<Rightarrow> None
              | Inr rel \<Rightarrow> if rel = ''..'' \<or> HasPrefix rel (''..'' @ ''/'') then None else Some cleanFull)"

section \<open>The file server\<close>

definition query :: "HttpRequest \<Rightarrow> string \<Rightarrow> string" where
  "query r k = lget (rq_Query r) k"

fun list_loop :: "io_env \<Rightarrow> string \<Rightarrow> (string \<times> bool) list \<Rightarrow> fileEntry list" where
  "list_loop io dir [] = []"
| "list_loop io dir ((name, isDir) # es) =
     (case io_Info io (Join [dir, name]) of
        Inl err \<Rightarrow> list_loop io dir es
      | Inr (sz, modTime) \<Rightarrow>
          \<lparr>fe_Name = name, fe_IsDir = isDir, fe_Size = sz, fe_ModTimeUnix = modTime\<rparr> # list_loop io dir es)"

definition files_list :: "io_env \<Rightarrow> string \<Rightarrow> HttpRequest \<Rightarrow> ltree \<Rightarrow> fileEntry list HttpResponse \<times> ltree" where
  "files_list io volumesDir r d =
     (case resolveVolumePath volumesDir (query r ''namespace'') (query r ''name'') ''.'' of
        None \<Rightarrow> (http_Error ''invalid namespace/name'' StatusBadRequest, d)
      | Some volDir \<Rightarrow>
          (case lk_MkdirAll io volDir d of
             (Inl err, d') \<Rightarrow> (http_Error (error_text err) StatusInternalServerError, d')
           | (Inr _, d') \<Rightarrow>
               (case lk_ReadDir io volDir d' of
                  Inl err \<Rightarrow> (http_Error (error_text err) StatusInternalServerError, d')
                | Inr entries \<Rightarrow> (write_json (list_loop io volDir entries), d'))))"

definition files_read :: "io_env \<Rightarrow> string \<Rightarrow> HttpRequest \<Rightarrow> ltree \<Rightarrow> fileEntry list HttpResponse \<times> ltree" where
  "files_read io volumesDir r d =
     (case resolveVolumePath volumesDir (query r ''namespace'') (query r ''name'') (query r ''path'') of
        None \<Rightarrow> (http_Error ''invalid namespace/name/path'' StatusBadRequest, d)
      | Some full \<Rightarrow>
          if query r ''path'' = [] then (http_Error ''invalid namespace/name/path'' StatusBadRequest, d)
          else (case lk_ReadFile io full d of
                  Inl err \<Rightarrow>
                    (if os_IsNotExist err then http_Error ''file not found'' StatusNotFound
                     else http_Error (error_text err) StatusInternalServerError, d)
                | Inr b \<Rightarrow> (reply StatusOK ''text/plain; charset=utf-8'' (Bytes b), d)))"

definition files_write :: "io_env \<Rightarrow> string \<Rightarrow> HttpRequest \<Rightarrow> ltree \<Rightarrow> fileEntry list HttpResponse \<times> ltree" where
  "files_write io volumesDir r d =
     (if rq_Method r \<noteq> ''PUT'' \<and> rq_Method r \<noteq> ''POST''
      then (http_Error ''method not allowed'' StatusMethodNotAllowed, d)
      else case resolveVolumePath volumesDir (query r ''namespace'') (query r ''name'') (query r ''path'') of
        None \<Rightarrow> (http_Error ''invalid namespace/name/path'' StatusBadRequest, d)
      | Some full \<Rightarrow>
          if query r ''path'' = [] then (http_Error ''invalid namespace/name/path'' StatusBadRequest, d)
          else (case rq_Body r of
                  Inl err \<Rightarrow> (http_Error (error_text err) StatusInternalServerError, d)
                | Inr content \<Rightarrow>
                    let body = take (maxFileWriteBytes + 1) content
                    in if length body > maxFileWriteBytes
                       then (http_Error ''file too large'' StatusRequestEntityTooLarge, d)
                       else (case lk_MkdirAll io (Dir full) d of
                               (Inl err, d') \<Rightarrow> (http_Error (error_text err) StatusInternalServerError, d')
                             | (Inr _, d') \<Rightarrow>
                                 (case lk_WriteFile io full body d' of
                                    (Inl err, d'') \<Rightarrow> (http_Error (error_text err) StatusInternalServerError, d'')
                                  | (Inr _, d'') \<Rightarrow> (no_content, d'')))))"

definition files_delete :: "io_env \<Rightarrow> string \<Rightarrow> HttpRequest \<Rightarrow> ltree \<Rightarrow> fileEntry list HttpResponse \<times> ltree" where
  "files_delete io volumesDir r d =
     (if rq_Method r \<noteq> ''DELETE'' then (http_Error ''method not allowed'' StatusMethodNotAllowed, d)
      else case resolveVolumePath volumesDir (query r ''namespace'') (query r ''name'') (query r ''path'') of
        None \<Rightarrow> (http_Error ''invalid namespace/name/path'' StatusBadRequest, d)
      | Some full \<Rightarrow>
          if query r ''path'' = [] then (http_Error ''invalid namespace/name/path'' StatusBadRequest, d)
          else (case lk_Stat io full d of
                  Inl err \<Rightarrow>
                    (if os_IsNotExist err then http_Error ''file not found'' StatusNotFound
                     else http_Error (error_text err) StatusInternalServerError, d)
                | Inr info \<Rightarrow>
                    if info = NDir then (http_Error ''cannot delete a directory'' StatusBadRequest, d)
                    else (case lk_Remove io full d of
                            (Inl err, d') \<Rightarrow> (http_Error (error_text err) StatusInternalServerError, d')
                          | (Inr _, d') \<Rightarrow> (no_content, d'))))"

definition NewFilesHandler :: "io_env \<Rightarrow> string \<Rightarrow> HttpRequest \<Rightarrow> ltree \<Rightarrow> fileEntry list HttpResponse \<times> ltree" where
  "NewFilesHandler io volumesDir r =
     (if rq_Path r = ''/files/list'' then files_list io volumesDir r
      else if rq_Path r = ''/files/read'' then files_read io volumesDir r
      else if rq_Path r = ''/files/write'' then files_write io volumesDir r
      else if rq_Path r = ''/files/delete'' then files_delete io volumesDir r
      else (\<lambda>d. (http_NotFound, d)))"

lemmas files_defs = files_list_def files_read_def files_write_def files_delete_def

section \<open>Which paths a request reaches\<close>

abbreviation volume_dir :: "string \<Rightarrow> string \<Rightarrow> string \<Rightarrow> string" where
  "volume_dir volumesDir namespace name \<equiv> Join [volumesDir, namespace, name]"

lemma volume_dir_nonempty: "namespace \<noteq> [] \<Longrightarrow> volume_dir v namespace name \<noteq> []"
  by (cases "v = []") (simp_all add: Join_def)

lemma Clean_volume_dir: "namespace \<noteq> [] \<Longrightarrow> Clean (volume_dir v namespace name) = volume_dir v namespace name"
  by (cases "v = []") (simp_all add: Join_def)

lemma resolve_eq:
  "resolveVolumePath v ns n p =
     (let full = Join [volume_dir v ns n, p]
      in if ns \<noteq> [] \<and> n \<noteq> [] \<and> inside (volume_dir v ns n) full then Some full else None)"
proof (cases "ns = [] \<or> n = []")
  case False
  let ?d = "volume_dir v ns n" and ?f = "Join [volume_dir v ns n, p]"
  have d: "?d \<noteq> []" "Clean ?d = ?d" using False volume_dir_nonempty Clean_volume_dir by simp_all
  then have f: "Clean ?f = ?f" by simp
  have "inside ?d ?f \<longleftrightarrow> (case Rel ?d ?f of Inl e \<Rightarrow> False | Inr rel \<Rightarrow> \<not> rel_escapes rel)"
    using Rel_inside[of ?d ?f] by simp
  with False d f show ?thesis
    unfolding resolveVolumePath_def by (auto simp: Let_def rel_escapes_def split: sum.splits)
qed (auto simp: resolveVolumePath_def Let_def)

lemma resolve_Some:
  assumes "resolveVolumePath v ns n p = Some full"
  shows "ns \<noteq> []" "n \<noteq> []" "full = Join [volume_dir v ns n, p]" "inside (volume_dir v ns n) full"
    "below (dkey (volume_dir v ns n)) (dkey full)" "Clean full = full"
  using assms volume_dir_nonempty[of ns v n]
  by (auto simp: resolve_eq Let_def inside_def below_def dkey_def split: if_splits)

text \<open>The directory of a volume with plain names is its own entry of the volumes directory.\<close>

lemma volume_dir_elems:
  assumes "plain ns" "plain n"
  shows "elems (volume_dir v ns n) = elems v @ [ns, n]" "is_abs (volume_dir v ns n) = is_abs v"
proof -
  have ns: "ns \<noteq> []" "elems ns = [ns]" "\<not> is_abs ns"
    using assms(1) by (auto simp: plain_def elems_def is_abs_def split_on_none dest: hd_in_set)
  have "elems (volume_dir v ns n) = elems v @ [ns, n] \<and> is_abs (volume_dir v ns n) = is_abs v"
  proof (cases "v = []")
    case True
    have "elems (Join [ns, n]) = [ns, n]" "is_abs (Join [ns, n]) = is_abs ns"
      using elems_Join_plain[of ns n] elems_Join2(2)[of ns n] ns assms by simp_all
    with True ns show ?thesis by (simp add: Join_def elems_def is_abs_def)
  next
    case False
    then show ?thesis
      using assms by (simp add: Join3 elems_Join_plain elems_Join2)
  qed
  then show "elems (volume_dir v ns n) = elems v @ [ns, n]" "is_abs (volume_dir v ns n) = is_abs v" by simp_all
qed

text \<open>
  Requests for different volumes never meet on a file. When the names of the two volumes
  are plain (not empty, no slash, neither \<open>.\<close> nor \<open>..\<close>), whatever relative paths the requests
  carry, the paths they resolve to are different, and each lies below its own volume's
  directory under the volumes directory.
\<close>

theorem volume_paths_isolated:
  assumes "plain ns" "plain n" "plain ns'" "plain n'" "(ns, n) \<noteq> (ns', n')"
    and "resolveVolumePath v ns n p = Some full" "resolveVolumePath v ns' n' q = Some full'"
  shows "full \<noteq> full' \<and> (\<exists>ts. elems full = elems v @ [ns, n] @ ts \<and> ''..'' \<notin> set ts) \<and> is_abs full = is_abs v"
proof -
  from resolve_Some(4)[OF assms(6)] volume_dir_elems[OF assms(1,2), of v] obtain ts where
    f: "elems full = elems v @ [ns, n] @ ts" "''..'' \<notin> set ts" "is_abs full = is_abs v"
    by (auto simp: inside_def)
  from resolve_Some(4)[OF assms(7)] volume_dir_elems[OF assms(3,4), of v] obtain ts' where
    "elems full' = elems v @ [ns', n'] @ ts'" by (auto simp: inside_def)
  with f assms(5) have "elems full \<noteq> elems full'" by auto
  with f show ?thesis by auto
qed

theorem volume_paths_isolated_witness:
  "(let full = ''/vol/default/db/a/c''; full' = ''/vol/default/web/c''
    in full \<noteq> full' \<and> (\<exists>ts. elems full = elems ''/vol'' @ [''default'', ''db''] @ ts \<and> ''..'' \<notin> set ts) \<and>
       is_abs full = is_abs ''/vol'')"
proof -
  have r: "resolveVolumePath ''/vol'' ''default'' ''db'' ''a/b/../c'' = Some ''/vol/default/db/a/c''"
    "resolveVolumePath ''/vol'' ''default'' ''web'' ''c'' = Some ''/vol/default/web/c''"
    by code_simp+
  have "plain ''default''" "plain ''db''" "plain ''web''" by (simp_all add: plain_def)
  from volume_paths_isolated[OF this(1) this(2) this(1) this(3) _ r] show ?thesis by simp
qed

text \<open>
  The names themselves are not checked: a namespace \<open>..\<close> leads to a directory outside the
  volumes directory, and the request is accepted.
\<close>

lemma resolve_leaves_volumes_dir:
  "resolveVolumePath ''/data/volumes'' ''..'' ''builds'' ''x/Dockerfile'' = Some ''/data/builds/x/Dockerfile'' \<and>
   \<not> inside ''/data/volumes'' ''/data/builds/x/Dockerfile''"
proof
  show "resolveVolumePath ''/data/volumes'' ''..'' ''builds'' ''x/Dockerfile'' = Some ''/data/builds/x/Dockerfile''"
    by code_simp
  show "\<not> inside ''/data/volumes'' ''/data/builds/x/Dockerfile''"
    by (simp add: inside_def elems_def is_abs_def)
qed

section \<open>What a request changes\<close>

abbreviation asked :: "string \<Rightarrow> HttpRequest \<Rightarrow> string" where
  "asked v r \<equiv> volume_dir v (query r ''namespace'') (query r ''name'')"

lemma files_write_confined:
  assumes "links_stay (snd x) (asked v r)"
  shows "within_tree (dkey (asked v r)) x (snd (files_write io v r x))"
proof (cases "resolveVolumePath v (query r ''namespace'') (query r ''name'') (query r ''path'')")
  case (Some full)
  note f = resolve_Some[OF Some]
  obtain d ls where x: "x = (d, ls)" by fastforce
  have "is_abs (Dir full) = is_abs full" "prefix (elems (Dir full)) (elems full)"
    using elems_Dir[of full] f(6) by (simp_all add: prefixeq_butlast)
  note m = within_tree_MkdirAll[OF assms[unfolded x snd_conv] f(4) this, of d io]
  let ?y = "snd (lk_MkdirAll io (Dir full) x)"
  have "links_stay (snd ?y) (asked v r)" using assms by (simp add: x lk_MkdirAll_frame(1))
  from within_tree_trans[OF m[folded x] within_tree_WriteFile[OF this f(4)]]
  have w: "within_tree (dkey (asked v r)) x (snd (lk_WriteFile io full b ?y))" for b .
  from m[folded x] w show ?thesis
    by (auto simp: files_write_def Some Let_def split: sum.splits prod.splits) (metis snd_conv)+
qed (simp add: files_write_def)

lemma files_list_confined:
  assumes "links_stay (snd x) (asked v r)"
  shows "within_tree (dkey (asked v r)) x (snd (files_list io v r x))"
proof (cases "resolveVolumePath v (query r ''namespace'') (query r ''name'') ''.''")
  case (Some full)
  have "within_tree (dkey (asked v r)) x (snd (lk_MkdirAll io full x))"
    using within_tree_MkdirAll[OF _ resolve_Some(4)[OF Some] refl prefix_order.refl, of "snd x" "fst x" io] assms by simp
  then show ?thesis
    by (auto simp: files_list_def Some split: sum.splits prod.splits)
qed (simp add: files_list_def)

lemma files_delete_confined:
  assumes "links_stay (snd x) (asked v r)"
  shows "within_tree (dkey (asked v r)) x (snd (files_delete io v r x))"
proof (cases "resolveVolumePath v (query r ''namespace'') (query r ''name'') (query r ''path'')")
  case (Some full)
  from within_tree_Remove[OF assms resolve_Some(4)[OF Some], of io] show ?thesis
    by (auto simp: files_delete_def Some split: sum.splits prod.splits)
qed (simp add: files_delete_def)

text \<open>
  C19: a request to the file server changes nothing outside the volume it names, as long as the
  symbolic links in that volume stay in it (no link is on the way to the volume's directory,
  and every path into the directory leads into it). Then, whatever the method, the path and the
  body, and also when a call of the operating system fails and leaves a part of its work, every
  file, directory and link that does not lie in the volume's directory is as before; only
  missing directories on the way to that directory are created. The code does not check the
  links itself: without the hypothesis a request can leave the volume, as
  \<open>link_leaves_volume\<close> shows below.
\<close>

theorem file_requests_confined:
  assumes "links_stay ls (volume_dir v (query r ''namespace'') (query r ''name''))"
    and "NewFilesHandler io v r (d, ls) = (resp, (d', ls'))"
    and "\<not> below (dkey (volume_dir v (query r ''namespace'') (query r ''name''))) k"
  shows "map_of ls' k = map_of ls k \<and>
    (map_of d' k = map_of d k \<or>
     (map_of d k = None \<and> map_of d' k = Some NDir \<and>
      below k (dkey (volume_dir v (query r ''namespace'') (query r ''name'')))))"
proof -
  have "snd (files_read io v r (d, ls)) = (d, ls)"
    by (simp add: files_read_def split: option.splits sum.splits)
  then have "within_tree (dkey (asked v r)) (d, ls) (snd (NewFilesHandler io v r (d, ls)))"
    using files_write_confined[of "(d, ls)"] files_list_confined[of "(d, ls)"] files_delete_confined[of "(d, ls)"] assms(1)
    by (simp add: NewFilesHandler_def)
  then have "within_tree (dkey (asked v r)) (d, ls) (d', ls')" by (simp add: assms(2))
  from this[unfolded within_tree_def, rule_format, of k] assms(3) show ?thesis by simp
qed

definition ex_io :: io_env where
  "ex_io = calm"

definition ex_write :: "string \<Rightarrow> HttpRequest" where
  "ex_write m = \<lparr>rq_Method = m, rq_Path = ''/files/write'',
     rq_Query = [(''namespace'', ''default''), (''name'', ''db''), (''path'', ''conf/my.cnf'')],
     rq_RawQuery = [], rq_Cookies = [], rq_Body = Inr ''port=1''\<rparr>"

definition ex_tree :: ltree where
  "ex_tree = ([((True, [''vol'']), NDir), ((True, [''vol'', ''default'']), NDir), ((True, [''vol'', ''default'', ''db'']), NDir),
     ((True, [''vol'', ''default'', ''db'', ''etc'']), NDir), ((True, [''passwd'']), NFile ''root'')],
     [((True, [''vol'', ''default'', ''db'', ''conf'']), ''etc'')])"

lemma ex_put:
  "NewFilesHandler ex_io ''/vol'' (ex_write ''PUT'') x =
     (case lk_MkdirAll ex_io ''/vol/default/db/conf'' x of
        (Inl err, x') \<Rightarrow> (http_Error (error_text err) StatusInternalServerError, x')
      | (Inr _, x') \<Rightarrow>
          (case lk_WriteFile ex_io ''/vol/default/db/conf/my.cnf'' ''port=1'' x' of
             (Inl err, x'') \<Rightarrow> (http_Error (error_text err) StatusInternalServerError, x'')
           | (Inr _, x'') \<Rightarrow> (no_content, x'')))"
proof -
  have "resolveVolumePath ''/vol'' ''default'' ''db'' ''conf/my.cnf'' = Some ''/vol/default/db/conf/my.cnf''"
    "Dir ''/vol/default/db/conf/my.cnf'' = ''/vol/default/db/conf''" by code_simp+
  then show ?thesis
    by (subst NewFilesHandler_def, simp add: ex_write_def files_write_def query_def lget_def maxFileWriteBytes_def)
qed

theorem file_requests_confined_witness:
  "map_of (fst (snd (NewFilesHandler ex_io ''/vol'' (ex_write ''PUT'') ex_tree))) (True, [''passwd'']) = Some (NFile ''root'') \<and>
   map_of (fst (snd (NewFilesHandler ex_io ''/vol'' (ex_write ''PUT'') ex_tree))) (True, [''vol'', ''default'', ''db'', ''etc'', ''my.cnf'']) =
     Some (NFile ''port=1'')"
proof
  have q: "query (ex_write ''PUT'') ''namespace'' = ''default''" "query (ex_write ''PUT'') ''name'' = ''db''"
    by (simp_all add: query_def lget_def ex_write_def)
  have v: "dkey (volume_dir ''/vol'' ''default'' ''db'') = (True, [''vol'', ''default'', ''db''])" by code_simp
  have stay: "links_stay (snd ex_tree) (volume_dir ''/vol'' ''default'' ''db'')"
    by (rule relative_links_stay) (auto simp: ex_tree_def v below_def is_abs_def split: if_splits)
  obtain resp d' ls' where h: "NewFilesHandler ex_io ''/vol'' (ex_write ''PUT'') (fst ex_tree, snd ex_tree) = (resp, (d', ls'))"
    by (rule prod_cases3)
  have "\<not> below (dkey (volume_dir ''/vol'' ''default'' ''db'')) (True, [''passwd''])" by (simp add: v below_def)
  from file_requests_confined[OF _ h, unfolded q, OF stay this] h
  show "map_of (fst (snd (NewFilesHandler ex_io ''/vol'' (ex_write ''PUT'') ex_tree))) (True, [''passwd'']) = Some (NFile ''root'')"
    by (simp add: ex_tree_def)
  show "map_of (fst (snd (NewFilesHandler ex_io ''/vol'' (ex_write ''PUT'') ex_tree))) (True, [''vol'', ''default'', ''db'', ''etc'', ''my.cnf'']) =
     Some (NFile ''port=1'')" unfolding ex_put by code_simp
qed

text \<open>
  The server follows links without looking where they lead. A container that puts a link to a
  directory of the node into its volume makes a write to a path of the volume a write outside it.
\<close>

lemma link_leaves_volume:
  "let y = snd (NewFilesHandler ex_io ''/vol'' (ex_write ''PUT'')
       (fst ex_tree @ [((True, [''host'']), NDir)], [((True, [''vol'', ''default'', ''db'', ''conf'']), ''/host'')]))
   in map_of (fst y) (True, [''host'', ''my.cnf'']) = Some (NFile ''port=1'')"
  unfolding ex_put by code_simp

text \<open>
  C26: what is written is read back. When a write request is answered with 204, a read of the same
  path of the same volume that comes next and meets no fault of the operating system returns
  exactly its body and changes nothing, whatever links are in the tree and whatever was at the
  path before; a body over the limit of eight mebibytes is refused and nothing is written.
\<close>

theorem file_write_read:
  assumes "rq_Path w = ''/files/write''" "rq_Body w = Inr content"
    and "rq_Path r = ''/files/read''" "rq_Query r = rq_Query w"
    and "NewFilesHandler io v w x = (resp, x')" "\<And>p. io_fault io' ''read'' p = None"
  shows "(hr_Status resp = StatusNoContent \<longrightarrow>
      NewFilesHandler io' v r x' = (reply StatusOK ''text/plain; charset=utf-8'' (Bytes content), x')) \<and>
    (length content > maxFileWriteBytes \<longrightarrow> hr_Status resp \<noteq> StatusNoContent \<and> x' = x)"
proof (intro conjI impI)
  from assms(1,5) have w: "files_write io v w x = (resp, x')" by (simp add: NewFilesHandler_def)
  then show "hr_Status resp \<noteq> StatusNoContent" "x' = x" if "length content > maxFileWriteBytes"
    using that assms(2) by (auto simp: files_write_def Let_def status_codes split: option.splits if_splits)
  assume "hr_Status resp = StatusNoContent"
  with w assms(2) obtain full x1 where res: "resolveVolumePath v (query w ''namespace'') (query w ''name'') (query w ''path'') = Some full"
    and pth: "query w ''path'' \<noteq> []" and len: "length (take (maxFileWriteBytes + 1) content) \<le> maxFileWriteBytes"
    and wr: "lk_WriteFile io full (take (maxFileWriteBytes + 1) content) x1 = (Inr (), x')"
    by (auto simp: files_write_def Let_def status_codes split: option.splits if_splits sum.splits prod.splits)
  from len have "take (maxFileWriteBytes + 1) content = content" by (auto simp: min_def split: if_splits)
  with lk_write_read[OF wr assms(6)] have "lk_ReadFile io' full x' = Inr content" by simp
  with res pth assms(3,4) show "NewFilesHandler io' v r x' = (reply StatusOK ''text/plain; charset=utf-8'' (Bytes content), x')"
    by (simp add: NewFilesHandler_def files_read_def query_def)
qed

theorem file_write_read_witness:
  "\<exists>x'. NewFilesHandler ex_io ''/vol'' (ex_write ''PUT'') ex_tree = (no_content, x') \<and>
     NewFilesHandler ex_io ''/vol'' ((ex_write ''GET'')\<lparr>rq_Path := ''/files/read''\<rparr>) x' =
       (reply StatusOK ''text/plain; charset=utf-8'' (Bytes ''port=1''), x')"
proof -
  obtain resp x' where h: "NewFilesHandler ex_io ''/vol'' (ex_write ''PUT'') ex_tree = (resp, x')" by (rule prod.exhaust)
  have "fst (NewFilesHandler ex_io ''/vol'' (ex_write ''PUT'') ex_tree) = no_content" unfolding ex_put by code_simp
  with h have resp: "resp = no_content" by simp
  with h file_write_read[of "ex_write ''PUT''" "''port=1''" "(ex_write ''GET'')\<lparr>rq_Path := ''/files/read''\<rparr>" ex_io "''/vol''" ex_tree resp x' ex_io]
  show ?thesis by (auto simp: ex_write_def ex_io_def)
qed

section \<open>The log server\<close>

definition containerNameRaw :: "string \<Rightarrow> string \<Rightarrow> string" where
  "containerNameRaw namespace name = ''nimbus-'' @ namespace @ ''-'' @ name"

definition logFilePath :: "string \<Rightarrow> string \<Rightarrow> string" where
  "logFilePath logDir containerID = Join [logDir, containerID @ ''.log'']"

definition buildLogFilePath :: "string \<Rightarrow> string \<Rightarrow> string" where
  "buildLogFilePath logDir containerID = Join [logDir, containerID @ ''.build.log'']"

definition maxLogReadBytes :: nat where "maxLogReadBytes = 1048576"

abbreviation newline :: char where "newline \<equiv> CHR 0x0A"

definition TrimRight :: "string \<Rightarrow> char \<Rightarrow> string" where
  "TrimRight s c = rev (dropWhile (\<lambda>x. x = c) (rev s))"

text \<open>
  \<open>tailFile\<close>: the window is the last mebibyte of the file; opening, reading its size,
  seeking and reading are one read of the file.
\<close>

definition tail_window :: "bytes \<Rightarrow> bytes" where
  "tail_window content = drop (length content - min (length content) maxLogReadBytes) content"

definition tail_lines :: "bytes \<Rightarrow> nat \<Rightarrow> string list" where
  "tail_lines buf maxLines =
     (let lines = split_on newline (TrimRight buf newline)
      in if length lines > maxLines then drop (length lines - maxLines) lines else lines)"

definition tailFile :: "io_env \<Rightarrow> string \<Rightarrow> nat \<Rightarrow> disk \<Rightarrow> bytes res" where
  "tailFile io path maxLines d =
     (case os_ReadFile io path d of
        Inl err \<Rightarrow> Inl err
      | Inr content \<Rightarrow> Inr (join_with [newline] (tail_lines (tail_window content) maxLines) @ [newline]))"

definition NewLogHandler :: "io_env \<Rightarrow> string \<Rightarrow> HttpRequest \<Rightarrow> disk \<Rightarrow> unit HttpResponse" where
  "NewLogHandler io logDir r d =
     (if rq_Path r \<noteq> ''/logs'' then http_NotFound
      else if query r ''namespace'' = [] \<or> query r ''name'' = []
      then http_Error ''namespace and name query parameters are required'' StatusBadRequest
      else let tail = (case Atoi (query r ''tail'') of
                         Some n \<Rightarrow> if n > 0 then nat n else 200
                       | None \<Rightarrow> 200);
               ident = containerNameRaw (query r ''namespace'') (query r ''name'');
               path = (if query r ''stream'' = ''build'' then buildLogFilePath logDir ident else logFilePath logDir ident)
           in case tailFile io path tail d of
                Inl err \<Rightarrow>
                  if os_IsNotExist err then http_Error ''no logs found for this pod yet'' StatusNotFound
                  else http_Error (error_text err) StatusInternalServerError
              | Inr lines \<Rightarrow> reply StatusOK ''text/plain; charset=utf-8'' (Bytes lines))"

text \<open>
  The last lines: at most the asked number of them, none with a line break inside, and they
  are the end of the window without its trailing line breaks.
\<close>

lemma tail_lines_suffix:
  assumes "0 < maxLines"
  shows "length (tail_lines buf maxLines) \<le> maxLines"
    and "\<forall>l \<in> set (tail_lines buf maxLines). newline \<notin> set l"
    and "suffix (join_with [newline] (tail_lines buf maxLines)) (TrimRight buf newline)"
proof -
  let ?ls = "split_on newline (TrimRight buf newline)"
  have suf: "suffix (tail_lines buf maxLines) ?ls"
    by (auto simp: tail_lines_def Let_def suffix_drop)
  have ne: "tail_lines buf maxLines \<noteq> []"
    using assms by (auto simp: tail_lines_def Let_def)
  show "length (tail_lines buf maxLines) \<le> maxLines" by (simp add: tail_lines_def Let_def)
  show "\<forall>l \<in> set (tail_lines buf maxLines). newline \<notin> set l"
    using set_mono_suffix[OF suf] split_on_elems by fastforce
  from suf obtain pre where pre: "?ls = pre @ tail_lines buf maxLines" by (auto simp: suffix_def)
  have "suffix (join_with [newline] ys) (join_with [newline] (xs @ ys))" if "ys \<noteq> []" for xs ys :: "string list"
  proof (induction xs)
    case (Cons x xs)
    then have "suffix (join_with [newline] ys) ((x @ [newline]) @ join_with [newline] (xs @ ys))"
      by (rule suffix_appendI)
    with that show ?case by (simp add: join_with_Cons)
  qed simp
  from this[OF ne, of pre] show "suffix (join_with [newline] (tail_lines buf maxLines)) (TrimRight buf newline)"
    by (metis pre join_split)
qed

text \<open>
  The names in a log request are not checked either: with a slash in the namespace the path
  leaves the log directory.
\<close>

lemma log_path_leaves_log_dir:
  "logFilePath ''/data/logs'' (containerNameRaw ''x/../../db'' ''audit'') = ''/data/db-audit.log''"
  by code_simp

end
