(* ===== verification/Containers.thy ===== *)
theory Containers
  imports Api NodeFiles
begin

text \<open>
  What the agent asks of its node: image references (\<open>internal/agent/process.go\<close>), the
  containerd client (\<open>internal/agent/containerd_client.go\<close>), the image builds
  (\<open>internal/agent/build.go\<close>) and the WebAssembly runtime (\<open>internal/wasmrt/runtime.go\<close>).
  containerd, the operating system, git, buildctl and wazero are a record of functions on an
  abstract world; the code of the repository is translated on top of it.
\<close>

section \<open>The node\<close>

datatype task_status = TaskUnknown | TaskCreated | TaskRunning | TaskStopped | TaskPaused | TaskPausing

record task =
  tsk_ID :: string
  tsk_Pid :: int
  tsk_Status :: task_status

text \<open>A mount and the options of a container's specification, as containerd takes them.\<close>

record mount =
  mount_Type :: string
  mount_Source :: string
  mount_Destination :: string
  mount_Options :: "string list"

datatype 'i SpecOpt = WithDefaultSpec | WithDefaultUnixDevices | WithImageConfig 'i | WithEnv "string list"
  | WithHostNetwork | WithHostHostsFile | WithHostResolvconf | WithProcessArgs "string list"
  | WithMounts "mount list" | WithCPUCFS int64 int | WithMemoryLimit int

text \<open>
  Third-party code and the operating system. \<open>cd_\<close> is containerd's client, keyed by
  container id; \<open>hs_\<close> the host: files, processes, the clone, the build and the WebAssembly
  engine; \<open>pkg_parse\<close> decodes a \<open>package.json\<close> to its main file and scripts. The getter of
  the clone token, which the messages do not have, is \<open>GetCloneToken\<close>.
\<close>

record ('w, 'i) host =
  cd_New :: "'w \<Rightarrow> unit res"
  cd_Pull :: "string \<Rightarrow> ('w, 'i) action"
  cd_GetImage :: "string \<Rightarrow> 'w \<Rightarrow> 'i res"
  cd_NewContainer :: "string \<Rightarrow> 'i \<Rightarrow> 'i SpecOpt list \<Rightarrow> ('w, unit) action"
  cd_NewTask :: "string \<Rightarrow> string \<Rightarrow> ('w, unit) action"
  cd_Start :: "string \<Rightarrow> ('w, unit) action"
  cd_TaskDelete :: "string \<Rightarrow> 'w \<Rightarrow> 'w"
  cd_ContainerDelete :: "string \<Rightarrow> 'w \<Rightarrow> 'w"
  cd_LoadContainer :: "string \<Rightarrow> 'w \<Rightarrow> unit res"
  cd_Task :: "string \<Rightarrow> 'w \<Rightarrow> unit res"
  cd_List :: "'w \<Rightarrow> task list res"
  hs_Hostname :: "'w \<Rightarrow> string res"
  hs_MkdirAll :: "string \<Rightarrow> ('w, unit) action"
  hs_Abs :: "string \<Rightarrow> 'w \<Rightarrow> string res"
  hs_Remove :: "string \<Rightarrow> 'w \<Rightarrow> 'w"
  hs_RemoveAll :: "string \<Rightarrow> ('w, unit) action"
  hs_ReadFile :: "string \<Rightarrow> 'w \<Rightarrow> bytes res"
  hs_Stat :: "string \<Rightarrow> 'w \<Rightarrow> unit res"
  hs_Create :: "string \<Rightarrow> ('w, unit) action"
  hs_WriteFile :: "string \<Rightarrow> bytes \<Rightarrow> ('w, unit) action"
  hs_TempDir :: string
  hs_Clone :: "string \<Rightarrow> string \<Rightarrow> (string \<times> string) option \<Rightarrow> string \<Rightarrow> ('w, unit) action"
  hs_Buildctl :: "string list \<Rightarrow> ('w, unit) action"
  hs_ExecStart :: "string list \<Rightarrow> ('w, int) action"
  hs_Kill :: "int \<Rightarrow> 'w \<Rightarrow> 'w"
  hs_RSS :: "int32 \<Rightarrow> 'w \<Rightarrow> int64 res"
  wz_NewRuntime :: "('w, nat) action"
  wz_Instantiate :: "nat \<Rightarrow> ('w, unit) action"
  wz_Close :: "nat \<Rightarrow> 'w \<Rightarrow> 'w"
  pkg_parse :: "bytes \<Rightarrow> string \<times> (string, string) gomap"
  json_string :: "string \<Rightarrow> string"
  GetCloneToken :: "BuildSource \<Rightarrow> string"

section \<open>Image references\<close>

definition expandRegistry :: "string \<Rightarrow> string" where
  "expandRegistry ref =
     (if HasPrefix ref ''docker.io/'' \<or> HasPrefix ref ''localhost/'' then ref
      else if slash \<notin> set ref then ''docker.io/library/'' @ ref
      else let firstSegment = takeWhile (\<lambda>c. c \<noteq> slash) ref
           in if CHR ''.'' \<in> set firstSegment \<or> CHR '':'' \<in> set firstSegment \<or> firstSegment = ''localhost''
              then ref else ''docker.io/'' @ ref)"

text \<open>\<open>strings.LastIndex\<close> of a one-byte string.\<close>

definition LastIndex :: "string \<Rightarrow> char \<Rightarrow> int" where
  "LastIndex s c = (if c \<in> set s then int (length (dropWhile (\<lambda>x. x \<noteq> c) (rev s))) - 1 else - 1)"

definition ensureTagOrDigest :: "string \<Rightarrow> string" where
  "ensureTagOrDigest ref =
     (if CHR ''@'' \<in> set ref then ref
      else if LastIndex ref (CHR '':'') > LastIndex ref slash then ref
      else ref @ '':latest'')"

definition resolveImageRef :: "string \<Rightarrow> string" where
  "resolveImageRef ref = ensureTagOrDigest (expandRegistry ref)"

text \<open>A reference that names its registry, and one that names its version.\<close>

definition has_registry :: "string \<Rightarrow> bool" where
  "has_registry ref \<longleftrightarrow> slash \<in> set ref \<and>
     (let seg = takeWhile (\<lambda>c. c \<noteq> slash) ref in CHR ''.'' \<in> set seg \<or> CHR '':'' \<in> set seg \<or> seg = ''localhost'')"

definition has_version :: "string \<Rightarrow> bool" where
  "has_version ref \<longleftrightarrow> CHR ''@'' \<in> set ref \<or> LastIndex ref (CHR '':'') > LastIndex ref slash"

lemma has_registry_append: "has_registry ref \<Longrightarrow> has_registry (ref @ r)"
  by (auto simp: has_registry_def Let_def takeWhile_append)

lemma expandRegistry_has: "has_registry (expandRegistry ref)"
proof -
  have d: "has_registry (''docker.io/'' @ r)" "has_registry (''localhost/'' @ r)" for r
    by (simp_all add: has_registry_def)
  from d(1)[of "''library/'' @ ref"] have "has_registry (''docker.io/library/'' @ ref)" by simp
  with d show ?thesis
    by (auto simp: expandRegistry_def Let_def HasPrefix_iff) (auto simp: has_registry_def Let_def)
qed

lemma expandRegistry_id: "has_registry ref \<Longrightarrow> expandRegistry ref = ref"
  by (auto simp: expandRegistry_def has_registry_def Let_def)

lemma LastIndex_append_last: "c \<in> set r \<Longrightarrow> LastIndex (s @ r) c = int (length s) + LastIndex r c"
proof -
  assume c: "c \<in> set r"
  then have "dropWhile (\<lambda>x. x \<noteq> c) (rev r @ rev s) = dropWhile (\<lambda>x. x \<noteq> c) (rev r) @ rev s"
    by (intro dropWhile_append1[of c]) simp_all
  with c show ?thesis by (simp add: LastIndex_def)
qed

lemma LastIndex_bound: "LastIndex s c < int (length s)"
  using length_dropWhile_le[of "\<lambda>x. x \<noteq> c" "rev s"] by (auto simp: LastIndex_def)

lemma LastIndex_append_none:
  assumes "c \<notin> set r" shows "LastIndex (s @ r) c = LastIndex s c"
proof -
  have "dropWhile (\<lambda>x. x \<noteq> c) (rev r @ rev s) = dropWhile (\<lambda>x. x \<noteq> c) (rev s)"
    using assms by (intro dropWhile_append2) auto
  with assms show ?thesis by (simp add: LastIndex_def)
qed

lemma ensureTagOrDigest_has: "has_version (ensureTagOrDigest ref)"
proof -
  have "LastIndex (ref @ '':latest'') (CHR '':'') > LastIndex (ref @ '':latest'') slash"
    using LastIndex_append_last[of "CHR '':''" "'':latest''" ref] LastIndex_append_none[of slash "'':latest''" ref]
      LastIndex_bound[of ref slash] by (simp add: LastIndex_def[of "'':latest''"])
  then show ?thesis by (auto simp: ensureTagOrDigest_def has_version_def)
qed

lemma resolveImageRef_normal:
  "has_registry (resolveImageRef ref) \<and> has_version (resolveImageRef ref) \<and>
   resolveImageRef (resolveImageRef ref) = resolveImageRef ref"
proof -
  have r: "has_registry (resolveImageRef ref)"
    using expandRegistry_has has_registry_append by (simp add: resolveImageRef_def ensureTagOrDigest_def)
  have v: "has_version (resolveImageRef ref)"
    using ensureTagOrDigest_has by (simp add: resolveImageRef_def)
  from v have "ensureTagOrDigest (resolveImageRef ref) = resolveImageRef ref"
    by (auto simp: ensureTagOrDigest_def has_version_def)
  with r v show ?thesis by (simp add: resolveImageRef_def[of "resolveImageRef ref"] expandRegistry_id)
qed

section \<open>The containerd client\<close>

definition containerdClient :: "('w, 'i) host \<Rightarrow> ('w, unit) action" where
  "containerdClient H = readA (cd_New H)"

definition pullContainerdImage :: "('w, 'i) host \<Rightarrow> string \<Rightarrow> ('w, 'i) action" where
  "pullContainerdImage H ref = bindA (containerdClient H) (\<lambda>_. wrapA ''agent: pull image'' (cd_Pull H ref))"

definition localContainerdImage :: "('w, 'i) host \<Rightarrow> string \<Rightarrow> ('w, 'i) action" where
  "localContainerdImage H ref =
     bindA (containerdClient H) (\<lambda>_. wrapA ''agent: look up built image'' (readA (cd_GetImage H ref)))"

record 'i containerdRunSpec =
  run_id :: string
  run_image :: 'i
  run_command :: "string list"
  run_env :: "(string, string) gomap"
  run_cpuMillis :: int64
  run_memBytes :: int64
  run_mounts :: "mount list"
  run_logPath :: string

definition env_slice :: "(string, string) gomap \<Rightarrow> string list" where
  "env_slice env = map (\<lambda>k. k @ ''='' @ lget env k) (sort (map fst env))"

definition spec_opts :: "string \<Rightarrow> 'i containerdRunSpec \<Rightarrow> 'i SpecOpt list" where
  "spec_opts hostname spec =
     [WithDefaultSpec, WithDefaultUnixDevices, WithImageConfig (run_image spec), WithEnv (env_slice (run_env spec)),
      WithHostNetwork, WithHostHostsFile, WithHostResolvconf, WithEnv [''HOSTNAME='' @ hostname]]
     @ (if run_command spec \<noteq> [] then [WithProcessArgs (run_command spec)] else [])
     @ (if run_mounts spec \<noteq> [] then [WithMounts (run_mounts spec)] else [])
     @ (if run_cpuMillis spec > 0 then [WithCPUCFS (wrap64 (run_cpuMillis spec * 100)) 100000] else [])
     @ (if run_memBytes spec > 0 then [WithMemoryLimit (run_memBytes spec)] else [])"

definition runContainerdContainer :: "('w, 'i) host \<Rightarrow> 'i containerdRunSpec \<Rightarrow> ('w, unit) action" where
  "runContainerdContainer H spec =
     bindA (containerdClient H) (\<lambda>_.
     bindA (wrapA ''agent: get hostname'' (readA (hs_Hostname H))) (\<lambda>hostname.
     bindA (wrapA ''agent: create container'' (cd_NewContainer H (run_id spec) (run_image spec) (spec_opts hostname spec))) (\<lambda>_ w.
       case cd_NewTask H (run_id spec) (run_logPath spec) w of
         (Inl err, w') \<Rightarrow> (Inl (ErrWrap ''agent: create task'' err), cd_ContainerDelete H (run_id spec) w')
       | (Inr _, w') \<Rightarrow>
           (case cd_Start H (run_id spec) w' of
              (Inl err, w'') \<Rightarrow>
                (Inl (ErrWrap ''agent: start task'' err),
                 cd_ContainerDelete H (run_id spec) (cd_TaskDelete H (run_id spec) w''))
            | (Inr _, w'') \<Rightarrow> (Inr (), w'')))))"

definition removeContainerdContainer :: "('w, 'i) host \<Rightarrow> string \<Rightarrow> 'w \<Rightarrow> 'w" where
  "removeContainerdContainer H ident w =
     (case cd_New H w of
        Inl err \<Rightarrow> w
      | Inr _ \<Rightarrow>
          (case cd_LoadContainer H ident w of
             Inl err \<Rightarrow> w
           | Inr _ \<Rightarrow> cd_ContainerDelete H ident
               (case cd_Task H ident w of Inl err \<Rightarrow> w | Inr _ \<Rightarrow> cd_TaskDelete H ident w)))"

definition containerdTasks :: "('w, 'i) host \<Rightarrow> 'w \<Rightarrow> task list res" where
  "containerdTasks H w = (case cd_New H w of Inl err \<Rightarrow> Inl err | Inr _ \<Rightarrow> cd_List H w)"

fun pid_loop :: "string \<Rightarrow> task list \<Rightarrow> int32 res" where
  "pid_loop ident [] = Inl (ErrText ''agent: task not found'')"
| "pid_loop ident (p # ps) = (if tsk_ID p = ident then Inr (wrap32 (tsk_Pid p)) else pid_loop ident ps)"

definition containerdTaskPID :: "('w, 'i) host \<Rightarrow> string \<Rightarrow> 'w \<Rightarrow> int32 res" where
  "containerdTaskPID H ident w = (case containerdTasks H w of Inl err \<Rightarrow> Inl err | Inr procs \<Rightarrow> pid_loop ident procs)"

definition statuses_of :: "task list \<Rightarrow> (string, bool) gomap" where
  "statuses_of procs = foldl (\<lambda>m p. AList.update (tsk_ID p) (tsk_Status p = TaskRunning) m) [] procs"

definition listContainerdTaskStatuses :: "('w, 'i) host \<Rightarrow> 'w \<Rightarrow> (string, bool) gomap res" where
  "listContainerdTaskStatuses H w =
     (case containerdTasks H w of Inl err \<Rightarrow> Inl err | Inr procs \<Rightarrow> Inr (statuses_of procs))"

text \<open>The listing maps each id to whether its task is running.\<close>

lemma bget_statuses_of:
  assumes "distinct (map tsk_ID procs)"
  shows "bget (statuses_of procs) ident \<longleftrightarrow> (\<exists>p \<in> set procs. tsk_ID p = ident \<and> tsk_Status p = TaskRunning)"
  using assms
proof (induction procs rule: rev_induct)
  case (snoc p procs)
  then have "bget (statuses_of (procs @ [p])) ident =
      (if ident = tsk_ID p then tsk_Status p = TaskRunning else bget (statuses_of procs) ident)"
    by (simp add: statuses_of_def)
  with snoc show ?case by (auto simp: image_iff)
qed (simp add: statuses_of_def bget_def)

section \<open>Image builds\<close>

definition cloneAuth :: "string \<Rightarrow> (string \<times> string) option" where
  "cloneAuth token = (if token = [] then None else Some (''x-access-token'', token))"

text \<open>The two Dockerfile templates, with the command line in place of the verb.\<close>

definition nodeDockerfileTemplate :: "string \<Rightarrow> string" where
  "nodeDockerfileTemplate cmd =
     join_with [newline] [''FROM node:21-alpine'', ''WORKDIR /app'', ''COPY . .'', ''RUN npm install --omit=dev'', cmd, []]"

definition nodeDockerfileWithBuildTemplate :: "string \<Rightarrow> string" where
  "nodeDockerfileWithBuildTemplate cmd =
     join_with [newline] [''FROM node:21-alpine'', ''WORKDIR /app'', ''COPY . .'', ''RUN npm install'',
       ''RUN npm run build'', ''RUN npm prune --omit=dev'', cmd, []]"

definition staticDockerfile :: string where
  "staticDockerfile = join_with [newline] [''FROM nginx:alpine'', ''COPY . /usr/share/nginx/html'', []]"

definition nodeDockerfile :: "('w, 'i) host \<Rightarrow> bytes \<Rightarrow> bytes" where
  "nodeDockerfile H pkgJSON =
     (let (pkgMain, scripts) = pkg_parse H pkgJSON;
          main = (if pkgMain = [] then ''index.js'' else pkgMain);
          cmd = (if lget scripts ''start'' = [] then ''CMD [\"node\", '' @ json_string H main @ '']''
                 else ''CMD [\"npm\", \"start\"]'')
      in if lget scripts ''build'' \<noteq> [] then nodeDockerfileWithBuildTemplate cmd else nodeDockerfileTemplate cmd)"

definition detectDockerfile :: "('w, 'i) host \<Rightarrow> string \<Rightarrow> 'w \<Rightarrow> bytes res" where
  "detectDockerfile H contextDir w =
     (case hs_ReadFile H (Join [contextDir, ''package.json'']) w of
        Inr pkgJSON \<Rightarrow> Inr (nodeDockerfile H pkgJSON)
      | Inl _ \<Rightarrow>
          (case hs_Stat H (Join [contextDir, ''index.html'']) w of
             Inr _ \<Rightarrow> Inr staticDockerfile
           | Inl _ \<Rightarrow> Inl (ErrText ''no supported stack detected (looked for package.json or index.html)'')))"

text \<open>The step that writes a Dockerfile when the repository has none.\<close>

definition ensureDockerfile :: "('w, 'i) host \<Rightarrow> string \<Rightarrow> string \<Rightarrow> ('w, unit) action" where
  "ensureDockerfile H contextDir dockerfileDir w =
     (case hs_Stat H (Join [dockerfileDir, ''Dockerfile'']) w of
        Inr _ \<Rightarrow> (Inr (), w)
      | Inl err \<Rightarrow>
          if \<not> os_IsNotExist err then (Inr (), w)
          else (case detectDockerfile H contextDir w of
                  Inl e \<Rightarrow> (Inl (ErrWrap ''agent'' e), w)
                | Inr generated \<Rightarrow>
                    wrapA ''agent: write generated Dockerfile''
                      (hs_WriteFile H (Join [dockerfileDir, ''Dockerfile'']) generated) w))"

definition image_tag :: "string \<Rightarrow> string" where
  "image_tag containerID = ''docker.io/library/'' @ containerID @ '':latest''"

definition buildctl_args :: "string \<Rightarrow> string \<Rightarrow> string \<Rightarrow> string \<Rightarrow> string list" where
  "buildctl_args buildkitAddr contextDir dockerfileDir imageTag =
     [''--addr'', buildkitAddr, ''build'', ''--frontend'', ''dockerfile.v0'',
      ''--local'', ''context='' @ contextDir, ''--local'', ''dockerfile='' @ dockerfileDir,
      ''--output'', ''type=image,name='' @ imageTag @ '',unpack=true'']"

definition buildImageFromSource :: "('w, 'i) host \<Rightarrow> string \<Rightarrow> string \<Rightarrow> string \<Rightarrow> string \<Rightarrow> BuildSource \<Rightarrow> ('w, string) action" where
  "buildImageFromSource H buildkitAddr workDir logDir containerID src =
     (let branch = (if bs_branch src = [] then ''main'' else bs_branch src);
          contextDir = (if bs_context_path src \<noteq> [] then Join [workDir, bs_context_path src] else workDir);
          dockerfileDir = (if bs_dockerfile_path src \<noteq> [] then Join [workDir, Dir (bs_dockerfile_path src)] else contextDir);
          imageTag = image_tag containerID
      in bindA (wrapA ''agent: clean build workdir'' (hs_RemoveAll H workDir)) (\<lambda>_.
         bindA (wrapA ''agent: create build workdir'' (hs_MkdirAll H workDir)) (\<lambda>_.
         bindA (wrapA ''agent: clone'' (hs_Clone H (bs_repo_url src) branch (cloneAuth (GetCloneToken H src)) workDir)) (\<lambda>_.
         bindA (if logDir = [] then ret ()
                else bindA (wrapA ''agent: create log dir'' (hs_MkdirAll H logDir)) (\<lambda>_.
                     wrapA ''agent: create build log'' (hs_Create H (buildLogFilePath logDir containerID)))) (\<lambda>_.
         bindA (if bs_dockerfile_path src = [] then ensureDockerfile H contextDir dockerfileDir else ret ()) (\<lambda>_.
         bindA (wrapA ''agent: buildctl build failed (see build logs)''
                  (hs_Buildctl H (buildctl_args buildkitAddr contextDir dockerfileDir imageTag))) (\<lambda>_.
         ret imageTag)))))))"

text \<open>
  The image a build returns is the one it told buildctl to export, and it needs no further
  resolution: looking it up and resolving the reference agree.
\<close>

lemma build_returns_exported_tag:
  assumes "buildImageFromSource H addr workDir logDir ident src w = (Inr tag, w')"
  shows "tag = image_tag ident"
    and "\<exists>c d w1. hs_Buildctl H (buildctl_args addr c d tag) w1 = (Inr (), w')"
  using assms by (auto simp: buildImageFromSource_def Let_def bindA_Inr ret_def)

section \<open>The WebAssembly runtime\<close>

definition wasmrt_New :: "('w, 'i) host \<Rightarrow> ('w, nat) action" where
  "wasmrt_New H =
     bindA (wz_NewRuntime H) (\<lambda>rt w.
       case wz_Instantiate H rt w of
         (Inl err, w') \<Rightarrow> (Inl (ErrWrap ''wasmrt: instantiate WASI'' err), wz_Close H rt w')
       | (Inr _, w') \<Rightarrow> (Inr rt, w'))"

text \<open>
  \<open>Runtime.Run\<close>: what running a module yields, from what instantiation reports: no error, an
  exit error with its code, or another error.
\<close>

datatype wasm_result = WasmDone | WasmExit int | WasmFailed error

fun wasmrt_Run :: "wasm_result \<Rightarrow> int res" where
  "wasmrt_Run WasmDone = Inr 0"
| "wasmrt_Run (WasmExit code) = Inr code"
| "wasmrt_Run (WasmFailed err) = Inl (ErrWrap ''wasmrt: run'' err)"

end
