(* ===== verification/Agent.thy ===== *)
theory Agent
  imports Containers
begin

text \<open>
  The node agent: the table of running pods (\<open>internal/agent/process.go\<close>) and the reconcile
  loop (\<open>internal/agent/agent.go\<close>), on the node of theory Containers and the API server's
  client. The loop is single-threaded; what runs beside it (processes that end, the
  containerd daemon) enters as steps of the environment. The exit channel holds 32 events: a
  send of the loop itself to a full channel never returns, since the loop is its only reader,
  and is modelled by \<open>None\<close>.
\<close>

section \<open>State\<close>

record exitEvent =
  ev_key :: string
  ev_exitCode :: int

record trackedProcess =
  tp_pod :: Pod
  tp_cmd :: "int option"
  tp_wasmRuntime :: "nat option"
  tp_containerID :: string
  tp_restarts :: int32

record AgentConfig =
  ac_NodeName :: string
  ac_InternalIP :: string
  ac_LogDir :: string
  ac_BuildDir :: string
  ac_BuildkitAddr :: string
  ac_VolumesDir :: string

text \<open>A status report, as the agent sends it.\<close>

record StatusReport =
  sr_Namespace :: string
  sr_Name :: string
  sr_Status :: PodStatus

text \<open>
  The client of the pod service; an answer to a status update is only logged.
\<close>

record 'w PodClient =
  pc_ListPods :: "'w \<Rightarrow> Pod list res"
  pc_UpdatePodStatus :: "StatusReport \<Rightarrow> 'w \<Rightarrow> 'w"

text \<open>
  The agent's state: the process table, the streaks of missing tasks, the exit channel, the
  reports sent so far (newest last), and the world outside.
\<close>

record 'w agent =
  ag_procs :: "(string, trackedProcess) gomap"
  ag_missing :: "(string, int) gomap"
  ag_exited :: "exitEvent list"
  ag_reports :: "StatusReport list"
  ag_world :: 'w

definition newProcessRuntime :: "'w \<Rightarrow> 'w agent" where
  "newProcessRuntime w = \<lparr>ag_procs = [], ag_missing = [], ag_exited = [], ag_reports = [], ag_world = w\<rparr>"

definition exitedCapacity :: nat where "exitedCapacity = 32"
definition containerdMissingConfirmations :: int where "containerdMissingConfirmations = 3"

definition podKey :: "Pod \<Rightarrow> string" where
  "podKey pod = pod_namespace pod @ ''/'' @ pod_name pod"

definition containerName :: "Pod \<Rightarrow> string" where
  "containerName pod = containerNameRaw (pod_namespace pod) (pod_name pod)"

definition firstContainer :: "Pod \<Rightarrow> Container option" where
  "firstContainer pod = (case pod_containers pod of [] \<Rightarrow> None | c # cs \<Rightarrow> Some c)"

section \<open>The process table\<close>

definition has :: "'w agent \<Rightarrow> string \<Rightarrow> bool" where
  "has a key \<longleftrightarrow> map_of (ag_procs a) key \<noteq> None"

definition keys :: "'w agent \<Rightarrow> string list" where
  "keys a = map fst (ag_procs a)"

definition restartCount :: "'w agent \<Rightarrow> string \<Rightarrow> int32" where
  "restartCount a key = (case map_of (ag_procs a) key of None \<Rightarrow> 0 | Some tp \<Rightarrow> tp_restarts tp)"

definition podOf :: "'w agent \<Rightarrow> string \<Rightarrow> Pod option" where
  "podOf a key = map_option tp_pod (map_of (ag_procs a) key)"

definition memoryUsageBytes :: "('w, 'i) host \<Rightarrow> 'w agent \<Rightarrow> string \<Rightarrow> int64" where
  "memoryUsageBytes H a key =
     (case map_of (ag_procs a) key of
        None \<Rightarrow> 0
      | Some tp \<Rightarrow>
          (let pid = (if tp_containerID tp \<noteq> [] then
                        (case containerdTaskPID H (tp_containerID tp) (ag_world a) of Inl err \<Rightarrow> None | Inr found \<Rightarrow> Some found)
                      else map_option wrap32 (tp_cmd tp))
           in case pid of
                None \<Rightarrow> 0
              | Some p \<Rightarrow> (case hs_RSS H p (ag_world a) of Inl err \<Rightarrow> 0 | Inr rss \<Rightarrow> rss)))"

text \<open>An action on the world, run inside the agent's state.\<close>

definition onWorld :: "('w, 'a) action \<Rightarrow> ('w agent, 'a) action" where
  "onWorld m a = (case m (ag_world a) of (r, w) \<Rightarrow> (r, a\<lparr>ag_world := w\<rparr>))"

text \<open>
  Adding a process: a new entry keeps the restart count of the entry it replaces.
\<close>

definition track :: "Pod \<Rightarrow> int option \<Rightarrow> nat option \<Rightarrow> string \<Rightarrow> 'w agent \<Rightarrow> 'w agent" where
  "track pod cmd rt cid a =
     a\<lparr>ag_procs := AList.update (podKey pod)
         \<lparr>tp_pod = pod, tp_cmd = cmd, tp_wasmRuntime = rt, tp_containerID = cid,
          tp_restarts = restartCount a (podKey pod)\<rparr> (ag_procs a)\<rparr>"

definition ensureVolumeDir :: "('w, 'i) host \<Rightarrow> AgentConfig \<Rightarrow> string \<Rightarrow> string \<Rightarrow> ('w, string) action" where
  "ensureVolumeDir H cfg namespace volumeName =
     (let dir = Join [ac_VolumesDir cfg, namespace, volumeName]
      in bindA (wrapA ''agent: create volume dir'' (hs_MkdirAll H dir))
           (\<lambda>_. wrapA ''agent: resolve volume dir'' (readA (hs_Abs H dir))))"

fun mounts_loop :: "('w, 'i) host \<Rightarrow> AgentConfig \<Rightarrow> string \<Rightarrow> VolumeMount list \<Rightarrow> ('w, mount list) action" where
  "mounts_loop H cfg namespace [] = ret []"
| "mounts_loop H cfg namespace (m # ms) =
     bindA (ensureVolumeDir H cfg namespace (mnt_volume_name m)) (\<lambda>volDir.
     bindA (mounts_loop H cfg namespace ms) (\<lambda>rest.
     ret (\<lparr>mount_Type = ''bind'', mount_Source = volDir, mount_Destination = mnt_mount_path m,
           mount_Options = [''rbind'', if mnt_read_only m then ''ro'' else ''rw'']\<rparr> # rest)))"

definition container_image :: "('w, 'i) host \<Rightarrow> AgentConfig \<Rightarrow> string \<Rightarrow> Container option \<Rightarrow> ('w, 'i) action" where
  "container_image H cfg ident c =
     (case Container_GetBuildSource c of
        Some src \<Rightarrow>
          (let buildDir = (if ac_BuildDir cfg = [] then Join [hs_TempDir H, ''nimbus-builds''] else ac_BuildDir cfg);
               buildkitAddr = (if ac_BuildkitAddr cfg = [] then ''unix:///run/buildkit/buildkitd.sock'' else ac_BuildkitAddr cfg)
           in bindA (buildImageFromSource H buildkitAddr (Join [buildDir, ident]) (ac_LogDir cfg) ident src)
                (localContainerdImage H))
      | None \<Rightarrow> pullContainerdImage H (resolveImageRef (Container_GetImage c)))"

definition container_log :: "('w, 'i) host \<Rightarrow> AgentConfig \<Rightarrow> string \<Rightarrow> ('w, string) action" where
  "container_log H cfg ident =
     (if ac_LogDir cfg = [] then ret []
      else bindA (wrapA ''agent: create log dir'' (hs_MkdirAll H (ac_LogDir cfg))) (\<lambda>_.
           bindA (wrapA ''agent: resolve log path'' (readA (hs_Abs H (logFilePath (ac_LogDir cfg) ident)))) (\<lambda>logPath w.
           (Inr logPath, hs_Remove H logPath w))))"

definition startContainerd :: "('w, 'i) host \<Rightarrow> AgentConfig \<Rightarrow> Pod \<Rightarrow> ('w agent, unit) action" where
  "startContainerd H cfg pod =
     (let c = firstContainer pod;
          ident = containerName pod;
          limits = ResourceRequirements_GetLimits (Container_GetResources c)
      in bindA (onWorld (\<lambda>w. (Inr (), removeContainerdContainer H ident w))) (\<lambda>_.
         bindA (onWorld (container_image H cfg ident c)) (\<lambda>image.
         bindA (onWorld (container_log H cfg ident)) (\<lambda>logPath.
         bindA (onWorld (if ac_VolumesDir cfg = [] then ret []
                         else mounts_loop H cfg (pod_namespace pod) (PodSpec_GetVolumes (pod_spec pod)))) (\<lambda>mounts.
         bindA (onWorld (runContainerdContainer H
                  \<lparr>run_id = ident, run_image = image, run_command = Container_GetCommand c, run_env = Container_GetEnv c,
                   run_cpuMillis = ResourceList_GetCpuMillis limits, run_memBytes = ResourceList_GetMemoryBytes limits,
                   run_mounts = mounts, run_logPath = logPath\<rparr>)) (\<lambda>_ a.
         (Inr (), track pod None None ident a)))))))"

definition startProcess :: "('w, 'i) host \<Rightarrow> Pod \<Rightarrow> ('w agent, unit) action" where
  "startProcess H pod =
     (let args = Container_GetCommand (firstContainer pod)
      in if args = [] then throw (ErrText ''agent: pod has neither a command nor a wasm_module_path to run'')
         else bindA (onWorld (hs_ExecStart H args)) (\<lambda>pid a. (Inr (), track pod (Some pid) None [] a)))"

definition startWASM :: "('w, 'i) host \<Rightarrow> Pod \<Rightarrow> string \<Rightarrow> ('w agent, unit) action" where
  "startWASM H pod modulePath =
     bindA (onWorld (wrapA ''agent: read wasm module'' (readA (hs_ReadFile H modulePath)))) (\<lambda>wasmBytes.
     bindA (onWorld (wrapA ''agent: init wasm runtime'' (wasmrt_New H))) (\<lambda>rt a.
     (Inr (), track pod None (Some rt) [] a)))"

definition start :: "('w, 'i) host \<Rightarrow> AgentConfig \<Rightarrow> Pod \<Rightarrow> ('w agent, unit) action" where
  "start H cfg pod =
     (let c = firstContainer pod
      in if Container_GetWasmModulePath c \<noteq> [] then startWASM H pod (Container_GetWasmModulePath c)
         else if Container_GetImage c \<noteq> [] \<or> Container_GetBuildSource c \<noteq> None then startContainerd H cfg pod
         else startProcess H pod)"

definition adoptIfRunning :: "('w, 'i) host \<Rightarrow> Pod \<Rightarrow> 'w agent \<Rightarrow> bool \<times> 'w agent" where
  "adoptIfRunning H pod a =
     (let c = firstContainer pod; ident = containerName pod
      in if Container_GetImage c = [] \<and> Container_GetBuildSource c = None then (False, a)
         else case listContainerdTaskStatuses H (ag_world a) of
           Inl err \<Rightarrow> (False, a)
         | Inr statuses \<Rightarrow>
             if \<not> bget statuses ident then (False, a)
             else (True, a\<lparr>ag_procs := AList.update (podKey pod)
                     \<lparr>tp_pod = pod, tp_cmd = None, tp_wasmRuntime = None, tp_containerID = ident, tp_restarts = 0\<rparr>
                     (ag_procs a)\<rparr>))"

text \<open>The body of the loop of \<open>checkContainerdExits\<close>: the new streaks and the exits found.\<close>

fun exits_loop :: "(string, bool) gomap \<Rightarrow> (string, trackedProcess) gomap \<Rightarrow> (string, int) gomap \<Rightarrow>
    (string, int) gomap \<times> exitEvent list" where
  "exits_loop statuses [] missing = (missing, [])"
| "exits_loop statuses ((key, tp) # procs) missing =
     (if tp_containerID tp = [] then exits_loop statuses procs missing
      else if bget statuses (tp_containerID tp) then exits_loop statuses procs (AList.delete key missing)
      else let n = iget missing key + 1
           in if n < containerdMissingConfirmations then exits_loop statuses procs (AList.update key n missing)
              else case exits_loop statuses procs (AList.delete key missing) of
                (missing', exits) \<Rightarrow> (missing', \<lparr>ev_key = key, ev_exitCode = - 1\<rparr> # exits))"

text \<open>
  Sending the exits, one after the other: \<open>None\<close> when a send finds the channel full, since the
  loop that reads the channel is the one that sends. The goroutines of the processes send on
  the same channel; as nothing is read during a tick, a report that arrives in the middle of it
  takes the same room as one that arrives just before.
\<close>

fun send_exits :: "exitEvent list \<Rightarrow> 'w agent \<Rightarrow> 'w agent option" where
  "send_exits [] a = Some a"
| "send_exits (ev # evs) a =
     (if length (ag_exited a) < exitedCapacity then send_exits evs (a\<lparr>ag_exited := ag_exited a @ [ev]\<rparr>) else None)"

lemma send_exits_eq:
  "send_exits evs a =
     (if evs = [] \<or> length (ag_exited a) + length evs \<le> exitedCapacity then Some (a\<lparr>ag_exited := ag_exited a @ evs\<rparr>) else None)"
  by (induction evs a rule: send_exits.induct) auto

definition checkContainerdExits :: "('w, 'i) host \<Rightarrow> 'w agent \<Rightarrow> 'w agent option" where
  "checkContainerdExits H a =
     (case listContainerdTaskStatuses H (ag_world a) of
        Inl err \<Rightarrow> Some a
      | Inr statuses \<Rightarrow>
          (case exits_loop statuses (ag_procs a) (ag_missing a) of
             (missing, exits) \<Rightarrow> send_exits exits (a\<lparr>ag_missing := missing\<rparr>)))"

definition stillRunning :: "('w, 'i) host \<Rightarrow> 'w agent \<Rightarrow> string \<Rightarrow> bool" where
  "stillRunning H a key =
     (case map_of (ag_procs a) key of
        None \<Rightarrow> False
      | Some tp \<Rightarrow>
          tp_containerID tp \<noteq> [] \<and>
          (case listContainerdTaskStatuses H (ag_world a) of Inl err \<Rightarrow> False | Inr statuses \<Rightarrow> bget statuses (tp_containerID tp)))"

definition restart :: "('w, 'i) host \<Rightarrow> AgentConfig \<Rightarrow> Pod \<Rightarrow> ('w agent, unit) action" where
  "restart H cfg pod a =
     start H cfg pod
       (case map_of (ag_procs a) (podKey pod) of
          None \<Rightarrow> a
        | Some tp \<Rightarrow> a\<lparr>ag_procs := AList.update (podKey pod) (tp\<lparr>tp_restarts := wrap32 (tp_restarts tp + 1)\<rparr>) (ag_procs a)\<rparr>)"

definition stop :: "('w, 'i) host \<Rightarrow> string \<Rightarrow> 'w agent \<Rightarrow> 'w agent" where
  "stop H key a =
     (case map_of (ag_procs a) key of
        None \<Rightarrow> a
      | Some tp \<Rightarrow>
          (let w1 = (if tp_containerID tp \<noteq> [] then removeContainerdContainer H (tp_containerID tp) (ag_world a) else ag_world a);
               w2 = (case tp_cmd tp of None \<Rightarrow> w1 | Some pid \<Rightarrow> hs_Kill H pid w1);
               w3 = (case tp_wasmRuntime tp of None \<Rightarrow> w2 | Some rt \<Rightarrow> wz_Close H rt w2)
           in a\<lparr>ag_procs := AList.delete key (ag_procs a), ag_world := w3\<rparr>))"

definition stopAll :: "('w, 'i) host \<Rightarrow> 'w agent \<Rightarrow> 'w agent" where
  "stopAll H a = foldl (\<lambda>a key. stop H key a) a (keys a)"

section \<open>The reconcile loop\<close>

definition reportStatus :: "'w PodClient \<Rightarrow> Pod \<Rightarrow> PodPhase \<Rightarrow> string \<Rightarrow> int32 \<Rightarrow> int64 \<Rightarrow> 'w agent \<Rightarrow> 'w agent" where
  "reportStatus P pod phase message restarts memory a =
     (let rep = \<lparr>sr_Namespace = pod_namespace pod, sr_Name = pod_name pod,
                 sr_Status = zero_PodStatus\<lparr>pst_phase := phase, pst_message := message, pst_restart_count := restarts,
                   pst_memory_usage_bytes := memory\<rparr>\<rparr>
      in a\<lparr>ag_reports := ag_reports a @ [rep], ag_world := pc_UpdatePodStatus P rep (ag_world a)\<rparr>)"

definition startPod :: "('w, 'i) host \<Rightarrow> 'w PodClient \<Rightarrow> AgentConfig \<Rightarrow> Pod \<Rightarrow> 'w agent \<Rightarrow> 'w agent" where
  "startPod H P cfg pod a =
     (case start H cfg pod a of
        (Inl err, a') \<Rightarrow> reportStatus P pod POD_PHASE_FAILED (error_text err) 0 0 a'
      | (Inr _, a') \<Rightarrow> reportStatus P pod POD_PHASE_RUNNING [] 0 0 a')"

text \<open>The pods bound to the node, by key; a later pod replaces an earlier one with its key.\<close>

definition desired_pods :: "string \<Rightarrow> Pod list \<Rightarrow> (string, Pod) gomap" where
  "desired_pods node pods =
     foldl (\<lambda>m pod. if pod_node pod \<noteq> node then m else AList.update (podKey pod) pod m) [] pods"

fun orphan_loop :: "('w, 'i) host \<Rightarrow> string list \<Rightarrow> string list \<Rightarrow> 'w \<Rightarrow> 'w" where
  "orphan_loop H wanted [] w = w"
| "orphan_loop H wanted (name # names) w =
     (if \<not> HasPrefix name ''nimbus-'' \<or> name \<in> set wanted then orphan_loop H wanted names w
      else orphan_loop H wanted names (removeContainerdContainer H name w))"

definition reconcileOrphanContainers :: "('w, 'i) host \<Rightarrow> (string, Pod) gomap \<Rightarrow> 'w agent \<Rightarrow> 'w agent" where
  "reconcileOrphanContainers H desired a =
     (case listContainerdTaskStatuses H (ag_world a) of
        Inl err \<Rightarrow> a
      | Inr statuses \<Rightarrow>
          a\<lparr>ag_world := orphan_loop H (map (\<lambda>(k, pod). containerName pod) desired) (map fst statuses) (ag_world a)\<rparr>)"

fun start_loop :: "('w, 'i) host \<Rightarrow> 'w PodClient \<Rightarrow> AgentConfig \<Rightarrow> (string, Pod) gomap \<Rightarrow> 'w agent \<Rightarrow> 'w agent" where
  "start_loop H P cfg [] a = a"
| "start_loop H P cfg ((key, pod) # desired) a =
     start_loop H P cfg desired
       (if has a key then a
        else case adoptIfRunning H pod a of (adopted, a') \<Rightarrow> if adopted then a' else startPod H P cfg pod a')"

fun stop_loop :: "('w, 'i) host \<Rightarrow> (string, Pod) gomap \<Rightarrow> string list \<Rightarrow> 'w agent \<Rightarrow> 'w agent" where
  "stop_loop H desired [] a = a"
| "stop_loop H desired (key # ks) a =
     stop_loop H desired ks (if map_of desired key = None then stop H key a else a)"

fun report_loop :: "('w, 'i) host \<Rightarrow> 'w PodClient \<Rightarrow> string list \<Rightarrow> 'w agent \<Rightarrow> 'w agent" where
  "report_loop H P [] a = a"
| "report_loop H P (key # ks) a =
     report_loop H P ks
       (case podOf a key of
          None \<Rightarrow> a
        | Some pod \<Rightarrow> reportStatus P pod POD_PHASE_RUNNING [] (restartCount a key) (memoryUsageBytes H a key) a)"

definition reconcile :: "('w, 'i) host \<Rightarrow> 'w PodClient \<Rightarrow> AgentConfig \<Rightarrow> 'w agent \<Rightarrow> 'w agent option" where
  "reconcile H P cfg a =
     (case pc_ListPods P (ag_world a) of
        Inl err \<Rightarrow> Some a
      | Inr items \<Rightarrow>
          (let desired = desired_pods (ac_NodeName cfg) items
           in case checkContainerdExits H a of
                None \<Rightarrow> None
              | Some a1 \<Rightarrow>
                  (let a2 = reconcileOrphanContainers H desired a1;
                       a3 = start_loop H P cfg desired a2;
                       a4 = stop_loop H desired (keys a3) a3
                   in Some (report_loop H P (keys a4) a4))))"

definition should_restart :: "RestartPolicy \<Rightarrow> int \<Rightarrow> bool" where
  "should_restart policy exitCode \<longleftrightarrow>
     policy = RESTART_POLICY_UNSPECIFIED \<or> policy = RESTART_POLICY_ALWAYS \<or>
     (policy = RESTART_POLICY_ON_FAILURE \<and> exitCode \<noteq> 0)"

definition handleExit :: "('w, 'i) host \<Rightarrow> 'w PodClient \<Rightarrow> AgentConfig \<Rightarrow> exitEvent \<Rightarrow> 'w agent \<Rightarrow> 'w agent" where
  "handleExit H P cfg ev a =
     (case podOf a (ev_key ev) of
        None \<Rightarrow> a
      | Some pod \<Rightarrow>
          if stillRunning H a (ev_key ev) then a
          else if should_restart (PodSpec_GetRestartPolicy (pod_spec pod)) (ev_exitCode ev) then
            (case restart H cfg pod a of
               (Inl err, a') \<Rightarrow> reportStatus P pod POD_PHASE_FAILED (error_text err) (restartCount a' (ev_key ev)) 0 a'
             | (Inr _, a') \<Rightarrow> reportStatus P pod POD_PHASE_RUNNING [] (restartCount a' (ev_key ev)) 0 a')
          else reportStatus P pod (if ev_exitCode ev \<noteq> 0 then POD_PHASE_FAILED else POD_PHASE_SUCCEEDED) [] 0 0
                 (stop H (ev_key ev) a))"

text \<open>
  The steps of the agent: a tick, an exit event taken from the channel, and the environment:
  a process that reports its exit when the channel has room, and any change of the world.
\<close>

inductive agent_step :: "('w, 'i) host \<Rightarrow> 'w PodClient \<Rightarrow> AgentConfig \<Rightarrow> 'w agent \<Rightarrow> 'w agent \<Rightarrow> bool"
  for H P cfg where
  tick: "reconcile H P cfg a = Some a' \<Longrightarrow> agent_step H P cfg a a'"
| exit: "ag_exited a = ev # evs \<Longrightarrow> agent_step H P cfg a (handleExit H P cfg ev (a\<lparr>ag_exited := evs\<rparr>))"
| proc: "length (ag_exited a) < exitedCapacity \<Longrightarrow> agent_step H P cfg a (a\<lparr>ag_exited := ag_exited a @ [ev]\<rparr>)"
| world: "agent_step H P cfg a (a\<lparr>ag_world := w\<rparr>)"

inductive_cases agent_stepE: "agent_step H P cfg a a'"

abbreviation agent_steps :: "('w, 'i) host \<Rightarrow> 'w PodClient \<Rightarrow> AgentConfig \<Rightarrow> 'w agent \<Rightarrow> 'w agent \<Rightarrow> bool" where
  "agent_steps H P cfg \<equiv> (agent_step H P cfg)\<^sup>*\<^sup>*"

section \<open>The table invariant\<close>

text \<open>An entry has exactly one handle, and a container is the pod's own.\<close>

definition one_handle :: "trackedProcess \<Rightarrow> bool" where
  "one_handle tp \<longleftrightarrow>
     (tp_cmd tp \<noteq> None \<and> tp_wasmRuntime tp = None \<and> tp_containerID tp = []) \<or>
     (tp_cmd tp = None \<and> tp_wasmRuntime tp \<noteq> None \<and> tp_containerID tp = []) \<or>
     (tp_cmd tp = None \<and> tp_wasmRuntime tp = None \<and> tp_containerID tp = containerName (tp_pod tp))"

definition entry_ok :: "AgentConfig \<Rightarrow> string \<Rightarrow> trackedProcess \<Rightarrow> bool" where
  "entry_ok cfg key tp \<longleftrightarrow> key = podKey (tp_pod tp) \<and> pod_node (tp_pod tp) = ac_NodeName cfg \<and> one_handle tp"

definition agent_ok :: "AgentConfig \<Rightarrow> 'w agent \<Rightarrow> bool" where
  "agent_ok cfg a \<longleftrightarrow> distinct (keys a) \<and> length (ag_exited a) \<le> exitedCapacity \<and>
     (\<forall>key tp. map_of (ag_procs a) key = Some tp \<longrightarrow> entry_ok cfg key tp)"

lemma containerName_nonempty [simp]: "containerName pod \<noteq> []"
  by (simp add: containerName_def containerNameRaw_def)

lemma bindA_onWorld:
  "bindA (onWorld m) f a = (case m (ag_world a) of (Inl e, w) \<Rightarrow> (Inl e, a\<lparr>ag_world := w\<rparr>)
     | (Inr x, w) \<Rightarrow> f x (a\<lparr>ag_world := w\<rparr>))"
  by (auto simp: bindA_def onWorld_def split: prod.splits sum.splits)

lemma restartCount_world [simp]: "restartCount (a\<lparr>ag_world := w\<rparr>) key = restartCount a key"
  by (simp add: restartCount_def)

text \<open>
  Starting a pod changes the table only when it succeeds, and then only the pod's entry, and
  touches neither the channel nor the reports.
\<close>

definition started :: "Pod \<Rightarrow> 'w agent \<Rightarrow> unit res \<Rightarrow> 'w agent \<Rightarrow> bool" where
  "started pod a r a' \<longleftrightarrow>
     (case r of
        Inl e \<Rightarrow> \<exists>w. a' = a\<lparr>ag_world := w\<rparr>
      | Inr _ \<Rightarrow> \<exists>w tp. a' = a\<lparr>ag_world := w, ag_procs := AList.update (podKey pod) tp (ag_procs a)\<rparr> \<and>
          tp_pod tp = pod \<and> one_handle tp \<and> tp_restarts tp = restartCount a (podKey pod))"

lemma started_Inl: "started pod a (Inl e) (a\<lparr>ag_world := w\<rparr>)"
  by (auto simp: started_def)

lemma started_track:
  assumes "(cmd \<noteq> None \<and> rt = None \<and> cid = []) \<or> (cmd = None \<and> rt \<noteq> None \<and> cid = []) \<or>
    (cmd = None \<and> rt = None \<and> cid = containerName pod)"
  shows "started pod a (Inr ()) (track pod cmd rt cid (a\<lparr>ag_world := w\<rparr>))"
  using assms unfolding started_def track_def
  by (auto simp: one_handle_def intro!: exI[of _ w])

lemma started_start: "started pod a (fst (start H cfg pod a)) (snd (start H cfg pod a))"
proof -
  have "started pod a (fst (startWASM H pod m a)) (snd (startWASM H pod m a))" for m
    by (auto simp: startWASM_def bindA_onWorld started_Inl started_track split: prod.splits sum.splits)
  moreover have "started pod a (fst (startProcess H pod a)) (snd (startProcess H pod a))"
    using started_Inl[of pod a _ "ag_world a"]
    by (auto simp: startProcess_def Let_def throw_def bindA_onWorld started_Inl started_track split: prod.splits sum.splits)
  moreover have "started pod a (fst (startContainerd H cfg pod a)) (snd (startContainerd H cfg pod a))"
    by (auto simp: startContainerd_def Let_def bindA_onWorld started_Inl started_track split: prod.splits sum.splits)
  ultimately show ?thesis by (simp add: start_def Let_def)
qed

lemma agent_ok_world [simp]: "agent_ok cfg (a\<lparr>ag_world := w\<rparr>) = agent_ok cfg a"
  by (simp add: agent_ok_def keys_def)

lemma agent_ok_update:
  assumes "agent_ok cfg a" "entry_ok cfg key tp"
  shows "agent_ok cfg (a\<lparr>ag_procs := AList.update key tp (ag_procs a)\<rparr>)"
  using assms by (auto simp: agent_ok_def keys_def)

lemma agent_ok_started:
  assumes "agent_ok cfg a" "pod_node pod = ac_NodeName cfg" "started pod a r a'"
  shows "agent_ok cfg a'"
proof (cases r)
  case (Inr u)
  with assms(3) obtain w tp where a': "a' = a\<lparr>ag_world := w, ag_procs := AList.update (podKey pod) tp (ag_procs a)\<rparr>"
    "tp_pod tp = pod" "one_handle tp" by (auto simp: started_def)
  with agent_ok_update[of cfg "a\<lparr>ag_world := w\<rparr>" "podKey pod" tp] assms show ?thesis
    by (simp add: entry_ok_def)
qed (use assms in \<open>auto simp: started_def\<close>)

lemma reportStatus_fields [simp]:
  "ag_procs (reportStatus P pod ph msg rs mem a) = ag_procs a"
  "ag_exited (reportStatus P pod ph msg rs mem a) = ag_exited a"
  "ag_missing (reportStatus P pod ph msg rs mem a) = ag_missing a"
  by (simp_all add: reportStatus_def Let_def)

lemma agent_ok_report [simp]: "agent_ok cfg (reportStatus P pod ph msg rs mem a) = agent_ok cfg a"
  by (simp add: agent_ok_def keys_def)

lemma stop_fields [simp]:
  "ag_procs (stop H key a) = AList.delete key (ag_procs a)"
  "ag_exited (stop H key a) = ag_exited a" "ag_reports (stop H key a) = ag_reports a"
  by (auto simp: stop_def Let_def delete_id split: option.splits dest: map_of_eq_None_iff[THEN iffD1])

lemma agent_ok_stop: "agent_ok cfg a \<Longrightarrow> agent_ok cfg (stop H key a)"
  by (auto simp: agent_ok_def keys_def distinct_delete split: if_splits)

lemma agent_ok_startPod:
  "agent_ok cfg a \<Longrightarrow> pod_node pod = ac_NodeName cfg \<Longrightarrow> agent_ok cfg (startPod H P cfg pod a)"
  using agent_ok_started[OF _ _ started_start[of pod a H cfg]]
  by (auto simp: startPod_def split: prod.splits sum.splits)

lemma agent_ok_adopt:
  "agent_ok cfg a \<Longrightarrow> pod_node pod = ac_NodeName cfg \<Longrightarrow> agent_ok cfg (snd (adoptIfRunning H pod a))"
  by (auto simp: adoptIfRunning_def Let_def entry_ok_def one_handle_def intro!: agent_ok_update split: sum.splits)

lemma desired_pods_spec:
  "distinct (map fst (desired_pods node pods)) \<and>
   (\<forall>key pod. (key, pod) \<in> set (desired_pods node pods) \<longrightarrow> key = podKey pod \<and> pod_node pod = node \<and> pod \<in> set pods)"
proof (induction pods rule: rev_induct)
  case (snoc pod pods)
  let ?m = "desired_pods node pods"
  have step: "desired_pods node (pods @ [pod]) = (if pod_node pod \<noteq> node then ?m else AList.update (podKey pod) pod ?m)"
    by (simp add: desired_pods_def)
  show ?case
  proof (cases "pod_node pod = node")
    case True
    have "(k, p) = (podKey pod, pod) \<or> (k, p) \<in> set ?m" if "(k, p) \<in> set (AList.update (podKey pod) pod ?m)" for k p
      using that set_update_subset[of "podKey pod" pod ?m] by blast
    then have "\<forall>k p. (k, p) \<in> set (AList.update (podKey pod) pod ?m) \<longrightarrow> k = podKey p \<and> pod_node p = node \<and> p \<in> set (pods @ [pod])"
      using snoc True by fastforce
    with snoc True show ?thesis by (simp add: step AList.distinct_update)
  qed (use snoc step in auto)
qed (simp add: desired_pods_def)

lemma agent_ok_start_loop:
  "agent_ok cfg a \<Longrightarrow> \<forall>(key, pod) \<in> set desired. pod_node pod = ac_NodeName cfg \<Longrightarrow>
   agent_ok cfg (start_loop H P cfg desired a)"
proof (induction H P cfg desired a rule: start_loop.induct)
  case (2 H P cfg key pod desired a)
  have "agent_ok cfg (if has a key then a
        else case adoptIfRunning H pod a of (adopted, a') \<Rightarrow> if adopted then a' else startPod H P cfg pod a')"
    using 2(2,3) agent_ok_adopt[of cfg a pod H] agent_ok_startPod[of cfg "snd (adoptIfRunning H pod a)" pod H P]
    by (cases "adoptIfRunning H pod a") simp
  with 2 show ?case by simp
qed simp

lemma agent_ok_stop_loop: "agent_ok cfg a \<Longrightarrow> agent_ok cfg (stop_loop H desired ks a)"
  by (induction H desired ks a rule: stop_loop.induct) (simp_all add: agent_ok_stop)

lemma agent_ok_report_loop: "agent_ok cfg a \<Longrightarrow> agent_ok cfg (report_loop H P ks a)"
  by (induction H P ks a rule: report_loop.induct) (auto split: option.splits)

lemma agent_ok_checkExits: "agent_ok cfg a \<Longrightarrow> checkContainerdExits H a = Some a' \<Longrightarrow> agent_ok cfg a'"
  by (auto simp: checkContainerdExits_def send_exits_eq agent_ok_def keys_def split: sum.splits prod.splits if_splits)

lemma agent_ok_orphans: "agent_ok cfg a \<Longrightarrow> agent_ok cfg (reconcileOrphanContainers H desired a)"
  by (auto simp: reconcileOrphanContainers_def split: sum.splits)

lemma agent_ok_reconcile:
  assumes "agent_ok cfg a" "reconcile H P cfg a = Some a'" shows "agent_ok cfg a'"
proof (cases "pc_ListPods P (ag_world a)")
  case (Inr items)
  with assms(2) obtain a1 where a1: "checkContainerdExits H a = Some a1"
    by (auto simp: reconcile_def Let_def split: option.splits)
  have "\<forall>(key, pod) \<in> set (desired_pods (ac_NodeName cfg) items). pod_node pod = ac_NodeName cfg"
    using desired_pods_spec[of "ac_NodeName cfg" items] by auto
  from agent_ok_start_loop[OF agent_ok_orphans[OF agent_ok_checkExits[OF assms(1) a1]] this]
  show ?thesis using assms(2) Inr a1
    by (auto simp: reconcile_def Let_def intro!: agent_ok_report_loop agent_ok_stop_loop)
qed (use assms in \<open>simp add: reconcile_def\<close>)

lemma agent_ok_handleExit:
  assumes "agent_ok cfg a" shows "agent_ok cfg (handleExit H P cfg ev a)"
proof (cases "map_of (ag_procs a) (ev_key ev)")
  case (Some tp)
  let ?pod = "tp_pod tp"
  from assms Some have tp: "entry_ok cfg (ev_key ev) tp" by (simp add: agent_ok_def)
  then have key: "ev_key ev = podKey ?pod" and node: "pod_node ?pod = ac_NodeName cfg" by (simp_all add: entry_ok_def)
  from tp have "entry_ok cfg (ev_key ev) (tp\<lparr>tp_restarts := n\<rparr>)" for n by (simp add: entry_ok_def one_handle_def)
  note upd = agent_ok_update[OF assms this]
  have "agent_ok cfg (snd (restart H cfg ?pod a))"
    using agent_ok_started[OF upd node started_start] Some key by (simp add: restart_def)
  then show ?thesis
    using assms Some agent_ok_stop[OF assms]
    by (auto simp: handleExit_def podOf_def split: prod.splits sum.splits)
qed (simp add: handleExit_def podOf_def assms)

lemma agent_ok_step: "agent_step H P cfg a a' \<Longrightarrow> agent_ok cfg a \<Longrightarrow> agent_ok cfg a'"
proof (induction rule: agent_step.induct)
  case (exit a ev evs)
  then show ?case by (intro agent_ok_handleExit) (auto simp: agent_ok_def keys_def)
next
  case (tick a a')
  then show ?case by (blast intro: agent_ok_reconcile)
qed (auto simp: agent_ok_def keys_def)

text \<open>
  C11: the process table is well-typed in every state the agent can reach, whatever ticks,
  exits, failures of containerd and changes of the node come between: one entry per pod key,
  each for a pod bound to this node, holding exactly one handle (a process, a WebAssembly
  runtime or the container named after the pod), and never more than 32 events in the channel.
\<close>

theorem agent_table_well_typed:
  assumes "agent_steps H P cfg (newProcessRuntime w) a"
  shows "distinct (keys a) \<and> length (ag_exited a) \<le> exitedCapacity \<and>
    (\<forall>key tp. map_of (ag_procs a) key = Some tp \<longrightarrow>
       key = podKey (tp_pod tp) \<and> pod_node (tp_pod tp) = ac_NodeName cfg \<and> one_handle tp)"
proof -
  have "agent_ok cfg a"
    using assms
  proof (induction rule: rtranclp_induct)
    case base
    then show ?case by (simp add: newProcessRuntime_def agent_ok_def keys_def)
  qed (blast intro: agent_ok_step)
  then show ?thesis by (simp add: agent_ok_def entry_ok_def)
qed

section \<open>What a tick achieves\<close>

definition reports_phase :: "StatusReport \<Rightarrow> Pod \<Rightarrow> PodPhase \<Rightarrow> bool" where
  "reports_phase r pod phase \<longleftrightarrow> sr_Namespace r = pod_namespace pod \<and> sr_Name r = pod_name pod \<and> pst_phase (sr_Status r) = phase"

lemma has_world [simp]: "has (a\<lparr>ag_world := w\<rparr>) = has a"
  by (simp add: has_def fun_eq_iff)

lemma has_report [simp]: "has (reportStatus P pod ph msg rs mem a) = has a"
  by (simp add: has_def fun_eq_iff)

lemma reportStatus_reports:
  "\<exists>r. ag_reports (reportStatus P pod ph msg rs mem a) = ag_reports a @ [r] \<and> reports_phase r pod ph \<and>
     pst_restart_count (sr_Status r) = rs"
  by (simp add: reportStatus_def Let_def reports_phase_def)

text \<open>One pod of the tick: afterwards it is tracked, or its failure has been reported.\<close>

lemma startPod_outcome:
  "\<exists>new. ag_reports (startPod H P cfg pod a) = ag_reports a @ new \<and>
     (has (startPod H P cfg pod a) (podKey pod) \<or> (\<exists>r \<in> set new. reports_phase r pod POD_PHASE_FAILED)) \<and>
     (\<forall>key. has (startPod H P cfg pod a) key \<longrightarrow> has a key \<or> key = podKey pod) \<and>
     (\<forall>key. has a key \<longrightarrow> has (startPod H P cfg pod a) key)"
proof (cases "start H cfg pod a")
  case (Pair r a')
  note st = started_start[of pod a H cfg, unfolded Pair fst_conv snd_conv]
  show ?thesis
  proof (cases r)
    case (Inl e)
    with st obtain w where "a' = a\<lparr>ag_world := w\<rparr>" by (auto simp: started_def)
    then show ?thesis
      using Pair Inl reportStatus_reports[of P pod POD_PHASE_FAILED "error_text e" 0 0 a'] by (auto simp: startPod_def)
  next
    case (Inr u)
    with st obtain w tp where "a' = a\<lparr>ag_world := w, ag_procs := AList.update (podKey pod) tp (ag_procs a)\<rparr>"
      by (auto simp: started_def)
    then show ?thesis
      using Pair Inr reportStatus_reports[of P pod POD_PHASE_RUNNING "[]" 0 0 a'] by (auto simp: startPod_def has_def)
  qed
qed

definition start_one :: "('w, 'i) host \<Rightarrow> 'w PodClient \<Rightarrow> AgentConfig \<Rightarrow> string \<Rightarrow> Pod \<Rightarrow> 'w agent \<Rightarrow> 'w agent" where
  "start_one H P cfg key pod a =
     (if has a key then a
      else case adoptIfRunning H pod a of (adopted, a') \<Rightarrow> if adopted then a' else startPod H P cfg pod a')"

lemma start_one_outcome:
  assumes "key = podKey pod"
  shows "\<exists>new. ag_reports (start_one H P cfg key pod a) = ag_reports a @ new \<and>
     (has (start_one H P cfg key pod a) key \<or> (\<exists>r \<in> set new. reports_phase r pod POD_PHASE_FAILED)) \<and>
     (\<forall>k. has (start_one H P cfg key pod a) k \<longrightarrow> has a k \<or> k = key) \<and>
     (\<forall>k. has a k \<longrightarrow> has (start_one H P cfg key pod a) k)"
proof (cases "has a key")
  case False
  have ad: "(fst (adoptIfRunning H pod a) \<longrightarrow> ag_reports (snd (adoptIfRunning H pod a)) = ag_reports a \<and>
      (\<forall>k. has (snd (adoptIfRunning H pod a)) k \<longleftrightarrow> has a k \<or> k = key)) \<and>
      (\<not> fst (adoptIfRunning H pod a) \<longrightarrow> snd (adoptIfRunning H pod a) = a)"
    using assms by (auto simp: adoptIfRunning_def Let_def has_def split: sum.splits)
  show ?thesis
    using ad startPod_outcome[of H P cfg pod a] False assms
    by (cases "adoptIfRunning H pod a"; cases "fst (adoptIfRunning H pod a)") (auto simp: start_one_def)
qed (simp add: start_one_def)

lemma start_loop_Cons: "start_loop H P cfg ((key, pod) # desired) a = start_loop H P cfg desired (start_one H P cfg key pod a)"
  by (simp add: start_one_def)

lemma start_loop_outcome:
  assumes "\<forall>key pod. (key, pod) \<in> set desired \<longrightarrow> key = podKey pod"
  shows "\<exists>new. ag_reports (start_loop H P cfg desired a) = ag_reports a @ new \<and>
     (\<forall>key pod. (key, pod) \<in> set desired \<longrightarrow>
        has (start_loop H P cfg desired a) key \<or> (\<exists>r \<in> set new. reports_phase r pod POD_PHASE_FAILED)) \<and>
     (\<forall>k. has (start_loop H P cfg desired a) k \<longrightarrow> has a k \<or> k \<in> fst ` set desired) \<and>
     (\<forall>k. has a k \<longrightarrow> has (start_loop H P cfg desired a) k)"
  using assms
proof (induction desired arbitrary: a)
  case (Cons x desired)
  obtain key pod where x: "x = (key, pod)" by fastforce
  with Cons.prems have "key = podKey pod" by simp
  from start_one_outcome[OF this, of H P cfg a] obtain n1 where
    n1: "ag_reports (start_one H P cfg key pod a) = ag_reports a @ n1"
      "has (start_one H P cfg key pod a) key \<or> (\<exists>r \<in> set n1. reports_phase r pod POD_PHASE_FAILED)"
      "\<forall>k. has (start_one H P cfg key pod a) k \<longrightarrow> has a k \<or> k = key"
      "\<forall>k. has a k \<longrightarrow> has (start_one H P cfg key pod a) k" by blast
  from Cons.IH[of "start_one H P cfg key pod a"] Cons.prems obtain n2 where
    n2: "ag_reports (start_loop H P cfg (x # desired) a) = ag_reports (start_one H P cfg key pod a) @ n2"
      "\<forall>key pod. (key, pod) \<in> set desired \<longrightarrow>
        has (start_loop H P cfg (x # desired) a) key \<or> (\<exists>r \<in> set n2. reports_phase r pod POD_PHASE_FAILED)"
      "\<forall>k. has (start_loop H P cfg (x # desired) a) k \<longrightarrow> has (start_one H P cfg key pod a) k \<or> k \<in> fst ` set desired"
      "\<forall>k. has (start_one H P cfg key pod a) k \<longrightarrow> has (start_loop H P cfg (x # desired) a) k"
    unfolding x start_loop_Cons by auto
  show ?case
  proof (intro exI[of _ "n1 @ n2"] conjI allI impI)
    show "ag_reports (start_loop H P cfg (x # desired) a) = ag_reports a @ n1 @ n2" using n1 n2 by simp
    fix k p assume "(k, p) \<in> set (x # desired)"
    then consider "k = key" "p = pod" | "(k, p) \<in> set desired" using x by auto
    then show "has (start_loop H P cfg (x # desired) a) k \<or> (\<exists>r \<in> set (n1 @ n2). reports_phase r p POD_PHASE_FAILED)"
      unfolding set_append bex_Un using n1(2) n2(2,4) by cases blast+
  next
    fix k assume "has (start_loop H P cfg (x # desired) a) k"
    then show "has a k \<or> k \<in> fst ` set (x # desired)"
      using n1(3) n2(3) x unfolding list.set image_insert by auto
  next
    fix k assume "has a k"
    then show "has (start_loop H P cfg (x # desired) a) k" using n1(4) n2(4) by blast
  qed
qed simp

lemma stop_loop_outcome:
  "ag_reports (stop_loop H desired ks a) = ag_reports a \<and>
   (\<forall>k. has (stop_loop H desired ks a) k \<longleftrightarrow> has a k \<and> (k \<in> set ks \<longrightarrow> map_of desired k \<noteq> None))"
  by (induction H desired ks a rule: stop_loop.induct) (auto simp: has_def)

lemma report_loop_outcome:
  "ag_procs (report_loop H P ks a) = ag_procs a \<and>
   (\<exists>new. ag_reports (report_loop H P ks a) = ag_reports a @ new \<and>
     (\<forall>key tp. key \<in> set ks \<longrightarrow> map_of (ag_procs a) key = Some tp \<longrightarrow>
        (\<exists>r \<in> set new. reports_phase r (tp_pod tp) POD_PHASE_RUNNING \<and> pst_restart_count (sr_Status r) = tp_restarts tp)))"
proof (induction H P ks a rule: report_loop.induct)
  case (2 H P key ks a)
  let ?a = "case podOf a key of None \<Rightarrow> a
    | Some pod \<Rightarrow> reportStatus P pod POD_PHASE_RUNNING [] (restartCount a key) (memoryUsageBytes H a key) a"
  have procs: "ag_procs ?a = ag_procs a" by (simp split: option.splits)
  have "\<exists>new. ag_reports ?a = ag_reports a @ new \<and> (\<forall>tp. map_of (ag_procs a) key = Some tp \<longrightarrow>
      (\<exists>r \<in> set new. reports_phase r (tp_pod tp) POD_PHASE_RUNNING \<and> pst_restart_count (sr_Status r) = tp_restarts tp))"
  proof (cases "map_of (ag_procs a) key")
    case (Some tp)
    then have "podOf a key = Some (tp_pod tp)" "restartCount a key = tp_restarts tp"
      by (simp_all add: podOf_def restartCount_def)
    with Some reportStatus_reports[of P "tp_pod tp" POD_PHASE_RUNNING "[]" "tp_restarts tp" "memoryUsageBytes H a key" a]
    show ?thesis by auto
  qed (simp add: podOf_def)
  then obtain n1 where n1: "ag_reports ?a = ag_reports a @ n1" "\<forall>tp. map_of (ag_procs a) key = Some tp \<longrightarrow>
      (\<exists>r \<in> set n1. reports_phase r (tp_pod tp) POD_PHASE_RUNNING \<and> pst_restart_count (sr_Status r) = tp_restarts tp)" by blast
  from 2[unfolded procs] obtain n2 where n2: "ag_reports (report_loop H P ks ?a) = ag_reports ?a @ n2"
    "\<forall>key tp. key \<in> set ks \<longrightarrow> map_of (ag_procs a) key = Some tp \<longrightarrow>
        (\<exists>r \<in> set n2. reports_phase r (tp_pod tp) POD_PHASE_RUNNING \<and> pst_restart_count (sr_Status r) = tp_restarts tp)" by blast
  from 2 procs have "ag_procs (report_loop H P (key # ks) a) = ag_procs a" by simp
  moreover have "ag_reports (report_loop H P (key # ks) a) = ag_reports a @ n1 @ n2" using n1 n2 by simp
  moreover have "\<exists>r \<in> set (n1 @ n2). reports_phase r (tp_pod tp) POD_PHASE_RUNNING \<and> pst_restart_count (sr_Status r) = tp_restarts tp"
    if "k \<in> set (key # ks)" "map_of (ag_procs a) k = Some tp" for k tp
    using that n1(2) n2(2) unfolding set_append bex_Un by (cases "k = key") force+
  ultimately show ?case by blast
qed simp

lemma desired_keys:
  "fst ` set (desired_pods node pods) = podKey ` {pod \<in> set pods. pod_node pod = node}"
proof (induction pods rule: rev_induct)
  case (snoc pod pods)
  have "fst ` set (AList.update k v m) = insert k (fst ` set m)" for k :: string and v :: Pod and m
    by (induction m) auto
  with snoc show ?case by (auto simp: desired_pods_def)
qed (simp add: desired_pods_def)

text \<open>The phases of a tick that returns, and what stopping and reporting do over the whole table.\<close>

lemma tick_phases:
  assumes "pc_ListPods P (ag_world a) = Inr items" "reconcile H P cfg a = Some a'"
  shows "\<exists>a2 a3 a4. ag_reports a2 = ag_reports a \<and> a3 = start_loop H P cfg (desired_pods (ac_NodeName cfg) items) a2 \<and>
    a4 = stop_loop H (desired_pods (ac_NodeName cfg) items) (keys a3) a3 \<and> a' = report_loop H P (keys a4) a4"
proof -
  from assms obtain a1 where a1: "checkContainerdExits H a = Some a1"
    by (auto simp: reconcile_def Let_def split: option.splits)
  then have "ag_reports (reconcileOrphanContainers H D a1) = ag_reports a" for D
    by (auto simp: reconcileOrphanContainers_def checkContainerdExits_def send_exits_eq split: sum.splits prod.splits if_splits)
  with assms a1 show ?thesis by (auto simp: reconcile_def Let_def)
qed

lemma stop_rest_outcome:
  "ag_reports (stop_loop H desired (keys a) a) = ag_reports a \<and>
   (\<forall>k. has (stop_loop H desired (keys a) a) k \<longleftrightarrow> has a k \<and> k \<in> fst ` set desired)"
proof -
  have "k \<in> set (keys a)" if "has a k" for k using that by (auto simp: has_def keys_def map_of_eq_None_iff)
  then show ?thesis using stop_loop_outcome[of H desired "keys a" a] by (auto simp: map_of_eq_None_iff)
qed

lemma report_all_outcome:
  "has (report_loop H P (keys a) a) = has a \<and>
   (\<exists>new. ag_reports (report_loop H P (keys a) a) = ag_reports a @ new \<and>
     (\<forall>key tp. map_of (ag_procs (report_loop H P (keys a) a)) key = Some tp \<longrightarrow>
        (\<exists>r \<in> set new. reports_phase r (tp_pod tp) POD_PHASE_RUNNING \<and> pst_restart_count (sr_Status r) = tp_restarts tp)))"
proof -
  have "key \<in> set (keys a)" if "map_of (ag_procs a) key = Some tp" for key tp
    using that by (force simp: keys_def dest: map_of_SomeD)
  moreover have "ag_procs (report_loop H P (keys a) a) = ag_procs a"
    using report_loop_outcome[of H P "keys a" a] by blast
  ultimately show ?thesis
    using report_loop_outcome[of H P "keys a" a] by (simp add: has_def fun_eq_iff) blast
qed

text \<open>
  C7: a tick that gets the list of pods and returns brings the node in line with it. Only
  pods of the list that are bound to this node are tracked afterwards; every such pod is
  tracked, or a failure to start a pod with its key was reported; and every tracked pod has
  been reported as running, with its restart count, during the tick.
\<close>

theorem tick_converges:
  assumes "pc_ListPods P (ag_world a) = Inr items" "reconcile H P cfg a = Some a'"
  shows "\<exists>new. ag_reports a' = ag_reports a @ new \<and>
    (\<forall>key. has a' key \<longrightarrow> (\<exists>pod \<in> set items. pod_node pod = ac_NodeName cfg \<and> podKey pod = key)) \<and>
    (\<forall>pod \<in> set items. pod_node pod = ac_NodeName cfg \<longrightarrow> has a' (podKey pod) \<or>
       (\<exists>r \<in> set new. \<exists>pod' \<in> set items. podKey pod' = podKey pod \<and> reports_phase r pod' POD_PHASE_FAILED)) \<and>
    (\<forall>key tp. map_of (ag_procs a') key = Some tp \<longrightarrow>
       (\<exists>r \<in> set new. reports_phase r (tp_pod tp) POD_PHASE_RUNNING \<and> pst_restart_count (sr_Status r) = tp_restarts tp))"
proof -
  let ?D = "desired_pods (ac_NodeName cfg) items"
  from tick_phases[OF assms] obtain a2 a3 a4 where r2: "ag_reports a2 = ag_reports a" and a3: "a3 = start_loop H P cfg ?D a2"
    and a4: "a4 = stop_loop H ?D (keys a3) a3" and a': "a' = report_loop H P (keys a4) a4" by blast
  note ds = desired_pods_spec[of "ac_NodeName cfg" items] and keys = desired_keys[of "ac_NodeName cfg" items]
  from start_loop_outcome[of ?D H P cfg a2, folded a3] ds obtain n3 where
    n3: "ag_reports a3 = ag_reports a2 @ n3"
      "\<forall>key pod. (key, pod) \<in> set ?D \<longrightarrow> has a3 key \<or> (\<exists>r \<in> set n3. reports_phase r pod POD_PHASE_FAILED)"
    by blast
  note s4 = stop_rest_outcome[of H ?D a3, folded a4]
  from report_all_outcome[of H P a4, folded a'] obtain n5 where
    n5: "has a' = has a4" "ag_reports a' = ag_reports a4 @ n5"
      "\<forall>key tp. map_of (ag_procs a') key = Some tp \<longrightarrow>
        (\<exists>r \<in> set n5. reports_phase r (tp_pod tp) POD_PHASE_RUNNING \<and> pst_restart_count (sr_Status r) = tp_restarts tp)"
    by blast
  show ?thesis
  proof (intro exI[of _ "n3 @ n5"] conjI allI impI ballI)
    show "ag_reports a' = ag_reports a @ n3 @ n5" using n5(2) s4 n3(1) r2 by simp
    show "\<exists>pod \<in> set items. pod_node pod = ac_NodeName cfg \<and> podKey pod = key" if "has a' key" for key
      using that keys s4 unfolding n5(1) by force
    show "\<exists>r \<in> set (n3 @ n5). reports_phase r (tp_pod tp) POD_PHASE_RUNNING \<and> pst_restart_count (sr_Status r) = tp_restarts tp"
      if "map_of (ag_procs a') key = Some tp" for key tp
      using that n5(3) unfolding set_append bex_Un by blast
    fix pod assume pod: "pod \<in> set items" "pod_node pod = ac_NodeName cfg"
    with keys obtain pod' where pod': "(podKey pod, pod') \<in> set ?D" by force
    with ds have "podKey pod' = podKey pod" "pod' \<in> set items" by auto
    moreover have "has a4 (podKey pod) \<or> (\<exists>r \<in> set n3. reports_phase r pod' POD_PHASE_FAILED)"
      using n3(2)[rule_format, OF pod'] s4[THEN conjunct2, rule_format, of "podKey pod"] pod' by force
    ultimately show "has a' (podKey pod) \<or>
        (\<exists>r \<in> set (n3 @ n5). \<exists>pod' \<in> set items. podKey pod' = podKey pod \<and> reports_phase r pod' POD_PHASE_FAILED)"
      unfolding n5(1) by auto
  qed
qed

section \<open>Exits\<close>

text \<open>The streak and the event of one tracked container after one look at the tasks.\<close>

lemma exits_loop_other:
  "key \<notin> fst ` set procs \<Longrightarrow> iget (fst (exits_loop st procs m)) key = iget m key \<and>
   (\<forall>e \<in> set (snd (exits_loop st procs m)). ev_key e \<noteq> key)"
proof (induction st procs m rule: exits_loop.induct)
  case (2 st k tp procs m)
  have d: "iget (AList.delete k m) key = iget m key" using 2(5) by (simp add: iget_def)
  from 2 show ?case
    by (auto simp: Let_def d split: prod.splits)
qed simp

lemma iget_delete [simp]: "iget (AList.delete k m) k = 0"
  by (simp add: iget_def)

lemma exits_loop_key:
  assumes "distinct (map fst procs)" "map_of procs key = Some tp" "tp_containerID tp \<noteq> []"
  shows "iget (fst (exits_loop st procs m)) key =
      (if bget st (tp_containerID tp) \<or> iget m key + 1 \<ge> containerdMissingConfirmations then 0 else iget m key + 1)"
    and "(\<exists>e \<in> set (snd (exits_loop st procs m)). ev_key e = key) \<longleftrightarrow>
      \<not> bget st (tp_containerID tp) \<and> iget m key + 1 \<ge> containerdMissingConfirmations"
proof -
  have "iget (fst (exits_loop st procs m)) key =
      (if bget st (tp_containerID tp) \<or> iget m key + 1 \<ge> containerdMissingConfirmations then 0 else iget m key + 1) \<and>
    ((\<exists>e \<in> set (snd (exits_loop st procs m)). ev_key e = key) \<longleftrightarrow>
      \<not> bget st (tp_containerID tp) \<and> iget m key + 1 \<ge> containerdMissingConfirmations)"
    using assms
  proof (induction st procs m rule: exits_loop.induct)
    case (2 st k tp' procs m)
    show ?case
    proof (cases "k = key")
      case True
      with 2(5,6) have tp': "tp' = tp" and nin: "key \<notin> fst ` set procs" by simp_all
      note o = exits_loop_other[OF nin, of st]
      show ?thesis
        using True tp' 2(7) o[of "AList.delete key m"] o[of "AList.update key (iget m key + 1) m"]
        by (auto simp: Let_def not_less split: prod.splits)
    next
      case False
      have d: "iget (AList.delete k m) key = iget m key" "iget (AList.update k n m) key = iget m key" for n
        using False by (simp_all add: iget_def)
      from False 2(5-7) have pr: "distinct (map fst procs)" "map_of procs key = Some tp" "tp_containerID tp \<noteq> []" by simp_all
      show ?thesis
        using False 2(1)[OF _ pr] 2(2)[OF _ _ pr] 2(3)[OF _ _ refl _ pr] 2(4)[OF _ _ refl _ pr]
        by (auto simp: Let_def d split: prod.splits if_splits)
    qed
  qed simp
  then show "iget (fst (exits_loop st procs m)) key =
      (if bget st (tp_containerID tp) \<or> iget m key + 1 \<ge> containerdMissingConfirmations then 0 else iget m key + 1)"
    "(\<exists>e \<in> set (snd (exits_loop st procs m)). ev_key e = key) \<longleftrightarrow>
      \<not> bget st (tp_containerID tp) \<and> iget m key + 1 \<ge> containerdMissingConfirmations"
    by blast+
qed

text \<open>
  A series of looks, each at the tasks that run and the table of that moment, from any count of
  misses; and the misses in a row up to the last look.
\<close>

definition streaks :: "(string, int) gomap \<Rightarrow> ((string, bool) gomap \<times> (string, trackedProcess) gomap) list \<Rightarrow> (string, int) gomap" where
  "streaks m0 looks = foldl (\<lambda>m (st, procs). fst (exits_loop st procs m)) m0 looks"

definition in_a_row :: "nat \<Rightarrow> string \<Rightarrow> ((string, bool) gomap \<times> (string, trackedProcess) gomap) list \<Rightarrow> nat" where
  "in_a_row n0 ident looks =
     (if \<exists>(st, procs) \<in> set looks. bget st ident then length (takeWhile (\<lambda>(st, procs). \<not> bget st ident) (rev looks))
      else n0 + length looks)"

text \<open>The container is tracked under the key in every table of the series.\<close>

definition tracked :: "string \<Rightarrow> string \<Rightarrow> ((string, bool) gomap \<times> (string, trackedProcess) gomap) list \<Rightarrow> bool" where
  "tracked key ident looks \<longleftrightarrow> list_all (\<lambda>(st, procs). distinct (map fst procs) \<and>
     (case map_of procs key of None \<Rightarrow> False | Some tp \<Rightarrow> tp_containerID tp = ident)) looks"

lemma in_a_row_snoc:
  "in_a_row n0 ident (looks @ [(st, procs)]) = (if bget st ident then 0 else Suc (in_a_row n0 ident looks))"
  by (auto simp: in_a_row_def)

lemma in_a_row_tail:
  "n \<le> in_a_row 0 ident looks \<Longrightarrow> n \<le> length looks \<and> list_all (\<lambda>(st, procs). \<not> bget st ident) (drop (length looks - n) looks)"
proof (induction looks arbitrary: n rule: rev_induct)
  case (snoc x looks)
  obtain st procs where x: "x = (st, procs)" by fastforce
  show ?case
  proof (cases n)
    case (Suc m)
    with snoc.prems have "\<not> bget st ident" "m \<le> in_a_row 0 ident looks" by (auto simp: x in_a_row_snoc split: if_splits)
    with snoc.IH[of m] Suc show ?thesis by (simp add: x)
  qed simp
qed (simp add: in_a_row_def)

lemma streaks_in_a_row:
  assumes "ident \<noteq> []" "iget m0 key = int n0" "n0 < 3"
  shows "tracked key ident looks \<Longrightarrow> iget (streaks m0 looks) key = int (in_a_row n0 ident looks mod 3)"
proof (induction looks rule: rev_induct)
  case (snoc x looks)
  obtain st procs where x: "x = (st, procs)" by fastforce
  with snoc.prems obtain tp where tp: "distinct (map fst procs)" "map_of procs key = Some tp" "tp_containerID tp = ident"
    by (auto simp: tracked_def split: option.splits)
  have "iget (streaks m0 looks) key = int (in_a_row n0 ident looks mod 3)" using snoc by (simp add: tracked_def)
  with exits_loop_key(1)[OF tp(1,2), of st "streaks m0 looks"] tp(3) assms(1) show ?case
    by (auto simp: x streaks_def in_a_row_snoc containerdMissingConfirmations_def mod_Suc)
qed (use assms in \<open>simp add: streaks_def in_a_row_def\<close>)

text \<open>
  C25: a single hole in containerd's task list restarts nothing. Through any series of looks at the
  tasks during which a container stays tracked under its key, whatever happens to the other entries
  of the table, a look raises an exit event for it exactly when the task is missing and its
  count of misses in a row is a multiple of three, the misses since the last look in which it
  ran, or, if it ran in none, those of the whole series and the count the key had before. With no
  count before, the third miss in a row is the first to raise an event. The count before is not
  always zero: \<open>stop\<close> leaves it, so a pod that comes back under its key can be taken for exited
  at its first miss, as \<open>stale_streak\<close> shows below.
\<close>

theorem exit_after_three_misses:
  assumes "ident \<noteq> []" "tracked key ident (looks @ [(st, procs)])" "iget m0 key = int n0" "n0 < 3"
  shows "((\<exists>e \<in> set (snd (exits_loop st procs (streaks m0 looks))). ev_key e = key) \<longleftrightarrow>
      \<not> bget st ident \<and> 3 dvd in_a_row n0 ident (looks @ [(st, procs)])) \<and>
    (n0 = 0 \<longrightarrow> (\<exists>e \<in> set (snd (exits_loop st procs (streaks m0 looks))). ev_key e = key) \<longrightarrow>
      3 \<le> length looks + 1 \<and> list_all (\<lambda>(st, procs). \<not> bget st ident) (drop (length looks - 2) (looks @ [(st, procs)])))"
proof -
  from assms(2) obtain tp where tp: "distinct (map fst procs)" "map_of procs key = Some tp" "tp_containerID tp = ident"
    by (auto simp: tracked_def split: option.splits)
  have "tracked key ident looks" using assms(2) by (simp add: tracked_def)
  note str = streaks_in_a_row[OF assms(1,3,4) this]
  have "(Suc n mod 3 = 0) = (int (n mod 3) + 1 \<ge> 3)" for n :: nat by (auto simp: mod_Suc)
  then have iff: "(\<exists>e \<in> set (snd (exits_loop st procs (streaks m0 looks))). ev_key e = key) \<longleftrightarrow>
      \<not> bget st ident \<and> 3 dvd in_a_row n0 ident (looks @ [(st, procs)])"
    using exits_loop_key(2)[OF tp(1,2), of st "streaks m0 looks"] tp(3) assms(1)
    by (auto simp: str in_a_row_snoc containerdMissingConfirmations_def dvd_eq_mod_eq_0)
  have "3 \<le> length xs \<and> list_all (\<lambda>(st, procs). \<not> bget st ident) (drop (length xs - 3) xs)"
    if "3 \<le> in_a_row 0 ident xs" for xs
    using in_a_row_tail[OF that] by simp
  moreover have "3 \<le> in_a_row n0 ident (looks @ [(st, procs)])" if "\<not> bget st ident" "3 dvd in_a_row n0 ident (looks @ [(st, procs)])"
    using that dvd_imp_le[of 3 "in_a_row n0 ident (looks @ [(st, procs)])"] by (simp add: in_a_row_snoc)
  ultimately show ?thesis using iff by fastforce
qed

text \<open>
  The restart policy decides what an exit leads to. For the exit of a tracked pod whose
  task is not running again, a policy that restarts (always, unset, or on failure with a
  code other than zero) keeps the pod tracked with its restart count one higher, and that
  count is reported; any other exit ends the pod's entry and reports it as succeeded for code
  zero and failed otherwise. Exactly one report is sent.
\<close>

theorem exit_policy_exact:
  assumes "agent_ok cfg a" "podOf a (ev_key ev) = Some pod" "\<not> stillRunning H a (ev_key ev)"
    and "a' = handleExit H P cfg ev a"
  shows "\<exists>r. ag_reports a' = ag_reports a @ [r] \<and>
    (if should_restart (PodSpec_GetRestartPolicy (pod_spec pod)) (ev_exitCode ev)
     then has a' (ev_key ev) \<and> restartCount a' (ev_key ev) = wrap32 (restartCount a (ev_key ev) + 1) \<and>
       pst_restart_count (sr_Status r) = restartCount a' (ev_key ev) \<and>
       (reports_phase r pod POD_PHASE_RUNNING \<or> reports_phase r pod POD_PHASE_FAILED)
     else \<not> has a' (ev_key ev) \<and>
       reports_phase r pod (if ev_exitCode ev = 0 then POD_PHASE_SUCCEEDED else POD_PHASE_FAILED))"
proof -
  let ?key = "ev_key ev"
  from assms(2) obtain tp where tp: "map_of (ag_procs a) ?key = Some tp" "tp_pod tp = pod" by (auto simp: podOf_def)
  with assms(1) have key: "podKey pod = ?key" by (auto simp: agent_ok_def entry_ok_def)
  have count: "restartCount a ?key = tp_restarts tp" using tp by (simp add: restartCount_def)
  show ?thesis
  proof (cases "should_restart (PodSpec_GetRestartPolicy (pod_spec pod)) (ev_exitCode ev)")
    case True
    let ?b = "a\<lparr>ag_procs := AList.update ?key (tp\<lparr>tp_restarts := wrap32 (tp_restarts tp + 1)\<rparr>) (ag_procs a)\<rparr>"
    obtain r a1 where st: "start H cfg pod ?b = (r, a1)" by fastforce
    note s = started_start[of pod ?b H cfg, unfolded st fst_conv snd_conv]
    have b: "restartCount ?b ?key = wrap32 (tp_restarts tp + 1)" by (simp add: restartCount_def)
    have a1: "has a1 ?key" "restartCount a1 ?key = wrap32 (tp_restarts tp + 1)" "ag_reports a1 = ag_reports a"
      using s b key by (auto simp: started_def has_def restartCount_def split: sum.splits)
    have "a' = (case r of Inl err \<Rightarrow> reportStatus P pod POD_PHASE_FAILED (error_text err) (restartCount a1 ?key) 0 a1
        | Inr _ \<Rightarrow> reportStatus P pod POD_PHASE_RUNNING [] (restartCount a1 ?key) 0 a1)"
      using assms(2-4) True tp(1) key st by (simp add: handleExit_def restart_def)
    with a1 True count show ?thesis
      using reportStatus_reports[of P pod POD_PHASE_FAILED _ "restartCount a1 ?key" 0 a1]
        reportStatus_reports[of P pod POD_PHASE_RUNNING "[]" "restartCount a1 ?key" 0 a1]
      by (cases r) (force simp: restartCount_def[of "reportStatus _ _ _ _ _ _ _"] restartCount_def[of a1])+
  next
    case False
    then have "a' = reportStatus P pod (if ev_exitCode ev \<noteq> 0 then POD_PHASE_FAILED else POD_PHASE_SUCCEEDED) [] 0 0 (stop H ?key a)"
      using assms(2-4) by (simp add: handleExit_def)
    with False show ?thesis
      using reportStatus_reports[of P pod _ "[]" 0 0 "stop H ?key a"] by (auto simp: has_def)
  qed
qed

lemma start_loop_keeps: "\<forall>key pod. (key, pod) \<in> set desired \<longrightarrow> key = podKey pod \<Longrightarrow> has a k \<Longrightarrow> has (start_loop H P cfg desired a) k"
  using start_loop_outcome[of desired H P cfg a] by blast

lemma start_loop_starts:
  assumes "\<forall>key pod. (key, pod) \<in> set desired \<longrightarrow> key = podKey pod" "(key, pod) \<in> set desired"
    and "\<And>b. fst (start H cfg pod b) = Inr ()"
  shows "has (start_loop H P cfg desired a) key"
  using assms(1,2)
proof (induction desired arbitrary: a)
  case (Cons x desired)
  obtain k q where x: "x = (k, q)" by fastforce
  show ?case
  proof (cases "x = (key, pod)")
    case True
    with Cons.prems have key: "key = podKey pod" by simp
    have s: "has (startPod H P cfg pod b) key" for b
      using started_start[of pod b H cfg] assms(3)[of b] key
      by (cases "start H cfg pod b") (auto simp: startPod_def started_def has_def)
    have "has (start_one H P cfg key pod a) key"
      using start_one_outcome[OF key, of H P cfg a] s key
      by (cases "adoptIfRunning H pod a") (auto simp: start_one_def adoptIfRunning_def has_def Let_def split: sum.splits if_splits)
    with True Cons.prems show ?thesis unfolding True start_loop_Cons by (intro start_loop_keeps) auto
  next
    case False
    with Cons x show ?thesis unfolding x start_loop_Cons by (intro Cons.IH) auto
  qed
qed simp

text \<open>
  A pod that has finished is started again. The agent looks at the node a pod is bound to
  and not at its phase: as long as the API server lists it, the next tick starts a pod that
  has succeeded, whatever its restart policy, when its command can be started.
\<close>

theorem finished_pod_started_again:
  assumes "pc_ListPods P (ag_world a) = Inr items" "distinct (map podKey items)" "pod \<in> set items"
    and "pod_node pod = ac_NodeName cfg" "pod_phase pod = POD_PHASE_SUCCEEDED"
    and "PodSpec_GetRestartPolicy (pod_spec pod) = RESTART_POLICY_NEVER" "\<not> has a (podKey pod)"
    and "firstContainer pod = Some c" "ctr_image c = []" "ctr_build_source c = None" "ctr_wasm_module_path c = []" "ctr_command c \<noteq> []"
    and "\<And>args w. \<exists>pid w'. hs_ExecStart H args w = (Inr pid, w')"
    and "reconcile H P cfg a = Some a'"
  shows "has a' (podKey pod)"
proof -
  let ?D = "desired_pods (ac_NodeName cfg) items"
  note ds = desired_pods_spec[of "ac_NodeName cfg" items]
  have start: "fst (start H cfg pod b) = Inr ()" for b
    using assms(8-12) assms(13)[of "ctr_command c" "ag_world b"]
    by (auto simp: start_def startProcess_def Let_def bindA_onWorld)
  have inD: "(podKey pod, pod) \<in> set ?D"
  proof -
    from assms(3,4) have "podKey pod \<in> fst ` set ?D" using desired_keys[of "ac_NodeName cfg" items] by blast
    then obtain q where q: "(podKey pod, q) \<in> set ?D" by force
    with ds have "podKey q = podKey pod" "q \<in> set items" by auto
    with assms(2,3) have "q = pod" by (auto simp: distinct_map inj_on_def)
    with q show ?thesis by simp
  qed
  from assms(1,14) obtain a1 where a1: "checkContainerdExits H a = Some a1"
    by (auto simp: reconcile_def Let_def split: option.splits)
  define a3 where "a3 = start_loop H P cfg ?D (reconcileOrphanContainers H ?D a1)"
  define a4 where "a4 = stop_loop H ?D (keys a3) a3"
  have "has a3 (podKey pod)" 
    unfolding a3_def by (rule start_loop_starts[OF _ inD start]) (use ds in blast)
  moreover from inD obtain q where "map_of ?D (podKey pod) = Some q" using weak_map_of_SomeI by fastforce
  ultimately have h4: "has a4 (podKey pod)"
    using stop_loop_outcome[of H ?D "keys a3" a3] by (simp add: a4_def)
  have a': "a' = report_loop H P (keys a4) a4"
    using assms(1,14) a1 by (simp add: reconcile_def Let_def a3_def a4_def)
  with h4 show ?thesis using report_loop_outcome[of H P "keys a4" a4] by (simp add: has_def)
qed

section \<open>A concrete node\<close>

text \<open>
  A node for the examples: the world holds the pods of the API server and the tasks of
  containerd; images are their references; processes start with id 42.
\<close>

type_synonym ex_world = "Pod list \<times> task list"

definition ex_host :: "(ex_world, string) host" where
  "ex_host = \<lparr>cd_New = (\<lambda>w. Inr ()), cd_Pull = (\<lambda>ref w. (Inr ref, w)), cd_GetImage = (\<lambda>ref w. Inr ref),
     cd_NewContainer = (\<lambda>ident img opts w. (Inr (), w)), cd_NewTask = (\<lambda>ident log w. (Inr (), w)),
     cd_Start = (\<lambda>ident w. (Inr (), (fst w, snd w @ [\<lparr>tsk_ID = ident, tsk_Pid = 7, tsk_Status = TaskRunning\<rparr>]))),
     cd_TaskDelete = (\<lambda>ident w. (fst w, filter (\<lambda>t. tsk_ID t \<noteq> ident) (snd w))),
     cd_ContainerDelete = (\<lambda>ident w. w), cd_LoadContainer = (\<lambda>ident w. Inr ()), cd_Task = (\<lambda>ident w. Inr ()),
     cd_List = (\<lambda>w. Inr (snd w)), hs_Hostname = (\<lambda>w. Inr ''n1''), hs_MkdirAll = (\<lambda>p w. (Inr (), w)),
     hs_Abs = (\<lambda>p w. Inr p), hs_Remove = (\<lambda>p w. w), hs_RemoveAll = (\<lambda>p w. (Inr (), w)),
     hs_ReadFile = (\<lambda>p w. Inl os_ErrNotExist), hs_Stat = (\<lambda>p w. Inl os_ErrNotExist), hs_Create = (\<lambda>p w. (Inr (), w)),
     hs_WriteFile = (\<lambda>p b w. (Inr (), w)), hs_TempDir = ''/tmp'', hs_Clone = (\<lambda>u b t d w. (Inr (), w)),
     hs_Buildctl = (\<lambda>as w. (Inr (), w)), hs_ExecStart = (\<lambda>as w. (Inr 42, w)), hs_Kill = (\<lambda>p w. w),
     hs_RSS = (\<lambda>p w. Inr 4096), wz_NewRuntime = (\<lambda>w. (Inr 0, w)), wz_Instantiate = (\<lambda>r w. (Inr (), w)),
     wz_Close = (\<lambda>r w. w), pkg_parse = (\<lambda>b. ([], [])), json_string = (\<lambda>x. x), GetCloneToken = (\<lambda>b. [])\<rparr>"

definition ex_client :: "ex_world PodClient" where
  "ex_client = \<lparr>pc_ListPods = (\<lambda>w. Inr (fst w)), pc_UpdatePodStatus = (\<lambda>r w. w)\<rparr>"

definition ex_agent_cfg :: AgentConfig where
  "ex_agent_cfg = \<lparr>ac_NodeName = ''n1'', ac_InternalIP = ''10.0.0.1'', ac_LogDir = [], ac_BuildDir = [],
     ac_BuildkitAddr = [], ac_VolumesDir = []\<rparr>"

definition ex_agent_ctr :: "string list \<Rightarrow> string \<Rightarrow> Container" where
  "ex_agent_ctr cmd ref = \<lparr>ctr_name = ''c'', ctr_image = ref, ctr_resources = None, ctr_security_context = None,
     ctr_command = cmd, ctr_wasm_module_path = [], ctr_container_ports = [], ctr_env = [], ctr_build_source = None\<rparr>"

definition ex_agent_pod :: "string \<Rightarrow> Container \<Rightarrow> PodPhase \<Rightarrow> Pod" where
  "ex_agent_pod name c phase =
     \<lparr>pod_metadata = Some (zero_ObjectMeta\<lparr>meta_name := name, meta_namespace := ''default''\<rparr>),
      pod_spec = Some (zero_PodSpec\<lparr>ps_containers := [c], ps_node_name := ''n1'', ps_restart_policy := RESTART_POLICY_NEVER\<rparr>),
      pod_status = Some (zero_PodStatus\<lparr>pst_phase := phase\<rparr>)\<rparr>"

abbreviation ex_job :: "PodPhase \<Rightarrow> Pod" where
  "ex_job phase \<equiv> ex_agent_pod ''job'' (ex_agent_ctr [''true''] []) phase"
abbreviation ex_web :: Pod where
  "ex_web \<equiv> ex_agent_pod ''web'' (ex_agent_ctr [] ''nginx'') POD_PHASE_PENDING"

lemma ex_key: "podKey (ex_agent_pod n c ph) = ''default/'' @ n"
  by (simp add: podKey_def ex_agent_pod_def)

definition ex_agent0 :: "ex_world agent" where
  "ex_agent0 = newProcessRuntime ([ex_job POD_PHASE_PENDING, ex_web], [])"

definition ex_agent1 :: "ex_world agent" where
  "ex_agent1 = the (reconcile ex_host ex_client ex_agent_cfg ex_agent0)"

lemma ex_agent1: "reconcile ex_host ex_client ex_agent_cfg ex_agent0 = Some ex_agent1"
proof -
  have "reconcile ex_host ex_client ex_agent_cfg ex_agent0 \<noteq> None" by code_simp
  then show ?thesis by (simp add: ex_agent1_def)
qed

theorem agent_table_well_typed_witness:
  "distinct (keys ex_agent1) \<and> length (ag_exited ex_agent1) \<le> exitedCapacity \<and>
    (\<exists>tp. map_of (ag_procs ex_agent1) ''default/web'' = Some tp \<and>
       ''default/web'' = podKey (tp_pod tp) \<and> pod_node (tp_pod tp) = ''n1'' \<and> one_handle tp)"
proof -
  have web: "map_of (ag_procs ex_agent1) ''default/web'' \<noteq> None" by code_simp
  have "agent_steps ex_host ex_client ex_agent_cfg ex_agent0 ex_agent1"
    by (rule r_into_rtranclp, rule agent_step.tick, rule ex_agent1)
  from agent_table_well_typed[OF this[unfolded ex_agent0_def]] web show ?thesis by (auto simp: ex_agent_cfg_def)
qed

theorem tick_converges_witness:
  "\<exists>new. ag_reports ex_agent1 = new \<and> (has ex_agent1 (podKey ex_web) \<or>
     (\<exists>r \<in> set new. \<exists>pod' \<in> {ex_job POD_PHASE_PENDING, ex_web}. podKey pod' = podKey ex_web \<and> reports_phase r pod' POD_PHASE_FAILED)) \<and>
     (\<exists>tp. map_of (ag_procs ex_agent1) ''default/web'' = Some tp \<and> (\<exists>r \<in> set new. reports_phase r (tp_pod tp) POD_PHASE_RUNNING))"
proof -
  have l: "pc_ListPods ex_client (ag_world ex_agent0) = Inr [ex_job POD_PHASE_PENDING, ex_web]"
    by (simp add: ex_client_def ex_agent0_def newProcessRuntime_def)
  have n: "pod_node ex_web = ac_NodeName ex_agent_cfg" by (simp add: ex_agent_pod_def ex_agent_cfg_def)
  have e: "ag_reports ex_agent0 = []" by (simp add: ex_agent0_def newProcessRuntime_def)
  have "map_of (ag_procs ex_agent1) ''default/web'' \<noteq> None" by code_simp
  then obtain tp where tp: "map_of (ag_procs ex_agent1) ''default/web'' = Some tp" by (rule not_None_eq[THEN iffD1, THEN exE])
  have m: "ex_web \<in> set [ex_job POD_PHASE_PENDING, ex_web]" by simp
  from tick_converges[OF l ex_agent1] tp n m show ?thesis
    unfolding e append_Nil list.set by (elim exE conjE, intro exI conjI) (assumption, blast, assumption, blast)
qed

theorem exit_after_three_misses_witness:
  "\<exists>e \<in> set (snd (exits_loop [] (ag_procs ex_agent1) (streaks [] [([], ag_procs ex_agent1), ([], ag_procs ex_agent1)]))). ev_key e = ''default/web''"
proof -
  let ?looks = "[([], ag_procs ex_agent1), ([], ag_procs ex_agent1)]"
  have "tracked ''default/web'' ''nimbus-default-web'' (?looks @ [([], ag_procs ex_agent1)])" by code_simp
  moreover have "in_a_row 0 ''nimbus-default-web'' (?looks @ [([], ag_procs ex_agent1)]) = 3"
    by (simp add: in_a_row_def bget_def)
  moreover have "\<not> bget [] ''nimbus-default-web''" by (simp add: bget_def)
  ultimately show ?thesis
    using exit_after_three_misses[of "''nimbus-default-web''" "''default/web''" ?looks "[]" "ag_procs ex_agent1" "[]" 0]
    by (simp add: iget_def)
qed

text \<open>
  The count of misses of a key outlives its entry. The container of a pod is missing in two looks,
  the pod is taken from the node and stopped, and another pod comes to the node under the same
  name: the first look that misses its container raises the exit event.
\<close>

lemma stop_keeps_streak: "ag_missing (stop H key a) = ag_missing a"
  by (simp add: stop_def Let_def split: option.split)

lemma stale_streak:
  "let a1 = ex_agent1\<lparr>ag_missing := streaks [] [([], ag_procs ex_agent1), ([], ag_procs ex_agent1)]\<rparr>;
       a2 = stop ex_host ''default/web'' a1;
       a3 = snd (start ex_host ex_agent_cfg ex_web a2)
   in \<not> has a2 ''default/web'' \<and> has a3 ''default/web'' \<and>
      map ev_key (snd (exits_loop [] (ag_procs a3) (ag_missing a3))) = [''default/web'']"
  by code_simp

theorem exit_policy_exact_witness:
  "\<exists>r. ag_reports (handleExit ex_host ex_client ex_agent_cfg \<lparr>ev_key = ''default/job'', ev_exitCode = 0\<rparr> ex_agent1) = ag_reports ex_agent1 @ [r] \<and>
     \<not> has (handleExit ex_host ex_client ex_agent_cfg \<lparr>ev_key = ''default/job'', ev_exitCode = 0\<rparr> ex_agent1) ''default/job'' \<and>
     reports_phase r (ex_job POD_PHASE_PENDING) POD_PHASE_SUCCEEDED"
proof -
  have "agent_ok ex_agent_cfg ex_agent1"
    using agent_ok_reconcile[OF _ ex_agent1] by (simp add: ex_agent0_def newProcessRuntime_def agent_ok_def keys_def)
  moreover have "podOf ex_agent1 ''default/job'' = Some (ex_job POD_PHASE_PENDING)" by code_simp
  moreover have "\<not> stillRunning ex_host ex_agent1 ''default/job''" by code_simp
  moreover have "\<not> should_restart (PodSpec_GetRestartPolicy (pod_spec (ex_job POD_PHASE_PENDING))) 0" by code_simp
  ultimately show ?thesis
    using exit_policy_exact[of ex_agent_cfg ex_agent1 "\<lparr>ev_key = ''default/job'', ev_exitCode = 0\<rparr>" "ex_job POD_PHASE_PENDING" ex_host _ ex_client]
    by simp
qed

definition ex_agent2 :: "ex_world agent" where
  "ex_agent2 = newProcessRuntime ([ex_job POD_PHASE_SUCCEEDED], [])"

theorem finished_pod_started_again_witness:
  "has (the (reconcile ex_host ex_client ex_agent_cfg ex_agent2)) ''default/job''"
proof -
  have "reconcile ex_host ex_client ex_agent_cfg ex_agent2 \<noteq> None" by code_simp
  then have r: "reconcile ex_host ex_client ex_agent_cfg ex_agent2 = Some (the (reconcile ex_host ex_client ex_agent_cfg ex_agent2))" by simp
  have l: "pc_ListPods ex_client (ag_world ex_agent2) = Inr [ex_job POD_PHASE_SUCCEEDED]"
    by (simp add: ex_client_def ex_agent2_def newProcessRuntime_def)
  from finished_pod_started_again[OF l _ _ _ _ _ _ _ _ _ _ _ _ r, of "ex_job POD_PHASE_SUCCEEDED" "ex_agent_ctr [''true''] []"]
  show ?thesis
    by (simp add: ex_key[simplified] ex_agent2_def newProcessRuntime_def has_def ex_agent_cfg_def ex_agent_ctr_def ex_host_def
        firstContainer_def) (simp add: ex_agent_pod_def podKey_def)
qed

text \<open>
  Container names are not unique: the namespace and the name are joined by a dash that both
  may contain. Two pods that share a name share a container, and starting one removes the
  other's.
\<close>

lemma container_names_collide:
  "containerNameRaw ''team-a'' ''web'' = containerNameRaw ''team'' ''a-web''"
  by (simp add: containerNameRaw_def)

end
