(* ===== verification/NodePort.thy ===== *)
theory NodePort
  imports Agent
begin

text \<open>
  The node-port forwarder of the agent (\<open>internal/agent/nodeport.go\<close>) and the agent's calls of
  it (\<open>reconcileServices\<close> and the shutdown branch of \<open>Run\<close> in \<open>internal/agent/agent.go\<close>). The
  state is the table of active proxies and the set of ports with an open listener; which
  ports the operating system lets the agent listen on is a parameter of a pass. Copying bytes
  between connections is not modelled.
\<close>

record portProxy =
  pp_target :: string

record nodePortManager =
  npm_active :: "(int32, portProxy) gomap"
  npm_listening :: "int32 set"

definition newNodePortManager :: nodePortManager where
  "newNodePortManager = \<lparr>npm_active = [], npm_listening = {}\<rparr>"

text \<open>\<open>fmt.Sprintf("127.0.0.1:%d", targetPort)\<close>.\<close>

definition local_target :: "int32 \<Rightarrow> string" where
  "local_target port = ''127.0.0.1:'' @ (if port < 0 then ''-'' @ Itoa (nat (- port)) else Itoa (nat port))"

definition service_target :: "Service \<Rightarrow> int32" where
  "service_target s =
     (let t = ServiceSpec_GetTargetPort (svc_spec s)
      in if t = 0 then ServiceSpec_GetPort (svc_spec s) else t)"

fun has_endpoint :: "string \<Rightarrow> ServiceEndpoint list \<Rightarrow> bool" where
  "has_endpoint selfIP [] = False"
| "has_endpoint selfIP (ep # eps) = (if ep_node_ip ep \<noteq> selfIP then has_endpoint selfIP eps else True)"

fun desired_ports :: "string \<Rightarrow> Service list \<Rightarrow> (int32, string) gomap \<Rightarrow> (int32, string) gomap" where
  "desired_ports selfIP [] m = m"
| "desired_ports selfIP (s # services) m =
     desired_ports selfIP services
       (if ServiceSpec_GetNodePort (svc_spec s) = 0 then m
        else if service_target s = 0 then m
        else if has_endpoint selfIP (ServiceStatus_GetEndpoints (svc_status s))
        then AList.update (ServiceSpec_GetNodePort (svc_spec s)) (local_target (service_target s)) m
        else m)"

text \<open>\<open>startPortProxy\<close>: listening may fail.\<close>

definition startPortProxy :: "(int32 \<Rightarrow> bool) \<Rightarrow> int32 \<Rightarrow> string \<Rightarrow> (nodePortManager, portProxy) action" where
  "startPortProxy can port target m =
     (if can port then (Inr \<lparr>pp_target = target\<rparr>, m\<lparr>npm_listening := insert port (npm_listening m)\<rparr>)
      else (Inl (ErrText ''listen''), m))"

definition stop_proxy :: "int32 \<Rightarrow> nodePortManager \<Rightarrow> nodePortManager" where
  "stop_proxy port m = m\<lparr>npm_active := AList.delete port (npm_active m), npm_listening := npm_listening m - {port}\<rparr>"

fun open_loop :: "(int32 \<Rightarrow> bool) \<Rightarrow> (int32, string) gomap \<Rightarrow> nodePortManager \<Rightarrow> nodePortManager" where
  "open_loop can [] m = m"
| "open_loop can ((port, target) # desired) m =
     open_loop can desired
       (case map_of (npm_active m) port of
          Some existing \<Rightarrow>
            if pp_target existing = target then m
            else (case startPortProxy can port target (stop_proxy port m) of
                    (Inl err, m') \<Rightarrow> m'
                  | (Inr p, m') \<Rightarrow> m'\<lparr>npm_active := AList.update port p (npm_active m')\<rparr>)
        | None \<Rightarrow>
            (case startPortProxy can port target m of
               (Inl err, m') \<Rightarrow> m'
             | (Inr p, m') \<Rightarrow> m'\<lparr>npm_active := AList.update port p (npm_active m')\<rparr>))"

fun close_loop :: "(int32, string) gomap \<Rightarrow> int32 list \<Rightarrow> nodePortManager \<Rightarrow> nodePortManager" where
  "close_loop desired [] m = m"
| "close_loop desired (port # ports) m =
     close_loop desired ports (if map_of desired port = None then stop_proxy port m else m)"

definition npm_reconcile :: "(int32 \<Rightarrow> bool) \<Rightarrow> Service list \<Rightarrow> string \<Rightarrow> nodePortManager \<Rightarrow> nodePortManager" where
  "npm_reconcile can services selfIP m =
     (let desired = desired_ports selfIP services [];
          m1 = open_loop can desired m
      in close_loop desired (map fst (npm_active m1)) m1)"

definition npm_stopAll :: "nodePortManager \<Rightarrow> nodePortManager" where
  "npm_stopAll m = foldl (\<lambda>m port. stop_proxy port m) m (map fst (npm_active m))"

text \<open>\<open>Agent.reconcileServices\<close>; the client is absent when the agent has none.\<close>

definition reconcileServices :: "(unit \<Rightarrow> Service list res) option \<Rightarrow> AgentConfig \<Rightarrow> (int32 \<Rightarrow> bool) \<Rightarrow> nodePortManager \<Rightarrow> nodePortManager" where
  "reconcileServices services cfg can m =
     (case services of
        None \<Rightarrow> m
      | Some list \<Rightarrow>
          if ac_InternalIP cfg = [] then m
          else (case list () of Inl err \<Rightarrow> m | Inr items \<Rightarrow> npm_reconcile can items (ac_InternalIP cfg) m))"

text \<open>\<open>Agent.Run\<close> when its context ends: both tables are emptied.\<close>

definition agent_shutdown :: "('w, 'i) host \<Rightarrow> 'w agent \<times> nodePortManager \<Rightarrow> 'w agent \<times> nodePortManager" where
  "agent_shutdown H x = (stopAll H (fst x), npm_stopAll (snd x))"

section \<open>What a pass leaves\<close>

text \<open>A service that this node has to forward, and to which local address.\<close>

definition forwards :: "string \<Rightarrow> Service \<Rightarrow> int32 \<Rightarrow> string \<Rightarrow> bool" where
  "forwards selfIP s port target \<longleftrightarrow>
     port = ServiceSpec_GetNodePort (svc_spec s) \<and> port \<noteq> 0 \<and> service_target s \<noteq> 0 \<and>
     target = local_target (service_target s) \<and>
     (\<exists>ep \<in> set (ServiceStatus_GetEndpoints (svc_status s)). ep_node_ip ep = selfIP)"

definition npm_ok :: "nodePortManager \<Rightarrow> bool" where
  "npm_ok m \<longleftrightarrow> distinct (map fst (npm_active m)) \<and> npm_listening m = fst ` set (npm_active m)"

lemma has_endpoint_iff: "has_endpoint selfIP eps \<longleftrightarrow> (\<exists>ep \<in> set eps. ep_node_ip ep = selfIP)"
  by (induction eps) auto

lemma desired_ports_distinct: "distinct (map fst m) \<Longrightarrow> distinct (map fst (desired_ports selfIP services m))"
  by (induction selfIP services m rule: desired_ports.induct) (simp_all add: AList.distinct_update)

lemma desired_ports_sound:
  "map_of (desired_ports selfIP services m) port = Some target \<Longrightarrow>
   map_of m port = Some target \<or> (\<exists>s \<in> set services. forwards selfIP s port target)"
proof (induction selfIP services m rule: desired_ports.induct)
  case (2 selfIP s services m)
  then show ?case by (fastforce simp: forwards_def has_endpoint_iff split: if_splits)
qed simp

lemma desired_ports_keeps: "map_of m port \<noteq> None \<Longrightarrow> map_of (desired_ports selfIP services m) port \<noteq> None"
  by (induction selfIP services m rule: desired_ports.induct) auto

lemma desired_ports_complete:
  "s \<in> set services \<Longrightarrow> forwards selfIP s port target \<Longrightarrow> map_of (desired_ports selfIP services m) port \<noteq> None"
proof (induction selfIP services m rule: desired_ports.induct)
  case (2 selfIP s' services m)
  show ?case
  proof (cases "s = s'")
    case True
    with 2(3) show ?thesis by (simp add: forwards_def has_endpoint_iff desired_ports_keeps)
  qed (use 2 in simp)
qed simp

lemma image_fst_delete: "fst ` set (AList.delete k m) = fst ` set m - {k}"
  by (induction m) auto

lemma image_fst_update: "fst ` set (AList.update k v m) = insert k (fst ` set m)"
  by (induction m) auto

lemma npm_ok_stop: "npm_ok m \<Longrightarrow> npm_ok (stop_proxy port m)"
  by (auto simp: npm_ok_def stop_proxy_def distinct_delete image_fst_delete)

definition open_one :: "(int32 \<Rightarrow> bool) \<Rightarrow> int32 \<Rightarrow> string \<Rightarrow> nodePortManager \<Rightarrow> nodePortManager" where
  "open_one can port target m =
     (if map_option pp_target (map_of (npm_active m) port) = Some target then m
      else let m' = stop_proxy port m
           in if can port then m'\<lparr>npm_listening := insert port (npm_listening m'),
                npm_active := AList.update port \<lparr>pp_target = target\<rparr> (npm_active m')\<rparr> else m')"

lemma open_loop_Cons:
  assumes "npm_ok m"
  shows "open_loop can ((port, target) # desired) m = open_loop can desired (open_one can port target m)"
proof -
  have "map_of (npm_active m) port = None \<Longrightarrow>
      AList.delete port (npm_active m) = npm_active m \<and> npm_listening m - {port} = npm_listening m"
    using assms by (auto simp: npm_ok_def map_of_eq_None_iff delete_id)
  then show ?thesis
    by (auto simp: open_one_def startPortProxy_def Let_def stop_proxy_def split: option.splits)
qed

lemma open_one_spec:
  assumes "npm_ok m"
  shows "npm_ok (open_one can port target m)"
    and "map_of (npm_active (open_one can port target m)) p =
      (if p \<noteq> port then map_of (npm_active m) p
       else if map_option pp_target (map_of (npm_active m) port) = Some target \<or> can port then Some \<lparr>pp_target = target\<rparr> else None)"
proof -
  show "npm_ok (open_one can port target m)"
    using npm_ok_stop[OF assms, of port] assms
    by (auto simp: open_one_def Let_def npm_ok_def image_fst_update AList.distinct_update)
  show "map_of (npm_active (open_one can port target m)) p =
      (if p \<noteq> port then map_of (npm_active m) p
       else if map_option pp_target (map_of (npm_active m) port) = Some target \<or> can port then Some \<lparr>pp_target = target\<rparr> else None)"
    by (auto simp: open_one_def Let_def stop_proxy_def)
qed

lemma open_loop_spec:
  assumes "npm_ok m" "distinct (map fst desired)"
  shows "npm_ok (open_loop can desired m) \<and>
    (\<forall>p. map_of (npm_active (open_loop can desired m)) p =
      (case map_of desired p of
         None \<Rightarrow> map_of (npm_active m) p
       | Some target \<Rightarrow> if map_option pp_target (map_of (npm_active m) p) = Some target \<or> can p then Some \<lparr>pp_target = target\<rparr> else None))"
  using assms
proof (induction desired arbitrary: m)
  case (Cons x desired)
  obtain port target where x: "x = (port, target)" by fastforce
  have "map_of desired port = None" using Cons.prems(2) x by (simp add: map_of_eq_None_iff)
  with Cons.IH[OF open_one_spec(1)[OF Cons.prems(1)], of can port target] Cons.prems x
  show ?case unfolding x open_loop_Cons[OF Cons.prems(1)]
    by (auto simp: open_one_spec(2)[OF Cons.prems(1)] split: option.splits)
qed simp

lemma close_loop_spec:
  assumes "npm_ok m"
  shows "npm_ok (close_loop desired ports m) \<and>
    (\<forall>p. map_of (npm_active (close_loop desired ports m)) p =
      (if p \<in> set ports \<and> map_of desired p = None then None else map_of (npm_active m) p))"
  using assms
proof (induction desired ports m rule: close_loop.induct)
  case (2 desired port ports m)
  then show ?case using npm_ok_stop[OF 2(2), of port] by (auto simp: stop_proxy_def split: if_splits)
qed simp

text \<open>
  C36: after a pass the node forwards exactly the node ports it has to. A port has a proxy if
  and only if some listed service with that node port and a target port has an endpoint on
  this node, and either the proxy for the wanted target was there already or the port could be
  listened on; the proxy's target is that service's; and the open listeners are exactly the
  ports of the table, so none is leaked when a service goes or its target changes.
\<close>

theorem node_ports_forwarded:
  assumes "npm_ok m" "m' = npm_reconcile can services selfIP m"
  shows "npm_listening m' = fst ` set (npm_active m') \<and>
    (\<forall>port p. map_of (npm_active m') port = Some p \<longrightarrow> (\<exists>s \<in> set services. forwards selfIP s port (pp_target p))) \<and>
    (\<forall>port. (\<exists>s \<in> set services. \<exists>t. forwards selfIP s port t) \<longrightarrow> can port \<longrightarrow> map_of (npm_active m') port \<noteq> None)"
proof -
  let ?D = "desired_ports selfIP services []" and ?m = "open_loop can (desired_ports selfIP services []) m"
  note o = open_loop_spec[OF assms(1) desired_ports_distinct[of "[]" selfIP services], of can, simplified]
  note c = close_loop_spec[OF o[THEN conjunct1], of ?D "map fst (npm_active ?m)"]
  have m': "m' = close_loop ?D (map fst (npm_active ?m)) ?m" by (simp add: assms(2) npm_reconcile_def Let_def)
  have at: "map_of (npm_active m') port = (case map_of ?D port of None \<Rightarrow> None
      | Some target \<Rightarrow> if map_option pp_target (map_of (npm_active m) port) = Some target \<or> can port then Some \<lparr>pp_target = target\<rparr> else None)" for port
  proof (cases "map_of ?D port")
    case None
    with c m' have "map_of (npm_active m') port = (if port \<in> set (map fst (npm_active ?m)) then None else map_of (npm_active ?m) port)"
      by simp
    moreover have "port \<notin> set (map fst (npm_active ?m)) \<Longrightarrow> map_of (npm_active ?m) port = None"
      by (simp add: map_of_eq_None_iff)
    ultimately show ?thesis using None by auto
  next
    case (Some target)
    with c m' have "map_of (npm_active m') port = map_of (npm_active ?m) port" by simp
    with o[THEN conjunct2, rule_format, of port] Some show ?thesis by simp
  qed
  show ?thesis
  proof (intro conjI allI impI)
    show "npm_listening m' = fst ` set (npm_active m')" using c m' by (simp add: npm_ok_def)
    show "\<exists>s \<in> set services. forwards selfIP s port (pp_target p)" if "map_of (npm_active m') port = Some p" for port p
      using that desired_ports_sound[of selfIP services "[]" port] unfolding at by (auto split: option.splits if_splits)
    show "map_of (npm_active m') port \<noteq> None" if "\<exists>s \<in> set services. \<exists>t. forwards selfIP s port t" "can port" for port
      using that desired_ports_complete[of _ services selfIP port _ "[]"] unfolding at by (auto split: option.splits)
  qed
qed

definition ex_np_service :: Service where
  "ex_np_service = \<lparr>svc_metadata = None,
     svc_spec = Some \<lparr>ss_selector = [], ss_port = 80, ss_target_port = 0, ss_node_port = 30000\<rparr>,
     svc_status = Some \<lparr>sst_endpoints = [\<lparr>ep_pod_name = ''p'', ep_node_ip = ''10.0.0.1'', ep_node_port = 80\<rparr>]\<rparr>\<rparr>"

theorem node_ports_forwarded_witness:
  "map_of (npm_active (npm_reconcile (\<lambda>p. True) [ex_np_service] ''10.0.0.1'' newNodePortManager)) 30000 \<noteq> None"
proof -
  have "npm_ok newNodePortManager" by (simp add: npm_ok_def newNodePortManager_def)
  from node_ports_forwarded[OF this refl, of "\<lambda>p. True" "[ex_np_service]" "''10.0.0.1''"]
  show ?thesis by (auto simp: forwards_def ex_np_service_def service_target_def)
qed

text \<open>Shutdown leaves no process, no proxy and no listener.\<close>

lemma foldl_stop_keys: "ag_procs (foldl (\<lambda>a key. stop H key a) a ks) = filter (\<lambda>(k, v). k \<notin> set ks) (ag_procs a)"
proof (induction ks arbitrary: a)
  case (Cons k ks)
  have "AList.delete k m = filter (\<lambda>(k', v). k' \<noteq> k) m" for m :: "(string, trackedProcess) gomap"
    by (auto simp: AList.delete_eq case_prod_unfold intro!: filter_cong)
  with Cons show ?case by (auto simp: case_prod_beta intro!: filter_cong)
qed (simp add: case_prod_beta)

lemma npm_ok_stopAll: "npm_ok m \<Longrightarrow> npm_ok (foldl (\<lambda>m port. stop_proxy port m) m ports)"
  by (induction ports arbitrary: m) (auto intro: npm_ok_stop)

lemma foldl_stop_proxies:
  "npm_active (foldl (\<lambda>m port. stop_proxy port m) m ports) = filter (\<lambda>(k, v). k \<notin> set ports) (npm_active m)"
proof (induction ports arbitrary: m)
  case (Cons k ks)
  have "npm_active (stop_proxy k m) = filter (\<lambda>(k', v). k' \<noteq> k) (npm_active m)"
    by (auto simp: stop_proxy_def AList.delete_eq case_prod_unfold intro!: filter_cong)
  with Cons show ?case by (auto simp: case_prod_beta intro!: filter_cong)
qed (simp add: case_prod_beta)

lemma shutdown_stops_everything:
  assumes "npm_ok m" "agent_shutdown H (a, m) = (a', m')"
  shows "ag_procs a' = [] \<and> npm_active m' = [] \<and> npm_listening m' = {}"
proof -
  have "ag_procs a' = []" "npm_active m' = []"
    using assms(2) unfolding agent_shutdown_def stopAll_def keys_def npm_stopAll_def fst_conv snd_conv prod.inject
    by (auto simp: foldl_stop_keys foldl_stop_proxies filter_empty_conv) force+
  moreover have "npm_ok m'" using assms npm_ok_stopAll by (auto simp: agent_shutdown_def npm_stopAll_def)
  ultimately show ?thesis by (simp add: npm_ok_def)
qed

end
