(* ===== verification/Leader.thy ===== *)
theory Leader
  imports Prelude
begin

text \<open>
  The controller manager and its leader loop (\<open>internal/controller/manager.go\<close>) as a step
  relation. The loop's position, the controllers that are running, each with the term it was
  started in, and the two contexts are the state; the clock, the loss and gain of leadership,
  the end of the process and the return of a controller are steps of the environment. What a
  controller does in its \<open>Reconcile\<close> is the subject of the other theories; here a controller
  either runs or has returned.
\<close>

text \<open>
  Where \<open>RunWhileLeader\<close> stands: at the head of the outer loop, about to ask for leadership,
  asleep as a follower, at the head of the inner loop, asleep as the leader, about to cancel,
  waiting for the manager, and returned.
\<close>

datatype loop_pc = AtOuter | AtPoll | FollowerSleep | AtInner | LeaderSleep | AtCancel | AtWait | Returned

record leader_state =
  ls_pc :: loop_pc
  ls_running :: "(nat \<times> string) list"
  ls_term :: nat
  ls_ctxDone :: bool
  ls_leaderCtxDone :: bool
  ls_isLeader :: bool

text \<open>\<open>Manager\<close>: the registered controllers, by name, in the order of registration.\<close>

record Manager =
  mgr_reconcilers :: "string list"

definition NewManager :: Manager where
  "NewManager = \<lparr>mgr_reconcilers = []\<rparr>"

definition Register :: "string \<Rightarrow> Manager \<Rightarrow> Manager" where
  "Register r m = m\<lparr>mgr_reconcilers := mgr_reconcilers m @ [r]\<rparr>"

text \<open>\<open>Manager.Run\<close> starts every registered controller, and returns when all have returned.\<close>

definition Run_start :: "Manager \<Rightarrow> leader_state \<Rightarrow> leader_state" where
  "Run_start m s = s\<lparr>ls_term := Suc (ls_term s), ls_leaderCtxDone := ls_ctxDone s,
     ls_running := map (Pair (Suc (ls_term s))) (mgr_reconcilers m)\<rparr>"

definition Run_returned :: "leader_state \<Rightarrow> bool" where
  "Run_returned s \<longleftrightarrow> ls_running s = []"

text \<open>The steps of \<open>RunWhileLeader\<close> itself, and the return of a controller.\<close>

inductive loop_step :: "Manager \<Rightarrow> leader_state \<Rightarrow> leader_state \<Rightarrow> bool" for m where
  outer_end: "ls_pc s = AtOuter \<Longrightarrow> ls_ctxDone s \<Longrightarrow> loop_step m s (s\<lparr>ls_pc := Returned\<rparr>)"
| outer_go: "ls_pc s = AtOuter \<Longrightarrow> \<not> ls_ctxDone s \<Longrightarrow> loop_step m s (s\<lparr>ls_pc := AtPoll\<rparr>)"
| follower: "ls_pc s = AtPoll \<Longrightarrow> \<not> ls_isLeader s \<Longrightarrow> loop_step m s (s\<lparr>ls_pc := FollowerSleep\<rparr>)"
| leader: "ls_pc s = AtPoll \<Longrightarrow> ls_isLeader s \<Longrightarrow> loop_step m s ((Run_start m s)\<lparr>ls_pc := AtInner\<rparr>)"
| follower_wakes: "ls_pc s = FollowerSleep \<Longrightarrow> loop_step m s (s\<lparr>ls_pc := AtOuter\<rparr>)"
| inner_go: "ls_pc s = AtInner \<Longrightarrow> \<not> ls_ctxDone s \<Longrightarrow> ls_isLeader s \<Longrightarrow> loop_step m s (s\<lparr>ls_pc := LeaderSleep\<rparr>)"
| inner_end: "ls_pc s = AtInner \<Longrightarrow> ls_ctxDone s \<or> \<not> ls_isLeader s \<Longrightarrow> loop_step m s (s\<lparr>ls_pc := AtCancel\<rparr>)"
| leader_wakes: "ls_pc s = LeaderSleep \<Longrightarrow> loop_step m s (s\<lparr>ls_pc := AtInner\<rparr>)"
| cancel: "ls_pc s = AtCancel \<Longrightarrow> loop_step m s (s\<lparr>ls_pc := AtWait, ls_leaderCtxDone := True\<rparr>)"
| wait: "ls_pc s = AtWait \<Longrightarrow> Run_returned s \<Longrightarrow> loop_step m s (s\<lparr>ls_pc := AtOuter\<rparr>)"
| controller_returns: "ls_leaderCtxDone s \<Longrightarrow> ls_running s = xs @ r # ys \<Longrightarrow> loop_step m s (s\<lparr>ls_running := xs @ ys\<rparr>)"

text \<open>
  The environment: leadership comes and goes, the context ends (and with it every context
  derived from it), and a controller may return early with an error.
\<close>

inductive env_step :: "leader_state \<Rightarrow> leader_state \<Rightarrow> bool" where
  election: "env_step s (s\<lparr>ls_isLeader := b\<rparr>)"
| shutdown: "env_step s (s\<lparr>ls_ctxDone := True, ls_leaderCtxDone := True\<rparr>)"
| fails: "ls_running s = xs @ r # ys \<Longrightarrow> env_step s (s\<lparr>ls_running := xs @ ys\<rparr>)"

definition leader_init :: "bool \<Rightarrow> leader_state" where
  "leader_init b = \<lparr>ls_pc = AtOuter, ls_running = [], ls_term = 0, ls_ctxDone = False, ls_leaderCtxDone = False, ls_isLeader = b\<rparr>"

definition leader_any :: "Manager \<Rightarrow> leader_state \<Rightarrow> leader_state \<Rightarrow> bool" where
  "leader_any m s s' \<longleftrightarrow> loop_step m s s' \<or> env_step s s'"

inductive_cases loop_stepE: "loop_step m s s'"
inductive_cases env_stepE: "env_step s s'"

section \<open>One term at a time\<close>

definition leader_ok :: "Manager \<Rightarrow> leader_state \<Rightarrow> bool" where
  "leader_ok m s \<longleftrightarrow>
     (ls_running s \<noteq> [] \<longrightarrow> ls_pc s \<in> {AtInner, LeaderSleep, AtCancel, AtWait}) \<and>
     (\<forall>(t, r) \<in> set (ls_running s). t = ls_term s \<and> r \<in> set (mgr_reconcilers m)) \<and>
     length (ls_running s) \<le> length (mgr_reconcilers m) \<and>
     (ls_pc s = AtWait \<longrightarrow> ls_leaderCtxDone s) \<and> (ls_ctxDone s \<longrightarrow> ls_leaderCtxDone s \<or> ls_running s = [])"

lemma leader_ok_loop: "loop_step m s s' \<Longrightarrow> leader_ok m s \<Longrightarrow> leader_ok m s'"
  by (induction rule: loop_step.induct) (auto simp: leader_ok_def Run_start_def Run_returned_def)

lemma leader_ok_env: "env_step s s' \<Longrightarrow> leader_ok m s \<Longrightarrow> leader_ok m s'"
  by (induction rule: env_step.induct) (auto simp: leader_ok_def)

text \<open>
  C17: controllers never run outside a term of leadership, and two terms never overlap. In
  every reachable state, a controller that runs was started in the current term, the loop is
  past a positive answer to its last question for leadership or is stopping, and while it asks
  for leadership, sleeps as a follower or has returned, no controller runs at all.
\<close>

theorem controllers_run_in_one_term:
  assumes "(leader_any m)\<^sup>*\<^sup>* (leader_init b) s"
  shows "(\<forall>(t, r) \<in> set (ls_running s). t = ls_term s \<and> r \<in> set (mgr_reconcilers m)) \<and>
    (ls_pc s \<in> {AtOuter, AtPoll, FollowerSleep, Returned} \<longrightarrow> ls_running s = []) \<and>
    length (ls_running s) \<le> length (mgr_reconcilers m)"
proof -
  have "leader_ok m s"
    using assms
  proof (induction rule: rtranclp_induct)
    case base
    then show ?case by (simp add: leader_ok_def leader_init_def)
  next
    case (step y z)
    then show ?case by (auto simp: leader_any_def intro: leader_ok_loop leader_ok_env)
  qed
  then show ?thesis by (auto simp: leader_ok_def)
qed

definition ex_mgr :: Manager where
  "ex_mgr = Register ''pods'' (Register ''deployments'' NewManager)"

theorem controllers_run_in_one_term_witness:
  "length (ls_running ((Run_start ex_mgr ((leader_init True)\<lparr>ls_pc := AtPoll\<rparr>))\<lparr>ls_pc := AtInner\<rparr>)) \<le> length (mgr_reconcilers ex_mgr)"
proof -
  have "leader_any ex_mgr (leader_init True) ((leader_init True)\<lparr>ls_pc := AtPoll\<rparr>)"
    unfolding leader_any_def by (intro disjI1 outer_go) (simp_all add: leader_init_def)
  moreover have "leader_any ex_mgr ((leader_init True)\<lparr>ls_pc := AtPoll\<rparr>)
      ((Run_start ex_mgr ((leader_init True)\<lparr>ls_pc := AtPoll\<rparr>))\<lparr>ls_pc := AtInner\<rparr>)"
    unfolding leader_any_def by (intro disjI1 loop_step.leader) (simp_all add: leader_init_def)
  ultimately have "(leader_any ex_mgr)\<^sup>*\<^sup>* (leader_init True)
      ((Run_start ex_mgr ((leader_init True)\<lparr>ls_pc := AtPoll\<rparr>))\<lparr>ls_pc := AtInner\<rparr>)"
    by (meson r_into_rtranclp rtranclp_trans)
  from controllers_run_in_one_term[OF this] show ?thesis by blast
qed

section \<open>Termination\<close>

text \<open>
  Once the context has ended, every step of the loop and every return of a controller brings
  the loop closer to its end, and until it has returned one of them is possible.
\<close>

fun pc_rank :: "loop_pc \<Rightarrow> nat" where
  "pc_rank AtPoll = 8" | "pc_rank LeaderSleep = 6" | "pc_rank AtInner = 5" | "pc_rank AtCancel = 4"
| "pc_rank AtWait = 3" | "pc_rank FollowerSleep = 2" | "pc_rank AtOuter = 1" | "pc_rank Returned = 0"

definition shutdown_rank :: "Manager \<Rightarrow> leader_state \<Rightarrow> nat" where
  "shutdown_rank m s = length (ls_running s) + pc_rank (ls_pc s) +
     (if ls_pc s = AtPoll then length (mgr_reconcilers m) else 0)"

lemma shutdown_step:
  assumes "loop_step m s s'" "ls_ctxDone s" "leader_ok m s"
  shows "ls_ctxDone s' \<and> shutdown_rank m s' < shutdown_rank m s"
  using assms
  by (induction rule: loop_step.induct) (auto simp: shutdown_rank_def Run_start_def leader_ok_def)

lemma shutdown_progress:
  assumes "ls_ctxDone s" "leader_ok m s" "ls_pc s \<noteq> Returned"
  shows "\<exists>s'. loop_step m s s'"
proof (cases "ls_pc s = AtWait \<and> ls_running s \<noteq> []")
  case True
  with assms(2) have "ls_leaderCtxDone s" by (simp add: leader_ok_def)
  moreover from True obtain r ys where "ls_running s = [] @ r # ys" by (cases "ls_running s") auto
  ultimately show ?thesis by (blast intro: controller_returns)
next
  case False
  show ?thesis
  proof (cases "ls_pc s")
    case AtOuter
    then show ?thesis using assms(1) by (blast intro: outer_end)
  next
    case AtPoll
    then show ?thesis by (blast intro: follower loop_step.leader)
  next
    case FollowerSleep
    then show ?thesis by (blast intro: follower_wakes)
  next
    case AtInner
    then show ?thesis using assms(1) by (blast intro: inner_end)
  next
    case LeaderSleep
    then show ?thesis by (blast intro: leader_wakes)
  next
    case AtCancel
    then show ?thesis by (blast intro: cancel)
  next
    case AtWait
    with False have "Run_returned s" by (simp add: Run_returned_def)
    with AtWait show ?thesis by (blast intro: wait)
  qed (use assms(3) in simp)
qed

text \<open>
  C27: after the end of its context \<open>RunWhileLeader\<close> returns. From any reachable state with an
  ended context, a run of the loop and its controllers has at most as many steps as its rank
  (eight plus twice the number of controllers bounds it), and a run that cannot go on has
  returned with no controller left.
\<close>

theorem leader_loop_terminates:
  assumes "(leader_any m)\<^sup>*\<^sup>* (leader_init b) s" "ls_ctxDone s" "(loop_step m ^^ n) s s'"
  shows "n \<le> 8 + 2 * length (mgr_reconcilers m) \<and>
    ((\<nexists>s''. loop_step m s' s'') \<longrightarrow> ls_pc s' = Returned \<and> ls_running s' = [])"
proof -
  have ok: "leader_ok m s"
    using assms(1)
  proof (induction rule: rtranclp_induct)
    case base
    then show ?case by (simp add: leader_ok_def leader_init_def)
  next
    case (step y z)
    then show ?case by (auto simp: leader_any_def intro: leader_ok_loop leader_ok_env)
  qed
  have run: "(loop_step m ^^ k) s t \<Longrightarrow> leader_ok m t \<and> ls_ctxDone t \<and> k + shutdown_rank m t \<le> shutdown_rank m s" for k t
  proof (induction k arbitrary: t)
    case (Suc k)
    then obtain u where u: "(loop_step m ^^ k) s u" "loop_step m u t" by auto
    with Suc.IH[OF u(1)] shutdown_step[OF u(2)] leader_ok_loop[OF u(2)] show ?case by fastforce
  qed (use ok assms(2) in simp)
  have "shutdown_rank m s \<le> 8 + 2 * length (mgr_reconcilers m)"
    using ok by (cases "ls_pc s") (auto simp: shutdown_rank_def leader_ok_def)
  moreover have "(\<nexists>s''. loop_step m s' s'') \<longrightarrow> ls_pc s' = Returned \<and> ls_running s' = []"
    using shutdown_progress[of s' m] run[OF assms(3)] by (auto simp: leader_ok_def)
  moreover have "n \<le> shutdown_rank m s" using run[OF assms(3)] by linarith
  ultimately show ?thesis by simp
qed

theorem leader_loop_terminates_witness:
  "(let s = (leader_init True)\<lparr>ls_ctxDone := True, ls_leaderCtxDone := True\<rparr>; s' = s\<lparr>ls_pc := Returned\<rparr>
    in (loop_step ex_mgr ^^ 1) s s' \<and> 1 \<le> 8 + 2 * length (mgr_reconcilers ex_mgr) \<and>
       (\<nexists>s''. loop_step ex_mgr s' s'') \<and> ls_pc s' = Returned \<and> ls_running s' = [])"
proof -
  let ?s = "(leader_init True)\<lparr>ls_ctxDone := True, ls_leaderCtxDone := True\<rparr>"
  have "leader_any ex_mgr (leader_init True) ?s" unfolding leader_any_def by (intro disjI2 env_step.shutdown)
  then have r: "(leader_any ex_mgr)\<^sup>*\<^sup>* (leader_init True) ?s" by blast
  have st: "(loop_step ex_mgr ^^ 1) ?s (?s\<lparr>ls_pc := Returned\<rparr>)"
    by (simp only: relpowp_1) (rule outer_end; simp add: leader_init_def)
  have ctx: "ls_ctxDone ?s" by simp
  have stuck: "\<nexists>s''. loop_step ex_mgr (?s\<lparr>ls_pc := Returned\<rparr>) s''"
    by (auto simp: leader_init_def elim: loop_stepE)
  from leader_loop_terminates[OF r ctx st] st stuck show ?thesis unfolding Let_def by blast
qed

end
