(* ===== verification/HostPath.thy ===== *)
theory HostPath
  imports Links
begin

text \<open>
  The CSI driver of \<open>internal/csi/hostpath/hostpath.go\<close>: volumes are directories below a base
  directory, each with a metadata file. The encoding of the metadata is a parameter with its
  laws. The controller service (create, delete, list) works on a tree without symbolic links
  and refines a table from volume names to capacities, as long as the names are plain; names
  with slashes or dots, which its check lets through, break that. Publishing, which makes and
  removes links, works on a tree with links.
\<close>

definition DriverName :: string where "DriverName = ''hostpath.nimbuscore.local''"
definition DriverVersion :: string where "DriverVersion = ''0.1.0''"

record volumeMeta =
  vmt_Name :: string
  vmt_CapacityBytes :: int64

record Driver =
  drv_nodeID :: string
  drv_baseDir :: string

text \<open>\<open>encoding/json\<close> on the metadata.\<close>

record json_meta =
  jm_Marshal :: "volumeMeta \<Rightarrow> bytes res"
  jm_Unmarshal :: "bytes \<Rightarrow> volumeMeta res"

definition hostpath_New :: "io_env \<Rightarrow> string \<Rightarrow> string \<Rightarrow> (disk, Driver) action" where
  "hostpath_New io nodeID baseDir =
     bindA (wrapA ''hostpath: create base dir'' (os_MkdirAll io baseDir))
       (\<lambda>_. ret \<lparr>drv_nodeID = nodeID, drv_baseDir = baseDir\<rparr>)"

definition volumeDir :: "Driver \<Rightarrow> string \<Rightarrow> string" where
  "volumeDir drv ident = Join [drv_baseDir drv, ident]"

definition metaPath :: "Driver \<Rightarrow> string \<Rightarrow> string" where
  "metaPath drv ident = Join [volumeDir drv ident, ''.volume.json'']"

definition validVolumeID :: "Driver \<Rightarrow> string \<Rightarrow> bool" where
  "validVolumeID drv ident =
     (if ident = [] then False
      else case Rel (Clean (drv_baseDir drv)) (Clean (volumeDir drv ident)) of
             Inl err \<Rightarrow> False
           | Inr rel \<Rightarrow> rel \<noteq> ''..'' \<and> \<not> HasPrefix rel (''..'' @ ''/''))"

text \<open>Identity service: the constant answers.\<close>

definition GetPluginInfo :: "string \<times> string" where
  "GetPluginInfo = (DriverName, DriverVersion)"

datatype capability = CONTROLLER_SERVICE | CREATE_DELETE_VOLUME | LIST_VOLUMES

definition GetPluginCapabilities :: "capability list" where
  "GetPluginCapabilities = [CONTROLLER_SERVICE]"

definition ControllerGetCapabilities :: "capability list" where
  "ControllerGetCapabilities = [CREATE_DELETE_VOLUME, LIST_VOLUMES]"

definition NodeGetCapabilities :: "capability list" where
  "NodeGetCapabilities = []"

definition Probe :: bool where "Probe = True"

definition NodeGetInfo :: "Driver \<Rightarrow> string" where
  "NodeGetInfo drv = drv_nodeID drv"

section \<open>Controller service\<close>

definition hp_CreateVolume :: "io_env \<Rightarrow> json_meta \<Rightarrow> Driver \<Rightarrow> string \<Rightarrow> int64 \<Rightarrow> (disk, string \<times> int64) action" where
  "hp_CreateVolume io J drv name requiredBytes =
     (if name = [] then throw (ErrStatus InvalidArgument ''name is required'')
      else if \<not> validVolumeID drv name then throw (ErrStatus InvalidArgument ''invalid volume name'')
      else bindA (statusA Internal ''create volume directory'' (os_MkdirAll io (volumeDir drv name))) (\<lambda>_.
           bindA (statusA Internal ''marshal volume metadata'' (readA (\<lambda>_. jm_Marshal J \<lparr>vmt_Name = name, vmt_CapacityBytes = requiredBytes\<rparr>))) (\<lambda>b.
           bindA (statusA Internal ''write volume metadata'' (os_WriteFile io (metaPath drv name) b)) (\<lambda>_.
           ret (name, requiredBytes)))))"

definition hp_DeleteVolume :: "io_env \<Rightarrow> Driver \<Rightarrow> string \<Rightarrow> (disk, unit) action" where
  "hp_DeleteVolume io drv volumeId =
     (if volumeId = [] then throw (ErrStatus InvalidArgument ''volume_id is required'')
      else if \<not> validVolumeID drv volumeId then throw (ErrStatus InvalidArgument ''invalid volume_id'')
      else statusA Internal ''delete volume directory'' (os_RemoveAll io (volumeDir drv volumeId)))"

definition readMeta :: "io_env \<Rightarrow> json_meta \<Rightarrow> Driver \<Rightarrow> string \<Rightarrow> disk \<Rightarrow> volumeMeta res" where
  "readMeta io J drv volumeID d =
     (case os_ReadFile io (metaPath drv volumeID) d of Inl err \<Rightarrow> Inl err | Inr b \<Rightarrow> jm_Unmarshal J b)"

fun volumes_loop :: "io_env \<Rightarrow> json_meta \<Rightarrow> Driver \<Rightarrow> (string \<times> fnode) list \<Rightarrow> disk \<Rightarrow> (string \<times> int64) list" where
  "volumes_loop io J drv [] d = []"
| "volumes_loop io J drv ((name, n) # es) d =
     (if n \<noteq> NDir then volumes_loop io J drv es d
      else case readMeta io J drv name d of
             Inl err \<Rightarrow> volumes_loop io J drv es d
           | Inr meta \<Rightarrow> (vmt_Name meta, vmt_CapacityBytes meta) # volumes_loop io J drv es d)"

definition hp_ListVolumes :: "io_env \<Rightarrow> json_meta \<Rightarrow> Driver \<Rightarrow> disk \<Rightarrow> (string \<times> int64) list res" where
  "hp_ListVolumes io J drv d =
     (case os_ReadDir io (drv_baseDir drv) d of
        Inl err \<Rightarrow> Inl (ErrStatus Internal ''list volumes'')
      | Inr entries \<Rightarrow> Inr (volumes_loop io J drv entries d))"

section \<open>Node service\<close>

text \<open>Staging does nothing.\<close>

definition NodeStageVolume :: "(disk, unit) action" where "NodeStageVolume = ret ()"
definition NodeUnstageVolume :: "(disk, unit) action" where "NodeUnstageVolume = ret ()"

definition NodePublishVolume :: "io_env \<Rightarrow> Driver \<Rightarrow> string \<Rightarrow> string \<Rightarrow> (ltree, unit) action" where
  "NodePublishVolume io drv volumeId targetPath =
     (if volumeId = [] \<or> targetPath = [] then throw (ErrStatus InvalidArgument ''volume_id and target_path are required'')
      else if \<not> validVolumeID drv volumeId then throw (ErrStatus InvalidArgument ''invalid volume_id'')
      else let source = volumeDir drv volumeId
           in bindA (statusA NotFound ''volume'' (readA (lk_Stat io source))) (\<lambda>_.
              bindA (statusA Internal ''prepare target path'' (lk_MkdirAll io (Dir targetPath))) (\<lambda>_.
              (\<lambda>x. if lk_Lexists io targetPath x then ret () x
                   else statusA Internal ''publish volume'' (lk_Symlink io source targetPath) x))))"

definition NodeUnpublishVolume :: "io_env \<Rightarrow> string \<Rightarrow> (ltree, unit) action" where
  "NodeUnpublishVolume io targetPath =
     (if targetPath = [] then throw (ErrStatus InvalidArgument ''target_path is required'')
      else (\<lambda>x. case lk_Remove io targetPath x of
             (Inl err, x') \<Rightarrow>
               if err = os_ErrNotExist then (Inr (), x')
               else (Inl (ErrStatus Internal ''unpublish''), x')
           | (Inr _, x') \<Rightarrow> (Inr (), x')))"

text \<open>
  A publication that succeeds leaves the links as they are, when the target exists, or makes
  the target a link to the volume's directory.
\<close>

lemma publish_links:
  assumes "NodePublishVolume io drv volumeId targetPath (d, ls) = (Inr (), (d', ls'))"
  shows "(ls' = ls \<and> lk_Lexists io targetPath (d', ls')) \<or>
    (\<exists>k. locate_entry ls targetPath = Some k \<and> ls' = AList.update k (volumeDir drv volumeId) ls)"
proof -
  from assms obtain x1 where m: "lk_MkdirAll io (Dir targetPath) (d, ls) = (Inr (), x1)"
    and l: "(if lk_Lexists io targetPath x1 then ret () x1
      else statusA Internal ''publish volume'' (lk_Symlink io (volumeDir drv volumeId) targetPath) x1) = (Inr (), (d', ls'))"
    by (auto simp: NodePublishVolume_def throw_def Let_def bindA_Inr readA_def statusA_def split: if_splits prod.splits sum.splits)
  have "snd x1 = ls" using lk_MkdirAll_frame(1)[of io "Dir targetPath" d ls] by (simp add: m)
  with l show ?thesis
    by (auto simp: ret_def statusA_def lk_Symlink_def split: if_splits option.splits)
qed

section \<open>The volume table\<close>

text \<open>
  What is encoded decodes to the same metadata, and the encoding cut short does not decode: a
  JSON object ends with its closing brace.
\<close>

definition json_laws :: "json_meta \<Rightarrow> bool" where
  "json_laws J \<longleftrightarrow> (\<forall>m b. jm_Marshal J m = Inr b \<longrightarrow> jm_Unmarshal J b = Inr m \<and>
     (\<forall>n < length b. isl (jm_Unmarshal J (take n b))))"

text \<open>The capacity recorded for a name: its directory exists and its metadata decodes.\<close>

definition volume_at :: "json_meta \<Rightarrow> Driver \<Rightarrow> disk \<Rightarrow> string \<rightharpoonup> volumeMeta" where
  "volume_at J drv d e =
     (let k = (is_abs (drv_baseDir drv), elems (drv_baseDir drv) @ [e]) in
      if map_of d k \<noteq> Some NDir then None
      else case map_of d (fst k, snd k @ [''.volume.json'']) of
             Some (NFile b) \<Rightarrow> (case jm_Unmarshal J b of Inl _ \<Rightarrow> None | Inr m \<Rightarrow> Some m)
           | _ \<Rightarrow> None)"

lemma plain_meta: "plain ''.volume.json''"
  by (simp add: plain_def)

lemma volumeDir_key:
  assumes "drv_baseDir drv \<noteq> []" "plain e"
  shows "dkey (volumeDir drv e) = (is_abs (drv_baseDir drv), elems (drv_baseDir drv) @ [e])"
    and "dkey (metaPath drv e) = (is_abs (drv_baseDir drv), elems (drv_baseDir drv) @ [e, ''.volume.json''])"
    and "volumeDir drv e \<noteq> []"
  using assms plain_meta elems_Join2(2)
  by (simp_all add: dkey_def volumeDir_def metaPath_def elems_Join_plain)

text \<open>The check of the driver is containment in the base directory.\<close>

lemma validVolumeID_iff:
  assumes "drv_baseDir drv \<noteq> []"
  shows "validVolumeID drv e \<longleftrightarrow> e \<noteq> [] \<and> inside (drv_baseDir drv) (volumeDir drv e)"
proof -
  have "inside (Clean p) (Clean q) = inside p q" for p q by (simp add: inside_def)
  then show ?thesis
    using Rel_inside[of "Clean (drv_baseDir drv)" "Clean (volumeDir drv e)"]
    by (auto simp: validVolumeID_def rel_escapes_def split: sum.splits)
qed

lemma plain_valid: "drv_baseDir drv \<noteq> [] \<Longrightarrow> plain e \<Longrightarrow> validVolumeID drv e"
  using volumeDir_key(1)[of drv e]
  by (auto simp: validVolumeID_iff inside_def dkey_def plain_def)

section \<open>Well-formedness\<close>

text \<open>
  The calls of the controller service that change the tree; a step reports whether the call
  succeeded. Every call of a run has its own environment: a fault can come and go.
\<close>

datatype csi_call = CallCreate string int64 | CallDelete string

fun csi_step :: "json_meta \<Rightarrow> Driver \<Rightarrow> io_env \<Rightarrow> csi_call \<Rightarrow> disk \<Rightarrow> bool \<times> disk" where
  "csi_step J drv io (CallCreate name cap) d = (case hp_CreateVolume io J drv name cap d of (r, d') \<Rightarrow> (\<not> isl r, d'))"
| "csi_step J drv io (CallDelete ident) d = (case hp_DeleteVolume io drv ident d of (r, d') \<Rightarrow> (\<not> isl r, d'))"

fun csi_run :: "json_meta \<Rightarrow> Driver \<Rightarrow> (io_env \<times> csi_call) list \<Rightarrow> disk \<Rightarrow> (csi_call \<times> bool) list \<times> disk" where
  "csi_run J drv [] d = ([], d)"
| "csi_run J drv ((io, c) # cs) d =
     (case csi_step J drv io c d of (ok, d1) \<Rightarrow> (case csi_run J drv cs d1 of (log, d2) \<Rightarrow> ((c, ok) # log, d2)))"

lemma snd_bindA: "snd (bindA m f s) = (case fst (m s) of Inl e \<Rightarrow> snd (m s) | Inr x \<Rightarrow> snd (f x (snd (m s))))"
  by (auto simp: bindA_def split: prod.splits sum.splits)

lemma snd_readA [simp]: "snd (readA f s) = s"
  by (simp add: readA_def)

lemma csi_step_ok: "disk_ok d \<Longrightarrow> disk_ok (snd (csi_step J drv io c d))"
  by (cases c) (auto simp: hp_CreateVolume_def hp_DeleteVolume_def throw_def snd_bindA disk_ok_os case_prod_beta split: sum.splits)

text \<open>
  Whatever calls reach the controller service, with whatever names and faults, the tree it
  works on stays a tree: one entry per cleaned path, every entry in an existing directory.
\<close>

theorem csi_tree_well_formed:
  "disk_ok d \<Longrightarrow> disk_ok (snd (csi_run J drv calls d))"
proof (induction calls arbitrary: d)
  case (Cons c calls)
  from Cons.IH[OF csi_step_ok[OF Cons.prems, of J drv "fst c" "snd c"]] show ?case
    by (cases c) (simp add: case_prod_beta)
qed simp

definition ex_json :: json_meta where
  "ex_json = \<lparr>jm_Marshal = (\<lambda>m. if vmt_CapacityBytes m < 0 then Inl (ErrText ''negative'')
       else Inr (Itoa (length (vmt_Name m)) @ slash # Itoa (nat (vmt_CapacityBytes m)) @ slash # vmt_Name m)),
     jm_Unmarshal = (\<lambda>b.
       let r1 = dropWhile (\<lambda>c. c \<noteq> slash) b; r2 = dropWhile (\<lambda>c. c \<noteq> slash) (tl r1)
       in if r1 = [] \<or> r2 = [] \<or> length (tl r2) \<noteq> digits_val (takeWhile (\<lambda>c. c \<noteq> slash) b)
          then Inl (ErrText ''unexpected end of JSON input'')
          else Inr \<lparr>vmt_Name = tl r2, vmt_CapacityBytes = int (digits_val (takeWhile (\<lambda>c. c \<noteq> slash) (tl r1)))\<rparr>)\<rparr>"

definition ex_hio :: io_env where
  "ex_hio = calm"

definition ex_drv :: Driver where
  "ex_drv = \<lparr>drv_nodeID = ''n1'', drv_baseDir = ''/csi''\<rparr>"

theorem csi_tree_well_formed_witness:
  "disk_ok (snd (csi_run ex_json ex_drv [(ex_hio, CallCreate ''a/b'' 5), (ex_hio, CallDelete ''..'')] []))"
  by (rule csi_tree_well_formed) simp

section \<open>Refinement\<close>

text \<open>
  The abstract table. A call that succeeds does what it says. A call that fails may have
  left the entry it is about as it was, or without readable metadata; a failed creation may also
  have written all of it. No call touches the entry of another name.
\<close>

type_synonym vtable = "string \<rightharpoonup> int64"

inductive table_step :: "csi_call \<Rightarrow> bool \<Rightarrow> vtable \<Rightarrow> vtable \<Rightarrow> bool" where
  created: "table_step (CallCreate name cap) True t (t(name \<mapsto> cap))"
| create_failed: "t' \<in> {t, t(name := None), t(name \<mapsto> cap)} \<Longrightarrow> table_step (CallCreate name cap) False t t'"
| deleted: "table_step (CallDelete name) True t (t(name := None))"
| delete_failed: "t' \<in> {t, t(name := None)} \<Longrightarrow> table_step (CallDelete name) False t t'"

inductive_simps table_step_simps [simp]:
  "table_step (CallCreate name cap) True t t'" "table_step (CallCreate name cap) False t t'"
  "table_step (CallDelete name) True t t'" "table_step (CallDelete name) False t t'"

inductive table_run :: "(csi_call \<times> bool) list \<Rightarrow> vtable \<Rightarrow> vtable \<Rightarrow> bool" where
  table_Nil: "table_run [] t t"
| table_Cons: "table_step c ok t t1 \<Longrightarrow> table_run log t1 t2 \<Longrightarrow> table_run ((c, ok) # log) t t2"

inductive_cases table_run_ConsE: "table_run ((c, ok) # log) t t2"
inductive_cases table_run_NilE: "table_run [] t t2"

fun plain_call :: "csi_call \<Rightarrow> bool" where
  "plain_call (CallCreate name cap) = plain name"
| "plain_call (CallDelete ident) = plain ident"

definition table_ok :: "json_meta \<Rightarrow> Driver \<Rightarrow> disk \<times> (string \<rightharpoonup> int64) \<Rightarrow> bool" where
  "table_ok J drv x \<longleftrightarrow> disk_ok (fst x) \<and> node_at (fst x) (dkey (drv_baseDir drv)) = Some NDir \<and>
     (\<forall>e. volume_at J drv (fst x) e = map_option (\<lambda>c. \<lparr>vmt_Name = e, vmt_CapacityBytes = c\<rparr>) (snd x e))"

lemma volume_at_cong:
  assumes "map_of d' (is_abs (drv_baseDir drv), elems (drv_baseDir drv) @ [e]) = map_of d (is_abs (drv_baseDir drv), elems (drv_baseDir drv) @ [e])"
    and "map_of d' (is_abs (drv_baseDir drv), elems (drv_baseDir drv) @ [e, ''.volume.json'']) = map_of d (is_abs (drv_baseDir drv), elems (drv_baseDir drv) @ [e, ''.volume.json''])"
  shows "volume_at J drv d' e = volume_at J drv d e"
  using assms by (simp add: volume_at_def Let_def)

text \<open>Making the directory of a volume shows no volume.\<close>

lemma mkdir_volume:
  assumes "drv_baseDir drv \<noteq> []" "plain name" "disk_ok d" "node_at d (dkey (drv_baseDir drv)) = Some NDir"
  shows "volume_at J drv (snd (os_MkdirAll io (volumeDir drv name) d)) e = volume_at J drv d e"
    and "node_at (snd (os_MkdirAll io (volumeDir drv name) d)) (dkey (drv_baseDir drv)) = Some NDir"
proof -
  let ?d = "snd (os_MkdirAll io (volumeDir drv name) d)" and ?r = "is_abs (drv_baseDir drv)"
    and ?b = "elems (drv_baseDir drv)"
  note key = volumeDir_key[OF assms(1,2)]
  note fr = MkdirAll_frame[of io "volumeDir drv name" d, unfolded key below_def]
  from fr[of "(?r, ?b)"] assms(4) show "node_at ?d (dkey (drv_baseDir drv)) = Some NDir"
    by (auto simp: node_at_def dkey_def)
  have meta: "map_of ?d (?r, ?b @ [e, ''.volume.json'']) = map_of d (?r, ?b @ [e, ''.volume.json''])"
    using fr[of "(?r, ?b @ [e, ''.volume.json''])"] by (auto dest!: prefix_length_le)
  show "volume_at J drv ?d e = volume_at J drv d e"
  proof (cases "map_of ?d (?r, ?b @ [e]) = map_of d (?r, ?b @ [e])")
    case True
    then show ?thesis using meta by (rule volume_at_cong)
  next
    case False
    with fr[of "(?r, ?b @ [e])"] have "map_of d (?r, ?b @ [e]) = None" by auto
    moreover then have "map_of d (?r, ?b @ [e, ''.volume.json'']) = None"
      using disk_okD(4)[OF assms(3), of "(?r, ?b @ [e, ''.volume.json''])"]
      by (cases "map_of d (?r, ?b @ [e, ''.volume.json''])") (auto simp: node_at_def butlast_append)
    ultimately show ?thesis using meta by (simp add: volume_at_def Let_def)
  qed
qed

text \<open>The metadata file with the encoding of a volume, or with its first bytes.\<close>

lemma write_meta_table:
  assumes "json_laws J" "plain name" "table_ok J drv (d1, t)" "jm_Marshal J \<lparr>vmt_Name = name, vmt_CapacityBytes = cap\<rparr> = Inr b"
    and "map_of d1 (is_abs (drv_baseDir drv), elems (drv_baseDir drv) @ [name]) = Some NDir"
    and "d2 = AList.update (is_abs (drv_baseDir drv), elems (drv_baseDir drv) @ [name, ''.volume.json'']) (NFile (take n b)) d1" "disk_ok d2"
  shows "table_ok J drv (d2, t(name := (if n < length b then None else Some cap)))"
proof -
  let ?r = "is_abs (drv_baseDir drv)" and ?b = "elems (drv_baseDir drv)"
  from assms(3) have t: "node_at d1 (dkey (drv_baseDir drv)) = Some NDir"
    "volume_at J drv d1 e = map_option (\<lambda>c. \<lparr>vmt_Name = e, vmt_CapacityBytes = c\<rparr>) (t e)" for e
    by (simp_all add: table_ok_def)
  have "n < length b \<Longrightarrow> isl (jm_Unmarshal J (take n b))" "jm_Unmarshal J b = Inr \<lparr>vmt_Name = name, vmt_CapacityBytes = cap\<rparr>"
    using assms(1,4) unfolding json_laws_def by blast+
  then have "volume_at J drv d2 name = (if n < length b then None else Some \<lparr>vmt_Name = name, vmt_CapacityBytes = cap\<rparr>)"
    using assms(5) by (auto simp: assms(6) volume_at_def Let_def split: sum.splits)
  moreover have "volume_at J drv d2 e = volume_at J drv d1 e" if "e \<noteq> name" for e
    using that assms(6) by (intro volume_at_cong) simp_all
  moreover have "node_at d2 (dkey (drv_baseDir drv)) = Some NDir"
    using t(1) by (auto simp: assms(6) node_at_def dkey_def)
  ultimately show ?thesis using assms(7) t(2) by (auto simp: table_ok_def)
qed

lemma create_table_ok:
  assumes "drv_baseDir drv \<noteq> []" "json_laws J" "plain name" "table_ok J drv (d, t)"
    and "csi_step J drv io (CallCreate name cap) d = (ok, d')"
  shows "\<exists>t'. table_step (CallCreate name cap) ok t t' \<and> table_ok J drv (d', t')"
proof -
  let ?r = "is_abs (drv_baseDir drv)" and ?b = "elems (drv_baseDir drv)"
  note key = volumeDir_key[OF assms(1,3)]
  from assms(4) have t: "disk_ok d" "node_at d (dkey (drv_baseDir drv)) = Some NDir"
    "volume_at J drv d e = map_option (\<lambda>c. \<lparr>vmt_Name = e, vmt_CapacityBytes = c\<rparr>) (t e)" for e
    by (simp_all add: table_ok_def)
  obtain rm d1 where m: "os_MkdirAll io (volumeDir drv name) d = (rm, d1)" by fastforce
  note mk = mkdir_volume(1)[OF assms(1,3) t(1,2), of J io, unfolded m snd_conv]
    mkdir_volume(2)[OF assms(1,3) t(1,2), of io, unfolded m snd_conv]
  have ok1: "disk_ok d1" using disk_ok_os(1)[OF t(1), of io "volumeDir drv name"] m by simp
  have stay: "table_ok J drv (d1, t)" using ok1 mk t(3) by (simp add: table_ok_def)
  have plain: "name \<noteq> []" "validVolumeID drv name"
    using assms(3) plain_valid[OF assms(1,3)] by (auto simp: plain_def)
  show ?thesis
  proof (cases "isl rm \<or> isl (jm_Marshal J \<lparr>vmt_Name = name, vmt_CapacityBytes = cap\<rparr>)")
    case True
    with plain m assms(5) have "\<not> ok" "d' = d1" by (auto simp: hp_CreateVolume_def actions split: sum.splits)
    with stay show ?thesis by auto
  next
    case False
    then obtain b where b: "rm = Inr ()" "jm_Marshal J \<lparr>vmt_Name = name, vmt_CapacityBytes = cap\<rparr> = Inr b"
      by (cases rm; cases "jm_Marshal J \<lparr>vmt_Name = name, vmt_CapacityBytes = cap\<rparr>") simp_all
    obtain rw d2 where w: "os_WriteFile io (metaPath drv name) b d1 = (rw, d2)" by fastforce
    with plain m b assms(5) have ok: "ok = (\<not> isl rw)" "d' = d2" by (auto simp: hp_CreateVolume_def actions split: sum.splits)
    have dir: "map_of d1 (?r, ?b @ [name]) = Some NDir"
      using MkdirAll_ok[of io "volumeDir drv name" d d1] m b(1) by (simp add: key node_at_def split: if_splits)
    have ok2: "disk_ok d2" using disk_ok_os(2)[OF ok1, of io "metaPath drv name" b] w by simp
    note wr = write_meta_table[OF assms(2,3) stay b(2) dir _ ok2]
    show ?thesis
    proof (cases rw)
      case (Inl e)
      from WriteFile_failed[OF w[unfolded Inl]] show ?thesis
      proof
        assume "d2 = d1" with ok Inl stay show ?thesis by auto
      next
        assume "\<exists>n. d2 = AList.update (dkey (metaPath drv name)) (NFile (take n b)) d1"
        then obtain n where "table_ok J drv (d2, t(name := (if n < length b then None else Some cap)))"
          using wr by (auto simp: key)
        with ok Inl show ?thesis by (intro exI[of _ "t(name := (if n < length b then None else Some cap))"]) simp
      qed
    next
      case (Inr u)
      from WriteFile_ok[of io "metaPath drv name" b d1 d2] w Inr have "d2 = AList.update (dkey (metaPath drv name)) (NFile (take (length b) b)) d1" by simp
      with wr[of "length b"] ok Inr show ?thesis by (auto simp: key)
    qed
  qed
qed

lemma delete_table_ok:
  assumes "drv_baseDir drv \<noteq> []" "plain name" "table_ok J drv (d, t)"
    and "csi_step J drv io (CallDelete name) d = (ok, d')"
  shows "\<exists>t'. table_step (CallDelete name) ok t t' \<and> table_ok J drv (d', t')"
proof -
  let ?r = "is_abs (drv_baseDir drv)" and ?b = "elems (drv_baseDir drv)"
  note key = volumeDir_key[OF assms(1,2)]
  from assms(3) have t: "disk_ok d" "node_at d (dkey (drv_baseDir drv)) = Some NDir"
    "volume_at J drv d e = map_option (\<lambda>c. \<lparr>vmt_Name = e, vmt_CapacityBytes = c\<rparr>) (t e)" for e
    by (simp_all add: table_ok_def)
  have plain: "name \<noteq> []" "validVolumeID drv name"
    using assms(2) plain_valid[OF assms(1,2)] by (auto simp: plain_def)
  obtain rm d1 where m: "os_RemoveAll io (volumeDir drv name) d = (rm, d1)" by fastforce
  with plain assms(4) have ok: "ok = (\<not> isl rm)" "d' = d1" by (auto simp: hp_DeleteVolume_def actions split: sum.splits)
  have ok1: "disk_ok d1" using disk_ok_os(4)[OF t(1), of io "volumeDir drv name"] m by simp
  note fr = RemoveAll_frame[of io "volumeDir drv name" d, unfolded m snd_conv key below_def, simplified]
  have other: "volume_at J drv d1 e = volume_at J drv d e" if "e \<noteq> name" for e
    using that fr[of "(?r, ?b @ [e])"] fr[of "(?r, ?b @ [e, ''.volume.json''])"] by (intro volume_at_cong) simp_all
  have base: "node_at d1 (dkey (drv_baseDir drv)) = Some NDir"
    using t(2) fr[of "(?r, ?b)"] by (auto simp: node_at_def dkey_def dest!: prefix_length_le)
  have self: "volume_at J drv d1 name = volume_at J drv d name \<or> volume_at J drv d1 name = None"
    using fr[of "(?r, ?b @ [name])"] fr[of "(?r, ?b @ [name, ''.volume.json''])"] by (auto simp: volume_at_def Let_def)
  have gone: "volume_at J drv d1 name = None" if "rm = Inr ()"
    using RemoveAll_ok[of io "volumeDir drv name" d d1, unfolded key below_def] m that by (simp add: volume_at_def Let_def)
  have "table_ok J drv (d1, t(name := None))" if "volume_at J drv d1 name = None"
    using that ok1 base other t(3) by (auto simp: table_ok_def)
  moreover have "table_ok J drv (d1, t)" if "volume_at J drv d1 name = volume_at J drv d name"
    unfolding table_ok_def fst_conv snd_conv using that ok1 base other t(3) by metis
  ultimately show ?thesis using self gone ok by (cases rm) auto
qed

lemma csi_run_table_ok:
  assumes "drv_baseDir drv \<noteq> []" "json_laws J"
  shows "table_ok J drv (d, t) \<Longrightarrow> list_all (plain_call \<circ> snd) calls \<Longrightarrow> csi_run J drv calls d = (log, d') \<Longrightarrow>
    \<exists>t'. table_run log t t' \<and> table_ok J drv (d', t')"
proof (induction calls arbitrary: d t log)
  case (Cons x calls)
  obtain io c where x: "x = (io, c)" by fastforce
  obtain ok d1 where s: "csi_step J drv io c d = (ok, d1)" by fastforce
  obtain log1 where r: "csi_run J drv calls d1 = (log1, d')" "log = (c, ok) # log1"
    using Cons.prems(3) by (auto simp: x s split: prod.splits)
  have "\<exists>t1. table_step c ok t t1 \<and> table_ok J drv (d1, t1)"
  proof (cases c)
    case (CallCreate name cap)
    show ?thesis unfolding CallCreate
      by (rule create_table_ok[OF assms _ Cons.prems(1) s[unfolded CallCreate]]) (use Cons.prems(2) x CallCreate in simp)
  next
    case (CallDelete name)
    show ?thesis unfolding CallDelete
      by (rule delete_table_ok[OF assms(1) _ Cons.prems(1) s[unfolded CallDelete]]) (use Cons.prems(2) x CallDelete in simp)
  qed
  then obtain t1 where t1: "table_step c ok t t1" "table_ok J drv (d1, t1)" by blast
  from Cons.IH[OF t1(2) _ r(1)] Cons.prems(2) obtain t' where "table_run log1 t1 t'" "table_ok J drv (d', t')" by auto
  with table_Cons[OF t1(1)] r(2) show ?case by blast
qed (auto intro: table_Nil)

text \<open>The listing shows the table.\<close>

lemma volumes_loop_volume_at:
  assumes "drv_baseDir drv \<noteq> []" "\<And>p. io_fault io ''read'' p = None"
    and "\<forall>(e, n) \<in> set es. plain e \<and> map_of d (is_abs (drv_baseDir drv), elems (drv_baseDir drv) @ [e]) = Some n"
  shows "volumes_loop io J drv es d =
    map (\<lambda>m. (vmt_Name m, vmt_CapacityBytes m)) (List.map_filter (volume_at J drv d) (map fst es))"
  using assms(3)
proof (induction es)
  case (Cons x es)
  obtain e n where x: "x = (e, n)" by fastforce
  with Cons.prems have e: "plain e" "map_of d (is_abs (drv_baseDir drv), elems (drv_baseDir drv) @ [e]) = Some n" by auto
  have "volume_at J drv d e = (if n \<noteq> NDir then None else case readMeta io J drv e d of Inl _ \<Rightarrow> None | Inr m \<Rightarrow> Some m)"
    using e(2) volumeDir_key(2)[OF assms(1) e(1)]
    by (auto simp: volume_at_def Let_def readMeta_def os_ReadFile_def assms(2) node_at_def split: option.splits fnode.splits sum.splits)
  with Cons x show ?case by (auto simp: List.map_filter_simps split: sum.splits)
qed (simp add: List.map_filter_simps)

lemma list_table:
  assumes "is_abs (drv_baseDir drv)" "table_ok J drv (d, t)"
    and "\<And>p. io_fault io ''read'' p = None" "\<And>p. io_fault io ''readdir'' p = None"
  shows "\<exists>es. hp_ListVolumes io J drv d = Inr es \<and> distinct (map fst es) \<and> map_of es = t"
proof -
  let ?k = "dkey (drv_baseDir drv)"
  have ne: "drv_baseDir drv \<noteq> []" using assms(1) by (auto simp: is_abs_def)
  from assms(2) have ok: "disk_ok d" and base: "node_at d ?k = Some NDir"
    and t: "\<And>e. volume_at J drv d e = map_option (\<lambda>c. \<lparr>vmt_Name = e, vmt_CapacityBytes = c\<rparr>) (t e)"
    by (simp_all add: table_ok_def)
  let ?es = "children d ?k" and ?f = "\<lambda>e. map_option (Pair e) (t e)"
  have es: "(e, n) \<in> set ?es \<longleftrightarrow> map_of d (is_abs (drv_baseDir drv), elems (drv_baseDir drv) @ [e]) = Some n" for e n
    using children_map_of[OF disk_okD(1)[OF ok], of e n ?k] by (simp add: dkey_def)
  have vat: "volume_at J drv d = (\<lambda>e. map_option (\<lambda>c. \<lparr>vmt_Name = e, vmt_CapacityBytes = c\<rparr>) (t e))"
    by (rule ext) (rule t)
  have proj: "map (\<lambda>m. (vmt_Name m, vmt_CapacityBytes m))
      (List.map_filter (\<lambda>e. map_option (\<lambda>c. \<lparr>vmt_Name = e, vmt_CapacityBytes = c\<rparr>) (t e)) ks) = List.map_filter ?f ks" for ks
    by (induction ks) (auto simp: List.map_filter_simps split: option.splits)
  have "plain e" if "(e, n) \<in> set ?es" for e n
  proof -
    have "normal True (elems (drv_baseDir drv) @ [e])"
      using that disk_okD(3)[OF ok, of "(is_abs (drv_baseDir drv), elems (drv_baseDir drv) @ [e])" n] assms(1)
      by (simp add: es)
    from normal_butlast(2)[OF this normal_rooted_last[OF this]] show ?thesis .
  qed
  with es have "\<forall>(e, n) \<in> set ?es. plain e \<and> map_of d (is_abs (drv_baseDir drv), elems (drv_baseDir drv) @ [e]) = Some n"
    by blast
  from volumes_loop_volume_at[OF ne assms(3) this, of J]
  have loop: "volumes_loop io J drv ?es d = List.map_filter ?f (map fst ?es)"
    using proj[of "map fst ?es"] vat by simp
  have dist: "distinct (map fst ?es)" by (rule distinct_children[OF disk_okD(1)[OF ok]])
  let ?out = "List.map_filter ?f (map fst ?es)"
  have out: "hp_ListVolumes io J drv d = Inr ?out"
    using base loop by (simp add: hp_ListVolumes_def os_ReadDir_def assms(4))
  have fsts: "map fst (List.map_filter ?f ks) = filter (\<lambda>e. t e \<noteq> None) ks" for ks
    by (induction ks) (auto simp: List.map_filter_simps split: option.splits)
  have dom: "e \<in> fst ` set ?es" if "t e = Some c" for e c
  proof -
    from that t[of e] have "map_of d (is_abs (drv_baseDir drv), elems (drv_baseDir drv) @ [e]) = Some NDir"
      by (auto simp: volume_at_def Let_def split: if_splits)
    then have "(e, NDir) \<in> set ?es" by (simp add: es)
    then show ?thesis by force
  qed
  have mo: "map_of (List.map_filter ?f ks) e = (if e \<in> set ks then t e else None)" for ks e
    by (induction ks) (auto simp: List.map_filter_simps split: option.splits)
  have "map_of ?out = t"
  proof
    fix e show "map_of ?out e = t e" using mo[of "map fst ?es" e] dom[of e] by (cases "t e") auto
  qed
  with out fsts[of "map fst ?es"] dist show ?thesis by auto
qed

text \<open>
  C20: the driver's controller service refines a table from volume names to capacities.
  Started on an empty disk with an absolute base directory, after any sequence of
  \<open>CreateVolume\<close> and \<open>DeleteVolume\<close> calls with plain names, each with its own faults of the
  operating system, a later listing that meets no fault shows each volume of the table once,
  with its capacity, and nothing else. The table is what the calls and their outcomes make
  of the empty table: a successful call sets or removes its entry, a failed one (whose
  directory creation, metadata write or removal may have stopped half-way) leaves its
  entry as it was, or without metadata, or with the new capacity, and no call changes the
  entry of another name. The tree has no symbolic links; publishing is not among the calls.
\<close>

theorem csi_driver_refines_table:
  assumes "json_laws J" "is_abs base" "hostpath_New io0 node base [] = (Inr drv, d0)"
    and "list_all (\<lambda>(io, c). plain_call c) calls" "csi_run J drv calls d0 = (log, d)"
    and "\<And>p. io_fault io ''read'' p = None" "\<And>p. io_fault io ''readdir'' p = None"
  shows "\<exists>es t. hp_ListVolumes io J drv d = Inr es \<and> distinct (map fst es) \<and> map_of es = t \<and> table_run log Map.empty t"
proof -
  from assms(3) have drv: "drv_baseDir drv = base" and mk: "os_MkdirAll io0 base [] = (Inr (), d0)"
    by (auto simp: hostpath_New_def bindA_Inr ret_def)
  have ne: "base \<noteq> []" using assms(2) by (auto simp: is_abs_def)
  have "map_of d0 (is_abs base, elems base @ [e]) = None" for e
    using MkdirAll_frame[of io0 base "[]" "(is_abs base, elems base @ [e])"] mk
    by (auto simp: below_def dkey_def dest!: prefix_length_le)
  then have "volume_at J drv d0 e = None" for e by (simp add: volume_at_def Let_def drv)
  then have "table_ok J drv (d0, Map.empty)"
    using MkdirAll_ok[OF mk] disk_ok_os(1)[OF disk_ok_Nil, of io0 base] mk by (simp add: table_ok_def drv)
  from csi_run_table_ok[OF _ assms(1) this _ assms(5)] ne drv assms(4)
  obtain t where t: "table_run log Map.empty t" "table_ok J drv (d, t)" by (auto simp: list_all_iff case_prod_unfold)
  from list_table[OF _ t(2) assms(6,7)] assms(2) drv t(1) show ?thesis by auto
qed

lemma ex_json_laws: "json_laws ex_json"
proof -
  have L: "takeWhile (\<lambda>c. c \<noteq> slash) (Itoa n @ slash # r) = Itoa n"
    "dropWhile (\<lambda>c. c \<noteq> slash) (Itoa n @ slash # r) = slash # r"
    "dropWhile (\<lambda>c. c \<noteq> slash) (take m (Itoa n)) = []" for n m r
    using Itoa_no_slash[of n] by (auto simp: takeWhile_append takeWhile_eq_all_conv dropWhile_append dest: in_set_takeD)
  have cut: "dropWhile (\<lambda>c. c \<noteq> slash) (take k (Itoa n @ slash # r)) =
      (if k \<le> length (Itoa n) then [] else slash # take (k - length (Itoa n) - 1) r)" for k n r
  proof (cases "k \<le> length (Itoa n)")
    case False
    then obtain j where "k - length (Itoa n) = Suc j" by (cases "k - length (Itoa n)") auto
    with False L(2) show ?thesis by simp
  qed (use L(3) in simp)
  have "isl (jm_Unmarshal ex_json (take n (Itoa a @ slash # Itoa c @ slash # nm)))"
    if n: "n < length (Itoa a @ slash # Itoa c @ slash # nm)" and a: "a = length nm" for n a c nm
  proof -
    let ?m = "n - length (Itoa a) - 1" and ?k = "n - length (Itoa a) - 1 - length (Itoa c) - 1"
    consider "n \<le> length (Itoa a)" | "length (Itoa a) < n" "?m \<le> length (Itoa c)" | "length (Itoa a) < n" "length (Itoa c) < ?m"
      by linarith
    then show ?thesis
    proof cases
      case 3
      have w: "takeWhile (\<lambda>c. c \<noteq> slash) (take n (Itoa a @ slash # r)) = Itoa a" for r
        using 3(1) L(1)[of a "take ?m r"] by (cases "n - length (Itoa a)") auto
      have "length (take ?k nm) \<noteq> a" using n 3 a by auto
      with 3 show ?thesis by (simp add: ex_json_def Let_def cut w del: take_append)
    qed (simp_all add: ex_json_def Let_def cut del: take_append dropWhile_eq_Nil_conv)
  qed
  note short = this
  have whole: "jm_Unmarshal ex_json (Itoa (length nm) @ slash # Itoa c @ slash # nm) = Inr \<lparr>vmt_Name = nm, vmt_CapacityBytes = int c\<rparr>" for nm c
    by (simp add: ex_json_def Let_def L)
  show ?thesis unfolding json_laws_def
  proof (intro allI impI)
    fix m b assume "jm_Marshal ex_json m = Inr b"
    then have b: "b = Itoa (length (vmt_Name m)) @ slash # Itoa (nat (vmt_CapacityBytes m)) @ slash # vmt_Name m" "0 \<le> vmt_CapacityBytes m"
      by (simp_all add: ex_json_def split: if_splits)
    show "jm_Unmarshal ex_json b = Inr m \<and> (\<forall>n < length b. isl (jm_Unmarshal ex_json (take n b)))"
      using whole[of "vmt_Name m" "nat (vmt_CapacityBytes m)"] short[OF _ refl] b(2) unfolding b(1) by simp
  qed
qed

text \<open>The write of the metadata fails after four bytes, in the second creation of the volume.\<close>

definition ex_full :: io_env where
  "ex_full = calm\<lparr>io_fault := \<lambda>op p. if op = ''write'' then Some (ErrText ''no space left on device'') else None,
     io_written := \<lambda>p. Some 4\<rparr>"

theorem csi_driver_refines_table_witness:
  "\<exists>es t. hp_ListVolumes ex_hio ex_json ex_drv
     (snd (csi_run ex_json ex_drv [(ex_hio, CallCreate ''a'' 5), (ex_hio, CallCreate ''b'' 7), (ex_full, CallCreate ''a'' 9)]
       (snd (hostpath_New ex_hio ''n1'' ''/csi'' [])))) = Inr es \<and> distinct (map fst es) \<and> map_of es = t \<and>
     table_run (fst (csi_run ex_json ex_drv [(ex_hio, CallCreate ''a'' 5), (ex_hio, CallCreate ''b'' 7), (ex_full, CallCreate ''a'' 9)]
       (snd (hostpath_New ex_hio ''n1'' ''/csi'' [])))) Map.empty t \<and> t ''b'' = Some 7"
proof -
  let ?cs = "[(ex_hio, CallCreate ''a'' 5), (ex_hio, CallCreate ''b'' 7), (ex_full, CallCreate ''a'' 9)]"
  have n: "hostpath_New ex_hio ''n1'' ''/csi'' [] = (Inr ex_drv, snd (hostpath_New ex_hio ''n1'' ''/csi'' []))"
    by code_simp
  have p: "list_all (\<lambda>(io, c). plain_call c) ?cs" by (simp add: plain_def)
  have a: "is_abs ''/csi''" by (simp add: is_abs_def)
  have f: "io_fault ex_hio ''read'' p = None" "io_fault ex_hio ''readdir'' p = None" for p by (simp_all add: ex_hio_def)
  have b: "t ''b'' = Some 7" if "table_run [(CallCreate ''a'' 5, True), (CallCreate ''b'' 7, True), (CallCreate ''a'' 9, False)] Map.empty t" for t
    using that by (auto elim!: table_run_ConsE table_run_NilE)
  have "fst (csi_run ex_json ex_drv ?cs (snd (hostpath_New ex_hio ''n1'' ''/csi'' []))) =
      [(CallCreate ''a'' 5, True), (CallCreate ''b'' 7, True), (CallCreate ''a'' 9, False)]"
    by code_simp
  with csi_driver_refines_table[OF ex_json_laws a n p surjective_pairing f] b show ?thesis by metis
qed

text \<open>
  The check lets the base directory itself through: deleting a volume whose name
  leads back to it, such as \<open>.\<close> or \<open>x/..\<close>, deletes every volume and the base directory with
  them.
\<close>

lemma delete_base_deletes_all:
  assumes "drv_baseDir drv \<noteq> []" "elems (drv_baseDir drv) \<noteq> []" "io_fault io ''removeall'' (volumeDir drv ident) = None"
    and "ident \<noteq> []" "elems (volumeDir drv ident) = elems (drv_baseDir drv)"
  shows "fst (hp_DeleteVolume io drv ident d) = Inr ()"
    and "below (dkey (drv_baseDir drv)) k \<Longrightarrow> map_of (snd (hp_DeleteVolume io drv ident d)) k = None"
proof -
  let ?es = "elems (drv_baseDir drv)" and ?p = "volumeDir drv ident"
  have dir: "elems ?p = ?es" "is_abs ?p = is_abs (drv_baseDir drv)"
    using elems_Join2(2)[OF assms(1), of ident] assms(5) by (simp_all add: volumeDir_def)
  have valid: "validVolumeID drv ident" using assms(4) by (simp add: validVolumeID_iff[OF assms(1)] inside_def dir)
  have "Clean ?p = ?p" using assms(1) by (simp add: volumeDir_def)
  then have path: "?p = render (is_abs (drv_baseDir drv)) ?es" by (simp add: Clean_def dir)
  have "split_on slash (join_with ''/'' ?es) = ?es"
    using split_join[OF assms(2), of slash] normal_no_slash[OF elems_normal] by auto
  then have last: "last (split_on slash ?p) = last ?es"
    using assms(2) by (auto simp: path render_def)
  have "last ?es \<noteq> ''.''"
  proof -
    have "normal (is_abs (drv_baseDir drv)) (butlast ?es @ [last ?es])" using elems_normal assms(2) by simp
    from normal_butlast(2)[OF this] show ?thesis by (auto simp: plain_def)
  qed
  have "\<not> HasSuffix ?p ''/.''"
  proof
    assume "HasSuffix ?p ''/.''"
    then obtain n where "drop n ?p = ''/.''" unfolding HasSuffix_def by blast
    then obtain q where q: "?p = q @ slash # ''.''" by (metis append_take_drop_id)
    have "split_on slash (q @ slash # ''.'') = split_on slash q @ [''.'']" by simp
    with q last \<open>last ?es \<noteq> ''.''\<close> show False by simp
  qed
  moreover have "?p \<noteq> ''.''" using dir(1) assms(2) by (auto simp: elems_def)
  ultimately have del: "hp_DeleteVolume io drv ident d = (Inr (), filter (\<lambda>(k, n). \<not> below (dkey ?p) k) d)"
    using valid assms(3,4) by (simp add: hp_DeleteVolume_def os_RemoveAll_def statusA_def)
  then show "fst (hp_DeleteVolume io drv ident d) = Inr ()" by simp
  from del show "below (dkey (drv_baseDir drv)) k \<Longrightarrow> map_of (snd (hp_DeleteVolume io drv ident d)) k = None"
    using map_of_filter_keys[of "\<lambda>k. \<not> below (dkey ?p) k" d k] by (simp add: dkey_def dir)
qed

lemma volume_dot_elems: "drv_baseDir drv \<noteq> [] \<Longrightarrow> elems (volumeDir drv ''.'') = elems (drv_baseDir drv)"
  using elems_Join2(1)[of "drv_baseDir drv" "''.''"] by (simp add: volumeDir_def)

lemmas delete_dot_deletes_all = delete_base_deletes_all[where ident = "''.''", OF _ _ _ list.distinct(2) volume_dot_elems]

end
