(* ===== verification/VolumeService.thy ===== *)
theory VolumeService
  imports ApiServices HostPath
begin

text \<open>
  The volume service of the API server on the built-in driver, as \<^verbatim>\<open>cmd/nimbus-apiserver/main.go\<close>
  connects them: the service names a volume \<open>namespace/name\<close>, the driver makes a directory of
  that. The state is the store and the driver's directory tree.
\<close>

definition hostpath_controller :: "io_env \<Rightarrow> json_meta \<Rightarrow> Driver \<Rightarrow> disk CSIController" where
  "hostpath_controller io J drv =
     \<lparr>csi_CreateVolume = \<lambda>name bytes. bindA (hp_CreateVolume io J drv name bytes) (\<lambda>v. ret (snd v)),
      csi_DeleteVolume = hp_DeleteVolume io drv\<rparr>"

abbreviation vol_ident :: "string \<Rightarrow> string \<Rightarrow> string" where
  "vol_ident ns name \<equiv> ns @ slash # name"

abbreviation vol_dir :: "Driver \<Rightarrow> string \<Rightarrow> string \<Rightarrow> dpath" where
  "vol_dir drv ns name \<equiv> (is_abs (drv_baseDir drv), elems (drv_baseDir drv) @ [ns, name])"

lemma vol_dir_key:
  assumes "drv_baseDir drv \<noteq> []" "plain ns" "plain name"
  shows "dkey (volumeDir drv (vol_ident ns name)) = vol_dir drv ns name"
    and "dkey (metaPath drv (vol_ident ns name)) = (is_abs (drv_baseDir drv), elems (drv_baseDir drv) @ [ns, name, ''.volume.json''])"
proof -
  have "split_on slash (vol_ident ns name) = [ns, name]"
    using assms(2,3) by (simp add: split_on_none plain_def)
  then have e: "elems (volumeDir drv (vol_ident ns name)) = elems (drv_baseDir drv) @ [ns, name]"
    using elems_Join2(1)[OF assms(1), of "vol_ident ns name"] assms(2,3) by (simp add: volumeDir_def plain_def)
  then show "dkey (volumeDir drv (vol_ident ns name)) = vol_dir drv ns name"
    using elems_Join2(2)[OF assms(1)] by (simp add: dkey_def volumeDir_def)
  have "volumeDir drv (vol_ident ns name) \<noteq> []" using assms(1) by (simp add: volumeDir_def)
  then show "dkey (metaPath drv (vol_ident ns name)) = (is_abs (drv_baseDir drv), elems (drv_baseDir drv) @ [ns, name, ''.volume.json''])"
    using e elems_Join2(2)[OF assms(1)] elems_Join2(2)[of "volumeDir drv (vol_ident ns name)"] plain_meta
    by (simp add: dkey_def metaPath_def elems_Join_plain) (simp add: volumeDir_def)
qed

lemma bind_onSnd_Inr:
  "bindA (onSnd a) f (s, v) = (Inr y, w) \<longleftrightarrow> (\<exists>x v'. a v = (Inr x, v') \<and> f x (s, v') = (Inr y, w))"
  by (auto simp: bindA_def onSnd_def split: prod.splits sum.splits)

lemma onFst_Inr: "onFst a (s, v) = (Inr x, (s', v')) \<longleftrightarrow> a s = (Inr x, s') \<and> v' = v"
  by (auto simp: onFst_def split: prod.splits)

text \<open>
  C37: volumes do not touch each other. Creating a volume through the API, for a namespace and
  name that are plain words, makes its directory with the metadata in it and changes nothing
  on disk outside that directory (but for making the namespace's directory and those above it);
  deleting it removes the directory with everything in it and nothing else. The stored object
  appears and disappears with it.
\<close>

theorem volume_lifecycle_isolated:
  assumes "registry_laws S good repr CV" "good s" "drv_baseDir drv \<noteq> []" "plain (vol_namespace v)" "plain (vol_name v)"
    and "CreateVolume (reg_New S kVolumes CV) (hostpath_controller io J drv) (Some v) (s, d) = (Inr v', (s1, d1))"
    and "DeleteVolume (reg_New S kVolumes CV) (hostpath_controller io J drv) (vol_namespace v) (vol_name v) (s1, d1) = (Inr (), (s2, d2))"
  shows "node_at d1 (vol_dir drv (vol_namespace v) (vol_name v)) = Some NDir \<and>
    (\<exists>b. map_of d1 (fst (vol_dir drv (vol_namespace v) (vol_name v)), snd (vol_dir drv (vol_namespace v) (vol_name v)) @ [''.volume.json'']) = Some (NFile b)) \<and>
    obj_at repr CV kVolumes s1 (key_of kVolumes (vol_namespace v) (vol_name v)) = Some v' \<and>
    (\<forall>k. \<not> below (vol_dir drv (vol_namespace v) (vol_name v)) k \<longrightarrow>
       map_of d2 k = map_of d1 k \<and> (map_of d k \<noteq> None \<longrightarrow> map_of d1 k = map_of d k)) \<and>
    (\<forall>k. below (vol_dir drv (vol_namespace v) (vol_name v)) k \<longrightarrow> map_of d2 k = None) \<and>
    obj_at repr CV kVolumes s2 (key_of kVolumes (vol_namespace v) (vol_name v)) = None"
proof -
  let ?ns = "vol_namespace v" and ?n = "vol_name v" and ?R = "reg_New S kVolumes CV"
  let ?id = "vol_ident ?ns ?n" and ?k = "vol_dir drv ?ns ?n"
  note key = vol_dir_key[OF assms(3,4,5)]
  from assms(6) obtain cap where c: "bindA (hp_CreateVolume io J drv ?id (VolumeSpec_GetRequestedBytes (vol_spec v))) (\<lambda>v. ret (snd v)) d = (Inr cap, d1)"
    and o: "reg_Put ?R ?ns ?n v' s = (Inr (), s1)"
    by (auto simp: CreateVolume_def hostpath_controller_def invalid_def throw_def bind_onSnd_Inr onFst_Inr api_put_Inr split: if_splits)
  from c obtain b dm where m: "os_MkdirAll io (volumeDir drv ?id) d = (Inr (), dm)" and w: "os_WriteFile io (metaPath drv ?id) b dm = (Inr (), d1)"
    by (auto simp: bindA_Inr hp_CreateVolume_def throw_def ret_def split: if_splits)
  from assms(7) have del: "os_RemoveAll io (volumeDir drv ?id) d1 = (Inr (), d2)" and o2: "reg_Delete ?R ?ns ?n s1 = (Inr (), s2)"
    by (auto simp: DeleteVolume_def hostpath_controller_def invalid_def throw_def bind_onSnd_Inr onFst_Inr hp_DeleteVolume_def split: if_splits)
  have d1: "d1 = AList.update (dkey (metaPath drv ?id)) (NFile b) dm" using WriteFile_ok[OF w] by blast
  have "node_at dm ?k = Some NDir" using MkdirAll_ok[OF m] by (simp add: key)
  then have dir: "node_at d1 ?k = Some NDir" by (simp add: d1 key node_at_def)
  have frame: "map_of d1 k = map_of d k" if "\<not> below ?k k" "map_of d k \<noteq> None" for k
  proof -
    have "k \<noteq> dkey (metaPath drv ?id)" using that(1) by (auto simp: key below_def)
    with MkdirAll_frame[of io "volumeDir drv ?id" d k] that(2) show ?thesis by (auto simp: d1 m)
  qed
  note p = registry_laws.reg_Put_ok[OF assms(1,2) o]
  have "obj_at repr CV kVolumes s2 (key_of kVolumes ?ns ?n) = None"
    using registry_laws.reg_Delete_ok[OF assms(1) p(1) o2] by simp
  moreover have "map_of d1 (fst ?k, snd ?k @ [''.volume.json'']) = Some (NFile b)" by (simp add: d1 key)
  ultimately show ?thesis
    using dir frame p(2) RemoveAll_ok[OF del] by (auto simp: key)
qed

text \<open>
  Deleting the volume \<open>..\<close> of any namespace deletes every volume. The service passes the name
  on, the driver takes \<open>namespace/..\<close> for its own base directory and removes it: the call
  succeeds at the driver and no volume of any namespace is left on disk.
\<close>

theorem delete_dotdot_deletes_all:
  assumes "drv_baseDir drv \<noteq> []" "elems (drv_baseDir drv) \<noteq> []" "plain ns" "\<And>p. io_fault io ''removeall'' p = None"
  shows "below (dkey (drv_baseDir drv)) k \<longrightarrow>
    map_of (snd (snd (DeleteVolume volumes (hostpath_controller io J drv) ns ''..'' (s, d)))) k = None"
proof -
  have "split_on slash (vol_ident ns ''..'') = [ns, ''..'']" using assms(3) by (simp add: split_on_none plain_def)
  then have e: "elems (volumeDir drv (vol_ident ns ''..'')) = elems (drv_baseDir drv)"
    using elems_Join2(1)[OF assms(1), of "vol_ident ns ''..''"] assms(3) by (simp add: volumeDir_def plain_def)
  have ne: "vol_ident ns ''..'' \<noteq> []" by simp
  note del = delete_base_deletes_all[where d = d, OF assms(1,2) assms(4) ne e]
  from assms(3) have "ns \<noteq> []" by (simp add: plain_def)
  with del show ?thesis
    by (auto simp: DeleteVolume_def hostpath_controller_def bindA_def onSnd_def onFst_def statusA_def prod_eq_iff split: prod.splits sum.splits)
qed

section \<open>Instances\<close>

abbreviation ex_volumes :: "(wire memStore, wire, Volume) Registry" where
  "ex_volumes \<equiv> reg_New memStore kVolumes vol_codec"

definition ex_vol :: "string \<Rightarrow> Volume" where
  "ex_vol n = \<lparr>vol_metadata = Some (zero_ObjectMeta\<lparr>meta_name := n, meta_namespace := ''default''\<rparr>),
     vol_spec = Some \<lparr>volspec_requested_bytes = 5\<rparr>, vol_status = None\<rparr>"

theorem volume_lifecycle_isolated_witness:
  "\<exists>v s1 d1 s2 d2. CreateVolume ex_volumes (hostpath_controller ex_hio ex_json ex_drv) (Some (ex_vol ''data'')) ([], []) = (Inr v, (s1, d1)) \<and>
     DeleteVolume ex_volumes (hostpath_controller ex_hio ex_json ex_drv) ''default'' ''data'' (s1, d1) = (Inr (), (s2, d2)) \<and>
     map_of d1 (True, [''csi'', ''default'', ''data'']) \<noteq> None \<and> map_of d2 (True, [''csi'', ''default'', ''data'']) = None"
proof -
  let ?C = "hostpath_controller ex_hio ex_json ex_drv" and ?v = "ex_vol ''data''"
  let ?run = "CreateVolume ex_volumes ?C (Some ?v) ([], [])"
  define v where "v = projr (fst ?run)" define s1 where "s1 = fst (snd ?run)" define d1 where "d1 = snd (snd ?run)"
  define s2 where "s2 = fst (snd (DeleteVolume ex_volumes ?C ''default'' ''data'' (s1, d1)))"
  define d2 where "d2 = snd (snd (DeleteVolume ex_volumes ?C ''default'' ''data'' (s1, d1)))"
  have c: "?run = (Inr v, (s1, d1))" unfolding v_def s1_def d1_def by code_simp
  have dl: "DeleteVolume ex_volumes ?C ''default'' ''data'' (s1, d1) = (Inr (), (s2, d2))" unfolding s2_def d2_def s1_def d1_def by code_simp
  have n: "vol_namespace ?v = ''default''" "vol_name ?v = ''data''" by (simp_all add: ex_vol_def)
  have b: "drv_baseDir ex_drv \<noteq> []" "is_abs (drv_baseDir ex_drv)" "elems (drv_baseDir ex_drv) = [''csi'']"
    by (simp add: ex_drv_def) code_simp+
  have "mem_ok []" "plain (vol_namespace ?v)" "plain (vol_name ?v)" by (simp_all add: plain_def n)
  moreover have "DeleteVolume ex_volumes ?C (vol_namespace ?v) (vol_name ?v) (s1, d1) = (Inr (), (s2, d2))" unfolding n by (rule dl)
  note volume_lifecycle_isolated[OF mem_cluster.vols.registry_laws_axioms calculation(1) b(1) calculation(2,3) c this]
  then show ?thesis unfolding n using c dl by (auto simp: b(2,3) node_at_def below_def)
qed

theorem delete_dotdot_deletes_all_witness:
  "map_of (snd (snd (DeleteVolume ex_volumes (hostpath_controller ex_hio ex_json ex_drv) ''default'' ''..''
     ([], [((True, [''csi'']), NDir), ((True, [''csi'', ''other'']), NDir)])))) (True, [''csi'', ''other'']) = None"
proof -
  have "drv_baseDir ex_drv \<noteq> []" "elems (drv_baseDir ex_drv) \<noteq> []" "plain ''default''" by code_simp+
  moreover have "io_fault ex_hio ''removeall'' p = None" for p by (simp add: ex_hio_def)
  moreover have "below (dkey (drv_baseDir ex_drv)) (True, [''csi'', ''other''])" by code_simp
  ultimately show ?thesis
    using delete_dotdot_deletes_all[of ex_drv "''default''" ex_hio "(True, [''csi'', ''other''])" ex_volumes ex_json "[]"] by blast
qed

text \<open>
  The driver lists the directories directly under its base directory, where the service puts
  the namespaces: a volume made through the API is not in the driver's list.
\<close>

lemma api_volume_not_listed:
  "\<not> isl (fst (CreateVolume ex_volumes (hostpath_controller ex_hio ex_json ex_drv) (Some (ex_vol ''data'')) ([], []))) \<and>
   hp_ListVolumes ex_hio ex_json ex_drv
     (snd (snd (CreateVolume ex_volumes (hostpath_controller ex_hio ex_json ex_drv) (Some (ex_vol ''data'')) ([], [])))) = Inr []"
  by code_simp

end
