(* ===== verification/Session.thy ===== *)
theory Session
  imports Http Paths
begin

text \<open>
  The dashboard's sessions (\<open>internal/dashboard/session.go\<close>): the signed cookie, the login and
  logout handlers and the guard in front of the application. HMAC-SHA256 is a parameter, a
  function of key and message; the raw URL base64 encoding that carries its result is written
  out. The secret is drawn at start and is an argument, as are the embedded static files.
\<close>

section \<open>Base64, URL alphabet without padding\<close>

definition url_char :: "nat \<Rightarrow> char" where
  "url_char n = char_of (if n < 26 then n + 65 else if n < 52 then n + 71 else if n < 62 then n - 4
     else if n = 62 then 45 else 95)"

definition url_val :: "char \<Rightarrow> nat option" where
  "url_val c = (let n = of_char c in
     if 65 \<le> n \<and> n \<le> 90 then Some (n - 65) else if 97 \<le> n \<and> n \<le> 122 then Some (n - 71)
     else if 48 \<le> n \<and> n \<le> 57 then Some (n + 4) else if n = 45 then Some 62 else if n = 95 then Some 63 else None)"

fun url_encode :: "nat list \<Rightarrow> string" where
  "url_encode [] = []"
| "url_encode [a] = [url_char (a div 4), url_char (a mod 4 * 16)]"
| "url_encode [a, b] = [url_char (a div 4), url_char (a mod 4 * 16 + b div 16), url_char (b mod 16 * 4)]"
| "url_encode (a # b # c # r) =
     url_char (a div 4) # url_char (a mod 4 * 16 + b div 16) # url_char (b mod 16 * 4 + c div 64) #
     url_char (c mod 64) # url_encode r"

fun url_decode :: "string \<Rightarrow> nat list option" where
  "url_decode [] = Some []"
| "url_decode [w] = None"
| "url_decode [w, x] =
     (case (url_val w, url_val x) of (Some v, Some u) \<Rightarrow> Some [v * 4 + u div 16] | _ \<Rightarrow> None)"
| "url_decode [w, x, y] =
     (case (url_val w, url_val x, url_val y) of
        (Some v, Some u, Some t) \<Rightarrow> Some [v * 4 + u div 16, u mod 16 * 16 + t div 4] | _ \<Rightarrow> None)"
| "url_decode (w # x # y # z # r) =
     (case (url_val w, url_val x, url_val y, url_val z, url_decode r) of
        (Some v, Some u, Some t, Some q, Some rest) \<Rightarrow>
          Some ((v * 4 + u div 16) # (u mod 16 * 16 + t div 4) # (t mod 4 * 64 + q) # rest)
      | _ \<Rightarrow> None)"

definition RawURL_EncodeToString :: "bytes \<Rightarrow> string" where
  "RawURL_EncodeToString b = url_encode (map of_char b)"

text \<open>Decoding skips line breaks and does not check the unused bits.\<close>

definition RawURL_DecodeString :: "string \<Rightarrow> bytes res" where
  "RawURL_DecodeString s =
     (case url_decode (filter (\<lambda>c. c \<noteq> CHR 0x0A \<and> c \<noteq> CHR 0x0D) s) of
        None \<Rightarrow> Inl (ErrText ''illegal base64 data'')
      | Some ns \<Rightarrow> Inr (map char_of ns))"

section \<open>Tokens\<close>

definition sessionCookieName :: string where "sessionCookieName = ''nimbus_session''"
definition sessionTTL :: int where "sessionTTL = 86400"

record sessionAuth =
  sa_username :: string
  sa_password :: string
  sa_secret :: bytes

text \<open>\<open>newSessionAuth\<close>: a fresh secret of 32 bytes from the system's source, or a panic when that fails.\<close>

definition newSessionAuth :: "string \<Rightarrow> string \<Rightarrow> bytes res \<Rightarrow> sessionAuth res" where
  "newSessionAuth username password rand_Read =
     (case rand_Read of
        Inl err \<Rightarrow> Inl (ErrPanic ''dashboard: failed to generate session secret'')
      | Inr secret \<Rightarrow> Inr \<lparr>sa_username = username, sa_password = password, sa_secret = secret\<rparr>)"

text \<open>\<open>strconv.FormatInt(n, 10)\<close>.\<close>

definition FormatInt :: "int \<Rightarrow> string" where
  "FormatInt n = (if n < 0 then ''-'' @ Itoa (nat (- n)) else Itoa (nat n))"

definition issueToken :: "(bytes \<Rightarrow> string \<Rightarrow> bytes) \<Rightarrow> int \<Rightarrow> sessionAuth \<Rightarrow> string" where
  "issueToken hmac now s =
     (let expiry = FormatInt (now + sessionTTL)
      in expiry @ ''.'' @ RawURL_EncodeToString (hmac (sa_secret s) expiry))"

definition validToken :: "(bytes \<Rightarrow> string \<Rightarrow> bytes) \<Rightarrow> int \<Rightarrow> sessionAuth \<Rightarrow> string \<Rightarrow> bool" where
  "validToken hmac now s token =
     (case Cut token (CHR ''.'') of (expiryStr, sigB64, ok) \<Rightarrow>
        if \<not> ok then False
        else case RawURL_DecodeString sigB64 of
          Inl err \<Rightarrow> False
        | Inr sig \<Rightarrow>
            if sig \<noteq> hmac (sa_secret s) expiryStr then False
            else case Atoi expiryStr of None \<Rightarrow> False | Some expiry \<Rightarrow> now < expiry)"

section \<open>Handlers\<close>

definition isAuthenticated :: "(bytes \<Rightarrow> string \<Rightarrow> bytes) \<Rightarrow> int \<Rightarrow> sessionAuth \<Rightarrow> HttpRequest \<Rightarrow> bool" where
  "isAuthenticated hmac now s r =
     (case map_of (rq_Cookies r) sessionCookieName of None \<Rightarrow> False | Some v \<Rightarrow> validToken hmac now s v)"

definition requireSession :: "(bytes \<Rightarrow> string \<Rightarrow> bytes) \<Rightarrow> int \<Rightarrow> sessionAuth \<Rightarrow>
    (HttpRequest \<Rightarrow> 's \<Rightarrow> 'm HttpResponse \<times> 's) \<Rightarrow> HttpRequest \<Rightarrow> 's \<Rightarrow> 'm HttpResponse \<times> 's" where
  "requireSession hmac now s next r st =
     (if isAuthenticated hmac now s r then next r st
      else if HasPrefix (rq_Path r) ''/api/'' then (http_Error ''unauthorized'' StatusUnauthorized, st)
      else (http_Redirect ''/login'' StatusFound, st))"

text \<open>The decoded body of a login: user name and password.\<close>

definition handleLogin :: "(bytes \<Rightarrow> string \<Rightarrow> bytes) \<Rightarrow> (bytes \<Rightarrow> (string \<times> string) res) \<Rightarrow> int \<Rightarrow> sessionAuth \<Rightarrow>
    HttpRequest \<Rightarrow> 'm HttpResponse" where
  "handleLogin hmac decode now s r =
     (if rq_Method r \<noteq> ''POST'' then http_Error ''method not allowed'' StatusMethodNotAllowed
      else case (case rq_Body r of Inl err \<Rightarrow> Inl err | Inr b \<Rightarrow> decode b) of
        Inl err \<Rightarrow> http_Error ''invalid request body'' StatusBadRequest
      | Inr (username, password) \<Rightarrow>
          if username \<noteq> sa_username s \<or> password \<noteq> sa_password s
          then http_Error ''invalid credentials'' StatusUnauthorized
          else no_content\<lparr>hr_Cookie := Some \<lparr>ck_Name = sessionCookieName, ck_Value = issueToken hmac now s,
                 ck_Path = ''/'', ck_HttpOnly = True, ck_SameSite = ''Lax'', ck_MaxAge = sessionTTL\<rparr>\<rparr>)"

definition handleLogout :: "HttpRequest \<Rightarrow> 'm HttpResponse" where
  "handleLogout r =
     (if rq_Method r \<noteq> ''POST'' then http_Error ''method not allowed'' StatusMethodNotAllowed
      else no_content\<lparr>hr_Cookie := Some \<lparr>ck_Name = sessionCookieName, ck_Value = [], ck_Path = ''/'',
             ck_HttpOnly = True, ck_SameSite = ''Lax'', ck_MaxAge = - 1\<rparr>\<rparr>)"

definition handleLoginPage :: "(bytes \<Rightarrow> string \<Rightarrow> bytes) \<Rightarrow> (string \<Rightarrow> bytes res) \<Rightarrow> int \<Rightarrow> sessionAuth \<Rightarrow> HttpRequest \<Rightarrow> 'm HttpResponse" where
  "handleLoginPage hmac static now s r =
     (if isAuthenticated hmac now s r then http_Redirect ''/'' StatusFound
      else case static ''login.html'' of
        Inl err \<Rightarrow> http_Error ''login page not found'' StatusInternalServerError
      | Inr b \<Rightarrow> reply StatusOK ''text/html; charset=utf-8'' (Bytes b))"

section \<open>Encoding\<close>

lemma url_val_char [simp]: "n < 64 \<Longrightarrow> url_val (url_char n) = Some n"
  by (simp add: url_val_def url_char_def Let_def) presburger

lemma of_char_url_char:
  "n < 64 \<Longrightarrow> of_char (url_char n) \<in> {65..90} \<union> {97..122} \<union> {48..57} \<union> {45, 95 :: nat}"
  by (simp add: url_char_def) presburger

lemma url_char_plain [simp]:
  assumes "n < 64"
  shows "url_char n \<noteq> CHR 0x0A" "url_char n \<noteq> CHR 0x0D"
  using of_char_url_char[OF assms] by auto

lemma url_sextets:
  assumes "b < (256 :: nat)"
  shows "a mod 4 * 16 + b div 16 < 64" "(a mod 4 * 16 + b div 16) div 16 = a mod 4"
    "(a mod 4 * 16 + b div 16) mod 16 = b div 16"
    "a mod 16 * 4 + b div 64 < 64" "(a mod 16 * 4 + b div 64) div 4 = a mod 16"
    "(a mod 16 * 4 + b div 64) mod 4 = b div 64"
proof -
  have lt: "b div 16 < 16" "b div 64 < 4" using assms by simp_all
  have "a mod 4 < 4" "a mod 16 < 16" by simp_all
  with lt show "a mod 4 * 16 + b div 16 < 64" "a mod 16 * 4 + b div 64 < 64" by linarith+
  from lt show "(a mod 4 * 16 + b div 16) div 16 = a mod 4" "(a mod 4 * 16 + b div 16) mod 16 = b div 16"
    "(a mod 16 * 4 + b div 64) div 4 = a mod 16" "(a mod 16 * 4 + b div 64) mod 4 = b div 64"
    by simp_all
qed

lemma url_encode_plain: "list_all (\<lambda>a. a < 256) ns \<Longrightarrow>
  filter (\<lambda>c. c \<noteq> CHR 0x0A \<and> c \<noteq> CHR 0x0D) (url_encode ns) = url_encode ns"
  by (induction ns rule: url_encode.induct) (simp_all add: less_mult_imp_div_less url_sextets)

lemma url_roundtrip: "list_all (\<lambda>a. a < 256) ns \<Longrightarrow> url_decode (url_encode ns) = Some ns"
  by (induction ns rule: url_encode.induct) (simp_all add: less_mult_imp_div_less url_sextets)

lemma RawURL_roundtrip: "RawURL_DecodeString (RawURL_EncodeToString b) = Inr b"
proof -
  have "list_all (\<lambda>a. a < 256) (map of_char b :: nat list)" by (simp add: list_all_iff)
  then show ?thesis
    by (simp add: RawURL_DecodeString_def RawURL_EncodeToString_def url_encode_plain url_roundtrip comp_def)
qed

section \<open>Sessions\<close>

lemma Cut_first:
  assumes "c \<notin> set a" shows "Cut (a @ c # b) c = (a, b, True)"
proof -
  have ne: "\<And>x. x \<in> set a \<Longrightarrow> x \<noteq> c" using assms by blast
  have "takeWhile (\<lambda>x. x \<noteq> c) (a @ c # b) = a" "dropWhile (\<lambda>x. x \<noteq> c) (a @ c # b) = c # b"
    using takeWhile_append2[of a "\<lambda>x. x \<noteq> c" "c # b"] dropWhile_append2[of a "\<lambda>x. x \<noteq> c" "c # b"] ne by simp_all
  then show ?thesis by (simp add: Cut_def)
qed

lemma FormatInt_no_dot: "0 \<le> n \<Longrightarrow> CHR ''.'' \<notin> set (FormatInt n)"
  using Itoa_digits[of "nat n"] by (auto simp: FormatInt_def list_all_iff is_digit_def)

text \<open>What a token has to be to be valid: an expiry in the future, signed with the secret.\<close>

lemma validToken_iff:
  "validToken hmac now s token \<longleftrightarrow>
    (\<exists>e sig expiry. token = e @ CHR ''.'' # sig \<and> CHR ''.'' \<notin> set e \<and>
       RawURL_DecodeString sig = Inr (hmac (sa_secret s) e) \<and> Atoi e = Some expiry \<and> now < expiry)"
proof (cases "CHR ''.'' \<in> set token")
  case True
  then obtain e sig where t: "token = e @ CHR ''.'' # sig" "CHR ''.'' \<notin> set e" by (meson split_list_first)
  have uniq: "e' = e \<and> sig' = sig" if "token = e' @ CHR ''.'' # sig'" "CHR ''.'' \<notin> set e'" for e' sig'
  proof -
    have "(e', sig', True) = (e, sig, True)"
      using Cut_first[OF t(2), of sig] Cut_first[OF that(2), of sig'] unfolding t(1)[symmetric] that(1)[symmetric] by (rule trans[OF sym, rotated])
    then show ?thesis by blast
  qed
  have "validToken hmac now s token \<longleftrightarrow> RawURL_DecodeString sig = Inr (hmac (sa_secret s) e) \<and>
      (\<exists>expiry. Atoi e = Some expiry \<and> now < expiry)"
    by (simp add: validToken_def t(1) Cut_first[OF t(2)] split: sum.split option.split) blast
  then show ?thesis using uniq t by metis
next
  case False
  then show ?thesis by (auto simp: validToken_def Cut_def)
qed

text \<open>
  The guard lets exactly the signed, unexpired sessions through. A request reaches the
  application if and only if its session cookie is an expiry time in the future followed by
  the MAC of exactly that text under this process's secret; every other request is answered
  with 401 below \<open>/api/\<close> and with a redirect to the login page elsewhere, and changes nothing.
\<close>

theorem session_guard_exact:
  "requireSession hmac now s next r st =
    (if \<exists>e sig expiry. map_of (rq_Cookies r) sessionCookieName = Some (e @ CHR ''.'' # sig) \<and> CHR ''.'' \<notin> set e \<and>
          RawURL_DecodeString sig = Inr (hmac (sa_secret s) e) \<and> Atoi e = Some expiry \<and> now < expiry
     then next r st
     else (if HasPrefix (rq_Path r) ''/api/'' then http_Error ''unauthorized'' StatusUnauthorized
           else http_Redirect ''/login'' StatusFound, st))"
proof -
  have "isAuthenticated hmac now s r \<longleftrightarrow> (\<exists>e sig expiry. map_of (rq_Cookies r) sessionCookieName = Some (e @ CHR ''.'' # sig) \<and>
      CHR ''.'' \<notin> set e \<and> RawURL_DecodeString sig = Inr (hmac (sa_secret s) e) \<and> Atoi e = Some expiry \<and> now < expiry)"
    by (cases "map_of (rq_Cookies r) sessionCookieName") (simp_all add: isAuthenticated_def validToken_iff)
  then show ?thesis by (cases "isAuthenticated hmac now s r") (simp_all only: requireSession_def if_True if_False split: if_split, simp)
qed

text \<open>
  A login gives a session that lasts a day. The cookie set by a login with the right name
  and password is accepted at every later time before its 24 hours are over and at none after;
  a login with anything else sets no cookie.
\<close>

theorem login_session_lasts_a_day:
  assumes "rq_Method r = ''POST''" "rq_Body r = Inr body" "decode body = Inr (user, pass)"
    and "0 \<le> now" "now + sessionTTL \<le> MaxInt64"
  shows "if user = sa_username s \<and> pass = sa_password s
    then \<exists>c. hr_Cookie (handleLogin hmac decode now s r) = Some c \<and> ck_Name c = sessionCookieName \<and>
      (\<forall>later. validToken hmac later s (ck_Value c) \<longleftrightarrow> later < now + sessionTTL)
    else hr_Cookie (handleLogin hmac decode now s r) = None \<and> hr_Status (handleLogin hmac decode now s r) = StatusUnauthorized"
proof (cases "user = sa_username s \<and> pass = sa_password s")
  case True
  let ?e = "FormatInt (now + sessionTTL)"
  have pos: "0 \<le> now + sessionTTL" using assms(4) by (simp add: sessionTTL_def)
  then have e: "?e = Itoa (nat (now + sessionTTL))" by (simp add: FormatInt_def)
  have at: "Atoi ?e = Some (now + sessionTTL)"
    unfolding e using Atoi_Itoa[of "nat (now + sessionTTL)"] pos assms(5) by simp
  have nd: "CHR ''.'' \<notin> set ?e" using FormatInt_no_dot[OF pos] .
  have "validToken hmac later s (issueToken hmac now s) \<longleftrightarrow> later < now + sessionTTL" for later
    unfolding validToken_def issueToken_def Let_def
    using Cut_first[OF nd, of "RawURL_EncodeToString (hmac (sa_secret s) ?e)"]
    by (simp add: RawURL_roundtrip at)
  with True assms(1-3) show ?thesis by (simp add: handleLogin_def)
next
  case False
  with assms(1-3) show ?thesis by (auto simp: handleLogin_def http_defs)
qed

definition ex_session :: sessionAuth where
  "ex_session = \<lparr>sa_username = ''admin'', sa_password = ''pw'', sa_secret = ''k''\<rparr>"

definition ex_login :: HttpRequest where
  "ex_login = \<lparr>rq_Method = ''POST'', rq_Path = ''/api/login'', rq_Query = [], rq_RawQuery = [], rq_Cookies = [],
     rq_Body = Inr ''x''\<rparr>"

theorem login_session_lasts_a_day_witness:
  "\<exists>c. hr_Cookie (handleLogin (\<lambda>k m. k @ m) (\<lambda>b. Inr (''admin'', ''pw'')) 1000 ex_session ex_login) = Some c \<and>
     ck_Name c = sessionCookieName \<and> (\<forall>later. validToken (\<lambda>k m. k @ m) later ex_session (ck_Value c) \<longleftrightarrow> later < 1000 + sessionTTL)"
  using login_session_lasts_a_day[of ex_login "''x''" "\<lambda>b. Inr (''admin'', ''pw'')" "''admin''" "''pw''" 1000 ex_session "\<lambda>k m. k @ m"]
  by (simp add: ex_login_def ex_session_def sessionTTL_def MaxInt64_def)

end
