(* ===== verification/GitOps.thy ===== *)
theory GitOps
  imports Disk Http ApiServices
begin

text \<open>
  The GitOps reconciler (\<open>internal/gitops/reconciler.go\<close>): it clones or pulls a repository,
  reads the JSON files of one directory of the working copy, marks each deployment it finds
  as managed and writes it to the registry. The go-git library and the JSON decoding of
  protobuf messages are parameters; the working copy is a directory tree, the deployments
  are in a store, and the status is what the dashboard reads.
\<close>

definition ManagedByLabel :: string where "ManagedByLabel = ''nimbuscore.io/managed-by''"
definition ManagedByValue :: string where "ManagedByValue = ''gitops''"

record gitops_Config =
  gc_RepoURL :: string
  gc_Branch :: string
  gc_Path :: string
  gc_WorkDir :: string

record gitops_Status =
  gs_RepoURL :: string
  gs_Branch :: string
  gs_Path :: string
  gs_LastSyncUnix :: int64
  gs_LastCommit :: string
  gs_LastError :: string

record ('s, 'b) Reconciler =
  gr_cfg :: gitops_Config
  gr_deployments :: "('s, 'b, Deployment) Registry"
  gr_resync :: int

text \<open>What a synchronisation works on: the status, the working copy and the store.\<close>

record 's gitops_world =
  gw_status :: gitops_Status
  gw_disk :: disk
  gw_store :: 's

text \<open>go-git: a handle is opened on the tree; cloning and pulling change it.\<close>

record ('g, 'w) git_env =
  git_PlainClone :: "string \<Rightarrow> string \<Rightarrow> string \<Rightarrow> (disk, unit) action"
  git_PlainOpen :: "string \<Rightarrow> disk \<Rightarrow> 'g res"
  git_Worktree :: "'g \<Rightarrow> disk \<Rightarrow> 'w res"
  git_Pull :: "'w \<Rightarrow> string \<Rightarrow> (disk, unit) action"
  git_Head :: "'g \<Rightarrow> disk \<Rightarrow> string res"

definition NoErrAlreadyUpToDate :: error where
  "NoErrAlreadyUpToDate = ErrText ''already up-to-date''"

definition NewBranchReferenceName :: "string \<Rightarrow> string" where
  "NewBranchReferenceName b = ''refs/heads/'' @ b"

section \<open>Operations\<close>

definition zeroStatus :: gitops_Status where
  "zeroStatus = \<lparr>gs_RepoURL = [], gs_Branch = [], gs_Path = [], gs_LastSyncUnix = 0, gs_LastCommit = [], gs_LastError = []\<rparr>"

definition NewReconciler :: "gitops_Config \<Rightarrow> ('s, 'b, Deployment) Registry \<Rightarrow> int \<Rightarrow> ('s, 'b) Reconciler" where
  "NewReconciler cfg deployments resync =
     \<lparr>gr_cfg = (if gc_Branch cfg = [] then cfg\<lparr>gc_Branch := ''main''\<rparr> else cfg), gr_deployments = deployments,
      gr_resync = (if resync \<le> 0 then 30 * Second else resync)\<rparr>"

definition gitops_Name :: string where "gitops_Name = ''gitops-reconciler''"

text \<open>The second half of \<open>fetchRepo\<close>, on a working copy that is already there.\<close>

definition pullRepo :: "('g, 'w) git_env \<Rightarrow> gitops_Config \<Rightarrow> string \<Rightarrow> (disk, unit) action" where
  "pullRepo git cfg ref d =
     (case git_PlainOpen git (gc_WorkDir cfg) d of
        Inl err \<Rightarrow> (Inl (ErrWrap ''open working copy'' err), d)
      | Inr repo \<Rightarrow> (case git_Worktree git repo d of
            Inl err \<Rightarrow> (Inl (ErrWrap ''open worktree'' err), d)
          | Inr wt \<Rightarrow> (case git_Pull git wt ref d of
                (Inr _, d') \<Rightarrow> (Inr (), d')
              | (Inl err, d') \<Rightarrow>
                  (if errors_Is err NoErrAlreadyUpToDate then Inr () else Inl (ErrWrap ''pull'' err), d'))))"

definition fetchRepo :: "('g, 'w) git_env \<Rightarrow> io_env \<Rightarrow> gitops_Config \<Rightarrow> (disk, unit) action" where
  "fetchRepo git io cfg d =
     (let ref = NewBranchReferenceName (gc_Branch cfg)
      in case os_Stat io (Join [gc_WorkDir cfg, ''.git'']) d of
           Inl err \<Rightarrow> if os_IsNotExist err then git_PlainClone git (gc_WorkDir cfg) (gc_RepoURL cfg) ref d
                      else pullRepo git cfg ref d
         | Inr _ \<Rightarrow> pullRepo git cfg ref d)"

definition headCommit :: "('g, 'w) git_env \<Rightarrow> gitops_Config \<Rightarrow> disk \<Rightarrow> string res" where
  "headCommit git cfg d =
     (case git_PlainOpen git (gc_WorkDir cfg) d of Inl err \<Rightarrow> Inl err | Inr repo \<Rightarrow> git_Head git repo d)"

definition recordResult :: "gitops_Config \<Rightarrow> int64 \<Rightarrow> string \<Rightarrow> error option \<Rightarrow> 's gitops_world \<Rightarrow> 's gitops_world" where
  "recordResult cfg now commit syncErr w =
     w\<lparr>gw_status := \<lparr>gs_RepoURL = gc_RepoURL cfg, gs_Branch = gc_Branch cfg, gs_Path = gc_Path cfg, gs_LastSyncUnix = now,
        gs_LastCommit = (if commit \<noteq> [] then commit else gs_LastCommit (gw_status w)),
        gs_LastError = (case syncErr of Some e \<Rightarrow> error_text e | None \<Rightarrow> [])\<rparr>\<rparr>"

definition managed :: "Deployment \<Rightarrow> Deployment" where
  "managed d = d\<lparr>dep_metadata := map_option (\<lambda>meta. meta\<lparr>meta_labels :=
     AList.update ManagedByLabel ManagedByValue (meta_labels meta)\<rparr>) (dep_metadata d)\<rparr>"

text \<open>The deployment an entry of the manifest directory stands for, if the loop does not skip it.\<close>

definition manifest_of :: "io_env \<Rightarrow> (bytes \<Rightarrow> Deployment res) \<Rightarrow> string \<Rightarrow> disk \<Rightarrow> string \<times> fnode \<Rightarrow> Deployment option" where
  "manifest_of io Unmarshal manifestDir d e =
     (if snd e = NDir \<or> \<not> HasSuffix (fst e) ''.json'' then None
      else case os_ReadFile io (Join [manifestDir, fst e]) d of
        Inl err \<Rightarrow> None
      | Inr b \<Rightarrow> (case Unmarshal b of
            Inl err \<Rightarrow> None
          | Inr dep \<Rightarrow> if dep_name dep = [] then None else Some (managed dep)))"

definition apply_manifest :: "('s, 'b, Deployment) Registry \<Rightarrow> Deployment option \<Rightarrow> ('s, unit) action" where
  "apply_manifest deployments m =
     (case m of None \<Rightarrow> ret () | Some dep \<Rightarrow> logA (reg_Put deployments (dep_namespace dep) (dep_name dep) dep))"

definition Sync :: "('g, 'w) git_env \<Rightarrow> io_env \<Rightarrow> (bytes \<Rightarrow> Deployment res) \<Rightarrow> int64 \<Rightarrow> ('s, 'b) Reconciler \<Rightarrow>
    ('s gitops_world, unit) action" where
  "Sync git io Unmarshal now r w =
     (let cfg = gr_cfg r
      in case fetchRepo git io cfg (gw_disk w) of
           (Inl err, d) \<Rightarrow> (Inl (ErrWrap ''gitops: fetch'' err), recordResult cfg now [] (Some err) (w\<lparr>gw_disk := d\<rparr>))
         | (Inr _, d) \<Rightarrow>
             (let w1 = w\<lparr>gw_disk := d\<rparr>;
                  commit = (case headCommit git cfg d of Inl err \<Rightarrow> [] | Inr c \<Rightarrow> c);
                  manifestDir = Join [gc_WorkDir cfg, gc_Path cfg]
              in case os_ReadDir io manifestDir d of
                   Inl err \<Rightarrow> (Inl (ErrWrap ''gitops: read manifest dir'' err), recordResult cfg now commit (Some err) w1)
                 | Inr entries \<Rightarrow>
                     (case forA (\<lambda>e. apply_manifest (gr_deployments r) (manifest_of io Unmarshal manifestDir d e)) entries (gw_store w) of
                        (Inl err, s) \<Rightarrow> (Inl err, w1\<lparr>gw_store := s\<rparr>)
                      | (Inr _, s) \<Rightarrow> (Inr (), recordResult cfg now commit None (w1\<lparr>gw_store := s\<rparr>)))))"

text \<open>One pass of \<open>Reconcile\<close>: the error is logged, the loop goes on.\<close>

definition gitops_tick :: "('g, 'w) git_env \<Rightarrow> io_env \<Rightarrow> (bytes \<Rightarrow> Deployment res) \<Rightarrow> int64 \<Rightarrow> ('s, 'b) Reconciler \<Rightarrow>
    ('s gitops_world, unit) action" where
  "gitops_tick git io Unmarshal now r = logA (Sync git io Unmarshal now r)"

section \<open>What a synchronisation writes\<close>

text \<open>
  The deployments of the manifest directory, in the order of its entries: the files with the
  suffix \<open>.json\<close>, those of them that can be read, what decodes, what has a name, with the label.
\<close>

definition oks :: "'a res list \<Rightarrow> 'a list" where
  "oks rs = [x. Inr x \<leftarrow> rs]"

definition manifest_files :: "(string \<times> fnode) list \<Rightarrow> string list" where
  "manifest_files entries = [name. (name, NFile b) \<leftarrow> entries, HasSuffix name ''.json'']"

definition manifests :: "io_env \<Rightarrow> (bytes \<Rightarrow> Deployment res) \<Rightarrow> string \<Rightarrow> disk \<Rightarrow> (string \<times> fnode) list \<Rightarrow> Deployment list" where
  "manifests io Unmarshal dir d entries =
     [managed dep. dep \<leftarrow> oks (map Unmarshal (oks (map (\<lambda>name. os_ReadFile io (Join [dir, name]) d) (manifest_files entries)))),
        dep_name dep \<noteq> []]"

text \<open>Writing them one after the other; the list says which writes reported success.\<close>

fun put_each :: "('s, 'b, Deployment) Registry \<Rightarrow> Deployment list \<Rightarrow> 's \<Rightarrow> bool list \<times> 's" where
  "put_each R [] s = ([], s)"
| "put_each R (x # xs) s =
     (case reg_Put R (dep_namespace x) (dep_name x) x s of
        (res, s1) \<Rightarrow> (case put_each R xs s1 of (bs, s2) \<Rightarrow> ((\<not> isl res) # bs, s2)))"

abbreviation manifest_key :: "Deployment \<Rightarrow> string" where
  "manifest_key d \<equiv> key_of kDeployments (dep_namespace d) (dep_name d)"

lemma managed_fields [simp]:
  "dep_name (managed d) = dep_name d" "dep_namespace (managed d) = dep_namespace d" "dep_spec (managed d) = dep_spec d"
  "dep_status (managed d) = dep_status d"
  by (cases "dep_metadata d"; simp add: managed_def)+

lemma managed_label:
  "dep_name d \<noteq> [] \<Longrightarrow> lget (ObjectMeta_GetLabels (dep_metadata (managed d))) ManagedByLabel = ManagedByValue"
  by (cases "dep_metadata d") (simp_all add: managed_def)

lemma manifestsD:
  "x \<in> set (manifests io U dir d es) \<Longrightarrow>
   dep_name x \<noteq> [] \<and> lget (ObjectMeta_GetLabels (dep_metadata x)) ManagedByLabel = ManagedByValue"
  using managed_label by (auto simp: manifests_def)

lemma manifests_Cons:
  "manifests io U dir d (e # es) =
     (case manifest_of io U dir d e of None \<Rightarrow> [] | Some x \<Rightarrow> [x]) @ manifests io U dir d es"
  by (cases e; cases "snd e")
    (auto simp: manifests_def manifest_files_def manifest_of_def oks_def split: sum.splits)

text \<open>The loop writes the manifests one after the other; errors are logged.\<close>

lemma apply_loop_puts:
  assumes "\<forall>x s e s1. reg_Put R (dep_namespace x) (dep_name x) x s = (Inl e, s1) \<longrightarrow> \<not> is_panic e"
  shows "forA (\<lambda>e. apply_manifest R (manifest_of io U dir d e)) es s = (Inr (), snd (put_each R (manifests io U dir d es) s))"
proof (induction es arbitrary: s)
  case (Cons e es)
  show ?case
  proof (cases "manifest_of io U dir d e")
    case None
    with Cons show ?thesis by (simp add: manifests_Cons apply_manifest_def)
  next
    case (Some x)
    obtain res s1 where put: "reg_Put R (dep_namespace x) (dep_name x) x s = (res, s1)" by fastforce
    with assms have "logA (reg_Put R (dep_namespace x) (dep_name x) x) s = (Inr (), s1)"
      by (cases res) (auto simp: logA_def)
    with Cons[of s1] Some put show ?thesis
      by (simp add: manifests_Cons apply_manifest_def bindA_def case_prod_beta)
  qed
qed (simp add: ret_def manifests_def manifest_files_def oks_def)

lemma put_each_writes:
  assumes "registry_laws S good repr CD"
  shows "good s \<Longrightarrow> put_each (reg_New S kDeployments CD) xs s = (bs, s') \<Longrightarrow>
    good s' \<and> length bs = length xs \<and> (\<exists>ys. subseq ys xs \<and> subseq (map fst (filter snd (zip xs bs))) ys \<and>
      obj_at repr CD kDeployments s' = obj_at repr CD kDeployments s ++ map_of (rev (map (\<lambda>x. (manifest_key x, x)) ys))) \<and>
    (\<forall>k. k \<notin> manifest_key ` set xs \<longrightarrow> repr s' k = repr s k)"
proof (induction xs arbitrary: s bs)
  case (Cons x xs)
  obtain res s1 where put: "reg_Put (reg_New S kDeployments CD) (dep_namespace x) (dep_name x) x s = (res, s1)" by fastforce
  then obtain bs1 where r: "put_each (reg_New S kDeployments CD) xs s1 = (bs1, s')" "bs = (\<not> isl res) # bs1"
    using Cons.prems(2) by (auto split: prod.splits)
  note any = registry_laws.reg_Put_any[OF assms Cons.prems(1), of kDeployments "dep_namespace x" "dep_name x" x, unfolded put snd_conv]
  from Cons.IH[OF any(1) r(1)] obtain ys where ys: "good s'" "length bs1 = length xs" "subseq ys xs" "subseq (map fst (filter snd (zip xs bs1))) ys"
    "obj_at repr CD kDeployments s' = obj_at repr CD kDeployments s1 ++ map_of (rev (map (\<lambda>x. (manifest_key x, x)) ys))"
    "\<forall>k. k \<notin> manifest_key ` set xs \<longrightarrow> repr s' k = repr s1 k" by blast
  have frame: "\<forall>k. k \<notin> manifest_key ` set (x # xs) \<longrightarrow> repr s' k = repr s k"
    using ys(6) registry_laws.reg_Put_frame[OF assms Cons.prems(1), of _ kDeployments "dep_namespace x" "dep_name x" x] by (simp add: put)
  have add: "m(k \<mapsto> x) ++ map_of (rev zs) = m ++ map_of (rev ((k, x) # zs))" for m :: "string \<rightharpoonup> Deployment" and k zs
    by (simp add: map_add_def fun_eq_iff split: option.split)
  have "res = Inr () \<Longrightarrow> obj_at repr CD kDeployments s1 = (obj_at repr CD kDeployments s)(manifest_key x \<mapsto> x)"
    using registry_laws.reg_Put_ok(2)[OF assms Cons.prems(1)] put by blast
  then consider "isl res" "obj_at repr CD kDeployments s1 = obj_at repr CD kDeployments s"
    | "obj_at repr CD kDeployments s1 = (obj_at repr CD kDeployments s)(manifest_key x \<mapsto> x)"
    using any(2) by (cases res) auto
  then have "\<exists>zs. subseq zs (x # xs) \<and> subseq (map fst (filter snd (zip (x # xs) bs))) zs \<and>
      obj_at repr CD kDeployments s' = obj_at repr CD kDeployments s ++ map_of (rev (map (\<lambda>x. (manifest_key x, x)) zs))"
  proof cases
    case 1
    with ys r(2) show ?thesis by (intro exI[of _ ys]) (simp add: list_emb_Cons)
  next
    case 2
    with ys r(2) show ?thesis by (intro exI[of _ "x # ys"]) (auto simp: add simp del: rev.simps(2) intro: list_emb_Cons)
  qed
  with ys(1,2) frame r(2) show ?case by simp
qed (auto intro!: exI[of _ "[]"])

lemma filter_all_ok: "length bs = length xs \<Longrightarrow> list_all (\<lambda>b. b) bs \<Longrightarrow> map fst (filter snd (zip xs bs)) = xs"
  by (induction bs xs rule: list_induct2) auto

text \<open>
  C35: a synchronisation that has fetched the repository and can read the manifest directory writes
  the directory's manifests, one after the other in the order of the entries, and nothing else:
  the deployments in files with the suffix \<open>.json\<close> that can be read, decode and have a name,
  each with the managed-by label. A write that fails does not stop it, and it reports success and
  records no error either way. Afterwards the deployments are the previous ones overridden by
  manifests, among them all whose write succeeded (a failed write may or may not have taken effect;
  a later entry wins over an earlier one with the same name); if every write succeeded, all of
  them. A deployment whose manifest is gone stays, and no key without a manifest changes. Writes of
  the store return errors and do not panic, and the checkout has no symbolic links.
\<close>

theorem sync_applies_manifests:
  assumes "registry_laws S good repr CD" "good (gw_store w)" "gr_deployments r = reg_New S kDeployments CD"
    and "fetchRepo git io (gr_cfg r) (gw_disk w) = (Inr (), d)"
    and "os_ReadDir io (Join [gc_WorkDir (gr_cfg r), gc_Path (gr_cfg r)]) d = Inr entries"
    and "ms = manifests io U (Join [gc_WorkDir (gr_cfg r), gc_Path (gr_cfg r)]) d entries"
    and "put_each (gr_deployments r) ms (gw_store w) = (bs, s')"
    and "\<forall>x s e s1. reg_Put (gr_deployments r) (dep_namespace x) (dep_name x) x s = (Inl e, s1) \<longrightarrow> \<not> is_panic e"
  shows "\<exists>w' applied. Sync git io U now r w = (Inr (), w') \<and> gw_store w' = s' \<and> good s' \<and> length bs = length ms \<and>
    subseq applied ms \<and> subseq (map fst (filter snd (zip ms bs))) applied \<and> (list_all (\<lambda>b. b) bs \<longrightarrow> applied = ms) \<and>
    obj_at repr CD kDeployments s' =
      obj_at repr CD kDeployments (gw_store w) ++ map_of (rev (map (\<lambda>x. (manifest_key x, x)) applied)) \<and>
    (\<forall>x \<in> set ms. lget (ObjectMeta_GetLabels (dep_metadata x)) ManagedByLabel = ManagedByValue) \<and>
    (\<forall>k. k \<notin> manifest_key ` set ms \<longrightarrow> repr s' k = repr (gw_store w) k) \<and>
    gs_LastSyncUnix (gw_status w') = now \<and> gs_LastError (gw_status w') = [] \<and>
    gs_RepoURL (gw_status w') = gc_RepoURL (gr_cfg r)"
proof -
  have sync: "\<exists>w'. Sync git io U now r w = (Inr (), w') \<and> gw_store w' = s' \<and>
      gs_LastSyncUnix (gw_status w') = now \<and> gs_LastError (gw_status w') = [] \<and> gs_RepoURL (gw_status w') = gc_RepoURL (gr_cfg r)"
    using apply_loop_puts[OF assms(8), where io = io and U = U and dir = "Join [gc_WorkDir (gr_cfg r), gc_Path (gr_cfg r)]" and d = d and es = entries and s = "gw_store w"] assms(7)
    by (simp add: Sync_def Let_def assms(4,5) recordResult_def flip: assms(6))
  from put_each_writes[OF assms(1,2) assms(7)[unfolded assms(3)]]
  obtain ys where ys: "good s'" "length bs = length ms" "subseq ys ms" "subseq (map fst (filter snd (zip ms bs))) ys"
    "obj_at repr CD kDeployments s' = obj_at repr CD kDeployments (gw_store w) ++ map_of (rev (map (\<lambda>x. (manifest_key x, x)) ys))"
    "\<forall>k. k \<notin> manifest_key ` set ms \<longrightarrow> repr s' k = repr (gw_store w) k" by blast
  have "map fst (filter snd (zip ms bs)) = ms" if "list_all (\<lambda>b. b) bs"
    using filter_all_ok[OF ys(2) that] .
  with ys(3,4) have "list_all (\<lambda>b. b) bs \<longrightarrow> ys = ms" using subseq_order.antisym by metis
  moreover from assms(6) have "\<forall>x \<in> set ms. lget (ObjectMeta_GetLabels (dep_metadata x)) ManagedByLabel = ManagedByValue"
    using manifestsD by blast
  ultimately show ?thesis using sync ys by blast
qed

text \<open>A working copy with one manifest, and a store with a deployment that has none.\<close>

definition ex_git :: "(unit, unit) git_env" where
  "ex_git = \<lparr>git_PlainClone = \<lambda>dir url ref d. (Inl (ErrText ''no network''), d), git_PlainOpen = \<lambda>dir d. Inr (),
     git_Worktree = \<lambda>g d. Inr (), git_Pull = \<lambda>w ref d. (Inl NoErrAlreadyUpToDate, d), git_Head = \<lambda>g d. Inr ''c0ffee''\<rparr>"

definition ex_git_disk :: disk where
  "ex_git_disk = [((True, [''wd'']), NDir), ((True, [''wd'', ''.git'']), NDir), ((True, [''wd'', ''m'']), NDir),
     ((True, [''wd'', ''m'', ''web.json'']), NFile ''{}''), ((True, [''wd'', ''m'', ''notes.txt'']), NFile ''x'')]"

definition ex_sync :: "(wire memStore, wire) Reconciler" where
  "ex_sync = NewReconciler \<lparr>gc_RepoURL = ''git://r'', gc_Branch = [], gc_Path = ''m'', gc_WorkDir = ''/wd''\<rparr>
     (reg_New memStore kDeployments dep_codec) 0"

definition ex_sync_world :: "wire memStore gitops_world" where
  "ex_sync_world = \<lparr>gw_status = zeroStatus, gw_disk = ex_git_disk, gw_store = []\<rparr>"

definition no_faults :: io_env where
  "no_faults = calm"

theorem sync_applies_manifests_witness:
  "obj_at map_of dep_codec kDeployments
     (gw_store (snd (Sync ex_git no_faults (\<lambda>b. Inr (ex_dep 3)) 7 ex_sync ex_sync_world))) (manifest_key (ex_dep 3)) =
   Some (managed (ex_dep 3))"
proof -
  let ?U = "\<lambda>b :: bytes. Inr (ex_dep 3) :: Deployment res" and ?dir = "Join [''/wd'', ''m'']"
  let ?es = "[(''notes.txt'', NFile ''x''), (''web.json'', NFile ''{}'')]"
  have f: "fetchRepo ex_git no_faults (gr_cfg ex_sync) (gw_disk ex_sync_world) = (Inr (), ex_git_disk)" by code_simp
  have e: "os_ReadDir no_faults (Join [gc_WorkDir (gr_cfg ex_sync), gc_Path (gr_cfg ex_sync)]) ex_git_disk = Inr ?es" by code_simp
  have m: "[managed (ex_dep 3)] = manifests no_faults ?U (Join [gc_WorkDir (gr_cfg ex_sync), gc_Path (gr_cfg ex_sync)]) ex_git_disk ?es"
    by code_simp
  have put: "\<forall>x s e s1. reg_Put (gr_deployments ex_sync) (dep_namespace x) (dep_name x) x s = (Inl e, s1) \<longrightarrow> \<not> is_panic e"
    by (simp add: ex_sync_def NewReconciler_def registry_defs actions codec_defs memStore_defs)
  obtain s' where run: "put_each (gr_deployments ex_sync) [managed (ex_dep 3)] (gw_store ex_sync_world) = ([True], s')"
    by (auto simp: ex_sync_def NewReconciler_def registry_defs actions codec_defs memStore_defs)
  have "mem_ok (gw_store ex_sync_world)" "gr_deployments ex_sync = reg_New memStore kDeployments dep_codec"
    by (simp_all add: ex_sync_world_def ex_sync_def NewReconciler_def)
  from sync_applies_manifests[OF mem_cluster.deps.registry_laws_axioms this f e m run put, of 7] show ?thesis
    by auto
qed

text \<open>
  A synchronisation whose only write fails, as on a replica that is not the leader, records no
  error.
\<close>

definition ex_follower :: "(unit, wire) Store" where
  "ex_follower = \<lparr>st_Get = \<lambda>k s. Inl (ErrText ''not the leader''), st_Put = \<lambda>k b s. (Inl (ErrText ''not the leader''), s),
     st_Delete = \<lambda>k s. (Inl (ErrText ''not the leader''), s), st_List = \<lambda>p s. Inl (ErrText ''not the leader'')\<rparr>"

lemma failed_sync_records_success:
  "let r = NewReconciler (gr_cfg ex_sync) (reg_New ex_follower kDeployments dep_codec) 0;
       w = \<lparr>gw_status = zeroStatus, gw_disk = ex_git_disk, gw_store = ()\<rparr>
   in fst (Sync ex_git no_faults (\<lambda>b. Inr (ex_dep 3)) 7 r w) = Inr () \<and>
      gs_LastError (gw_status (snd (Sync ex_git no_faults (\<lambda>b. Inr (ex_dep 3)) 7 r w))) = [] \<and>
      gs_LastSyncUnix (gw_status (snd (Sync ex_git no_faults (\<lambda>b. Inr (ex_dep 3)) 7 r w))) = 7"
  by code_simp

text \<open>
  A deployment that comes from the repository is stored without admission. The manifest of
  a privileged, two-replica deployment is written as it is, while the deployment service
  refuses the same object.
\<close>

definition ex_privileged :: Deployment where
  "ex_privileged = (ex_dep 2)\<lparr>dep_spec := map_option (\<lambda>sp. sp\<lparr>ds_template := map_option (\<lambda>t. t\<lparr>ps_containers :=
     map (\<lambda>c. c\<lparr>ctr_security_context := Some \<lparr>sc_seccomp_profile = [], sc_add_capabilities = [], sc_privileged = True,
       sc_allow_privilege_escalation = True, sc_run_as_non_root = False\<rparr>\<rparr>) (ps_containers t)\<rparr>) (ds_template sp)\<rparr>) (dep_spec (ex_dep 2))\<rparr>"

theorem sync_skips_admission:
  "isl (fst (CreateDeployment (NewDeploymentService memStore dep_codec pod_codec ex_chain) (Some ex_privileged) ex_adm)) \<and>
   map_of (gw_store (snd (Sync ex_git no_faults (\<lambda>b. Inr ex_privileged) 7 ex_sync ex_sync_world))) (manifest_key ex_privileged) =
     Some (WDeployment (managed ex_privileged))"
  by code_simp

end
