(* ===== verification/Dashboard.thy ===== *)
theory Dashboard
  imports Session GitOps Services FinOps
begin

text \<open>
  The dashboard (\<open>internal/dashboard/dashboard.go\<close>): the routes, the session guard in front of
  them and every handler, in process on the services and registries of the API server. A
  request is handled on the store with the policy cache and on the state of the CSI driver.
  The JSON decoders, the marshalling of messages, the embedded files and the HTTP client that
  talks to a node's agent are parameters. \<open>http.ServeMux\<close> redirects a path that is not clean to
  its clean form; the requests here have a clean path. A handler that panics is stopped by
  \<open>net/http\<close>, which closes the connection without an answer: \<open>aborted\<close>.
\<close>

section \<open>Data\<close>

record createDeploymentRequest =
  cdr_Name :: string
  cdr_Namespace :: string
  cdr_Image :: string
  cdr_GitRepoURL :: string
  cdr_GitBranch :: string
  cdr_GitDockerfile :: string
  cdr_GitContext :: string
  cdr_Replicas :: int32
  cdr_Port :: int32
  cdr_Command :: "string list"
  cdr_Env :: "(string, string) gomap"
  cdr_CPUMillis :: int64
  cdr_MemoryBytes :: int64
  cdr_AddPersistentStorage :: bool
  cdr_MountPath :: string
  cdr_Links :: "string list"

record scaleDeploymentRequest =
  sdr_Namespace :: string
  sdr_Name :: string
  sdr_Replicas :: int32

record nodeMetrics =
  nm_Name :: string
  nm_Ready :: bool
  nm_CPUAllocatableMillis :: int64
  nm_CPURequestedMillis :: int64
  nm_MemoryAllocatableBytes :: int64
  nm_MemoryRequestedBytes :: int64
  nm_MemoryUsedBytes :: int64

record clusterMetrics =
  clm_Nodes :: "nodeMetrics list"
  clm_CPUAllocatableMillis :: int64
  clm_CPURequestedMillis :: int64
  clm_MemoryAllocatableBytes :: int64
  clm_MemoryRequestedBytes :: int64
  clm_MemoryUsedBytes :: int64

record cicdDeployment =
  cd_Namespace :: string
  cd_Name :: string
  cd_Image :: string
  cd_Replicas :: int32
  cd_ReadyReplicas :: int32
  cd_Source :: string

record cicdGitOps =
  cg_Configured :: bool
  cg_RepoURL :: string
  cg_Branch :: string
  cg_Path :: string
  cg_LastSyncUnix :: int64
  cg_LastCommit :: string
  cg_LastError :: string

record cicdResponse =
  cr_GitOps :: cicdGitOps
  cr_Deployments :: "cicdDeployment list"

text \<open>The values the handlers encode; the envelope of a creation has up to three keys.\<close>

datatype 'f dash_json = JNodes "Node list" | JPods "Pod list" | JNamespaces "Namespace list" | JNamespace Namespace
  | JDeployments "Deployment list" | JDeployment Deployment | JServices "Service list" | JService Service
  | JEnvelope Deployment "Service option" "string option" | JMetrics clusterMetrics | JReport "'f Report" | JCICD cicdResponse

type_synonym 'f response = "'f dash_json HttpResponse"

record ('s, 'b, 'p, 'v, 'f) dash_Config =
  dc_Nodes :: "('s, 'b, Node) Registry"
  dc_Pods :: "('s, 'b, Pod) Registry"
  dc_DeploymentSvc :: "('s, 'b, 'p) deploymentService"
  dc_Services :: "('s, 'b) serviceService"
  dc_Namespaces :: "('s, 'b, Namespace) Registry"
  dc_Volumes :: "('s, 'b, Volume) Registry"
  dc_CSI :: "'v CSIController"
  dc_GitOps :: "gitops_Status option"
  dc_CostModel :: "'f CostModel"
  dc_Username :: string
  dc_Password :: string
  dc_AgentLogPort :: int
  dc_AgentFilesPort :: int

record ('s, 'p, 'v) dash_world =
  dw_adm :: "('s, 'p) adm_state"
  dw_csi :: 'v

record 'f dash_env =
  de_float :: "'f float_ops"
  de_NewRequest :: "string \<Rightarrow> string \<Rightarrow> error option"
  de_Do :: "string \<Rightarrow> string \<Rightarrow> bytes res \<Rightarrow> 'f response res"
  de_protojson :: "'f dash_json \<Rightarrow> error option"
  de_decodeCreate :: "bytes \<Rightarrow> createDeploymentRequest res"
  de_decodeScale :: "bytes \<Rightarrow> scaleDeploymentRequest res"
  de_decodeName :: "bytes \<Rightarrow> string res"
  de_decodeLogin :: "bytes \<Rightarrow> (string \<times> string) res"
  de_FileServer :: "HttpRequest \<Rightarrow> 'f response"
  de_ReadFile :: "string \<Rightarrow> bytes res"
  de_hmac :: "bytes \<Rightarrow> string \<Rightarrow> bytes"
  de_now :: int

section \<open>Calls\<close>

abbreviation dw_store :: "('s, 'p, 'v) dash_world \<Rightarrow> 's" where
  "dw_store w \<equiv> as_store (dw_adm w)"

definition onDash :: "('s, 'a) action \<Rightarrow> (('s, 'p, 'v) dash_world, 'a) action" where
  "onDash a w = (case a (dw_store w) of (r, s) \<Rightarrow> (r, w\<lparr>dw_adm := (dw_adm w)\<lparr>as_store := s\<rparr>\<rparr>))"

definition onAdm :: "(('s, 'p) adm_state, 'a) action \<Rightarrow> (('s, 'p, 'v) dash_world, 'a) action" where
  "onAdm a w = (case a (dw_adm w) of (r, m) \<Rightarrow> (r, w\<lparr>dw_adm := m\<rparr>))"

definition onVolumes :: "('s \<times> 'v, 'a) action \<Rightarrow> (('s, 'p, 'v) dash_world, 'a) action" where
  "onVolumes a w = (case a (dw_store w, dw_csi w) of (r, (s, v)) \<Rightarrow> (r, w\<lparr>dw_adm := (dw_adm w)\<lparr>as_store := s\<rparr>, dw_csi := v\<rparr>))"

definition aborted :: "'f response" where
  "aborted = reply 0 [] NoBody"

definition http_fail :: "string \<Rightarrow> error \<Rightarrow> nat \<Rightarrow> 'f response" where
  "http_fail what err st = (if is_panic err then aborted else http_Error (what @ error_text err) st)"

definition writeProto :: "'f dash_env \<Rightarrow> 'f dash_json \<Rightarrow> 'f response" where
  "writeProto env msg =
     (case de_protojson env msg of Some err \<Rightarrow> http_Error (error_text err) StatusInternalServerError | None \<Rightarrow> write_json msg)"

definition method_not_allowed :: "'f response" where
  "method_not_allowed = http_Error ''method not allowed'' StatusMethodNotAllowed"

definition decode_body :: "(bytes \<Rightarrow> 'a res) \<Rightarrow> HttpRequest \<Rightarrow> 'a res" where
  "decode_body decode r = (case rq_Body r of Inl err \<Rightarrow> Inl err | Inr b \<Rightarrow> decode b)"

definition query_namespace :: "HttpRequest \<Rightarrow> string" where
  "query_namespace r = (let ns = lget (rq_Query r) ''namespace'' in if ns = [] then ''default'' else ns)"

definition query_name :: "HttpRequest \<Rightarrow> string" where
  "query_name r = lget (rq_Query r) ''name''"

definition name_missing :: "'f response" where
  "name_missing = http_Error ''name query parameter is required'' StatusBadRequest"

text \<open>A call whose result is written out, with the status for its error.\<close>

definition answer :: "(('s, 'p, 'v) dash_world, 'a) action \<Rightarrow> nat \<Rightarrow> ('a \<Rightarrow> 'f response) \<Rightarrow>
    ('s, 'p, 'v) dash_world \<Rightarrow> 'f response \<times> ('s, 'p, 'v) dash_world" where
  "answer a st f w = (case a w of (Inl err, w') \<Rightarrow> (http_fail [] err st, w') | (Inr x, w') \<Rightarrow> (f x, w'))"

section \<open>Nodes, pods and namespaces\<close>

type_synonym ('s, 'b, 'p, 'v, 'f) handler = "'f dash_env \<Rightarrow> ('s, 'b, 'p, 'v, 'f) dash_Config \<Rightarrow> HttpRequest \<Rightarrow>
  ('s, 'p, 'v) dash_world \<Rightarrow> 'f response \<times> ('s, 'p, 'v) dash_world"

definition handleNodes :: "('s, 'b, 'p, 'v, 'f) handler" where
  "handleNodes env cfg r =
     answer (onDash (readA (reg_List (dc_Nodes cfg) []))) StatusInternalServerError (\<lambda>items. writeProto env (JNodes items))"

definition handlePods :: "('s, 'b, 'p, 'v, 'f) handler" where
  "handlePods env cfg r w =
     (if rq_Method r = ''GET''
      then answer (onDash (readA (reg_List (dc_Pods cfg) []))) StatusInternalServerError (\<lambda>items. writeProto env (JPods items)) w
      else if rq_Method r = ''DELETE''
      then (if query_name r = [] then (name_missing, w)
            else answer (onDash (reg_Delete (dc_Pods cfg) (query_namespace r) (query_name r))) StatusInternalServerError
                   (\<lambda>_. no_content) w)
      else (method_not_allowed, w))"

definition handleNamespaces :: "('s, 'b, 'p, 'v, 'f) handler" where
  "handleNamespaces env cfg r w =
     (if rq_Method r = ''GET''
      then answer (onDash (ListNamespaces (dc_Namespaces cfg))) StatusInternalServerError (\<lambda>items. writeProto env (JNamespaces items)) w
      else if rq_Method r = ''POST''
      then (case decode_body (de_decodeName env) r of
              Inl err \<Rightarrow> (http_fail ''invalid request body: '' err StatusBadRequest, w)
            | Inr name \<Rightarrow>
                if name = [] then (http_Error ''name is required'' StatusBadRequest, w)
                else answer (onDash (CreateNamespace (dc_Namespaces cfg)
                               (Some \<lparr>nsp_metadata = Some (zero_ObjectMeta\<lparr>meta_name := name\<rparr>)\<rparr>))) StatusBadRequest
                       (\<lambda>created. writeProto env (JNamespace created)) w)
      else if rq_Method r = ''DELETE''
      then (if query_name r = [] then (name_missing, w)
            else answer (onDash (DeleteNamespace (dc_Namespaces cfg) (query_name r))) StatusInternalServerError (\<lambda>_. no_content) w)
      else (method_not_allowed, w))"

section \<open>The node agents behind the dashboard\<close>

definition resolveNodeIP :: "('s, 'b, 'p, 'v, 'f) dash_Config \<Rightarrow> string \<Rightarrow> 's \<Rightarrow> string res" where
  "resolveNodeIP cfg nodeName s =
     (case reg_Get (dc_Nodes cfg) [] nodeName s of
        Inl err \<Rightarrow> Inl (ErrWrap ''node not found'' err)
      | Inr node \<Rightarrow>
          (let ip = NodeStatus_GetInternalIp (node_status node)
           in if ip = [] then Inl (ErrText ''node has no internal IP recorded'') else Inr ip))"

definition proxyToAgent :: "'f dash_env \<Rightarrow> HttpRequest \<Rightarrow> string \<Rightarrow> int \<Rightarrow> string \<Rightarrow> 'f response" where
  "proxyToAgent env r internalIP port path =
     (let upstream = ''http://'' @ internalIP @ '':'' @ FormatInt port @ path @ ''?'' @ rq_RawQuery r
      in case de_NewRequest env (rq_Method r) upstream of
           Some err \<Rightarrow> http_Error (error_text err) StatusInternalServerError
         | None \<Rightarrow> (case de_Do env (rq_Method r) upstream (rq_Body r) of
                      Inl err \<Rightarrow> http_Error (''fetch from node: '' @ error_text err) StatusBadGateway
                    | Inr resp \<Rightarrow> reply (hr_Status resp) (hr_Type resp) (hr_Body resp)))"

definition handleLogs :: "('s, 'b, 'p, 'v, 'f) handler" where
  "handleLogs env cfg r w =
     (if query_name r = [] then (name_missing, w)
      else case reg_Get (dc_Pods cfg) (query_namespace r) (query_name r) (dw_store w) of
        Inl err \<Rightarrow> (http_fail ''pod not found: '' err StatusNotFound, w)
      | Inr pod \<Rightarrow>
          if pod_node pod = [] then (http_Error ''pod is not scheduled to a node yet'' StatusNotFound, w)
          else case resolveNodeIP cfg (pod_node pod) (dw_store w) of
            Inl err \<Rightarrow> (http_fail [] err StatusNotFound, w)
          | Inr internalIP \<Rightarrow>
              (proxyToAgent env r internalIP (if dc_AgentLogPort cfg \<le> 0 then 10250 else dc_AgentLogPort cfg) ''/logs'', w))"

definition files_op :: "HttpRequest \<Rightarrow> string option" where
  "files_op r =
     (if rq_Method r = ''GET'' then Some (if lget (rq_Query r) ''op'' \<noteq> ''read'' then ''list'' else ''read'')
      else if rq_Method r = ''PUT'' then Some ''write''
      else if rq_Method r = ''DELETE'' then Some ''delete'' else None)"

definition handleFiles :: "('s, 'b, 'p, 'v, 'f) handler" where
  "handleFiles env cfg r w =
     (if query_name r = [] then (name_missing, w)
      else case fst (GetVolume (dc_Volumes cfg) (query_namespace r) (query_name r) (dw_store w)) of
        Inl err \<Rightarrow> (http_fail ''volume not found: '' err StatusNotFound, w)
      | Inr vol \<Rightarrow>
          if VolumeStatus_GetNodeName (vol_status vol) = []
          then (http_Error ''volume is not yet claimed by any node'' StatusNotFound, w)
          else case resolveNodeIP cfg (VolumeStatus_GetNodeName (vol_status vol)) (dw_store w) of
            Inl err \<Rightarrow> (http_fail [] err StatusNotFound, w)
          | Inr internalIP \<Rightarrow>
              (case files_op r of
                 None \<Rightarrow> (method_not_allowed, w)
               | Some op \<Rightarrow>
                   (proxyToAgent env r internalIP (if dc_AgentFilesPort cfg \<le> 0 then 10251 else dc_AgentFilesPort cfg)
                      (''/files/'' @ op), w)))"

section \<open>Deployments\<close>

definition linksToLabel :: string where "linksToLabel = ''nimbuscore.io/links-to''"

text \<open>The checks of a creation, with the defaults for namespace and replicas filled in on the way.\<close>

definition check_create :: "createDeploymentRequest \<Rightarrow> string + createDeploymentRequest" where
  "check_create req =
     (if cdr_Name req = [] then Inl ''name is required''
      else if cdr_Image req = [] \<and> cdr_GitRepoURL req = [] then Inl ''image or gitRepoUrl is required''
      else (let req = (if cdr_Namespace req = [] then req\<lparr>cdr_Namespace := ''default''\<rparr> else req);
                req = (if cdr_Replicas req \<le> 0 then req\<lparr>cdr_Replicas := 1\<rparr> else req)
            in if cdr_AddPersistentStorage req \<and> cdr_Replicas req > 1
               then Inl ''deployments with persistent storage must have replicas = 1''
               else if cdr_AddPersistentStorage req \<and> cdr_MountPath req = []
               then Inl ''mountPath is required when addPersistentStorage is set''
               else Inr req))"

definition create_container :: "createDeploymentRequest \<Rightarrow> Container" where
  "create_container req =
     \<lparr>ctr_name = cdr_Name req, ctr_image = (if cdr_GitRepoURL req \<noteq> [] then [] else cdr_Image req),
      ctr_resources = (if cdr_CPUMillis req > 0 \<or> cdr_MemoryBytes req > 0
        then Some \<lparr>rr_requests = Some \<lparr>rl_cpu_millis = cdr_CPUMillis req, rl_memory_bytes = cdr_MemoryBytes req, rl_accelerators = []\<rparr>,
                   rr_limits = None\<rparr> else None),
      ctr_security_context = None, ctr_command = cdr_Command req, ctr_wasm_module_path = [],
      ctr_container_ports = (if cdr_Port req > 0 then [cdr_Port req] else []), ctr_env = cdr_Env req,
      ctr_build_source = (if cdr_GitRepoURL req \<noteq> []
        then Some \<lparr>bs_repo_url = cdr_GitRepoURL req, bs_branch = cdr_GitBranch req, bs_dockerfile_path = cdr_GitDockerfile req,
                   bs_context_path = cdr_GitContext req\<rparr> else None)\<rparr>"

definition create_deployment :: "createDeploymentRequest \<Rightarrow> VolumeMount list \<Rightarrow> Deployment" where
  "create_deployment req volumes =
     \<lparr>dep_metadata = Some (zero_ObjectMeta\<lparr>meta_name := cdr_Name req, meta_namespace := cdr_Namespace req,
        meta_labels := (if cdr_Links req \<noteq> [] then AList.update linksToLabel (join_with '','' (cdr_Links req)) [(''app'', cdr_Name req)]
                        else [(''app'', cdr_Name req)])\<rparr>),
      dep_spec = Some \<lparr>ds_replicas = cdr_Replicas req, ds_selector = [(''app'', cdr_Name req)],
        ds_template = Some (zero_PodSpec\<lparr>ps_containers := [create_container req], ps_volumes := volumes\<rparr>),
        ds_min_replicas = 0, ds_max_replicas = 0\<rparr>,
      dep_status = None\<rparr>"

text \<open>
  The volumes of the new template: a volume of the deployment's name, created where it is
  missing, or what the edited deployment has.
\<close>

definition claim_volumes :: "('s, 'b, 'p, 'v, 'f) dash_Config \<Rightarrow> createDeploymentRequest \<Rightarrow> Deployment res \<Rightarrow>
    (('s, 'p, 'v) dash_world, VolumeMount list) action" where
  "claim_volumes cfg req existing w =
     (if cdr_AddPersistentStorage req
      then (let mounts = [\<lparr>mnt_volume_name = cdr_Name req, mnt_mount_path = cdr_MountPath req, mnt_read_only = False\<rparr>]
            in case fst (GetVolume (dc_Volumes cfg) (cdr_Namespace req) (cdr_Name req) (dw_store w)) of
                 Inr vol \<Rightarrow> (Inr mounts, w)
               | Inl err \<Rightarrow>
                   bindA (onVolumes (CreateVolume (dc_Volumes cfg) (dc_CSI cfg)
                      (Some \<lparr>vol_metadata = Some (zero_ObjectMeta\<lparr>meta_name := cdr_Name req, meta_namespace := cdr_Namespace req\<rparr>),
                             vol_spec = Some \<lparr>volspec_requested_bytes = 1073741824\<rparr>, vol_status = None\<rparr>)))
                     (\<lambda>_. ret mounts) w)
      else (case existing of
              Inr d \<Rightarrow> (Inr (dep_mounts d), w)
            | Inl err \<Rightarrow> (Inr [], w)))"

definition restartOwnedPods :: "('s, 'b, Pod) Registry \<Rightarrow> string \<Rightarrow> string \<Rightarrow> ('s, unit) action" where
  "restartOwnedPods pods namespace name s =
     (case reg_List pods namespace s of
        Inl err \<Rightarrow> (Inr (), s)
      | Inr ps \<Rightarrow> forA (\<lambda>p. if owner_of p \<noteq> name then ret ()
                              else logA (reg_Delete pods (pod_namespace p) (pod_name p))) ps s)"

definition create_service :: "createDeploymentRequest \<Rightarrow> Service" where
  "create_service req =
     \<lparr>svc_metadata = Some (zero_ObjectMeta\<lparr>meta_name := cdr_Name req, meta_namespace := cdr_Namespace req,
        meta_labels := [(''app'', cdr_Name req)]\<rparr>),
      svc_spec = Some (zero_ServiceSpec\<lparr>ss_selector := [(''app'', cdr_Name req)], ss_port := cdr_Port req, ss_target_port := cdr_Port req\<rparr>),
      svc_status = None\<rparr>"

text \<open>The last part of a creation: the service, and the envelope with what came of it.\<close>

definition publish :: "'f dash_env \<Rightarrow> ('s, 'b, 'p, 'v, 'f) dash_Config \<Rightarrow> createDeploymentRequest \<Rightarrow> Deployment \<Rightarrow>
    ('s, 'p, 'v) dash_world \<Rightarrow> 'f response \<times> ('s, 'p, 'v) dash_world" where
  "publish env cfg req created w =
     (if cdr_Port req > 0
      then (case onDash (CreateService (dc_Services cfg) (Some (create_service req))) w of
              (Inl svcErr, w') \<Rightarrow>
                (if is_panic svcErr then aborted else write_json (JEnvelope created None (Some (error_text svcErr))), w')
            | (Inr createdSvc, w') \<Rightarrow>
                (write_json (JEnvelope created
                   (case de_protojson env (JService createdSvc) of None \<Rightarrow> Some createdSvc | Some err \<Rightarrow> None) None), w'))
      else (write_json (JEnvelope created None None), w))"

text \<open>Storing the deployment and what follows.\<close>

definition store_deployment :: "'f dash_env \<Rightarrow> ('s, 'b, 'p, 'v, 'f) dash_Config \<Rightarrow> createDeploymentRequest \<Rightarrow> bool \<Rightarrow>
    VolumeMount list \<Rightarrow> ('s, 'p, 'v) dash_world \<Rightarrow> 'f response \<times> ('s, 'p, 'v) dash_world" where
  "store_deployment env cfg req isEdit volumes w =
     (case onAdm (CreateDeployment (dc_DeploymentSvc cfg) (Some (create_deployment req volumes))) w of
        (Inl err, w2) \<Rightarrow> (http_fail [] err StatusBadRequest, w2)
      | (Inr created, w2) \<Rightarrow>
          (let w3 = (if isEdit then snd (onDash (restartOwnedPods (dc_Pods cfg) (cdr_Namespace req) (cdr_Name req)) w2) else w2)
           in case de_protojson env (JDeployment created) of
                Some err \<Rightarrow> (http_Error (error_text err) StatusInternalServerError, w3)
              | None \<Rightarrow> publish env cfg req created w3))"

definition handleCreateDeployment :: "('s, 'b, 'p, 'v, 'f) handler" where
  "handleCreateDeployment env cfg r w =
     (case decode_body (de_decodeCreate env) r of
        Inl err \<Rightarrow> (http_fail ''invalid request body: '' err StatusBadRequest, w)
      | Inr req0 \<Rightarrow>
          (case check_create req0 of
             Inl msg \<Rightarrow> (http_Error msg StatusBadRequest, w)
           | Inr req \<Rightarrow>
               (let existing = fst (GetDeployment (dc_DeploymentSvc cfg) (cdr_Namespace req) (cdr_Name req) (dw_store w));
                    isEdit = (case existing of Inr d \<Rightarrow> True | Inl err \<Rightarrow> False)
                in case claim_volumes cfg req existing w of
                     (Inl err, w1) \<Rightarrow> (http_fail ''create volume: '' err StatusInternalServerError, w1)
                   | (Inr volumes, w1) \<Rightarrow> store_deployment env cfg req isEdit volumes w1)))"

definition handleDeleteDeployment :: "('s, 'b, 'p, 'v, 'f) handler" where
  "handleDeleteDeployment env cfg r w =
     (if query_name r = [] then (name_missing, w)
      else answer (onDash (DeleteDeployment (dc_DeploymentSvc cfg) (query_namespace r) (query_name r))) StatusInternalServerError
             (\<lambda>_. no_content) w)"

definition handleScaleDeployment :: "('s, 'b, 'p, 'v, 'f) handler" where
  "handleScaleDeployment env cfg r w =
     (case decode_body (de_decodeScale env) r of
        Inl err \<Rightarrow> (http_fail ''invalid request body: '' err StatusBadRequest, w)
      | Inr req \<Rightarrow>
          if sdr_Name req = [] then (http_Error ''name is required'' StatusBadRequest, w)
          else (let namespace = (if sdr_Namespace req = [] then ''default'' else sdr_Namespace req)
                in if sdr_Replicas req < 0 then (http_Error ''replicas must be >= 0'' StatusBadRequest, w)
                   else case fst (GetDeployment (dc_DeploymentSvc cfg) namespace (sdr_Name req) (dw_store w)) of
                     Inl err \<Rightarrow> (http_fail [] err StatusNotFound, w)
                   | Inr current \<Rightarrow>
                       if dep_mounts current \<noteq> [] \<and> sdr_Replicas req > 1
                       then (http_Error ''deployments with persistent storage must have replicas <= 1'' StatusBadRequest, w)
                       else (case dep_spec current of
                               None \<Rightarrow> (aborted, w)
                             | Some spec \<Rightarrow>
                                 answer (onAdm (CreateDeployment (dc_DeploymentSvc cfg)
                                           (Some (current\<lparr>dep_spec := Some (spec\<lparr>ds_replicas := sdr_Replicas req\<rparr>)\<rparr>)))) StatusBadRequest
                                   (\<lambda>updated. writeProto env (JDeployment updated)) w)))"

definition handleDeployments :: "('s, 'b, 'p, 'v, 'f) handler" where
  "handleDeployments env cfg r w =
     (if rq_Method r = ''GET''
      then answer (onDash (ListDeployments (dc_DeploymentSvc cfg) [])) StatusInternalServerError
             (\<lambda>items. writeProto env (JDeployments items)) w
      else if rq_Method r = ''POST'' then handleCreateDeployment env cfg r w
      else if rq_Method r = ''PATCH'' then handleScaleDeployment env cfg r w
      else if rq_Method r = ''DELETE'' then handleDeleteDeployment env cfg r w
      else (method_not_allowed, w))"

section \<open>Services, metrics, costs and the delivery view\<close>

definition handleServices :: "('s, 'b, 'p, 'v, 'f) handler" where
  "handleServices env cfg r w =
     (if rq_Method r = ''GET''
      then answer (onDash (ListServices (dc_Services cfg) [])) StatusInternalServerError (\<lambda>items. writeProto env (JServices items)) w
      else if rq_Method r = ''DELETE''
      then (if query_name r = [] then (name_missing, w)
            else answer (onDash (DeleteService (dc_Services cfg) (query_namespace r) (query_name r))) StatusInternalServerError
                   (\<lambda>_. no_content) w)
      else (method_not_allowed, w))"

text \<open>The usage of a node: CPU and memory requested, memory used.\<close>

type_synonym node_usage = "int64 \<times> int64 \<times> int64"

definition usage_at :: "(string, node_usage) gomap \<Rightarrow> string \<Rightarrow> node_usage" where
  "usage_at m k = (case map_of m k of None \<Rightarrow> (0, 0, 0) | Some u \<Rightarrow> u)"

definition add_container :: "node_usage \<Rightarrow> Container \<Rightarrow> node_usage" where
  "add_container u c = (case u of (cpu, mem, used) \<Rightarrow>
     (wrap64 (cpu + ResourceList_GetCpuMillis (ctr_requests c)), wrap64 (mem + ResourceList_GetMemoryBytes (ctr_requests c)), used))"

definition add_pod_usage :: "(string, node_usage) gomap \<Rightarrow> Pod \<Rightarrow> (string, node_usage) gomap" where
  "add_pod_usage byNode p =
     (if pod_node p = [] then byNode
      else (case foldl add_container (usage_at byNode (pod_node p)) (pod_containers p) of (cpu, mem, used) \<Rightarrow>
              AList.update (pod_node p) (cpu, mem, wrap64 (used + PodStatus_GetMemoryUsageBytes (pod_status p))) byNode))"

definition node_metrics :: "(string, node_usage) gomap \<Rightarrow> Node \<Rightarrow> nodeMetrics" where
  "node_metrics byNode n =
     (case usage_at byNode (node_name n) of (cpu, mem, used) \<Rightarrow>
        (let alloc = NodeStatus_GetAllocatable (node_status n)
         in \<lparr>nm_Name = node_name n, nm_Ready = node_ready n,
             nm_CPUAllocatableMillis = ResourceList_GetCpuMillis alloc, nm_CPURequestedMillis = cpu,
             nm_MemoryAllocatableBytes = ResourceList_GetMemoryBytes alloc, nm_MemoryRequestedBytes = mem, nm_MemoryUsedBytes = used\<rparr>))"

definition add_node :: "clusterMetrics \<Rightarrow> nodeMetrics \<Rightarrow> clusterMetrics" where
  "add_node out nm =
     \<lparr>clm_Nodes = clm_Nodes out @ [nm],
      clm_CPUAllocatableMillis = wrap64 (clm_CPUAllocatableMillis out + nm_CPUAllocatableMillis nm),
      clm_CPURequestedMillis = wrap64 (clm_CPURequestedMillis out + nm_CPURequestedMillis nm),
      clm_MemoryAllocatableBytes = wrap64 (clm_MemoryAllocatableBytes out + nm_MemoryAllocatableBytes nm),
      clm_MemoryRequestedBytes = wrap64 (clm_MemoryRequestedBytes out + nm_MemoryRequestedBytes nm),
      clm_MemoryUsedBytes = wrap64 (clm_MemoryUsedBytes out + nm_MemoryUsedBytes nm)\<rparr>"

definition cluster_metrics :: "Node list \<Rightarrow> Pod list \<Rightarrow> clusterMetrics" where
  "cluster_metrics nodes pods =
     foldl add_node \<lparr>clm_Nodes = [], clm_CPUAllocatableMillis = 0, clm_CPURequestedMillis = 0, clm_MemoryAllocatableBytes = 0,
       clm_MemoryRequestedBytes = 0, clm_MemoryUsedBytes = 0\<rparr> (map (node_metrics (foldl add_pod_usage [] pods)) nodes)"

definition handleMetrics :: "('s, 'b, 'p, 'v, 'f) handler" where
  "handleMetrics env cfg r w =
     (case reg_List (dc_Nodes cfg) [] (dw_store w) of
        Inl err \<Rightarrow> (http_fail [] err StatusInternalServerError, w)
      | Inr nodes \<Rightarrow> (case reg_List (dc_Pods cfg) [] (dw_store w) of
            Inl err \<Rightarrow> (http_fail [] err StatusInternalServerError, w)
          | Inr pods \<Rightarrow> (write_json (JMetrics (cluster_metrics nodes pods)), w)))"

definition handleFinops :: "('s, 'b, 'p, 'v, 'f) handler" where
  "handleFinops env cfg r =
     answer (onDash (readA (reg_List (dc_Pods cfg) []))) StatusInternalServerError
       (\<lambda>pods. write_json (JReport (Estimate (de_float env) pods (dc_CostModel cfg) [] (de_now env))))"

definition cicd_deployment :: "Deployment \<Rightarrow> cicdDeployment" where
  "cicd_deployment d =
     \<lparr>cd_Namespace = dep_namespace d, cd_Name = dep_name d,
      cd_Image = (case PodSpec_GetContainers (dep_template d) of
          [] \<Rightarrow> []
        | c # _ \<Rightarrow> (case ctr_build_source c of None \<Rightarrow> ctr_image c | Some build \<Rightarrow> ''git: '' @ bs_repo_url build)),
      cd_Replicas = dep_replicas d, cd_ReadyReplicas = DeploymentStatus_GetReadyReplicas (dep_status d),
      cd_Source = (if lget (ObjectMeta_GetLabels (dep_metadata d)) ManagedByLabel = ManagedByValue then ''gitops'' else ''manual'')\<rparr>"

definition cicd_gitops :: "gitops_Status option \<Rightarrow> cicdGitOps" where
  "cicd_gitops g =
     (case g of
        None \<Rightarrow> \<lparr>cg_Configured = False, cg_RepoURL = [], cg_Branch = [], cg_Path = [], cg_LastSyncUnix = 0, cg_LastCommit = [], cg_LastError = []\<rparr>
      | Some st \<Rightarrow> \<lparr>cg_Configured = True, cg_RepoURL = gs_RepoURL st, cg_Branch = gs_Branch st, cg_Path = gs_Path st,
          cg_LastSyncUnix = gs_LastSyncUnix st, cg_LastCommit = gs_LastCommit st, cg_LastError = gs_LastError st\<rparr>)"

definition handleCICD :: "('s, 'b, 'p, 'v, 'f) handler" where
  "handleCICD env cfg r =
     answer (onDash (ListDeployments (dc_DeploymentSvc cfg) [])) StatusInternalServerError
       (\<lambda>items. write_json (JCICD \<lparr>cr_GitOps = cicd_gitops (dc_GitOps cfg), cr_Deployments = map cicd_deployment items\<rparr>))"

section \<open>Routes\<close>

definition appMux :: "('s, 'b, 'p, 'v, 'f) handler" where
  "appMux env cfg r w =
     (let p = rq_Path r in
      if p = ''/api/nodes'' then handleNodes env cfg r w
      else if p = ''/api/pods'' then handlePods env cfg r w
      else if p = ''/api/deployments'' then handleDeployments env cfg r w
      else if p = ''/api/services'' then handleServices env cfg r w
      else if p = ''/api/finops'' then handleFinops env cfg r w
      else if p = ''/api/cicd'' then handleCICD env cfg r w
      else if p = ''/api/metrics'' then handleMetrics env cfg r w
      else if p = ''/api/logs'' then handleLogs env cfg r w
      else if p = ''/api/namespaces'' then handleNamespaces env cfg r w
      else if p = ''/api/files'' then handleFiles env cfg r w
      else (de_FileServer env r, w))"

definition public_file :: "string \<Rightarrow> bool" where
  "public_file p \<longleftrightarrow> HasPrefix p ''/fonts/'' \<or> HasPrefix p ''/vendor/'' \<or>
     p \<in> {''/style.css'', ''/logo.png'', ''/login.js'', ''/particles.js''}"

text \<open>A registered subtree answers its path without the trailing slash with a redirect.\<close>

definition slash_redirect :: "HttpRequest \<Rightarrow> 'f response" where
  "slash_redirect r = http_Redirect (rq_Path r @ ''/'' @ (if rq_RawQuery r = [] then [] else ''?'' @ rq_RawQuery r)) 301"

definition NewHandler :: "bytes \<Rightarrow> ('s, 'b, 'p, 'v, 'f) handler" where
  "NewHandler secret env cfg r w =
     (if dc_Password cfg = [] then appMux env cfg r w
      else (let sess = \<lparr>sa_username = dc_Username cfg, sa_password = dc_Password cfg, sa_secret = secret\<rparr>;
                now = de_now env div Second; p = rq_Path r
            in if p = ''/login'' then (handleLoginPage (de_hmac env) (de_ReadFile env) now sess r, w)
               else if p = ''/api/login'' then (handleLogin (de_hmac env) (de_decodeLogin env) now sess r, w)
               else if p = ''/api/logout'' then (handleLogout r, w)
               else if public_file p then (de_FileServer env r, w)
               else if p = ''/fonts'' \<or> p = ''/vendor'' then (slash_redirect r, w)
               else requireSession (de_hmac env) now sess (appMux env cfg) r w))"

section \<open>The guard\<close>

text \<open>
  C18: with a password set, a request without a valid session neither changes nor shows anything
  of the cluster. Whatever the path, method and body, the state afterwards is the state
  before, and the answer is the same for every state of the cluster (the login page, the
  public files, a redirect, or an error).
\<close>

theorem dashboard_guarded:
  assumes "dc_Password cfg \<noteq> []"
    and "\<not> isAuthenticated (de_hmac env) (de_now env div Second)
      \<lparr>sa_username = dc_Username cfg, sa_password = dc_Password cfg, sa_secret = secret\<rparr> r"
  shows "snd (NewHandler secret env cfg r w) = w \<and>
    fst (NewHandler secret env cfg r w) = fst (NewHandler secret env cfg r w2)"
  using assms by (simp add: NewHandler_def Let_def requireSession_def)

section \<open>Metrics\<close>

abbreviation cpu_requests :: "Pod \<Rightarrow> int" where
  "cpu_requests p \<equiv> (\<Sum>c \<leftarrow> pod_containers p. ResourceList_GetCpuMillis (ctr_requests c))"

abbreviation memory_requests :: "Pod \<Rightarrow> int" where
  "memory_requests p \<equiv> (\<Sum>c \<leftarrow> pod_containers p. ResourceList_GetMemoryBytes (ctr_requests c))"

abbreviation on_node :: "string \<Rightarrow> Pod list \<Rightarrow> Pod list" where
  "on_node n pods \<equiv> filter (\<lambda>p. pod_node p = n) pods"

lemma add_containers:
  "foldl add_container (wrap64 a, wrap64 b, u) cs =
   (wrap64 (a + (\<Sum>c \<leftarrow> cs. ResourceList_GetCpuMillis (ctr_requests c))),
    wrap64 (b + (\<Sum>c \<leftarrow> cs. ResourceList_GetMemoryBytes (ctr_requests c))), u)"
  by (induction cs arbitrary: a b) (simp_all add: add_container_def add.assoc)

lemma usage_of_node:
  assumes "n \<noteq> []" "usage_at m n = (wrap64 a, wrap64 b, wrap64 c)"
  shows "usage_at (foldl add_pod_usage m pods) n =
    (wrap64 (a + (\<Sum>p \<leftarrow> on_node n pods. cpu_requests p)), wrap64 (b + (\<Sum>p \<leftarrow> on_node n pods. memory_requests p)),
     wrap64 (c + (\<Sum>p \<leftarrow> on_node n pods. PodStatus_GetMemoryUsageBytes (pod_status p))))"
  using assms(2)
proof (induction pods arbitrary: m a b c)
  case (Cons p pods)
  show ?case
  proof (cases "pod_node p = n")
    case True
    have "usage_at (add_pod_usage m p) n = (wrap64 (a + cpu_requests p), wrap64 (b + memory_requests p),
        wrap64 (c + PodStatus_GetMemoryUsageBytes (pod_status p)))"
      using True assms(1) Cons.prems by (simp add: add_pod_usage_def add_containers) (simp add: usage_at_def)
    from Cons.IH[OF this] True show ?thesis by (simp add: add.assoc)
  next
    case False
    have "usage_at (add_pod_usage m p) n = usage_at m n"
      using False by (auto simp: add_pod_usage_def usage_at_def split: prod.splits)
    with Cons.IH[of "add_pod_usage m p" a b c] Cons.prems False show ?thesis by simp
  qed
qed simp

lemma add_nodes:
  "foldl add_node out nms =
   \<lparr>clm_Nodes = clm_Nodes out @ nms,
    clm_CPUAllocatableMillis = (if nms = [] then clm_CPUAllocatableMillis out else wrap64 (clm_CPUAllocatableMillis out + sum_list (map nm_CPUAllocatableMillis nms))),
    clm_CPURequestedMillis = (if nms = [] then clm_CPURequestedMillis out else wrap64 (clm_CPURequestedMillis out + sum_list (map nm_CPURequestedMillis nms))),
    clm_MemoryAllocatableBytes = (if nms = [] then clm_MemoryAllocatableBytes out else wrap64 (clm_MemoryAllocatableBytes out + sum_list (map nm_MemoryAllocatableBytes nms))),
    clm_MemoryRequestedBytes = (if nms = [] then clm_MemoryRequestedBytes out else wrap64 (clm_MemoryRequestedBytes out + sum_list (map nm_MemoryRequestedBytes nms))),
    clm_MemoryUsedBytes = (if nms = [] then clm_MemoryUsedBytes out else wrap64 (clm_MemoryUsedBytes out + sum_list (map nm_MemoryUsedBytes nms)))\<rparr>"
proof (induction nms arbitrary: out)
  case (Cons nm nms)
  then show ?case by (simp add: add_node_def add.assoc)
qed simp

lemma cluster_metrics_fields:
  "clm_Nodes (cluster_metrics nodes pods) = map (node_metrics (foldl add_pod_usage [] pods)) nodes"
  "clm_CPUAllocatableMillis (cluster_metrics nodes pods) = wrap64 (sum_list (map nm_CPUAllocatableMillis (clm_Nodes (cluster_metrics nodes pods))))"
  "clm_CPURequestedMillis (cluster_metrics nodes pods) = wrap64 (sum_list (map nm_CPURequestedMillis (clm_Nodes (cluster_metrics nodes pods))))"
  "clm_MemoryAllocatableBytes (cluster_metrics nodes pods) = wrap64 (sum_list (map nm_MemoryAllocatableBytes (clm_Nodes (cluster_metrics nodes pods))))"
  "clm_MemoryRequestedBytes (cluster_metrics nodes pods) = wrap64 (sum_list (map nm_MemoryRequestedBytes (clm_Nodes (cluster_metrics nodes pods))))"
  "clm_MemoryUsedBytes (cluster_metrics nodes pods) = wrap64 (sum_list (map nm_MemoryUsedBytes (clm_Nodes (cluster_metrics nodes pods))))"
  by (simp_all add: cluster_metrics_def add_nodes wrap64_def)

text \<open>
  The metrics page shows the sums. For every node with a name the requested CPU and memory
  and the memory in use are the sums over exactly the pods bound to it (in 64 bits), its
  allocatable amounts are those of its status, and the cluster's figures are the sums of its
  nodes' figures.
\<close>

theorem metrics_are_sums:
  assumes "reg_List (dc_Nodes cfg) [] (dw_store w) = Inr nodes" "reg_List (dc_Pods cfg) [] (dw_store w) = Inr pods"
    and "\<forall>n \<in> set nodes. node_name n \<noteq> []"
  shows "\<exists>m. handleMetrics env cfg r w = (write_json (JMetrics m), w) \<and>
    clm_Nodes m = map (\<lambda>n. \<lparr>nm_Name = node_name n, nm_Ready = node_ready n,
      nm_CPUAllocatableMillis = ResourceList_GetCpuMillis (NodeStatus_GetAllocatable (node_status n)),
      nm_CPURequestedMillis = wrap64 (\<Sum>p \<leftarrow> on_node (node_name n) pods. cpu_requests p),
      nm_MemoryAllocatableBytes = ResourceList_GetMemoryBytes (NodeStatus_GetAllocatable (node_status n)),
      nm_MemoryRequestedBytes = wrap64 (\<Sum>p \<leftarrow> on_node (node_name n) pods. memory_requests p),
      nm_MemoryUsedBytes = wrap64 (\<Sum>p \<leftarrow> on_node (node_name n) pods. PodStatus_GetMemoryUsageBytes (pod_status p))\<rparr>) nodes \<and>
    clm_CPUAllocatableMillis m = wrap64 (sum_list (map nm_CPUAllocatableMillis (clm_Nodes m))) \<and>
    clm_CPURequestedMillis m = wrap64 (sum_list (map nm_CPURequestedMillis (clm_Nodes m))) \<and>
    clm_MemoryAllocatableBytes m = wrap64 (sum_list (map nm_MemoryAllocatableBytes (clm_Nodes m))) \<and>
    clm_MemoryRequestedBytes m = wrap64 (sum_list (map nm_MemoryRequestedBytes (clm_Nodes m))) \<and>
    clm_MemoryUsedBytes m = wrap64 (sum_list (map nm_MemoryUsedBytes (clm_Nodes m)))"
proof -
  have z: "wrap64 0 = 0" by (simp add: wrap64_def)
  have u: "usage_at (foldl add_pod_usage [] pods) (node_name n) =
      (wrap64 (\<Sum>p \<leftarrow> on_node (node_name n) pods. cpu_requests p), wrap64 (\<Sum>p \<leftarrow> on_node (node_name n) pods. memory_requests p),
       wrap64 (\<Sum>p \<leftarrow> on_node (node_name n) pods. PodStatus_GetMemoryUsageBytes (pod_status p)))" if "n \<in> set nodes" for n
    using usage_of_node[of "node_name n" "[]" 0 0 0 pods] that assms(3) by (simp add: usage_at_def z)
  show ?thesis
  proof (intro exI conjI)
    show "handleMetrics env cfg r w = (write_json (JMetrics (cluster_metrics nodes pods)), w)"
      by (simp add: handleMetrics_def assms(1,2))
    show "clm_Nodes (cluster_metrics nodes pods) = map (\<lambda>n. \<lparr>nm_Name = node_name n, nm_Ready = node_ready n,
      nm_CPUAllocatableMillis = ResourceList_GetCpuMillis (NodeStatus_GetAllocatable (node_status n)),
      nm_CPURequestedMillis = wrap64 (\<Sum>p \<leftarrow> on_node (node_name n) pods. cpu_requests p),
      nm_MemoryAllocatableBytes = ResourceList_GetMemoryBytes (NodeStatus_GetAllocatable (node_status n)),
      nm_MemoryRequestedBytes = wrap64 (\<Sum>p \<leftarrow> on_node (node_name n) pods. memory_requests p),
      nm_MemoryUsedBytes = wrap64 (\<Sum>p \<leftarrow> on_node (node_name n) pods. PodStatus_GetMemoryUsageBytes (pod_status p))\<rparr>) nodes"
      unfolding cluster_metrics_fields(1) by (rule map_cong[OF refl]) (simp add: node_metrics_def u Let_def)
  qed (rule cluster_metrics_fields)+
qed

section \<open>Editing a deployment\<close>

lemma onDash_store [simp]: "dw_store (snd (onDash a w)) = snd (a (dw_store w))"
  by (simp add: onDash_def case_prod_beta)

text \<open>The pods' and services' writes that follow leave the deployments alone.\<close>

lemma restart_keeps:
  assumes "registry_laws S good repr CP" "good s" "\<not> HasPrefix k (reg_prefix kPods [])"
  shows "good (snd (restartOwnedPods (reg_New S kPods CP) ns name s)) \<and>
    repr (snd (restartOwnedPods (reg_New S kPods CP) ns name s)) k = repr s k"
proof (cases "reg_List (reg_New S kPods CP) ns s")
  case (Inr ps)
  have ne: "k \<noteq> key_of kPods n m" for n m using assms(3) key_of_prefix by metis
  let ?P = "\<lambda>s'. good s' \<and> repr s' k = repr s k"
  have step: "?P (snd ((if owner_of p \<noteq> name then ret () else logA (reg_Delete (reg_New S kPods CP) (pod_namespace p) (pod_name p))) s'))"
    if "?P s'" for p s'
    using that registry_laws.reg_Delete_any(1)[OF assms(1), of s'] registry_laws.reg_Delete_frame[OF assms(1) _ ne, of s'] by simp
  have "?P (snd (forA (\<lambda>p. if owner_of p \<noteq> name then ret () else
      logA (reg_Delete (reg_New S kPods CP) (pod_namespace p) (pod_name p))) ps s))"
    by (rule forA_invariant) (use step assms(2) in blast)+
  with Inr show ?thesis by (simp add: restartOwnedPods_def)
qed (use assms(2) in \<open>simp add: restartOwnedPods_def\<close>)

lemma CreateService_keeps:
  assumes "registry_laws S good repr CS" "good s" "\<not> HasPrefix k (reg_prefix kServices [])"
  shows "repr (snd (CreateService (NewServiceService S CS CP CN) req s)) k = repr s k"
proof -
  have ne: "k \<noteq> key_of kServices n m" for n m using assms(3) key_of_prefix by metis
  show ?thesis
    using registry_laws.reg_Put_frame[OF assms(1,2) ne]
    by (simp add: snd_CreateService NewServiceService_def split: sum.split)
qed

text \<open>
  C34: editing a deployment in the dashboard keeps its storage. When the form does not ask for
  storage and the edit is accepted, the stored deployment has exactly the volumes it had, with
  at most one replica if there are any, the image and replicas of the form, and a template that
  passed admission, whatever became of the pods and of the service that are written after it.
\<close>

theorem edit_keeps_storage:
  assumes "cluster S good repr CP CN CD CV" "registry_laws S good repr CS" "good (dw_store w)" "decodes repr CD kDeployments (dw_store w)"
    and "dc_DeploymentSvc cfg = NewDeploymentService S CD CP (admission_chain allowed Verify pods quota cel policies volumes)"
    and "dc_Pods cfg = reg_New S kPods CP" "dc_Services cfg = NewServiceService S CS CP CN" "cache_ok cel (dw_adm w)"
    and "decode_body (de_decodeCreate env) r = Inr req0" "check_create req0 = Inr req" "\<not> cdr_AddPersistentStorage req"
    and "obj_at repr CD kDeployments (dw_store w) (key_of kDeployments (cdr_Namespace req) (cdr_Name req)) = Some d"
    and "hr_Status (fst (handleCreateDeployment env cfg r w)) = StatusOK"
  shows "\<exists>d'. obj_at repr CD kDeployments (dw_store (snd (handleCreateDeployment env cfg r w)))
        (key_of kDeployments (cdr_Namespace req) (cdr_Name req)) = Some d' \<and>
      dep_mounts d' = dep_mounts d \<and> (dep_mounts d = [] \<or> dep_replicas d' \<le> 1) \<and> dep_replicas d' = cdr_Replicas req \<and>
      PodSpec_GetContainers (dep_template d') = [default_context (create_container req)] \<and>
      (\<forall>c \<in> set (PodSpec_GetContainers (dep_template d')). safe_container allowed c \<and> Verify (ctr_image c) = Inr ())"
proof -
  let ?k = "key_of kDeployments (cdr_Namespace req) (cdr_Name req)" and ?new = "create_deployment req (dep_mounts d)"
  note deps = cluster.axioms(3)[OF assms(1)] and pods = cluster.axioms(1)[OF assms(1)]
  have get: "fst (GetDeployment (dc_DeploymentSvc cfg) (cdr_Namespace req) (cdr_Name req) (dw_store w)) = Inr d"
    using registry_laws.reg_Get_obj_at[OF deps assms(3,4)] assms(12)
    by (simp add: assms(5) NewDeploymentService_def GetDeployment_def api_get_def actions)
  have run: "handleCreateDeployment env cfg r w = store_deployment env cfg req True (dep_mounts d) w"
    by (simp add: handleCreateDeployment_def assms(9,10,11) Let_def claim_volumes_def get)
  obtain d' m where cd: "CreateDeployment (dc_DeploymentSvc cfg) (Some ?new) (dw_adm w) = (Inr d', m)"
    using assms(13) unfolding run store_deployment_def onAdm_def
    by (auto simp: http_fail_def aborted_def status_codes split: prod.splits sum.splits if_splits)
  note adm = admitted_deployment[OF deps assms(3,8) cd[unfolded assms(5)]]
  let ?w2 = "w\<lparr>dw_adm := m\<rparr>"
  let ?w3 = "snd (onDash (restartOwnedPods (dc_Pods cfg) (cdr_Namespace req) (cdr_Name req)) ?w2)"
  have st: "obj_at repr CD kDeployments (as_store m) ?k = Some d'"
    using adm(3,6) by (simp add: create_deployment_def)
  have kp: "\<not> HasPrefix ?k (reg_prefix kPods [])" "\<not> HasPrefix ?k (reg_prefix kServices [])"
    using reg_prefix_kinds[of kDeployments kPods ?k] reg_prefix_kinds[of kDeployments kServices ?k] by (auto simp: no_slash_def[of kServices])
  note w3 = restart_keeps[OF pods adm(1) kp(1), of "cdr_Namespace req" "cdr_Name req", folded assms(6)]
  have "repr (dw_store (snd (handleCreateDeployment env cfg r w))) ?k = repr (as_store m) ?k"
    using w3 CreateService_keeps[OF assms(2) conjunct1[OF w3] kp(2), of CP CN "Some (create_service req)", folded assms(7)]
    unfolding run store_deployment_def publish_def onAdm_def cd
    by (auto simp: Let_def onDash_def split: option.split prod.split sum.split)
  with st have "obj_at repr CD kDeployments (dw_store (snd (handleCreateDeployment env cfg r w))) ?k = Some d'"
    by (simp add: obj_at_def)
  then show ?thesis
    using adm(4,5,7,8,9) by (auto simp: create_deployment_def)
qed

lemma resolve_port: "resolve svc x s = (Inr y, s') \<Longrightarrow> svc_port y = svc_port x"
  by (auto simp: resolve_def actions split: if_splits sum.splits)

lemma CreateService_fresh_port:
  assumes "services S good repr CS CP CN" "services_ok good repr CS s"
    and "CreateService (NewServiceService S CS CP CN) (Some (create_service req)) s = (Inr y, s')"
    and "obj_at repr CS kServices s k = Some old"
  shows "svc_port y \<noteq> svc_port old" "services_ok good repr CS s'"
    "\<exists>x. obj_at repr CS kServices s' (key_of kServices (cdr_Namespace req) (cdr_Name req)) = Some x \<and> svc_port x = svc_port y"
proof -
  let ?SV = "NewServiceService S CS CP CN"
  obtain x s1 where x: "choose_port ?SV (Some (create_service req)) s = Inr x"
    and put: "reg_Put (sv_services ?SV) (svc_namespace x) (svc_name x) x s = (Inr (), s1)" and res: "resolve ?SV x s1 = (Inr y, s')"
    using assms(3) by (auto simp: CreateService_def store_service_def bindA_Inr)
  obtain p where p: "allocateNodePort ?SV s = Inr p"
    and xp: "x = (create_service req)\<lparr>svc_spec := Some ((the (svc_spec (create_service req)))\<lparr>ss_node_port := p\<rparr>)\<rparr>"
    using x by (auto simp: choose_port_def create_service_def zero_ServiceSpec_def Let_def split: if_splits sum.splits)
  have port: "svc_port y = p" using resolve_port[OF res] xp by simp
  have "p \<notin> svc_port ` ran (obj_at repr CS kServices s)"
    using services.allocate_cases[OF assms(1,2)] by (simp add: p)
  with assms(4) port show "svc_port y \<noteq> svc_port old" by (auto simp: ran_def)
  show "services_ok good repr CS s'"
    using services.create_ok[OF assms(1,2), of "Some (create_service req)"] by (simp add: assms(3))
  have s': "s' = s1" using res snd_resolve[of ?SV x s1] by simp
  have "good s" using assms(2) by (simp add: services_ok_def)
  from registry_laws.reg_Put_ok(2)[OF services.axioms(1)[OF assms(1)] this put[unfolded NewServiceService_def serviceService.simps]]
  have "obj_at repr CS kServices s1 (key_of kServices (svc_namespace x) (svc_name x)) = Some x" by simp
  moreover have "svc_namespace x = cdr_Namespace req" "svc_name x = cdr_Name req" by (simp_all add: xp create_service_def)
  ultimately show "\<exists>x. obj_at repr CS kServices s' (key_of kServices (cdr_Namespace req) (cdr_Name req)) = Some x \<and> svc_port x = svc_port y"
    using s' xp port by auto
qed

text \<open>
  Saving a deployment again moves its service to another node port. The dashboard sends the
  service without a node port, and its stored port counts as taken: when the service is
  already there, the accepted save leaves it stored with a different port than before.
\<close>

theorem save_moves_node_port:
  assumes "services S good repr CS CP CN" "services_ok good repr CS (dw_store w)" "dc_Services cfg = NewServiceService S CS CP CN"
    and "cdr_Port req > 0" "obj_at repr CS kServices (dw_store w) (key_of kServices (cdr_Namespace req) (cdr_Name req)) = Some old"
    and "publish env cfg req created w = (write_json (JEnvelope created (Some y) None), w')"
  shows "\<exists>x. obj_at repr CS kServices (dw_store w') (key_of kServices (cdr_Namespace req) (cdr_Name req)) = Some x \<and>
    svc_port x = svc_port y \<and> svc_port x \<noteq> svc_port old"
proof -
  obtain s' where "CreateService (NewServiceService S CS CP CN) (Some (create_service req)) (dw_store w) = (Inr y, s')"
    "dw_store w' = s'"
    using assms(3,4,6) unfolding publish_def onDash_def
    by (auto simp: http_defs aborted_def split: prod.splits sum.splits if_splits option.splits)
  from CreateService_fresh_port[OF assms(1,2) this(1) assms(5)] this(2) show ?thesis by auto
qed

section \<open>Instances\<close>

definition ex_form :: createDeploymentRequest where
  "ex_form = \<lparr>cdr_Name = ''web'', cdr_Namespace = [], cdr_Image = ''img'', cdr_GitRepoURL = [], cdr_GitBranch = [], cdr_GitDockerfile = [],
     cdr_GitContext = [], cdr_Replicas = 1, cdr_Port = 80, cdr_Command = [], cdr_Env = [], cdr_CPUMillis = 0, cdr_MemoryBytes = 0,
     cdr_AddPersistentStorage = False, cdr_MountPath = [], cdr_Links = []\<rparr>"

definition ex_dash_env :: "rat dash_env" where
  "ex_dash_env = \<lparr>de_float = rat_ops, de_NewRequest = \<lambda>m u. None, de_Do = \<lambda>m u b. Inl (ErrText ''connection refused''),
     de_protojson = \<lambda>j. None, de_decodeCreate = \<lambda>b. Inr ex_form, de_decodeScale = \<lambda>b. Inl (ErrText ''EOF''),
     de_decodeName = \<lambda>b. Inl (ErrText ''EOF''), de_decodeLogin = \<lambda>b. Inl (ErrText ''EOF''),
     de_FileServer = \<lambda>r. http_NotFound, de_ReadFile = \<lambda>n. Inr ''<html>'', de_hmac = \<lambda>k m. k @ m, de_now = 5000000000\<rparr>"

definition namespace_codec :: "(Namespace, wire) codec" where
  "namespace_codec = \<lparr>proto_Marshal = (\<lambda>x. Inr (WNamespace x)),
     proto_Unmarshal = (\<lambda>b. case b of WNamespace x \<Rightarrow> Inr x | _ \<Rightarrow> wrong_type)\<rparr>"

definition ex_dash_cfg :: "(wire memStore, wire, string, unit, rat) dash_Config" where
  "ex_dash_cfg = \<lparr>dc_Nodes = reg_New memStore kNodes node_codec, dc_Pods = reg_New memStore kPods pod_codec,
     dc_DeploymentSvc = NewDeploymentService memStore dep_codec pod_codec ex_chain, dc_Services = mem_svc,
     dc_Namespaces = reg_New memStore ''namespaces'' namespace_codec, dc_Volumes = reg_New memStore kVolumes vol_codec,
     dc_CSI = \<lparr>csi_CreateVolume = \<lambda>i n. ret n, csi_DeleteVolume = \<lambda>i. ret ()\<rparr>, dc_GitOps = None,
     dc_CostModel = \<lparr>cm_CPUCoreHour = 1, cm_MemoryGBHour = 1, cm_AcceleratorHour = []\<rparr>, dc_Username = ''admin'', dc_Password = ''pw'',
     dc_AgentLogPort = 0, dc_AgentFilesPort = 0\<rparr>"

text \<open>A deployment with a volume, its service on the first node port, and a pod on a node.\<close>

definition ex_mounted :: Deployment where
  "ex_mounted = (ex_dep 1)\<lparr>dep_spec := map_option (\<lambda>sp. sp\<lparr>ds_template := map_option (\<lambda>t. t\<lparr>ps_volumes :=
     [\<lparr>mnt_volume_name = ''web'', mnt_mount_path = ''/data'', mnt_read_only = False\<rparr>]\<rparr>) (ds_template sp)\<rparr>) (dep_spec (ex_dep 1))\<rparr>"

definition ex_published :: Service where
  "ex_published = (ex_service ''web'')\<lparr>svc_spec := Some (zero_ServiceSpec\<lparr>ss_node_port := 30000\<rparr>)\<rparr>"

definition ex_dash_world :: "(wire memStore, string, unit) dash_world" where
  "ex_dash_world = \<lparr>dw_adm = \<lparr>as_store = [(''/registry/deployments/default/web'', WDeployment ex_mounted),
       (''/registry/services/default/web'', WService ex_published), (''/registry/nodes/n1'', WNode (ex_node_obj ''n1'')),
       (''/registry/pods/default/a'', WPod (ex_pod_obj ''a'' ''n1'' [80])), (''/registry/policies/p'', WPolicy (ex_policy ''default''))],
     as_compiled = []\<rparr>, dw_csi = ()\<rparr>"

definition ex_save :: HttpRequest where
  "ex_save = \<lparr>rq_Method = ''POST'', rq_Path = ''/api/deployments'', rq_Query = [], rq_RawQuery = [], rq_Cookies = [], rq_Body = Inr ''{}''\<rparr>"

theorem dashboard_guarded_witness:
  "snd (NewHandler ''k'' ex_dash_env ex_dash_cfg ex_save ex_dash_world) = ex_dash_world \<and>
   hr_Status (fst (NewHandler ''k'' ex_dash_env ex_dash_cfg ex_save ex_dash_world)) = StatusUnauthorized"
proof -
  have "dc_Password ex_dash_cfg \<noteq> []" by (simp add: ex_dash_cfg_def)
  moreover have "\<not> isAuthenticated (de_hmac ex_dash_env) (de_now ex_dash_env div Second)
      \<lparr>sa_username = dc_Username ex_dash_cfg, sa_password = dc_Password ex_dash_cfg, sa_secret = ''k''\<rparr> ex_save"
    by (simp add: isAuthenticated_def ex_save_def)
  ultimately show ?thesis
    using dashboard_guarded[of ex_dash_cfg ex_dash_env "''k''" ex_save ex_dash_world]
    by (simp add: NewHandler_def Let_def public_file_def ex_save_def requireSession_def HasPrefix_def)
qed

theorem metrics_are_sums_witness:
  "\<exists>m. handleMetrics ex_dash_env ex_dash_cfg ex_save ex_dash_world = (write_json (JMetrics m), ex_dash_world) \<and>
     clm_CPURequestedMillis m = wrap64 (sum_list (map nm_CPURequestedMillis (clm_Nodes m)))"
proof -
  have "reg_List (dc_Nodes ex_dash_cfg) [] (dw_store ex_dash_world) = Inr [ex_node_obj ''n1'']"
    "reg_List (dc_Pods ex_dash_cfg) [] (dw_store ex_dash_world) = Inr [ex_pod_obj ''a'' ''n1'' [80]]"
    "\<forall>n \<in> set [ex_node_obj ''n1'']. node_name n \<noteq> []" by code_simp+
  from metrics_are_sums[OF this] show ?thesis by blast
qed

lemma ex_dash_ok:
  "mem_ok (dw_store ex_dash_world)" "decodes map_of dep_codec kDeployments (dw_store ex_dash_world)"
  "services_ok mem_ok map_of svc_codec (dw_store ex_dash_world)"
  by (simp_all add: ex_dash_world_def decodes_def services_ok_def own_keys_def obj_at_def HasPrefix_def reg_prefix_def codec_defs
      key_of_def ex_published_def ex_service_def zero_messages)

theorem edit_keeps_storage_witness:
  "map_option (\<lambda>d. map mnt_mount_path (dep_mounts d)) (obj_at map_of dep_codec kDeployments
     (dw_store (snd (handleCreateDeployment ex_dash_env ex_dash_cfg ex_save ex_dash_world))) (key_of kDeployments ''default'' ''web'')) =
   Some [''/data'']"
proof -
  let ?req = "ex_form\<lparr>cdr_Namespace := ''default''\<rparr>"
  have c: "check_create ex_form = Inr ?req" "decode_body (de_decodeCreate ex_dash_env) ex_save = Inr ex_form"
    "\<not> cdr_AddPersistentStorage ?req" "hr_Status (fst (handleCreateDeployment ex_dash_env ex_dash_cfg ex_save ex_dash_world)) = StatusOK"
    by code_simp+
  have f: "dc_DeploymentSvc ex_dash_cfg = NewDeploymentService memStore dep_codec pod_codec
      (admission_chain [] (\<lambda>i. if i = ''img'' then Inr () else Inl (ErrText ''unsigned'')) (reg_New memStore kPods pod_codec) None
        ex_cel (reg_New memStore ''policies'' policy_codec) (reg_New memStore kVolumes vol_codec))"
    "dc_Pods ex_dash_cfg = reg_New memStore kPods pod_codec" "dc_Services ex_dash_cfg = mem_svc" "cache_ok ex_cel (dw_adm ex_dash_world)"
    by (simp_all add: ex_dash_cfg_def ex_chain_def ex_dash_world_def cache_ok_def)
  have d: "obj_at map_of dep_codec kDeployments (dw_store ex_dash_world)
      (key_of kDeployments (cdr_Namespace ?req) (cdr_Name ?req)) = Some ex_mounted" by code_simp
  have m: "map mnt_mount_path (dep_mounts ex_mounted) = [''/data'']" "cdr_Namespace ?req = ''default''" "cdr_Name ?req = ''web''" by code_simp+
  from edit_keeps_storage[OF mem_cluster.cluster_axioms mem_services.registry_laws_axioms ex_dash_ok(1,2) f c(2,1,3) d c(4)] m
  show ?thesis by auto
qed

theorem save_moves_node_port_witness:
  "\<exists>x. obj_at map_of svc_codec kServices
      (dw_store (snd (publish ex_dash_env ex_dash_cfg (ex_form\<lparr>cdr_Namespace := ''default''\<rparr>) ex_mounted ex_dash_world)))
      (key_of kServices ''default'' ''web'') = Some x \<and> svc_port x \<noteq> 30000"
proof -
  let ?req = "ex_form\<lparr>cdr_Namespace := ''default''\<rparr>" and ?run = "publish ex_dash_env ex_dash_cfg (ex_form\<lparr>cdr_Namespace := ''default''\<rparr>) ex_mounted ex_dash_world"
  define y where "y = projr (fst (CreateService mem_svc (Some (create_service ?req)) (dw_store ex_dash_world)))"
  have run: "fst ?run = write_json (JEnvelope ex_mounted (Some y) None)" unfolding y_def by code_simp
  have "0 < cdr_Port ?req" "dc_Services ex_dash_cfg = mem_svc" "svc_port ex_published = 30000"
    and n: "cdr_Namespace ?req = ''default''" "cdr_Name ?req = ''web''"
    by (simp_all add: ex_form_def ex_dash_cfg_def ex_published_def)
  moreover have "obj_at map_of svc_codec kServices (dw_store ex_dash_world) (key_of kServices (cdr_Namespace ?req) (cdr_Name ?req)) =
      Some ex_published" by code_simp
  ultimately show ?thesis
    using save_moves_node_port[OF mem_svcs.services_axioms ex_dash_ok(3), of ex_dash_cfg ?req ex_published ex_dash_env ex_mounted y "snd ?run"]
      run by (auto simp: prod_eq_iff)
qed

end
