(* ===== verification/Enrolment.thy ===== *)
theory Enrolment
  imports Identity Disk
begin

text \<open>
  The client side of identities: \<^verbatim>\<open>internal/identity/svid.go\<close> (keys, certificates, the check of a
  peer's chain), \<^verbatim>\<open>enroll.go\<close>, \<^verbatim>\<open>rotate.go\<close>, \<^verbatim>\<open>persist.go\<close>, \<open>NewCA\<close> of \<^verbatim>\<open>ca.go\<close>, and the start of a
  control-plane replica in \<^verbatim>\<open>cmd/nimbus-apiserver/main.go\<close> (\<open>loadOrBootstrapIdentity\<close>). X.509, PEM,
  JSON and SPIFFE are parameters in \<open>id_env\<close>; what \<open>crypto/rand\<close> yields (a key, a serial number,
  a data-encryption key) is an argument of the operation that draws it.
\<close>

section \<open>Data\<close>

record ('cert, 'key) keyedCA = "'cert CA" +
  ca_key :: 'key

record ca_template =
  cat_SerialNumber :: int
  cat_CommonName :: string
  cat_NotBefore :: int
  cat_NotAfter :: int

record persistedBootstrap =
  pb_TrustDomain :: string
  pb_CAKeyPEM :: string
  pb_CACertPEM :: string
  pb_DEK :: bytes

text \<open>\<open>ie_x509\<close> is X.509 with the certificate and key of the issuer that signs.\<close>

record ('key, 'csr, 'pub, 'cert) id_env =
  ie_x509 :: "'cert \<Rightarrow> 'key \<Rightarrow> ('csr, 'pub, 'cert) x509_env"
  ie_PublicKey :: "'key \<Rightarrow> 'pub"
  ie_CreateCSR :: "string \<Rightarrow> 'key \<Rightarrow> bytes res"
  ie_SelfSign :: "ca_template \<Rightarrow> 'key \<Rightarrow> bytes res"
  ie_ParseCertificate :: "bytes \<Rightarrow> 'cert res"
  ie_Raw :: "'cert \<Rightarrow> bytes"
  ie_URIs :: "'cert \<Rightarrow> string list"
  ie_Verify :: "'cert \<Rightarrow> 'cert list \<Rightarrow> 'cert list \<Rightarrow> error option"
  ie_FromURI :: "string \<Rightarrow> spiffe_ID res"
  ie_TrustDomain :: "string \<Rightarrow> string res"
  ie_MarshalKey :: "'key \<Rightarrow> bytes res"
  ie_ParseKey :: "bytes \<Rightarrow> 'key res"
  ie_PemEncode :: "string \<Rightarrow> bytes \<Rightarrow> string"
  ie_PemDecode :: "string \<Rightarrow> bytes option"
  ie_MarshalState :: "persistedBootstrap \<Rightarrow> bytes res"
  ie_UnmarshalState :: "bytes \<Rightarrow> persistedBootstrap res"

record ('key, 'cert) SVID =
  svid_key :: 'key
  svid_cert :: "'cert option"
  svid_bundle :: "'cert list"

record EnrollConfig =
  ec_ControlPlaneAddr :: string
  ec_JoinToken :: string
  ec_Name :: string
  ec_Role :: SVIDRole

section \<open>Identities\<close>

definition NewSVID :: "'key \<Rightarrow> 'cert \<Rightarrow> 'cert list \<Rightarrow> ('key, 'cert) SVID" where
  "NewSVID key cert bundle = \<lparr>svid_key = key, svid_cert = Some cert, svid_bundle = bundle\<rparr>"

definition GenerateKey :: "'key res \<Rightarrow> 'key res" where
  "GenerateKey draw = (case draw of Inl err \<Rightarrow> Inl (ErrWrap ''identity: generate key'' err) | Inr key \<Rightarrow> Inr key)"

definition GenerateCSR :: "('key, 'csr, 'pub, 'cert) id_env \<Rightarrow> 'key res \<Rightarrow> string \<Rightarrow> (bytes \<times> 'key) res" where
  "GenerateCSR E draw commonName =
     (case GenerateKey draw of
        Inl err \<Rightarrow> Inl err
      | Inr key \<Rightarrow> (case ie_CreateCSR E commonName key of
                      Inl err \<Rightarrow> Inl (ErrWrap ''identity: create CSR'' err)
                    | Inr csrDER \<Rightarrow> Inr (csrDER, key)))"

definition Rotate :: "'key \<Rightarrow> 'cert option \<Rightarrow> ('key, 'cert) SVID \<Rightarrow> ('key, 'cert) SVID" where
  "Rotate key cert s = s\<lparr>svid_key := key, svid_cert := cert\<rparr>"

definition Materials :: "('key, 'cert) SVID \<Rightarrow> 'key \<times> 'cert option" where
  "Materials s = (svid_key s, svid_cert s)"

definition SVID_ID :: "('key, 'csr, 'pub, 'cert) id_env \<Rightarrow> ('key, 'cert) SVID \<Rightarrow> spiffe_ID res" where
  "SVID_ID E s =
     (case snd (Materials s) of
        None \<Rightarrow> Inl (ErrPanic ''invalid memory address or nil pointer dereference'')
      | Some cert \<Rightarrow> (case ie_URIs E cert of
                        [u] \<Rightarrow> ie_FromURI E u
                      | _ \<Rightarrow> Inl (ErrText ''identity: SVID certificate must carry exactly one URI SAN'')))"

definition tlsCertificate :: "('key, 'csr, 'pub, 'cert) id_env \<Rightarrow> ('key, 'cert) SVID \<Rightarrow> (bytes list \<times> 'key \<times> 'cert) res" where
  "tlsCertificate E s =
     (case Materials s of
        (key, None) \<Rightarrow> Inl (ErrText ''identity: SVID has no certificate yet'')
      | (key, Some cert) \<Rightarrow> Inr ([ie_Raw E cert], key, cert))"

fun parse_all :: "('key, 'csr, 'pub, 'cert) id_env \<Rightarrow> bytes list \<Rightarrow> 'cert list res" where
  "parse_all E [] = Inr []"
| "parse_all E (raw # raws) =
     (case ie_ParseCertificate E raw of
        Inl err \<Rightarrow> Inl (ErrWrap ''identity: parse peer certificate'' err)
      | Inr cert \<Rightarrow> (case parse_all E raws of Inl err \<Rightarrow> Inl err | Inr certs \<Rightarrow> Inr (cert # certs)))"

text \<open>The callback for a peer's chain; \<open>None\<close> accepts it.\<close>

definition verifyPeerSPIFFE :: "('key, 'csr, 'pub, 'cert) id_env \<Rightarrow> 'cert list \<Rightarrow> (spiffe_ID \<Rightarrow> error option) \<Rightarrow> bytes list \<Rightarrow> error option" where
  "verifyPeerSPIFFE E bundle expect rawCerts =
     (case rawCerts of
        [] \<Rightarrow> Some (ErrText ''identity: peer presented no certificate'')
      | raw # raws \<Rightarrow>
          (case ie_ParseCertificate E raw of
             Inl err \<Rightarrow> Some (ErrWrap ''identity: parse peer certificate'' err)
           | Inr leaf \<Rightarrow>
          (case parse_all E raws of
             Inl err \<Rightarrow> Some err
           | Inr intermediates \<Rightarrow>
          (case ie_Verify E leaf bundle intermediates of
             Some err \<Rightarrow> Some (ErrWrap ''identity: verify peer chain'' err)
           | None \<Rightarrow>
          (case ie_URIs E leaf of
             [u] \<Rightarrow>
               (case ie_FromURI E u of
                  Inl err \<Rightarrow> Some (ErrWrap ''identity: peer certificate URI is not a SPIFFE ID'' err)
                | Inr ident \<Rightarrow> (case expect ident of Some err \<Rightarrow> Some (ErrWrap ''identity: peer rejected'' err) | None \<Rightarrow> None))
           | _ \<Rightarrow> Some (ErrText ''identity: peer certificate must carry exactly one URI SAN''))))))"

section \<open>Enrolment and rotation\<close>

text \<open>\<open>dial\<close> is \<open>grpc.NewClient\<close>, \<open>rpc\<close> the call of \<open>RequestSVID\<close> at an address.\<close>

definition Enroll :: "('key, 'csr, 'pub, 'cert) id_env \<Rightarrow> (string \<Rightarrow> error option) \<Rightarrow> (string \<Rightarrow> RequestSVIDRequest \<Rightarrow> RequestSVIDResponse res) \<Rightarrow>
    'key res \<Rightarrow> EnrollConfig \<Rightarrow> (('key, 'cert) SVID \<times> bytes) res" where
  "Enroll E dial rpc draw cfg =
     (case GenerateCSR E draw (ec_Name cfg) of
        Inl err \<Rightarrow> Inl err
      | Inr (csrDER, key) \<Rightarrow>
     (case dial (ec_ControlPlaneAddr cfg) of
        Some err \<Rightarrow> Inl (ErrWrap ''identity: dial'' err)
      | None \<Rightarrow>
     (case rpc (ec_ControlPlaneAddr cfg) \<lparr>rsr_join_token = ec_JoinToken cfg, rsr_node_name = ec_Name cfg, rsr_csr_der = csrDER,
              rsr_role = ec_Role cfg\<rparr> of
        Inl err \<Rightarrow> Inl (ErrWrap ''identity: RequestSVID'' err)
      | Inr resp \<Rightarrow>
     (case ie_ParseCertificate E (rsp_cert_der resp) of
        Inl err \<Rightarrow> Inl (ErrWrap ''identity: parse issued certificate'' err)
      | Inr cert \<Rightarrow>
     (case ie_ParseCertificate E (rsp_trust_bundle_der resp) of
        Inl err \<Rightarrow> Inl (ErrWrap ''identity: parse trust bundle'' err)
      | Inr caCert \<Rightarrow> Inr (NewSVID key cert [caCert], rsp_data_encryption_key resp))))))"

definition rotate_ttl :: "int64 \<Rightarrow> int64" where
  "rotate_ttl ttl = (if ttl \<le> 0 then DefaultSVIDTTL else ttl)"

text \<open>One tick of each rotation loop; the tickers fire every half of the lifetime.\<close>

definition rotate_period :: "int64 \<Rightarrow> int64" where
  "rotate_period ttl = go_div (rotate_ttl ttl) 2"

definition self_issue_tick :: "('key, 'csr, 'pub, 'cert) id_env \<Rightarrow> int \<Rightarrow> 'key res \<Rightarrow> int res \<Rightarrow> ('cert, 'key) keyedCA \<Rightarrow> string \<Rightarrow> int64 \<Rightarrow>
    ('key, 'cert) SVID \<Rightarrow> ('key, 'cert) SVID" where
  "self_issue_tick E now draw serial ca path ttl svid =
     (let X = ie_x509 E (ca_cert ca) (ca_key ca)
      in case GenerateKey draw of
           Inl err \<Rightarrow> svid
         | Inr key \<Rightarrow>
             (case spiffe_FromPath X (ca_trustDomain ca) path of
                Inl err \<Rightarrow> svid
              | Inr ident \<Rightarrow>
                  (case IssueSVID X (CA.truncate ca) now serial (ie_PublicKey E key) ident (rotate_ttl ttl) of
                     Inl err \<Rightarrow> svid
                   | Inr cert \<Rightarrow> Rotate key (Some cert) svid)))"

definition reenroll_tick :: "('key, 'csr, 'pub, 'cert) id_env \<Rightarrow> (string \<Rightarrow> error option) \<Rightarrow>
    (string \<Rightarrow> RequestSVIDRequest \<Rightarrow> RequestSVIDResponse res) \<Rightarrow> 'key res \<Rightarrow> EnrollConfig \<Rightarrow> ('key, 'cert) SVID \<Rightarrow> ('key, 'cert) SVID" where
  "reenroll_tick E dial rpc draw cfg svid =
     (case Enroll E dial rpc draw cfg of
        Inl err \<Rightarrow> svid
      | Inr (renewed, dek) \<Rightarrow> (case Materials renewed of (key, cert) \<Rightarrow> Rotate key cert svid))"

section \<open>The bootstrap replica\<close>

definition NewCA :: "('key, 'csr, 'pub, 'cert) id_env \<Rightarrow> int \<Rightarrow> 'key res \<Rightarrow> int res \<Rightarrow> string \<Rightarrow> ('cert, 'key) keyedCA res" where
  "NewCA E now draw serial trustDomain =
     (case ie_TrustDomain E trustDomain of
        Inl err \<Rightarrow> Inl (ErrWrap ''identity: invalid trust domain'' err)
      | Inr td \<Rightarrow>
     (case draw of
        Inl err \<Rightarrow> Inl (ErrWrap ''identity: generate CA key'' err)
      | Inr key \<Rightarrow>
     (case serial of
        Inl err \<Rightarrow> Inl err
      | Inr n \<Rightarrow>
     (case ie_SelfSign E \<lparr>cat_SerialNumber = n, cat_CommonName = ''NimbusCore CA - '' @ td, cat_NotBefore = now - 300 * Second,
              cat_NotAfter = now + 315360000 * Second\<rparr> key of
        Inl err \<Rightarrow> Inl (ErrWrap ''identity: self-sign CA cert'' err)
      | Inr der \<Rightarrow>
     (case ie_ParseCertificate E der of
        Inl err \<Rightarrow> Inl (ErrWrap ''identity: parse CA cert'' err)
      | Inr cert \<Rightarrow> Inr \<lparr>ca_trustDomain = td, ca_cert = cert, ca_key = key\<rparr>)))))"

definition TrustBundle :: "('cert, 'key) keyedCA \<Rightarrow> 'cert list" where
  "TrustBundle ca = [ca_cert ca]"

definition BootstrapStatePath :: "string \<Rightarrow> string" where
  "BootstrapStatePath dataDir = Join [dataDir, ''bootstrap-identity.json'']"

definition SaveBootstrapState :: "('key, 'csr, 'pub, 'cert) id_env \<Rightarrow> io_env \<Rightarrow> string \<Rightarrow> ('cert, 'key) keyedCA \<Rightarrow> bytes \<Rightarrow> (disk, unit) action" where
  "SaveBootstrapState E io path ca dek d =
     (case ie_MarshalKey E (ca_key ca) of
        Inl err \<Rightarrow> (Inl (ErrWrap ''identity: marshal CA key'' err), d)
      | Inr keyDER \<Rightarrow>
          (case ie_MarshalState E \<lparr>pb_TrustDomain = ca_trustDomain ca, pb_CAKeyPEM = ie_PemEncode E ''EC PRIVATE KEY'' keyDER,
                   pb_CACertPEM = ie_PemEncode E ''CERTIFICATE'' (ie_Raw E (ca_cert ca)), pb_DEK = dek\<rparr> of
             Inl err \<Rightarrow> (Inl (ErrWrap ''identity: marshal bootstrap state'' err), d)
           | Inr raw \<Rightarrow> wrapA ''identity: write bootstrap state'' (os_WriteFile io path raw) d))"

definition LoadBootstrapState :: "('key, 'csr, 'pub, 'cert) id_env \<Rightarrow> io_env \<Rightarrow> string \<Rightarrow> disk \<Rightarrow> (('cert, 'key) keyedCA \<times> bytes) res" where
  "LoadBootstrapState E io path d =
     (case os_ReadFile io path d of
        Inl err \<Rightarrow> Inl err
      | Inr raw \<Rightarrow>
     (case ie_UnmarshalState E raw of
        Inl err \<Rightarrow> Inl (ErrWrap ''identity: parse bootstrap state'' err)
      | Inr state \<Rightarrow>
     (case ie_TrustDomain E (pb_TrustDomain state) of
        Inl err \<Rightarrow> Inl (ErrWrap ''identity: parse persisted trust domain'' err)
      | Inr td \<Rightarrow>
     (case ie_PemDecode E (pb_CAKeyPEM state) of
        None \<Rightarrow> Inl (ErrText ''identity: decode persisted CA key PEM'')
      | Some keyDER \<Rightarrow>
     (case ie_ParseKey E keyDER of
        Inl err \<Rightarrow> Inl (ErrWrap ''identity: parse persisted CA key'' err)
      | Inr key \<Rightarrow>
     (case ie_PemDecode E (pb_CACertPEM state) of
        None \<Rightarrow> Inl (ErrText ''identity: decode persisted CA cert PEM'')
      | Some certDER \<Rightarrow>
     (case ie_ParseCertificate E certDER of
        Inl err \<Rightarrow> Inl (ErrWrap ''identity: parse persisted CA cert'' err)
      | Inr cert \<Rightarrow> Inr (\<lparr>ca_trustDomain = td, ca_cert = cert, ca_key = key\<rparr>, pb_DEK state))))))))"

text \<open>What a start draws from \<open>crypto/rand\<close>, in the order of the draws.\<close>

record 'key draws =
  dr_caKey :: "'key res"
  dr_caSerial :: "int res"
  dr_dek :: "bytes res"
  dr_key :: "'key res"
  dr_serial :: "int res"

text \<open>The CA and the data-encryption key of a bootstrap start: read, or made and written.\<close>

definition bootstrapState :: "('key, 'csr, 'pub, 'cert) id_env \<Rightarrow> io_env \<Rightarrow> int \<Rightarrow> 'key draws \<Rightarrow> string \<Rightarrow> string \<Rightarrow>
    (disk, ('cert, 'key) keyedCA \<times> bytes) action" where
  "bootstrapState E io now R trustDomain dataDir d =
     (case LoadBootstrapState E io (BootstrapStatePath dataDir) d of
        Inr state \<Rightarrow> (Inr state, d)
      | Inl err \<Rightarrow>
          if \<not> os_IsNotExist err then (Inl (ErrWrap ''apiserver: load persisted bootstrap identity'' err), d)
          else case NewCA E now (dr_caKey R) (dr_caSerial R) trustDomain of
            Inl err \<Rightarrow> (Inl err, d)
          | Inr ca \<Rightarrow>
              (case dr_dek R of
                 Inl err \<Rightarrow> (Inl err, d)
               | Inr dek \<Rightarrow>
                   bindA (wrapA ''apiserver: create data dir'' (os_MkdirAll io dataDir)) (\<lambda>_.
                   bindA (wrapA ''apiserver: persist bootstrap identity'' (SaveBootstrapState E io (BootstrapStatePath dataDir) ca dek)) (\<lambda>_.
                   ret (ca, dek))) d))"

text \<open>The identity a replica starts with, its CA where it is the bootstrap replica, and the key.\<close>

definition issueSelf :: "('key, 'csr, 'pub, 'cert) id_env \<Rightarrow> int \<Rightarrow> 'key draws \<Rightarrow> string \<Rightarrow> ('cert, 'key) keyedCA \<Rightarrow> ('key, 'cert) SVID res" where
  "issueSelf E now R nodeID ca =
     (let X = ie_x509 E (ca_cert ca) (ca_key ca)
      in case GenerateKey (dr_key R) of
           Inl err \<Rightarrow> Inl err
         | Inr key \<Rightarrow>
             (case spiffe_FromPath X (ca_trustDomain ca) (''/control-plane/'' @ nodeID) of
                Inl err \<Rightarrow> Inl err
              | Inr ident \<Rightarrow>
                  (case IssueSVID X (CA.truncate ca) now (dr_serial R) (ie_PublicKey E key) ident DefaultSVIDTTL of
                     Inl err \<Rightarrow> Inl err
                   | Inr cert \<Rightarrow> Inr (NewSVID key cert (TrustBundle ca)))))"

definition loadOrBootstrapIdentity :: "('key, 'csr, 'pub, 'cert) id_env \<Rightarrow> io_env \<Rightarrow> (string \<Rightarrow> error option) \<Rightarrow>
    (string \<Rightarrow> RequestSVIDRequest \<Rightarrow> RequestSVIDResponse res) \<Rightarrow> int \<Rightarrow> 'key draws \<Rightarrow> bool \<Rightarrow> string \<Rightarrow> string \<Rightarrow> string \<Rightarrow> string \<Rightarrow> string \<Rightarrow>
    (disk, ('key, 'cert) SVID \<times> ('cert, 'key) keyedCA option \<times> bytes) action" where
  "loadOrBootstrapIdentity E io dial rpc now R bootstrap trustDomain nodeID joinAddr joinToken dataDir d =
     (if \<not> bootstrap
      then (case Enroll E dial rpc (dr_key R) \<lparr>ec_ControlPlaneAddr = joinAddr, ec_JoinToken = joinToken, ec_Name = nodeID,
                    ec_Role = SVID_ROLE_CONTROL_PLANE\<rparr> of
              Inl err \<Rightarrow> (Inl err, d)
            | Inr (svid, dek) \<Rightarrow> (Inr (svid, None, dek), d))
      else bindA (bootstrapState E io now R trustDomain dataDir) (\<lambda>(ca, dek) d.
             case issueSelf E now R nodeID ca of
               Inl err \<Rightarrow> (Inl err, d)
             | Inr svid \<Rightarrow> (Inr (svid, Some ca, dek), d)) d)"

section \<open>Peers\<close>

lemma parse_all_Inr: "parse_all E raws = Inr certs \<longleftrightarrow> map (ie_ParseCertificate E) raws = map Inr certs"
proof (induction raws arbitrary: certs)
  case (Cons raw raws)
  then show ?case by (auto split: sum.splits simp: map_eq_Cons_conv Cons_eq_map_conv) blast
qed auto

text \<open>
  A client accepts a control plane exactly when its certificate is good. The check passes
  if and only if every certificate of the chain parses, the first one verifies against the
  trust bundle with the others as intermediates, it carries exactly one URI, and that URI
  is an identity the caller expects.
\<close>

theorem peer_accepted_iff:
  "verifyPeerSPIFFE E bundle expect rawCerts = None \<longleftrightarrow>
    (\<exists>leaf rest u ident. map (ie_ParseCertificate E) rawCerts = map Inr (leaf # rest) \<and> ie_Verify E leaf bundle rest = None \<and>
       ie_URIs E leaf = [u] \<and> ie_FromURI E u = Inr ident \<and> expect ident = None)"
proof (cases rawCerts)
  case (Cons raw raws)
  show ?thesis
  proof (cases "ie_ParseCertificate E raw")
    case (Inr leaf)
    show ?thesis
    proof (cases "parse_all E raws")
      case (Inr rest)
      then have "map (ie_ParseCertificate E) raws = map Inr rest" by (simp add: parse_all_Inr)
      with Cons Inr \<open>ie_ParseCertificate E raw = Inr leaf\<close> show ?thesis
        by (auto simp: verifyPeerSPIFFE_def inj_map_eq_map split: option.splits list.splits sum.splits)
    next
      case (Inl e)
      then have "\<forall>rest. map (ie_ParseCertificate E) raws \<noteq> map Inr rest" by (metis parse_all_Inr sum.distinct(1))
      with Cons Inl Inr show ?thesis by (auto simp: verifyPeerSPIFFE_def)
    qed
  qed (simp add: Cons verifyPeerSPIFFE_def)
qed (simp add: verifyPeerSPIFFE_def)

section \<open>Enrolment against the identity service\<close>

text \<open>
  The libraries on both ends agree: a certificate's raw form parses to the certificate, and
  SPIFFE reads back an identity of the trust domain that it has printed.
\<close>

definition id_laws :: "('key, 'csr, 'pub, 'cert) id_env \<Rightarrow> ('csr, 'pub, 'cert) x509_env \<Rightarrow> string \<Rightarrow> bool" where
  "id_laws E X td \<longleftrightarrow> (\<forall>c. ie_ParseCertificate E (cert_Raw X c) = Inr c) \<and>
     (\<forall>i. id_TrustDomain i = td \<longrightarrow> ie_FromURI E (spiffe_String X i) = Inr i)"

lemma issued_id:
  assumes "x509_laws X (ie_URIs E) valid" "id_laws E X (ca_trustDomain ca)" "IssueSVID X ca now serial pub ident ttl = Inr c"
  shows "SVID_ID E \<lparr>svid_key = k, svid_cert = Some c, svid_bundle = b\<rparr> = Inr ident"
  using issue_ok[OF assms(1,3)] assms(2) by (simp add: SVID_ID_def Materials_def id_laws_def)

lemma request_issued:
  assumes "x509_laws X uris valid" "RequestSVID X svc now serial req = Inr resp"
  obtains pub ident c where "role_path (rsr_role req) (rsr_node_name req) = Some (id_Path ident)"
    "id_TrustDomain ident = ca_trustDomain (is_ca svc)" "IssueSVID X (is_ca svc) now serial pub ident (is_svidTTL svc) = Inr c"
    "rsp_cert_der resp = cert_Raw X c" "rsp_trust_bundle_der resp = cert_Raw X (ca_cert (is_ca svc))"
    "rsp_data_encryption_key resp = (if rsr_role req = SVID_ROLE_CONTROL_PLANE then is_dataEncryptionKey svc else [])"
proof -
  from assms(2) obtain pub path ident c where "role_path (rsr_role req) (rsr_node_name req) = Some path"
    "spiffe_FromPath X (ca_trustDomain (is_ca svc)) path = Inr ident" "IssueSVID X (is_ca svc) now serial pub ident (is_svidTTL svc) = Inr c"
    "rsp_cert_der resp = cert_Raw X c" "rsp_trust_bundle_der resp = cert_Raw X (ca_cert (is_ca svc))"
    "rsp_data_encryption_key resp = (if rsr_role req = SVID_ROLE_CONTROL_PLANE then is_dataEncryptionKey svc else [])"
    unfolding RequestSVID_def by (auto split: if_splits sum.splits option.splits)
  with from_path[OF assms(1)] show thesis by (intro that) auto
qed

lemma enroll_result:
  assumes "x509_laws X (ie_URIs E) valid" "id_laws E X (ca_trustDomain (is_ca svc))"
    and "Enroll E dial (\<lambda>addr. RequestSVID X svc now serial) draw cfg = Inr (svid, dek)"
  obtains ident where "SVID_ID E svid = Inr ident" "id_TrustDomain ident = ca_trustDomain (is_ca svc)"
    "role_path (ec_Role cfg) (ec_Name cfg) = Some (id_Path ident)" "svid_bundle svid = [ca_cert (is_ca svc)]"
    "dek = (if ec_Role cfg = SVID_ROLE_CONTROL_PLANE then is_dataEncryptionKey svc else [])"
proof -
  from assms(3) obtain csr key resp cert caCert where
    r: "RequestSVID X svc now serial \<lparr>rsr_join_token = ec_JoinToken cfg, rsr_node_name = ec_Name cfg, rsr_csr_der = csr, rsr_role = ec_Role cfg\<rparr> = Inr resp"
    and p: "ie_ParseCertificate E (rsp_cert_der resp) = Inr cert" "ie_ParseCertificate E (rsp_trust_bundle_der resp) = Inr caCert"
    and s: "svid = NewSVID key cert [caCert]" "dek = rsp_data_encryption_key resp"
    unfolding Enroll_def by (auto split: sum.splits option.splits)
  obtain pub ident c where c: "role_path (ec_Role cfg) (ec_Name cfg) = Some (id_Path ident)"
    "id_TrustDomain ident = ca_trustDomain (is_ca svc)" "IssueSVID X (is_ca svc) now serial pub ident (is_svidTTL svc) = Inr c"
    "rsp_cert_der resp = cert_Raw X c" "rsp_trust_bundle_der resp = cert_Raw X (ca_cert (is_ca svc))"
    "rsp_data_encryption_key resp = (if ec_Role cfg = SVID_ROLE_CONTROL_PLANE then is_dataEncryptionKey svc else [])"
    by (rule request_issued[OF assms(1) r]) simp
  have "cert = c" "caCert = ca_cert (is_ca svc)"
    using p assms(2) by (simp_all add: c(4,5) id_laws_def)
  with c issued_id[OF assms(1,2) c(3)] s show thesis by (intro that) (simp_all add: NewSVID_def)
qed

text \<open>
  What enrolment gives, renewal keeps. Enrolled with the identity service, a client holds a
  certificate for the identity of the role and name it asked for in the service's trust domain,
  trusts exactly the service's CA, and has the data-encryption key only as a control-plane
  replica; and after any later tick of its rotation loop, whatever the draw, the serial number
  and the time, and whether or not the renewal works, it has the same identity and trust.
\<close>

theorem renewal_keeps_identity:
  assumes "x509_laws X (ie_URIs E) valid" "id_laws E X (ca_trustDomain (is_ca svc))"
    and "Enroll E dial (\<lambda>addr. RequestSVID X svc now serial) draw cfg = Inr (svid, dek)"
  shows "\<exists>ident. SVID_ID E svid = Inr ident \<and> id_TrustDomain ident = ca_trustDomain (is_ca svc) \<and>
    role_path (ec_Role cfg) (ec_Name cfg) = Some (id_Path ident) \<and> svid_bundle svid = [ca_cert (is_ca svc)] \<and>
    (ec_Role cfg \<noteq> SVID_ROLE_CONTROL_PLANE \<longrightarrow> dek = []) \<and>
    (\<forall>now' serial' dial' draw'.
       SVID_ID E (reenroll_tick E dial' (\<lambda>addr. RequestSVID X svc now' serial') draw' cfg svid) = Inr ident \<and>
       svid_bundle (reenroll_tick E dial' (\<lambda>addr. RequestSVID X svc now' serial') draw' cfg svid) = svid_bundle svid)"
proof -
  obtain ident where i: "SVID_ID E svid = Inr ident" "id_TrustDomain ident = ca_trustDomain (is_ca svc)"
    "role_path (ec_Role cfg) (ec_Name cfg) = Some (id_Path ident)" "svid_bundle svid = [ca_cert (is_ca svc)]"
    "dek = (if ec_Role cfg = SVID_ROLE_CONTROL_PLANE then is_dataEncryptionKey svc else [])"
    by (rule enroll_result[OF assms])
  have "SVID_ID E (reenroll_tick E dial' (\<lambda>addr. RequestSVID X svc now' serial') draw' cfg svid) = Inr ident \<and>
      svid_bundle (reenroll_tick E dial' (\<lambda>addr. RequestSVID X svc now' serial') draw' cfg svid) = svid_bundle svid"
    for now' serial' dial' draw'
  proof (cases "Enroll E dial' (\<lambda>addr. RequestSVID X svc now' serial') draw' cfg")
    case (Inr r)
    obtain renewed dek' where r: "r = (renewed, dek')" by fastforce
    obtain ident' where i': "SVID_ID E renewed = Inr ident'" "id_TrustDomain ident' = ca_trustDomain (is_ca svc)"
      "role_path (ec_Role cfg) (ec_Name cfg) = Some (id_Path ident')"
      by (rule enroll_result[OF assms(1,2) Inr[unfolded r]])
    have "ident' = ident" using i(2,3) i'(2,3) by simp
    with i'(1) Inr r show ?thesis by (simp add: reenroll_tick_def Materials_def Rotate_def SVID_ID_def)
  qed (simp add: reenroll_tick_def i(1))
  with i show ?thesis by auto
qed

section \<open>A restarted bootstrap replica\<close>

definition ascii :: "string \<Rightarrow> bool" where
  "ascii s \<longleftrightarrow> list_all (\<lambda>c. (of_char c :: nat) < 128) s"

text \<open>
  The encodings round trip: PEM, the DER form of keys and certificates, JSON on ASCII texts
  (PEM is ASCII), and trust domains, which are ASCII and in normal form once parsed.
\<close>

definition persist_laws :: "('key, 'csr, 'pub, 'cert) id_env \<Rightarrow> bool" where
  "persist_laws E \<longleftrightarrow>
     (\<forall>t b. ie_PemDecode E (ie_PemEncode E t b) = Some b \<and> ascii (ie_PemEncode E t b)) \<and>
     (\<forall>k b. ie_MarshalKey E k = Inr b \<longrightarrow> ie_ParseKey E b = Inr k) \<and>
     (\<forall>c. ie_ParseCertificate E (ie_Raw E c) = Inr c) \<and>
     (\<forall>s td. ie_TrustDomain E s = Inr td \<longrightarrow> ascii td \<and> ie_TrustDomain E td = Inr td) \<and>
     (\<forall>st b. ie_MarshalState E st = Inr b \<longrightarrow> ascii (pb_TrustDomain st) \<longrightarrow> ascii (pb_CAKeyPEM st) \<longrightarrow> ascii (pb_CACertPEM st) \<longrightarrow>
        ie_UnmarshalState E b = Inr st)"

lemma read_written:
  assumes "os_WriteFile io p b d = (Inr (), d')" "io_fault io ''read'' p = None"
  shows "os_ReadFile io p d' = Inr b"
  using WriteFile_ok[OF assms(1)] assms(2) by (simp add: os_ReadFile_def node_at_def dkey_def)

lemma save_load:
  assumes "persist_laws E" "ie_TrustDomain E t = Inr (ca_trustDomain ca)" "io_fault io ''read'' p = None"
    and "SaveBootstrapState E io p ca dek d = (Inr (), d')"
  shows "LoadBootstrapState E io p d' = Inr (ca, dek)"
proof -
  let ?st = "\<lambda>keyDER. \<lparr>pb_TrustDomain = ca_trustDomain ca, pb_CAKeyPEM = ie_PemEncode E ''EC PRIVATE KEY'' keyDER,
     pb_CACertPEM = ie_PemEncode E ''CERTIFICATE'' (ie_Raw E (ca_cert ca)), pb_DEK = dek\<rparr>"
  from assms(4) obtain keyDER raw where k: "ie_MarshalKey E (ca_key ca) = Inr keyDER" "ie_MarshalState E (?st keyDER) = Inr raw"
    and w: "os_WriteFile io p raw d = (Inr (), d')"
    by (auto simp: SaveBootstrapState_def split: sum.splits)
  have td: "ascii (ca_trustDomain ca)" "ie_TrustDomain E (ca_trustDomain ca) = Inr (ca_trustDomain ca)"
    using assms(1,2) unfolding persist_laws_def by blast+
  have "ie_UnmarshalState E raw = Inr (?st keyDER)"
    using assms(1) k(2) td(1) unfolding persist_laws_def by simp
  moreover have "ie_ParseKey E keyDER = Inr (ca_key ca)" using assms(1) k(1) unfolding persist_laws_def by blast
  moreover have "ie_PemDecode E (ie_PemEncode E t b) = Some b" "ie_ParseCertificate E (ie_Raw E c) = Inr c" for t b c
    using assms(1) unfolding persist_laws_def by blast+
  ultimately show ?thesis
    using read_written[OF w assms(3)] td(2) by (simp add: LoadBootstrapState_def)
qed

lemma bootstrap_saved:
  assumes "persist_laws E" "io_fault io ''read'' (BootstrapStatePath dataDir) = None"
    and "bootstrapState E io now R trustDomain dataDir d = (Inr (ca, dek), d')"
  shows "LoadBootstrapState E io (BootstrapStatePath dataDir) d' = Inr (ca, dek)"
proof (cases "LoadBootstrapState E io (BootstrapStatePath dataDir) d")
  case (Inr state)
  with assms(3) show ?thesis by (simp add: bootstrapState_def)
next
  case (Inl err)
  with assms(3) obtain d1 where ca: "NewCA E now (dr_caKey R) (dr_caSerial R) trustDomain = Inr ca"
    and s: "SaveBootstrapState E io (BootstrapStatePath dataDir) ca dek d1 = (Inr (), d')"
    by (auto simp: bootstrapState_def bindA_Inr ret_def split: if_splits sum.splits)
  from ca have "ie_TrustDomain E trustDomain = Inr (ca_trustDomain ca)"
    by (auto simp: NewCA_def split: sum.splits)
  from save_load[OF assms(1) this assms(2) s] show ?thesis .
qed

text \<open>
  C28: a bootstrap replica keeps its cluster's identity over restarts. After a start that
  succeeded, whether it made the CA and the data-encryption key or read them, the state on
  disk is exactly that CA and key, and a later start with the same data directory, with
  whatever time, draws, trust domain and node name, returns the same CA and key and writes
  nothing.
\<close>

theorem bootstrap_survives_restart:
  assumes "persist_laws E" "io_fault io ''read'' (BootstrapStatePath dataDir) = None"
    and "loadOrBootstrapIdentity E io dial rpc now R True td node addr token dataDir d = (Inr (svid, ca, dek), d')"
  shows "\<exists>c. ca = Some c \<and> LoadBootstrapState E io (BootstrapStatePath dataDir) d' = Inr (c, dek) \<and>
    (\<forall>dial' rpc' now' R' td' node' addr' token' r' d''.
       loadOrBootstrapIdentity E io dial' rpc' now' R' True td' node' addr' token' dataDir d' = (r', d'') \<longrightarrow>
       d'' = d' \<and> (case r' of Inr (svid', ca', dek') \<Rightarrow> ca' = ca \<and> dek' = dek | Inl err \<Rightarrow> issueSelf E now' R' node' c = Inl err))"
proof -
  from assms(3) obtain c where c: "bootstrapState E io now R td dataDir d = (Inr (c, dek), d')" "ca = Some c"
  proof -
    from assms(3) obtain a b d1 where b: "bootstrapState E io now R td dataDir d = (Inr (a, b), d1)"
      and r: "(case issueSelf E now R node a of Inl err \<Rightarrow> (Inl err, d1) | Inr svid \<Rightarrow> (Inr (svid, Some a, b), d1)) = (Inr (svid, ca, dek), d')"
      by (auto simp: loadOrBootstrapIdentity_def bindA_Inr)
    from r have "ca = Some a \<and> dek = b \<and> d' = d1" by (cases "issueSelf E now R node a") auto
    with b show thesis using that by simp
  qed
  note l = bootstrap_saved[OF assms(1,2) c(1)]
  have "bootstrapState E io now' R' td' dataDir d' = (Inr (c, dek), d')" for now' R' td'
    by (simp add: bootstrapState_def l)
  then have "loadOrBootstrapIdentity E io dial' rpc' now' R' True td' node' addr' token' dataDir d' =
      (case issueSelf E now' R' node' c of Inl err \<Rightarrow> (Inl err, d') | Inr svid' \<Rightarrow> (Inr (svid', Some c, dek), d'))"
    for dial' rpc' now' R' td' node' addr' token'
    by (simp add: loadOrBootstrapIdentity_def bindA_def)
  with c(2) l show ?thesis by (auto split: sum.splits)
qed

section \<open>Instances\<close>

text \<open>Certificates that are their one URI, an ASCII armour of two letters a byte, and one state that encodes.\<close>

definition ex_ca_x509 :: "(bytes, bytes, string) x509_env" where
  "ex_ca_x509 = \<lparr>ParseCertificateRequest = Inr, CheckSignature = (\<lambda>_. None), ecdsa_PublicKey = Some,
     CreateCertificate = (\<lambda>t. case tmpl_URIs t of [u] \<Rightarrow> if tmpl_NotAfter t = 3600000000000 then Inr u else Inl (ErrText [])
       | _ \<Rightarrow> Inl (ErrText [])),
     ParseCertificate = Inr, cert_Raw = id,
     spiffe_FromPath = (\<lambda>td path. Inr \<lparr>id_TrustDomain = td, id_Path = path\<rparr>),
     spiffe_String = (\<lambda>i. ''spiffe://'' @ id_TrustDomain i @ id_Path i)\<rparr>"

fun armour :: "bytes \<Rightarrow> string" where
  "armour [] = []"
| "armour (c # b) = char_of (65 + of_char c div 16 :: nat) # char_of (65 + of_char c mod 16 :: nat) # armour b"

fun unarmour :: "string \<Rightarrow> bytes option" where
  "unarmour [] = Some []"
| "unarmour [x] = None"
| "unarmour (x # y # s) = (case unarmour s of None \<Rightarrow> None
     | Some b \<Rightarrow> Some (char_of ((of_char x - 65) * 16 + (of_char y - 65) :: nat) # b))"

definition ex_saved :: persistedBootstrap where
  "ex_saved = \<lparr>pb_TrustDomain = ''nimbus'', pb_CAKeyPEM = armour ''cakey'', pb_CACertPEM = armour ''ca'', pb_DEK = ''dek''\<rparr>"

definition ex_ids :: "(string, bytes, bytes, string) id_env" where
  "ex_ids = \<lparr>ie_x509 = (\<lambda>c k. ex_ca_x509), ie_PublicKey = id, ie_CreateCSR = (\<lambda>n k. Inr k), ie_SelfSign = (\<lambda>t k. Inr ''ca''),
     ie_ParseCertificate = Inr, ie_Raw = id, ie_URIs = (\<lambda>c. [c]),
     ie_Verify = (\<lambda>leaf roots inter. None), ie_FromURI = ex_FromURI,
     ie_TrustDomain = (\<lambda>t. if t = ''nimbus'' then Inr t else Inl (ErrText [])),
     ie_MarshalKey = Inr, ie_ParseKey = Inr, ie_PemEncode = (\<lambda>t. armour), ie_PemDecode = unarmour,
     ie_MarshalState = (\<lambda>st. if st = ex_saved then Inr ''{}'' else Inl (ErrText [])), ie_UnmarshalState = (\<lambda>b. Inr ex_saved)\<rparr>"

lemma armour_chars:
  "(of_char (char_of (65 + of_char c div 16 :: nat) :: char) :: nat) = 65 + of_char c div 16"
  "(of_char (char_of (65 + of_char c mod 16 :: nat) :: char) :: nat) = 65 + of_char c mod 16"
proof -
  have "(of_char c :: nat) div 16 < 16" by (rule less_mult_imp_div_less) simp
  then show "(of_char (char_of (65 + of_char c div 16 :: nat) :: char) :: nat) = 65 + of_char c div 16" by simp
  have "(of_char c :: nat) mod 16 < 16" by simp
  then show "(of_char (char_of (65 + of_char c mod 16 :: nat) :: char) :: nat) = 65 + of_char c mod 16" by simp
qed

lemma unarmour_armour: "unarmour (armour b) = Some b"
proof (induction b)
  case (Cons c b)
  have "char_of ((of_char c :: nat) div 16 * 16 + of_char c mod 16) = c"
    unfolding div_mult_mod_eq by simp
  with Cons show ?case by (simp del: of_char_of add: armour_chars)
qed simp

lemma ascii_armour: "ascii (armour b)"
proof (induction b)
  case (Cons c b)
  have "(of_char c :: nat) < 256" by simp
  then have "65 + (of_char c :: nat) div 16 < 128" "65 + (of_char c :: nat) mod 16 < 128" by linarith+
  with Cons show ?case by (simp del: of_char_of add: ascii_def armour_chars)
qed (simp add: ascii_def)

lemma ex_persist: "persist_laws ex_ids"
  by (simp add: persist_laws_def ex_ids_def unarmour_armour ascii_armour split: if_split) (simp add: ascii_def)

lemma ex_ca_laws: "x509_laws ex_ca_x509 (ie_URIs ex_ids) (\<lambda>_. 3600000000000)" "id_laws ex_ids ex_ca_x509 ''nimbus''"
  by (auto simp: x509_laws_def id_laws_def ex_ca_x509_def ex_ids_def ex_FromURI_def split: list.splits if_splits)

definition ex_ca_service :: "string identityService" where
  "ex_ca_service = \<lparr>is_ca = \<lparr>ca_trustDomain = ''nimbus'', ca_cert = ''ca''\<rparr>, is_joinToken = ''t'', is_svidTTL = 0, is_dataEncryptionKey = ''key''\<rparr>"

definition ex_worker :: EnrollConfig where
  "ex_worker = \<lparr>ec_ControlPlaneAddr = ''cp:7443'', ec_JoinToken = ''t'', ec_Name = ''w1'', ec_Role = SVID_ROLE_NODE\<rparr>"

theorem renewal_keeps_identity_witness:
  "\<exists>svid ident. Enroll ex_ids (\<lambda>a. None) (\<lambda>addr. RequestSVID ex_ca_x509 ex_ca_service 0 (Inr 1)) (Inr ''k'') ex_worker = Inr (svid, []) \<and>
     id_Path ident = ''/node/w1'' \<and>
     SVID_ID ex_ids (reenroll_tick ex_ids (\<lambda>a. None) (\<lambda>addr. RequestSVID ex_ca_x509 ex_ca_service 0 (Inr 2)) (Inr ''k2'') ex_worker svid) = Inr ident"
proof -
  define svid where "svid = NewSVID ''k'' ''spiffe://nimbus/node/w1'' [''ca'']"
  have e: "Enroll ex_ids (\<lambda>a. None) (\<lambda>addr. RequestSVID ex_ca_x509 ex_ca_service 0 (Inr 1)) (Inr ''k'') ex_worker = Inr (svid, [])"
    unfolding svid_def by code_simp
  have l: "id_laws ex_ids ex_ca_x509 (ca_trustDomain (is_ca ex_ca_service))" using ex_ca_laws(2) by (simp add: ex_ca_service_def)
  have "role_path (ec_Role ex_worker) (ec_Name ex_worker) = Some ''/node/w1''" by (simp add: ex_worker_def)
  with renewal_keeps_identity[OF ex_ca_laws(1) l e] e show ?thesis by (metis option.inject)
qed

definition ex_draws :: "string draws" where
  "ex_draws = \<lparr>dr_caKey = Inr ''cakey'', dr_caSerial = Inr 1, dr_dek = Inr ''dek'', dr_key = Inr ''k'', dr_serial = Inr 2\<rparr>"

definition ex_calm :: io_env where
  "ex_calm = calm"

abbreviation ex_start :: "string \<Rightarrow> disk \<Rightarrow> ((string, string) SVID \<times> (string, string) keyedCA option \<times> bytes) res \<times> disk" where
  "ex_start td \<equiv> loadOrBootstrapIdentity ex_ids ex_calm (\<lambda>a. None) (\<lambda>a r. Inl (ErrText [])) 0 ex_draws True td ''n1'' [] [] ''/data''"

theorem bootstrap_survives_restart_witness:
  "\<exists>svid ca d. ex_start ''nimbus'' [] = (Inr (svid, ca, ''dek''), d) \<and> d \<noteq> [] \<and>
     (\<exists>s. ex_start ''other'' d = (Inr (s, ca, ''dek''), d))"
proof -
  define svid where "svid = fst (projr (fst (ex_start ''nimbus'' [])))"
  define ca where "ca = fst (snd (projr (fst (ex_start ''nimbus'' []))))"
  define d where "d = snd (ex_start ''nimbus'' [])"
  have run: "ex_start ''nimbus'' [] = (Inr (svid, ca, ''dek''), d)" unfolding svid_def ca_def d_def by code_simp
  have ne: "d \<noteq> []" unfolding d_def by code_simp
  have "io_fault ex_calm ''read'' (BootstrapStatePath ''/data'') = None" by (simp add: ex_calm_def)
  from bootstrap_survives_restart[OF ex_persist this run]
  have again: "\<And>r' d''. ex_start ''other'' d = (r', d'') \<Longrightarrow>
      d'' = d \<and> (case r' of Inr (s', ca', dek') \<Rightarrow> ca' = ca \<and> dek' = ''dek'' | Inl e \<Rightarrow> True)"
    by (fastforce split: sum.splits)
  have "\<not> isl (fst (ex_start ''other'' d))" unfolding d_def by code_simp
  then obtain x where "fst (ex_start ''other'' d) = Inr x" by (cases "fst (ex_start ''other'' d)") auto
  then obtain s ca' dek' d'' where "ex_start ''other'' d = (Inr (s, ca', dek'), d'')"
    by (cases x; cases "ex_start ''other'' d") auto
  with again[OF this] run ne show ?thesis by auto
qed

end
