(* ===== verification/Signing.thy ===== *)
theory Signing
  imports Images Enrolment
begin

text \<open>
  The image-signing chain on disk: the key files and the trust file of
  \<^verbatim>\<open>internal/imagesign/imagesign.go\<close>, the commands \<open>generate-key\<close> and \<open>sign-image\<close> of
  \<^verbatim>\<open>cmd/nimbusctl/imagesign.go\<close> that write them, and \<open>loadImageVerifier\<close> of
  \<^verbatim>\<open>cmd/nimbus-apiserver/main.go\<close> that reads them. The encodings (PEM, DER, JSON) are
  parameters; \<open>log.Fatal\<close> ends the process and is an error here.
\<close>

section \<open>Keys and trust files\<close>

record ('pub, 'priv) key_env =
  ke_PublicKey :: "'priv \<Rightarrow> 'pub"
  ke_MarshalPKIX :: "'pub \<Rightarrow> bytes res"
  ke_MarshalEC :: "'priv \<Rightarrow> bytes res"
  ke_ParsePKIX :: "bytes \<Rightarrow> 'pub option res"
  ke_ParseEC :: "bytes \<Rightarrow> 'priv res"
  ke_PemEncode :: "string \<Rightarrow> bytes \<Rightarrow> bytes"
  ke_PemDecode :: "bytes \<Rightarrow> bytes option"
  ke_MarshalTrust :: "TrustFile \<Rightarrow> bytes res"
  ke_UnmarshalTrust :: "bytes \<Rightarrow> TrustFile res"

definition MarshalPublicKey :: "('pub, 'priv) key_env \<Rightarrow> 'pub \<Rightarrow> bytes res" where
  "MarshalPublicKey K pub =
     (case ke_MarshalPKIX K pub of
        Inl err \<Rightarrow> Inl (ErrWrap ''imagesign: marshal public key'' err)
      | Inr der \<Rightarrow> Inr (ke_PemEncode K ''PUBLIC KEY'' der))"

definition MarshalPrivateKey :: "('pub, 'priv) key_env \<Rightarrow> 'priv \<Rightarrow> bytes res" where
  "MarshalPrivateKey K key =
     (case ke_MarshalEC K key of
        Inl err \<Rightarrow> Inl (ErrWrap ''imagesign: marshal private key'' err)
      | Inr der \<Rightarrow> Inr (ke_PemEncode K ''EC PRIVATE KEY'' der))"

text \<open>\<open>ke_ParsePKIX\<close> gives \<open>None\<close> for a key of another kind than ECDSA.\<close>

definition ParsePublicKey :: "('pub, 'priv) key_env \<Rightarrow> bytes \<Rightarrow> 'pub res" where
  "ParsePublicKey K pemBytes =
     (case ke_PemDecode K pemBytes of
        None \<Rightarrow> Inl (ErrText ''imagesign: no PEM block found'')
      | Some der \<Rightarrow> (case ke_ParsePKIX K der of
            Inl err \<Rightarrow> Inl (ErrWrap ''imagesign: parse public key'' err)
          | Inr None \<Rightarrow> Inl (ErrText ''imagesign: key is not ECDSA'')
          | Inr (Some pub) \<Rightarrow> Inr pub))"

definition ParsePrivateKey :: "('pub, 'priv) key_env \<Rightarrow> bytes \<Rightarrow> 'priv res" where
  "ParsePrivateKey K pemBytes =
     (case ke_PemDecode K pemBytes of
        None \<Rightarrow> Inl (ErrText ''imagesign: no PEM block found'')
      | Some der \<Rightarrow> ke_ParseEC K der)"

definition LoadTrustFile :: "('pub, 'priv) key_env \<Rightarrow> io_env \<Rightarrow> string \<Rightarrow> disk \<Rightarrow> TrustFile res" where
  "LoadTrustFile K io path d =
     (case os_ReadFile io path d of
        Inl err \<Rightarrow> if errors_Is err os_ErrNotExist then Inr \<lparr>tf_Signatures = []\<rparr> else Inl (ErrWrap ''imagesign: read trust file'' err)
      | Inr b \<Rightarrow> (case ke_UnmarshalTrust K b of
            Inl err \<Rightarrow> Inl (ErrWrap ''imagesign: parse trust file'' err)
          | Inr tf \<Rightarrow> Inr tf))"

definition TrustFile_Save :: "('pub, 'priv) key_env \<Rightarrow> io_env \<Rightarrow> string \<Rightarrow> TrustFile \<Rightarrow> (disk, unit) action" where
  "TrustFile_Save K io path tf d =
     (case ke_MarshalTrust K tf of
        Inl err \<Rightarrow> (Inl (ErrWrap ''imagesign: marshal trust file'' err), d)
      | Inr b \<Rightarrow> os_WriteFile io path b d)"

section \<open>Commands\<close>

definition privPath :: "string \<Rightarrow> string" where
  "privPath outDir = Join [outDir, ''image-signing-key.pem'']"

definition pubPath :: "string \<Rightarrow> string" where
  "pubPath outDir = Join [outDir, ''image-signing-key.pub.pem'']"

definition generate_key_cmd :: "('pub, 'priv) key_env \<Rightarrow> io_env \<Rightarrow> 'priv res \<Rightarrow> string \<Rightarrow> (disk, unit) action" where
  "generate_key_cmd K io draw outDir d =
     (case GenerateKey draw of
        Inl err \<Rightarrow> (Inl err, d)
      | Inr key \<Rightarrow>
     (case MarshalPrivateKey K key of
        Inl err \<Rightarrow> (Inl err, d)
      | Inr privPEM \<Rightarrow>
     (case MarshalPublicKey K (ke_PublicKey K key) of
        Inl err \<Rightarrow> (Inl err, d)
      | Inr pubPEM \<Rightarrow>
          bindA (os_MkdirAll io outDir) (\<lambda>_.
          bindA (os_WriteFile io (privPath outDir) privPEM) (\<lambda>_.
          os_WriteFile io (pubPath outDir) pubPEM)) d)))"

definition sign_image_cmd :: "('pub, 'priv) ecdsa \<Rightarrow> ('pub, 'priv) key_env \<Rightarrow> io_env \<Rightarrow> string \<Rightarrow> string \<Rightarrow> string \<Rightarrow> (disk, unit) action" where
  "sign_image_cmd E K io keyFile trustFile imageRef d =
     (case os_ReadFile io keyFile d of
        Inl err \<Rightarrow> (Inl (ErrWrap ''read key file'' err), d)
      | Inr keyPEM \<Rightarrow>
     (case ParsePrivateKey K keyPEM of
        Inl err \<Rightarrow> (Inl (ErrWrap ''parse key file'' err), d)
      | Inr key \<Rightarrow>
     (case imagesign_Sign E key imageRef of
        Inl err \<Rightarrow> (Inl (ErrWrap ''sign image'' err), d)
      | Inr sig \<Rightarrow>
     (case LoadTrustFile K io trustFile d of
        Inl err \<Rightarrow> (Inl (ErrWrap ''load trust file'' err), d)
      | Inr tf \<Rightarrow> wrapA ''save trust file'' (TrustFile_Save K io trustFile (TrustFile_Add imageRef sig tf)) d))))"

text \<open>\<open>Verify\<close> of \<open>allowAllVerifier\<close>.\<close>

definition allowAll_Verify :: "string \<Rightarrow> unit res" where
  "allowAll_Verify imageRef = Inr ()"

definition loadImageVerifier :: "('pub, 'priv) ecdsa \<Rightarrow> ('pub, 'priv) key_env \<Rightarrow> io_env \<Rightarrow> string \<Rightarrow> string \<Rightarrow> bool \<Rightarrow> disk \<Rightarrow>
    ((string \<Rightarrow> unit res) \<times> 'pub option) res" where
  "loadImageVerifier E K io trustFile pubKeyFile insecureSkip d =
     (if insecureSkip then Inr (allowAll_Verify, None)
      else if pubKeyFile = [] \<or> trustFile = [] then Inl (ErrText ''apiserver: -image-signing-pubkey and -image-trust-file are required'')
      else case os_ReadFile io pubKeyFile d of
        Inl err \<Rightarrow> Inl (ErrWrap ''apiserver: read image signing public key'' err)
      | Inr pubPEM \<Rightarrow>
     (case ParsePublicKey K pubPEM of
        Inl err \<Rightarrow> Inl (ErrWrap ''apiserver: parse image signing public key'' err)
      | Inr pub \<Rightarrow>
     (case LoadTrustFile K io trustFile d of
        Inl err \<Rightarrow> Inl (ErrWrap ''apiserver: load image trust file'' err)
      | Inr tf \<Rightarrow> Inr (KeyVerifier_Verify E pub tf, Some pub))))"

section \<open>From the command line to admission\<close>

text \<open>
  The encodings round trip (JSON on ASCII texts, up to the order of the entries), and ECDSA
  accepts what was signed with the matching key.
\<close>

definition ascii_trust :: "TrustFile \<Rightarrow> bool" where
  "ascii_trust tf \<longleftrightarrow> (\<forall>(k, v) \<in> set (tf_Signatures tf). ascii k \<and> ascii v)"

definition signing_laws :: "('pub, 'priv) ecdsa \<Rightarrow> ('pub, 'priv) key_env \<Rightarrow> bool" where
  "signing_laws E K \<longleftrightarrow>
     (\<forall>t b. ke_PemDecode K (ke_PemEncode K t b) = Some b) \<and>
     (\<forall>k b. ke_MarshalEC K k = Inr b \<longrightarrow> ke_ParseEC K b = Inr k) \<and>
     (\<forall>p b. ke_MarshalPKIX K p = Inr b \<longrightarrow> ke_ParsePKIX K b = Inr (Some p)) \<and>
     (\<forall>tf b. ke_MarshalTrust K tf = Inr b \<longrightarrow> ascii_trust tf \<longrightarrow>
        (\<exists>tf'. ke_UnmarshalTrust K b = Inr tf' \<and> map_of (tf_Signatures tf') = map_of (tf_Signatures tf))) \<and>
     (\<forall>k d sg. SignASN1 E k d = Inr sg \<longrightarrow> VerifyASN1 E (ke_PublicKey K k) d sg)"

lemma ascii_b64_char: "(of_char (b64_char n) :: nat) < 128"
  by (auto simp: b64_char_def)

lemma ascii_EncodeToString: "ascii (EncodeToString b)"
proof -
  have "ascii (b64_encode ns)" for ns
    by (induction ns rule: b64_encode.induct) (simp_all add: ascii_def ascii_b64_char)
  then show ?thesis by (simp add: EncodeToString_def)
qed

lemma ascii_Add:
  assumes "ascii_trust tf" "ascii imageRef"
  shows "ascii_trust (TrustFile_Add imageRef sig tf)"
  using assms ascii_EncodeToString[of sig] set_update_subset[of imageRef "EncodeToString sig" "tf_Signatures tf"]
  by (fastforce simp: ascii_trust_def TrustFile_Add_def)

lemma KeyVerifier_cong: "map_of (tf_Signatures tf) = map_of (tf_Signatures tf') \<Longrightarrow> KeyVerifier_Verify E pub tf = KeyVerifier_Verify E pub tf'"
  by (simp add: KeyVerifier_Verify_def fun_eq_iff)

lemma read_other:
  assumes "os_WriteFile io p b d = (Inr (), d')" "dkey q \<noteq> dkey p"
  shows "os_ReadFile io q d' = os_ReadFile io q d"
proof -
  have "snd (dkey p) \<noteq> []" using WriteFile_ok[OF assms(1)] by (simp add: dkey_def)
  from node_at_update[OF this] WriteFile_ok[OF assms(1)] assms(2) have "node_at d' (dkey q) = node_at d (dkey q)" by auto
  then show ?thesis unfolding os_ReadFile_def by (simp split: option.split)
qed

lemma key_paths_differ: "outDir \<noteq> [] \<Longrightarrow> dkey (privPath outDir) \<noteq> dkey (pubPath outDir)"
  by (simp add: dkey_def privPath_def pubPath_def elems_Join_plain plain_def)

text \<open>What the two commands leave on disk.\<close>

lemma generated_keys:
  assumes "signing_laws E K" "outDir \<noteq> []" "generate_key_cmd K io draw outDir d = (Inr (), d')"
    and "io_fault io ''read'' (privPath outDir) = None" "io_fault io ''read'' (pubPath outDir) = None"
  obtains key privPEM pubPEM where "draw = Inr key" "os_ReadFile io (privPath outDir) d' = Inr privPEM" "ParsePrivateKey K privPEM = Inr key"
    "os_ReadFile io (pubPath outDir) d' = Inr pubPEM" "ParsePublicKey K pubPEM = Inr (ke_PublicKey K key)"
proof -
  from assms(3) obtain key privPEM pubPEM d1 d2 where k: "draw = Inr key" "MarshalPrivateKey K key = Inr privPEM"
      "MarshalPublicKey K (ke_PublicKey K key) = Inr pubPEM"
    and w: "os_WriteFile io (privPath outDir) privPEM d1 = (Inr (), d2)" "os_WriteFile io (pubPath outDir) pubPEM d2 = (Inr (), d')"
    by (auto simp: generate_key_cmd_def GenerateKey_def bindA_Inr split: sum.splits)
  have "ParsePrivateKey K privPEM = Inr key" "ParsePublicKey K pubPEM = Inr (ke_PublicKey K key)"
    using k(2,3) assms(1) unfolding signing_laws_def
    by (auto simp: MarshalPrivateKey_def MarshalPublicKey_def ParsePrivateKey_def ParsePublicKey_def split: sum.splits)
  moreover have "os_ReadFile io (privPath outDir) d' = Inr privPEM"
    using read_other[OF w(2) key_paths_differ[OF assms(2)]] read_written[OF w(1) assms(4)] by simp
  ultimately show thesis using that[of key privPEM pubPEM] k(1) read_written[OF w(2) assms(5)] by blast
qed

lemma signed_trust:
  assumes "signing_laws E K" "sign_image_cmd E K io keyFile trustFile imageRef d = (Inr (), d')" "ascii imageRef"
    and "\<And>tf. LoadTrustFile K io trustFile d = Inr tf \<Longrightarrow> ascii_trust tf" "io_fault io ''read'' trustFile = None"
    and "os_ReadFile io keyFile d = Inr keyPEM" "ParsePrivateKey K keyPEM = Inr key"
  obtains tf tf' sig where "LoadTrustFile K io trustFile d = Inr tf" "imagesign_Sign E key imageRef = Inr sig"
    "LoadTrustFile K io trustFile d' = Inr tf'" "map_of (tf_Signatures tf') = map_of (tf_Signatures (TrustFile_Add imageRef sig tf))"
    "\<forall>q. dkey q \<noteq> dkey trustFile \<longrightarrow> os_ReadFile io q d' = os_ReadFile io q d"
proof -
  from assms(2,6,7) obtain sig tf b where s: "imagesign_Sign E key imageRef = Inr sig" "LoadTrustFile K io trustFile d = Inr tf"
    and m: "ke_MarshalTrust K (TrustFile_Add imageRef sig tf) = Inr b" and w: "os_WriteFile io trustFile b d = (Inr (), d')"
    by (auto simp: sign_image_cmd_def TrustFile_Save_def split: sum.splits)
  have "ascii_trust (TrustFile_Add imageRef sig tf)" using ascii_Add[OF assms(4)[OF s(2)] assms(3)] .
  with m assms(1) obtain tf' where "ke_UnmarshalTrust K b = Inr tf'"
    "map_of (tf_Signatures tf') = map_of (tf_Signatures (TrustFile_Add imageRef sig tf))"
    unfolding signing_laws_def by blast
  with s read_written[OF w assms(5)] read_other[OF w] show thesis
    by (intro that[of tf sig tf']) (simp_all add: LoadTrustFile_def)
qed

text \<open>
  C33: an image signed on the command line is admitted by the API server. After \<open>generate-key\<close> and
  \<open>sign-image\<close> with the generated key, the verifier that an API server loads from the public-key
  file and the trust file accepts the image, and it decides every other image as the verifier
  of the trust file before the signing did.
\<close>

theorem signed_image_admitted:
  assumes "signing_laws E K" "outDir \<noteq> []" "trustFile \<noteq> []" "ascii imageRef"
    and "\<And>p. io_fault io ''read'' p = None" "dkey trustFile \<noteq> dkey (pubPath outDir)"
    and "generate_key_cmd K io draw outDir d = (Inr (), d1)"
    and "\<And>tf. LoadTrustFile K io trustFile d1 = Inr tf \<Longrightarrow> ascii_trust tf"
    and "sign_image_cmd E K io (privPath outDir) trustFile imageRef d1 = (Inr (), d2)"
  shows "\<exists>verify pub tf. loadImageVerifier E K io trustFile (pubPath outDir) False d2 = Inr (verify, Some pub) \<and>
    verify imageRef = Inr () \<and> LoadTrustFile K io trustFile d1 = Inr tf \<and>
    (\<forall>other. other \<noteq> imageRef \<longrightarrow> verify other = KeyVerifier_Verify E pub tf other)"
proof -
  obtain key privPEM pubPEM where k: "os_ReadFile io (privPath outDir) d1 = Inr privPEM" "ParsePrivateKey K privPEM = Inr key"
    "os_ReadFile io (pubPath outDir) d1 = Inr pubPEM" "ParsePublicKey K pubPEM = Inr (ke_PublicKey K key)"
    by (rule generated_keys[OF assms(1,2,7) assms(5,5)])
  obtain tf tf' sig where t: "LoadTrustFile K io trustFile d1 = Inr tf" "imagesign_Sign E key imageRef = Inr sig"
    "LoadTrustFile K io trustFile d2 = Inr tf'" "map_of (tf_Signatures tf') = map_of (tf_Signatures (TrustFile_Add imageRef sig tf))"
    "\<forall>q. dkey q \<noteq> dkey trustFile \<longrightarrow> os_ReadFile io q d2 = os_ReadFile io q d1"
    by (rule signed_trust[OF assms(1,9,4,8) assms(5) k(1,2)]) blast+
  have ne: "pubPath outDir \<noteq> []" using assms(2) by (simp add: pubPath_def)
  have "loadImageVerifier E K io trustFile (pubPath outDir) False d2 = Inr (KeyVerifier_Verify E (ke_PublicKey K key) tf', Some (ke_PublicKey K key))"
    using t(3) t(5)[rule_format, OF assms(6)[symmetric]] k(3,4) ne assms(3) by (simp add: loadImageVerifier_def)
  moreover have "KeyVerifier_Verify E (ke_PublicKey K key) tf' = KeyVerifier_Verify E (ke_PublicKey K key) (TrustFile_Add imageRef sig tf)"
    by (rule KeyVerifier_cong[OF t(4)])
  moreover have "VerifyASN1 E (ke_PublicKey K key) (sha256 E imageRef) sig"
    using t(2) assms(1) unfolding signing_laws_def imagesign_Sign_def by blast
  ultimately show ?thesis
    using t(1) by (simp add: KeyVerifier_Verify_def TrustFile_Add_def imagesign_Verify_def)
qed

section \<open>Instance\<close>

definition ex_keys :: "(string, string) key_env" where
  "ex_keys = \<lparr>ke_PublicKey = id, ke_MarshalPKIX = Inr, ke_MarshalEC = Inr, ke_ParsePKIX = (\<lambda>b. Inr (Some b)), ke_ParseEC = Inr,
     ke_PemEncode = (\<lambda>t b. b), ke_PemDecode = Some,
     ke_MarshalTrust = (\<lambda>tf. if tf_Signatures tf = [(''app'', EncodeToString ''kppa'')] then Inr ''{}'' else Inl (ErrText [])),
     ke_UnmarshalTrust = (\<lambda>b. Inr \<lparr>tf_Signatures = [(''app'', EncodeToString ''kppa'')]\<rparr>)\<rparr>"

definition ex_signer :: "(string, string) ecdsa" where
  "ex_signer = \<lparr>sha256 = rev, SignASN1 = (\<lambda>k d. Inr (k @ d)), VerifyASN1 = (\<lambda>p d s. s = p @ d)\<rparr>"

lemma ex_signing: "signing_laws ex_signer ex_keys"
  by (auto simp: signing_laws_def ex_signer_def ex_keys_def split: if_splits)

theorem signed_image_admitted_witness:
  "\<exists>verify pub. loadImageVerifier ex_signer ex_keys ex_calm ''/trust.json'' (pubPath ''/keys'') False
      (snd (sign_image_cmd ex_signer ex_keys ex_calm (privPath ''/keys'') ''/trust.json'' ''app''
        (snd (generate_key_cmd ex_keys ex_calm (Inr ''k'') ''/keys'' [])))) = Inr (verify, Some pub) \<and> verify ''app'' = Inr ()"
proof -
  define d1 where "d1 = snd (generate_key_cmd ex_keys ex_calm (Inr ''k'') ''/keys'' [])"
  define d2 where "d2 = snd (sign_image_cmd ex_signer ex_keys ex_calm (privPath ''/keys'') ''/trust.json'' ''app'' d1)"
  have g: "generate_key_cmd ex_keys ex_calm (Inr ''k'') ''/keys'' [] = (Inr (), d1)" unfolding d1_def by code_simp
  have s: "sign_image_cmd ex_signer ex_keys ex_calm (privPath ''/keys'') ''/trust.json'' ''app'' d1 = (Inr (), d2)"
    unfolding d2_def d1_def by code_simp
  have l: "LoadTrustFile ex_keys ex_calm ''/trust.json'' d1 = Inr \<lparr>tf_Signatures = []\<rparr>" unfolding d1_def by code_simp
  have "ascii_trust tf" if "LoadTrustFile ex_keys ex_calm ''/trust.json'' d1 = Inr tf" for tf
  proof -
    from that l have "tf = \<lparr>tf_Signatures = []\<rparr>" by simp
    then show ?thesis by (simp add: ascii_trust_def)
  qed
  moreover have "ascii ''app''" "dkey ''/trust.json'' \<noteq> dkey (pubPath ''/keys'')" by (simp add: ascii_def) code_simp
  moreover have "io_fault ex_calm ''read'' p = None" for p by (simp add: ex_calm_def)
  ultimately show ?thesis
    using signed_image_admitted[OF ex_signing, where outDir = "''/keys''" and trustFile = "''/trust.json''" and imageRef = "''app''" and
      io = ex_calm, OF _ _ _ _ _ g _ s] unfolding d2_def[symmetric] d1_def[symmetric] by blast
qed

end
