(* ===== verification/Commands.thy ===== *)
theory Commands
  imports Session Enrolment ApiServices Services
begin

text \<open>
  The programs' own logic: \<^verbatim>\<open>cmd/nimbusctl\<close> (its configuration file, the connection, and the
  commands \<open>apply\<close>, \<open>get\<close>, \<open>delete\<close>, \<open>run\<close> and \<open>config\<close>), the registration and the heartbeat of
  \<^verbatim>\<open>cmd/nimbus-agent/main.go\<close>, and the flag helpers of \<^verbatim>\<open>cmd/nimbus-apiserver/main.go\<close>. The remote
  API is a record of actions on the server's state; a command returns the lines it prints, a
  table as its rows of cells (\<open>text/tabwriter\<close> lays them out). \<open>log.Fatal\<close> is an error.
  \<open>strings.TrimSpace\<close> trims the white space of ASCII.
\<close>

section \<open>Flags\<close>

definition is_space :: "char \<Rightarrow> bool" where
  "is_space c \<longleftrightarrow> c \<in> {CHR '' '', CHR 0x09, CHR 0x0A, CHR 0x0B, CHR 0x0C, CHR 0x0D}"

definition TrimSpace :: "string \<Rightarrow> string" where
  "TrimSpace s = rev (dropWhile is_space (rev (dropWhile is_space s)))"

definition splitCSV :: "string \<Rightarrow> string list" where
  "splitCSV s = (if s = [] then [] else filter (\<lambda>p. p \<noteq> []) (map TrimSpace (split_on (CHR '','') s)))"

definition defaultNodeID :: "string res \<Rightarrow> string" where
  "defaultNodeID hostname = (case hostname of Inl err \<Rightarrow> ''node'' | Inr host \<Rightarrow> if host = [] then ''node'' else host)"

definition defaultNodeName :: "string res \<Rightarrow> string" where
  "defaultNodeName hostname = (case hostname of Inl err \<Rightarrow> ''node'' | Inr host \<Rightarrow> if host = [] then ''node'' else host)"

definition defaultClientName :: "string res \<Rightarrow> string" where
  "defaultClientName hostname =
     ''nimbusctl-'' @ (case hostname of Inl err \<Rightarrow> ''client'' | Inr host \<Rightarrow> if host = [] then ''client'' else host)"

fun accelerators_loop :: "string list \<Rightarrow> (string, int64) gomap \<Rightarrow> (string, int64) gomap res" where
  "accelerators_loop [] out = Inr out"
| "accelerators_loop (e # es) out =
     (let entry = TrimSpace e
      in if entry = [] then accelerators_loop es out
         else (case Cut entry (CHR ''='') of (name, countStr, ok) \<Rightarrow>
                 if \<not> ok then Inl (ErrText ''agent: invalid -accelerators entry, want name=count'')
                 else (case Atoi (TrimSpace countStr) of
                         None \<Rightarrow> Inl (ErrText ''agent: invalid count in -accelerators entry'')
                       | Some n \<Rightarrow> accelerators_loop es (AList.update (TrimSpace name) n out))))"

definition parseAccelerators :: "string \<Rightarrow> (string, int64) gomap res" where
  "parseAccelerators s = (if s = [] then Inr [] else accelerators_loop (split_on (CHR '','') s) [])"

section \<open>The node's agent\<close>

definition registration :: "string \<Rightarrow> ResourceList \<Rightarrow> int64 \<Rightarrow> string \<Rightarrow> Node" where
  "registration nodeName capacity now internalIP =
     \<lparr>node_metadata = Some (zero_ObjectMeta\<lparr>meta_name := nodeName\<rparr>), node_spec = None,
      node_status = Some (zero_NodeStatus\<lparr>nst_ready := True, nst_capacity := Some capacity, nst_allocatable := Some capacity,
        nst_last_heartbeat_unix := now, nst_internal_ip := internalIP\<rparr>)\<rparr>"

text \<open>The address: the flag, or the local address of a datagram socket to the control plane.\<close>

definition internal_ip :: "string \<Rightarrow> string res \<Rightarrow> string res" where
  "internal_ip nodeIP detected =
     (if nodeIP \<noteq> [] then Inr nodeIP
      else case detected of Inl err \<Rightarrow> Inl (ErrWrap ''agent: detect node IP'' err) | Inr ip \<Rightarrow> Inr ip)"

text \<open>The calls a tick of \<open>heartbeatLoop\<close> makes; its error is logged.\<close>

definition heartbeat_tick :: "(string \<Rightarrow> ResourceList option \<Rightarrow> ResourceList option \<Rightarrow> ('w, bool) action) \<Rightarrow> string \<Rightarrow> ResourceList \<Rightarrow> ('w, unit) action" where
  "heartbeat_tick rpc_Heartbeat name capacity = logA (rpc_Heartbeat name (Some capacity) (Some capacity))"

section \<open>The client's configuration\<close>

record nimbusConfig =
  nc_ControlPlaneAddr :: string
  nc_JoinToken :: string
  nc_ClientName :: string

definition zeroConfig :: nimbusConfig where
  "zeroConfig = \<lparr>nc_ControlPlaneAddr = [], nc_JoinToken = [], nc_ClientName = []\<rparr>"

record ctl_env =
  ct_home :: "string res"
  ct_hostname :: "string res"
  ct_getenv :: "string \<Rightarrow> string"
  ct_Marshal :: "nimbusConfig \<Rightarrow> bytes res"
  ct_Unmarshal :: "bytes \<Rightarrow> nimbusConfig res"

definition configPath :: "ctl_env \<Rightarrow> string res" where
  "configPath T =
     (case ct_home T of
        Inl err \<Rightarrow> Inl (ErrWrap ''resolve home directory'' err)
      | Inr home \<Rightarrow> Inr (Join [home, ''.nimbus'', ''config.json'']))"

definition loadConfig :: "ctl_env \<Rightarrow> io_env \<Rightarrow> disk \<Rightarrow> nimbusConfig" where
  "loadConfig T io d =
     (case configPath T of
        Inl err \<Rightarrow> zeroConfig
      | Inr path \<Rightarrow> (case os_ReadFile io path d of
            Inl err \<Rightarrow> zeroConfig
          | Inr raw \<Rightarrow> (case ct_Unmarshal T raw of Inl err \<Rightarrow> zeroConfig | Inr cfg \<Rightarrow> cfg)))"

definition saveConfig :: "ctl_env \<Rightarrow> io_env \<Rightarrow> nimbusConfig \<Rightarrow> (disk, string) action" where
  "saveConfig T io cfg d =
     (case configPath T of
        Inl err \<Rightarrow> (Inl err, d)
      | Inr path \<Rightarrow>
          bindA (wrapA ''create'' (os_MkdirAll io (Dir path))) (\<lambda>_ d.
            case ct_Marshal T cfg of
              Inl err \<Rightarrow> (Inl err, d)
            | Inr raw \<Rightarrow> bindA (wrapA ''write'' (os_WriteFile io path raw)) (\<lambda>_. ret path) d) d)"

fun firstNonEmpty :: "string list \<Rightarrow> string" where
  "firstNonEmpty [] = []"
| "firstNonEmpty (v # vals) = (if v \<noteq> [] then v else firstNonEmpty vals)"

text \<open>The defaults of the persistent flags in \<open>main\<close>.\<close>

definition flag_defaults :: "ctl_env \<Rightarrow> nimbusConfig \<Rightarrow> nimbusConfig" where
  "flag_defaults T cfg =
     \<lparr>nc_ControlPlaneAddr = firstNonEmpty [ct_getenv T ''NIMBUS_API_ADDR'', nc_ControlPlaneAddr cfg],
      nc_JoinToken = firstNonEmpty [ct_getenv T ''NIMBUS_JOIN_TOKEN'', nc_JoinToken cfg],
      nc_ClientName = firstNonEmpty [nc_ClientName cfg, defaultClientName (ct_hostname T)]\<rparr>"

definition merge_context :: "string \<Rightarrow> string \<Rightarrow> string \<Rightarrow> nimbusConfig \<Rightarrow> nimbusConfig" where
  "merge_context addr token name cfg =
     (let cfg = (if addr \<noteq> [] then cfg\<lparr>nc_ControlPlaneAddr := addr\<rparr> else cfg);
          cfg = (if token \<noteq> [] then cfg\<lparr>nc_JoinToken := token\<rparr> else cfg)
      in if name \<noteq> [] then cfg\<lparr>nc_ClientName := name\<rparr> else cfg)"

definition set_context_cmd :: "ctl_env \<Rightarrow> io_env \<Rightarrow> string \<Rightarrow> string \<Rightarrow> string \<Rightarrow> (disk, string list) action" where
  "set_context_cmd T io addr token name d =
     (if addr = [] \<and> token = [] \<and> name = [] then (Inl (ErrText ''nothing to save''), d)
      else bindA (saveConfig T io (merge_context addr token name (loadConfig T io d))) (\<lambda>path. ret [''saved '' @ path]) d)"

definition config_view_cmd :: "ctl_env \<Rightarrow> io_env \<Rightarrow> disk \<Rightarrow> string list res" where
  "config_view_cmd T io d =
     (case configPath T of
        Inl err \<Rightarrow> Inl err
      | Inr path \<Rightarrow>
          (let cfg = loadConfig T io d
           in Inr [''config file:        '' @ path, ''control-plane-addr: '' @ nc_ControlPlaneAddr cfg,
                   ''join-token:         '' @ nc_JoinToken cfg, ''client-name:        '' @ nc_ClientName cfg]))"

section \<open>The client's commands\<close>

text \<open>The API at the other end of a connection.\<close>

record 'w api_client =
  ac_CreatePod :: "Pod \<Rightarrow> ('w, Pod) action"
  ac_CreateDeployment :: "Deployment \<Rightarrow> ('w, Deployment) action"
  ac_CreateNode :: "Node \<Rightarrow> ('w, Node) action"
  ac_CreateService :: "Service \<Rightarrow> ('w, Service) action"
  ac_ListPods :: "string \<Rightarrow> ('w, Pod list) action"
  ac_ListNodes :: "('w, Node list) action"
  ac_ListDeployments :: "string \<Rightarrow> ('w, Deployment list) action"
  ac_ListServices :: "string \<Rightarrow> ('w, Service list) action"
  ac_DeletePod :: "string \<Rightarrow> string \<Rightarrow> ('w, unit) action"
  ac_DeleteNode :: "string \<Rightarrow> ('w, unit) action"
  ac_DeleteDeployment :: "string \<Rightarrow> string \<Rightarrow> ('w, unit) action"

text \<open>\<open>NewClient\<close> is \<open>grpc.NewClient\<close> with the identity of the client; the result is that identity.\<close>

definition ctl_dial :: "('key, 'csr, 'pub, 'cert) id_env \<Rightarrow> (string \<Rightarrow> error option) \<Rightarrow> (string \<Rightarrow> RequestSVIDRequest \<Rightarrow> RequestSVIDResponse res) \<Rightarrow>
    'key res \<Rightarrow> nimbusConfig \<Rightarrow> ('key, 'cert) SVID res" where
  "ctl_dial E NewClient rpc draw cfg =
     (if nc_ControlPlaneAddr cfg = [] then Inl (ErrText ''--control-plane-addr (or $NIMBUS_API_ADDR) is required'')
      else if nc_JoinToken cfg = [] then Inl (ErrText ''--join-token (or $NIMBUS_JOIN_TOKEN) is required'')
      else case Enroll E NewClient rpc draw \<lparr>ec_ControlPlaneAddr = nc_ControlPlaneAddr cfg, ec_JoinToken = nc_JoinToken cfg,
                  ec_Name = nc_ClientName cfg, ec_Role = SVID_ROLE_CLIENT\<rparr> of
        Inl err \<Rightarrow> Inl (ErrWrap ''enroll with control plane'' err)
      | Inr (svid, dek) \<Rightarrow>
          (case SVID_ID E svid of
             Inl err \<Rightarrow> Inl err
           | Inr selfID \<Rightarrow> (case NewClient (nc_ControlPlaneAddr cfg) of Some err \<Rightarrow> Inl (ErrWrap ''dial'' err) | None \<Rightarrow> Inr svid)))"

record manifest_codec =
  mc_kind :: "bytes \<Rightarrow> string res"
  mc_pod :: "bytes \<Rightarrow> Pod res"
  mc_deployment :: "bytes \<Rightarrow> Deployment res"
  mc_node :: "bytes \<Rightarrow> Node res"
  mc_service :: "bytes \<Rightarrow> Service res"

text \<open>One case of the switch over the kinds: decode, create, report.\<close>

definition apply_as :: "string \<Rightarrow> string \<Rightarrow> (bytes \<Rightarrow> 'o res) \<Rightarrow> ('o \<Rightarrow> ('w, 'o) action) \<Rightarrow> ('o \<Rightarrow> ObjectMeta option) \<Rightarrow> bytes \<Rightarrow>
    ('w, string list) action" where
  "apply_as parseErr what decode create meta raw w =
     (case decode raw of
        Inl err \<Rightarrow> (Inl (ErrWrap parseErr err), w)
      | Inr x \<Rightarrow> bindA (create x) (\<lambda>applied. ret [what @ ObjectMeta_GetName (meta applied) @ '' applied'']) w)"

text \<open>\<open>conn\<close> is the outcome of \<open>ctl_dial\<close>.\<close>

definition apply_cmd :: "manifest_codec \<Rightarrow> 'w api_client \<Rightarrow> ('key, 'cert) SVID res \<Rightarrow> io_env \<Rightarrow> disk \<Rightarrow> string \<Rightarrow> ('w, string list) action" where
  "apply_cmd M C conn io d file w =
     (case os_ReadFile io file d of
        Inl err \<Rightarrow> (Inl (ErrWrap ''read'' err), w)
      | Inr raw \<Rightarrow>
     (case mc_kind M raw of
        Inl err \<Rightarrow> (Inl (ErrWrap ''parse'' err), w)
      | Inr kind \<Rightarrow>
          if kind = [] then (Inl (ErrText ''missing required kind field (Pod, Deployment, Node, Service)''), w)
          else case conn of
            Inl err \<Rightarrow> (Inl err, w)
          | Inr svid \<Rightarrow>
              if kind = ''Pod'' then apply_as ''parse Pod manifest'' ''pod/'' (mc_pod M) (ac_CreatePod C) pod_metadata raw w
              else if kind = ''Deployment''
              then apply_as ''parse Deployment manifest'' ''deployment/'' (mc_deployment M) (ac_CreateDeployment C) dep_metadata raw w
              else if kind = ''Node'' then apply_as ''parse Node manifest'' ''node/'' (mc_node M) (ac_CreateNode C) node_metadata raw w
              else if kind = ''Service''
              then apply_as ''parse Service manifest'' ''service/'' (mc_service M) (ac_CreateService C) svc_metadata raw w
              else (Inl (ErrText ''unsupported kind (supported: Pod, Deployment, Node, Service)''), w)))"

definition delete_cmd :: "'w api_client \<Rightarrow> ('key, 'cert) SVID res \<Rightarrow> string \<Rightarrow> string \<Rightarrow> string \<Rightarrow> ('w, string list) action" where
  "delete_cmd C conn namespace resource name w =
     (case conn of
        Inl err \<Rightarrow> (Inl err, w)
      | Inr svid \<Rightarrow>
          if resource \<in> {''pods'', ''pod''}
          then bindA (ac_DeletePod C namespace name) (\<lambda>_. ret [''pod/'' @ name @ '' deleted'']) w
          else if resource \<in> {''nodes'', ''node''}
          then bindA (ac_DeleteNode C name) (\<lambda>_. ret [''node/'' @ name @ '' deleted'']) w
          else if resource \<in> {''deployments'', ''deployment'', ''deploy''}
          then bindA (ac_DeleteDeployment C namespace name) (\<lambda>_. ret [''deployment/'' @ name @ '' deleted'']) w
          else (Inl (ErrText ''unknown resource (supported: pods, nodes, deployments)''), w))"

fun phase_String :: "PodPhase \<Rightarrow> string" where
  "phase_String POD_PHASE_UNSPECIFIED = ''POD_PHASE_UNSPECIFIED''"
| "phase_String POD_PHASE_PENDING = ''POD_PHASE_PENDING''"
| "phase_String POD_PHASE_RUNNING = ''POD_PHASE_RUNNING''"
| "phase_String POD_PHASE_SUCCEEDED = ''POD_PHASE_SUCCEEDED''"
| "phase_String POD_PHASE_FAILED = ''POD_PHASE_FAILED''"
| "phase_String POD_PHASE_UNKNOWN = ''POD_PHASE_UNKNOWN''"

definition getPods :: "'w api_client \<Rightarrow> string \<Rightarrow> ('w, string list list) action" where
  "getPods C namespace = bindA (ac_ListPods C namespace) (\<lambda>items.
     ret ([''NAME'', ''NAMESPACE'', ''PHASE'', ''NODE'', ''RESTARTS''] #
       map (\<lambda>p. [pod_name p, pod_namespace p, phase_String (pod_phase p), pod_node p,
         FormatInt (PodStatus_GetRestartCount (pod_status p))]) items))"

definition getNodes :: "'w api_client \<Rightarrow> ('w, string list list) action" where
  "getNodes C = bindA (ac_ListNodes C) (\<lambda>items.
     ret ([''NAME'', ''READY'', ''INTERNAL-IP'', ''CPU-ALLOCATABLE'', ''MEMORY-ALLOCATABLE''] #
       map (\<lambda>n. [node_name n, (if node_ready n then ''true'' else ''false''), NodeStatus_GetInternalIp (node_status n),
         FormatInt (ResourceList_GetCpuMillis (NodeStatus_GetAllocatable (node_status n))) @ ''m'',
         FormatInt (ResourceList_GetMemoryBytes (NodeStatus_GetAllocatable (node_status n)))]) items))"

definition getServices :: "'w api_client \<Rightarrow> string \<Rightarrow> ('w, string list list) action" where
  "getServices C namespace = bindA (ac_ListServices C namespace) (\<lambda>items.
     ret ([''NAME'', ''NAMESPACE'', ''PORT'', ''ENDPOINTS''] #
       map (\<lambda>s. let endpoints = join_with '','' (map (\<lambda>e. ep_node_ip e @ '':'' @ FormatInt (ep_node_port e))
                    (ServiceStatus_GetEndpoints (svc_status s)))
             in [svc_name s, svc_namespace s, FormatInt (ServiceSpec_GetPort (svc_spec s)),
                 if endpoints = [] then ''<none>'' else endpoints]) items))"

definition getDeployments :: "'w api_client \<Rightarrow> string \<Rightarrow> ('w, string list list) action" where
  "getDeployments C namespace = bindA (ac_ListDeployments C namespace) (\<lambda>items.
     ret ([''NAME'', ''NAMESPACE'', ''REPLICAS'', ''READY''] #
       map (\<lambda>d. [dep_name d, dep_namespace d, FormatInt (dep_replicas d),
         FormatInt (DeploymentStatus_GetReadyReplicas (dep_status d))]) items))"

definition get_cmd :: "'w api_client \<Rightarrow> ('key, 'cert) SVID res \<Rightarrow> string \<Rightarrow> bool \<Rightarrow> string \<Rightarrow> ('w, string list list) action" where
  "get_cmd C conn namespace allNamespaces resource w =
     (case conn of
        Inl err \<Rightarrow> (Inl err, w)
      | Inr svid \<Rightarrow>
          (let ns = (if allNamespaces then [] else namespace)
           in if resource \<in> {''pods'', ''pod''} then getPods C ns w
              else if resource \<in> {''nodes'', ''node''} then getNodes C w
              else if resource \<in> {''deployments'', ''deployment'', ''deploy''} then getDeployments C ns w
              else if resource \<in> {''services'', ''service'', ''svc''} then getServices C ns w
              else (Inl (ErrText ''unknown resource (supported: pods, nodes, deployments, services)''), w)))"

definition run_container :: "string \<Rightarrow> string \<Rightarrow> string list \<Rightarrow> int32 list \<Rightarrow> Container" where
  "run_container name img command ports =
     \<lparr>ctr_name = name, ctr_image = img, ctr_resources = None, ctr_security_context = None, ctr_command = command,
      ctr_wasm_module_path = [], ctr_container_ports = ports, ctr_env = [], ctr_build_source = None\<rparr>"

definition run_pod :: "string \<Rightarrow> string \<Rightarrow> Container \<Rightarrow> Pod" where
  "run_pod name namespace c =
     \<lparr>pod_metadata = Some (zero_ObjectMeta\<lparr>meta_name := name, meta_namespace := namespace, meta_labels := [(''app'', name)]\<rparr>),
      pod_spec = Some (zero_PodSpec\<lparr>ps_containers := [c]\<rparr>), pod_status = None\<rparr>"

definition run_deployment :: "string \<Rightarrow> string \<Rightarrow> int32 \<Rightarrow> Container \<Rightarrow> Deployment" where
  "run_deployment name namespace replicas c =
     \<lparr>dep_metadata = Some (zero_ObjectMeta\<lparr>meta_name := name, meta_namespace := namespace\<rparr>),
      dep_spec = Some \<lparr>ds_replicas = replicas, ds_selector = [(''app'', name)],
        ds_template = Some (zero_PodSpec\<lparr>ps_containers := [c]\<rparr>), ds_min_replicas = 0, ds_max_replicas = 0\<rparr>,
      dep_status = None\<rparr>"

text \<open>\<open>dash\<close> is the number of arguments before \<open>--\<close>, if there is one.\<close>

definition run_cmd :: "'w api_client \<Rightarrow> ('key, 'cert) SVID res \<Rightarrow> string list \<Rightarrow> nat option \<Rightarrow> string \<Rightarrow> string \<Rightarrow> int32 \<Rightarrow> int32 list \<Rightarrow>
    ('w, string list) action" where
  "run_cmd C conn args dash img namespace replicas ports w =
     (let nameArgs = (case dash of None \<Rightarrow> args | Some n \<Rightarrow> take n args);
          command = (case dash of None \<Rightarrow> [] | Some n \<Rightarrow> drop n args)
      in case nameArgs of
           [name] \<Rightarrow>
             (let container = run_container name img command ports
              in case conn of
                   Inl err \<Rightarrow> (Inl err, w)
                 | Inr svid \<Rightarrow>
                     if replicas \<le> 1
                     then bindA (ac_CreatePod C (run_pod name namespace container)) (\<lambda>applied. ret [''pod/'' @ pod_name applied @ '' created'']) w
                     else bindA (ac_CreateDeployment C (run_deployment name namespace replicas container))
                            (\<lambda>applied. ret [''deployment/'' @ dep_name applied @ '' created'']) w)
         | _ \<Rightarrow> (Inl (ErrText ''expected exactly one resource name''), w))"

section \<open>Flags that were printed\<close>

text \<open>A word: something that trimming and splitting leave alone.\<close>

definition word :: "string \<Rightarrow> bool" where
  "word s \<longleftrightarrow> s \<noteq> [] \<and> (\<forall>c \<in> set s. \<not> is_space c \<and> c \<noteq> CHR '','' \<and> c \<noteq> CHR ''='')"

lemma TrimSpace_id: "\<forall>c \<in> set s. \<not> is_space c \<Longrightarrow> TrimSpace s = s"
proof -
  assume s: "\<forall>c \<in> set s. \<not> is_space c"
  have "dropWhile is_space s = s" "dropWhile is_space (rev s) = rev s"
    using s by (auto simp: dropWhile_eq_self_iff hd_rev)
  then show ?thesis by (simp add: TrimSpace_def)
qed

lemma digits_plain: "c \<in> set (Itoa n) \<Longrightarrow> \<not> is_space c \<and> c \<noteq> CHR '',''"
  using Itoa_digits[of n] by (auto simp: list_all_iff is_digit_def is_space_def)

definition print_accelerators :: "(string \<times> nat) list \<Rightarrow> string" where
  "print_accelerators xs = join_with '','' (map (\<lambda>(name, n). name @ ''='' @ Itoa n) xs)"

lemma accelerators_loop_printed:
  assumes "\<forall>(name, n) \<in> set xs. word name \<and> int n \<le> MaxInt64" "distinct (map fst xs)" "fst ` set out \<inter> fst ` set xs = {}"
  shows "accelerators_loop (map (\<lambda>(name, n). name @ ''='' @ Itoa n) xs) out = Inr (out @ map (\<lambda>(name, n). (name, int n)) xs)"
  using assms
proof (induction xs arbitrary: out)
  case (Cons x xs)
  obtain name n where x: "x = (name, n)" by fastforce
  from Cons.prems(1) x have w: "word name" "int n \<le> MaxInt64" by auto
  have t: "TrimSpace (name @ ''='' @ Itoa n) = name @ ''='' @ Itoa n" "TrimSpace name = name" "TrimSpace (Itoa n) = Itoa n"
  proof -
    have "\<not> is_space (CHR ''='')" by (simp add: is_space_def)
    moreover have sp: "\<forall>c \<in> set name. \<not> is_space c" "\<forall>c \<in> set (Itoa n). \<not> is_space c"
      using w(1) digits_plain[of _ n] by (simp_all add: word_def)
    ultimately have "\<forall>c \<in> set (name @ ''='' @ Itoa n). \<not> is_space c" by (simp add: ball_Un)
    with sp(1,2) show "TrimSpace (name @ ''='' @ Itoa n) = name @ ''='' @ Itoa n" "TrimSpace name = name" "TrimSpace (Itoa n) = Itoa n"
      using TrimSpace_id by blast+
  qed
  have c: "Cut (name @ CHR ''='' # Itoa n) (CHR ''='') = (name, Itoa n, True)"
    by (rule Cut_first) (use w(1) in \<open>auto simp: word_def\<close>)
  have fresh: "name \<notin> fst ` set out" using Cons.prems(3) x by auto
  have "AList.update name (int n) out = out @ [(name, int n)]"
    using fresh by (induction out) auto
  moreover have "accelerators_loop (map (\<lambda>(name, n). name @ ''='' @ Itoa n) xs) (out @ [(name, int n)]) =
      Inr ((out @ [(name, int n)]) @ map (\<lambda>(name, n). (name, int n)) xs)"
    using Cons.prems x by (intro Cons.IH) auto
  ultimately show ?case
    using t c Atoi_Itoa[OF w(2)] by (simp add: x)
qed simp

lemma accelerators_printed:
  assumes "xs \<noteq> []" "\<forall>(name, n) \<in> set xs. word name \<and> int n \<le> MaxInt64" "distinct (map fst xs)"
  shows "parseAccelerators (print_accelerators xs) = Inr (map (\<lambda>(name, n). (name, int n)) xs)"
proof -
  let ?es = "map (\<lambda>(name, n). name @ ''='' @ Itoa n) xs"
  have "CHR '','' \<notin> set (name @ ''='' @ Itoa n)" if "(name, n) \<in> set xs" for name n
    using bspec[OF assms(2) that] digits_plain[of "CHR '',''" n] by (auto simp: word_def)
  then have "\<forall>e \<in> set ?es. CHR '','' \<notin> set e" by auto
  then have "split_on (CHR '','') (print_accelerators xs) = ?es"
    using split_join[of ?es "CHR '',''"] assms(1) by (simp add: print_accelerators_def)
  moreover have "print_accelerators xs \<noteq> []"
    using calculation assms(1) by (cases xs) (auto simp: print_accelerators_def split: list.splits)
  ultimately show ?thesis
    using accelerators_loop_printed[OF assms(2,3), of "[]"] by (simp add: parseAccelerators_def)
qed

section \<open>A restarted agent\<close>

text \<open>
  The agent registers by creating its node: what was stored for the node is replaced, so a node
  that was marked unschedulable is schedulable again after its agent restarts.
\<close>

lemma registration_uncordons:
  assumes "registry_laws S good repr CN" "good s"
    and "CreateNode (reg_New S kNodes CN) (Some (registration name capacity now ip)) s = (Inr n, s')"
  shows "\<exists>x. obj_at repr CN kNodes s' (key_of kNodes [] name) = Some x \<and> \<not> NodeSpec_GetUnschedulable (node_spec x) \<and> node_ready x"
proof -
  have "reg_Put (reg_New S kNodes CN) [] name (registration name capacity now ip) s = (Inr (), s')"
    using assms(3) by (auto simp: CreateNode_def registration_def api_put_Inr invalid_def throw_def split: if_splits)
  from registry_laws.reg_Put_ok(2)[OF assms(1,2) this] show ?thesis by (simp add: registration_def)
qed

section \<open>The saved configuration\<close>

lemma context_saved:
  assumes "\<And>b. ct_Marshal T (merge_context addr token name (loadConfig T io d)) = Inr b \<Longrightarrow>
      ct_Unmarshal T b = Inr (merge_context addr token name (loadConfig T io d))" "\<And>p. io_fault io ''read'' p = None"
    and "set_context_cmd T io addr token name d = (Inr out, d')"
  shows "loadConfig T io d' = merge_context addr token name (loadConfig T io d)"
proof -
  let ?cfg = "merge_context addr token name (loadConfig T io d)"
  from assms(3) obtain x where sv: "saveConfig T io ?cfg d = (Inr x, d')"
    by (auto simp: set_context_cmd_def bindA_Inr ret_def split: if_splits)
  then obtain path where p: "configPath T = Inr path" by (cases "configPath T") (auto simp: saveConfig_def)
  obtain raw d1 where m: "ct_Marshal T ?cfg = Inr raw" and w: "os_WriteFile io path raw d1 = (Inr (), d')"
    using sv p by (cases "ct_Marshal T ?cfg") (auto simp: saveConfig_def bindA_Inr ret_def)
  from read_written[OF w assms(2)] p assms(1)[OF m] show ?thesis by (simp add: loadConfig_def)
qed

end
