(* ===== verification/Wasm.thy ===== *)
theory Wasm
  imports Containers
begin

text \<open>
  The rest of the WebAssembly runtime (\<open>internal/wasmrt/runtime.go\<close>): closing it, and calling one
  exported function of a module. wazero is a parameter: a module is instantiated in a runtime,
  has exported functions, and is closed.
\<close>

record ('w, 'm, 'fn) wazero =
  wa_Instantiate :: "nat \<Rightarrow> bytes \<Rightarrow> ('w, 'm) action"
  wa_ExportedFunction :: "'m \<Rightarrow> string \<Rightarrow> 'fn option"
  wa_Call :: "'fn \<Rightarrow> nat list \<Rightarrow> ('w, nat list) action"
  wa_CloseModule :: "'m \<Rightarrow> 'w \<Rightarrow> 'w"

definition wasmrt_Close :: "('w, 'i) host \<Rightarrow> nat \<Rightarrow> 'w \<Rightarrow> 'w" where
  "wasmrt_Close H rt w = wz_Close H rt w"

text \<open>\<open>defer mod.Close(ctx)\<close>: whatever the rest yields, the module is closed afterwards.\<close>

definition deferring :: "('w \<Rightarrow> 'w) \<Rightarrow> ('w, 'a) action \<Rightarrow> ('w, 'a) action" where
  "deferring close a w = (case a w of (r, w') \<Rightarrow> (r, close w'))"

definition CallFunc :: "('w, 'm, 'fn) wazero \<Rightarrow> nat \<Rightarrow> bytes \<Rightarrow> string \<Rightarrow> nat list \<Rightarrow> ('w, nat list) action" where
  "CallFunc W rt wasmBytes funcName args =
     bindA (wrapA ''wasmrt: instantiate module'' (wa_Instantiate W rt wasmBytes)) (\<lambda>modl.
     deferring (wa_CloseModule W modl)
       (case wa_ExportedFunction W modl funcName of
          None \<Rightarrow> throw (ErrText ''wasmrt: function not exported'')
        | Some fn \<Rightarrow> wrapA ''wasmrt: call'' (wa_Call W fn args)))"

text \<open>
  A module that was instantiated is closed on every path: the last thing a call does to the
  world is to close the module, whether the function was missing, failed or returned.
\<close>

lemma CallFunc_closes:
  assumes "wa_Instantiate W rt wasmBytes w = (Inr modl, w1)" "CallFunc W rt wasmBytes funcName args w = (r, w')"
  shows "\<exists>w2. w' = wa_CloseModule W modl w2 \<and>
    (case wa_ExportedFunction W modl funcName of
       None \<Rightarrow> w2 = w1 \<and> isl r
     | Some fn \<Rightarrow> w2 = snd (wa_Call W fn args w1) \<and> (\<forall>res. r = Inr res \<longleftrightarrow> fst (wa_Call W fn args w1) = Inr res))"
  using assms
  by (auto simp: CallFunc_def bindA_def wrapA_def deferring_def throw_def split: option.splits sum.splits prod.splits)

end
