(* ===== verification/ControlPlane.thy ===== *)
theory ControlPlane
  imports Dashboard Commands Images Leader Controllers
begin

text \<open>
  The control plane as \<^verbatim>\<open>cmd/nimbus-apiserver/main.go\<close> puts it together: the constructors of the
  services, the registries and services on one store, the admission chain, the controllers and
  the dashboard; then one incoming call at a time. An RPC goes through the interceptor to the
  handler of its method, an HTTP request to the dashboard, and a tick of a controller runs one
  pass. Joining the Raft cluster, issuing certificates and the federation registry have state
  of their own and are not calls here.
\<close>

section \<open>Constructors of the services\<close>

abbreviation "kNamespaces \<equiv> ''namespaces''"
abbreviation "kSecrets \<equiv> ''secrets''"
abbreviation "kPolicies \<equiv> ''policies''"
abbreviation "kNetworkPolicies \<equiv> ''networkpolicies''"

definition NewNodeService :: "('s, 'b) Store \<Rightarrow> (Node, 'b) codec \<Rightarrow> ('s, 'b, Node) Registry" where
  "NewNodeService s newFn = reg_New s kNodes newFn"

definition NewNamespaceService :: "('s, 'b) Store \<Rightarrow> (Namespace, 'b) codec \<Rightarrow> ('s, 'b, Namespace) Registry" where
  "NewNamespaceService s newFn = reg_New s kNamespaces newFn"

definition NewSecretService :: "('s, 'b) Store \<Rightarrow> (Secret, 'b) codec \<Rightarrow> ('s, 'b, Secret) Registry" where
  "NewSecretService s newFn = reg_New s kSecrets newFn"

definition NewNetworkPolicyService :: "('s, 'b) Store \<Rightarrow> (NetworkPolicy, 'b) codec \<Rightarrow> ('s, 'b, NetworkPolicy) Registry" where
  "NewNetworkPolicyService s newFn = reg_New s kNetworkPolicies newFn"

record ('s, 'b, 'ast, 'p) policyService =
  pls_policies :: "('s, 'b, Policy) Registry"
  pls_engine :: "('ast, 'p) cel_env"

definition NewPolicyService :: "('s, 'b) Store \<Rightarrow> (Policy, 'b) codec \<Rightarrow> ('ast, 'p) cel_env \<Rightarrow> ('s, 'b, 'ast, 'p) policyService" where
  "NewPolicyService s newFn engine = \<lparr>pls_policies = reg_New s kPolicies newFn, pls_engine = engine\<rparr>"

record ('s, 'b, 'v) volumeService =
  vls_volumes :: "('s, 'b, Volume) Registry"
  vls_csi :: "'v CSIController"

definition NewVolumeService :: "('s, 'b) Store \<Rightarrow> (Volume, 'b) codec \<Rightarrow> 'v CSIController \<Rightarrow> ('s, 'b, 'v) volumeService" where
  "NewVolumeService s newFn driver = \<lparr>vls_volumes = reg_New s kVolumes newFn, vls_csi = driver\<rparr>"

text \<open>\<open>irs_verify\<close> is \<open>imagesign.Verify\<close> with the service's public key.\<close>

record ('s, 'b) imageRegistryService =
  irs_images :: "('s, 'b, ImageRecord) Registry"
  irs_verify :: "string \<Rightarrow> bytes \<Rightarrow> unit res"

definition NewImageRegistryService :: "('s, 'b) Store \<Rightarrow> (ImageRecord, 'b) codec \<Rightarrow> ('pub, 'priv) ecdsa \<Rightarrow> 'pub \<Rightarrow>
    ('s, 'b) imageRegistryService" where
  "NewImageRegistryService s newFn E pub = \<lparr>irs_images = reg_New s kImages newFn, irs_verify = imagesign_Verify E pub\<rparr>"

record ('s, 'b, 'f) finopsService =
  fin_pods :: "('s, 'b, Pod) Registry"
  fin_model :: "'f CostModel"

definition NewFinOpsService :: "('s, 'b, Pod) Registry \<Rightarrow> 'f CostModel \<Rightarrow> ('s, 'b, 'f) finopsService" where
  "NewFinOpsService pods model = \<lparr>fin_pods = pods, fin_model = model\<rparr>"

section \<open>Flags\<close>

text \<open>The flags of \<open>nimbus-apiserver\<close>; durations in nanoseconds.\<close>

record 'f apiserver_flags =
  af_nodeID :: string
  af_apiAddr :: string
  af_raftAddr :: string
  af_dataDir :: string
  af_trustDomain :: string
  af_bootstrap :: bool
  af_joinAddr :: string
  af_joinToken :: string
  af_imagePubKeyFile :: string
  af_imageTrustFile :: string
  af_insecureSkipImageVerification :: bool
  af_allowedCapabilities :: string
  af_cpuQuotaMillis :: int64
  af_memQuotaBytes :: int64
  af_otelExporter :: string
  af_otlpEndpoint :: string
  af_csiHostpathDir :: string
  af_secretKeyRotationInterval :: int
  af_gitOpsRepoURL :: string
  af_gitOpsBranch :: string
  af_gitOpsPath :: string
  af_gitOpsWorkDir :: string
  af_gitOpsSyncInterval :: int
  af_costCPUCoreHour :: 'f
  af_costMemoryGBHour :: 'f
  af_dashboardAddr :: string
  af_dashboardUsername :: string
  af_dashboardPassword :: string
  af_agentLogPort :: int
  af_agentFilesPort :: int

section \<open>The parts on one store\<close>

record 'b codecs =
  co_Pod :: "(Pod, 'b) codec"
  co_Node :: "(Node, 'b) codec"
  co_Deployment :: "(Deployment, 'b) codec"
  co_Volume :: "(Volume, 'b) codec"
  co_Service :: "(Service, 'b) codec"
  co_Namespace :: "(Namespace, 'b) codec"
  co_Policy :: "(Policy, 'b) codec"
  co_NetworkPolicy :: "(NetworkPolicy, 'b) codec"
  co_Secret :: "(Secret, 'b) codec"
  co_ImageRecord :: "(ImageRecord, 'b) codec"

text \<open>
  What \<open>main\<close> has made by the time it builds the services: the policy engine, the image
  verifier with its public key if there is one, the CSI driver, and the predicate on trust
  domains. \<open>pt_FromURI\<close> is the parser of SPIFFE identities and \<open>pt_float\<close> the arithmetic of
  the cost model.
\<close>

record ('ast, 'p, 'v, 'f, 'pub, 'priv) cp_parts =
  pt_engine :: "('ast, 'p) cel_env"
  pt_Verify :: "string \<Rightarrow> unit res"
  pt_ecdsa :: "('pub, 'priv) ecdsa"
  pt_imageSigningPub :: "'pub option"
  pt_csi :: "'v CSIController"
  pt_expectMember :: "spiffe_ID \<Rightarrow> error option"
  pt_FromURI :: "string \<Rightarrow> spiffe_ID res"
  pt_float :: "'f float_ops"

text \<open>The value \<open>finops.CostModel{CPUCoreHour: ..., MemoryGBHour: ...}\<close> and the quota of the flags.\<close>

definition cost_model :: "'f apiserver_flags \<Rightarrow> 'f CostModel" where
  "cost_model fl = \<lparr>cm_CPUCoreHour = af_costCPUCoreHour fl, cm_MemoryGBHour = af_costMemoryGBHour fl, cm_AcceleratorHour = []\<rparr>"

definition flag_quota :: "'f apiserver_flags \<Rightarrow> ResourceList" where
  "flag_quota fl = \<lparr>rl_cpu_millis = af_cpuQuotaMillis fl, rl_memory_bytes = af_memQuotaBytes fl, rl_accelerators = []\<rparr>"

definition admissionChain :: "'f apiserver_flags \<Rightarrow> ('ast, 'p, 'v, 'f, 'pub, 'priv) cp_parts \<Rightarrow> 'b codecs \<Rightarrow> ('s, 'b) Store \<Rightarrow>
    ('s, 'p) adm_state Validator list" where
  "admissionChain fl pt co S =
     admission_chain (splitCSV (af_allowedCapabilities fl)) (pt_Verify pt) (reg_New S kPods (co_Pod co))
       (Some (flag_quota fl)) (pt_engine pt) (reg_New S kPolicies (co_Policy co)) (reg_New S kVolumes (co_Volume co))"

record ('s, 'b, 'ast, 'p, 'v, 'f) control_plane =
  cp_FromURI :: "string \<Rightarrow> spiffe_ID res"
  cp_expectMember :: "spiffe_ID \<Rightarrow> error option"
  cp_authz :: Authorizer
  cp_float :: "'f float_ops"
  cp_podSvc :: "('s, 'b, 'p) podService"
  cp_nodeSvc :: "('s, 'b, Node) Registry"
  cp_deploymentSvc :: "('s, 'b, 'p) deploymentService"
  cp_volumeSvc :: "('s, 'b, 'v) volumeService"
  cp_networkPolicySvc :: "('s, 'b, NetworkPolicy) Registry"
  cp_serviceSvc :: "('s, 'b) serviceService"
  cp_namespaceSvc :: "('s, 'b, Namespace) Registry"
  cp_policySvc :: "('s, 'b, 'ast, 'p) policyService"
  cp_secretSvc :: "('s, 'b, Secret) Registry"
  cp_backupSvc :: "('s, 'b) Store"
  cp_finopsSvc :: "('s, 'b, 'f) finopsService"
  cp_imageSvc :: "('s, 'b) imageRegistryService option"

text \<open>The services \<open>main\<close> registers with the gRPC server.\<close>

definition register_services :: "'f apiserver_flags \<Rightarrow> ('ast, 'p, 'v, 'f, 'pub, 'priv) cp_parts \<Rightarrow> 'b codecs \<Rightarrow> ('s, 'b) Store \<Rightarrow>
    ('s, 'b, 'ast, 'p, 'v, 'f) control_plane" where
  "register_services fl pt co S =
     \<lparr>cp_FromURI = pt_FromURI pt, cp_expectMember = pt_expectMember pt, cp_authz = DefaultRBACBindings, cp_float = pt_float pt,
      cp_podSvc = NewPodService S (co_Pod co) (admissionChain fl pt co S),
      cp_nodeSvc = NewNodeService S (co_Node co),
      cp_deploymentSvc = NewDeploymentService S (co_Deployment co) (co_Pod co) (admissionChain fl pt co S),
      cp_volumeSvc = NewVolumeService S (co_Volume co) (pt_csi pt),
      cp_networkPolicySvc = NewNetworkPolicyService S (co_NetworkPolicy co),
      cp_serviceSvc = NewServiceService S (co_Service co) (co_Pod co) (co_Node co),
      cp_namespaceSvc = NewNamespaceService S (co_Namespace co),
      cp_policySvc = NewPolicyService S (co_Policy co) (pt_engine pt),
      cp_secretSvc = NewSecretService S (co_Secret co),
      cp_backupSvc = S,
      cp_finopsSvc = NewFinOpsService (reg_New S kPods (co_Pod co)) (cost_model fl),
      cp_imageSvc = map_option (NewImageRegistryService S (co_ImageRecord co) (pt_ecdsa pt)) (pt_imageSigningPub pt)\<rparr>"

text \<open>The configuration of the dashboard. \<open>gs\<close> is what \<open>Status\<close> of the GitOps reconciler gives, if there is one.\<close>

definition dashboard_config :: "'f apiserver_flags \<Rightarrow> 'b codecs \<Rightarrow> ('s, 'b) Store \<Rightarrow> ('s, 'b, 'ast, 'p, 'v, 'f) control_plane \<Rightarrow>
    gitops_Status option \<Rightarrow> ('s, 'b, 'p, 'v, 'f) dash_Config" where
  "dashboard_config fl co S cp gs =
     \<lparr>dc_Nodes = reg_New S kNodes (co_Node co), dc_Pods = reg_New S kPods (co_Pod co),
      dc_DeploymentSvc = cp_deploymentSvc cp, dc_Services = cp_serviceSvc cp, dc_Namespaces = cp_namespaceSvc cp,
      dc_Volumes = vls_volumes (cp_volumeSvc cp), dc_CSI = vls_csi (cp_volumeSvc cp), dc_GitOps = gs,
      dc_CostModel = cost_model fl, dc_Username = af_dashboardUsername fl, dc_Password = af_dashboardPassword fl,
      dc_AgentLogPort = af_agentLogPort fl, dc_AgentFilesPort = af_agentFilesPort fl\<rparr>"

section \<open>Controllers\<close>

record ('s, 'b) controllers =
  ct_deployment :: "('s, 'b) DeploymentReconciler"
  ct_pod :: "('s, 'b) PodReconciler"
  ct_health :: "('s, 'b) NodeHealthReconciler"
  ct_hpa :: "('s, 'b) HorizontalAutoscaler"
  ct_rotation :: KeyRotationReconciler
  ct_gitops :: "('s, 'b) Reconciler option"

text \<open>The controllers \<open>main\<close> makes, and the names under which it registers them.\<close>

definition new_controllers :: "'f apiserver_flags \<Rightarrow> 'b codecs \<Rightarrow> ('s, 'b) Store \<Rightarrow> ('s, 'b) controllers" where
  "new_controllers fl co S =
     (let nodes = reg_New S kNodes (co_Node co); deployments = reg_New S kDeployments (co_Deployment co);
          pods = reg_New S kPods (co_Pod co); volumes = reg_New S kVolumes (co_Volume co)
      in \<lparr>ct_deployment = NewDeploymentReconciler deployments pods nodes volumes Schedule 0,
          ct_pod = NewPodReconciler pods nodes Schedule 0,
          ct_health = NewNodeHealthReconciler nodes 0 0,
          ct_hpa = NewHorizontalAutoscaler deployments pods nodes 0,
          ct_rotation = NewKeyRotationReconciler (af_secretKeyRotationInterval fl),
          ct_gitops = (if af_gitOpsRepoURL fl \<noteq> []
            then Some (NewReconciler \<lparr>gc_RepoURL = af_gitOpsRepoURL fl, gc_Branch = af_gitOpsBranch fl, gc_Path = af_gitOpsPath fl,
                   gc_WorkDir = af_gitOpsWorkDir fl\<rparr> deployments (af_gitOpsSyncInterval fl))
            else None)\<rparr>)"

definition register_controllers :: "('s, 'b) controllers \<Rightarrow> Manager" where
  "register_controllers ct =
     (let mgr = Register ''secret-key-rotator'' (Register ''horizontal-autoscaler'' (Register ''node-health-controller''
        (Register ''pod-controller'' (Register ''deployment-controller'' NewManager))))
      in if ct_gitops ct = None then mgr else Register gitops_Name mgr)"

section \<open>Remote procedure calls\<close>

text \<open>
  The requests, with the fields the handlers read. Most services have the same four methods;
  those of a cluster-wide kind do not read the namespace.
\<close>

datatype 't object_rpc = OCreate "'t option" | OGet string string | OList string | ODelete string string

datatype 'b rpc =
    PodRpc "Pod object_rpc" | UpdatePodStatusRpc string string "PodStatus option"
  | NodeRpc "Node object_rpc" | HeartbeatRpc string "ResourceList option" "ResourceList option"
  | DeploymentRpc "Deployment object_rpc" | NamespaceRpc "Namespace object_rpc" | VolumeRpc "Volume object_rpc"
  | NetworkPolicyRpc "NetworkPolicy object_rpc" | ServiceRpc "Service object_rpc" | PolicyRpc "Policy object_rpc"
  | SecretRpc "Secret object_rpc" | PushImageRpc string bytes | GetImageRpc string | ListImagesRpc | DeleteImageRpc string
  | CreateBackupRpc | RestoreBackupRpc "(string, 'b) gomap" | GetCostReportRpc string string

datatype 't object_reply = Obj 't | Items "'t list" | Empty

datatype ('b, 'f) rpc_reply =
    PodReply "Pod object_reply" | NodeReply "Node object_reply" | BeatReply bool | DeploymentReply "Deployment object_reply"
  | NamespaceReply "Namespace object_reply" | VolumeReply "Volume object_reply" | NetworkPolicyReply "NetworkPolicy object_reply"
  | ServiceReply "Service object_reply" | PolicyReply "Policy object_reply" | SecretReply "Secret object_reply"
  | ImageReply "ImageRecord object_reply" | BackupReply "(string, 'b) gomap" | RestoreReply int32 | ReportReply "'f Report"

text \<open>The full name of the method: the service, the verb and the kind, in the plural for a list.\<close>

primrec object_method :: "string \<Rightarrow> string \<Rightarrow> string \<Rightarrow> 't object_rpc \<Rightarrow> string" where
  "object_method svc one many (OCreate x) = ''/nimbuscore.v1.'' @ svc @ ''/Create'' @ one"
| "object_method svc one many (OGet ns name) = ''/nimbuscore.v1.'' @ svc @ ''/Get'' @ one"
| "object_method svc one many (OList ns) = ''/nimbuscore.v1.'' @ svc @ ''/List'' @ many"
| "object_method svc one many (ODelete ns name) = ''/nimbuscore.v1.'' @ svc @ ''/Delete'' @ one"

primrec FullMethod :: "'b rpc \<Rightarrow> string" where
  "FullMethod (PodRpc r) = object_method ''PodService'' ''Pod'' ''Pods'' r"
| "FullMethod (UpdatePodStatusRpc ns name st) = ''/nimbuscore.v1.PodService/UpdatePodStatus''"
| "FullMethod (NodeRpc r) = object_method ''NodeService'' ''Node'' ''Nodes'' r"
| "FullMethod (HeartbeatRpc name cap alloc) = ''/nimbuscore.v1.NodeService/Heartbeat''"
| "FullMethod (DeploymentRpc r) = object_method ''DeploymentService'' ''Deployment'' ''Deployments'' r"
| "FullMethod (NamespaceRpc r) = object_method ''NamespaceService'' ''Namespace'' ''Namespaces'' r"
| "FullMethod (VolumeRpc r) = object_method ''VolumeService'' ''Volume'' ''Volumes'' r"
| "FullMethod (NetworkPolicyRpc r) = object_method ''NetworkPolicyService'' ''NetworkPolicy'' ''NetworkPolicies'' r"
| "FullMethod (ServiceRpc r) = object_method ''ServiceService'' ''Service'' ''Services'' r"
| "FullMethod (PolicyRpc r) = object_method ''PolicyService'' ''Policy'' ''Policies'' r"
| "FullMethod (SecretRpc r) = object_method ''SecretService'' ''Secret'' ''Secrets'' r"
| "FullMethod (PushImageRpc ref sig) = ''/nimbuscore.v1.ImageRegistryService/PushImage''"
| "FullMethod (GetImageRpc ref) = ''/nimbuscore.v1.ImageRegistryService/GetImage''"
| "FullMethod ListImagesRpc = ''/nimbuscore.v1.ImageRegistryService/ListImages''"
| "FullMethod (DeleteImageRpc ref) = ''/nimbuscore.v1.ImageRegistryService/DeleteImage''"
| "FullMethod CreateBackupRpc = ''/nimbuscore.v1.BackupService/CreateBackup''"
| "FullMethod (RestoreBackupRpc es) = ''/nimbuscore.v1.BackupService/RestoreBackup''"
| "FullMethod (GetCostReportRpc ns key) = ''/nimbuscore.v1.FinOpsService/GetCostReport''"

definition mapA :: "('a \<Rightarrow> 'c) \<Rightarrow> ('s, 'a) action \<Rightarrow> ('s, 'c) action" where
  "mapA f a = bindA a (\<lambda>x. ret (f x))"

text \<open>The four handlers of a service, by the request.\<close>

primrec object_handler :: "('t option \<Rightarrow> ('w, 't) action) \<Rightarrow> (string \<Rightarrow> string \<Rightarrow> ('w, 't) action) \<Rightarrow> (string \<Rightarrow> ('w, 't list) action) \<Rightarrow>
    (string \<Rightarrow> string \<Rightarrow> ('w, unit) action) \<Rightarrow> 't object_rpc \<Rightarrow> ('w, 't object_reply) action" where
  "object_handler create get list delete (OCreate x) = mapA Obj (create x)"
| "object_handler create get list delete (OGet ns name) = mapA Obj (get ns name)"
| "object_handler create get list delete (OList ns) = mapA Items (list ns)"
| "object_handler create get list delete (ODelete ns name) = mapA (\<lambda>_. Empty) (delete ns name)"

text \<open>A call of a service that is not registered ends with \<open>Unimplemented\<close> before the interceptor sees it.\<close>

definition registered :: "'a option \<Rightarrow> ('a \<Rightarrow> ('s, 'r) action) \<Rightarrow> ('s, 'r) action" where
  "registered svc f = (case svc of None \<Rightarrow> throw (ErrStatus Unimplemented ''unknown service'') | Some x \<Rightarrow> f x)"

text \<open>
  The handler of each method; \<open>now\<close> is in nanoseconds since the epoch, \<open>caller\<close> the result of
  \<open>PeerSPIFFEID\<close>.
\<close>

type_synonym ('s, 'b, 'p, 'v, 'f) rpc_action = "(('s, 'p, 'v) dash_world, ('b, 'f) rpc_reply) action"

primrec rpc_handler :: "('s, 'b, 'ast, 'p, 'v, 'f) control_plane \<Rightarrow> int \<Rightarrow> spiffe_ID res \<Rightarrow> 'b rpc \<Rightarrow> ('s, 'b, 'p, 'v, 'f) rpc_action" where
  "rpc_handler cp now caller (PodRpc r) = (let svc = cp_podSvc cp in
     mapA PodReply (object_handler (\<lambda>x. onAdm (CreatePod svc x)) (\<lambda>ns n. onDash (GetPod svc ns n))
       (\<lambda>ns. onDash (ListPods svc ns)) (\<lambda>ns n. onDash (DeletePod svc ns n)) r))"
| "rpc_handler cp now caller (UpdatePodStatusRpc ns name st) =
     mapA (\<lambda>p. PodReply (Obj p)) (onDash (UpdatePodStatus (cp_podSvc cp) caller ns name st))"
| "rpc_handler cp now caller (NodeRpc r) = (let svc = cp_nodeSvc cp in
     mapA NodeReply (object_handler (\<lambda>x. onDash (CreateNode svc x)) (\<lambda>ns n. onDash (GetNode svc n))
       (\<lambda>ns. onDash (ListNodes svc)) (\<lambda>ns n. onDash (DeleteNode svc n)) r))"
| "rpc_handler cp now caller (HeartbeatRpc name cap alloc) =
     mapA BeatReply (onDash (Heartbeat (cp_nodeSvc cp) (now div Second) name cap alloc))"
| "rpc_handler cp now caller (DeploymentRpc r) = (let svc = cp_deploymentSvc cp in
     mapA DeploymentReply (object_handler (\<lambda>x. onAdm (CreateDeployment svc x)) (\<lambda>ns n. onDash (GetDeployment svc ns n))
       (\<lambda>ns. onDash (ListDeployments svc ns)) (\<lambda>ns n. onDash (DeleteDeployment svc ns n)) r))"
| "rpc_handler cp now caller (NamespaceRpc r) = (let svc = cp_namespaceSvc cp in
     mapA NamespaceReply (object_handler (\<lambda>x. onDash (CreateNamespace svc x)) (\<lambda>ns n. onDash (GetNamespace svc n))
       (\<lambda>ns. onDash (ListNamespaces svc)) (\<lambda>ns n. onDash (DeleteNamespace svc n)) r))"
| "rpc_handler cp now caller (VolumeRpc r) = (let vols = vls_volumes (cp_volumeSvc cp); csi = vls_csi (cp_volumeSvc cp) in
     mapA VolumeReply (object_handler (\<lambda>x. onVolumes (CreateVolume vols csi x)) (\<lambda>ns n. onDash (GetVolume vols ns n))
       (\<lambda>ns. onDash (ListVolumes vols ns)) (\<lambda>ns n. onVolumes (DeleteVolume vols csi ns n)) r))"
| "rpc_handler cp now caller (NetworkPolicyRpc r) = (let svc = cp_networkPolicySvc cp in
     mapA NetworkPolicyReply (object_handler (\<lambda>x. onDash (CreateNetworkPolicy svc x)) (\<lambda>ns n. onDash (GetNetworkPolicy svc ns n))
       (\<lambda>ns. onDash (ListNetworkPolicies svc ns)) (\<lambda>ns n. onDash (DeleteNetworkPolicy svc ns n)) r))"
| "rpc_handler cp now caller (ServiceRpc r) = (let svc = cp_serviceSvc cp in
     mapA ServiceReply (object_handler (\<lambda>x. onDash (CreateService svc x)) (\<lambda>ns n. onDash (GetService svc ns n))
       (\<lambda>ns. onDash (ListServices svc ns)) (\<lambda>ns n. onDash (DeleteService svc ns n)) r))"
| "rpc_handler cp now caller (PolicyRpc r) = (let pols = pls_policies (cp_policySvc cp) in
     mapA PolicyReply (object_handler (\<lambda>x. onDash (CreatePolicy pols (pls_engine (cp_policySvc cp)) x)) (\<lambda>ns n. onDash (GetPolicy pols n))
       (\<lambda>ns. onDash (ListPolicies pols)) (\<lambda>ns n. onDash (DeletePolicy pols n)) r))"
| "rpc_handler cp now caller (SecretRpc r) = (let svc = cp_secretSvc cp in
     mapA SecretReply (object_handler (\<lambda>x. onDash (CreateSecret svc x)) (\<lambda>ns n. onDash (GetSecret svc ns n))
       (\<lambda>ns. onDash (ListSecrets svc ns)) (\<lambda>ns n. onDash (DeleteSecret svc ns n)) r))"
| "rpc_handler cp now caller (PushImageRpc ref sig) = registered (cp_imageSvc cp) (\<lambda>svc.
     mapA (\<lambda>x. ImageReply (Obj x)) (onDash (PushImage (irs_images svc) (irs_verify svc) (now div Second) ref sig)))"
| "rpc_handler cp now caller (GetImageRpc ref) = registered (cp_imageSvc cp) (\<lambda>svc.
     mapA (\<lambda>x. ImageReply (Obj x)) (onDash (GetImage (irs_images svc) ref)))"
| "rpc_handler cp now caller ListImagesRpc = registered (cp_imageSvc cp) (\<lambda>svc.
     mapA (\<lambda>xs. ImageReply (Items xs)) (onDash (ListImages (irs_images svc))))"
| "rpc_handler cp now caller (DeleteImageRpc ref) = registered (cp_imageSvc cp) (\<lambda>svc.
     mapA (\<lambda>_. ImageReply Empty) (onDash (DeleteImage (irs_images svc) ref)))"
| "rpc_handler cp now caller CreateBackupRpc = mapA BackupReply (onDash (CreateBackup (cp_backupSvc cp)))"
| "rpc_handler cp now caller (RestoreBackupRpc es) = mapA RestoreReply (onDash (RestoreBackup (cp_backupSvc cp) es))"
| "rpc_handler cp now caller (GetCostReportRpc ns key) =
     mapA ReportReply (onDash (GetCostReport (cp_float cp) (fin_pods (cp_finopsSvc cp)) (fin_model (cp_finopsSvc cp)) ns key now))"

definition served :: "('s, 'b, 'ast, 'p, 'v, 'f) control_plane \<Rightarrow> 'b rpc \<Rightarrow> bool" where
  "served cp req \<longleftrightarrow> (HasPrefix (FullMethod req) ''/nimbuscore.v1.ImageRegistryService/'' \<longrightarrow> cp_imageSvc cp \<noteq> None)"

definition serve_rpc :: "('s, 'b, 'ast, 'p, 'v, 'f) control_plane \<Rightarrow> int \<Rightarrow> peer_ctx \<Rightarrow> 'b rpc \<Rightarrow> ('s, 'b, 'p, 'v, 'f) rpc_action" where
  "serve_rpc cp now ctx req =
     (if \<not> served cp req then throw (ErrStatus Unimplemented ''unknown service'')
      else AuthInterceptor (cp_FromURI cp) (cp_expectMember cp) (cp_authz cp) ctx (FullMethod req)
             (rpc_handler cp now (PeerSPIFFEID (cp_FromURI cp) ctx) req))"

section \<open>One call at a time\<close>

text \<open>
  A manifest is one file of the Git repository, already read; \<open>Sync\<close> applies them one by one.
  Time and the result of the GitOps status come with the call.
\<close>

datatype ('b, 'f) cp_call =
    Rpc int peer_ctx "'b rpc"
  | Http "'f dash_env" "gitops_Status option" bytes HttpRequest
  | DeploymentTick | PodTick | HealthTick int | AutoscaleTick
  | Manifest "Deployment option"

definition store_step :: "('s \<Rightarrow> 's) \<Rightarrow> ('s, 'p, 'v) dash_world \<Rightarrow> ('s, 'p, 'v) dash_world" where
  "store_step f w = w\<lparr>dw_adm := (dw_adm w)\<lparr>as_store := f (dw_store w)\<rparr>\<rparr>"

fun cp_step :: "'f apiserver_flags \<Rightarrow> ('ast, 'p, 'v, 'f, 'pub, 'priv) cp_parts \<Rightarrow> 'b codecs \<Rightarrow> ('s, 'b) Store \<Rightarrow>
    ('b, 'f) cp_call \<Rightarrow> ('s, 'p, 'v) dash_world \<Rightarrow> ('s, 'p, 'v) dash_world" where
  "cp_step fl pt co S (Rpc now ctx req) w = snd (serve_rpc (register_services fl pt co S) now ctx req w)"
| "cp_step fl pt co S (Http env gs secret r) w =
     snd (NewHandler secret env (dashboard_config fl co S (register_services fl pt co S) gs) r w)"
| "cp_step fl pt co S DeploymentTick w = store_step (\<lambda>s. snd (reconcileAll (ct_deployment (new_controllers fl co S)) s)) w"
| "cp_step fl pt co S PodTick w = store_step (pod_reconcileAll (ct_pod (new_controllers fl co S))) w"
| "cp_step fl pt co S (HealthTick now) w = store_step (checkAll (ct_health (new_controllers fl co S)) now) w"
| "cp_step fl pt co S AutoscaleTick w =
     store_step (\<lambda>s. snd (hpa_reconcileAll (pt_float pt) (ct_hpa (new_controllers fl co S)) s)) w"
| "cp_step fl pt co S (Manifest m) w =
     store_step (\<lambda>s. snd (apply_manifest (reg_New S kDeployments (co_Deployment co)) (map_option managed m) s)) w"

fun cp_run :: "'f apiserver_flags \<Rightarrow> ('ast, 'p, 'v, 'f, 'pub, 'priv) cp_parts \<Rightarrow> 'b codecs \<Rightarrow> ('s, 'b) Store \<Rightarrow>
    ('b, 'f) cp_call list \<Rightarrow> ('s, 'p, 'v) dash_world \<Rightarrow> ('s, 'p, 'v) dash_world" where
  "cp_run fl pt co S [] w = w"
| "cp_run fl pt co S (c # cs) w = cp_run fl pt co S cs (cp_step fl pt co S c w)"

end
