(* ===== verification/Guarded.thy ===== *)
theory Guarded
  imports Keeps ControlPlane
begin

text \<open>
  What every stored pod and deployment satisfies, over all writers. \<open>entry_ok\<close> says of one entry
  of the store that a pod or deployment decodes, lies under its own key, and has containers
  that satisfy a predicate; the locale \<open>pod_guard\<close> shows that the controllers and the handlers
  of the API server keep it for every entry, as long as what comes in from outside satisfies
  the predicate. Here the predicate is any; \<open>System\<close> takes the one the admission chain enforces.
\<close>

section \<open>The predicate on entries\<close>

definition pod_entry :: "(Pod, 'b) codec \<Rightarrow> (Container list \<Rightarrow> bool) \<Rightarrow> string \<Rightarrow> 'b \<Rightarrow> bool" where
  "pod_entry CP okc k b \<longleftrightarrow> (\<exists>p. proto_Unmarshal CP b = Inr p \<and>
     k = key_of kPods (pod_namespace p) (pod_name p) \<and> okc (pod_containers p))"

definition dep_entry :: "(Deployment, 'b) codec \<Rightarrow> (Container list \<Rightarrow> bool) \<Rightarrow> string \<Rightarrow> 'b \<Rightarrow> bool" where
  "dep_entry CD okc k b \<longleftrightarrow> (\<exists>d. proto_Unmarshal CD b = Inr d \<and>
     k = key_of kDeployments (dep_namespace d) (dep_name d) \<and> okc (PodSpec_GetContainers (dep_template d)))"

definition entry_ok :: "(Pod, 'b) codec \<Rightarrow> (Deployment, 'b) codec \<Rightarrow> (Container list \<Rightarrow> bool) \<Rightarrow> string \<Rightarrow> 'b \<Rightarrow> bool" where
  "entry_ok CP CD okc k b \<longleftrightarrow>
     (HasPrefix k (reg_prefix kPods []) \<longrightarrow> pod_entry CP okc k b) \<and>
     (HasPrefix k (reg_prefix kDeployments []) \<longrightarrow> dep_entry CD okc k b)"

lemma more_kinds_no_slash [simp]:
  "no_slash kServices" "no_slash kNamespaces" "no_slash kSecrets" "no_slash kPolicies" "no_slash kNetworkPolicies" "no_slash kImages"
  by (simp_all add: no_slash_def)

lemma key_of_other_kind:
  assumes "no_slash kind" "no_slash kind'" "kind \<noteq> kind'"
  shows "\<not> HasPrefix (key_of kind ns n) (reg_prefix kind' [])"
  using assms reg_prefix_kinds key_of_prefix by blast

lemma containers_kept [simp]:
  "pod_containers (set_message m p) = pod_containers p"
  "pod_containers (set_node n p) = pod_containers p"
  "pod_containers (pin_pod n p) = pod_containers p"
  "pod_containers (newPod d i) = PodSpec_GetContainers (dep_template d)"
  by (cases "pod_spec p"; simp add: set_message_def set_node_def pin_pod_def newPod_def zero_PodSpec_def)+

lemma metadata_kept [simp]:
  "pod_metadata (set_message m p) = pod_metadata p" "pod_metadata (set_node n p) = pod_metadata p"
  "pod_metadata (pin_pod n p) = pod_metadata p"
  by (simp_all add: set_message_def set_node_def pin_pod_def)

text \<open>What a chain of validators has to do: leave the store alone, and admit only such containers.\<close>

definition guards :: "(Container list \<Rightarrow> bool) \<Rightarrow> ('s, 'p) adm_state Validator list \<Rightarrow> bool" where
  "guards okc chain \<longleftrightarrow> (\<forall>req w r req' w'. Chain_Admit chain req w = ((r, req'), w') \<longrightarrow>
     as_store w' = as_store w \<and> (r = Inr () \<longrightarrow> okc (PodSpec_GetContainers (req_Spec req'))))"

text \<open>What a call brings in from outside, past admission: the entries of a backup, a manifest of the repository.\<close>

definition trusted_rpc :: "(Pod, 'b) codec \<Rightarrow> (Deployment, 'b) codec \<Rightarrow> (Container list \<Rightarrow> bool) \<Rightarrow> 'b rpc \<Rightarrow> bool" where
  "trusted_rpc CP CD okc r = (case r of RestoreBackupRpc es \<Rightarrow> list_all (\<lambda>(k, v). entry_ok CP CD okc k v) es | _ \<Rightarrow> True)"

definition trusted :: "(Pod, 'b) codec \<Rightarrow> (Deployment, 'b) codec \<Rightarrow> (Container list \<Rightarrow> bool) \<Rightarrow> ('b, 'f) cp_call \<Rightarrow> bool" where
  "trusted CP CD okc c =
     (case c of Rpc now ctx r \<Rightarrow> trusted_rpc CP CD okc r
      | Manifest (Some d) \<Rightarrow> okc (PodSpec_GetContainers (dep_template d))
      | _ \<Rightarrow> True)"

lemma keeps_onStore: "keeps I a R \<Longrightarrow> keeps (\<lambda>w. I (as_store w)) (onStore a) R"
  by (auto simp: keeps_def onStore_def split: prod.splits)

lemma keeps_onFst: "keeps I a R \<Longrightarrow> keeps (\<lambda>w. I (fst w)) (onFst a) R"
  by (auto simp: keeps_def onFst_def split: prod.splits)

lemma keeps_onSnd: "keeps (\<lambda>w. I (fst w)) (onSnd a) any"
  by (auto simp: keeps_def onSnd_def split: prod.splits)

lemma keeps_onDash: "keeps I a R \<Longrightarrow> keeps (\<lambda>w. I (dw_store w)) (onDash a) R"
  by (auto simp: keeps_def onDash_def split: prod.splits)

lemma keeps_onAdm: "keeps (\<lambda>m. I (as_store m)) a R \<Longrightarrow> keeps (\<lambda>w. I (dw_store w)) (onAdm a) R"
  by (auto simp: keeps_def onAdm_def split: prod.splits)

lemma keeps_onVolumes:
  assumes "keeps (\<lambda>w. I (fst w)) a R"
  shows "keeps (\<lambda>w. I (dw_store w)) (onVolumes a) R"
proof -
  have "I s' \<and> (\<forall>x. r = Inr x \<longrightarrow> R x)" if "I s" "a (s, v) = (r, s', v')" for s v r s' v'
    using assms[unfolded keeps_def, rule_format, of "(s, v)"] that by simp
  then show ?thesis by (auto simp: keeps_def onVolumes_def split: prod.splits)
qed

lemma keeps_mapA: "keeps J a any \<Longrightarrow> keeps J (mapA f a) any"
  unfolding mapA_def by (rule keeps_bind[where R' = any]) (auto intro: keeps_intro)

lemma keeps_object_handler:
  assumes "\<And>x. keeps J (create x) any" "\<And>ns n. keeps J (get ns n) any" "\<And>ns. keeps J (list ns) any" "\<And>ns n. keeps J (delete ns n) any"
  shows "keeps J (object_handler create get list delete r) any"
  by (cases r) (auto intro!: keeps_mapA assms)

lemma keeps_interceptor: "keeps J h any \<Longrightarrow> keeps J (AuthInterceptor FromURI trust authz ctx m h) any"
  by (auto simp: AuthInterceptor_def intro!: keeps_intro split: sum.split option.split)

lemma keeps_answer: "keeps J a any \<Longrightarrow> J w \<Longrightarrow> J (snd (answer a st f w))"
  using keepsD[of J a any w] by (auto simp: answer_def split: prod.splits sum.splits)

section \<open>The contract\<close>

locale pod_guard = store_laws S inv abs + pod_laws: codec_laws CP + dep_laws: codec_laws CD
  for S :: "('s, 'b) Store" and inv :: "'s \<Rightarrow> bool" and abs :: "'s \<Rightarrow> (string \<rightharpoonup> 'b)"
    and CP :: "(Pod, 'b) codec" and CD :: "(Deployment, 'b) codec" +
  fixes okc :: "Container list \<Rightarrow> bool"
  assumes okc_Nil: "okc []"

sublocale pod_guard \<subseteq> entry_guard S inv abs "entry_ok CP CD okc"
  by unfold_locales

context pod_guard
begin

abbreviation PR :: "('s, 'b, Pod) Registry" where "PR \<equiv> reg_New S kPods CP"
abbreviation DR :: "('s, 'b, Deployment) Registry" where "DR \<equiv> reg_New S kDeployments CD"
abbreviation good_pod :: "Pod \<Rightarrow> bool" where "good_pod p \<equiv> okc (pod_containers p)"
abbreviation good_dep :: "Deployment \<Rightarrow> bool" where "good_dep d \<equiv> okc (PodSpec_GetContainers (dep_template d))"

lemma put_pod:
  assumes "good_pod p" "key_of kPods ns n = key_of kPods (pod_namespace p) (pod_name p)"
  shows "keeps I (reg_Put PR ns n p) any"
proof (rule put_entry)
  fix b assume "proto_Marshal CP p = Inr b"
  from pod_laws.roundtrip[OF this] assms key_of_other_kind[of kPods kDeployments ns n]
  show "entry_ok CP CD okc (key_of kPods ns n) b" by (auto simp: entry_ok_def pod_entry_def)
qed

lemma put_dep:
  assumes "good_dep d" "key_of kDeployments ns n = key_of kDeployments (dep_namespace d) (dep_name d)"
  shows "keeps I (reg_Put DR ns n d) any"
proof (rule put_entry)
  fix b assume "proto_Marshal CD d = Inr b"
  from dep_laws.roundtrip[OF this] assms key_of_other_kind[of kDeployments kPods ns n]
  show "entry_ok CP CD okc (key_of kDeployments ns n) b" by (auto simp: entry_ok_def dep_entry_def)
qed

lemma put_other:
  assumes "no_slash kind" "kind \<noteq> kPods" "kind \<noteq> kDeployments"
  shows "keeps I (reg_Put (reg_New S kind C) ns n x) any"
  using assms key_of_other_kind[of kind kPods ns n] key_of_other_kind[of kind kDeployments ns n]
  by (intro put_entry) (simp add: entry_ok_def)

lemma get_pod: "I s \<Longrightarrow> reg_Get PR ns n s = Inr p \<Longrightarrow>
    good_pod p \<and> key_of kPods ns n = key_of kPods (pod_namespace p) (pod_name p)"
  using get_entry[of s kPods CP ns n p] by (auto simp: entry_ok_def pod_entry_def)

lemma get_dep: "I s \<Longrightarrow> reg_Get DR ns n s = Inr d \<Longrightarrow>
    good_dep d \<and> key_of kDeployments ns n = key_of kDeployments (dep_namespace d) (dep_name d)"
  using get_entry[of s kDeployments CD ns n d] by (auto simp: entry_ok_def dep_entry_def)

lemma list_pods: "I s \<Longrightarrow> reg_List PR ns s = Inr ps \<Longrightarrow> p \<in> set ps \<Longrightarrow> good_pod p"
  using list_entry[of s kPods CP ns ps p] by (auto simp: entry_ok_def pod_entry_def)

lemma list_deps: "I s \<Longrightarrow> reg_List DR ns s = Inr ds \<Longrightarrow> d \<in> set ds \<Longrightarrow> good_dep d"
  using list_entry[of s kDeployments CD ns ds d] by (auto simp: entry_ok_def dep_entry_def)

section \<open>Placement\<close>

lemma schedulePod_keeps:
  assumes "I s" "good_pod p" "schedulePod PR sched candidates p s = ((r, p'), s')"
  shows "I s' \<and> good_pod p'"
proof -
  have put: "I s1" if "wrapA m (reg_Put PR ns n q) s = (r1, s1)" "good_pod q" "pod_namespace q = ns" "pod_name q = n" for m ns n q r1 s1
    using keepsD[OF keeps_wrapA[OF put_pod[OF that(2) refl]] assms(1), of m] that by simp
  show ?thesis
    using assms by (auto simp: schedulePod_def Let_def split: sum.splits if_splits prod.splits intro: put)
qed

lemma schedule_each_keeps:
  "I s \<Longrightarrow> list_all good_pod ps \<Longrightarrow> schedule_each PR sched candidates ps s = ((r, ps'), s') \<Longrightarrow> I s'"
proof (induction ps arbitrary: s r ps' s')
  case (Cons p ps)
  show ?case
  proof (cases "pod_node p \<noteq> []")
    case True
    with Cons show ?thesis by (auto split: prod.splits)
  next
    case False
    obtain r1 p1 s1 where one: "schedulePod PR sched candidates p s = ((r1, p1), s1)" by (metis prod.collapse)
    with schedulePod_keeps[OF Cons.prems(1) _ one] Cons.prems(2) have "I s1" by simp
    with Cons False one show ?thesis by (auto split: sum.splits prod.splits)
  qed
qed simp

section \<open>The controllers\<close>

lemma pod_each_keeps: "I s \<Longrightarrow> list_all good_pod ps \<Longrightarrow> I (pod_each PR sched candidates ps s)"
proof (induction ps arbitrary: s)
  case (Cons p ps)
  obtain r p' s' where one: "schedulePod PR sched candidates p s = ((r, p'), s')" by (metis prod.collapse)
  with schedulePod_keeps[OF Cons.prems(1) _ one] Cons show ?case by simp
qed simp

lemma pod_pass_keeps: "I s \<Longrightarrow> I (pod_reconcileAll (NewPodReconciler PR nodes sched rs) s)"
  using list_pods[of s "[]"]
  by (auto simp: pod_reconcileAll_def NewPodReconciler_def list_all_iff split: sum.splits intro!: pod_each_keeps)

lemma check_loop_keeps: "I s \<Longrightarrow> I (check_loop (reg_New S kNodes CN) cutoff ns s)"
  by (induction ns arbitrary: s) (simp_all add: keepsD[OF put_other])

lemma health_pass_keeps: "I s \<Longrightarrow> I (checkAll (NewNodeHealthReconciler (reg_New S kNodes CN) timeout rs) now s)"
  by (simp add: checkAll_def NewNodeHealthReconciler_def check_loop_keeps split: sum.splits)

lemma set_replicas_keeps: "keeps I (set_replicas (NewHorizontalAutoscaler DR PR nodes rs) d v) any"
  unfolding set_replicas_def NewHorizontalAutoscaler_def
  by (rule keeps_bind[where R' = "\<lambda>d. good_dep d"])
    (auto intro!: keeps_intro put_dep simp: Let_def dest: get_dep split: option.split)

lemma hpa_pass_keeps: "keeps I (hpa_reconcileAll F (NewHorizontalAutoscaler DR PR nodes rs)) any"
proof -
  let ?r = "NewHorizontalAutoscaler DR PR nodes rs"
  have "I (snd (hpa_reconcileOne F ?r d s))" if "I s" for d s
    using that by (auto simp: hpa_reconcileOne_def Let_def intro: keepsD[OF set_replicas_keeps] split: list.splits sum.splits prod.splits)
  then have "keeps I (hpa_reconcileOne F ?r d) any" for d by (auto intro: keepsI)
  then have all: "keeps I (forA (\<lambda>d. logA (hpa_reconcileOne F ?r d)) ds) any" for ds by (intro keeps_intro)
  show ?thesis
    by (rule keepsI) (auto simp: hpa_reconcileAll_def intro: keepsD[OF all] split: sum.splits)
qed

subsection \<open>Deployments\<close>

lemma delete_pod_keeps [keeps_intro]: "dr_pods r = PR \<Longrightarrow> keeps I (delete_pod_obj r p) any"
  by (simp add: delete_pod_obj_def delete_entry)

lemma owned_loop_keeps: "dr_pods r = PR \<Longrightarrow> list_all good_pod ps \<Longrightarrow> keeps I (owned_loop r d ps) (list_all good_pod)"
proof (induction ps)
  case Nil
  then show ?case by (simp add: keeps_def)
next
  case (Cons p ps)
  then have rest: "keeps I (owned_loop r d ps) (list_all good_pod)" by simp
  have del: "keeps I (bindA (delete_pod_obj r p) (\<lambda>_. owned_loop r d ps)) (list_all good_pod)"
    by (rule keeps_bind[OF delete_pod_keeps[OF Cons.prems(1)] rest])
  have keep: "keeps I (bindA (owned_loop r d ps) (\<lambda>owned. ret (p # owned))) (list_all good_pod)"
    by (rule keeps_bind[OF rest]) (use Cons.prems in \<open>auto intro: keeps_ret\<close>)
  show ?case
  proof (rule keeps_look)
    fix s
    have "\<exists>g \<in> {throw e, owned_loop r d ps, bindA (delete_pod_obj r p) (\<lambda>_. owned_loop r d ps),
        bindA (owned_loop r d ps) (\<lambda>owned. ret (p # owned))}. owned_loop r d (p # ps) s = g s"
      if "\<forall>err. nodeReady r (pod_node p) s = Inl err \<longrightarrow> err = e" for e
      using that by (auto simp: Let_def throw_def split: sum.splits)
    then have "\<exists>g. owned_loop r d (p # ps) s = g s \<and> g \<in> {throw (projl (nodeReady r (pod_node p) s)), owned_loop r d ps,
        bindA (delete_pod_obj r p) (\<lambda>_. owned_loop r d ps), bindA (owned_loop r d ps) (\<lambda>owned. ret (p # owned))}"
      by (metis sum.sel(1))
    then show "\<exists>g. owned_loop r d (p # ps) s = g s \<and> keeps I g (list_all good_pod)"
      using rest del keep keeps_throw by fast
  qed
qed

lemma ownedPods_keeps: "dr_pods r = PR \<Longrightarrow> keeps I (ownedPods r d) (list_all good_pod)"
  unfolding ownedPods_def
  by (rule keeps_bind[where R' = "list_all good_pod"])
    (auto intro!: keeps_readA owned_loop_keeps list_pods simp: list_all_iff)

lemma create_loop_keeps:
  "dr_pods r = PR \<Longrightarrow> good_dep d \<Longrightarrow> I s \<Longrightarrow> I (snd (create_loop r d claimed occ i todo s))"
proof (induction r d claimed occ i todo s rule: create_loop.induct)
  case (1 r d claimed occ i todo s)
  let ?p = "pin_pod claimed (newPod d i)"
  obtain res s1 where put: "wrapA ''create pod'' (reg_Put (dr_pods r) (pod_namespace ?p) (pod_name ?p) ?p) s = (res, s1)" by fastforce
  then have "s1 = snd (wrapA ''create pod'' (reg_Put (dr_pods r) (pod_namespace ?p) (pod_name ?p) ?p) s)" by simp
  with 1 keepsD[OF put_pod[of ?p, OF _ refl]] have "I s1" by simp
  with 1 put show ?case by (subst create_loop.simps) (auto simp: Let_def split: sum.splits prod.splits)
qed

lemma delete_loop_keeps: "dr_pods r = PR \<Longrightarrow> keeps I (delete_loop r ps) any"
  by (induction ps) (auto intro!: keeps_intro keeps_bind[where R' = any])

lemma scale_keeps:
  assumes "dr_pods r = PR" "good_dep d"
  shows "keeps I (scale r d owned) any"
proof -
  have "keeps I (create_loop r d c occ i n) any" for c occ i n
    using create_loop_keeps[OF assms] by (auto intro: keepsI)
  then show ?thesis
    unfolding scale_def Let_def resolveVolumeNode_def
    by (auto intro!: keeps_intro keeps_bind[where R' = any] delete_loop_keeps assms)
qed

lemma place_keeps: "dr_pods r = PR \<Longrightarrow> I s \<Longrightarrow> list_all good_pod ps \<Longrightarrow> I (snd (place r ps s))"
  by (auto simp: place_def scheduleUnassigned_def split: sum.splits prod.splits dest: schedule_each_keeps)

lemma claim_loop_keeps: "dr_volumes r = reg_New S kVolumes CV \<Longrightarrow> keeps I (claim_loop r d node ms) any"
proof (induction ms)
  case (Cons m ms)
  then have rest: "keeps I (claim_loop r d node ms) any" by simp
  have put: "I (snd (bindA (reg_Put (reg_New S kVolumes CV) ns n v) (\<lambda>_. claim_loop r d node ms) s))" if "I s" for ns n v s
    by (rule keepsD[OF keeps_bind[OF put_other rest] that]) simp_all
  show ?case
    by (rule keepsI) (use Cons.prems in \<open>auto simp: Let_def intro: keepsD[OF rest] put split: sum.splits option.splits\<close>)
qed (simp add: keeps_def)

lemma claimVolumeNodes_keeps: "dr_volumes r = reg_New S kVolumes CV \<Longrightarrow> keeps I (claimVolumeNodes r d owned) any"
  by (auto simp: claimVolumeNodes_def intro!: keeps_intro claim_loop_keeps)

lemma update_status_keeps: "dr_deployments r = DR \<Longrightarrow> keeps I (update_status r d owned) any"
  unfolding update_status_def
  by (rule keeps_bind[where R' = "\<lambda>d. good_dep d"])
    (auto intro!: keeps_intro put_dep simp: Let_def dest: get_dep)

lemma reconcileOne_keeps:
  assumes "dr_pods r = PR" "dr_deployments r = DR" "dr_volumes r = reg_New S kVolumes CV" "good_dep d"
  shows "keeps I (reconcileOne r d) any"
proof -
  have place: "keeps I (place r ps) any" if "list_all good_pod ps" for ps
    using place_keeps[OF assms(1)] that by (auto intro: keepsI)
  show ?thesis
    unfolding reconcileOne_def
    by (rule keeps_bind, rule keeps_wrapA, rule ownedPods_keeps[OF assms(1)], rule keeps_bind, rule scale_keeps[OF assms(1,4)],
        rule keeps_bind, rule keeps_wrapA, rule ownedPods_keeps[OF assms(1)], rule keeps_bind, erule place, rule keeps_bind[where R' = any])
      (auto intro!: keeps_intro claimVolumeNodes_keeps update_status_keeps assms)
qed

lemma deployment_pass_keeps:
  "keeps I (reconcileAll (NewDeploymentReconciler DR PR nodes (reg_New S kVolumes CV) sched rs)) any"
proof (rule keepsI)
  fix s assume s: "I s"
  let ?r = "NewDeploymentReconciler DR PR nodes (reg_New S kVolumes CV) sched rs"
  have one: "keeps I (reconcileOne ?r d) any" if "good_dep d" for d
    by (rule reconcileOne_keeps[OF _ _ _ that]) (simp_all add: NewDeploymentReconciler_def)
  have "keeps I (forA (\<lambda>d. logA (reconcileOne ?r d)) ds) any" if "list_all good_dep ds" for ds
    using that by (auto simp: list_all_iff intro!: keeps_intro one)
  from keepsD[OF this s] list_deps[OF s] s show "I (snd (reconcileAll ?r s))"
    by (auto simp: reconcileAll_def NewDeploymentReconciler_def list_all_iff split: sum.splits)
qed simp

section \<open>The handlers\<close>

lemma api_put_keeps: "keeps I (reg_Put R ns n x) any \<Longrightarrow> keeps I (api_put what R ns n x) any"
  unfolding api_put_def by (rule keeps_bind[where R' = any]) (auto intro: keeps_intro)

lemma api_put_other:
  "no_slash kind \<Longrightarrow> kind \<noteq> kPods \<Longrightarrow> kind \<noteq> kDeployments \<Longrightarrow> keeps I (api_put what (reg_New S kind C) ns n x) any"
  by (intro api_put_keeps put_other)

lemma api_delete_keeps [keeps_intro]: "keeps I (api_delete what (reg_New S kind C) ns n) any"
  unfolding api_delete_def by (intro keeps_intro)

lemma invalid_keeps [keeps_intro]: "keeps J (invalid what) R"
  unfolding invalid_def by (rule keeps_throw)

lemma CreatePod_keeps:
  fixes chain :: "('s, 'p) adm_state Validator list"
  assumes "guards okc chain"
  shows "keeps (\<lambda>w :: ('s, 'p) adm_state. I (as_store w)) (CreatePod (NewPodService S CP chain) req) any"
proof (rule keepsI)
  fix w :: "('s, 'p) adm_state" assume w: "I (as_store w)"
  have put: "I (as_store (snd (onStore (api_put what PR ns n p) w1)))"
    if "I (as_store w1)" "good_pod p" "ns = pod_namespace p" "n = pod_name p" for w1 :: "('s, 'p) adm_state" and p ns n what
    using keepsD[OF keeps_onStore[OF api_put_keeps[OF put_pod[OF that(2) refl]]]] that(1,3,4) by simp
  show "I (as_store (snd (CreatePod (NewPodService S CP chain) req w)))"
    using w assms unfolding CreatePod_def guards_def
    by (auto simp: NewPodService_def invalid_def throw_def Let_def split: option.splits sum.splits prod.splits intro!: put)
qed simp

lemma CreateDeployment_keeps:
  fixes chain :: "('s, 'p) adm_state Validator list"
  assumes "guards okc chain"
  shows "keeps (\<lambda>w :: ('s, 'p) adm_state. I (as_store w)) (CreateDeployment (NewDeploymentService S CD CP chain) req) any"
proof (rule keepsI)
  fix w :: "('s, 'p) adm_state" assume w: "I (as_store w)"
  have put: "I (as_store (snd (onStore (api_put what DR ns n d) w1)))"
    if "I (as_store w1)" "good_dep d" "ns = dep_namespace d" "n = dep_name d" for w1 :: "('s, 'p) adm_state" and d ns n what
    using keepsD[OF keeps_onStore[OF api_put_keeps[OF put_dep[OF that(2) refl]]]] that(1,3,4) by simp
  have okd: "good_dep (d\<lparr>dep_spec := map_option (\<lambda>sp. sp\<lparr>ds_template := t\<rparr>) (dep_spec d)\<rparr>)"
    if "okc (PodSpec_GetContainers t)" for d t
    using that okc_Nil by (cases "dep_spec d") simp_all
  show "I (as_store (snd (CreateDeployment (NewDeploymentService S CD CP chain) req w)))"
    using w assms unfolding CreateDeployment_def guards_def
    by (auto simp: NewDeploymentService_def invalid_def throw_def Let_def split: option.splits sum.splits prod.splits intro!: put okd)
qed simp

lemma read_keeps [keeps_intro]: "keeps I (api_get what R ns n) any" "keeps I (api_list what R ns) any"
  unfolding api_get_def api_list_def by (intro keeps_intro; simp)+

lemma UpdatePodStatus_keeps: "keeps I (UpdatePodStatus (NewPodService S CP chain) caller ns n st) any"
  unfolding UpdatePodStatus_def NewPodService_def podService.simps api_get_def
  by (rule keeps_bind[where R' = "\<lambda>p. good_pod p \<and> key_of kPods ns n = key_of kPods (pod_namespace p) (pod_name p)"])
    (auto intro!: keeps_intro api_put_keeps put_pod dest: get_pod)

lemma cascade_keeps: "keeps I (cascade_loop (reg_New S kind C) name ps) any"
  by (induction ps) (auto intro!: keeps_intro keeps_bind[where R' = any])

lemma DeleteDeployment_keeps: "keeps I (DeleteDeployment (NewDeploymentService S CD CP chain) ns n) any"
  unfolding DeleteDeployment_def NewDeploymentService_def
  by (auto intro!: keeps_intro keeps_bind[where R' = any] cascade_keeps)

lemma node_handlers_keep:
  "keeps I (CreateNode (reg_New S kNodes C) x) any" "keeps I (Heartbeat (reg_New S kNodes C) now name cap alloc) any"
  unfolding CreateNode_def Heartbeat_def
  by (auto split: option.split intro!: keeps_intro keeps_bind[where R' = any] api_put_other put_other)

lemma create_handlers_keep:
  "keeps I (CreateNamespace (reg_New S kNamespaces C1) x1) any" "keeps I (CreateSecret (reg_New S kSecrets C2) x2) any"
  "keeps I (CreateNetworkPolicy (reg_New S kNetworkPolicies C3) x3) any" "keeps I (CreatePolicy (reg_New S kPolicies C4) env x4) any"
  "keeps I (PushImage (reg_New S kImages C5) verify now ref sig) any"
proof -
  show "keeps I (CreateNamespace (reg_New S kNamespaces C1) x1) any"
    by (intro keepsI) (auto simp: CreateNamespace_def invalid_def throw_def intro: keepsD[OF put_other] keepsD[OF api_put_other]
        split: option.splits sum.splits)
qed (auto simp: CreateSecret_def CreateNetworkPolicy_def CreatePolicy_def PushImage_def split: option.split sum.split
    intro!: keeps_intro api_put_other)

lemma resolve_keeps [keeps_intro]: "keeps I (resolve svc x) any"
  by (rule keepsI) (auto simp: resolve_def actions split: sum.splits)

lemma resolve_all_keeps [keeps_intro]: "keeps I (resolve_all svc xs) any"
  by (induction xs) (auto intro!: keeps_intro keeps_bind[where R' = any])

lemma service_handlers_keep:
  "keeps I (CreateService (NewServiceService S CS CP CN) x) any" "keeps I (GetService svc ns n) any"
  "keeps I (ListServices svc ns) any" "keeps I (DeleteService (NewServiceService S CS CP CN) ns n) any"
  unfolding CreateService_def GetService_def ListServices_def DeleteService_def store_service_def NewServiceService_def
  by (auto intro!: keeps_intro keeps_bind[where R' = any] put_other)

lemma volume_handlers_keep:
  "keeps (\<lambda>w. I (fst w)) (CreateVolume (reg_New S kVolumes C) csi x) any"
  "keeps (\<lambda>w. I (fst w)) (DeleteVolume (reg_New S kVolumes C) csi ns n) any"
  unfolding CreateVolume_def DeleteVolume_def
  by (auto split: option.split intro!: keeps_intro keeps_bind[where R' = any] keeps_onFst keeps_onSnd api_put_other)

lemma backup_handlers_keep:
  "keeps I (CreateBackup S) any"
  "list_all (\<lambda>(k, v). entry_ok CP CD okc k v) es \<Longrightarrow> keeps I (RestoreBackup S es) any"
  unfolding CreateBackup_def RestoreBackup_def
  by (auto simp: list_all_iff intro!: keeps_intro keeps_bind[where R' = any] st_Put_entry)

lemma manifest_keeps:
  assumes "\<And>d. m = Some d \<Longrightarrow> good_dep d"
  shows "keeps I (apply_manifest DR m) any"
  using assms by (auto simp: apply_manifest_def split: option.split intro!: keeps_intro put_dep)

section \<open>Calls\<close>

abbreviation J :: "('s, 'p, 'v) dash_world \<Rightarrow> bool" where
  "J w \<equiv> I (dw_store w)"

lemmas handlers_keep = node_handlers_keep create_handlers_keep service_handlers_keep UpdatePodStatus_keeps DeleteDeployment_keeps
  backup_handlers_keep(1)

lemmas handler_names = GetPod_def ListPods_def DeletePod_def GetNode_def ListNodes_def DeleteNode_def GetDeployment_def ListDeployments_def
  GetNamespace_def ListNamespaces_def DeleteNamespace_def GetVolume_def ListVolumes_def GetNetworkPolicy_def ListNetworkPolicies_def
  DeleteNetworkPolicy_def GetPolicy_def ListPolicies_def DeletePolicy_def GetSecret_def ListSecrets_def DeleteSecret_def
  GetImage_def ListImages_def DeleteImage_def

lemmas service_parts = NewNodeService_def NewNamespaceService_def NewSecretService_def NewNetworkPolicyService_def NewPolicyService_def
  NewVolumeService_def NewImageRegistryService_def NewFinOpsService_def

lemma rpc_keeps:
  fixes pt :: "('ast, 'p, 'v, 'f, 'pub, 'priv) cp_parts"
  assumes "co_Pod co = CP" "co_Deployment co = CD" "guards okc (admissionChain fl pt co S)" "trusted_rpc CP CD okc r"
  shows "keeps (J :: ('s, 'p, 'v) dash_world \<Rightarrow> bool) (rpc_handler (register_services fl pt co S) now caller r) any"
proof (cases r)
  case (PodRpc x)
  then show ?thesis using CreatePod_keeps[OF assms(3)]
    by (auto simp: register_services_def assms handler_names NewPodService_def[of S CP]
        intro!: keeps_mapA keeps_object_handler keeps_onAdm keeps_onDash keeps_intro)
next
  case (DeploymentRpc x)
  then show ?thesis using CreateDeployment_keeps[OF assms(3)]
    by (auto simp: register_services_def assms handler_names NewDeploymentService_def[of S CD CP] Let_def
        intro!: keeps_mapA keeps_object_handler keeps_onAdm keeps_onDash keeps_intro DeleteDeployment_keeps[unfolded NewDeploymentService_def])
next
  case (VolumeRpc x)
  then show ?thesis
    by (auto simp: register_services_def assms handler_names service_parts Let_def
        intro!: keeps_mapA keeps_object_handler keeps_onVolumes keeps_onDash keeps_intro volume_handlers_keep)
next
  case (RestoreBackupRpc es)
  with assms(4) show ?thesis
    by (auto simp: register_services_def trusted_rpc_def intro!: keeps_mapA keeps_onDash backup_handlers_keep)
next
  case (GetCostReportRpc ns key)
  then show ?thesis
    by (auto simp: GetCostReport_def intro!: keeps_mapA keeps_onDash keeps_bind[where R' = any] keeps_intro)
qed (auto simp: register_services_def assms handler_names service_parts registered_def Let_def
    intro!: keeps_object_handler keeps_mapA keeps_onDash keeps_intro handlers_keep split: option.split)

lemma serve_rpc_keeps:
  fixes pt :: "('ast, 'p, 'v, 'f, 'pub, 'priv) cp_parts"
  assumes "co_Pod co = CP" "co_Deployment co = CD" "guards okc (admissionChain fl pt co S)" "trusted_rpc CP CD okc r"
  shows "keeps (J :: ('s, 'p, 'v) dash_world \<Rightarrow> bool) (serve_rpc (register_services fl pt co S) now ctx r) any"
  unfolding serve_rpc_def by (intro keeps_if keeps_throw keeps_interceptor rpc_keeps[OF assms])

subsection \<open>The dashboard\<close>

lemma restartOwnedPods_keeps: "keeps I (restartOwnedPods (reg_New S kind C) ns n) any"
proof (rule keepsI)
  fix s assume s: "I s"
  have del: "keeps I (forA (\<lambda>p. if owner_of p \<noteq> n then ret () else logA (reg_Delete (reg_New S kind C) (pod_namespace p) (pod_name p))) ps) any"
    for ps by (intro keeps_forA keeps_if keeps_ret keeps_logA[OF delete_entry]) simp
  from s show "I (snd (restartOwnedPods (reg_New S kind C) ns n s))"
    by (auto simp: restartOwnedPods_def intro: keepsD[OF del] split: sum.splits)
qed simp

lemma claim_volumes_keeps:
  fixes cfg :: "('s, 'b, 'p, 'v, 'f) dash_Config"
  assumes "dc_Volumes cfg = reg_New S kVolumes C"
  shows "keeps J (claim_volumes cfg req existing) any"
proof (rule keepsI)
  fix w :: "('s, 'p, 'v) dash_world" assume w: "J w"
  have new: "keeps J (bindA (onVolumes (CreateVolume (reg_New S kVolumes C) (dc_CSI cfg) x)) (\<lambda>_. ret ms)) any" for x and ms :: "VolumeMount list"
    by (rule keeps_bind[where R' = any]) (auto intro!: keeps_intro keeps_onVolumes volume_handlers_keep)
  from w show "J (snd (claim_volumes cfg req existing w))"
    by (auto simp: claim_volumes_def assms Let_def intro: keepsD[OF new] split: sum.splits)
qed simp

lemma publish_keeps:
  assumes "dc_Services cfg = NewServiceService S CS CP CN" "J w"
  shows "J (snd (publish env cfg req created w))"
proof -
  obtain r w2 where run: "onDash (CreateService (dc_Services cfg) (Some (create_service req))) w = (r, w2)" by fastforce
  with keepsD[OF keeps_onDash[OF service_handlers_keep(1)], of w CS CN "Some (create_service req)"] assms have "J w2"
    by (metis snd_conv)
  with run assms(2) show ?thesis by (simp add: publish_def split: sum.splits)
qed

lemma store_deployment_keeps:
  fixes cfg :: "('s, 'b, 'p, 'v, 'f) dash_Config"
  assumes "dc_DeploymentSvc cfg = NewDeploymentService S CD CP chain" "dc_Pods cfg = PR" "dc_Services cfg = NewServiceService S CS CP CN"
    and "guards okc chain" "J w"
  shows "J (snd (store_deployment env cfg req isEdit volumes w))"
proof -
  obtain r w2 where run: "onAdm (CreateDeployment (NewDeploymentService S CD CP chain) (Some (create_deployment req volumes))) w = (r, w2)"
    by fastforce
  with keepsD[OF keeps_onAdm[OF CreateDeployment_keeps[OF assms(4)]] assms(5), of "Some (create_deployment req volumes)"] have "J w2" by simp
  moreover from this have "J (snd (onDash (restartOwnedPods PR ns n) w2))" for ns n
    by (rule keepsD[OF keeps_onDash[OF restartOwnedPods_keeps]])
  ultimately show ?thesis using run
    by (auto simp: store_deployment_def assms(1,2) Let_def intro!: publish_keeps[OF assms(3)] split: sum.splits option.splits)
qed

lemma create_deployment_request_keeps:
  fixes cfg :: "('s, 'b, 'p, 'v, 'f) dash_Config"
  assumes "dc_DeploymentSvc cfg = NewDeploymentService S CD CP chain" "dc_Pods cfg = PR" "dc_Services cfg = NewServiceService S CS CP CN"
    and "dc_Volumes cfg = reg_New S kVolumes CV" "guards okc chain" "J w"
  shows "J (snd (handleCreateDeployment env cfg r w))"
proof -
  have "J w1" if "claim_volumes cfg req existing w = (v, w1)" for req existing v w1
    using keepsD[OF claim_volumes_keeps[OF assms(4)] assms(6), of req existing] that by simp
  with assms(6) show ?thesis
    by (auto simp: handleCreateDeployment_def Let_def intro!: store_deployment_keeps[OF assms(1-3,5)] split: sum.splits prod.splits)
qed

lemma scale_deployment_request_keeps:
  fixes cfg :: "('s, 'b, 'p, 'v, 'f) dash_Config"
  assumes "dc_DeploymentSvc cfg = NewDeploymentService S CD CP chain" "guards okc chain" "J w"
  shows "J (snd (handleScaleDeployment env cfg r w))"
  using assms(3) keeps_answer[OF keeps_onAdm[OF CreateDeployment_keeps[OF assms(2)]] assms(3)]
  by (auto simp: handleScaleDeployment_def assms(1) Let_def split: sum.splits option.splits)

lemma dashboard_keeps:
  fixes cfg :: "('s, 'b, 'p, 'v, 'f) dash_Config"
  assumes cfg: "dc_DeploymentSvc cfg = NewDeploymentService S CD CP chain" "dc_Pods cfg = PR" "dc_Services cfg = NewServiceService S CS CP CN"
      "dc_Volumes cfg = reg_New S kVolumes CV" "dc_Nodes cfg = reg_New S kNodes CN" "dc_Namespaces cfg = reg_New S kNamespaces CS'"
    and "guards okc chain" "J w"
  shows "J (snd (NewHandler secret env cfg r w))"
proof -
  have dash: "J (snd (answer (onDash a) st f w))" if "keeps I a any" for a :: "('s, 'y) action" and st f
    using keeps_answer[OF keeps_onDash[OF that], of w] assms(8) .
  have read: "keeps I (readA g) any" for g :: "'s \<Rightarrow> 'y res" by (rule keeps_readA) simp
  have deps: "J (snd (handleDeployments env cfg r w))"
    using assms(8) create_deployment_request_keeps[OF cfg(1-4) assms(7,8), of env r] scale_deployment_request_keeps[OF cfg(1) assms(7,8), of env r]
    by (auto simp: handleDeployments_def handleDeleteDeployment_def ListDeployments_def cfg intro!: dash read_keeps DeleteDeployment_keeps)
  have objs: "J (snd (handleNodes env cfg r w))" "J (snd (handlePods env cfg r w))" "J (snd (handleServices env cfg r w))"
      "J (snd (handleNamespaces env cfg r w))"
    using assms(8)
    by (auto simp: handleNodes_def handlePods_def handleServices_def handleNamespaces_def ListNamespaces_def DeleteNamespace_def cfg
        intro!: dash read read_keeps delete_entry api_delete_keeps service_handlers_keep create_handlers_keep(1) split: sum.splits)
  have views: "J (snd (handleFinops env cfg r w))" "J (snd (handleCICD env cfg r w))" "J (snd (handleMetrics env cfg r w))"
      "J (snd (handleLogs env cfg r w))" "J (snd (handleFiles env cfg r w))"
    using assms(8) by (auto simp: handleFinops_def handleCICD_def handleMetrics_def handleLogs_def handleFiles_def ListDeployments_def
        intro!: dash read read_keeps split: sum.splits option.splits)
  have "J (snd (appMux env cfg r w))"
    by (simp add: appMux_def Let_def deps objs views assms(8))
  with assms(8) show ?thesis by (auto simp: NewHandler_def requireSession_def Let_def)
qed

section \<open>Runs\<close>

lemma cp_step_keeps:
  fixes pt :: "('ast, 'p, 'v, 'f, 'pub, 'priv) cp_parts" and w :: "('s, 'p, 'v) dash_world"
  assumes co: "co_Pod co = CP" "co_Deployment co = CD" and "guards okc (admissionChain fl pt co S)" "trusted CP CD okc c" "J w"
  shows "J (cp_step fl pt co S c w)"
proof (cases c)
  case (Rpc now ctx r)
  with assms keepsD[OF serve_rpc_keeps[OF assms(1-3)]] show ?thesis by (simp add: trusted_def)
next
  case (Http env gs secret r)
  have "J (snd (NewHandler secret env (dashboard_config fl co S (register_services fl pt co S) gs) r w))"
    by (rule dashboard_keeps[OF _ _ _ _ _ _ assms(3,5)])
      (simp_all add: dashboard_config_def register_services_def service_parts co)
  with Http show ?thesis by simp
next
  case (Manifest m)
  with assms(4) have "keeps I (apply_manifest DR (map_option managed m)) any"
    by (intro manifest_keeps) (auto simp: trusted_def managed_def)
  with keepsD[OF this assms(5)] Manifest show ?thesis by (simp add: store_step_def co)
qed (use assms(5) in \<open>simp_all add: store_step_def new_controllers_def Let_def co pod_pass_keeps health_pass_keeps
      keepsD[OF hpa_pass_keeps] keepsD[OF deployment_pass_keeps]\<close>)

lemma cp_run_keeps:
  fixes pt :: "('ast, 'p, 'v, 'f, 'pub, 'priv) cp_parts" and w :: "('s, 'p, 'v) dash_world"
  assumes "co_Pod co = CP" "co_Deployment co = CD" "guards okc (admissionChain fl pt co S)"
  shows "list_all (trusted CP CD okc) cs \<Longrightarrow> J w \<Longrightarrow> J (cp_run fl pt co S cs w)"
  by (induction cs arbitrary: w) (simp_all add: cp_step_keeps[OF assms])

end

end
