(* ===== verification/System.thy ===== *)
theory System
  imports Guarded
begin

text \<open>
  Properties of the control plane as a whole, over any sequence of calls: what is stored has
  passed admission, whoever wrote it, and a worker node's credential reaches no more than its
  own part of the store.
\<close>

section \<open>The chain as a guard\<close>

text \<open>What admission requires of the containers of a pod.\<close>

definition admitted :: "string list \<Rightarrow> (string \<Rightarrow> unit res) \<Rightarrow> Container list \<Rightarrow> bool" where
  "admitted allowed Verify cs \<longleftrightarrow> (\<forall>c \<in> set cs. safe_container allowed c \<and> Verify (ctr_image c) = Inr ())"

text \<open>Validators that leave the store alone, and those that leave the request alone too.\<close>

definition store_frame :: "('s, 'p) adm_state Validator \<Rightarrow> bool" where
  "store_frame v \<longleftrightarrow> (\<forall>req w r req' w'. v req w = ((r, req'), w') \<longrightarrow> as_store w' = as_store w)"

definition checks_only :: "('s, 'p) adm_state Validator \<Rightarrow> bool" where
  "checks_only v \<longleftrightarrow> store_frame v \<and> (\<forall>req w r req' w'. v req w = ((r, req'), w') \<longrightarrow> req' = req)"

lemma store_frameD: "store_frame v \<Longrightarrow> v req w = ((r, req'), w') \<Longrightarrow> as_store w' = as_store w"
  unfolding store_frame_def by metis

lemma checks_onlyD: "checks_only v \<Longrightarrow> v req w = ((r, req'), w') \<Longrightarrow> req' = req \<and> as_store w' = as_store w"
  unfolding checks_only_def store_frame_def by metis

lemma pv_compile_frame: "as_store (snd (pv_compile env e w)) = as_store w"
  by (auto simp: pv_compile_def split: option.splits sum.splits)

lemma policy_loop_frame: "as_store (snd (policy_loop env view pols w)) = as_store w"
proof (induction pols arbitrary: w)
  case (Cons pol pols)
  obtain r w1 where c: "pv_compile env (pol_expr pol) w = (r, w1)" by fastforce
  with pv_compile_frame[of env "pol_expr pol" w] have "as_store w1 = as_store w" by simp
  with c Cons.IH show ?case by (auto split: sum.splits)
qed simp

lemma chain_validators:
  "store_frame (SecurityContextPolicy_Admit allowed)" "checks_only (ImageSignaturePolicy_Admit Verify)"
  "checks_only (QuotaPolicy_Admit List quota)" "checks_only (PolicyValidator_Admit env List')" "checks_only VolumeReplicasPolicy_Admit"
  "checks_only (VolumeOwnershipPolicy_Admit Get)"
proof -
  have "as_store w' = as_store w" if "policy_loop env view pols w = (r, w')" for view pols w r w'
    using policy_loop_frame[of env view pols w] that by simp
  then show "checks_only (PolicyValidator_Admit env List')"
    by (auto simp: checks_only_def store_frame_def PolicyValidator_Admit_def split: sum.splits if_splits prod.splits)
qed (auto simp: checks_only_def store_frame_def SecurityContextPolicy_Admit_def ImageSignaturePolicy_Admit_def QuotaPolicy_Admit_def
    VolumeReplicasPolicy_Admit_def VolumeOwnershipPolicy_Admit_def Let_def split: prod.splits sum.splits if_splits)

lemma chain_loop_checks_only:
  "list_all checks_only vs \<Longrightarrow> chain_loop vs req w = ((r, req'), w') \<Longrightarrow> req' = req \<and> as_store w' = as_store w"
proof (induction vs arbitrary: w)
  case (Cons v vs)
  obtain a req1 w1 where one: "v req w = ((a, req1), w1)" by (metis prod.collapse)
  with Cons.prems(1) checks_onlyD[of v req w] have "req1 = req" "as_store w1 = as_store w" by simp_all
  with one Cons show ?case by (cases a) auto
qed simp

lemma admission_chain_guards:
  "guards (admitted allowed Verify) (admission_chain allowed Verify pods quota env policies volumes)"
  unfolding guards_def
proof (intro allI impI)
  fix req :: Request and w r req' w'
  define r0 where "r0 = (if req_Replicas req \<le> 0 then req\<lparr>req_Replicas := 1\<rparr> else req)"
  assume "Chain_Admit (admission_chain allowed Verify pods quota env policies volumes) req w = ((r, req'), w')"
  then have run: "chain_loop (admission_chain allowed Verify pods quota env policies volumes) r0 w = ((r, req'), w')"
    by (simp add: Chain_Admit_def r0_def)
  obtain a req1 w1 where sec: "SecurityContextPolicy_Admit allowed r0 w = ((a, req1), w1)" by (metis prod.collapse)
  then have w1: "as_store w1 = as_store w" by (rule store_frameD[OF chain_validators(1)])
  show "as_store w' = as_store w \<and> (r = Inr () \<longrightarrow> admitted allowed Verify (PodSpec_GetContainers (req_Spec req')))"
  proof (cases a)
    case (Inl e)
    with run sec w1 show ?thesis by (auto simp: admission_chain_def)
  next
    case (Inr u)
    let ?rest = "tl (admission_chain allowed Verify pods quota env policies volumes)"
    from run sec Inr have rest: "chain_loop ?rest req1 w1 = ((r, req'), w')" by (simp add: admission_chain_def)
    have "list_all checks_only ?rest" by (simp add: admission_chain_def chain_validators)
    from chain_loop_checks_only[OF this rest] have eq: "req' = req1" "as_store w' = as_store w1" by simp_all
    note s = Security_Inr[OF sec[unfolded Inr]]
    have "admitted allowed Verify (PodSpec_GetContainers (req_Spec req1))" if "r = Inr ()"
    proof -
      obtain b req2 w2 where img: "ImageSignaturePolicy_Admit Verify req1 w1 = ((b, req2), w2)" by (metis prod.collapse)
      from rest img that obtain v where b: "b = Inr v" by (cases b) (auto simp: admission_chain_def)
      from img[unfolded b ImageSignature_Inr]
      have "\<forall>c \<in> set (PodSpec_GetContainers (req_Spec req1)). Verify (ctr_image c) = Inr ()" by (elim conjE)
      moreover from s have "\<forall>c \<in> set (PodSpec_GetContainers (req_Spec req1)). safe_container allowed c"
        by (auto simp: containers_defaulted safe_default)
      ultimately show ?thesis by (simp add: admitted_def)
    qed
    with eq w1 show ?thesis by simp
  qed
qed

section \<open>Everything stored has passed admission\<close>

lemma run_admitted:
  assumes "store_laws S good repr" "codec_laws (co_Pod co)" "codec_laws (co_Deployment co)"
    and "okc = admitted (splitCSV (af_allowedCapabilities fl)) (pt_Verify pt)"
    and "entries good repr (entry_ok (co_Pod co) (co_Deployment co) okc) (dw_store w)"
    and "list_all (trusted (co_Pod co) (co_Deployment co) okc) cs"
  shows "entries good repr (entry_ok (co_Pod co) (co_Deployment co) okc) (dw_store (cp_run fl pt co S cs w))"
proof -
  have pg: "pod_guard S good repr (co_Pod co) (co_Deployment co) okc"
    by (intro pod_guard.intro assms(1-3) pod_guard_axioms.intro) (simp add: assms(4) admitted_def)
  have g: "guards okc (admissionChain fl pt co S)"
    unfolding admissionChain_def assms(4) by (rule admission_chain_guards)
  from pod_guard.cp_run_keeps[OF pg refl refl g assms(6)] assms(5) show ?thesis by blast
qed

lemma entries_readable:
  assumes "entries good repr (entry_ok CP CD okc) s"
  shows "decodes repr CP kPods s" "decodes repr CD kDeployments s"
  using assms by (auto simp: entries_def decodes_def entry_ok_def pod_entry_def dep_entry_def)

text \<open>
  C3: whatever the control plane is asked to do, every container it has stored, in a pod or in the
  template of a deployment, has passed admission. Start with an empty store and take any
  sequence of RPCs by any callers, dashboard requests, and passes of the deployment, pod,
  node health and autoscaling controllers, with any outcome of the single writes; the only
  writes past admission are restored backups and Git manifests, and those must themselves
  satisfy it. Then the pods and deployments can be listed, and each of their containers has an
  unprivileged security context with a seccomp profile, no capability outside the allowed
  ones, and a verified image. The agents run what this list holds.
\<close>

theorem stored_containers_admitted:
  assumes "store_laws S good repr" "codec_laws (co_Pod co)" "codec_laws (co_Deployment co)"
    and "good (dw_store w)" "repr (dw_store w) = Map.empty"
    and "list_all (trusted (co_Pod co) (co_Deployment co) (admitted (splitCSV (af_allowedCapabilities fl)) (pt_Verify pt))) cs"
    and "s = dw_store (cp_run fl pt co S cs w)"
  shows "\<exists>pods deps. reg_List (reg_New S kPods (co_Pod co)) [] s = Inr pods \<and>
    reg_List (reg_New S kDeployments (co_Deployment co)) [] s = Inr deps \<and>
    (\<forall>c \<in> set (concat (map pod_containers pods @ map (\<lambda>d. PodSpec_GetContainers (dep_template d)) deps)).
       safe_container (splitCSV (af_allowedCapabilities fl)) c \<and> pt_Verify pt (ctr_image c) = Inr ())"
proof -
  let ?okc = "admitted (splitCSV (af_allowedCapabilities fl)) (pt_Verify pt)"
  have "entries good repr (entry_ok (co_Pod co) (co_Deployment co) ?okc) (dw_store w)"
    using assms(4,5) by (simp add: entries_def)
  from run_admitted[OF assms(1-3) refl this assms(6)]
  have run: "entries good repr (entry_ok (co_Pod co) (co_Deployment co) ?okc) s" by (simp add: assms(7))
  then have good: "good s" by (simp add: entries_def)
  have pg: "pod_guard S good repr (co_Pod co) (co_Deployment co) ?okc"
    by (intro pod_guard.intro assms(1-3) pod_guard_axioms.intro) (simp add: admitted_def)
  note ls = registry_laws.reg_List_ok[OF registry_laws.intro[OF assms(1)] good]
  obtain pods deps where l: "reg_List (reg_New S kPods (co_Pod co)) [] s = Inr pods"
      "reg_List (reg_New S kDeployments (co_Deployment co)) [] s = Inr deps"
    using ls[OF assms(2) entries_readable(1)[OF run]] ls[OF assms(3) entries_readable(2)[OF run]] by blast
  from pod_guard.list_pods[OF pg run l(1)] pod_guard.list_deps[OF pg run l(2)] l show ?thesis
    by (auto simp: admitted_def)
qed

text \<open>A control plane in memory, and a client's certificate.\<close>

definition secret_codec :: "(Secret, wire) codec" where
  "secret_codec = \<lparr>proto_Marshal = (\<lambda>x. Inr (WSecret x)),
     proto_Unmarshal = (\<lambda>b. case b of WSecret x \<Rightarrow> Inr x | _ \<Rightarrow> wrong_type)\<rparr>"

definition netpol_codec :: "(NetworkPolicy, wire) codec" where
  "netpol_codec = \<lparr>proto_Marshal = (\<lambda>x. Inr (WNetworkPolicy x)),
     proto_Unmarshal = (\<lambda>b. case b of WNetworkPolicy x \<Rightarrow> Inr x | _ \<Rightarrow> wrong_type)\<rparr>"

definition ex_codecs :: "wire codecs" where
  "ex_codecs = \<lparr>co_Pod = pod_codec, co_Node = node_codec, co_Deployment = dep_codec, co_Volume = vol_codec, co_Service = svc_codec,
     co_Namespace = namespace_codec, co_Policy = policy_codec, co_NetworkPolicy = netpol_codec, co_Secret = secret_codec,
     co_ImageRecord = image_codec\<rparr>"

definition ex_flags :: "rat apiserver_flags" where
  "ex_flags = \<lparr>af_nodeID = ''cp1'', af_apiAddr = '':7443'', af_raftAddr = ''127.0.0.1:7946'', af_dataDir = ''./data'',
     af_trustDomain = ''nimbuscore.local'', af_bootstrap = True, af_joinAddr = [], af_joinToken = ''token'', af_imagePubKeyFile = [],
     af_imageTrustFile = [], af_insecureSkipImageVerification = False, af_allowedCapabilities = [], af_cpuQuotaMillis = 0,
     af_memQuotaBytes = 0, af_otelExporter = ''none'', af_otlpEndpoint = ''127.0.0.1:4317'', af_csiHostpathDir = ''./data/volumes'',
     af_secretKeyRotationInterval = 24 * 3600 * Second, af_gitOpsRepoURL = [], af_gitOpsBranch = ''main'', af_gitOpsPath = [],
     af_gitOpsWorkDir = ''./data/gitops'', af_gitOpsSyncInterval = 30 * Second, af_costCPUCoreHour = 3 / 100,
     af_costMemoryGBHour = 4 / 1000, af_dashboardAddr = '':8080'', af_dashboardUsername = ''admin'', af_dashboardPassword = ''pw'',
     af_agentLogPort = 10250, af_agentFilesPort = 10251\<rparr>"

definition ex_parts :: "(string, string, unit, rat, string, string) cp_parts" where
  "ex_parts = \<lparr>pt_engine = ex_cel, pt_Verify = \<lambda>i. if i = ''img'' then Inr () else Inl (ErrText ''unsigned''), pt_ecdsa = ex_ecdsa,
     pt_imageSigningPub = None, pt_csi = \<lparr>csi_CreateVolume = \<lambda>i n. ret n, csi_DeleteVolume = \<lambda>i. ret ()\<rparr>, pt_expectMember = \<lambda>i. None,
     pt_FromURI = \<lambda>u. Inr \<lparr>id_TrustDomain = ''nimbuscore.local'', id_Path = u\<rparr>, pt_float = rat_ops\<rparr>"

definition ex_peer :: "string \<Rightarrow> peer_ctx" where
  "ex_peer path = \<lparr>peer_present = True, peer_tls = Some [[[path]]]\<rparr>"

definition ex_empty_world :: "(wire memStore, string, unit) dash_world" where
  "ex_empty_world = \<lparr>dw_adm = \<lparr>as_store = NewMemStore, as_compiled = []\<rparr>, dw_csi = ()\<rparr>"

text \<open>A client creates a deployment of two pods; the controller makes them.\<close>

definition ex_calls :: "(wire, rat) cp_call list" where
  "ex_calls = [Rpc 0 (ex_peer ''/client/alice'') (DeploymentRpc (OCreate (Some (ex_dep 2)))), DeploymentTick]"

interpretation mem_guard: pod_guard memStore mem_ok map_of pod_codec dep_codec "admitted [] (pt_Verify ex_parts)"
  by unfold_locales (simp add: admitted_def)

theorem stored_containers_admitted_witness:
  "\<exists>pods. reg_List (reg_New memStore kPods pod_codec) [] (dw_store (cp_run ex_flags ex_parts ex_codecs memStore ex_calls ex_empty_world)) = Inr pods \<and>
     length pods = 2 \<and> list_all (\<lambda>p. list_all (safe_container []) (pod_containers p)) pods"
proof -
  let ?s = "dw_store (cp_run ex_flags ex_parts ex_codecs memStore ex_calls ex_empty_world)"
  have two: "(case reg_List (reg_New memStore kPods pod_codec) [] ?s of Inr ps \<Rightarrow> length ps = 2 | _ \<Rightarrow> False)" by code_simp
  have co: "codec_laws (co_Pod ex_codecs)" "codec_laws (co_Deployment ex_codecs)"
    using mem_cluster.pods.codec_laws_axioms mem_cluster.deps.codec_laws_axioms by (simp_all add: ex_codecs_def)
  have caps: "splitCSV (af_allowedCapabilities ex_flags) = []" by code_simp
  have calls: "list_all (trusted (co_Pod ex_codecs) (co_Deployment ex_codecs)
      (admitted (splitCSV (af_allowedCapabilities ex_flags)) (pt_Verify ex_parts))) ex_calls"
    by (simp add: ex_calls_def trusted_def trusted_rpc_def)
  have w: "mem_ok (dw_store ex_empty_world)" "map_of (dw_store ex_empty_world) = Map.empty"
    by (simp_all add: ex_empty_world_def NewMemStore_def)
  have pc: "co_Pod ex_codecs = pod_codec" by (simp add: ex_codecs_def)
  obtain pods deps where l: "reg_List (reg_New memStore kPods pod_codec) [] ?s = Inr pods"
    and safe: "\<forall>c \<in> set (concat (map pod_containers pods @ map (\<lambda>d. PodSpec_GetContainers (dep_template d)) deps)). safe_container [] c"
    using stored_containers_admitted[OF mem.store_laws_axioms co w calls refl] unfolding caps pc by blast
  from safe have "list_all (\<lambda>p. list_all (safe_container []) (pod_containers p)) pods"
    unfolding list_all_iff set_concat set_append set_map by blast
  with two l show ?thesis by simp
qed

section \<open>A node's credential\<close>

text \<open>
  What a call with the credential of node \<open>N\<close> may change: the entries of nodes, and the status
  of pods that are bound to \<open>N\<close> or to no node.
\<close>

definition confined :: "('s \<Rightarrow> string \<rightharpoonup> 'b) \<Rightarrow> (Pod, 'b) codec \<Rightarrow> string \<Rightarrow> 's \<Rightarrow> 's \<Rightarrow> bool" where
  "confined repr CP N s s' \<longleftrightarrow> (\<forall>k. \<not> HasPrefix k (reg_prefix kNodes []) \<longrightarrow> repr s' k = repr s k \<or>
     (\<exists>p st. obj_at repr CP kPods s k = Some p \<and> pod_node p \<in> {[], N} \<and> obj_at repr CP kPods s' k = Some (p\<lparr>pod_status := st\<rparr>)))"

lemma confined_self [simp]: "confined repr CP N s s"
  by (simp add: confined_def)

lemma confined_trans:
  assumes "confined repr CP N s s'" "confined repr CP N s' s''"
  shows "confined repr CP N s s''"
  unfolding confined_def
proof (intro allI impI)
  fix k assume k: "\<not> HasPrefix k (reg_prefix kNodes [])"
  let ?B = "\<lambda>s s'. \<exists>p st. obj_at repr CP kPods s k = Some p \<and> pod_node p \<in> {[], N} \<and> obj_at repr CP kPods s' k = Some (p\<lparr>pod_status := st\<rparr>)"
  have same: "obj_at repr CP kPods s1 k = obj_at repr CP kPods s2 k" if "repr s1 k = repr s2 k" for s1 s2
    using that by (simp add: obj_at_def)
  from assms k have 1: "repr s' k = repr s k \<or> ?B s s'" and 2: "repr s'' k = repr s' k \<or> ?B s' s''"
    unfolding confined_def by blast+
  from 1 show "repr s'' k = repr s k \<or> ?B s s''"
  proof
    assume e: "repr s' k = repr s k"
    from 2 show ?thesis unfolding e same[OF e] .
  next
    assume b: "?B s s'"
    from 2 have "?B s s''"
    proof
      assume e: "repr s'' k = repr s' k"
      from b show ?thesis unfolding same[OF e] .
    next
      assume "?B s' s''"
      then obtain q st where q: "obj_at repr CP kPods s' k = Some q" "obj_at repr CP kPods s'' k = Some (q\<lparr>pod_status := st\<rparr>)" by blast
      from b obtain p st' where p: "obj_at repr CP kPods s k = Some p" "pod_node p \<in> {[], N}" "q = p\<lparr>pod_status := st'\<rparr>"
        using q(1) by auto
      have "obj_at repr CP kPods s'' k = Some (p\<lparr>pod_status := st\<rparr>)" using q(2) p(3) by simp
      with p(1,2) show ?thesis by blast
    qed
    then show ?thesis by (rule disjI2)
  qed
qed

text \<open>The methods a node reaches, as requests.\<close>

lemma node_requests:
  assumes "FullMethod r \<in> set node_methods"
  obtains x where "r = NodeRpc (OCreate x)" | name cap alloc where "r = HeartbeatRpc name cap alloc"
    | ns where "r = PodRpc (OList ns)" | ns n st where "r = UpdatePodStatusRpc ns n st" | ns where "r = ServiceRpc (OList ns)"
proof (cases r)
  case (PodRpc x)
  with assms that(3) show ?thesis by (cases x) (simp_all add: node_methods_def)
next
  case (NodeRpc x)
  with assms that(1) show ?thesis by (cases x) (simp_all add: node_methods_def)
next
  case (ServiceRpc x)
  with assms that(5) show ?thesis by (cases x) (simp_all add: node_methods_def)
next
  case (DeploymentRpc x)
  with assms show ?thesis by (cases x) (simp_all add: node_methods_def)
next
  case (NamespaceRpc x)
  with assms show ?thesis by (cases x) (simp_all add: node_methods_def)
next
  case (VolumeRpc x)
  with assms show ?thesis by (cases x) (simp_all add: node_methods_def)
next
  case (NetworkPolicyRpc x)
  with assms show ?thesis by (cases x) (simp_all add: node_methods_def)
next
  case (PolicyRpc x)
  with assms show ?thesis by (cases x) (simp_all add: node_methods_def)
next
  case (SecretRpc x)
  with assms show ?thesis by (cases x) (simp_all add: node_methods_def)
qed (use assms that(2,4) in \<open>simp_all add: node_methods_def\<close>)

lemma interceptor_node:
  assumes "PeerSPIFFEID FromURI ctx = Inr ident" "id_Path ident = ''/node/'' @ N"
    and "m \<notin> set node_methods" "m \<noteq> ''/nimbuscore.v1.IdentityService/RequestSVID''"
  shows "snd (AuthInterceptor FromURI trust DefaultRBACBindings ctx m h w) = w"
proof -
  have "\<not> Allow DefaultRBACBindings (id_Path ident) resource verb" if "map_of methodResourceVerb m = Some (resource, verb)" for resource verb
    using default_roles_exact[OF that, of N] assms(2,3) by simp
  with assms show ?thesis
    by (auto simp: AuthInterceptor_def unauthenticatedMethods_def throw_def split: option.splits)
qed

context store_laws
begin

lemma put_frame:
  assumes "inv s" "reg_Put (reg_New S kind C) ns n x s = (r, s')"
  shows "inv s' \<and> (abs s' = abs s \<or> (\<exists>b. proto_Marshal C x = Inr b \<and> abs s' = (abs s)(key_of kind ns n \<mapsto> b)))"
proof (cases "proto_Marshal C x")
  case (Inl e)
  with assms show ?thesis by (auto simp: registry_defs actions)
next
  case (Inr b)
  obtain r1 s1 where put: "st_Put S (key_of kind ns n) b s = (r1, s1)" by fastforce
  with Inr assms(2) have "s' = s1" by (auto simp: registry_defs actions split: sum.splits)
  with put Inr put_inv[OF assms(1), of "key_of kind ns n" b] put_ok[OF assms(1)] put_err[OF assms(1)] show ?thesis
    by (cases r1) auto
qed

end

lemma snd_mapA [simp]: "snd (mapA f a w) = snd (a w)"
  by (auto simp: mapA_def actions split: prod.splits sum.splits)

lemma csi_onDash [simp]: "dw_csi (snd (onDash a w)) = dw_csi w"
  by (simp add: onDash_def split: prod.splits)

lemma confined_decodes:
  assumes "confined repr CP N s s'" "decodes repr CP kPods s"
  shows "decodes repr CP kPods s'"
  unfolding decodes_def
proof (intro allI impI)
  fix k b assume k: "HasPrefix k (reg_prefix kPods [])" "repr s' k = Some b"
  then have "\<not> HasPrefix k (reg_prefix kNodes [])" using reg_prefix_kinds[of kPods kNodes k] by auto
  with assms(1) have "repr s k = Some b \<or> (\<exists>x. obj_at repr CP kPods s' k = Some x)" unfolding confined_def k(2)[symmetric] by metis
  with k assms(2) show "\<exists>x. proto_Unmarshal CP b = Inr x" by (auto simp: decodes_def obj_at_def split: sum.splits)
qed

lemma node_put_confined:
  assumes "store_laws S good repr" "good s" "reg_Put (reg_New S kNodes C) [] n x s = (r, s')"
  shows "good s' \<and> confined repr CP N s s'"
proof -
  have "repr s' k = repr s k" if "\<not> HasPrefix k (reg_prefix kNodes [])" for k
    using store_laws.put_frame[OF assms] that key_of_prefix[of kNodes "[]" n] by auto
  with store_laws.put_frame[OF assms] show ?thesis by (simp add: confined_def)
qed

lemma node_handlers_confined:
  assumes "store_laws S good repr" "good s"
  shows "good (snd (CreateNode (reg_New S kNodes C) x s)) \<and> confined repr CP N s (snd (CreateNode (reg_New S kNodes C) x s))"
    "good (snd (Heartbeat (reg_New S kNodes C) now name cap alloc s)) \<and>
     confined repr CP N s (snd (Heartbeat (reg_New S kNodes C) now name cap alloc s))"
  using assms(2)
  by (auto simp: CreateNode_def Heartbeat_def invalid_def api_put_def api_get_def actions split: option.splits sum.splits prod.splits
      dest: node_put_confined[OF assms])

lemma status_confined:
  assumes "registry_laws S good repr CP" "good s" "decodes repr CP kPods s" "id_Path ident = ''/node/'' @ N"
    and "UpdatePodStatus (NewPodService S CP chain) (Inr ident) ns n st s = (r, s')"
  shows "good s' \<and> confined repr CP N s s'"
proof -
  let ?R = "reg_New S kPods CP" and ?k = "key_of kPods ns n"
  have upd: "UpdatePodStatus (NewPodService S CP chain) (Inr ident) ns n st = bindA (api_get ''pod'' ?R ns n) (\<lambda>pod.
      if foreign_node (Inr ident) pod then throw (ErrStatus PermissionDenied ''node may not update status'')
      else api_put ''update pod status'' ?R ns n (pod\<lparr>pod_status := st\<rparr>))"
    by (simp only: UpdatePodStatus_def NewPodService_def podService.simps)
  note L = registry_laws.axioms[OF assms(1)]
  show ?thesis
  proof (cases "reg_Get ?R ns n s")
    case (Inl e)
    with assms(2,5) upd show ?thesis by (auto simp: api_get_def actions split: if_splits)
  next
    case (Inr p)
    then have p: "obj_at repr CP kPods s ?k = Some p"
      using registry_laws.reg_Get_obj_at[OF assms(1-3), of ns n] by (auto split: option.splits)
    show ?thesis
    proof (cases "foreign_node (Inr ident) p")
      case True
      with Inr assms(2,5) upd show ?thesis by (auto simp: api_get_def actions)
    next
      case False
      with assms(4) have node: "pod_node p \<in> {[], N}" by (auto simp: foreign_node_def HasPrefix_def TrimPrefix_def)
      from False Inr assms(5) upd obtain r' where put: "reg_Put ?R ns n (p\<lparr>pod_status := st\<rparr>) s = (r', s')"
        by (auto simp: api_get_def api_put_def actions split: prod.splits sum.splits)
      from store_laws.put_frame[OF L(1) assms(2) put] have good: "good s'" and
        eff: "repr s' = repr s \<or> (\<exists>b. proto_Marshal CP (p\<lparr>pod_status := st\<rparr>) = Inr b \<and> repr s' = (repr s)(?k \<mapsto> b))" by blast+
      from eff show ?thesis
      proof
        assume "repr s' = repr s"
        with good show ?thesis by (simp add: confined_def)
      next
        assume "\<exists>b. proto_Marshal CP (p\<lparr>pod_status := st\<rparr>) = Inr b \<and> repr s' = (repr s)(?k \<mapsto> b)"
        then obtain b where b: "proto_Unmarshal CP b = Inr (p\<lparr>pod_status := st\<rparr>)" "repr s' = (repr s)(?k \<mapsto> b)"
          using codec_laws.roundtrip[OF L(2)] by blast
        then have "obj_at repr CP kPods s' ?k = Some (p\<lparr>pod_status := st\<rparr>)" by (simp add: obj_at_def)
        with p node have "\<exists>p st. obj_at repr CP kPods s ?k = Some p \<and> pod_node p \<in> {[], N} \<and> obj_at repr CP kPods s' ?k = Some (p\<lparr>pod_status := st\<rparr>)"
          by blast
        moreover have "repr s' k = repr s k" if "k \<noteq> ?k" for k using b(2) that by simp
        ultimately have "confined repr CP N s s'" unfolding confined_def by metis
        with good show ?thesis by (rule conjI)
      qed
    qed
  qed
qed

lemma list_reads: "snd (ListPods svc ns s) = s" "snd (ListServices sv ns s) = s"
proof -
  have r: "snd (resolve sv x s) = s" for x s by (auto simp: resolve_def actions split: sum.splits)
  have "snd (resolve_all sv xs s) = s" for xs s
  proof (induction xs arbitrary: s)
    case (Cons x xs)
    obtain a s1 where one: "resolve sv x s = (a, s1)" by fastforce
    moreover obtain b s2 where "resolve_all sv xs s1 = (b, s2)" by fastforce
    ultimately show ?case using r[of x s] Cons[of s1] by (auto simp: actions split: sum.splits)
  qed (simp add: ret_def)
  then show "snd (ListServices sv ns s) = s" by (auto simp: ListServices_def actions split: sum.splits)
qed (simp add: ListPods_def api_list_def actions split: sum.splits)

lemma object_method_service:
  "svc \<noteq> [] \<Longrightarrow> hd svc \<noteq> CHR ''I'' \<Longrightarrow> object_method svc one many x \<noteq> ''/nimbuscore.v1.IdentityService/RequestSVID''"
  by (cases x; cases svc) simp_all

lemma rpc_methods: "FullMethod r \<noteq> ''/nimbuscore.v1.IdentityService/RequestSVID''"
  by (cases r) (simp_all add: object_method_service)

lemma register_auth [simp]:
  "cp_FromURI (register_services fl pt co S) = pt_FromURI pt" "cp_authz (register_services fl pt co S) = DefaultRBACBindings"
  "cp_podSvc (register_services fl pt co S) = NewPodService S (co_Pod co) (admissionChain fl pt co S)"
  "cp_nodeSvc (register_services fl pt co S) = NewNodeService S (co_Node co)"
  by (simp_all add: register_services_def)

lemma node_rpc_confined:
  assumes "registry_laws S good repr (co_Pod co)" "good (dw_store w)" "decodes repr (co_Pod co) kPods (dw_store w)"
    and "PeerSPIFFEID (pt_FromURI pt) ctx = Inr ident" "id_Path ident = ''/node/'' @ N"
    and "serve_rpc (register_services fl pt co S) now ctx r w = (res, w')"
  shows "good (dw_store w') \<and> confined repr (co_Pod co) N (dw_store w) (dw_store w') \<and> dw_csi w' = dw_csi w"
proof (cases "FullMethod r \<in> set node_methods")
  case False
  have "snd (serve_rpc (register_services fl pt co S) now ctx r w) = w"
    by (simp add: serve_rpc_def throw_def interceptor_node[OF assms(4,5) False rpc_methods])
  with assms(2,6) show ?thesis by simp
next
  case True
  let ?cp = "register_services fl pt co S"
  have h: "w' = w \<or> w' = snd (rpc_handler ?cp now (Inr ident) r w)"
    using assms(6) by (auto simp: serve_rpc_def AuthInterceptor_def assms(4) throw_def
        split: if_splits option.splits prod.splits)
  note L = registry_laws.axioms(1)[OF assms(1)]
  from True have "good (dw_store (snd (rpc_handler ?cp now (Inr ident) r w))) \<and>
      confined repr (co_Pod co) N (dw_store w) (dw_store (snd (rpc_handler ?cp now (Inr ident) r w))) \<and>
      dw_csi (snd (rpc_handler ?cp now (Inr ident) r w)) = dw_csi w"
  proof (cases rule: node_requests)
    case (4 ns n st)
    then show ?thesis using status_confined[OF assms(1-3,5) prod.collapse[symmetric], where chain = "admissionChain fl pt co S"] by simp
  qed (use assms(2) node_handlers_confined[OF L assms(2)] in
      \<open>simp_all add: NewNodeService_def list_reads Let_def\<close>)
  with h assms(2) show ?thesis by auto
qed

text \<open>Calls that carry the certificate of node \<open>N\<close>.\<close>

definition node_call :: "(string \<Rightarrow> spiffe_ID res) \<Rightarrow> string \<Rightarrow> ('b, 'f) cp_call \<Rightarrow> bool" where
  "node_call FromURI N c = (case c of Rpc now ctx r \<Rightarrow> (case PeerSPIFFEID FromURI ctx of Inl e \<Rightarrow> False | Inr ident \<Rightarrow> id_Path ident = ''/node/'' @ N)
     | _ \<Rightarrow> False)"

lemma node_run_confined:
  assumes "registry_laws S good repr (co_Pod co)"
  shows "good (dw_store w) \<Longrightarrow> decodes repr (co_Pod co) kPods (dw_store w) \<Longrightarrow> list_all (node_call (pt_FromURI pt) N) cs \<Longrightarrow>
    confined repr (co_Pod co) N (dw_store w) (dw_store (cp_run fl pt co S cs w))"
proof (induction cs arbitrary: w)
  case (Cons c cs)
  then obtain now ctx r ident where c: "c = Rpc now ctx r" "PeerSPIFFEID (pt_FromURI pt) ctx = Inr ident" "id_Path ident = ''/node/'' @ N"
    by (auto simp: node_call_def split: cp_call.splits sum.splits)
  note 1 = node_rpc_confined[OF assms Cons.prems(1,2) c(2,3) prod.collapse[symmetric], of fl now r]
  then have step: "good (dw_store (cp_step fl pt co S c w))" "confined repr (co_Pod co) N (dw_store w) (dw_store (cp_step fl pt co S c w))"
    by (simp_all add: c(1))
  from Cons.IH[OF step(1) confined_decodes[OF step(2) Cons.prems(2)]] Cons.prems(3)
  show ?case by (auto intro: confined_trans[OF step(2)])
qed simp

text \<open>
  C6: a worker node's credential is confined. Whatever RPCs are made with the certificate of node
  \<open>N\<close>, in any number and order, and whatever they carry: every entry of the store that is not a
  node's is as before, except that pods bound to \<open>N\<close>, or to no node yet, may have another
  status; their metadata and specification stay. So a stolen node certificate changes no
  deployment, service, secret, policy, volume or image record, and nothing about the pods of
  other nodes. It may change any entry of a node, its own or another's.
\<close>

theorem node_credential_confined:
  assumes "registry_laws S good repr (co_Pod co)" "good (dw_store w)" "decodes repr (co_Pod co) kPods (dw_store w)"
    and "list_all (node_call (pt_FromURI pt) N) cs" "\<not> HasPrefix k (reg_prefix kNodes [])"
    and "s' = dw_store (cp_run fl pt co S cs w)"
  shows "repr s' k = repr (dw_store w) k \<or>
    (\<exists>p st. obj_at repr (co_Pod co) kPods (dw_store w) k = Some p \<and> pod_node p \<in> {[], N} \<and>
       obj_at repr (co_Pod co) kPods s' k = Some (p\<lparr>pod_status := st\<rparr>))"
  using node_run_confined[OF assms(1-4)] assms(5) unfolding confined_def assms(6) by blast

text \<open>
  That a node may write the entries of other nodes is the handlers' doing: past the interceptor,
  neither \<open>NodeService\<close>'s object methods nor \<open>Heartbeat\<close> look at the caller.
\<close>

lemma node_calls_ignore_caller:
  "rpc_handler cp now caller (NodeRpc r) = rpc_handler cp now caller' (NodeRpc r)"
  "rpc_handler cp now caller (HeartbeatRpc name cap alloc) = rpc_handler cp now caller' (HeartbeatRpc name cap alloc)"
  by simp_all

text \<open>A node reports on a pod of another node, writes a secret, and registers under the other's name.\<close>

definition ex_bound_world :: "(wire memStore, string, unit) dash_world" where
  "ex_bound_world = \<lparr>dw_adm = \<lparr>as_store = ex_bound, as_compiled = []\<rparr>, dw_csi = ()\<rparr>"

definition ex_node_calls :: "(wire, rat) cp_call list" where
  "ex_node_calls =
     [Rpc 0 (ex_peer ''/node/n2'') (UpdatePodStatusRpc ''default'' ''a'' None),
      Rpc 0 (ex_peer ''/node/n2'') (SecretRpc (OCreate (Some \<lparr>sec_metadata = Some (zero_ObjectMeta\<lparr>meta_name := ''s''\<rparr>), sec_data = []\<rparr>))),
      Rpc 0 (ex_peer ''/node/n2'') (NodeRpc (OCreate (Some (ex_node_obj ''n1''))))]"

theorem node_credential_confined_witness:
  "map_of (dw_store (cp_run ex_flags ex_parts ex_codecs memStore ex_node_calls ex_bound_world)) (key_of kPods ''default'' ''a'') =
     Some (WPod (ex_pod_obj ''a'' ''n1'' [80]))"
proof -
  let ?k = "key_of kPods ''default'' ''a''"
  have R: "registry_laws memStore mem_ok map_of (co_Pod ex_codecs)"
    using mem_cluster.pods.registry_laws_axioms by (simp add: ex_codecs_def)
  have w: "mem_ok (dw_store ex_bound_world)" "decodes map_of (co_Pod ex_codecs) kPods (dw_store ex_bound_world)"
    by (auto simp: ex_bound_world_def ex_bound_def decodes_def ex_codecs_def codec_defs split: if_splits)
  have calls: "list_all (node_call (pt_FromURI ex_parts) ''n2'') ex_node_calls"
    by (simp add: ex_node_calls_def node_call_def ex_peer_def PeerSPIFFEID_def ex_parts_def)
  have k: "\<not> HasPrefix ?k (reg_prefix kNodes [])" "map_of (dw_store ex_bound_world) ?k = Some (WPod (ex_pod_obj ''a'' ''n1'' [80]))"
    by (simp_all add: key_of_def HasPrefix_def reg_prefix_def ex_bound_world_def ex_bound_def)
  have n: "obj_at map_of (co_Pod ex_codecs) kPods (dw_store ex_bound_world) ?k = Some p \<Longrightarrow> pod_node p = ''n1''" for p
    using k(2) by (auto simp: obj_at_def ex_codecs_def codec_defs ex_object_defs split: if_splits)
  from node_credential_confined[OF R w calls k(1) refl, where fl = ex_flags] n k(2) show ?thesis by fastforce
qed

end
