(* ===== verification/Loops.thy ===== *)
theory Loops
  imports Guarded
begin

text \<open>
  The ticker loops of the program: the \<open>Reconcile\<close> methods of the controllers, the heartbeat loop of
  the agent and the two loops that renew certificates. Each waits for a tick or the end of its
  context and runs its body once per tick. A run is given by the events it sees, in the order in
  which \<open>select\<close> takes them; a tick carries what the body reads from outside (the time, random
  draws). A panic in the body ends the process.
\<close>

section \<open>The loop\<close>

datatype 'e event = Tick 'e | Done

datatype loop_end = Looping | Cancelled | Crashed error

fun ticker_loop :: "('e \<Rightarrow> ('s, unit) action) \<Rightarrow> 'e event list \<Rightarrow> 's \<Rightarrow> loop_end \<times> 's" where
  "ticker_loop body [] s = (Looping, s)"
| "ticker_loop body (Done # es) s = (Cancelled, s)"
| "ticker_loop body (Tick e # es) s =
     (case body e s of (Inl err, s') \<Rightarrow> (Crashed err, s') | (Inr _, s') \<Rightarrow> ticker_loop body es s')"

text \<open>A body that cannot fail.\<close>

definition total :: "('e \<Rightarrow> 's \<Rightarrow> 's) \<Rightarrow> 'e \<Rightarrow> ('s, unit) action" where
  "total f e s = (Inr (), f e s)"

section \<open>The loops of the program\<close>

definition deployment_Reconcile :: "('s, 'b) DeploymentReconciler \<Rightarrow> unit event list \<Rightarrow> 's \<Rightarrow> loop_end \<times> 's" where
  "deployment_Reconcile r = ticker_loop (\<lambda>_. reconcileAll r)"

definition pod_Reconcile :: "('s, 'b) PodReconciler \<Rightarrow> unit event list \<Rightarrow> 's \<Rightarrow> loop_end \<times> 's" where
  "pod_Reconcile r = ticker_loop (total (\<lambda>_. pod_reconcileAll r))"

definition health_Reconcile :: "('s, 'b) NodeHealthReconciler \<Rightarrow> int event list \<Rightarrow> 's \<Rightarrow> loop_end \<times> 's" where
  "health_Reconcile r = ticker_loop (total (checkAll r))"

definition hpa_Reconcile :: "'f float_ops \<Rightarrow> ('s, 'b) HorizontalAutoscaler \<Rightarrow> unit event list \<Rightarrow> 's \<Rightarrow> loop_end \<times> 's" where
  "hpa_Reconcile F r = ticker_loop (\<lambda>_. hpa_reconcileAll F r)"

definition rotation_Reconcile :: "('r, 'g, 'l) raft_env \<Rightarrow> unit event list \<Rightarrow> ('r, 'g) RaftStore \<Rightarrow> loop_end \<times> ('r, 'g) RaftStore" where
  "rotation_Reconcile E = ticker_loop (total (\<lambda>_. key_rotate E))"

text \<open>The GitOps controller synchronises once before it waits; \<open>now0\<close> is the time of that.\<close>

definition gitops_Reconcile :: "('g, 'w) git_env \<Rightarrow> io_env \<Rightarrow> (bytes \<Rightarrow> Deployment res) \<Rightarrow> ('s, 'b) Reconciler \<Rightarrow> int64 \<Rightarrow>
    int64 event list \<Rightarrow> 's gitops_world \<Rightarrow> loop_end \<times> 's gitops_world" where
  "gitops_Reconcile git io Unmarshal r now0 es = ticker_loop (\<lambda>now. gitops_tick git io Unmarshal now r) (Tick now0 # es)"

text \<open>What \<open>Status\<close> returns.\<close>

definition gitops_status :: "'s gitops_world \<Rightarrow> gitops_Status" where
  "gitops_status w = gw_status w"

definition heartbeatLoop :: "(string \<Rightarrow> ResourceList option \<Rightarrow> ResourceList option \<Rightarrow> ('w, bool) action) \<Rightarrow> string \<Rightarrow> ResourceList \<Rightarrow>
    unit event list \<Rightarrow> 'w \<Rightarrow> loop_end \<times> 'w" where
  "heartbeatLoop client name capacity = ticker_loop (\<lambda>_. heartbeat_tick client name capacity)"

text \<open>A tick of the renewal loops brings the time, the new key and the serial number, or the answers of the network.\<close>

definition StartSelfIssueRotateLoop :: "('key, 'csr, 'pub, 'cert) id_env \<Rightarrow> ('cert, 'key) keyedCA \<Rightarrow> string \<Rightarrow> int64 \<Rightarrow>
    (int \<times> 'key res \<times> int res) event list \<Rightarrow> ('key, 'cert) SVID \<Rightarrow> loop_end \<times> ('key, 'cert) SVID" where
  "StartSelfIssueRotateLoop E ca path ttl = ticker_loop (total (\<lambda>(now, draw, serial). self_issue_tick E now draw serial ca path ttl))"

definition StartReenrollRotateLoop :: "('key, 'csr, 'pub, 'cert) id_env \<Rightarrow> EnrollConfig \<Rightarrow>
    ((string \<Rightarrow> error option) \<times> (string \<Rightarrow> RequestSVIDRequest \<Rightarrow> RequestSVIDResponse res) \<times> 'key res) event list \<Rightarrow>
    ('key, 'cert) SVID \<Rightarrow> loop_end \<times> ('key, 'cert) SVID" where
  "StartReenrollRotateLoop E cfg = ticker_loop (total (\<lambda>(dial, rpc, draw). reenroll_tick E dial rpc draw cfg))"

section \<open>What a loop keeps\<close>

text \<open>The contract between a loop and its body: an invariant the body keeps, for ticks the environment may send.\<close>

locale ticker =
  fixes body :: "'e \<Rightarrow> ('s, unit) action" and I :: "'s \<Rightarrow> bool" and sent :: "'e \<Rightarrow> bool"
  assumes body_keeps: "I s \<Longrightarrow> sent e \<Longrightarrow> I (snd (body e s))"
begin

lemma loop_keeps: "I s \<Longrightarrow> (\<And>e. Tick e \<in> set es \<Longrightarrow> sent e) \<Longrightarrow> I (snd (ticker_loop body es s))"
proof (induction es arbitrary: s)
  case (Cons e es)
  show ?case
  proof (cases e)
    case (Tick x)
    obtain r s' where run: "body x s = (r, s')" by fastforce
    with body_keeps[OF Cons.prems(1), of x] Cons.prems(2) Tick have "I s'" by simp
    with Cons.IH[of s'] Cons.prems(2) Tick run show ?thesis by (auto split: sum.splits)
  qed (use Cons.prems in simp)
qed simp

end

text \<open>A loop ends exactly when its context does, unless its body panics; what follows the end is not looked at.\<close>

lemma loop_end_iff:
  assumes "\<And>e s. Tick e \<in> set es \<Longrightarrow> \<not> isl (fst (body e s))"
  shows "fst (ticker_loop body es s) = (if Done \<in> set es then Cancelled else Looping)"
  using assms
proof (induction es arbitrary: s)
  case (Cons e es)
  show ?case
  proof (cases e)
    case (Tick x)
    obtain r s' where run: "body x s = (r, s')" by fastforce
    with Cons.prems[of x s] Tick have "\<not> isl r" by simp
    with Cons.IH[of s'] Cons.prems Tick run show ?thesis by (cases r) auto
  qed simp
qed simp

lemma loop_after_done: "ticker_loop body (es @ Done # rest) s = ticker_loop body (es @ [Done]) s"
  by (induction body es s rule: ticker_loop.induct) (auto split: prod.splits sum.splits)

sublocale pod_guard \<subseteq> dep_loop: ticker "\<lambda>_ :: unit. reconcileAll (NewDeploymentReconciler DR PR nodes (reg_New S kVolumes CV) sched rs)" I "\<lambda>_. True"
  for nodes CV sched rs
  by unfold_locales (rule keepsD[OF deployment_pass_keeps])

sublocale pod_guard \<subseteq> pod_loop: ticker "total (\<lambda>_ :: unit. pod_reconcileAll (NewPodReconciler PR nodes sched rs))" I "\<lambda>_. True"
  for nodes sched rs
  by unfold_locales (simp add: total_def pod_pass_keeps)

section \<open>Certificates\<close>

text \<open>A client of an identity service, with the laws of X.509 and SPIFFE.\<close>

locale enrolled =
  fixes E :: "('key, 'csr, 'pub, 'cert) id_env" and X :: "('csr, 'pub, 'cert) x509_env" and svc :: "'cert identityService"
    and valid :: "'cert \<Rightarrow> int" and cfg :: EnrollConfig
  assumes x509: "x509_laws X (ie_URIs E) valid" and ids: "id_laws E X (ca_trustDomain (is_ca svc))"
begin

definition holds_identity :: "('key, 'cert) SVID \<Rightarrow> bool" where
  "holds_identity svid \<longleftrightarrow> (\<exists>ident. SVID_ID E svid = Inr ident \<and> id_TrustDomain ident = ca_trustDomain (is_ca svc) \<and>
     role_path (ec_Role cfg) (ec_Name cfg) = Some (id_Path ident)) \<and> svid_bundle svid = [ca_cert (is_ca svc)]"

definition served_by :: "(string \<Rightarrow> error option) \<times> (string \<Rightarrow> RequestSVIDRequest \<Rightarrow> RequestSVIDResponse res) \<times> 'key res \<Rightarrow> bool" where
  "served_by = (\<lambda>(dial, rpc, draw). \<exists>now serial. rpc = (\<lambda>addr. RequestSVID X svc now serial))"

lemma enrol_holds: "Enroll E dial (\<lambda>addr. RequestSVID X svc now serial) draw cfg = Inr (svid, dek) \<Longrightarrow> holds_identity svid"
  unfolding holds_identity_def by (erule enroll_result[OF x509 ids]) blast

lemma tick_holds:
  assumes "holds_identity svid" "served_by (dial, rpc, draw)"
  shows "holds_identity (reenroll_tick E dial rpc draw cfg svid)"
proof (cases "Enroll E dial rpc draw cfg")
  case (Inr r)
  obtain renewed dek where r: "r = (renewed, dek)" by fastforce
  from assms(2) Inr r have "holds_identity renewed" by (auto simp: served_by_def intro: enrol_holds)
  with assms(1) Inr r show ?thesis
    by (auto simp: holds_identity_def reenroll_tick_def Materials_def Rotate_def SVID_ID_def)
qed (simp add: reenroll_tick_def assms(1))

end

sublocale enrolled \<subseteq> renewal: ticker "total (\<lambda>(dial, rpc, draw). reenroll_tick E dial rpc draw cfg)" holds_identity served_by
  by unfold_locales (auto simp: total_def intro: tick_holds)

context enrolled
begin

lemma renewal_loop_holds:
  "holds_identity svid \<Longrightarrow> (\<And>e. Tick e \<in> set es \<Longrightarrow> served_by e) \<Longrightarrow> holds_identity (snd (StartReenrollRotateLoop E cfg es svid))"
  unfolding StartReenrollRotateLoop_def by (rule renewal.loop_keeps)

end

text \<open>
  C29: what enrolment gives, the renewal loop keeps for as long as it runs. Enrolled with the
  identity service, a client holds a certificate for the identity of the role and name it asked
  for in the service's trust domain, trusts exactly the service's CA, and has the
  data-encryption key only as a control-plane replica; and after any number of ticks of its
  rotation loop, with any keys, serial numbers and times and whether or not the single renewals
  work, it has the same identity and the same trust. The loop ends exactly when its context does.
\<close>

theorem renewal_loop_keeps_identity:
  assumes "x509_laws X (ie_URIs E) valid" "id_laws E X (ca_trustDomain (is_ca svc))"
    and "Enroll E dial (\<lambda>addr. RequestSVID X svc now serial) draw cfg = Inr (svid, dek)"
    and "\<forall>e. Tick e \<in> set es \<longrightarrow> (\<exists>dial' now' serial' draw'. e = (dial', \<lambda>addr. RequestSVID X svc now' serial', draw'))"
    and "StartReenrollRotateLoop E cfg es svid = (r, svid')"
  shows "\<exists>ident. SVID_ID E svid = Inr ident \<and> id_TrustDomain ident = ca_trustDomain (is_ca svc) \<and>
    role_path (ec_Role cfg) (ec_Name cfg) = Some (id_Path ident) \<and> SVID_ID E svid' = Inr ident \<and>
    svid_bundle svid' = [ca_cert (is_ca svc)] \<and> (ec_Role cfg \<noteq> SVID_ROLE_CONTROL_PLANE \<longrightarrow> dek = []) \<and>
    r = (if Done \<in> set es then Cancelled else Looping)"
proof -
  have en: "enrolled E X svc valid" by (intro enrolled.intro assms(1,2))
  note held = enrolled.holds_identity_def[OF en, of cfg]
  have start: "enrolled.holds_identity E svc cfg svid" by (rule enrolled.enrol_holds[OF en assms(3)])
  have sent: "enrolled.served_by X svc e" if "Tick e \<in> set es" for e
    using assms(4) that unfolding enrolled.served_by_def[OF en] by blast
  from enrolled.renewal_loop_holds[OF en start, of es] sent assms(5) have later: "enrolled.holds_identity E svc cfg svid'" by simp
  have "r = (if Done \<in> set es then Cancelled else Looping)"
    using loop_end_iff[of es "total (\<lambda>(dial, rpc, draw). reenroll_tick E dial rpc draw cfg)" svid] assms(5)
    by (simp add: StartReenrollRotateLoop_def total_def)
  moreover have "ec_Role cfg \<noteq> SVID_ROLE_CONTROL_PLANE \<longrightarrow> dek = []" by (rule enroll_result[OF assms(1-3)]) simp
  ultimately show ?thesis using start later unfolding held by (metis option.inject spiffe_ID.equality old.unit.exhaust)
qed

interpretation ex_client: enrolled ex_ids ex_ca_x509 ex_ca_service "\<lambda>_. 3600000000000" ex_worker
  by unfold_locales (use ex_ca_laws in \<open>simp_all add: ex_ca_service_def\<close>)

text \<open>A worker renews once, fails once to reach the control plane, and is shut down.\<close>

definition ex_renewals :: "((string \<Rightarrow> error option) \<times> (string \<Rightarrow> RequestSVIDRequest \<Rightarrow> RequestSVIDResponse res) \<times> string res) event list" where
  "ex_renewals = [Tick (\<lambda>a. None, \<lambda>addr. RequestSVID ex_ca_x509 ex_ca_service 5 (Inr 2), Inr ''k2''),
     Tick (\<lambda>a. Some (ErrText ''refused''), \<lambda>addr. RequestSVID ex_ca_x509 ex_ca_service 6 (Inr 3), Inr ''k3''), Done]"

theorem renewal_loop_keeps_identity_witness:
  "\<exists>svid svid' ident. Enroll ex_ids (\<lambda>a. None) (\<lambda>addr. RequestSVID ex_ca_x509 ex_ca_service 0 (Inr 1)) (Inr ''k'') ex_worker = Inr (svid, []) \<and>
     StartReenrollRotateLoop ex_ids ex_worker ex_renewals svid = (Cancelled, svid') \<and> id_Path ident = ''/node/w1'' \<and> SVID_ID ex_ids svid' = Inr ident"
proof -
  define svid where "svid = NewSVID ''k'' ''spiffe://nimbus/node/w1'' [''ca'']"
  have e: "Enroll ex_ids (\<lambda>a. None) (\<lambda>addr. RequestSVID ex_ca_x509 ex_ca_service 0 (Inr 1)) (Inr ''k'') ex_worker = Inr (svid, [])"
    unfolding svid_def by code_simp
  have sent: "\<forall>e. Tick e \<in> set ex_renewals \<longrightarrow>
      (\<exists>dial' now' serial' draw'. e = (dial', \<lambda>addr. RequestSVID ex_ca_x509 ex_ca_service now' serial', draw'))"
    by (auto simp: ex_renewals_def)
  have fin: "Done \<in> set ex_renewals" by (simp add: ex_renewals_def)
  have role: "role_path (ec_Role ex_worker) (ec_Name ex_worker) = Some ''/node/w1''" by (simp add: ex_worker_def)
  from renewal_loop_keeps_identity[OF ex_client.x509 ex_client.ids e sent prod.collapse[symmetric]] e fin role
  show ?thesis by (metis option.inject prod.collapse)
qed

end
