(* ===== verification/Telemetry.thy ===== *)
theory Telemetry
  imports Prelude
begin

text \<open>
  \<^verbatim>\<open>internal/telemetry/telemetry.go\<close>: the choice of an OpenTelemetry exporter, the global providers, and
  the shutdown. The SDK is the parameter \<open>otel_env\<close>: the constructors of the four exporters, which
  may fail, and what the shutdown of a provider over an exporter returns.
\<close>

section \<open>Definitions\<close>

record telemetry_Config =
  tc_ServiceName :: string
  tc_Exporter :: string
  tc_OTLPEndpoint :: string

record ('te, 'me) otel_env =
  ot_stdouttrace_New :: "'te res"
  ot_stdoutmetric_New :: "'me res"
  ot_otlptrace_New :: "string \<Rightarrow> 'te res"
  ot_otlpmetric_New :: "string \<Rightarrow> 'me res"
  ot_tp_Shutdown :: "'te \<Rightarrow> unit res"
  ot_mp_Shutdown :: "'me \<Rightarrow> unit res"

text \<open>A provider: the one that does nothing, or one over an exporter with the name of its resource.\<close>

datatype 'x provider = Noop | Sdk 'x "(string \<times> string) list"

text \<open>The global providers, and the exporters whose providers have been asked to shut down.\<close>

record ('te, 'me) otel_world =
  ow_tracer :: "'te provider"
  ow_meter :: "'me provider"
  ow_stopped :: "('te + 'me) list"

record ('te, 'me) Provider =
  pr_TracerProvider :: "'te provider"
  pr_MeterProvider :: "'me provider"
  pr_shutdown :: "(('te, 'me) otel_world, unit) action"

definition newResource :: "string \<Rightarrow> (string \<times> string) list" where
  "newResource serviceName = [(''service.name'', serviceName)]"

definition tp_Shutdown :: "('te, 'me) otel_env \<Rightarrow> 'te \<Rightarrow> (('te, 'me) otel_world, unit) action" where
  "tp_Shutdown env x w = (ot_tp_Shutdown env x, w\<lparr>ow_stopped := ow_stopped w @ [Inl x]\<rparr>)"

definition mp_Shutdown :: "('te, 'me) otel_env \<Rightarrow> 'me \<Rightarrow> (('te, 'me) otel_world, unit) action" where
  "mp_Shutdown env y w = (ot_mp_Shutdown env y, w\<lparr>ow_stopped := ow_stopped w @ [Inr y]\<rparr>)"

text \<open>The end both set-ups share: the providers, made global, and their shutdown in order.\<close>

definition install :: "('te, 'me) otel_env \<Rightarrow> string \<Rightarrow> 'te \<Rightarrow> 'me \<Rightarrow> (('te, 'me) otel_world, ('te, 'me) Provider) action" where
  "install env serviceName traceExporter metricExporter w =
     (let res = newResource serviceName; tp = Sdk traceExporter res; mp = Sdk metricExporter res
      in (Inr \<lparr>pr_TracerProvider = tp, pr_MeterProvider = mp,
               pr_shutdown = bindA (tp_Shutdown env traceExporter) (\<lambda>_. mp_Shutdown env metricExporter)\<rparr>,
          w\<lparr>ow_tracer := tp, ow_meter := mp\<rparr>))"

definition setupStdout :: "('te, 'me) otel_env \<Rightarrow> telemetry_Config \<Rightarrow> (('te, 'me) otel_world, ('te, 'me) Provider) action" where
  "setupStdout env cfg =
     (case ot_stdouttrace_New env of
        Inl err \<Rightarrow> throw (ErrWrap ''telemetry: stdout trace exporter'' err)
      | Inr traceExporter \<Rightarrow>
     (case ot_stdoutmetric_New env of
        Inl err \<Rightarrow> throw (ErrWrap ''telemetry: stdout metric exporter'' err)
      | Inr metricExporter \<Rightarrow> install env (tc_ServiceName cfg) traceExporter metricExporter))"

definition setupOTLP :: "('te, 'me) otel_env \<Rightarrow> telemetry_Config \<Rightarrow> (('te, 'me) otel_world, ('te, 'me) Provider) action" where
  "setupOTLP env cfg =
     (case ot_otlptrace_New env (tc_OTLPEndpoint cfg) of
        Inl err \<Rightarrow> throw (ErrWrap ''telemetry: otlp trace exporter'' err)
      | Inr traceExporter \<Rightarrow>
     (case ot_otlpmetric_New env (tc_OTLPEndpoint cfg) of
        Inl err \<Rightarrow> throw (ErrWrap ''telemetry: otlp metric exporter'' err)
      | Inr metricExporter \<Rightarrow> install env (tc_ServiceName cfg) traceExporter metricExporter))"

definition telemetry_Setup :: "('te, 'me) otel_env \<Rightarrow> telemetry_Config \<Rightarrow> (('te, 'me) otel_world, ('te, 'me) Provider) action" where
  "telemetry_Setup env cfg =
     (if tc_Exporter cfg = [] \<or> tc_Exporter cfg = ''none''
      then ret \<lparr>pr_TracerProvider = Noop, pr_MeterProvider = Noop, pr_shutdown = ret ()\<rparr>
      else if tc_Exporter cfg = ''stdout'' then setupStdout env cfg
      else if tc_Exporter cfg = ''otlp'' then setupOTLP env cfg
      else throw (ErrText ''telemetry: unknown exporter''))"

definition telemetry_Shutdown :: "('te, 'me) Provider \<Rightarrow> (('te, 'me) otel_world, unit) action" where
  "telemetry_Shutdown p = pr_shutdown p"

section \<open>Set-up and shutdown\<close>

text \<open>The exporters a configuration asks for, if it asks for any.\<close>

definition exporters :: "('te, 'me) otel_env \<Rightarrow> telemetry_Config \<Rightarrow> ('te res \<times> 'me res) option" where
  "exporters env cfg =
     (if tc_Exporter cfg = ''stdout'' then Some (ot_stdouttrace_New env, ot_stdoutmetric_New env)
      else if tc_Exporter cfg = ''otlp'' then Some (ot_otlptrace_New env (tc_OTLPEndpoint cfg), ot_otlpmetric_New env (tc_OTLPEndpoint cfg))
      else None)"

text \<open>
  C40: telemetry is set up completely or not at all. Without an exporter, set-up succeeds with the
  providers that do nothing and leaves the global ones alone. With \<open>stdout\<close> or \<open>otlp\<close> it succeeds
  exactly when both exporters can be made, and then the global tracer and meter are the two
  returned, under the name of the service; the shutdown stops the tracer, and the meter only
  when the tracer's shutdown reports no error. Any other name, and any exporter that cannot be
  made, is an error after which the global providers are as before.
\<close>

theorem telemetry_all_or_nothing:
  assumes "telemetry_Setup env cfg w = (r, w')"
  shows "case exporters env cfg of
      None \<Rightarrow> w' = w \<and> (case r of Inl e \<Rightarrow> tc_Exporter cfg \<notin> {[], ''none''}
        | Inr p \<Rightarrow> tc_Exporter cfg \<in> {[], ''none''} \<and> pr_TracerProvider p = Noop \<and> pr_MeterProvider p = Noop \<and>
            telemetry_Shutdown p w = (Inr (), w))
    | Some (Inr x, Inr y) \<Rightarrow> (\<exists>p. r = Inr p \<and> w' = w\<lparr>ow_tracer := pr_TracerProvider p, ow_meter := pr_MeterProvider p\<rparr> \<and>
        pr_TracerProvider p = Sdk x [(''service.name'', tc_ServiceName cfg)] \<and>
        pr_MeterProvider p = Sdk y [(''service.name'', tc_ServiceName cfg)] \<and>
        ow_stopped (snd (telemetry_Shutdown p w)) = ow_stopped w @ (if isl (ot_tp_Shutdown env x) then [Inl x] else [Inl x, Inr y]))
    | Some _ \<Rightarrow> isl r \<and> w' = w"
  using assms
  by (auto simp: telemetry_Setup_def exporters_def setupStdout_def setupOTLP_def install_def newResource_def telemetry_Shutdown_def
      tp_Shutdown_def mp_Shutdown_def actions Let_def split: if_splits sum.splits prod.splits)

definition ex_otel :: "(string, nat) otel_env" where
  "ex_otel = \<lparr>ot_stdouttrace_New = Inr ''out'', ot_stdoutmetric_New = Inr 1, ot_otlptrace_New = (\<lambda>a. Inr a),
     ot_otlpmetric_New = (\<lambda>a. Inl (ErrText ''unavailable'')), ot_tp_Shutdown = (\<lambda>x. Inr ()), ot_mp_Shutdown = (\<lambda>y. Inr ())\<rparr>"

definition ex_otel_world :: "(string, nat) otel_world" where
  "ex_otel_world = \<lparr>ow_tracer = Noop, ow_meter = Noop, ow_stopped = []\<rparr>"

theorem telemetry_all_or_nothing_witness:
  "isl (fst (telemetry_Setup ex_otel \<lparr>tc_ServiceName = ''nimbus-agent'', tc_Exporter = ''otlp'', tc_OTLPEndpoint = ''c:4317''\<rparr> ex_otel_world)) \<and>
   snd (telemetry_Setup ex_otel \<lparr>tc_ServiceName = ''nimbus-agent'', tc_Exporter = ''otlp'', tc_OTLPEndpoint = ''c:4317''\<rparr> ex_otel_world) = ex_otel_world"
  using telemetry_all_or_nothing[OF prod.collapse[symmetric], of ex_otel
      "\<lparr>tc_ServiceName = ''nimbus-agent'', tc_Exporter = ''otlp'', tc_OTLPEndpoint = ''c:4317''\<rparr>" ex_otel_world]
  by (simp add: exporters_def ex_otel_def)

end
