(* ===== verification/Server.thy ===== *)
theory Server
  imports Commands
begin

text \<open>
  The gRPC server (\<^verbatim>\<open>internal/apiserver/server.go\<close>), the TLS configurations of \<^verbatim>\<open>internal/identity/svid.go\<close>
  and the connection between the two: what a server learns of a client's certificate, and with
  it whom it lets join the Raft cluster (\<open>joinRaftCluster\<close> of \<^verbatim>\<open>cmd/nimbus-apiserver/main.go\<close>, the
  interceptor and \<open>JoinRaft\<close>). The handshake of \<^verbatim>\<open>crypto/tls\<close> is modelled as far as the two configurations use it.
\<close>

section \<open>TLS configurations\<close>

datatype ClientAuthType = NoClientCert | VerifyClientCertIfGiven

text \<open>The fields the program sets. A callback that reads the SVID gives the certificate it holds at that time.\<close>

record ('key, 'cert) tls_Config =
  tls_MinVersion :: nat
  tls_Certificate :: "(bytes list \<times> 'key \<times> 'cert) res"
  tls_ClientAuth :: ClientAuthType
  tls_ClientCAs :: "'cert list"
  tls_RootCAs :: "'cert list"
  tls_InsecureSkipVerify :: bool
  tls_VerifyPeerCertificate :: "(bytes list \<Rightarrow> error option) option"

definition VersionTLS13 :: nat where "VersionTLS13 = 772"

definition ServerTLSConfig :: "('key, 'csr, 'pub, 'cert) id_env \<Rightarrow> ('key, 'cert) SVID \<Rightarrow> ('key, 'cert) tls_Config" where
  "ServerTLSConfig E s =
     \<lparr>tls_MinVersion = VersionTLS13, tls_Certificate = tlsCertificate E s, tls_ClientAuth = VerifyClientCertIfGiven,
      tls_ClientCAs = svid_bundle s, tls_RootCAs = [], tls_InsecureSkipVerify = False, tls_VerifyPeerCertificate = None\<rparr>"

definition ClientTLSConfig :: "('key, 'csr, 'pub, 'cert) id_env \<Rightarrow> ('key, 'cert) SVID \<Rightarrow> (spiffe_ID \<Rightarrow> error option) \<Rightarrow> ('key, 'cert) tls_Config" where
  "ClientTLSConfig E s expect =
     \<lparr>tls_MinVersion = VersionTLS13, tls_Certificate = tlsCertificate E s, tls_ClientAuth = NoClientCert,
      tls_ClientCAs = [], tls_RootCAs = svid_bundle s, tls_InsecureSkipVerify = True,
      tls_VerifyPeerCertificate = Some (verifyPeerSPIFFE E (svid_bundle s) expect)\<rparr>"

text \<open>
  The part of a handshake in which each side looks at the other's certificates. A client with
  \<open>InsecureSkipVerify\<close> leaves the check to its callback. A server with \<open>VerifyClientCertIfGiven\<close>
  accepts a client without a certificate, with no verified chain, and one whose chain verifies
  against \<open>ClientCAs\<close>; its first verified chain starts with the client's certificate.
\<close>

definition client_accepts :: "('key, 'csr, 'pub, 'cert) id_env \<Rightarrow> ('key, 'cert) tls_Config \<Rightarrow> bytes list \<Rightarrow> bool" where
  "client_accepts E cfg raws \<longleftrightarrow>
     (tls_InsecureSkipVerify cfg \<or>
      (case parse_all E raws of Inr (leaf # rest) \<Rightarrow> ie_Verify E leaf (tls_RootCAs cfg) rest = None | _ \<Rightarrow> False)) \<and>
     (case tls_VerifyPeerCertificate cfg of None \<Rightarrow> True | Some verify \<Rightarrow> verify raws = None)"

definition server_sees :: "('key, 'csr, 'pub, 'cert) id_env \<Rightarrow> ('key, 'cert) tls_Config \<Rightarrow> bytes list \<Rightarrow> peer_ctx res" where
  "server_sees E cfg raws =
     (case parse_all E raws of
        Inl err \<Rightarrow> Inl err
      | Inr [] \<Rightarrow> Inr \<lparr>peer_present = True, peer_tls = Some []\<rparr>
      | Inr (leaf # rest) \<Rightarrow>
          if tls_ClientAuth cfg = NoClientCert then Inr \<lparr>peer_present = True, peer_tls = Some []\<rparr>
          else (case ie_Verify E leaf (tls_ClientCAs cfg) rest of
                  Some err \<Rightarrow> Inl err
                | None \<Rightarrow> Inr \<lparr>peer_present = True, peer_tls = Some [map (ie_URIs E) (leaf # rest)]\<rparr>))"

text \<open>What a side presents: the certificate of its configuration, or nothing.\<close>

definition presents :: "('key, 'cert) tls_Config \<Rightarrow> bytes list" where
  "presents cfg = (case tls_Certificate cfg of Inl err \<Rightarrow> [] | Inr (raws, key, cert) \<Rightarrow> raws)"

text \<open>A connection: what the server knows of the client, where both sides accept the other.\<close>

definition connect :: "('key, 'csr, 'pub, 'cert) id_env \<Rightarrow> ('key, 'cert) tls_Config \<Rightarrow> ('key, 'cert) tls_Config \<Rightarrow> peer_ctx res" where
  "connect E server client =
     (if \<not> client_accepts E client (presents server) then Inl (ErrText ''tls: bad certificate'')
      else server_sees E server (presents client))"

section \<open>The gRPC server\<close>

record ('key, 'cert, 'i) server_Config =
  sc_Addr :: string
  sc_TLSConfig :: "('key, 'cert) tls_Config option"
  sc_AuthInterceptor :: "'i option"

text \<open>The options given to \<open>grpc.NewServer\<close>.\<close>

datatype ('key, 'cert, 'i) ServerOption = StatsHandler | Creds "('key, 'cert) tls_Config" | UnaryInterceptor 'i

record ('key, 'cert, 'i) Server =
  srv_addr :: string
  srv_options :: "('key, 'cert, 'i) ServerOption list"

definition server_New :: "('key, 'cert, 'i) server_Config \<Rightarrow> ('key, 'cert, 'i) Server" where
  "server_New cfg =
     \<lparr>srv_addr = sc_Addr cfg,
      srv_options = [StatsHandler] @ (case sc_TLSConfig cfg of None \<Rightarrow> [] | Some t \<Rightarrow> [Creds t]) @
        (case sc_AuthInterceptor cfg of None \<Rightarrow> [] | Some i \<Rightarrow> [UnaryInterceptor i])\<rparr>"

text \<open>
  \<open>Serve\<close>: \<open>listen\<close> binds the address, \<open>serve\<close> is the server's own loop on the listener; \<open>None\<close> while it runs. It ends
  when the context does, after a graceful stop.
\<close>

definition server_Serve :: "(string \<Rightarrow> 'l res) \<Rightarrow> ('l \<Rightarrow> bool \<Rightarrow> unit res option) \<Rightarrow> bool \<Rightarrow> ('key, 'cert, 'i) Server \<Rightarrow> unit res option" where
  "server_Serve listen serve ctxDone s =
     (case listen (srv_addr s) of Inl err \<Rightarrow> Some (Inl err) | Inr lis \<Rightarrow> serve lis ctxDone)"

section \<open>Joining the Raft cluster\<close>

text \<open>\<open>dial\<close> is \<open>grpc.NewClient\<close>; \<open>call\<close> the RPC over a connection with this client configuration.\<close>

definition joinRaftCluster :: "(string \<Rightarrow> error option) \<Rightarrow> (string \<Rightarrow> ('key, 'cert) tls_Config \<Rightarrow> string \<Rightarrow> string \<Rightarrow> ('w, unit) action) \<Rightarrow>
    ('key, 'csr, 'pub, 'cert) id_env \<Rightarrow> ('key, 'cert) SVID \<Rightarrow> (spiffe_ID \<Rightarrow> error option) \<Rightarrow> string \<Rightarrow> string \<Rightarrow> string \<Rightarrow> ('w, unit) action" where
  "joinRaftCluster dial call E svid expect joinAddr nodeID raftAddr =
     (case dial joinAddr of
        Some err \<Rightarrow> throw err
      | None \<Rightarrow> call joinAddr (ClientTLSConfig E svid expect) nodeID raftAddr)"

text \<open>The RPC at the leader: the handshake, the interceptor, the handler.\<close>

definition serve_join :: "('r, 'g, 'l) raft_env \<Rightarrow> ('key, 'csr, 'pub, 'cert) id_env \<Rightarrow> ('key, 'cert) SVID \<Rightarrow> (spiffe_ID \<Rightarrow> error option) \<Rightarrow>
    string \<Rightarrow> ('key, 'cert) tls_Config \<Rightarrow> string \<Rightarrow> string \<Rightarrow> (('r, 'g) RaftStore, unit) action" where
  "serve_join R E leader expect addr client nodeID raftAddr =
     (case connect E (ServerTLSConfig E leader) client of
        Inl err \<Rightarrow> throw (ErrStatus Unavailable ''connection error'')
      | Inr ctx \<Rightarrow> AuthInterceptor (ie_FromURI E) expect DefaultRBACBindings ctx ''/nimbuscore.v1.AdminService/JoinRaft''
          (JoinRaft R (PeerSPIFFEID (ie_FromURI E) ctx) nodeID raftAddr))"

text \<open>\<open>LeaderAddr\<close> and \<open>Shutdown\<close> of the store; the calls of the Raft library are parameters.\<close>

definition LeaderAddr :: "('r \<Rightarrow> string \<times> string) \<Rightarrow> ('r, 'g) RaftStore \<Rightarrow> string" where
  "LeaderAddr LeaderWithID s = fst (LeaderWithID (rs_raft s))"

definition rs_Shutdown :: "('r, unit) action \<Rightarrow> ('r, unit) action \<Rightarrow> (('r, 'g) RaftStore, unit) action" where
  "rs_Shutdown raft_Shutdown logStore_Close s =
     (case bindA raft_Shutdown (\<lambda>_. logStore_Close) (rs_raft s) of (r, raft') \<Rightarrow> (r, s\<lparr>rs_raft := raft'\<rparr>))"

section \<open>Who may join\<close>

lemma connect_enrolled:
  assumes "svid_cert server = Some c" "svid_cert client = Some d" "ie_ParseCertificate E (ie_Raw E c) = Inr c"
    and "ie_ParseCertificate E (ie_Raw E d) = Inr d" "ie_Verify E c (svid_bundle client) [] = None"
    and "ie_Verify E d (svid_bundle server) [] = None" "SVID_ID E server = Inr i" "expect i = None"
  shows "connect E (ServerTLSConfig E server) (ClientTLSConfig E client expect) =
    Inr \<lparr>peer_present = True, peer_tls = Some [[ie_URIs E d]]\<rparr>"
proof -
  have p: "presents (ServerTLSConfig E server) = [ie_Raw E c]" "presents (ClientTLSConfig E client expect) = [ie_Raw E d]"
    by (simp_all add: presents_def tlsCertificate_def Materials_def assms(1,2) ServerTLSConfig_def ClientTLSConfig_def)
  from assms(1,7) obtain u where u: "ie_URIs E c = [u]" "ie_FromURI E u = Inr i"
    by (auto simp: SVID_ID_def Materials_def split: list.splits)
  have "verifyPeerSPIFFE E (svid_bundle client) expect [ie_Raw E c] = None"
    using assms(3,5,8) u by (simp add: verifyPeerSPIFFE_def)
  then have "client_accepts E (ClientTLSConfig E client expect) [ie_Raw E c]"
    by (simp add: client_accepts_def ClientTLSConfig_def)
  with p assms(4,6) show ?thesis by (simp add: connect_def server_sees_def ServerTLSConfig_def)
qed

lemma replica_allow: "Allow DefaultRBACBindings (''/control-plane/'' @ name) ''admin'' ''join''"
  by (simp add: rbac_defs)

lemma join_method: "map_of methodResourceVerb ''/nimbuscore.v1.AdminService/JoinRaft'' = Some (''admin'', ''join'')"
  by code_simp

lemma join_reaches_handler:
  assumes "PeerSPIFFEID FromURI ctx = Inr ident" "expect ident = None" "role_path role name = Some (id_Path ident)"
  shows "if role = SVID_ROLE_CONTROL_PLANE
    then AuthInterceptor FromURI expect DefaultRBACBindings ctx ''/nimbuscore.v1.AdminService/JoinRaft'' h s = h s
    else AuthInterceptor FromURI expect DefaultRBACBindings ctx ''/nimbuscore.v1.AdminService/JoinRaft'' h s =
      (Inl (ErrStatus PermissionDenied ''identity is not authorized''), s)"
proof (cases role)
  case SVID_ROLE_CONTROL_PLANE
  with assms have "id_Path ident = ''/control-plane/'' @ name" by simp
  with SVID_ROLE_CONTROL_PLANE assms(1,2) join_method replica_allow show ?thesis
    by (simp add: AuthInterceptor_def unauthenticatedMethods_def)
next
  case SVID_ROLE_NODE
  with assms have "id_Path ident = ''/node/'' @ name" by simp
  with SVID_ROLE_NODE assms(1,2) join_method node_allow[of "''admin''" name "''join''"] show ?thesis
    by (simp add: AuthInterceptor_def unauthenticatedMethods_def throw_def)
next
  case SVID_ROLE_CLIENT
  with assms have "id_Path ident = ''/client/'' @ name" by simp
  with SVID_ROLE_CLIENT assms(1,2) join_method client_allow[of name "''admin''" "''join''"] show ?thesis
    by (simp add: AuthInterceptor_def unauthenticatedMethods_def throw_def)
qed (use assms(3) in simp)

text \<open>
  C12: exactly control-plane replicas join the Raft cluster. A process that has enrolled with the
  cluster's identity service, in any role, dials the leader and asks to become a voter: both
  sides of the handshake accept, and for the control-plane role the leader adds the voter (or
  reports a missing name or address, or what Raft reports); such a replica has also received the
  cluster's data-encryption key. With the role of a node or a client the request is refused with
  \<open>PermissionDenied\<close>, nothing changes at the leader, and the process has no key. The SPIFFE matcher accepts
  the members of the trust domain, and certificates of the cluster's CA verify against it.
\<close>

theorem only_replicas_join:
  assumes "x509_laws X (ie_URIs E) valid" "id_laws E X (ca_trustDomain (is_ca svc))"
    and "Enroll E dial (\<lambda>addr. RequestSVID X svc now serial) draw cfg = Inr (svid, dek)"
    and "\<forall>c. ie_ParseCertificate E (ie_Raw E c) = Inr c"
    and "\<forall>c. svid_cert svid = Some c \<or> svid_cert leader = Some c \<longrightarrow> ie_Verify E c [ca_cert (is_ca svc)] [] = None"
    and "\<forall>i. expect i = None \<longleftrightarrow> id_TrustDomain i = ca_trustDomain (is_ca svc)"
    and "SVID_ID E leader = Inr i" "id_TrustDomain i = ca_trustDomain (is_ca svc)" "svid_bundle leader = [ca_cert (is_ca svc)]"
  shows "joinRaftCluster (\<lambda>a. None) (serve_join R E leader expect) E svid expect addr nodeID raftAddr s =
      (if ec_Role cfg \<noteq> SVID_ROLE_CONTROL_PLANE then (Inl (ErrStatus PermissionDenied ''identity is not authorized''), s)
       else if nodeID = [] \<or> raftAddr = [] then (Inl (ErrStatus InvalidArgument ''node_id and raft_addr are required''), s)
       else statusA FailedPrecondition ''add voter'' (AddVoter R nodeID raftAddr) s) \<and>
    dek = (if ec_Role cfg = SVID_ROLE_CONTROL_PLANE then is_dataEncryptionKey svc else [])"
proof -
  obtain ident where id: "SVID_ID E svid = Inr ident" "id_TrustDomain ident = ca_trustDomain (is_ca svc)"
    "role_path (ec_Role cfg) (ec_Name cfg) = Some (id_Path ident)" "svid_bundle svid = [ca_cert (is_ca svc)]"
    "dek = (if ec_Role cfg = SVID_ROLE_CONTROL_PLANE then is_dataEncryptionKey svc else [])"
    by (rule enroll_result[OF assms(1-3)])
  from id(1) obtain d u where d: "svid_cert svid = Some d" "ie_URIs E d = [u]" "ie_FromURI E u = Inr ident"
    by (auto simp: SVID_ID_def Materials_def split: option.splits list.splits)
  from assms(7) obtain c where c: "svid_cert leader = Some c" by (auto simp: SVID_ID_def Materials_def split: option.splits)
  let ?ctx = "\<lparr>peer_present = True, peer_tls = Some [[ie_URIs E d]]\<rparr>"
  have con: "connect E (ServerTLSConfig E leader) (ClientTLSConfig E svid expect) = Inr ?ctx"
    using assms(4,5,6,8,9) c d(1) by (intro connect_enrolled[OF c d(1) _ _ _ _ assms(7)]) (simp_all add: id(4))
  have peer: "PeerSPIFFEID (ie_FromURI E) ?ctx = Inr ident" by (simp add: PeerSPIFFEID_def d)
  have ex: "expect ident = None" using assms(6) id(2) by blast
  have cp: "HasPrefix (id_Path ident) ''/control-plane/''" if "ec_Role cfg = SVID_ROLE_CONTROL_PLANE"
    unfolding HasPrefix_iff using id(3) that by (intro exI[of _ "ec_Name cfg"]) simp
  note run = join_reaches_handler[where FromURI = "ie_FromURI E" and expect = expect, OF peer ex id(3)]
  show ?thesis
    using run[where h = "JoinRaft R (Inr ident) nodeID raftAddr" and s = s] id(5) cp
    by (auto simp: joinRaftCluster_def serve_join_def con peer JoinRaft_def invalid_def throw_def split: if_splits)
qed

definition ex_replica :: EnrollConfig where
  "ex_replica = \<lparr>ec_ControlPlaneAddr = ''cp:7443'', ec_JoinToken = ''t'', ec_Name = ''n2'', ec_Role = SVID_ROLE_CONTROL_PLANE\<rparr>"

definition ex_leader :: "(string, string) SVID" where
  "ex_leader = NewSVID ''lk'' ''spiffe://nimbus/control-plane/n1'' [''ca'']"

theorem only_replicas_join_witness:
  "\<exists>svid. Enroll ex_ids (\<lambda>a. None) (\<lambda>addr. RequestSVID ex_ca_x509 ex_ca_service 0 (Inr 1)) (Inr ''k'') ex_replica = Inr (svid, ''key'') \<and>
     joinRaftCluster (\<lambda>a. None) (serve_join ref_env ex_ids ex_leader ex_trust) ex_ids svid ex_trust ''cp:7443'' ''n2'' ''10.0.0.2:7946'' ex_store = (Inr (), ex_store)"
proof -
  define svid where "svid = NewSVID ''k'' ''spiffe://nimbus/control-plane/n2'' [''ca'']"
  have e: "Enroll ex_ids (\<lambda>a. None) (\<lambda>addr. RequestSVID ex_ca_x509 ex_ca_service 0 (Inr 1)) (Inr ''k'') ex_replica = Inr (svid, ''key'')"
    unfolding svid_def by code_simp
  have l: "id_laws ex_ids ex_ca_x509 (ca_trustDomain (is_ca ex_ca_service))" using ex_ca_laws(2) by (simp add: ex_ca_service_def)
  have certs: "\<forall>c. ie_ParseCertificate ex_ids (ie_Raw ex_ids c) = Inr c"
    "\<forall>c. svid_cert svid = Some c \<or> svid_cert ex_leader = Some c \<longrightarrow> ie_Verify ex_ids c [ca_cert (is_ca ex_ca_service)] [] = None"
    by (simp_all add: ex_ids_def)
  have trust: "\<forall>i. ex_trust i = None \<longleftrightarrow> id_TrustDomain i = ca_trustDomain (is_ca ex_ca_service)"
    by (simp add: ex_trust_def ex_ca_service_def)
  have leader: "SVID_ID ex_ids ex_leader = Inr \<lparr>id_TrustDomain = ''nimbus'', id_Path = ''/control-plane/n1''\<rparr>"
    "id_TrustDomain \<lparr>id_TrustDomain = ''nimbus'', id_Path = ''/control-plane/n1''\<rparr> = ca_trustDomain (is_ca ex_ca_service)"
    "svid_bundle ex_leader = [ca_cert (is_ca ex_ca_service)]"
    by code_simp+
  have "AddVoter ref_env ''n2'' ''10.0.0.2:7946'' ex_store = (Inr (), ex_store)" by code_simp
  with only_replicas_join[OF ex_ca_laws(1) l e certs trust leader, of ref_env "''cp:7443''" "''n2''" "''10.0.0.2:7946''" ex_store] e
  show ?thesis by (auto simp: ex_replica_def statusA_def)
qed

end
