(* ===== verification/AgentRun.thy ===== *)
theory AgentRun
  imports NodePort
begin

text \<open>
  The main loop of the node agent (\<open>Agent.Run\<close> of \<open>internal/agent/agent.go\<close>) over the process
  table of the theory \<open>Agent\<close> and the port proxies of the theory \<open>NodePort\<close>, with the events its
  \<open>select\<close> waits for and what the node does between them, and the connections that a port proxy
  carries (\<open>proxyConn\<close> of \<open>internal/agent/nodeport.go\<close>).
\<close>

section \<open>The loop\<close>

text \<open>
  What happens to the loop, in the order in which it happens: its context ends, the exit channel
  has an event, the ticker fires (with the answer of the service client and the ports that can be
  listened on then), a process of the node reports its exit, and the world changes. A \<open>select\<close>
  does not take an exit from an empty channel, and a process whose send finds the channel full
  waits: its report stands later in the sequence.
\<close>

datatype 'w run_event =
    CtxDone
  | ExitReady
  | TickReady "(unit \<Rightarrow> Service list res) option" "int32 \<Rightarrow> bool"
  | ProcessExit exitEvent
  | WorldChange 'w

text \<open>\<open>Waiting\<close>: the loop is at its \<open>select\<close>; \<open>Stuck\<close>: a tick waits for the loop to read the channel.\<close>

datatype run_end = Waiting | Returned | Stuck

fun agent_Run :: "('w, 'i) host \<Rightarrow> 'w PodClient \<Rightarrow> AgentConfig \<Rightarrow> 'w run_event list \<Rightarrow> 'w agent \<times> nodePortManager \<Rightarrow>
    run_end \<times> 'w agent \<times> nodePortManager" where
  "agent_Run H P cfg [] x = (Waiting, x)"
| "agent_Run H P cfg (CtxDone # es) x = (Returned, agent_shutdown H x)"
| "agent_Run H P cfg (ExitReady # es) (a, m) =
     (case ag_exited a of
        [] \<Rightarrow> agent_Run H P cfg es (a, m)
      | ev # evs \<Rightarrow> agent_Run H P cfg es (handleExit H P cfg ev (a\<lparr>ag_exited := evs\<rparr>), m))"
| "agent_Run H P cfg (TickReady services can # es) (a, m) =
     (case reconcile H P cfg a of
        None \<Rightarrow> (Stuck, a, m)
      | Some a' \<Rightarrow> agent_Run H P cfg es (a', reconcileServices services cfg can m))"
| "agent_Run H P cfg (ProcessExit ev # es) (a, m) =
     agent_Run H P cfg es (if length (ag_exited a) < exitedCapacity then a\<lparr>ag_exited := ag_exited a @ [ev]\<rparr> else a, m)"
| "agent_Run H P cfg (WorldChange w # es) (a, m) = agent_Run H P cfg es (a\<lparr>ag_world := w\<rparr>, m)"

section \<open>What the loop keeps\<close>

lemma npm_ok_new: "npm_ok newNodePortManager"
  by (simp add: npm_ok_def newNodePortManager_def)

lemma npm_ok_listening: "npm_ok m \<Longrightarrow> npm_listening m = fst ` set (npm_active m)"
  by (simp add: npm_ok_def)

lemma npm_ok_reconcile: "npm_ok m \<Longrightarrow> npm_ok (npm_reconcile can services selfIP m)"
  unfolding npm_reconcile_def Let_def
  by (intro close_loop_spec[THEN conjunct1] open_loop_spec[THEN conjunct1]) (simp_all add: desired_ports_distinct)

lemma npm_ok_services: "npm_ok m \<Longrightarrow> npm_ok (reconcileServices services cfg can m)"
  by (auto simp: reconcileServices_def npm_ok_reconcile split: option.splits sum.splits)

lemma agent_ok_new: "agent_ok cfg (newProcessRuntime w)"
  by (simp add: newProcessRuntime_def agent_ok_def keys_def)

text \<open>Giving up the handle of a table entry, as \<open>stop\<close> does, and so what shutdown does to the node.\<close>

definition release :: "('w, 'i) host \<Rightarrow> trackedProcess \<Rightarrow> 'w \<Rightarrow> 'w" where
  "release H tp w =
     (let w1 = (if tp_containerID tp \<noteq> [] then removeContainerdContainer H (tp_containerID tp) w else w);
          w2 = (case tp_cmd tp of None \<Rightarrow> w1 | Some pid \<Rightarrow> hs_Kill H pid w1)
      in case tp_wasmRuntime tp of None \<Rightarrow> w2 | Some rt \<Rightarrow> wz_Close H rt w2)"

lemma stop_release: "map_of (ag_procs a) key = Some tp \<Longrightarrow> stop H key a = a\<lparr>ag_procs := AList.delete key (ag_procs a), ag_world := release H tp (ag_world a)\<rparr>"
  by (simp add: stop_def release_def Let_def)

lemma stopAll_releases:
  assumes "distinct (keys a)"
  shows "ag_world (stopAll H a) = fold (\<lambda>(key, tp). release H tp) (ag_procs a) (ag_world a)"
proof -
  have "ag_world (foldl (\<lambda>a key. stop H key a) a (map fst ps)) = fold (\<lambda>(key, tp). release H tp) ps (ag_world a)"
    if "ag_procs a = ps" "distinct (map fst ps)" for ps and a :: "'a agent"
    using that
  proof (induction ps arbitrary: a)
    case (Cons p ps)
    obtain key tp where p: "p = (key, tp)" by fastforce
    with Cons.prems have "AList.delete key (ag_procs a) = ps"
      by (auto simp: AList.delete_eq intro!: filter_id_conv[THEN iffD2]) force
    with Cons p stop_release[of a key tp H] show ?case by simp
  qed simp
  with assms show ?thesis by (simp add: stopAll_def keys_def)
qed

lemma shutdown_releases:
  assumes "agent_ok cfg a" "npm_ok m" "agent_shutdown H (a, m) = (a', m')"
  shows "ag_procs a' = [] \<and> npm_active m' = [] \<and> npm_listening m' = {} \<and>
    ag_world a' = fold (\<lambda>(key, tp). release H tp) (ag_procs a) (ag_world a)"
  using assms shutdown_stops_everything[of m H a "stopAll H a" "npm_stopAll m"] stopAll_releases[of a H]
  by (auto simp: agent_shutdown_def agent_ok_def)

lemma agent_ok_taken: "agent_ok cfg a \<Longrightarrow> ag_exited a = ev # evs \<Longrightarrow> agent_ok cfg (handleExit H P cfg ev (a\<lparr>ag_exited := evs\<rparr>))"
  by (rule agent_ok_step) (rule agent_step.exit)

lemma agent_ok_reported: "agent_ok cfg a \<Longrightarrow> length (ag_exited a) < exitedCapacity \<Longrightarrow> agent_ok cfg (a\<lparr>ag_exited := ag_exited a @ [ev]\<rparr>)"
  by (simp add: agent_ok_def keys_def)

lemma agent_run_keeps:
  "agent_ok cfg a \<Longrightarrow> npm_ok m \<Longrightarrow> agent_Run H P cfg es (a, m) = (e, a', m') \<Longrightarrow> e \<noteq> Returned \<Longrightarrow> agent_ok cfg a' \<and> npm_ok m'"
proof (induction H P cfg es "(a, m)" arbitrary: a m rule: agent_Run.induct)
  case (3 H P cfg es a m)
  then show ?case
    by (auto split: list.splits if_splits dest: agent_ok_taken[where H = H and P = P])
next
  case (4 H P cfg services can es a m)
  then show ?case by (auto split: option.splits if_splits simp: npm_ok_services dest: agent_ok_reconcile)
next
  case (5 H P cfg ev es a m)
  then show ?case by (auto split: if_splits simp: agent_ok_reported)
qed (auto split: if_splits)

text \<open>A run that returns waited at its \<open>select\<close> when its context ended, and shut down from there.\<close>

lemma run_split_Cons:
  "es = es1 @ CtxDone # es2 \<Longrightarrow> agent_Run H P cfg (ev # es1) x = (Waiting, x1) \<Longrightarrow> y = agent_shutdown H x1 \<Longrightarrow>
   \<exists>es1 es2 x1. ev # es = es1 @ CtxDone # es2 \<and> agent_Run H P cfg es1 x = (Waiting, x1) \<and> y = agent_shutdown H x1"
  by (metis append_Cons)

lemma agent_run_split:
  "agent_Run H P cfg es x = (Returned, y) \<Longrightarrow>
   \<exists>es1 es2 x1. es = es1 @ CtxDone # es2 \<and> agent_Run H P cfg es1 x = (Waiting, x1) \<and> y = agent_shutdown H x1"
proof (induction H P cfg es x rule: agent_Run.induct)
  case (2 H P cfg es x)
  then have "CtxDone # es = [] @ CtxDone # es \<and> agent_Run H P cfg [] x = (Waiting, x) \<and> y = agent_shutdown H x" by simp
  then show ?case by blast
next
  case (3 H P cfg es a m)
  show ?case
  proof (cases "ag_exited a")
    case Nil
    with 3 obtain es1 es2 x1 where "es = es1 @ CtxDone # es2" "agent_Run H P cfg es1 (a, m) = (Waiting, x1)" "y = agent_shutdown H x1" by auto
    with Nil show ?thesis by (intro run_split_Cons) auto
  next
    case (Cons ev evs)
    with 3 obtain es1 es2 x1 where "es = es1 @ CtxDone # es2"
      "agent_Run H P cfg es1 (handleExit H P cfg ev (a\<lparr>ag_exited := evs\<rparr>), m) = (Waiting, x1)" "y = agent_shutdown H x1" by auto
    with Cons show ?thesis by (intro run_split_Cons) auto
  qed
next
  case (4 H P cfg services can es a m)
  then obtain a1 where r: "reconcile H P cfg a = Some a1" by (auto split: option.splits)
  with 4 obtain es1 es2 x1 where "es = es1 @ CtxDone # es2"
    "agent_Run H P cfg es1 (a1, reconcileServices services cfg can m) = (Waiting, x1)" "y = agent_shutdown H x1" by auto
  with r show ?case by (intro run_split_Cons) auto
next
  case (5 H P cfg ev es a m)
  then obtain es1 es2 x1 where "es = es1 @ CtxDone # es2" "y = agent_shutdown H x1"
    "agent_Run H P cfg es1 (if length (ag_exited a) < exitedCapacity then a\<lparr>ag_exited := ag_exited a @ [ev]\<rparr> else a, m) = (Waiting, x1)" by auto
  then show ?case by (intro run_split_Cons) auto
next
  case (6 H P cfg w es a m)
  then obtain es1 es2 x1 where "es = es1 @ CtxDone # es2" "y = agent_shutdown H x1"
    "agent_Run H P cfg es1 (a\<lparr>ag_world := w\<rparr>, m) = (Waiting, x1)" by auto
  then show ?case by (intro run_split_Cons) auto
qed auto

lemma agent_run_returns:
  "agent_Run H P cfg es x = (e, x') \<Longrightarrow> CtxDone \<in> set es \<Longrightarrow> e \<noteq> Waiting"
  by (induction H P cfg es x rule: agent_Run.induct) (auto split: list.splits option.splits if_splits)

lemma agent_run_stuck:
  "agent_Run H P cfg es (a, m) = (Stuck, a', m') \<Longrightarrow> reconcile H P cfg a' = None"
  by (induction H P cfg es "(a, m)" arbitrary: a m rule: agent_Run.induct) (auto split: list.splits option.splits if_splits)

lemma reconcile_stuck:
  "reconcile H P cfg a = None \<Longrightarrow> (\<exists>items statuses. pc_ListPods P (ag_world a) = Inr items \<and>
     listContainerdTaskStatuses H (ag_world a) = Inr statuses \<and>
     exitedCapacity < length (ag_exited a) + length (snd (exits_loop statuses (ag_procs a) (ag_missing a))))"
  by (auto simp: reconcile_def Let_def checkContainerdExits_def send_exits_eq split: prod.splits option.splits if_splits sum.splits)

text \<open>
  C8: what a run of the agent leaves, whatever happens on the node and in whatever order. It
  returns only when its context ends, and then it has gone through exactly the events before
  that: from the table of that moment, the handle of every entry (a container, a process or a
  WebAssembly runtime) is given up once, in the order of the table, and nothing else is done to
  the node; no entry, no proxy and no listening port is left. Up to then the table is
  well-formed, for pods of this node only, and the listening ports are those of the proxies. If
  the context ends and the loop does not return, it is stuck in a tick that found more exits than
  the channel has room for.
\<close>

theorem agent_run_outcome:
  assumes "agent_Run H P cfg es (newProcessRuntime w, newNodePortManager) = (e, a, m)"
  shows "(e = Returned \<longrightarrow> (\<exists>es1 es2 a1 m1. es = es1 @ CtxDone # es2 \<and>
      agent_Run H P cfg es1 (newProcessRuntime w, newNodePortManager) = (Waiting, a1, m1) \<and> agent_ok cfg a1 \<and>
      ag_world a = fold (\<lambda>(key, tp). release H tp) (ag_procs a1) (ag_world a1) \<and>
      ag_procs a = [] \<and> npm_active m = [] \<and> npm_listening m = {})) \<and>
    (e \<noteq> Returned \<longrightarrow> agent_ok cfg a \<and> npm_listening m = fst ` set (npm_active m)) \<and>
    (CtxDone \<in> set es \<longrightarrow> e = Returned \<or>
       (\<exists>statuses. listContainerdTaskStatuses H (ag_world a) = Inr statuses \<and>
          exitedCapacity < length (ag_exited a) + length (snd (exits_loop statuses (ag_procs a) (ag_missing a)))))"
proof -
  note keeps = agent_run_keeps[OF agent_ok_new npm_ok_new]
  show ?thesis
  proof (cases e)
    case Returned
    from agent_run_split[OF assms[unfolded Returned]] obtain es1 es2 a1 m1 where s: "es = es1 @ CtxDone # es2"
      "agent_Run H P cfg es1 (newProcessRuntime w, newNodePortManager) = (Waiting, a1, m1)" "agent_shutdown H (a1, m1) = (a, m)" by force
    have "agent_ok cfg a1" "npm_ok m1" using keeps[OF s(2)] by simp_all
    from shutdown_releases[OF this s(3)] this(1) s(1,2) Returned show ?thesis by blast
  next
    case Waiting
    with keeps[OF assms] agent_run_returns[OF assms] show ?thesis by (auto simp: npm_ok_listening)
  next
    case Stuck
    with agent_run_stuck assms have "reconcile H P cfg a = None" by blast
    from reconcile_stuck[OF this] Stuck keeps[OF assms] show ?thesis by (auto simp: npm_ok_listening)
  qed
qed

text \<open>The agent starts a job and a server, forwards the server's port, and is told to stop.\<close>

definition ex_agent_run :: "ex_world run_event list" where
  "ex_agent_run = [TickReady (Some (\<lambda>_. Inr [ex_np_service])) (\<lambda>port. True), ProcessExit \<lparr>ev_key = ''default/job'', ev_exitCode = 0\<rparr>, ExitReady, CtxDone]"

theorem agent_run_outcome_witness:
  "\<exists>a m a1 m1. agent_Run ex_host ex_client ex_agent_cfg ex_agent_run (newProcessRuntime (ag_world ex_agent0), newNodePortManager) = (Returned, a, m) \<and>
     agent_Run ex_host ex_client ex_agent_cfg (butlast ex_agent_run) (newProcessRuntime (ag_world ex_agent0), newNodePortManager) = (Waiting, a1, m1) \<and>
     ag_world a = fold (\<lambda>(key, tp). release ex_host tp) (ag_procs a1) (ag_world a1) \<and>
     has a1 ''default/web'' \<and> ag_procs a = [] \<and> npm_listening m = {}"
proof -
  let ?s = "(newProcessRuntime (ag_world ex_agent0), newNodePortManager)"
  let ?run = "agent_Run ex_host ex_client ex_agent_cfg ex_agent_run ?s"
  have e: "fst ?run = Returned" by code_simp
  then obtain a m where run: "?run = (Returned, a, m)" by (metis prod.collapse)
  have web: "has (fst (snd (agent_Run ex_host ex_client ex_agent_cfg (butlast ex_agent_run) ?s))) ''default/web''" by code_simp
  have only: "es1 = butlast ex_agent_run" if "ex_agent_run = es1 @ CtxDone # es2" for es1 es2
    using that by (auto simp: ex_agent_run_def Cons_eq_append_conv)
  from agent_run_outcome[OF run] obtain es1 es2 a1 m1 where o: "ex_agent_run = es1 @ CtxDone # es2"
    "agent_Run ex_host ex_client ex_agent_cfg es1 ?s = (Waiting, a1, m1)"
    "ag_world a = fold (\<lambda>(key, tp). release ex_host tp) (ag_procs a1) (ag_world a1)" "ag_procs a = []" "npm_listening m = {}" by auto
  from run o(2-) web show ?thesis unfolding only[OF o(1)] by auto
qed

section \<open>Proxied connections\<close>

text \<open>
  \<open>proxyConn\<close>: what the two copying goroutines move, in the order in which it happens, until one
  direction ends or the proxy is cancelled; then both connections are closed. The result: closed
  or not, what the target has received and what the client has received.
\<close>

datatype conn_event = FromSrc bytes | FromDst bytes | SrcEnds | DstEnds | ProxyCancelled

fun copy_loop :: "conn_event list \<Rightarrow> bytes \<Rightarrow> bytes \<Rightarrow> bool \<times> bytes \<times> bytes" where
  "copy_loop [] dst src = (False, dst, src)"
| "copy_loop (FromSrc b # es) dst src = copy_loop es (dst @ b) src"
| "copy_loop (FromDst b # es) dst src = copy_loop es dst (src @ b)"
| "copy_loop (_ # es) dst src = (True, dst, src)"

definition proxyConn :: "(string \<Rightarrow> error option) \<Rightarrow> string \<Rightarrow> conn_event list \<Rightarrow> bool \<times> bytes \<times> bytes" where
  "proxyConn dial targetAddr es = (case dial targetAddr of Some err \<Rightarrow> (True, [], []) | None \<Rightarrow> copy_loop es [] [])"

abbreviation moves :: "conn_event \<Rightarrow> bool" where
  "moves ev \<equiv> (case ev of FromSrc b \<Rightarrow> True | FromDst b \<Rightarrow> True | _ \<Rightarrow> False)"

definition sent_to_dst :: "conn_event list \<Rightarrow> bytes" where
  "sent_to_dst es = concat (map (\<lambda>ev. case ev of FromSrc b \<Rightarrow> b | _ \<Rightarrow> []) es)"

definition sent_to_src :: "conn_event list \<Rightarrow> bytes" where
  "sent_to_src es = concat (map (\<lambda>ev. case ev of FromDst b \<Rightarrow> b | _ \<Rightarrow> []) es)"

lemma copy_loop_result:
  "copy_loop es dst src = (\<exists>ev \<in> set es. \<not> moves ev, dst @ sent_to_dst (takeWhile moves es), src @ sent_to_src (takeWhile moves es))"
  by (induction es dst src rule: copy_loop.induct) (simp_all add: sent_to_dst_def sent_to_src_def)

text \<open>
  A proxy passes bytes on unchanged and in order in both directions, up to the first end of
  either direction: what the target still had to say when the client was done sending is lost.
\<close>

lemma proxied_up_to_first_end:
  assumes "dial targetAddr = None"
  shows "proxyConn dial targetAddr es =
    (\<exists>ev \<in> set es. \<not> moves ev, sent_to_dst (takeWhile moves es), sent_to_src (takeWhile moves es))"
  by (simp add: proxyConn_def assms copy_loop_result)

lemma reply_lost_after_request:
  "proxyConn (\<lambda>a. None) target [FromSrc request, SrcEnds, FromDst answer] = (True, request, [])"
  by (simp add: proxyConn_def)

end
