(* ===== verification/Ctl.thy ===== *)
theory Ctl
  imports System Signing
begin

text \<open>
  The command-line client as a whole (\<^verbatim>\<open>cmd/nimbusctl\<close>): \<open>main\<close> with its commands, each connected
  to the control plane of the theory \<open>ControlPlane\<close>, and the way of a workload from
  \<open>nimbusctl run\<close> to the pods that the deployment controller makes of it.
\<close>

section \<open>A connection to the control plane\<close>

text \<open>
  A client stub of the connection sends its request and returns the reply of its own method.
  \<open>now\<close> and \<open>ctx\<close> are the server's clock and what it sees of the caller.
\<close>

fun object_obj :: "'t object_reply \<Rightarrow> 't option" where
  "object_obj (Obj x) = Some x"
| "object_obj _ = None"

fun object_items :: "'t object_reply \<Rightarrow> 't list option" where
  "object_items (Items xs) = Some xs"
| "object_items _ = None"

fun pod_reply :: "('b, 'f) rpc_reply \<Rightarrow> Pod object_reply option" where
  "pod_reply (PodReply x) = Some x"
| "pod_reply _ = None"

fun node_reply :: "('b, 'f) rpc_reply \<Rightarrow> Node object_reply option" where
  "node_reply (NodeReply x) = Some x"
| "node_reply _ = None"

fun deployment_reply :: "('b, 'f) rpc_reply \<Rightarrow> Deployment object_reply option" where
  "deployment_reply (DeploymentReply x) = Some x"
| "deployment_reply _ = None"

fun service_reply :: "('b, 'f) rpc_reply \<Rightarrow> Service object_reply option" where
  "service_reply (ServiceReply x) = Some x"
| "service_reply _ = None"

definition invoke :: "('b rpc \<Rightarrow> ('w, ('b, 'f) rpc_reply) action) \<Rightarrow> (('b, 'f) rpc_reply \<Rightarrow> 'a option) \<Rightarrow> 'b rpc \<Rightarrow> ('w, 'a) action" where
  "invoke send f req = bindA (send req) (\<lambda>r. case f r of None \<Rightarrow> throw (ErrStatus Internal ''reply of another method'') | Some x \<Rightarrow> ret x)"

definition conn_client :: "('b rpc \<Rightarrow> ('w, ('b, 'f) rpc_reply) action) \<Rightarrow> 'w api_client" where
  "conn_client send =
     \<lparr>ac_CreatePod = \<lambda>p. invoke send (\<lambda>r. Option.bind (pod_reply r) object_obj) (PodRpc (OCreate (Some p))),
      ac_CreateDeployment = \<lambda>d. invoke send (\<lambda>r. Option.bind (deployment_reply r) object_obj) (DeploymentRpc (OCreate (Some d))),
      ac_CreateNode = \<lambda>n. invoke send (\<lambda>r. Option.bind (node_reply r) object_obj) (NodeRpc (OCreate (Some n))),
      ac_CreateService = \<lambda>s. invoke send (\<lambda>r. Option.bind (service_reply r) object_obj) (ServiceRpc (OCreate (Some s))),
      ac_ListPods = \<lambda>ns. invoke send (\<lambda>r. Option.bind (pod_reply r) object_items) (PodRpc (OList ns)),
      ac_ListNodes = invoke send (\<lambda>r. Option.bind (node_reply r) object_items) (NodeRpc (OList [])),
      ac_ListDeployments = \<lambda>ns. invoke send (\<lambda>r. Option.bind (deployment_reply r) object_items) (DeploymentRpc (OList ns)),
      ac_ListServices = \<lambda>ns. invoke send (\<lambda>r. Option.bind (service_reply r) object_items) (ServiceRpc (OList ns)),
      ac_DeletePod = \<lambda>ns n. invoke send (map_option (\<lambda>_. ()) \<circ> pod_reply) (PodRpc (ODelete ns n)),
      ac_DeleteNode = \<lambda>n. invoke send (map_option (\<lambda>_. ()) \<circ> node_reply) (NodeRpc (ODelete [] n)),
      ac_DeleteDeployment = \<lambda>ns n. invoke send (map_option (\<lambda>_. ()) \<circ> deployment_reply) (DeploymentRpc (ODelete ns n))\<rparr>"

section \<open>The program\<close>

text \<open>
  A command line as cobra hands it on: the command with its checked arguments and the values of
  its own flags, and the persistent flags where they are given. \<open>cw_client\<close> is the API over a
  connection with an identity; no command calls it when there is no connection.
\<close>

datatype ctl_command =
    VersionCmd
  | GetCmd string bool string
  | ApplyCmd string
  | RunCmd "string list" "nat option" string string int32 "int32 list"
  | DeleteCmd string string string
  | SetContextCmd string string string
  | ConfigViewCmd
  | GenerateKeyCmd string
  | SignImageCmd string string string

record ctl_line =
  cl_command :: ctl_command
  cl_controlPlaneAddr :: "string option"
  cl_joinToken :: "string option"
  cl_clientName :: "string option"

record ('key, 'csr, 'pub, 'cert, 'ipub, 'ipriv, 'w) ctl_world_env =
  cw_ctl :: ctl_env
  cw_io :: io_env
  cw_ids :: "('key, 'csr, 'pub, 'cert) id_env"
  cw_NewClient :: "string \<Rightarrow> error option"
  cw_RequestSVID :: "string \<Rightarrow> RequestSVIDRequest \<Rightarrow> RequestSVIDResponse res"
  cw_draw :: "'key res"
  cw_client :: "('key, 'cert) SVID res \<Rightarrow> 'w api_client"
  cw_manifests :: manifest_codec
  cw_ecdsa :: "('ipub, 'ipriv) ecdsa"
  cw_keys :: "('ipub, 'ipriv) key_env"
  cw_signDraw :: "'ipriv res"

definition version :: string where "version = ''0.1.0-dev''"

definition version_cmd :: "string list res" where "version_cmd = Inr [version]"

text \<open>The value of a persistent flag: what the line gives, or the default.\<close>

definition flag_values :: "ctl_line \<Rightarrow> nimbusConfig \<Rightarrow> nimbusConfig" where
  "flag_values l defaults =
     \<lparr>nc_ControlPlaneAddr = (case cl_controlPlaneAddr l of None \<Rightarrow> nc_ControlPlaneAddr defaults | Some v \<Rightarrow> v),
      nc_JoinToken = (case cl_joinToken l of None \<Rightarrow> nc_JoinToken defaults | Some v \<Rightarrow> v),
      nc_ClientName = (case cl_clientName l of None \<Rightarrow> nc_ClientName defaults | Some v \<Rightarrow> v)\<rparr>"

definition onLocal :: "(disk, 'a) action \<Rightarrow> (disk \<times> 'w, 'a) action" where
  "onLocal a x = (case a (fst x) of (r, d) \<Rightarrow> (r, d, snd x))"

definition onServer :: "('w, 'a) action \<Rightarrow> (disk \<times> 'w, 'a) action" where
  "onServer a x = (case a (snd x) of (r, w) \<Rightarrow> (r, fst x, w))"

definition linesA :: "(disk \<times> 'w, string list) action \<Rightarrow> (disk \<times> 'w, string list list) action" where
  "linesA a = mapA (map (\<lambda>l. [l])) a"

text \<open>The command's \<open>RunE\<close>; a command that connects does so with the values of the persistent flags.\<close>

definition execute :: "('key, 'csr, 'pub, 'cert, 'ipub, 'ipriv, 'w) ctl_world_env \<Rightarrow> nimbusConfig \<Rightarrow> ctl_command \<Rightarrow>
    (disk \<times> 'w, string list list) action" where
  "execute E flags cmd x =
     (let conn = ctl_dial (cw_ids E) (cw_NewClient E) (cw_RequestSVID E) (cw_draw E) flags;
          C = cw_client E conn
      in case cmd of
           VersionCmd \<Rightarrow> (map_sum id (map (\<lambda>l. [l])) version_cmd, x)
         | GetCmd ns allNamespaces resource \<Rightarrow> onServer (get_cmd C conn ns allNamespaces resource) x
         | ApplyCmd file \<Rightarrow> linesA (onServer (apply_cmd (cw_manifests E) C conn (cw_io E) (fst x) file)) x
         | RunCmd args dash img ns replicas ports \<Rightarrow> linesA (onServer (run_cmd C conn args dash img ns replicas ports)) x
         | DeleteCmd ns resource name \<Rightarrow> linesA (onServer (delete_cmd C conn ns resource name)) x
         | SetContextCmd addr token name \<Rightarrow> linesA (onLocal (set_context_cmd (cw_ctl E) (cw_io E) addr token name)) x
         | ConfigViewCmd \<Rightarrow> (case config_view_cmd (cw_ctl E) (cw_io E) (fst x) of Inl err \<Rightarrow> (Inl err, x) | Inr ls \<Rightarrow> (Inr (map (\<lambda>l. [l]) ls), x))
         | GenerateKeyCmd outDir \<Rightarrow> mapA (\<lambda>_. [[''private key: '' @ privPath outDir], [''public key:  '' @ pubPath outDir]])
             (onLocal (generate_key_cmd (cw_keys E) (cw_io E) (cw_signDraw E) outDir)) x
         | SignImageCmd keyFile trustFile imageRef \<Rightarrow> mapA (\<lambda>_. [[''signed '' @ imageRef @ '', updated '' @ trustFile]])
             (onLocal (sign_image_cmd (cw_ecdsa E) (cw_keys E) (cw_io E) keyFile trustFile imageRef)) x)"

text \<open>\<open>main\<close>: the exit code, what is printed, and what is left.\<close>

definition nimbusctl_main :: "('key, 'csr, 'pub, 'cert, 'ipub, 'ipriv, 'w) ctl_world_env \<Rightarrow> ctl_line res \<Rightarrow> disk \<times> 'w \<Rightarrow>
    (int \<times> string list list) \<times> disk \<times> 'w" where
  "nimbusctl_main E line x =
     (case line of
        Inl err \<Rightarrow> ((1, [[error_text err]]), x)
      | Inr l \<Rightarrow>
          (let cfg = loadConfig (cw_ctl E) (cw_io E) (fst x);
               flags = flag_values l (flag_defaults (cw_ctl E) cfg)
           in case execute E flags (cl_command l) x of
                (Inl err, x') \<Rightarrow> ((1, [[error_text err]]), x')
              | (Inr out, x') \<Rightarrow> ((0, out), x')))"

section \<open>From the command line to the pods\<close>

lemma onAdm_Inr: "onAdm a w = (Inr x, w') \<longleftrightarrow> (\<exists>m. a (dw_adm w) = (Inr x, m) \<and> w' = w\<lparr>dw_adm := m\<rparr>)"
  by (auto simp: onAdm_def split: prod.splits)

lemma mapA_Inr: "mapA f a w = (Inr y, w') \<longleftrightarrow> (\<exists>x. a w = (Inr x, w') \<and> y = f x)"
  by (auto simp: mapA_def bindA_Inr ret_def)

lemma invoke_Inr: "invoke send f req w = (Inr x, w') \<longleftrightarrow> (\<exists>r. send req w = (Inr r, w') \<and> f r = Some x)"
  by (auto simp: invoke_def bindA_Inr ret_def throw_def split: option.splits)

lemma intercepted_Inr: "AuthInterceptor U ex authz ctx meth h w = (Inr x, w') \<Longrightarrow> h w = (Inr x, w')"
  by (auto simp: AuthInterceptor_def throw_def split: if_splits sum.splits option.splits prod.splits)

lemma sent_deployment:
  assumes "ac_CreateDeployment (conn_client (serve_rpc cp now ctx)) d w = (Inr d', w')"
  shows "CreateDeployment (cp_deploymentSvc cp) (Some d) (dw_adm w) = (Inr d', dw_adm w')"
  using assms
  by (auto simp: conn_client_def invoke_Inr serve_rpc_def throw_def mapA_Inr onAdm_Inr Let_def split: if_splits dest!: intercepted_Inr)

lemma sent_pod:
  assumes "ac_CreatePod (conn_client (serve_rpc cp now ctx)) p w = (Inr p', w')"
  shows "CreatePod (cp_podSvc cp) (Some p) (dw_adm w) = (Inr p', dw_adm w')"
  using assms
  by (auto simp: conn_client_def invoke_Inr serve_rpc_def throw_def mapA_Inr onAdm_Inr Let_def split: if_splits dest!: intercepted_Inr)

lemma run_deployment_created:
  assumes "run_cmd C conn args dash img ns replicas ports w = (Inr out, w')" "1 < replicas"
  obtains name command d where "args = name # command" "dash = None \<longrightarrow> command = []"
    "ac_CreateDeployment C (run_deployment name ns replicas (run_container name img command ports)) w = (Inr d, w')"
    "out = [''deployment/'' @ dep_name d @ '' created'']"
proof -
  define names where "names = (case dash of None \<Rightarrow> args | Some n \<Rightarrow> take n args)"
  define command where "command = (case dash of None \<Rightarrow> [] | Some n \<Rightarrow> drop n args)"
  have args: "args = names @ command" by (simp add: names_def command_def split: option.splits)
  from assms obtain name d where n: "names = [name]"
    "ac_CreateDeployment C (run_deployment name ns replicas (run_container name img command ports)) w = (Inr d, w')"
    "out = [''deployment/'' @ dep_name d @ '' created'']"
    unfolding run_cmd_def names_def[symmetric] command_def[symmetric] Let_def
    by (auto simp: bindA_Inr ret_def split: list.splits sum.splits)
  with args that[of name command d] show thesis by (simp add: command_def)
qed

context cluster
begin

text \<open>A deployment that the service has accepted, and the state it leaves.\<close>

lemma created_deployment:
  assumes "ok (as_store w)" "cache_ok env w"
    and "CreateDeployment (NewDeploymentService S CD CP (admission_chain allowed Verify pods quota env policies volumes)) (Some d) w = (Inr d', w')"
  shows "ok (as_store w')" "pods.objs (as_store w') = pods.objs (as_store w)"
    "deps.objs (as_store w') = (deps.objs (as_store w))(key_of kDeployments (dep_namespace d) (dep_name d) \<mapsto> d')"
    "d' = d\<lparr>dep_spec := map_option (\<lambda>sp. sp\<lparr>ds_template := map_option (\<lambda>t. t\<lparr>ps_containers := map default_context (ps_containers t)\<rparr>) (dep_template d)\<rparr>) (dep_spec d)\<rparr>"
    "\<forall>c \<in> set (PodSpec_GetContainers (dep_template d)). Verify (ctr_image c) = Inr ()"
proof -
  obtain areq w1 s' where c:
    "Chain_Admit (admission_chain allowed Verify pods quota env policies volumes)
       \<lparr>req_Namespace = dep_namespace d, req_Name = dep_name d, req_Labels = ObjectMeta_GetLabels (dep_metadata d),
        req_Spec = dep_template d, req_Replicas = dep_replicas d\<rparr> w = ((Inr (), areq), w1)"
    "d' = d\<lparr>dep_spec := map_option (\<lambda>sp. sp\<lparr>ds_template := req_Spec areq\<rparr>) (dep_spec d)\<rparr>" "w' = w1\<lparr>as_store := s'\<rparr>"
    "reg_Put deps.R (dep_namespace d) (dep_name d) d' (as_store w1) = (Inr (), s')"
    by (rule CreateDeployment_Inr[OF assms(3)]) (simp add: NewDeploymentService_def)
  note a = chain_admits[OF c(1) assms(2), unfolded Request.select_convs]
  then have put: "reg_Put deps.R (dep_namespace d) (dep_name d) d' (as_store w) = (Inr (), s')" using c(4) by simp
  have "dep_namespace d' = dep_namespace d" "dep_name d' = dep_name d" by (simp_all add: c(2))
  note p = put_dep[OF assms(1), of "dep_namespace d" d' "dep_name d", unfolded put snd_conv, OF this[symmetric]]
  show "ok (as_store w')" "pods.objs (as_store w') = pods.objs (as_store w)"
    "deps.objs (as_store w') = (deps.objs (as_store w))(key_of kDeployments (dep_namespace d) (dep_name d) \<mapsto> d')"
    using p put by (simp_all add: c(3))
  show "d' = d\<lparr>dep_spec := map_option (\<lambda>sp. sp\<lparr>ds_template := map_option (\<lambda>t. t\<lparr>ps_containers := map default_context (ps_containers t)\<rparr>) (dep_template d)\<rparr>) (dep_spec d)\<rparr>"
    "\<forall>c \<in> set (PodSpec_GetContainers (dep_template d)). Verify (ctr_image c) = Inr ()"
    using a c(2) by auto
qed

end

text \<open>
  C4: \<open>nimbusctl run name --image=img --replicas=n -- command\<close> with more than one replica, sent to the
  control plane. If the command reports success, exactly the deployment of that name was stored,
  with that number of replicas and one container of the image and the command, unprivileged and
  with a seccomp profile, and the image was verified. And from there, a pass of the deployment controller over it
  that reports no error leaves exactly that many pods of the deployment, each of them live.
\<close>

theorem nimbusctl_run_becomes_pods:
  assumes "cluster S good repr (co_Pod co) (co_Node co) (co_Deployment co) (co_Volume co)"
    and "cluster_ok good repr (co_Pod co) (co_Node co) (co_Deployment co) (co_Volume co) (dw_store w)" "cache_ok (pt_engine pt) (dw_adm w)"
    and "\<forall>k p. obj_at repr (co_Pod co) kPods (dw_store w) k = Some p \<longrightarrow> clean_pod p"
    and "1 < replicas" "in32 replicas" "no_slash ns" "list_all no_slash args"
    and "run_cmd (conn_client (serve_rpc (register_services fl pt co S) now ctx)) conn args dash img ns replicas ports w = (Inr out, w1)"
  shows "out = [''deployment/'' @ hd args @ '' created''] \<and> pt_Verify pt img = Inr () \<and>
    (\<exists>d. obj_at repr (co_Deployment co) kDeployments (dw_store w1) =
         (obj_at repr (co_Deployment co) kDeployments (dw_store w))(key_of kDeployments ns (hd args) \<mapsto> d) \<and>
       dep_replicas d = replicas \<and>
       PodSpec_GetContainers (dep_template d) = [default_context (run_container (hd args) img (tl args) ports)] \<and>
       (\<forall>s'. reconcileOne (ct_deployment (new_controllers fl co S)) d (dw_store w1) = (Inr (), s') \<longrightarrow>
          (\<exists>ps. reg_List (reg_New S kPods (co_Pod co)) ns s' = Inr ps \<and>
             int (length (filter (\<lambda>p. owner_of p = hd args) ps)) = replicas \<and>
             (\<forall>p \<in> set ps. owner_of p = hd args \<longrightarrow> alive (obj_at repr (co_Node co) kNodes s') p))))"
proof -
  obtain name command d where args: "args = name # command" and out: "out = [''deployment/'' @ dep_name d @ '' created'']"
    and sent: "ac_CreateDeployment (conn_client (serve_rpc (register_services fl pt co S) now ctx))
      (run_deployment name ns replicas (run_container name img command ports)) w = (Inr d, w1)"
    by (rule run_deployment_created[OF assms(9,5)])
  let ?d = "run_deployment name ns replicas (run_container name img command ports)"
  have svc: "cp_deploymentSvc (register_services fl pt co S) = NewDeploymentService S (co_Deployment co) (co_Pod co)
      (admission_chain (splitCSV (af_allowedCapabilities fl)) (pt_Verify pt) (reg_New S kPods (co_Pod co))
       (Some (flag_quota fl)) (pt_engine pt) (reg_New S kPolicies (co_Policy co)) (reg_New S kVolumes (co_Volume co)))"
    by (simp add: register_services_def admissionChain_def)
  note c = cluster.created_deployment[OF assms(1,2,3) sent_deployment[OF sent, unfolded svc]]
  have given: "dep_namespace ?d = ns" "dep_name ?d = name" "dep_spec ?d \<noteq> None" "dep_mounts ?d = []"
    by (simp_all add: run_deployment_def zero_messages)
  have d: "dep_namespace d = ns" "dep_name d = name" "dep_replicas d = replicas" "dep_mounts d = []" "PodSpec_GetNodeName (dep_template d) = []"
    "PodSpec_GetContainers (dep_template d) = [default_context (run_container name img command ports)]"
    unfolding c(4) by (simp_all add: run_deployment_def zero_messages)
  have pass: "\<exists>ps. reg_List (reg_New S kPods (co_Pod co)) ns s' = Inr ps \<and>
      int (length (filter (\<lambda>p. owner_of p = name) ps)) = replicas \<and>
      (\<forall>p \<in> set ps. owner_of p = name \<longrightarrow> alive (obj_at repr (co_Node co) kNodes s') p)"
    if "reconcileOne (ct_deployment (new_controllers fl co S)) d (dw_store w1) = (Inr (), s')" for s'
  proof -
    have rec: "ct_deployment (new_controllers fl co S) = NewDeploymentReconciler (reg_New S kDeployments (co_Deployment co))
        (reg_New S kPods (co_Pod co)) (reg_New S kNodes (co_Node co)) (reg_New S kVolumes (co_Volume co)) Schedule 0"
      by (simp add: new_controllers_def Let_def)
    have "0 \<le> dep_replicas d" "in32 (dep_replicas d)" "clean_dep d" "wanted d = replicas"
      "\<forall>k p. obj_at repr (co_Pod co) kPods (dw_store w1) k = Some p \<longrightarrow> clean_pod p"
      "targets_up (obj_at repr (co_Node co) kNodes (dw_store w1)) (obj_at repr (co_Volume co) kVolumes (dw_store w1)) d"
      using assms(4-8) d args c(2) by (simp_all add: clean_dep_def wanted_def targets_up_def)
    with cluster.pass_reaches[OF assms(1) c(1), of d 0 s'] that[unfolded rec] d(1,2) show ?thesis by simp
  qed
  have "pt_Verify pt img = Inr ()" using c(5) by (simp add: run_deployment_def run_container_def)
  with c(3) given d out args pass show ?thesis by (auto intro!: exI[of _ d])
qed

definition ex_ctl :: "(wire memStore, string, unit) dash_world api_client" where
  "ex_ctl = conn_client (serve_rpc (register_services ex_flags ex_parts ex_codecs memStore) 0 (ex_peer ''/client/alice''))"

theorem nimbusctl_run_becomes_pods_witness:
  "\<exists>d w1. run_cmd ex_ctl (Inr (NewSVID () () [])) [''web'', ''serve''] (Some 1) ''img'' ''default'' 2 [80] ex_empty_world =
       (Inr [''deployment/web created''], w1) \<and>
     obj_at map_of dep_codec kDeployments (dw_store w1) (key_of kDeployments ''default'' ''web'') = Some d \<and> dep_replicas d = 2 \<and>
     map ctr_command (PodSpec_GetContainers (dep_template d)) = [[''serve'']]"
proof -
  let ?run = "run_cmd ex_ctl (Inr (NewSVID () () [])) [''web'', ''serve''] (Some 1) ''img'' ''default'' 2 [80] ex_empty_world"
  have "\<not> isl (fst ?run)"
    by (simp add: run_cmd_def ex_ctl_def conn_client_def invoke_def serve_rpc_def served_def register_services_def Let_def HasPrefix_def
        run_deployment_def) code_simp
  then obtain out w1 where run: "?run = (Inr out, w1)" by (metis isl_def prod.collapse sum.collapse(2))
  have cl: "cluster memStore mem_ok map_of (co_Pod ex_codecs) (co_Node ex_codecs) (co_Deployment ex_codecs) (co_Volume ex_codecs)"
    using mem_cluster.cluster_axioms by (simp add: ex_codecs_def)
  have w: "cluster_ok mem_ok map_of (co_Pod ex_codecs) (co_Node ex_codecs) (co_Deployment ex_codecs) (co_Volume ex_codecs) (dw_store ex_empty_world)"
    "cache_ok (pt_engine ex_parts) (dw_adm ex_empty_world)"
    "\<forall>k p. obj_at map_of (co_Pod ex_codecs) kPods (dw_store ex_empty_world) k = Some p \<longrightarrow> clean_pod p"
    by (simp_all add: ex_empty_world_def NewMemStore_def cluster_ok_def decodes_def own_keys_def obj_at_def cache_ok_def)
  have n: "1 < (2 :: int)" "in32 2" "no_slash ''default''" "list_all no_slash [''web'', ''serve'']"
    by (simp_all add: in32_def no_slash_def)
  have "co_Deployment ex_codecs = dep_codec" by (simp add: ex_codecs_def)
  with nimbusctl_run_becomes_pods[OF cl w n run[unfolded ex_ctl_def]] run show ?thesis
    by (auto simp: default_context_def run_container_def Let_def split: option.splits)
qed

end
