(* ===== verification/Startup.thy ===== *)
theory Startup
  imports Telemetry Server Loops System Signing VolumeService Mesh NodePort
begin

text \<open>
  How the two long-running programs start: \<open>main\<close> of \<^verbatim>\<open>cmd/nimbus-apiserver/main.go\<close> and of
  \<^verbatim>\<open>cmd/nimbus-agent/main.go\<close>, from the parsed flags to the parts that run from then on. A call of
  \<open>log.Fatal\<close> is an error of the start; deferred calls do not run then. Goroutines and the
  listening servers are parts of the result: the loops of the theory \<open>Loops\<close>, the services
  of \<open>ControlPlane\<close>, the agent.
\<close>

section \<open>The control plane\<close>

text \<open>What a start acts on: the disk, the telemetry globals, and the other replicas.\<close>

record ('te, 'me, 'w) start_world =
  sw_disk :: disk
  sw_otel :: "('te, 'me) otel_world"
  sw_remote :: 'w

definition onDisk :: "(disk, 'a) action \<Rightarrow> (('te, 'me, 'w) start_world, 'a) action" where
  "onDisk a w = (case a (sw_disk w) of (r, d) \<Rightarrow> (r, w\<lparr>sw_disk := d\<rparr>))"

definition onOtel :: "(('te, 'me) otel_world, 'a) action \<Rightarrow> (('te, 'me, 'w) start_world, 'a) action" where
  "onOtel a w = (case a (sw_otel w) of (r, t) \<Rightarrow> (r, w\<lparr>sw_otel := t\<rparr>))"

definition onRemote :: "('w, 'a) action \<Rightarrow> (('te, 'me, 'w) start_world, 'a) action" where
  "onRemote a w = (case a (sw_remote w) of (r, x) \<Rightarrow> (r, w\<lparr>sw_remote := x\<rparr>))"

definition giveA :: "'a res \<Rightarrow> ('s, 'a) action" where
  "giveA r s = (r, s)"

text \<open>The libraries, the network and the random draws.\<close>

record ('te, 'me, 'w, 'key, 'csr, 'pub, 'cert, 'r, 'g, 'l, 'ast, 'p, 'ipub, 'ipriv, 'f) apiserver_env =
  ae_otel :: "('te, 'me) otel_env"
  ae_ids :: "('key, 'csr, 'pub, 'cert) id_env"
  ae_io :: io_env
  ae_dial :: "string \<Rightarrow> error option"
  ae_RequestSVID :: "string \<Rightarrow> RequestSVIDRequest \<Rightarrow> RequestSVIDResponse res"
  ae_JoinRaft :: "string \<Rightarrow> ('key, 'cert) tls_Config \<Rightarrow> string \<Rightarrow> string \<Rightarrow> ('w, unit) action"
  ae_MatchMemberOf :: "string \<Rightarrow> spiffe_ID \<Rightarrow> error option"
  ae_now :: int
  ae_draws :: "'key draws"
  ae_raft :: "('r, 'g, 'l) raft_env"
  ae_rand :: 'g
  ae_NewEngine :: "('ast, 'p) cel_env res"
  ae_ecdsa :: "('ipub, 'ipriv) ecdsa"
  ae_keys :: "('ipub, 'ipriv) key_env"
  ae_json :: json_meta
  ae_float :: "'f float_ops"
  ae_static :: "unit res"
  ae_secret :: "bytes res"

datatype rotation = SelfIssue string int64 | Reenroll EnrollConfig int64

record ('key, 'cert, 'r, 'g, 'ast, 'p, 'f) apiserver =
  ap_svid :: "('key, 'cert) SVID"
  ap_store :: "('r, 'g) RaftStore"
  ap_rotation :: rotation
  ap_server :: "('key, 'cert, spiffe_ID \<Rightarrow> error option) Server"
  ap_services :: "(('r, 'g) RaftStore, bytes, 'ast, 'p, disk, 'f) control_plane"
  ap_identity :: "'cert identityService option"
  ap_controllers :: "(('r, 'g) RaftStore, bytes) controllers"
  ap_manager :: Manager
  ap_dashboard :: "gitops_Status option \<Rightarrow> (('r, 'g) RaftStore, bytes, 'p, disk, 'f) dash_Config"
  ap_session :: "sessionAuth option"

text \<open>The two enrolment configurations of a replica that joins.\<close>

definition replica_config :: "'f apiserver_flags \<Rightarrow> EnrollConfig" where
  "replica_config fl = \<lparr>ec_ControlPlaneAddr = af_joinAddr fl, ec_JoinToken = af_joinToken fl, ec_Name = af_nodeID fl,
     ec_Role = SVID_ROLE_CONTROL_PLANE\<rparr>"

text \<open>
  The first half of the start: telemetry, the identity, the store, and for a replica that joins
  the request to the leader.
\<close>

definition start_replica :: "('te, 'me, 'w, 'key, 'csr, 'pub, 'cert, 'r, 'g, 'l, 'ast, 'p, 'ipub, 'ipriv, 'f) apiserver_env \<Rightarrow> 'f apiserver_flags \<Rightarrow>
    (('te, 'me, 'w) start_world, ('key, 'cert) SVID \<times> ('cert, 'key) keyedCA option \<times> bytes \<times> ('r, 'g) RaftStore \<times> spiffe_ID) action" where
  "start_replica env fl =
     bindA (wrapA ''apiserver: telemetry'' (onOtel (telemetry_Setup (ae_otel env)
       \<lparr>tc_ServiceName = ''nimbus-apiserver'', tc_Exporter = af_otelExporter fl, tc_OTLPEndpoint = af_otlpEndpoint fl\<rparr>))) (\<lambda>otelProvider.
     bindA (wrapA ''apiserver'' (onDisk (loadOrBootstrapIdentity (ae_ids env) (ae_io env) (ae_dial env) (ae_RequestSVID env) (ae_now env)
       (ae_draws env) (af_bootstrap fl) (af_trustDomain fl) (af_nodeID fl) (af_joinAddr fl) (af_joinToken fl) (af_dataDir fl)))) (\<lambda>(svid, ca, dek).
     bindA (wrapA ''apiserver: raft'' (giveA (NewRaftStore (ae_raft env) \<lparr>cfg_NodeID = af_nodeID fl, cfg_BindAddr = af_raftAddr fl,
       cfg_DataDir = af_dataDir fl, cfg_Bootstrap = af_bootstrap fl, cfg_EncryptionKey = dek\<rparr> (ae_rand env)))) (\<lambda>store.
     bindA (wrapA ''apiserver'' (giveA (SVID_ID (ae_ids env) svid))) (\<lambda>selfID.
     bindA (if af_bootstrap fl then ret () else wrapA ''apiserver: join raft cluster'' (onRemote (joinRaftCluster (ae_dial env) (ae_JoinRaft env)
       (ae_ids env) svid (ae_MatchMemberOf env (id_TrustDomain selfID)) (af_joinAddr fl) (af_nodeID fl) (af_raftAddr fl)))) (\<lambda>_.
     ret (svid, ca, dek, store, selfID))))))"

text \<open>
  The handler of the dashboard: its embedded files (\<open>ae_static\<close>), and with a password a session guard
  with a fresh secret (\<open>ae_secret\<close>); \<open>None\<close> when there is no password.
\<close>

definition start_dashboard :: "('te, 'me, 'w, 'key, 'csr, 'pub, 'cert, 'r, 'g, 'l, 'ast, 'p, 'ipub, 'ipriv, 'f) apiserver_env \<Rightarrow> 'f apiserver_flags \<Rightarrow>
    sessionAuth option res" where
  "start_dashboard env fl =
     (case ae_static env of
        Inl err \<Rightarrow> Inl (ErrWrap ''apiserver: dashboard'' err)
      | Inr _ \<Rightarrow>
          if af_dashboardPassword fl = [] then Inr None
          else (case newSessionAuth (af_dashboardUsername fl) (af_dashboardPassword fl) (ae_secret env) of
                  Inl err \<Rightarrow> Inl err
                | Inr sess \<Rightarrow> Inr (Some sess)))"

text \<open>
  The second half: the policy engine, the image verifier, the CSI driver, and the services and
  controllers over them. The interceptor of the server is named by its matcher; its authoriser
  is the one of the services.
\<close>

definition start_services :: "('te, 'me, 'w, 'key, 'csr, 'pub, 'cert, 'r, 'g, 'l, 'ast, 'p, 'ipub, 'ipriv, 'f) apiserver_env \<Rightarrow> bytes codecs \<Rightarrow>
    'f apiserver_flags \<Rightarrow> ('key, 'cert) SVID \<times> ('cert, 'key) keyedCA option \<times> bytes \<times> ('r, 'g) RaftStore \<times> spiffe_ID \<Rightarrow>
    (('te, 'me, 'w) start_world, ('key, 'cert, 'r, 'g, 'ast, 'p, 'f) apiserver) action" where
  "start_services env co fl = (\<lambda>(svid, ca, dek, store, selfID).
     bindA (wrapA ''apiserver: policy engine'' (giveA (ae_NewEngine env))) (\<lambda>policyEngine.
     bindA (\<lambda>w. (loadImageVerifier (ae_ecdsa env) (ae_keys env) (ae_io env) (af_imageTrustFile fl) (af_imagePubKeyFile fl)
       (af_insecureSkipImageVerification fl) (sw_disk w), w)) (\<lambda>(imageVerifier, imageSigningPub).
     bindA (wrapA ''apiserver: csi hostpath driver'' (onDisk (hostpath_New (ae_io env) (af_nodeID fl) (af_csiHostpathDir fl)))) (\<lambda>csiDriver.
     let expectMember = ae_MatchMemberOf env (id_TrustDomain selfID);
         pt = \<lparr>pt_engine = policyEngine, pt_Verify = imageVerifier, pt_ecdsa = ae_ecdsa env, pt_imageSigningPub = imageSigningPub,
               pt_csi = hostpath_controller (ae_io env) (ae_json env) csiDriver, pt_expectMember = expectMember,
               pt_FromURI = ie_FromURI (ae_ids env), pt_float = ae_float env\<rparr>;
         cp = register_services fl pt co (raftStore (ae_raft env));
         ct = new_controllers fl co (raftStore (ae_raft env)) in
     bindA (giveA (start_dashboard env fl)) (\<lambda>sess.
     ret \<lparr>ap_svid = svid, ap_store = store,
          ap_rotation = (case ca of
            Some _ \<Rightarrow> SelfIssue (''/control-plane/'' @ af_nodeID fl) DefaultSVIDTTL
          | None \<Rightarrow> Reenroll (replica_config fl) DefaultSVIDTTL),
          ap_server = server_New \<lparr>sc_Addr = af_apiAddr fl, sc_TLSConfig = Some (ServerTLSConfig (ae_ids env) svid), sc_AuthInterceptor = Some expectMember\<rparr>,
          ap_services = cp,
          ap_identity = map_option (\<lambda>c. \<lparr>is_ca = CA.truncate c, is_joinToken = af_joinToken fl, is_svidTTL = DefaultSVIDTTL,
            is_dataEncryptionKey = dek\<rparr>) ca,
          ap_controllers = ct, ap_manager = register_controllers ct,
          ap_dashboard = dashboard_config fl co (raftStore (ae_raft env)) cp, ap_session = sess\<rparr>)))))"

definition apiserver_start :: "('te, 'me, 'w, 'key, 'csr, 'pub, 'cert, 'r, 'g, 'l, 'ast, 'p, 'ipub, 'ipriv, 'f) apiserver_env \<Rightarrow> bytes codecs \<Rightarrow>
    'f apiserver_flags \<Rightarrow> (('te, 'me, 'w) start_world, ('key, 'cert, 'r, 'g, 'ast, 'p, 'f) apiserver) action" where
  "apiserver_start env co fl =
     (if af_joinToken fl = [] then throw (ErrText ''apiserver: -join-token is required'')
      else if \<not> af_bootstrap fl \<and> af_joinAddr fl = []
        then throw (ErrText ''apiserver: -join-api-addr is required unless -bootstrap is set'')
      else bindA (start_replica env fl) (start_services env co fl))"

section \<open>The agent\<close>

record agent_flags =
  gf_nodeName :: string
  gf_controlPlaneAddr :: string
  gf_joinToken :: string
  gf_cpuMillis :: int64
  gf_memoryBytes :: int64
  gf_accelerators :: string
  gf_nodeIP :: string
  gf_heartbeatInterval :: int
  gf_otelExporter :: string
  gf_otlpEndpoint :: string
  gf_logDir :: string
  gf_logAddr :: string
  gf_buildDir :: string
  gf_buildkitAddr :: string
  gf_volumesDir :: string
  gf_filesAddr :: string

text \<open>
  The network as the agent sees it: \<open>ge_Dial\<close> gives the local address of a datagram socket, and
  \<open>ge_CreateNode\<close> is the RPC over the connection, with the retries and the circuit breaker of the theory \<open>Mesh\<close> in front.
\<close>

record ('te, 'me, 'w, 'key, 'csr, 'pub, 'cert) agent_env =
  ge_otel :: "('te, 'me) otel_env"
  ge_ids :: "('key, 'csr, 'pub, 'cert) id_env"
  ge_dial :: "string \<Rightarrow> error option"
  ge_RequestSVID :: "string \<Rightarrow> RequestSVIDRequest \<Rightarrow> RequestSVIDResponse res"
  ge_draw :: "'key res"
  ge_MatchMemberOf :: "string \<Rightarrow> spiffe_ID \<Rightarrow> error option"
  ge_Dial :: "string \<Rightarrow> string res"
  ge_now :: int
  ge_CreateNode :: "('key, 'cert) tls_Config \<Rightarrow> Node \<Rightarrow> ('w, Node) action"

definition detectOutboundIP :: "(string \<Rightarrow> string res) \<Rightarrow> string \<Rightarrow> string res" where
  "detectOutboundIP Dial controlPlaneAddr = Dial controlPlaneAddr"

definition worker_config :: "agent_flags \<Rightarrow> EnrollConfig" where
  "worker_config fl = \<lparr>ec_ControlPlaneAddr = gf_controlPlaneAddr fl, ec_JoinToken = gf_joinToken fl, ec_Name = gf_nodeName fl,
     ec_Role = SVID_ROLE_NODE\<rparr>"

text \<open>\<open>agent.New\<close>: the configuration of the runtime, the tick, and empty tables.\<close>

record 'w Agent =
  at_cfg :: AgentConfig
  at_Interval :: int
  at_runtime :: "'w agent"
  at_nodePorts :: nodePortManager

definition agent_New :: "AgentConfig \<Rightarrow> int \<Rightarrow> 'w \<Rightarrow> 'w Agent" where
  "agent_New cfg interval w =
     \<lparr>at_cfg = cfg, at_Interval = (if interval \<le> 0 then 2 * Second else interval), at_runtime = newProcessRuntime w,
      at_nodePorts = newNodePortManager\<rparr>"

text \<open>What runs from then on: renewal, the heartbeats, the log and file servers, and the agent itself.\<close>

record ('key, 'cert, 'w) agent_process =
  gp_svid :: "('key, 'cert) SVID"
  gp_rotation :: rotation
  gp_breaker :: CircuitBreaker
  gp_retry :: RetryPolicy
  gp_heartbeat :: "string \<times> ResourceList \<times> int"
  gp_logServer :: "string \<times> string"
  gp_filesServer :: "string \<times> string"
  gp_agent :: "'w Agent"

definition agent_start :: "('te, 'me, 'w, 'key, 'csr, 'pub, 'cert) agent_env \<Rightarrow> agent_flags \<Rightarrow>
    (('te, 'me, 'w) start_world, ('key, 'cert, 'w) agent_process) action" where
  "agent_start env fl =
     (if gf_controlPlaneAddr fl = [] \<or> gf_joinToken fl = [] then throw (ErrText ''agent: -control-plane-addr and -join-token are required'')
      else
      bindA (wrapA ''agent: telemetry'' (onOtel (telemetry_Setup (ge_otel env)
        \<lparr>tc_ServiceName = ''nimbus-agent'', tc_Exporter = gf_otelExporter fl, tc_OTLPEndpoint = gf_otlpEndpoint fl\<rparr>))) (\<lambda>otelProvider.
      bindA (wrapA ''agent: enroll'' (giveA (Enroll (ge_ids env) (ge_dial env) (ge_RequestSVID env) (ge_draw env) (worker_config fl)))) (\<lambda>(svid, dek).
      bindA (wrapA ''agent'' (giveA (SVID_ID (ge_ids env) svid))) (\<lambda>selfID.
      let expectControlPlane = ge_MatchMemberOf env (id_TrustDomain selfID) in
      bindA (wrapA ''agent: dial control plane'' (giveA (case ge_dial env (gf_controlPlaneAddr fl) of None \<Rightarrow> Inr () | Some err \<Rightarrow> Inl err))) (\<lambda>_.
      bindA (giveA (internal_ip (gf_nodeIP fl) (detectOutboundIP (ge_Dial env) (gf_controlPlaneAddr fl)))) (\<lambda>internalIP.
      bindA (giveA (parseAccelerators (gf_accelerators fl))) (\<lambda>accelerators.
      let capacity = \<lparr>rl_cpu_millis = gf_cpuMillis fl, rl_memory_bytes = gf_memoryBytes fl, rl_accelerators = accelerators\<rparr> in
      bindA (wrapA ''agent: register node'' (onRemote (ge_CreateNode env (ClientTLSConfig (ge_ids env) svid expectControlPlane)
        (registration (gf_nodeName fl) capacity (ge_now env div Second) internalIP)))) (\<lambda>_ w.
      (Inr \<lparr>gp_svid = svid, gp_rotation = Reenroll (worker_config fl) DefaultSVIDTTL,
            gp_breaker = NewCircuitBreaker 5 (30 * Second), gp_retry = DefaultRetryPolicy,
            gp_heartbeat = (gf_nodeName fl, capacity, gf_heartbeatInterval fl),
            gp_logServer = (gf_logAddr fl, gf_logDir fl), gp_filesServer = (gf_filesAddr fl, gf_volumesDir fl),
            gp_agent = agent_New \<lparr>ac_NodeName = gf_nodeName fl, ac_InternalIP = internalIP, ac_LogDir = gf_logDir fl,
              ac_BuildDir = gf_buildDir fl, ac_BuildkitAddr = gf_buildkitAddr fl, ac_VolumesDir = gf_volumesDir fl\<rparr> 0 (sw_remote w)\<rparr>, w)))))))))"

section \<open>A started API server\<close>

lemma giveA_Inr: "giveA r s = (Inr x, s') \<longleftrightarrow> r = Inr x \<and> s' = s"
  by (auto simp: giveA_def)

lemma onDisk_Inr: "onDisk a w = (Inr x, w') \<longleftrightarrow> (\<exists>d. a (sw_disk w) = (Inr x, d) \<and> w' = w\<lparr>sw_disk := d\<rparr>)"
  by (auto simp: onDisk_def split: prod.splits)

lemma onOtel_Inr: "onOtel a w = (Inr x, w') \<longleftrightarrow> (\<exists>t. a (sw_otel w) = (Inr x, t) \<and> w' = w\<lparr>sw_otel := t\<rparr>)"
  by (auto simp: onOtel_def split: prod.splits)

lemma onRemote_Inr: "onRemote a w = (Inr x, w') \<longleftrightarrow> (\<exists>y. a (sw_remote w) = (Inr x, y) \<and> w' = w\<lparr>sw_remote := y\<rparr>)"
  by (auto simp: onRemote_def split: prod.splits)

lemmas start_steps = bindA_Inr giveA_Inr onDisk_Inr onOtel_Inr onRemote_Inr

text \<open>The identity and the key: a joining replica has what it enrolled for, a bootstrap replica what its own CA issued and its state holds.\<close>

lemma identity_source:
  assumes "loadOrBootstrapIdentity E io dial rpc now R boot td node addr token dir d = (Inr (svid, ca, dek), d')"
  shows "if boot then \<exists>c. ca = Some c \<and> bootstrapState E io now R td dir d = (Inr (c, dek), d') \<and> issueSelf E now R node c = Inr svid
    else ca = None \<and> d' = d \<and> Enroll E dial rpc (dr_key R)
      \<lparr>ec_ControlPlaneAddr = addr, ec_JoinToken = token, ec_Name = node, ec_Role = SVID_ROLE_CONTROL_PLANE\<rparr> = Inr (svid, dek)"
proof (cases boot)
  case True
  with assms obtain c k d1 where "bootstrapState E io now R td dir d = (Inr (c, k), d1)"
    "(case issueSelf E now R node c of Inl err \<Rightarrow> (Inl err, d1) | Inr s \<Rightarrow> (Inr (s, Some c, k), d1)) = (Inr (svid, ca, dek), d')"
    by (auto simp: loadOrBootstrapIdentity_def bindA_Inr)
  with True show ?thesis by (auto split: sum.splits)
qed (use assms in \<open>auto simp: loadOrBootstrapIdentity_def split: sum.splits\<close>)

lemma raft_key: "NewRaftStore E cfg g = Inr s \<Longrightarrow> rs_encKey s = cfg_EncryptionKey cfg \<and> (rs_encKey s = [] \<or> length (rs_encKey s) = EncryptionKeySize)"
  by (auto simp: NewRaftStore_def split: if_splits sum.splits prod.splits)

text \<open>What \<open>loadImageVerifier\<close> gives: everything passes under the flag, and otherwise the key and the signatures of the two files.\<close>

definition verifies_by :: "('pub, 'priv) ecdsa \<Rightarrow> ('pub, 'priv) key_env \<Rightarrow> io_env \<Rightarrow> string \<Rightarrow> string \<Rightarrow> disk \<Rightarrow> (string \<Rightarrow> unit res) \<Rightarrow> bool" where
  "verifies_by E K io trustFile pubKeyFile d v \<longleftrightarrow>
     (\<exists>pem pub tf. os_ReadFile io pubKeyFile d = Inr pem \<and> ParsePublicKey K pem = Inr pub \<and> LoadTrustFile K io trustFile d = Inr tf \<and>
        v = KeyVerifier_Verify E pub tf)"

lemma verifier_kinds:
  assumes "loadImageVerifier E K io tf pk skip d = Inr (v, pub)"
  shows "if skip then v = allowAll_Verify else verifies_by E K io tf pk d v"
  using assms by (auto simp: loadImageVerifier_def verifies_by_def split: if_splits sum.splits)

lemma started_replica:
  assumes "start_replica env fl w = (Inr (svid, ca, dek, store, i), w')"
  shows "loadOrBootstrapIdentity (ae_ids env) (ae_io env) (ae_dial env) (ae_RequestSVID env) (ae_now env) (ae_draws env) (af_bootstrap fl)
       (af_trustDomain fl) (af_nodeID fl) (af_joinAddr fl) (af_joinToken fl) (af_dataDir fl) (sw_disk w) = (Inr (svid, ca, dek), sw_disk w')"
    "rs_encKey store = dek" "dek = [] \<or> length dek = EncryptionKeySize" "SVID_ID (ae_ids env) svid = Inr i"
    "\<not> af_bootstrap fl \<longrightarrow> joinRaftCluster (ae_dial env) (ae_JoinRaft env) (ae_ids env) svid (ae_MatchMemberOf env (id_TrustDomain i))
       (af_joinAddr fl) (af_nodeID fl) (af_raftAddr fl) (sw_remote w) = (Inr (), sw_remote w')"
  using assms unfolding start_replica_def
  by (auto simp: start_steps ret_def dest: raft_key split: if_splits)

lemma started_services:
  assumes "start_services env co fl (svid, ca, dek, store, i) w = (Inr a, w')"
  shows "ap_svid a = svid" "ap_store a = store" "cp_expectMember (ap_services a) = ae_MatchMemberOf env (id_TrustDomain i)"
    "cp_authz (ap_services a) = DefaultRBACBindings" "sw_remote w' = sw_remote w"
    "srv_options (ap_server a) = [StatsHandler, Creds (ServerTLSConfig (ae_ids env) svid), UnaryInterceptor (ae_MatchMemberOf env (id_TrustDomain i))]"
    "start_dashboard env fl = Inr (ap_session a)" "ap_dashboard a = dashboard_config fl co (raftStore (ae_raft env)) (ap_services a)"
    "ap_identity a = map_option (\<lambda>c. \<lparr>is_ca = CA.truncate c, is_joinToken = af_joinToken fl, is_svidTTL = DefaultSVIDTTL, is_dataEncryptionKey = dek\<rparr>) ca"
  using assms unfolding start_services_def
  by (auto simp: start_steps ret_def server_New_def register_services_def Let_def)

lemma started_dashboard:
  assumes "start_dashboard env fl = Inr sess"
  shows "case sess of None \<Rightarrow> af_dashboardPassword fl = []
    | Some x \<Rightarrow> af_dashboardPassword fl \<noteq> [] \<and> sa_username x = af_dashboardUsername fl \<and> sa_password x = af_dashboardPassword fl \<and>
        ae_secret env = Inr (sa_secret x)"
  using assms by (auto simp: start_dashboard_def newSessionAuth_def split: if_splits sum.splits)

text \<open>The chain that the pod and the deployment service of the started server run is over the verifier loaded from the disk.\<close>

lemma started_admission:
  assumes "start_services env co fl x w = (Inr a, w')"
  shows "\<exists>v. (if af_insecureSkipImageVerification fl then v = allowAll_Verify
       else verifies_by (ae_ecdsa env) (ae_keys env) (ae_io env) (af_imageTrustFile fl) (af_imagePubKeyFile fl) (sw_disk w) v) \<and>
     guards (admitted (splitCSV (af_allowedCapabilities fl)) v) (psv_admission (cp_podSvc (ap_services a))) \<and>
     dsv_admission (cp_deploymentSvc (ap_services a)) = psv_admission (cp_podSvc (ap_services a))"
proof -
  have "\<exists>pt pub. ap_services a = register_services fl pt co (raftStore (ae_raft env)) \<and> pt_ecdsa pt = ae_ecdsa env \<and>
      loadImageVerifier (ae_ecdsa env) (ae_keys env) (ae_io env) (af_imageTrustFile fl) (af_imagePubKeyFile fl)
        (af_insecureSkipImageVerification fl) (sw_disk w) = Inr (pt_Verify pt, pub)"
    using assms unfolding start_services_def
    by (clarsimp simp: start_steps ret_def Let_def split: prod.splits) (intro exI conjI, rule refl, simp_all)
  then obtain pt pub v where pt: "ap_services a = register_services fl pt co (raftStore (ae_raft env))" "pt_ecdsa pt = ae_ecdsa env" "pt_Verify pt = v"
    and "loadImageVerifier (ae_ecdsa env) (ae_keys env) (ae_io env) (af_imageTrustFile fl) (af_imagePubKeyFile fl)
        (af_insecureSkipImageVerification fl) (sw_disk w) = Inr (v, pub)" by blast
  then have "if af_insecureSkipImageVerification fl then v = allowAll_Verify
     else verifies_by (ae_ecdsa env) (ae_keys env) (ae_io env) (af_imageTrustFile fl) (af_imagePubKeyFile fl) (sw_disk w) v"
    using verifier_kinds by metis
  then show ?thesis
    by (intro exI[of _ v]) (simp add: pt register_services_def NewPodService_def NewDeploymentService_def admissionChain_def admission_chain_guards)
qed

text \<open>
  C13: an API server that starts is guarded. If \<open>main\<close> gets as far as serving, a join token is set and a
  joining replica has an address to join at; the gRPC server has the replica's TLS configuration
  and the interceptor for its own trust domain over the default bindings. A replica that joins
  holds the identity and encrypts its store under exactly the data-encryption key that its
  enrolment returned, issues no certificates, and has been accepted by the leader before. A
  bootstrap replica holds the identity its CA issued for it, encrypts under the key of the
  bootstrap state (loaded, or made and saved), and issues certificates for that join token only,
  handing on that same key. The key has the full length, or there is none. The chain before the pod and the deployment
  service lets a request through only with security contexts within the flag's capabilities and
  with images that the verifier accepts, which is the one over the public key and the trust file
  of the flags as they are on disk then, unless the flag turned verification off. The dashboard
  asks for the flags' user and password, with a secret drawn for this run, exactly when a password is set.
\<close>

theorem started_api_server_guarded:
  assumes "apiserver_start env co fl w = (Inr a, w')"
  shows "af_joinToken fl \<noteq> [] \<and> (af_bootstrap fl \<or> af_joinAddr fl \<noteq> []) \<and>
    srv_options (ap_server a) =
      [StatsHandler, Creds (ServerTLSConfig (ae_ids env) (ap_svid a)), UnaryInterceptor (cp_expectMember (ap_services a))] \<and>
    (\<exists>i. SVID_ID (ae_ids env) (ap_svid a) = Inr i \<and> cp_expectMember (ap_services a) = ae_MatchMemberOf env (id_TrustDomain i)) \<and>
    cp_authz (ap_services a) = DefaultRBACBindings \<and>
    (rs_encKey (ap_store a) = [] \<or> length (rs_encKey (ap_store a)) = EncryptionKeySize) \<and>
    (\<exists>d. (if af_bootstrap fl
          then \<exists>ca. bootstrapState (ae_ids env) (ae_io env) (ae_now env) (ae_draws env) (af_trustDomain fl) (af_dataDir fl) (sw_disk w) =
                 (Inr (ca, rs_encKey (ap_store a)), d) \<and>
               issueSelf (ae_ids env) (ae_now env) (ae_draws env) (af_nodeID fl) ca = Inr (ap_svid a) \<and>
               ap_identity a = Some \<lparr>is_ca = CA.truncate ca, is_joinToken = af_joinToken fl, is_svidTTL = DefaultSVIDTTL,
                 is_dataEncryptionKey = rs_encKey (ap_store a)\<rparr>
          else Enroll (ae_ids env) (ae_dial env) (ae_RequestSVID env) (dr_key (ae_draws env)) (replica_config fl) =
                 Inr (ap_svid a, rs_encKey (ap_store a)) \<and>
               d = sw_disk w \<and> ap_identity a = None \<and>
               joinRaftCluster (ae_dial env) (ae_JoinRaft env) (ae_ids env) (ap_svid a) (cp_expectMember (ap_services a))
                 (af_joinAddr fl) (af_nodeID fl) (af_raftAddr fl) (sw_remote w) = (Inr (), sw_remote w')) \<and>
       (\<exists>v. (if af_insecureSkipImageVerification fl then v = allowAll_Verify
            else verifies_by (ae_ecdsa env) (ae_keys env) (ae_io env) (af_imageTrustFile fl) (af_imagePubKeyFile fl) d v) \<and>
          guards (admitted (splitCSV (af_allowedCapabilities fl)) v) (psv_admission (cp_podSvc (ap_services a))) \<and>
          guards (admitted (splitCSV (af_allowedCapabilities fl)) v) (dsv_admission (cp_deploymentSvc (ap_services a))))) \<and>
    (\<forall>gs. dc_Password (ap_dashboard a gs) = af_dashboardPassword fl) \<and>
    (case ap_session a of None \<Rightarrow> af_dashboardPassword fl = []
     | Some sess \<Rightarrow> af_dashboardPassword fl \<noteq> [] \<and> sa_username sess = af_dashboardUsername fl \<and>
         sa_password sess = af_dashboardPassword fl \<and> ae_secret env = Inr (sa_secret sess))"
proof -
  from assms obtain x w1 where flags: "af_joinToken fl \<noteq> []" "af_bootstrap fl \<or> af_joinAddr fl \<noteq> []"
    and half: "start_replica env fl w = (Inr x, w1)" "start_services env co fl x w1 = (Inr a, w')"
    by (auto simp: apiserver_start_def bindA_Inr throw_def split: if_splits)
  obtain svid ca dek store i where x: "x = (svid, ca, dek, store, i)" by (metis surj_pair)
  note r = started_replica[OF half(1)[unfolded x]]
  note s = started_services[OF half(2)[unfolded x]]
  note src = identity_source[OF r(1), folded replica_config_def]
  have pw: "\<forall>gs. dc_Password (ap_dashboard a gs) = af_dashboardPassword fl" using s(8) by (simp add: dashboard_config_def)
  have key: "rs_encKey (ap_store a) = dek" using r(2) s(2) by simp
  note adm = started_admission[OF half(2)]
  show ?thesis
    using flags key r(3-5) s(1,3-6) pw started_dashboard[OF s(7)] src s(9) adm
    by (intro conjI exI[of _ "sw_disk w1"]) (auto split: if_splits)
qed

text \<open>The second half succeeds when its four parts do.\<close>

lemma start_services_runs:
  assumes "ae_NewEngine env = Inr engine"
    and "loadImageVerifier (ae_ecdsa env) (ae_keys env) (ae_io env) (af_imageTrustFile fl) (af_imagePubKeyFile fl)
      (af_insecureSkipImageVerification fl) (sw_disk w) = Inr verifier"
    and "hostpath_New (ae_io env) (af_nodeID fl) (af_csiHostpathDir fl) (sw_disk w) = (Inr driver, d)" "start_dashboard env fl = Inr sess"
  shows "\<exists>a w'. start_services env co fl x w = (Inr a, w')"
  using assms by (cases x; cases verifier) (simp add: start_services_def start_steps Let_def ret_def)

text \<open>A second replica that joins the leader of the theory \<open>Server\<close>.\<close>

definition no_codec :: "('t, bytes) codec" where
  "no_codec = \<lparr>proto_Marshal = (\<lambda>x. wrong_type), proto_Unmarshal = (\<lambda>b. wrong_type)\<rparr>"

definition ex_byte_codecs :: "bytes codecs" where
  "ex_byte_codecs = \<lparr>co_Pod = no_codec, co_Node = no_codec, co_Deployment = no_codec, co_Volume = no_codec, co_Service = no_codec,
     co_Namespace = no_codec, co_Policy = no_codec, co_NetworkPolicy = no_codec, co_Secret = no_codec, co_ImageRecord = no_codec\<rparr>"

definition ex_start_env where
  "ex_start_env = \<lparr>ae_otel = ex_otel, ae_ids = ex_ids, ae_io = ex_calm, ae_dial = \<lambda>a. None,
     ae_RequestSVID = \<lambda>a. RequestSVID ex_ca_x509 (ex_ca_service\<lparr>is_dataEncryptionKey := replicate 32 CHR ''k''\<rparr>) 0 (Inr 1),
     ae_JoinRaft = serve_join ref_env ex_ids ex_leader ex_trust, ae_MatchMemberOf = \<lambda>td. ex_trust, ae_now = 0, ae_draws = ex_draws,
     ae_raft = ref_env, ae_rand = 0, ae_NewEngine = Inr ex_cel, ae_ecdsa = ex_ecdsa, ae_keys = ex_keys, ae_json = ex_json, ae_float = rat_ops,
     ae_static = Inr (), ae_secret = Inr (replicate 32 CHR ''s'')\<rparr>"

definition ex_joining :: "rat apiserver_flags" where
  "ex_joining = ex_flags\<lparr>af_nodeID := ''n2'', af_bootstrap := False, af_joinAddr := ''cp:7443'', af_joinToken := ''t'', af_insecureSkipImageVerification := True\<rparr>"

definition ex_start_world :: "(string, nat, (bool, nat) RaftStore) start_world" where
  "ex_start_world = \<lparr>sw_disk = [], sw_otel = ex_otel_world, sw_remote = ex_store\<rparr>"

theorem started_api_server_guarded_witness:
  "\<exists>a w'. apiserver_start ex_start_env ex_byte_codecs ex_joining ex_start_world = (Inr a, w') \<and> ap_identity a = None \<and>
     rs_encKey (ap_store a) = replicate 32 CHR ''k'' \<and> cp_authz (ap_services a) = DefaultRBACBindings"
proof -
  let ?half = "start_replica ex_start_env ex_joining ex_start_world"
  let ?run = "apiserver_start ex_start_env ex_byte_codecs ex_joining ex_start_world"
  have "case ?half of (r, w1) \<Rightarrow> \<not> isl r \<and> sw_disk w1 = []"
    by (simp only: start_replica_def ex_start_env_def ex_joining_def ex_flags_def ex_start_world_def apiserver_env.select_convs
        apiserver_flags.select_convs apiserver_flags.update_convs) code_simp
  then obtain x w1 where half: "?half = (Inr x, w1)" "sw_disk w1 = []" by (cases ?half; cases "fst ?half") auto
  have "\<not> isl (fst (hostpath_New (ae_io ex_start_env) (af_nodeID ex_joining) (af_csiHostpathDir ex_joining) []))" by code_simp
  then obtain driver d where csi: "hostpath_New (ae_io ex_start_env) (af_nodeID ex_joining) (af_csiHostpathDir ex_joining) (sw_disk w1) = (Inr driver, d)"
    unfolding half(2) by (metis isl_def prod.collapse sum.collapse(2))
  have verifier: "loadImageVerifier (ae_ecdsa ex_start_env) (ae_keys ex_start_env) (ae_io ex_start_env) (af_imageTrustFile ex_joining)
      (af_imagePubKeyFile ex_joining) (af_insecureSkipImageVerification ex_joining) (sw_disk w1) = Inr (allowAll_Verify, None)"
    by (simp add: ex_joining_def loadImageVerifier_def)
  have parts: "ae_NewEngine ex_start_env = Inr ex_cel" by (simp add: ex_start_env_def)
  obtain sess where dash: "start_dashboard ex_start_env ex_joining = Inr sess"
    by (simp add: start_dashboard_def ex_start_env_def ex_joining_def ex_flags_def newSessionAuth_def)
  have flags: "af_joinToken ex_joining \<noteq> []" "af_joinAddr ex_joining \<noteq> []" by (simp_all add: ex_joining_def)
  obtain a w' where run: "?run = (Inr a, w')"
    using start_services_runs[OF parts verifier csi dash, of ex_byte_codecs x] half(1) flags by (auto simp: apiserver_start_def bindA_Inr)
  have key: "case Enroll (ae_ids ex_start_env) (ae_dial ex_start_env) (ae_RequestSVID ex_start_env) (dr_key (ae_draws ex_start_env))
      (replica_config ex_joining) of Inl e \<Rightarrow> False | Inr (svid, dek) \<Rightarrow> dek = replicate 32 CHR ''k''"
    by (simp only: ex_start_env_def ex_joining_def ex_flags_def replica_config_def apiserver_env.select_convs
        apiserver_flags.select_convs apiserver_flags.update_convs) code_simp
  have "\<not> af_bootstrap ex_joining" by (simp add: ex_joining_def)
  with started_api_server_guarded[OF run] run key show ?thesis by auto
qed

section \<open>A started agent\<close>

text \<open>
  C14: an agent that starts is registered. If \<open>main\<close> of the agent gets as far as running, the control
  plane's address and the join token are set; the agent holds the identity of a node of its own
  name, in the trust domain of the identity service it enrolled with, and the enrolment gave it
  no data-encryption key; its capacity is the CPU, the memory and the accelerators of the flags,
  its address the one of the flag or, without one, of the socket to the control plane; the
  control plane has accepted, over that identity, a node of that name with a fresh heartbeat
  that is ready and has that capacity, all of it allocatable, and that address; and what then runs is for the
  same name and capacity: the heartbeats at the flag's interval, the renewal of the certificate,
  and the agent with empty tables and its tick of two seconds.
\<close>

theorem started_agent_registered:
  assumes "x509_laws X (ie_URIs (ge_ids env)) valid" "id_laws (ge_ids env) X (ca_trustDomain (is_ca svc))"
    and "ge_RequestSVID env = (\<lambda>addr. RequestSVID X svc now serial)" "agent_start env fl w = (Inr p, w')"
  shows "gf_controlPlaneAddr fl \<noteq> [] \<and> gf_joinToken fl \<noteq> [] \<and>
    (\<exists>ident acc capacity ip node st reply.
       Enroll (ge_ids env) (ge_dial env) (ge_RequestSVID env) (ge_draw env) (worker_config fl) = Inr (gp_svid p, []) \<and>
       SVID_ID (ge_ids env) (gp_svid p) = Inr ident \<and> id_Path ident = ''/node/'' @ gf_nodeName fl \<and>
       id_TrustDomain ident = ca_trustDomain (is_ca svc) \<and>
       parseAccelerators (gf_accelerators fl) = Inr acc \<and>
       capacity = \<lparr>rl_cpu_millis = gf_cpuMillis fl, rl_memory_bytes = gf_memoryBytes fl, rl_accelerators = acc\<rparr> \<and>
       (if gf_nodeIP fl = [] then ge_Dial env (gf_controlPlaneAddr fl) = Inr ip else ip = gf_nodeIP fl) \<and>
       ge_CreateNode env (ClientTLSConfig (ge_ids env) (gp_svid p) (ge_MatchMemberOf env (id_TrustDomain ident))) node (sw_remote w) =
         (Inr reply, sw_remote w') \<and>
       map_option meta_name (node_metadata node) = Some (gf_nodeName fl) \<and> node_status node = Some st \<and> nst_ready st \<and>
       nst_capacity st = Some capacity \<and> nst_allocatable st = Some capacity \<and> nst_internal_ip st = ip \<and>
       nst_last_heartbeat_unix st = ge_now env div Second \<and>
       gp_heartbeat p = (gf_nodeName fl, capacity, gf_heartbeatInterval fl) \<and> gp_rotation p = Reenroll (worker_config fl) DefaultSVIDTTL \<and>
       ac_NodeName (at_cfg (gp_agent p)) = gf_nodeName fl \<and> ac_InternalIP (at_cfg (gp_agent p)) = ip \<and>
       at_Interval (gp_agent p) = 2 * Second \<and> at_runtime (gp_agent p) = newProcessRuntime (sw_remote w'))"
proof -
  define cap where "cap acc = \<lparr>rl_cpu_millis = gf_cpuMillis fl, rl_memory_bytes = gf_memoryBytes fl, rl_accelerators = acc\<rparr>" for acc
  from assms(4) obtain svid dek i ip acc reply where flags: "gf_controlPlaneAddr fl \<noteq> []" "gf_joinToken fl \<noteq> []"
    and en: "Enroll (ge_ids env) (ge_dial env) (ge_RequestSVID env) (ge_draw env) (worker_config fl) = Inr (svid, dek)"
    and self: "SVID_ID (ge_ids env) svid = Inr i"
    and ip: "internal_ip (gf_nodeIP fl) (detectOutboundIP (ge_Dial env) (gf_controlPlaneAddr fl)) = Inr ip"
    and acc: "parseAccelerators (gf_accelerators fl) = Inr acc"
    and reg: "ge_CreateNode env (ClientTLSConfig (ge_ids env) svid (ge_MatchMemberOf env (id_TrustDomain i)))
        (registration (gf_nodeName fl) (cap acc) (ge_now env div Second) ip) (sw_remote w) = (Inr reply, sw_remote w')"
    and p: "gp_svid p = svid" "gp_heartbeat p = (gf_nodeName fl, cap acc, gf_heartbeatInterval fl)"
      "gp_rotation p = Reenroll (worker_config fl) DefaultSVIDTTL"
      "ac_NodeName (at_cfg (gp_agent p)) = gf_nodeName fl" "ac_InternalIP (at_cfg (gp_agent p)) = ip"
      "at_Interval (gp_agent p) = 2 * Second" "at_runtime (gp_agent p) = newProcessRuntime (sw_remote w')"
    unfolding agent_start_def cap_def by (clarsimp simp: start_steps throw_def Let_def agent_New_def split: if_splits)
  obtain ident where id: "SVID_ID (ge_ids env) svid = Inr ident" "id_TrustDomain ident = ca_trustDomain (is_ca svc)"
    "role_path (ec_Role (worker_config fl)) (ec_Name (worker_config fl)) = Some (id_Path ident)"
    and dek: "dek = (if ec_Role (worker_config fl) = SVID_ROLE_CONTROL_PLANE then is_dataEncryptionKey svc else [])"
    by (rule enroll_result[OF assms(1,2) en[unfolded assms(3)]])
  then have same: "i = ident" "id_Path ident = ''/node/'' @ gf_nodeName fl" "dek = []" using self by (simp_all add: worker_config_def)
  have addr: "if gf_nodeIP fl = [] then ge_Dial env (gf_controlPlaneAddr fl) = Inr ip else ip = gf_nodeIP fl"
    using ip by (auto simp: internal_ip_def detectOutboundIP_def split: if_splits sum.splits)
  from flags id p reg en acc addr same show ?thesis
    by (intro conjI exI[of _ ident] exI[of _ acc] exI[of _ "cap acc"] exI[of _ ip] exI[of _ reply]
        exI[of _ "registration (gf_nodeName fl) (cap acc) (ge_now env div Second) ip"]
        exI[of _ "the (node_status (registration (gf_nodeName fl) (cap acc) (ge_now env div Second) ip))"])
      (simp_all add: cap_def registration_def)
qed

text \<open>A worker whose name the enrolment of the theory \<open>Loops\<close> uses, registered by a control plane that keeps a list of nodes.\<close>

definition ex_agent_env :: "(string, nat, Node list, string, string, string, string) agent_env" where
  "ex_agent_env = \<lparr>ge_otel = ex_otel, ge_ids = ex_ids, ge_dial = \<lambda>a. None, ge_RequestSVID = \<lambda>addr. RequestSVID ex_ca_x509 ex_ca_service 0 (Inr 1),
     ge_draw = Inr ''k'', ge_MatchMemberOf = \<lambda>td. ex_trust, ge_Dial = \<lambda>a. Inr ''10.0.0.7'', ge_now = 42 * Second,
     ge_CreateNode = \<lambda>t n ns. (Inr n, n # ns)\<rparr>"

definition ex_agent_flags :: agent_flags where
  "ex_agent_flags = \<lparr>gf_nodeName = ''w1'', gf_controlPlaneAddr = ''cp:7443'', gf_joinToken = ''t'', gf_cpuMillis = 2000, gf_memoryBytes = 4096,
     gf_accelerators = ''nvidia.com/gpu=2'', gf_nodeIP = [], gf_heartbeatInterval = 5 * Second, gf_otelExporter = ''none'', gf_otlpEndpoint = [],
     gf_logDir = ''logs'', gf_logAddr = '':10250'', gf_buildDir = ''builds'', gf_buildkitAddr = [], gf_volumesDir = ''volumes'', gf_filesAddr = '':10251''\<rparr>"

theorem started_agent_registered_witness:
  "\<exists>p w' ident. agent_start ex_agent_env ex_agent_flags \<lparr>sw_disk = [], sw_otel = ex_otel_world, sw_remote = []\<rparr> = (Inr p, w') \<and>
     SVID_ID ex_ids (gp_svid p) = Inr ident \<and> id_Path ident = ''/node/w1'' \<and> id_TrustDomain ident = ''nimbus'' \<and>
     rl_accelerators (fst (snd (gp_heartbeat p))) = [(''nvidia.com/gpu'', 2)] \<and>
     map (\<lambda>n. map_option nst_ready (node_status n)) (sw_remote w') = [Some True]"
proof -
  let ?run = "agent_start ex_agent_env ex_agent_flags \<lparr>sw_disk = [], sw_otel = ex_otel_world, sw_remote = []\<rparr>"
  have "\<not> isl (fst ?run)" by code_simp
  then obtain p w' where run: "?run = (Inr p, w')" by (metis isl_def prod.collapse sum.collapse(2))
  have laws: "x509_laws ex_ca_x509 (ie_URIs (ge_ids ex_agent_env)) (\<lambda>_. 3600000000000)"
    "id_laws (ge_ids ex_agent_env) ex_ca_x509 (ca_trustDomain (is_ca ex_ca_service))"
    using ex_client.x509 ex_client.ids by (simp_all add: ex_agent_env_def)
  have rpc: "ge_RequestSVID ex_agent_env = (\<lambda>addr. RequestSVID ex_ca_x509 ex_ca_service 0 (Inr 1))" by (simp add: ex_agent_env_def)
  have gpu: "parseAccelerators (gf_accelerators ex_agent_flags) = Inr [(''nvidia.com/gpu'', 2)]" by code_simp
  from started_agent_registered[OF laws rpc run] run gpu show ?thesis
    by (auto simp: ex_agent_env_def ex_agent_flags_def ex_ca_service_def dest!: sym[of "[n]" for n])
qed

end
