(* ===== verification/Spec2Isabelle.thy ===== *)
theory Spec2Isabelle
  imports Links RaftStore Controllers Footprint Autoscaler ApiServices Services Images NetPolicy Mesh FinOps Federation Identity
    Agent NodePort Leader NodeFiles HostPath VolumeService Session GitOps Dashboard Enrolment Signing Commands
    Wasm Keeps ControlPlane Guarded System Loops Telemetry Server AgentRun Ctl Startup
begin

text \<open>
  NimbusCore, a container orchestrator: a control plane that keeps the state of a cluster in a
  replicated, encrypted key-value store and offers it as gRPC services, controllers that drive
  the stored state towards what is asked for, an agent on every node that runs the pods bound
  to it, a dashboard, and a command-line client. This development models the Go code under
  \<open>src/internal\<close> and \<open>src/cmd\<close> as functions and step relations and proves what makes it
  correct.

  \<^bold>\<open>How the parts interact.\<close> A client's call passes the authentication interceptor
  (\<open>internal/apiserver/auth.go\<close>, \<open>rbac.go\<close>), then the handler of a service, which for pods and
  deployments runs the admission chain, and reads and writes objects through a registry, a typed
  view of the store. On the leader, the manager runs the controllers, which read the registries
  and write them: deployments become pods, pods are bound to nodes by the scheduler, nodes that
  stop reporting become not ready, the autoscaler changes replica counts, the GitOps reconciler
  stores manifests from a repository, and the rotation of the data-encryption key re-encrypts the
  store. The agent asks the API server for its pods, starts and stops processes, WebAssembly
  modules and containers, forwards node ports, and reports status. Identities are X.509
  certificates with SPIFFE names, issued by the CA of the bootstrap replica. The dashboard's HTTP
  handlers call the same services behind a login session.

  \<^bold>\<open>Conventions.\<close>
  \<^item> A Go error is a value of \<open>error\<close>; a function that may fail returns \<open>'a res = error + 'a\<close>;
    an operation on a state is an \<open>('s, 'a) action = 's \<Rightarrow> 'a res \<times> 's\<close>, so what a failing
    operation has already written is part of its result. A panic is the error \<open>ErrPanic\<close>, a
    \<open>log.Fatal\<close> an error of the command. Of an error text the constant part is kept.
  \<^item> A struct is a record; a pointer that the code tests for nil is an option; getters are the
    generated ones and accept nil. Integers are \<open>int\<close> kept in range by \<open>wrap64\<close> and \<open>wrap32\<close>
    where the code computes with them; times are nanoseconds or seconds as in the code.
  \<^item> A Go map is an association list in the order in which the code ranges over it; the theorems
    hold for every such list, hence for every order.
  \<^item> Code outside the repository is a parameter: Raft, AES-GCM and the nonce source
    (\<open>raft_env\<close>), protobuf (\<open>codec\<close>), CEL (\<open>cel_env\<close>), X.509, SPIFFE and PEM (\<open>x509_env\<close>,
    \<open>id_env\<close>, \<open>key_env\<close>), ECDSA, HMAC, JSON, floating point, go-git (\<open>git_env\<close>), and containerd,
    buildctl, wazero and the operating system of a node (\<open>host\<close>). What the code relies on is a
    named hypothesis (\<open>registry_laws\<close>, \<open>x509_laws\<close>, \<open>id_laws\<close>, \<open>persist_laws\<close>, \<open>signing_laws\<close>,
    \<open>json_laws\<close>, and the locales below), and witnesses discharge them on concrete functions.
  \<^item> The operating system's file calls take an environment (\<open>io_env\<close>) that says which of them fail
    and how much of a failing creation, write or removal has happened by then; where a property is
    about several requests or driver calls, each has an environment of its own. The file
    server and the publishing of volumes work on the tree with links (\<open>ltree\<close>); the controller
    half of the CSI driver, the bootstrap state, the keys, the trust file and the checkout of a repository are on
    a tree without links.
  \<^item> A loop that waits (for a tick, an event, the end of its context) is a function of the events it
    sees, in the order in which \<open>select\<close> takes them; the mutex of an object makes its operations steps.
    Where two calls can overlap and it matters, their halves are separate definitions.

  \<^bold>\<open>Theories.\<close>
  \<^item> \<open>Prelude\<close>: errors, actions, machine arithmetic, strings, decimal numbers, maps, and the proof
    collections the others use. \<open>Paths\<close> (\<open>filepath.Clean\<close>, \<open>Join\<close>, \<open>Rel\<close>), \<open>Disk\<close> (a tree of
    files and directories), \<open>Links\<close> (the same tree with symbolic links, which paths follow),
    \<open>Http\<close> (requests and answers).
  \<^item> \<open>Store\<close>, \<open>Registry\<close>: \<open>store.go\<close> and \<open>registry.go\<close>. The locale \<open>store_laws\<close> states what a store
    promises, \<open>registry_laws\<close> what a registry gives over any such store; both stores interpret it.
    \<open>RaftStore\<close>: \<open>raft.go\<close>, \<open>crypto.go\<close>, \<open>key_rotation.go\<close>: the encrypted replicated store refines
    a map, and rotations keep values readable.
  \<^item> \<open>Api\<close>: the messages of \<open>api/v1\<close> and their getters. \<open>Cluster\<close>: the kinds of objects in one store
    and the invariant that objects lie under their own keys (locale \<open>cluster\<close>).
  \<^item> \<open>Scheduler\<close>, \<open>Scheduling\<close>: \<open>scheduler.go\<close>, \<open>scheduling.go\<close>: best fit, and that a chosen node is
    ready and has room. \<open>Deployments\<close>, \<open>Controllers\<close>, \<open>Autoscaler\<close>: \<open>deployment.go\<close>; \<open>pod.go\<close> and
    \<open>node_health.go\<close>; \<open>hpa.go\<close> and \<open>capacity.go\<close>: what a pass reaches, its bounds and its panic.
    \<open>Footprint\<close>: the entries of the store that a pass over a deployment can change, whatever its
    outcome, by the rules of \<open>Keeps\<close>. \<open>Leader\<close>: \<open>manager.go\<close>: one term at a time, and termination.
  \<^item> \<open>Admission\<close>: \<open>internal/admission\<close> and \<open>policy/engine.go\<close>: the chain and its validators, and that the
    cache of compiled policies changes no verdict. \<open>Rbac\<close>: roles and the interceptor.
    \<open>ApiServices\<close>, \<open>Services\<close>, \<open>Federation\<close>, \<open>Identity\<close>, \<open>VolumeService\<close>: the handlers of
    \<open>internal/apiserver\<close>, and with \<open>HostPath\<close> the effect of volume calls on disk.
  \<^item> \<open>Enrolment\<close>: \<open>svid.go\<close>, \<open>enroll.go\<close>, \<open>rotate.go\<close>, \<open>persist.go\<close>, \<open>ca.go\<close> and the start of a
    replica: identities survive renewals and restarts. \<open>Images\<close>, \<open>Signing\<close>: signatures in memory,
    and the way from \<open>nimbusctl sign-image\<close> to the verifier of the API server.
  \<^item> \<open>Containers\<close>, \<open>Agent\<close>, \<open>NodePort\<close>, \<open>NodeFiles\<close>: \<open>internal/agent\<close>. The process table as an
    invariant of the agent's steps, what a tick reaches, when a missing task counts as an exit and what exits lead to, the
    open ports, and on a tree with links that file requests stay in a volume whose links do and
    that what is written is read back. \<open>HostPath\<close>: the CSI driver refines a table, with
    calls that fail half-way.
  \<^item> \<open>Session\<close>, \<open>Dashboard\<close>, \<open>GitOps\<close>: sessions, every dashboard handler and the routing, and the
    synchronisation with a repository. \<open>NetPolicy\<close>, \<open>Mesh\<close>, \<open>FinOps\<close>: the policy engine, the client
    interceptor with its circuit breaker, and cost reports. \<open>Commands\<close>: \<open>src/cmd\<close>.
  \<^item> \<open>Wasm\<close>, \<open>Telemetry\<close>: \<open>wasmrt/runtime.go\<close> and \<open>telemetry.go\<close>. \<open>Loops\<close>: the \<open>Reconcile\<close> loops of the
    controllers, the heartbeats and the renewal of certificates (locale \<open>ticker\<close>: what a body keeps, its
    loop keeps). \<open>AgentRun\<close>: \<open>Agent.Run\<close> and what a run leaves; \<open>proxyConn\<close>.
  \<^item> \<open>Server\<close>: \<open>server.go\<close>, the TLS configurations of \<open>svid.go\<close> and \<open>joinRaftCluster\<close>: who may join.
  \<^item> \<open>ControlPlane\<close>: the services and controllers of \<^verbatim>\<open>cmd/nimbus-apiserver/main.go\<close> on one store, every RPC
    behind the interceptor, and runs of calls in any order. \<open>Keeps\<close>: a small program logic for actions
    that keep an invariant of a store, with the rules for registries (locale \<open>entry_guard\<close>). \<open>Guarded\<close>: by these rules
    every handler, dashboard page and controller keeps that stored pods and templates satisfy a given
    predicate (locale \<open>pod_guard\<close>). \<open>System\<close>: what is stored has been admitted, and what a node's
    credential can change.
  \<^item> \<open>Startup\<close>: the main functions of the API server and the agent, from the flags to what runs: the
    keys, the admission chain and the interceptor of a server that serves, and the node an agent registers.
    \<open>Ctl\<close>: \<open>nimbusctl\<close>, and the way of a workload from its command line through the API
    and the controller to pods.
  \<^item> This theory: heartbeats and the node-health controller together.

  \<^bold>\<open>Loops and bounds.\<close> Every loop of the code ranges over a list or counts down, and its model
  is structural recursion or, for the two that skip numbers already taken (pod indices and node
  ports), a \<open>function\<close> with a termination proof; nothing is cut off by fuel. A loop that waits for
  events is recursion over the events it sees, with a result that says whether it still waits. Two more can run for
  ever and are models of their own: the agent's tick returns an option, \<open>None\<close> being the tick that blocks on the exit
  channel, which only happens when the exits it finds do not fit; the leader loop is a step relation with a rank that
  bounds the steps after shutdown.

  \<^bold>\<open>What is trusted.\<close> Runs of the control plane take restored backups and manifests from Git as they
  are: both are written past admission, and the theorem on stored containers asks them to satisfy
  the predicate themselves. Key rotation, joining, enrolment and federation act on other
  state and are no calls of such a run; they have properties of their own.

  \<^bold>\<open>Not modelled.\<close> Flag parsing (\<open>flag\<close>, cobra), binding and serving HTTP listeners, generated
  protobuf and gRPC code beyond messages, getters and method names, and the metrics counters are
  calls into libraries with no state of the program's own. The length of sleeps, the scheduling of
  goroutines and the size of the pieces in which a proxy copies are not visible in the state. Of a TLS handshake
  only the checks of certificates are represented. Permissions and ownership of files and
  hard links are not represented. Enum values outside the declared ones and UTF-8 beyond bytes are not
  represented. Log lines are left out, except where the code's result depends on them.
\<close>

section \<open>Heartbeats and the node-health controller\<close>

lemma Heartbeat_ok:
  assumes "cluster S good repr CP CN CD CV" "cluster_ok good repr CP CN CD CV s"
    and "Heartbeat (reg_New S kNodes CN) t name capacity allocatable s = (Inr True, s')"
  shows "cluster_ok good repr CP CN CD CV s' \<and>
    (\<exists>n. obj_at repr CN kNodes s (key_of kNodes [] name) = Some n \<and>
       obj_at repr CN kNodes s' = (obj_at repr CN kNodes s)(key_of kNodes [] name \<mapsto> beat t capacity allocatable n))"
proof -
  note okd = cluster.okD[OF assms(1,2)]
  have nodes: "registry_laws S good repr CN" using assms(1) by (simp add: cluster_def)
  from assms(3) obtain n where get: "reg_Get (reg_New S kNodes CN) [] name s = Inr n"
    and put: "reg_Put (reg_New S kNodes CN) [] name (beat t capacity allocatable n) s = (Inr (), s')"
    by (auto simp: Heartbeat_def api_get_def bindA_Inr ret_def)
  from get registry_laws.reg_Get_obj_at[OF nodes okd(1,3), of "[]" name]
  have at: "obj_at repr CN kNodes s (key_of kNodes [] name) = Some n"
    by (auto split: option.splits)
  from okd(7)[OF at] have "name = node_name (beat t capacity allocatable n)"
    by (simp add: beat_def Let_def)
  note p = cluster.put_node[OF assms(1,2) this, unfolded put snd_conv]
  from p(1) p(4)[OF refl] at show ?thesis by blast
qed

lemma beat_fields [simp]:
  "node_ready (beat t capacity allocatable n)"
  "NodeStatus_GetLastHeartbeatUnix (node_status (beat t capacity allocatable n)) = t"
  by (simp_all add: beat_def Let_def)

text \<open>
  C24: a node that reports in time stays ready. After a successful heartbeat at time \<open>t\<close>
  (nanoseconds; the handler stores whole seconds), a pass of the node-health controller that
  starts no later than the timeout after it leaves the node ready, whatever its state was
  before.
\<close>

theorem heartbeat_keeps_ready:
  assumes "cluster S good repr CP CN CD CV" "cluster_ok good repr CP CN CD CV s"
    and "Heartbeat (reg_New S kNodes CN) (t div Second) name capacity allocatable s = (Inr True, s1)"
    and "r = NewNodeHealthReconciler (reg_New S kNodes CN) timeout rs" "now - t \<le> nhr_timeout r"
  shows "\<exists>n. reg_Get (reg_New S kNodes CN) [] name (checkAll r now s1) = Inr n \<and> node_ready n"
proof -
  from Heartbeat_ok[OF assms(1-3)] obtain n where ok1: "cluster_ok good repr CP CN CD CV s1"
    and at: "obj_at repr CN kNodes s1 (key_of kNodes [] name) = Some (beat (t div Second) capacity allocatable n)"
    by auto
  let ?n = "beat (t div Second) capacity allocatable n"
  have "now - nhr_timeout r \<le> t" using assms(5) by linarith
  then have "health_cutoff r now \<le> t div Second"
    unfolding health_cutoff_def by (rule zdiv_mono1) (simp add: Second_def)
  then have fresh: "\<not> stale (health_cutoff r now) ?n" by (simp add: stale_def)
  note c = cluster.checkAll_ok[OF assms(1) ok1, of timeout rs now, folded assms(4)]
  from c at fresh have "obj_at repr CN kNodes (checkAll r now s1) (key_of kNodes [] name) = Some ?n" by blast
  moreover have "registry_laws S good repr CN" using assms(1) by (simp add: cluster_def)
  moreover note cluster.okD(1,3)[OF assms(1) c[THEN conjunct1]]
  ultimately show ?thesis using registry_laws.reg_Get_obj_at by fastforce
qed

theorem heartbeat_keeps_ready_witness:
  "\<exists>n. reg_Get (reg_New memStore kNodes node_codec) [] ''n1''
     (checkAll (NewNodeHealthReconciler (reg_New memStore kNodes node_codec) 0 0) (25 * Second)
        (snd (Heartbeat (reg_New memStore kNodes node_codec) 10 ''n1'' None None ex_state))) = Inr n \<and> node_ready n"
proof -
  let ?run = "Heartbeat (reg_New memStore kNodes node_codec) (10 * Second div Second) ''n1'' None None ex_state"
  have t: "10 * Second div Second = 10" by (simp add: Second_def)
  have "fst ?run = Inr True" by code_simp
  then have run: "?run = (Inr True, snd ?run)" by (metis prod.collapse)
  have "25 * Second - 10 * Second \<le> nhr_timeout (NewNodeHealthReconciler (reg_New memStore kNodes node_codec) 0 0)"
    by (simp add: NewNodeHealthReconciler_def Second_def)
  from heartbeat_keeps_ready[OF mem_cluster.cluster_axioms ex_state_ok run refl this] show ?thesis unfolding t .
qed

end
